(* ===== verification/Machine.thy ===== *)
theory Machine
  imports Main "HOL-Library.Word" "HOL-Library.Multiset"
begin

text \<open>
  Prelude of the development: the machine integers of the Rust sources and the generic
  facts on words, lists and options that the component theories share.

  \<^item> \<open>u8\<close> .. \<open>u64\<close> are words of that width; \<open>usize\<close> is the 64-bit word of the
    targets the repository supports.  \<open>+\<close>, \<open>-\<close> and \<open>*\<close> wrap, as they do in the
    release profile (Cargo.toml leaves \<open>overflow-checks\<close> at the release default);
    \<open>sat_add\<close>, \<open>sat_sub\<close> and \<open>sat_mul\<close> are Rust's saturating operations.
  \<^item> \<open>find_idx\<close> is \<open>Iterator::position\<close>, \<open>map_first\<close> is the idiom
    \<open>iter_mut().find(p)\<close> followed by a write through the reference.
  \<^item> The collections \<open>nat_of_word\<close> (move word arithmetic to \<open>nat\<close>) and
    \<open>engine_defs\<close> (the small accessors of the components) carry most proofs.
\<close>

unbundle bit_operations_syntax

named_theorems nat_of_word
named_theorems engine_defs

section \<open>Machine integers\<close>

type_synonym u8 = "8 word"
type_synonym u16 = "16 word"
type_synonym u32 = "32 word"
type_synonym u64 = "64 word"
type_synonym usize = "64 word"

definition sat_add :: "'a::len word \<Rightarrow> 'a word \<Rightarrow> 'a word" where
  "sat_add a b = (if unat a + unat b < 2 ^ LENGTH('a) then a + b else - 1)"

definition sat_sub :: "'a::len word \<Rightarrow> 'a word \<Rightarrow> 'a word" where
  "sat_sub a b = (if b \<le> a then a - b else 0)"

definition sat_mul :: "'a::len word \<Rightarrow> 'a word \<Rightarrow> 'a word" where
  "sat_mul a b = (if unat a * unat b < 2 ^ LENGTH('a) then a * b else - 1)"

text \<open>The length of a \<open>Vec\<close> as the \<open>usize\<close> that \<open>len()\<close> returns.\<close>

definition vlen :: "'a list \<Rightarrow> usize" where
  "vlen xs = word_of_nat (length xs)"

text \<open>
  Rust bounds the size of an allocation by \<open>isize::MAX\<close> bytes; every element type the
  models index with a \<open>usize\<close> is at least two bytes wide, so a \<open>Vec\<close> has fewer than
  \<open>2 ^ 62\<close> elements.  Theorems that rely on it say so with \<open>vec_ok\<close>.
\<close>

definition vec_ok :: "'a list \<Rightarrow> bool" where
  "vec_ok xs \<longleftrightarrow> length xs < 2 ^ 62"

section \<open>Moving words to natural numbers\<close>

lemma unat_sat_add [nat_of_word]:
  "unat (sat_add a b) = min (unat a + unat b) (2 ^ LENGTH('a) - 1)"
  for a b :: "'a::len word"
  by (auto simp: sat_add_def unat_word_ariths unsigned_minus_1_eq_mask mask_eq_exp_minus_1)

lemma unat_sat_sub [nat_of_word]: "unat (sat_sub a b) = unat a - unat b"
  by (auto simp: sat_sub_def word_le_nat_alt unat_sub)

lemma unat_min [nat_of_word]: "unat (min a b) = min (unat a) (unat b)"
  for a b :: "'a::len word"
  by (auto simp: min_def word_le_nat_alt)

lemma unat_max [nat_of_word]: "unat (max a b) = max (unat a) (unat b)"
  for a b :: "'a::len word"
  by (auto simp: max_def word_le_nat_alt)

lemma unat_vlen [nat_of_word]: "unat (vlen xs) = length xs mod 2 ^ 64"
  by (simp add: vlen_def unat_of_nat)

lemma unat_vlen_ok: "vec_ok xs \<Longrightarrow> unat (vlen xs) = length xs"
  by (simp add: vec_ok_def nat_of_word)

lemma unat_sub_le: "b \<le> a \<Longrightarrow> unat (a - b) = unat a - unat b"
  for a b :: "'a::len word"
  by (simp add: unat_sub word_le_nat_alt)

lemma unat_add_small:
  "unat a + unat b < 2 ^ LENGTH('a) \<Longrightarrow> unat (a + b) = unat a + unat b"
  for a b :: "'a::len word"
  by (simp add: unat_word_ariths)

lemma unat_mul_small:
  "unat a * unat b < 2 ^ LENGTH('a) \<Longrightarrow> unat (a * b) = unat a * unat b"
  for a b :: "'a::len word"
  by (simp add: unat_word_ariths)

lemma unat64_less: "unat (a :: 64 word) < 18446744073709551616"
  using unsigned_less [of a] by simp

lemma unat64_lt: "unat (a :: 64 word) < 2 ^ 64"
  using unat64_less [of a] by simp

lemmas word_order_nat = word_less_nat_alt word_le_nat_alt

lemma word_eq_nat: "a = b \<longleftrightarrow> unat a = unat b"
  for a b :: "'a::len word"
  by (simp add: word_unat_eq_iff)

lemma unat_inc: "unat u + 1 < 2 ^ LENGTH('a)" if "u \<noteq> - 1" for u :: "'a::len word"
proof -
  have "unat u \<noteq> 2 ^ LENGTH('a) - 1"
    using that by (simp add: word_eq_nat unsigned_minus_1_eq_mask mask_eq_exp_minus_1)
  moreover have "unat u < 2 ^ LENGTH('a)" by (rule unsigned_less)
  ultimately show ?thesis by linarith
qed

lemma word_less_inc: "u < u + 1" if "u \<noteq> - 1" for u :: "'a::len word"
  using unat_add_small [of u 1] unat_inc [OF that] by (simp add: word_less_nat_alt)

lemma sat_add_one: "sat_add m 1 = (if m = - 1 then - 1 else m + 1)" for m :: "'a::len word"
  using unat_inc [of m] by (auto simp: sat_add_def unsigned_minus_1_eq_mask mask_eq_exp_minus_1)

declare unat_div_distrib [nat_of_word] unat_mod_distrib [nat_of_word]
declare word_less_nat_alt [nat_of_word] word_le_nat_alt [nat_of_word]

section \<open>Lists\<close>

fun find_idx :: "('a \<Rightarrow> bool) \<Rightarrow> 'a list \<Rightarrow> nat option" where
  "find_idx p [] = None"
| "find_idx p (x # xs) = (if p x then Some 0 else map_option Suc (find_idx p xs))"

fun map_first :: "('a \<Rightarrow> bool) \<Rightarrow> ('a \<Rightarrow> 'a) \<Rightarrow> 'a list \<Rightarrow> 'a list" where
  "map_first p f [] = []"
| "map_first p f (x # xs) = (if p x then f x # xs else x # map_first p f xs)"

text \<open>\<open>Iterator::min_by_key\<close>: the first element among those with the least key.\<close>

fun min_by :: "('a \<Rightarrow> 'k::linorder) \<Rightarrow> 'a list \<Rightarrow> 'a option" where
  "min_by k [] = None"
| "min_by k (x # xs) =
     (case min_by k xs of None \<Rightarrow> Some x
      | Some y \<Rightarrow> if k y < k x then Some y else Some x)"

definition remove_at :: "nat \<Rightarrow> 'a list \<Rightarrow> 'a list" where
  "remove_at i xs = take i xs @ drop (Suc i) xs"

definition insert_at :: "nat \<Rightarrow> 'a \<Rightarrow> 'a list \<Rightarrow> 'a list" where
  "insert_at i x xs = take i xs @ x # drop i xs"

lemma find_idx_Some:
  "find_idx p xs = Some i \<Longrightarrow> i < length xs \<and> p (xs ! i) \<and> (\<forall>j<i. \<not> p (xs ! j))"
proof (induction xs arbitrary: i)
  case Nil
  then show ?case by simp
next
  case (Cons x xs)
  show ?case
  proof (cases "p x")
    case True
    with Cons.prems show ?thesis by simp
  next
    case False
    with Cons.prems obtain k where "find_idx p xs = Some k" "i = Suc k" by auto
    with Cons.IH [of k] False show ?thesis by (auto simp: nth_Cons' less_Suc_eq_0_disj)
  qed
qed

lemma find_idx_None [simp]: "find_idx p xs = None \<longleftrightarrow> (\<forall>x\<in>set xs. \<not> p x)"
  by (induction xs) auto

lemma length_map_first [simp]: "length (map_first p f xs) = length xs"
  by (induction xs) auto

lemma map_map_first [simp]:
  "(\<And>x. g (f x) = g x) \<Longrightarrow> map g (map_first p f xs) = map g xs"
  by (induction xs) auto

lemma map_first_ident: "\<forall>x\<in>set xs. \<not> p x \<Longrightarrow> map_first p f xs = xs"
  by (induction xs) auto

lemma set_map_first: "x \<in> set (map_first p f xs) \<Longrightarrow> x \<in> set xs \<or> (\<exists>y\<in>set xs. p y \<and> x = f y)"
  by (induction xs) (auto split: if_splits)

lemma find_map_first:
  "(\<And>x. p (f x) = p x) \<Longrightarrow> find p (map_first p f xs) = map_option f (find p xs)"
  by (induction xs) auto

lemma min_by_None [simp]: "min_by k xs = None \<longleftrightarrow> xs = []"
  by (cases xs) (auto split: option.splits)

lemma min_by_Some:
  "min_by k xs = Some x \<Longrightarrow> x \<in> set xs \<and> (\<forall>y\<in>set xs. k x \<le> k y)"
  by (induction xs arbitrary: x) (auto split: option.splits if_splits)

lemma length_remove_at [simp]: "i < length xs \<Longrightarrow> length (remove_at i xs) = length xs - 1"
  by (simp add: remove_at_def)

lemma length_insert_at [simp]: "i \<le> length xs \<Longrightarrow> length (insert_at i x xs) = Suc (length xs)"
  by (simp add: insert_at_def)

lemma nth_remove_at:
  "i < length xs \<Longrightarrow> j < length xs - 1 \<Longrightarrow> remove_at i xs ! j = (if j < i then xs ! j else xs ! Suc j)"
  by (auto simp: remove_at_def nth_append)

lemma nth_insert_at:
  "i \<le> length xs \<Longrightarrow> j \<le> length xs \<Longrightarrow>
   insert_at i x xs ! j = (if j < i then xs ! j else if j = i then x else xs ! (j - 1))"
  by (auto simp: insert_at_def nth_append nth_Cons')

lemma insert_remove_at: "i < length xs \<Longrightarrow> insert_at i (xs ! i) (remove_at i xs) = xs"
  by (simp add: insert_at_def remove_at_def id_take_nth_drop [symmetric] min_def)

lemma mset_remove_at: "i < length xs \<Longrightarrow> mset xs = add_mset (xs ! i) (mset (remove_at i xs))"
  by (subst id_take_nth_drop [of i xs]) (simp_all add: remove_at_def)

section \<open>Strings and lists\<close>

text \<open>Decimal numbers, as \<open>format!\<close> prints them.\<close>

fun show_nat :: "nat \<Rightarrow> string" where
  "show_nat n = (if n < 10 then [char_of (48 + n)] else show_nat (n div 10) @ [char_of (48 + n mod 10)])"

text \<open>\<open>Vec::get\<close> with an index.\<close>

definition nth_opt :: "'a list \<Rightarrow> nat \<Rightarrow> 'a option" where
  "nth_opt xs i = (if i < length xs then Some (xs ! i) else None)"

lemma nth_opt_Some: "nth_opt xs i = Some x \<longleftrightarrow> i < length xs \<and> x = xs ! i"
  by (auto simp: nth_opt_def)

lemma nth_opt_None: "nth_opt xs i = None \<longleftrightarrow> length xs \<le> i"
  by (auto simp: nth_opt_def)

end
