(* ===== verification/Ieee.thy ===== *)
theory Ieee
  imports Machine "HOL-Library.Log_Nat"
begin

text \<open>
  IEEE-754 binary32 and binary64 as Rust's \<open>f32\<close> and \<open>f64\<close> use them, executable: a
  finite number is its exact rational value, every operation computes the exact result and
  rounds it once (to nearest, ties to even), with subnormals, overflow to infinity, signed
  zeros and NaN.  One datatype serves both widths; the operations take the format.
  \<open>Num 0\<close> is \<open>+0.0\<close>, \<open>NegZero\<close> is \<open>-0.0\<close>; NaN payloads are not distinguished
  (no component reads them).  The lemmas give what the components need: rounding is
  monotone, keeps representable values, and the clamped or scaled results stay in range.
\<close>

named_theorems fp_defs

section \<open>Values and formats\<close>

datatype fp = NaN | PosInf | NegInf | NegZero | Num rat

type_synonym f32 = fp
type_synonym f64 = fp

datatype fmt = F32 | F64

fun prec :: "fmt \<Rightarrow> int" where
  "prec F32 = 24"
| "prec F64 = 53"

text \<open>The exponent of the least subnormal, and the largest finite value.\<close>

fun qmin :: "fmt \<Rightarrow> int" where
  "qmin F32 = - 149"
| "qmin F64 = - 1074"

fun fmax_val :: "fmt \<Rightarrow> rat" where
  "fmax_val F32 = (2 ^ 24 - 1) * 2 ^ 104"
| "fmax_val F64 = (2 ^ 53 - 1) * 2 ^ 971"

section \<open>Rounding\<close>

text \<open>The integer nearest to \<open>y\<close>, ties to even.\<close>

definition rnd_even :: "rat \<Rightarrow> int" where
  "rnd_even y =
     (let f = \<lfloor>y\<rfloor>; d = y - of_int f
      in if d < 1 / 2 then f else if 1 / 2 < d then f + 1
         else if even f then f else f + 1)"

text \<open>The exponent \<open>k\<close> with \<open>2 ^ k \<le> x < 2 ^ (k + 1)\<close>, for \<open>0 < x\<close>.\<close>

definition ilog2 :: "rat \<Rightarrow> int" where
  "ilog2 x =
     (let (a, b) = quotient_of x; k = bitlen a - bitlen b
      in if 2 powi k \<le> x then k else k - 1)"

definition ulp_exp :: "fmt \<Rightarrow> rat \<Rightarrow> int" where
  "ulp_exp fm x = max (ilog2 \<bar>x\<bar> - prec fm + 1) (qmin fm)"

definition round_q :: "fmt \<Rightarrow> rat \<Rightarrow> rat" where
  "round_q fm x =
     (if x = 0 then 0
      else of_int (rnd_even (x / 2 powi ulp_exp fm x)) * 2 powi ulp_exp fm x)"

text \<open>
  The rounded value as a float: overflow gives an infinity, an underflow to zero keeps the
  sign of the exact result, and an exact zero takes the sign \<open>nz\<close> that the operation
  prescribes.
\<close>

definition mk :: "fmt \<Rightarrow> bool \<Rightarrow> rat \<Rightarrow> fp" where
  "mk fm nz x =
     (let r = round_q fm x
      in if fmax_val fm < r then PosInf
         else if r < - fmax_val fm then NegInf
         else if r = 0 \<and> (x < 0 \<or> x = 0 \<and> nz) then NegZero
         else Num r)"

section \<open>Classification and sign\<close>

fun is_finite :: "fp \<Rightarrow> bool" where
  "is_finite NegZero = True"
| "is_finite (Num _) = True"
| "is_finite _ = False"

fun val :: "fp \<Rightarrow> rat" where
  "val (Num r) = r"
| "val _ = 0"

fun sign_bit :: "fp \<Rightarrow> bool" where
  "sign_bit NegInf = True"
| "sign_bit NegZero = True"
| "sign_bit (Num r) = (r < 0)"
| "sign_bit _ = False"

fun fneg :: "fp \<Rightarrow> fp" where
  "fneg NaN = NaN"
| "fneg PosInf = NegInf"
| "fneg NegInf = PosInf"
| "fneg NegZero = Num 0"
| "fneg (Num r) = (if r = 0 then NegZero else Num (- r))"

fun fabs :: "fp \<Rightarrow> fp" where
  "fabs NaN = NaN"
| "fabs PosInf = PosInf"
| "fabs NegInf = PosInf"
| "fabs NegZero = Num 0"
| "fabs (Num r) = Num \<bar>r\<bar>"

definition inf_of :: "bool \<Rightarrow> fp" where
  "inf_of neg = (if neg then NegInf else PosInf)"

definition zero_of :: "bool \<Rightarrow> fp" where
  "zero_of neg = (if neg then NegZero else Num 0)"

section \<open>Arithmetic\<close>

definition fadd :: "fmt \<Rightarrow> fp \<Rightarrow> fp \<Rightarrow> fp" where
  "fadd fm a b =
     (if a = NaN \<or> b = NaN then NaN
      else if a = PosInf then (if b = NegInf then NaN else PosInf)
      else if a = NegInf then (if b = PosInf then NaN else NegInf)
      else if \<not> is_finite b then b
      else mk fm (a = NegZero \<and> b = NegZero) (val a + val b))"

definition fsub :: "fmt \<Rightarrow> fp \<Rightarrow> fp \<Rightarrow> fp" where
  "fsub fm a b = fadd fm a (fneg b)"

definition fmul :: "fmt \<Rightarrow> fp \<Rightarrow> fp \<Rightarrow> fp" where
  "fmul fm a b =
     (let s = (sign_bit a \<noteq> sign_bit b)
      in if a = NaN \<or> b = NaN then NaN
         else if \<not> is_finite a \<or> \<not> is_finite b
           then (if is_finite a \<and> val a = 0 \<or> is_finite b \<and> val b = 0 then NaN else inf_of s)
         else mk fm s (val a * val b))"

definition fdiv :: "fmt \<Rightarrow> fp \<Rightarrow> fp \<Rightarrow> fp" where
  "fdiv fm a b =
     (let s = (sign_bit a \<noteq> sign_bit b)
      in if a = NaN \<or> b = NaN then NaN
         else if \<not> is_finite a then (if is_finite b then inf_of s else NaN)
         else if \<not> is_finite b then zero_of s
         else if val b = 0 then (if val a = 0 then NaN else inf_of s)
         else mk fm s (val a / val b))"

text \<open>Truncation toward zero, and Rust's \<open>%\<close> on floats (C's \<open>fmod\<close>: always exact).\<close>

definition trunc_rat :: "rat \<Rightarrow> int" where
  "trunc_rat x = (if x < 0 then \<lceil>x\<rceil> else \<lfloor>x\<rfloor>)"

definition frem :: "fp \<Rightarrow> fp \<Rightarrow> fp" where
  "frem a b =
     (if a = NaN \<or> b = NaN \<or> \<not> is_finite a \<or> is_finite b \<and> val b = 0 then NaN
      else if \<not> is_finite b then a
      else let r = val a - val b * of_int (trunc_rat (val a / val b))
           in if r = 0 then zero_of (sign_bit a) else Num r)"

text \<open>\<open>f64::round\<close>: to the nearest integer, halves away from zero; and \<open>floor\<close>.\<close>

fun fround :: "fp \<Rightarrow> fp" where
  "fround (Num r) =
     (let n = (if r < 0 then - \<lfloor>- r + 1 / 2\<rfloor> else \<lfloor>r + 1 / 2\<rfloor>)
      in if n = 0 \<and> r < 0 then NegZero else Num (of_int n))"
| "fround x = x"

fun ffloor :: "fp \<Rightarrow> fp" where
  "ffloor (Num r) = Num (of_int \<lfloor>r\<rfloor>)"
| "ffloor x = x"

section \<open>Comparison\<close>

text \<open>Every comparison with NaN is false; the two zeros are equal.\<close>

fun lt :: "fp \<Rightarrow> fp \<Rightarrow> bool" where
  "lt NaN _ = False"
| "lt _ NaN = False"
| "lt PosInf _ = False"
| "lt NegInf b = (b \<noteq> NegInf)"
| "lt _ PosInf = True"
| "lt _ NegInf = False"
| "lt a b = (val a < val b)"

definition feq :: "fp \<Rightarrow> fp \<Rightarrow> bool" where
  "feq a b \<longleftrightarrow> a \<noteq> NaN \<and> b \<noteq> NaN \<and>
     (if is_finite a \<and> is_finite b then val a = val b else a = b)"

definition le :: "fp \<Rightarrow> fp \<Rightarrow> bool" where
  "le a b \<longleftrightarrow> lt a b \<or> feq a b"

text \<open>
  \<open>f32::max\<close> and \<open>min\<close> return the other operand of a NaN; \<open>clamp\<close> keeps NaN.  Of two
  zeros Rust may return either; the model returns the first.
\<close>

definition fmax :: "fp \<Rightarrow> fp \<Rightarrow> fp" where
  "fmax a b = (if a = NaN then b else if b = NaN then a else if lt a b then b else a)"

definition fmin :: "fp \<Rightarrow> fp \<Rightarrow> fp" where
  "fmin a b = (if a = NaN then b else if b = NaN then a else if lt b a then b else a)"

definition fclamp :: "fp \<Rightarrow> fp \<Rightarrow> fp \<Rightarrow> fp" where
  "fclamp x lo hi = (let y = (if lt x lo then lo else x) in if lt hi y then hi else y)"

section \<open>Conversions\<close>

text \<open>\<open>as\<close> casts: integer to float rounds, float to integer truncates and saturates.\<close>

definition of_u64 :: "fmt \<Rightarrow> 'a::len word \<Rightarrow> fp" where
  "of_u64 fm n = Num (round_q fm (of_nat (unat n)))"

fun to_word :: "fp \<Rightarrow> 'a::len word" where
  "to_word NaN = 0"
| "to_word PosInf = - 1"
| "to_word NegInf = 0"
| "to_word NegZero = 0"
| "to_word (Num r) =
     (if r \<le> 0 then 0 else if 2 ^ LENGTH('a) - 1 \<le> r then - 1
      else word_of_int \<lfloor>r\<rfloor>)"

text \<open>\<open>f64 as f32\<close> rounds; \<open>f32 as f64\<close> is exact.\<close>

fun to_f32 :: "fp \<Rightarrow> fp" where
  "to_f32 (Num r) = mk F32 False r"
| "to_f32 x = x"

definition lit :: "fmt \<Rightarrow> rat \<Rightarrow> fp" where
  "lit fm x = mk fm False x"

section \<open>Rounding is monotone and keeps representable values\<close>

lemma rnd_even_of_int [simp]: "rnd_even (of_int n) = n"
  by (simp add: rnd_even_def)

lemma rnd_even_floor: "\<lfloor>y\<rfloor> \<le> rnd_even y \<and> rnd_even y \<le> \<lfloor>y\<rfloor> + 1"
  by (simp add: rnd_even_def Let_def)

lemma rnd_even_mono:
  assumes "x \<le> y" shows "rnd_even x \<le> rnd_even y"
proof (cases "\<lfloor>x\<rfloor> = \<lfloor>y\<rfloor>")
  case True
  with assms show ?thesis by (auto simp: rnd_even_def Let_def)
next
  case False
  with floor_mono [OF assms] have "\<lfloor>x\<rfloor> + 1 \<le> \<lfloor>y\<rfloor>" by simp
  with rnd_even_floor [of x] rnd_even_floor [of y] show ?thesis by linarith
qed

lemma rnd_even_le_int: "x \<le> of_int n \<Longrightarrow> rnd_even x \<le> n"
  using rnd_even_mono [of x "of_int n"] by simp

lemma rnd_even_ge_int: "of_int n \<le> x \<Longrightarrow> n \<le> rnd_even x"
  using rnd_even_mono [of "of_int n" x] by simp

lemma rnd_even_uminus: "rnd_even (- x) = - rnd_even x"
proof (cases "x = of_int \<lfloor>x\<rfloor>")
  case True
  then have "rnd_even x = \<lfloor>x\<rfloor>" using rnd_even_of_int by metis
  moreover from True have "rnd_even (- x) = - \<lfloor>x\<rfloor>"
    using rnd_even_of_int [of "- \<lfloor>x\<rfloor>"] by simp
  ultimately show ?thesis by simp
next
  case False
  then have "\<lfloor>- x\<rfloor> = - \<lfloor>x\<rfloor> - 1"
    by (intro floor_unique) (auto, linarith+)
  then show ?thesis
    by (auto simp: rnd_even_def Let_def)
qed


lemma bitlen_pos: "0 < x \<Longrightarrow> 0 < bitlen x"
  using bitlen_bounds [of x] bitlen_nonneg [of x] by (cases "bitlen x = 0") auto

lemma ilog2_bounds:
  assumes "0 < x"
  shows "2 powi ilog2 x \<le> x \<and> x < 2 powi (ilog2 x + 1)"
proof -
  obtain a b where q: "quotient_of x = (a, b)" by fastforce
  then have b: "0 < b" and x: "x = of_int a / of_int b"
    by (simp_all add: quotient_of_denom_pos quotient_of_div)
  with assms have a: "0 < a" by (simp add: zero_less_divide_iff)
  define k where "k = bitlen a - bitlen b"
  have pos: "0 < bitlen a" "0 < bitlen b" using a b
    by (simp_all add: bitlen_pos)
  have A: "2 powi (bitlen a - 1) \<le> (of_int a :: rat)" "(of_int a :: rat) < 2 powi bitlen a"
    using bitlen_bounds [OF a] pos
    by (simp_all add: power_int_def nat_diff_distrib flip: of_int_le_iff of_int_less_iff)
  have B: "2 powi (bitlen b - 1) \<le> (of_int b :: rat)" "(of_int b :: rat) < 2 powi bitlen b"
    using bitlen_bounds [OF b] pos
    by (simp_all add: power_int_def nat_diff_distrib flip: of_int_le_iff of_int_less_iff)
  have p: "(0::rat) < of_int b" using b by simp
  have "x * of_int b = of_int a" using x p by simp
  moreover have "2 powi (k - 1) * (of_int b :: rat) < (2 powi (k - 1)) * 2 powi bitlen b"
    using B by (intro mult_strict_left_mono) simp_all
  moreover have "(2::rat) powi (k - 1) * 2 powi bitlen b = 2 powi (bitlen a - 1)"
    by (simp add: k_def flip: power_int_add)
  ultimately have low: "2 powi (k - 1) * of_int b < x * of_int b" using A by linarith
  have "(2::rat) powi (k + 1) * 2 powi (bitlen b - 1) = 2 powi bitlen a"
    by (simp add: k_def flip: power_int_add)
  moreover have "2 powi (k + 1) * 2 powi (bitlen b - 1) \<le> 2 powi (k + 1) * (of_int b :: rat)"
    using B by (intro mult_left_mono) simp_all
  ultimately have high: "x * of_int b < 2 powi (k + 1) * of_int b"
    using A \<open>x * of_int b = of_int a\<close> by linarith
  from low high p have "2 powi (k - 1) < x" "x < 2 powi (k + 1)" by simp_all
  then show ?thesis
    using q by (auto simp: ilog2_def k_def Let_def)
qed

lemma powi2_mono: "m \<le> n \<Longrightarrow> (2::rat) powi m \<le> 2 powi n"
  by (simp add: power_int_increasing)

lemma powi2_less_iff [simp]: "(2::rat) powi m < 2 powi n \<longleftrightarrow> m < n"
  by (metis linorder_not_less powi2_mono power_int_strict_increasing one_less_numeral_iff semiring_norm(76))

lemma ilog2_mono: "0 < x \<Longrightarrow> x \<le> y \<Longrightarrow> ilog2 x \<le> ilog2 y"
proof -
  assume "0 < x" "x \<le> y"
  then have "2 powi ilog2 x < (2::rat) powi (ilog2 y + 1)"
    using ilog2_bounds [of x] ilog2_bounds [of y] by linarith
  then show ?thesis by simp
qed

lemma ilog2_unique:
  assumes "2 powi k \<le> x" "x < 2 powi (k + 1)"
  shows "ilog2 x = k"
proof -
  have "(0::rat) < 2 powi k" by simp
  then have x: "0 < x" using assms by linarith
  have "(2::rat) powi ilog2 x < 2 powi (k + 1)" "(2::rat) powi k < 2 powi (ilog2 x + 1)"
    using ilog2_bounds [OF x] assms by linarith+
  then show ?thesis by simp
qed

lemma powi2_int: "0 \<le> k \<Longrightarrow> (2::rat) powi k = of_int (2 ^ nat k)"
  by (simp add: power_int_def)

lemma powi2_split: "m \<le> n \<Longrightarrow> of_int (2 ^ nat (n - m)) * (2::rat) powi m = 2 powi n"
  using powi2_int [of "n - m"] power_int_add [of "2::rat" "n - m" m] by simp

lemma round_q_pos_mono:
  assumes x: "0 < x" and xy: "x \<le> y"
  shows "round_q fm x \<le> round_q fm y"
proof (cases "ulp_exp fm x = ulp_exp fm y")
  case True
  with x xy show ?thesis
    by (auto simp: round_q_def intro!: mult_right_mono rnd_even_mono divide_right_mono)
next
  case False
  let ?i = "ilog2 y" and ?ex = "ulp_exp fm x" and ?ey = "ulp_exp fm y"
  have mono: "ilog2 x \<le> ?i" using x xy by (rule ilog2_mono)
  have p: "0 < prec fm" by (cases fm) simp_all
  from False mono x xy have ey: "?ey = ?i - prec fm + 1" and le: "?ex \<le> ?ey"
    and less: "ilog2 x < ?i"
    by (auto simp: ulp_exp_def)
  from le ey p have exi: "?ex \<le> ?i" and eyi: "?ey \<le> ?i" by simp_all
  have "x < 2 powi ?i"
    using ilog2_bounds [OF x] powi2_mono [of "ilog2 x + 1" ?i] less by linarith
  then have "x / 2 powi ?ex \<le> of_int (2 ^ nat (?i - ?ex))"
    using powi2_split [OF exi] by (simp add: pos_divide_le_eq)
  then have "rnd_even (x / 2 powi ?ex) \<le> 2 ^ nat (?i - ?ex)" by (rule rnd_even_le_int)
  then have "of_int (rnd_even (x / 2 powi ?ex)) * (2::rat) powi ?ex
      \<le> of_int (2 ^ nat (?i - ?ex)) * 2 powi ?ex"
    by (intro mult_right_mono) (simp_all only: of_int_le_iff, simp)
  also have "\<dots> = 2 powi ?i" by (rule powi2_split [OF exi])
  also have "2 powi ?i = of_int (2 ^ nat (?i - ?ey)) * (2::rat) powi ?ey"
    by (rule powi2_split [OF eyi, symmetric])
  also have "\<dots> \<le> of_int (rnd_even (y / 2 powi ?ey)) * 2 powi ?ey"
  proof (intro mult_right_mono)
    have "of_int (2 ^ nat (?i - ?ey)) \<le> y / 2 powi ?ey"
      using ilog2_bounds [of y] x xy powi2_split [OF eyi] by (simp add: pos_le_divide_eq)
    then show "of_int (2 ^ nat (?i - ?ey)) \<le> (of_int (rnd_even (y / 2 powi ?ey)) :: rat)"
      by (simp only: of_int_le_iff rnd_even_ge_int)
  qed simp
  finally show ?thesis using x xy by (simp add: round_q_def)
qed

lemma round_q_0 [simp]: "round_q fm 0 = 0"
  by (simp add: round_q_def)

lemma round_q_nonneg: "0 \<le> x \<Longrightarrow> 0 \<le> round_q fm x"
  by (cases "x = 0") (auto simp: round_q_def intro!: rnd_even_ge_int mult_nonneg_nonneg)

lemma round_q_uminus: "round_q fm (- x) = - round_q fm x"
  by (simp add: round_q_def ulp_exp_def rnd_even_uminus)

lemma round_q_mono:
  assumes "x \<le> y" shows "round_q fm x \<le> round_q fm y"
proof -
  consider "0 < x" | "x \<le> 0" "0 \<le> y" | "y < 0" by linarith
  then show ?thesis
  proof cases
    case 1
    with assms show ?thesis by (simp add: round_q_pos_mono)
  next
    case 2
    then show ?thesis
      using round_q_nonneg [of y fm] round_q_nonneg [of "- x" fm] round_q_uminus [of fm x] by simp
  next
    case 3
    with assms show ?thesis
      using round_q_pos_mono [of "- y" "- x" fm] by (simp add: round_q_uminus)
  qed
qed

section \<open>Well-formed floats of a format\<close>

text \<open>A finite value is one of the format: rounding does not change it.\<close>

fun fp_ok :: "fmt \<Rightarrow> fp \<Rightarrow> bool" where
  "fp_ok fm (Num r) = (round_q fm r = r \<and> \<bar>r\<bar> \<le> fmax_val fm)"
| "fp_ok fm _ = True"


lemma prec_pos: "0 < prec fm"
  by (cases fm) simp_all

lemma round_q_int_multiple:
  assumes "x / 2 powi ulp_exp fm x = of_int n"
  shows "round_q fm x = x"
proof (cases "x = 0")
  case False
  have "(2::rat) powi ulp_exp fm x \<noteq> 0" by simp
  with assms have "of_int n * 2 powi ulp_exp fm x = x"
    by (metis nonzero_eq_divide_eq)
  with assms False show ?thesis by (simp add: round_q_def)
qed simp

lemma round_q_representable_pos:
  assumes n: "0 < n" "n \<le> 2 ^ nat (prec fm)" and e: "qmin fm \<le> e"
  shows "round_q fm (of_int n * 2 powi e) = of_int n * 2 powi e"
proof -
  let ?x = "of_int n * (2::rat) powi e"
  have x: "0 < ?x" using n by simp
  have top: "(2::rat) powi (prec fm + e) = of_int (2 ^ nat (prec fm)) * 2 powi e"
    using powi2_split [of e "prec fm + e"] prec_pos [of fm] by simp
  then have le: "?x \<le> 2 powi (prec fm + e)"
    unfolding top using n by (intro mult_right_mono) (simp_all only: of_int_le_iff, simp)
  show ?thesis
  proof (cases "?x = 2 powi (prec fm + e)")
    case True
    then have "ilog2 ?x = prec fm + e"
      using x by (simp add: ilog2_unique)
    with x e have u: "ulp_exp fm ?x = e + 1" by (simp add: ulp_exp_def)
    have "?x / 2 powi (e + 1) = of_int (2 ^ nat (prec fm - 1))"
      using True powi2_split [of "e + 1" "prec fm + e"] prec_pos [of fm]
      by (simp add: nonzero_divide_eq_eq)
    then show ?thesis using u by (intro round_q_int_multiple) simp
  next
    case False
    with le have "?x < 2 powi (prec fm + e)" by simp
    then have "2 powi ilog2 ?x < (2::rat) powi (prec fm + e)"
      using ilog2_bounds [OF x] by linarith
    with x e have u: "ulp_exp fm ?x \<le> e" by (simp add: ulp_exp_def)
    have "?x / 2 powi ulp_exp fm ?x = of_int (n * 2 ^ nat (e - ulp_exp fm ?x))"
      using powi2_split [OF u] by (simp add: field_simps)
    then show ?thesis by (rule round_q_int_multiple)
  qed
qed

lemma round_q_representable:
  assumes "\<bar>n\<bar> \<le> 2 ^ nat (prec fm)" "qmin fm \<le> e"
  shows "round_q fm (of_int n * 2 powi e) = of_int n * 2 powi e"
proof -
  consider "n = 0" | "0 < n" | "n < 0" by linarith
  then show ?thesis
  proof cases
    case 2
    with assms show ?thesis by (simp add: round_q_representable_pos)
  next
    case 3
    with assms round_q_representable_pos [of "- n" fm e]
    show ?thesis by (simp add: round_q_uminus)
  qed simp
qed

lemma round_q_shape:
  assumes "0 < x"
  shows "\<exists>n. round_q fm x = of_int n * 2 powi ulp_exp fm x \<and> 0 \<le> n \<and> n \<le> 2 ^ nat (prec fm)"
proof -
  let ?e = "ulp_exp fm x"
  have "ilog2 x + 1 \<le> ?e + prec fm" using assms by (simp add: ulp_exp_def)
  then have "x \<le> 2 powi (?e + prec fm)"
    using ilog2_bounds [OF assms] powi2_mono [of "ilog2 x + 1" "?e + prec fm"] by linarith
  then have "x / 2 powi ?e \<le> of_int (2 ^ nat (prec fm))"
    using powi2_split [of ?e "?e + prec fm"] prec_pos [of fm] by (simp add: pos_divide_le_eq)
  then have "rnd_even (x / 2 powi ?e) \<le> 2 ^ nat (prec fm)" by (rule rnd_even_le_int)
  moreover have "0 \<le> rnd_even (x / 2 powi ?e)"
    using assms by (intro rnd_even_ge_int) simp
  ultimately show ?thesis using assms by (auto simp: round_q_def)
qed

lemma round_q_idem: "round_q fm (round_q fm x) = round_q fm x"
proof -
  have pos: "round_q fm (round_q fm y) = round_q fm y" if "0 < y" for y
  proof -
    obtain n where n: "round_q fm y = of_int n * 2 powi ulp_exp fm y"
        "0 \<le> n" "n \<le> 2 ^ nat (prec fm)"
      using round_q_shape [OF \<open>0 < y\<close>] by blast
    have "qmin fm \<le> ulp_exp fm y" by (simp add: ulp_exp_def)
    with n round_q_representable [of n fm "ulp_exp fm y"] show ?thesis by simp
  qed
  consider "x = 0" | "0 < x" | "0 < - x" by linarith
  then show ?thesis
  proof cases
    case 3
    from pos [OF this] show ?thesis by (simp add: round_q_uminus)
  qed (simp_all add: pos)
qed

lemma round_q_of_int: "\<bar>n\<bar> \<le> 2 ^ nat (prec fm) \<Longrightarrow> round_q fm (of_int n) = of_int n"
  using round_q_representable [of n fm 0] by (cases fm) simp_all

lemma round_q_1 [simp]: "round_q fm 1 = 1"
  using round_q_of_int [of 1 fm] by simp

section \<open>Results of the operations\<close>

lemma fp_ok_mk [simp]: "fp_ok fm (mk fm nz x)"
  by (auto simp: mk_def Let_def round_q_idem)

lemma val_mk: "\<bar>round_q fm x\<bar> \<le> fmax_val fm \<Longrightarrow> val (mk fm nz x) = round_q fm x"
  by (auto simp: mk_def Let_def)

lemma is_finite_mk: "\<bar>round_q fm x\<bar> \<le> fmax_val fm \<Longrightarrow> is_finite (mk fm nz x)"
  by (auto simp: mk_def Let_def)

lemma mk_not_NaN [simp]: "mk fm nz x \<noteq> NaN"
  by (auto simp: mk_def Let_def)

lemma fp_ok_zero_inf [simp]: "fp_ok fm (zero_of b)" "fp_ok fm (inf_of b)"
  by (cases fm; simp add: zero_of_def inf_of_def)+

lemma fp_ok_fneg [simp]: "fp_ok fm (fneg a) = fp_ok fm a"
  by (cases a; cases fm) (auto simp: round_q_uminus)

lemma fp_ok_fadd: "fp_ok fm a \<Longrightarrow> fp_ok fm b \<Longrightarrow> fp_ok fm (fadd fm a b)"
  by (simp add: fadd_def)

lemma fp_ok_fmul: "fp_ok fm (fmul fm a b)"
  by (simp add: fmul_def Let_def)

lemma fp_ok_fdiv: "fp_ok fm (fdiv fm a b)"
  by (simp add: fdiv_def Let_def)

lemma fmul_NaN [simp]: "fmul fm a NaN = NaN" "fmul fm NaN b = NaN"
  by (simp_all add: fmul_def Let_def)

lemma fp_ok_val: "fp_ok fm a \<Longrightarrow> round_q fm (val a) = val a \<and> \<bar>val a\<bar> \<le> fmax_val fm"
  by (cases a; cases fm) simp_all

text \<open>Finite values compare by their rational value.\<close>

lemma lt_finite: "is_finite a \<Longrightarrow> is_finite b \<Longrightarrow> lt a b \<longleftrightarrow> val a < val b"
  by (cases a; cases b) simp_all

lemma le_finite: "is_finite a \<Longrightarrow> is_finite b \<Longrightarrow> le a b \<longleftrightarrow> val a \<le> val b"
  by (auto simp: le_def lt_finite feq_def)

lemma fneg_finite [simp]: "is_finite (fneg a) = is_finite a" "val (fneg a) = - val a"
  by (cases a; simp)+

lemma fadd_finite:
  "is_finite a \<Longrightarrow> is_finite b \<Longrightarrow> fadd fm a b = mk fm (a = NegZero \<and> b = NegZero) (val a + val b)"
  by (cases a; cases b) (simp_all add: fadd_def)

lemma is_finite_not_NaN: "is_finite a \<Longrightarrow> a \<noteq> NaN"
  by auto

lemma fclamp_range:
  assumes "x \<noteq> NaN" "is_finite lo" "is_finite hi" "val lo \<le> val hi"
  shows "is_finite (fclamp x lo hi) \<and> val lo \<le> val (fclamp x lo hi)
    \<and> val (fclamp x lo hi) \<le> val hi"
  using assms by (cases x; cases lo; cases hi) (auto simp: fclamp_def)

lemma fclamp_id:
  "is_finite x \<Longrightarrow> is_finite lo \<Longrightarrow> is_finite hi \<Longrightarrow> val lo \<le> val x \<Longrightarrow> val x \<le> val hi \<Longrightarrow>
   fclamp x lo hi = x"
  by (auto simp: fclamp_def lt_finite)

text \<open>Scaling a non-negative value by a factor of at most one does not make it larger.\<close>

lemma fmul_scale:
  assumes a: "is_finite a" "fp_ok fm a" "0 \<le> val a"
    and b: "is_finite b" "0 \<le> val b" "val b \<le> 1"
  shows "is_finite (fmul fm a b) \<and> 0 \<le> val (fmul fm a b) \<and> val (fmul fm a b) \<le> val a"
proof -
  have le: "val a * val b \<le> val a" using a b by (simp add: mult_left_le)
  then have "round_q fm (val a * val b) \<le> val a"
    using round_q_mono [OF le, of fm] fp_ok_val [OF a(2)] by simp
  moreover have "0 \<le> round_q fm (val a * val b)" using a b by (simp add: round_q_nonneg)
  moreover have "val a \<le> fmax_val fm" using fp_ok_val [OF a(2)] by linarith
  ultimately show ?thesis
    using a b by (auto simp: fmul_def Let_def is_finite_not_NaN val_mk is_finite_mk)
qed

lemma of_u64_bounds: "0 \<le> val (of_u64 fm n)" "is_finite (of_u64 fm n)"
  using round_q_nonneg [OF of_nat_0_le_iff, of fm "unat n"] by (simp_all add: of_u64_def)

lemma of_u64_mono: "m \<le> n \<Longrightarrow> val (of_u64 fm m) \<le> val (of_u64 fm n)"
proof -
  assume "m \<le> n"
  then have "(of_nat (unat m) :: rat) \<le> of_nat (unat n)"
    by (simp only: of_nat_le_iff word_le_nat_alt)
  from round_q_mono [OF this, of fm] show ?thesis by (simp add: of_u64_def)
qed

lemma of_u64_ge_1: "n \<noteq> 0 \<Longrightarrow> 1 \<le> val (of_u64 fm n)"
proof -
  assume "n \<noteq> 0"
  then have "0 < unat n" by (simp add: unat_gt_0)
  then have "(1::rat) \<le> of_nat (unat n)" by linarith
  from round_q_mono [OF this, of fm] show ?thesis by (simp add: of_u64_def)
qed

lemma fp_1_le_max: "1 \<le> fmax_val fm"
  by (cases fm) simp_all

text \<open>The quotient of two counts, the smaller over the larger, lies in \<open>0..=1\<close>.\<close>

lemma fdiv_ratio:
  fixes m n :: "'a::len word"
  assumes "m \<le> n" "n \<noteq> 0"
  shows "is_finite (fdiv fm (of_u64 fm m) (of_u64 fm n))
    \<and> 0 \<le> val (fdiv fm (of_u64 fm m) (of_u64 fm n))
    \<and> val (fdiv fm (of_u64 fm m) (of_u64 fm n)) \<le> 1"
proof -
  let ?q = "val (of_u64 fm m) / val (of_u64 fm n)"
  have pos: "0 < val (of_u64 fm n)" using of_u64_ge_1 [OF assms(2), of fm] by linarith
  then have "?q \<le> 1" using of_u64_mono [OF assms(1), of fm] by simp
  then have hi: "round_q fm ?q \<le> 1" using round_q_mono [of ?q 1 fm] by simp
  have lo: "0 \<le> round_q fm ?q" using pos of_u64_bounds [of fm m] by (simp add: round_q_nonneg)
  have "\<bar>round_q fm ?q\<bar> \<le> fmax_val fm" using hi lo fp_1_le_max [of fm] by linarith
  with hi lo pos show ?thesis
    by (simp add: fdiv_def Let_def of_u64_bounds is_finite_not_NaN val_mk is_finite_mk)
qed


section \<open>Monotonicity\<close>

lemma le_NaN [simp]: "\<not> le NaN b" "\<not> le a NaN"
  by (simp_all add: le_def feq_def) (cases a; simp)

lemma mk_mono: "x \<le> y \<Longrightarrow> le (mk fm s x) (mk fm s' y)"
  using round_q_mono [of x y fm]
  by (auto simp: mk_def Let_def le_def feq_def)

lemma to_word_mono:
  assumes "le a b" shows "(to_word a :: 'w::len word) \<le> to_word b"
proof -
  have num: "(to_word (Num x) :: 'w word) \<le> to_word (Num y)" if "x \<le> y" for x y
  proof (cases "2 ^ LENGTH('w) - 1 \<le> y \<or> x \<le> 0")
    case False
    then have xy: "\<lfloor>x\<rfloor> \<le> \<lfloor>y\<rfloor>" "0 \<le> \<lfloor>x\<rfloor>" using that by (simp_all add: floor_mono)
    from False have "\<lfloor>y\<rfloor> < 2 ^ LENGTH('w)" by (simp add: floor_less_iff)
    with False that xy show ?thesis
      by (auto simp: word_le_def uint_word_of_int_eq take_bit_int_eq_self)
  qed (use that in auto)
  have fin: "(to_word c :: 'w word) = to_word (Num (val c))" if "is_finite c" for c
    using that by (cases c) simp_all
  show ?thesis
  proof (cases "is_finite a \<and> is_finite b")
    case True
    then show ?thesis
      using assms num [of "val a" "val b"] by (simp only: fin le_finite)
  next
    case False
    with assms have "a = NegInf \<or> b = PosInf \<or> a = b"
      by (cases a; cases b) (auto simp: le_def feq_def)
    then show ?thesis by (auto simp del: to_word.simps(5))
  qed
qed

lemma fround_mono:
  assumes "le a b" shows "le (fround a) (fround b)"
proof -
  define rd where "rd r = (if r < 0 then - \<lfloor>- r + 1 / 2\<rfloor> else \<lfloor>r + 1 / 2\<rfloor>)" for r :: rat
  have mono: "rd x \<le> rd y" if "x \<le> y" for x y
  proof (cases "x < 0 \<and> \<not> y < 0")
    case True
    then have "0 \<le> \<lfloor>- x + 1 / 2\<rfloor>" "0 \<le> \<lfloor>y + 1 / 2\<rfloor>"
      by (auto simp only: zero_le_floor)
    then have "- \<lfloor>- x + 1 / 2\<rfloor> \<le> \<lfloor>y + 1 / 2\<rfloor>" by linarith
    with True show ?thesis by (simp only: rd_def if_True if_False simp_thms)
  qed (use that in \<open>auto simp: rd_def intro!: floor_mono\<close>)
  have fr: "is_finite a \<Longrightarrow> is_finite (fround a) \<and> val (fround a) = of_int (rd (val a))" for a
    by (cases a) (auto simp: rd_def Let_def floor_eq_iff)
  show ?thesis
  proof (cases "is_finite a \<and> is_finite b")
    case True
    with assms mono show ?thesis by (simp add: le_finite fr)
  next
    case False
    with assms show ?thesis
      by (cases a; cases b) (auto simp: le_def feq_def Let_def split: if_splits)
  qed
qed

text \<open>Multiplying two ordered finite non-negative values by the same non-negative one.\<close>

lemma fmul_mono:
  assumes "is_finite a" "is_finite b" "is_finite c" "val a \<le> val b" "0 \<le> val c"
  shows "le (fmul fm a c) (fmul fm b c)"
  using assms
  by (auto simp: fmul_def Let_def is_finite_not_NaN intro!: mk_mono mult_right_mono)

lemma val_of_u64_le: "val (of_u64 fm (n :: 64 word)) \<le> 2 ^ 64"
proof -
  have "(of_nat (unat n) :: rat) \<le> of_nat (2 ^ 64)"
    by (simp only: of_nat_le_iff less_imp_le [OF unat64_lt])
  from round_q_mono [OF this, of fm]
  have "val (of_u64 fm n) \<le> round_q fm (2 ^ 64)" by (simp add: of_u64_def)
  also have "round_q fm (2 ^ 64) = 2 ^ 64"
    using round_q_representable [of 1 fm 64] by (cases fm) simp_all
  finally show ?thesis .
qed

lemma fp_ok_of_u64: "fp_ok fm (of_u64 fm (n :: 64 word))"
  using val_of_u64_le [of fm n] of_u64_bounds [of fm n]
  by (cases fm) (simp_all add: of_u64_def round_q_idem)


text \<open>Dividing by at least one, with an integer bound on the quotient.\<close>

lemma fdiv_bound:
  assumes "is_finite a" "0 \<le> val a" "val a \<le> of_nat n * val b" "is_finite b" "1 \<le> val b" "n \<le> 1000"
  shows "is_finite (fdiv fm a b) \<and> 0 \<le> val (fdiv fm a b) \<and> val (fdiv fm a b) \<le> of_nat n"
proof -
  have q: "val a / val b \<le> of_int (int n)" "0 \<le> val a / val b"
    using assms by (simp_all add: pos_divide_le_eq)
  have n: "\<bar>int n\<bar> \<le> 2 ^ nat (prec fm)" using assms by (cases fm) simp_all
  have hi: "round_q fm (val a / val b) \<le> of_nat n"
    using round_q_mono [OF q(1), of fm] round_q_of_int [OF n] by simp
  have lo: "0 \<le> round_q fm (val a / val b)" using q by (simp add: round_q_nonneg)
  have "of_nat n \<le> (1000 :: rat)" using assms by simp
  with hi lo have "\<bar>round_q fm (val a / val b)\<bar> \<le> fmax_val fm" by (cases fm) simp_all
  with assms hi lo show ?thesis
    by (simp add: fdiv_def Let_def is_finite_not_NaN val_mk is_finite_mk)
qed

section \<open>Small integers are exact\<close>

lemma round_q_of_nat: "n < 2 ^ 53 \<Longrightarrow> round_q F64 (of_nat n) = of_nat n"
  using round_q_of_int[of "int n" F64] by simp

lemma of_u64_exact: "unat n < 2 ^ 53 \<Longrightarrow> of_u64 F64 n = Num (of_nat (unat n))"
  unfolding of_u64_def by (simp only: round_q_of_nat)

lemma mk_small: "0 \<le> n \<Longrightarrow> n \<le> 2 ^ 24 \<Longrightarrow> mk fm False (of_int n) = Num (of_int n)"
  using round_q_of_int[of n fm] by (cases fm) (auto simp: mk_def Let_def)

section \<open>Rounding error\<close>

lemma rnd_even_half: "\<bar>of_int (rnd_even y) - y\<bar> \<le> 1 / 2"
  unfolding rnd_even_def Let_def using floor_correct [of y] by (auto split: if_splits)

lemma round_q_rel:
  assumes "1 / 2 ^ 100 \<le> x"
  shows "\<bar>round_q F32 x - x\<bar> \<le> x / 2 ^ 24"
proof -
  have x: "0 < x" using assms by (rule less_le_trans [rotated]) simp
  have "(2::rat) powi (- 101) < 2 powi (ilog2 x + 1)"
  proof -
    have "2 powi (- 101) < (1 / 2 ^ 100 :: rat)" by (simp add: power_int_def power_one_over)
    then show ?thesis using ilog2_bounds [OF x] assms by linarith
  qed
  then have lg: "- 102 < ilog2 x" unfolding powi2_less_iff by simp
  let ?e = "ulp_exp F32 x"
  have e: "?e = ilog2 x - 23" using lg x by (simp add: ulp_exp_def)
  have p: "0 < (2::rat) powi ?e" by simp
  have "round_q F32 x - x = (of_int (rnd_even (x / 2 powi ?e)) - x / 2 powi ?e) * 2 powi ?e"
    using x p by (simp add: round_q_def left_diff_distrib)
  then have "\<bar>round_q F32 x - x\<bar> = \<bar>of_int (rnd_even (x / 2 powi ?e)) - x / 2 powi ?e\<bar> * 2 powi ?e"
    using p by (simp add: abs_mult)
  also have "\<dots> \<le> 1 / 2 * 2 powi ?e"
    using rnd_even_half p by (intro mult_right_mono) auto
  also have "\<dots> = 2 powi ilog2 x / 2 ^ 24" unfolding e by (simp add: power_int_diff)
  also have "\<dots> \<le> x / 2 ^ 24" using ilog2_bounds [OF x] by (simp add: divide_right_mono)
  finally show ?thesis .
qed

lemma round_q_nat32: "n \<le> 2 ^ 24 \<Longrightarrow> round_q F32 (of_nat n) = of_nat n"
  using round_q_of_int[of "int n" F32] by simp

lemma small_part: "0 < x \<Longrightarrow> x / 2 ^ 24 \<le> (x :: rat)"
  by simp

lemma of_u64_small: "unat n \<le> 2 ^ 24 \<Longrightarrow> of_u64 F32 n = Num (of_nat (unat n))"
  unfolding of_u64_def by (simp only: round_q_nat32)

lemma unat_to_word_num:
  "0 \<le> r \<Longrightarrow> r < 2 ^ 63 \<Longrightarrow> unat (to_word (Num r) :: usize) = nat \<lfloor>r\<rfloor>"
proof -
  assume r: "0 \<le> r" "r < 2 ^ 63"
  have f: "0 \<le> \<lfloor>r\<rfloor>" "\<lfloor>r\<rfloor> < 2 ^ 63" using r by (simp_all add: floor_less_iff)
  show ?thesis
  proof (cases "r = 0")
    case False
    then have "to_word (Num r) = (word_of_int \<lfloor>r\<rfloor> :: usize)" using r by simp
    then show ?thesis using f by (simp add: unat_eq_nat_uint uint_word_of_int_eq take_bit_int_eq_self)
  qed simp
qed

lemma mk_pos: "0 < x \<Longrightarrow> x \<le> 2 ^ 60 \<Longrightarrow> 1 / 2 ^ 100 \<le> x \<Longrightarrow>
   \<exists>r. mk F32 s x = Num r \<and> \<bar>r - x\<bar> \<le> x / 2 ^ 24"
proof -
  assume x: "0 < x" "x \<le> 2 ^ 60" "1 / 2 ^ 100 \<le> x"
  have r: "\<bar>round_q F32 x - x\<bar> \<le> x / 2 ^ 24" by (rule round_q_rel [OF x(3)])
  then have "round_q F32 x \<le> x + x / 2 ^ 24" by linarith
  moreover have "x / 2 ^ 24 \<le> x" using x(1) by simp
  ultimately have "round_q F32 x \<le> 2 ^ 61" using x(2) by simp
  moreover have "0 \<le> round_q F32 x" using x by (simp add: round_q_nonneg)
  ultimately have "mk F32 s x = Num (round_q F32 x)" using x by (simp add: mk_def)
  with r show ?thesis by blast
qed

end
