(* ===== verification/ClipTimeline.thy ===== *)
theory ClipTimeline
  imports Ieee "HOL-Library.Product_Lexorder"
begin

text \<open>
  The editable audio of one pad: \<open>ClipAudioEvent\<close> and \<open>ClipAudioTimeline\<close> of
  crates/hikaru_sequencer/src/clip.rs.  An event is a non-destructive region of a source; a
  timeline is a list of events kept sorted by start and id, with overlaps mixed by sum.
  The abstract view of a timeline is \<open>content\<close>: the multiset of source frames that sound
  at each clip frame.  Cutting, pasting and splitting are specified on that view.
\<close>

section \<open>Events\<close>

record ClipAudioEvent =
  ev_id :: u64
  ev_source_id :: u32
  ev_clip_start :: u64
  ev_source_offset :: u64
  ev_length :: u64
  ev_gain :: f32
  ev_fade_in :: u64
  ev_fade_out :: u64

definition event_new :: "u64 \<Rightarrow> u64 \<Rightarrow> u64 \<Rightarrow> u64 \<Rightarrow> ClipAudioEvent" where
  "event_new i start off len = \<lparr>
     ev_id = i, ev_source_id = 0, ev_clip_start = start, ev_source_offset = off,
     ev_length = len, ev_gain = Num 1, ev_fade_in = 0, ev_fade_out = 0 \<rparr>"

definition ev_end :: "ClipAudioEvent \<Rightarrow> u64" where
  "ev_end e = sat_add (ev_clip_start e) (ev_length e)"

definition contains_clip_frame :: "ClipAudioEvent \<Rightarrow> u64 \<Rightarrow> bool" where
  "contains_clip_frame e frame \<longleftrightarrow> ev_clip_start e \<le> frame \<and> frame < ev_end e"

definition gain_at :: "ClipAudioEvent \<Rightarrow> u64 \<Rightarrow> f32" where
  "gain_at e clip_frame =
     (if \<not> contains_clip_frame e clip_frame then Num 0
      else let rel = clip_frame - ev_clip_start e;
               g = ev_gain e;
               g = (if 0 < ev_fade_in e \<and> rel < ev_fade_in e
                    then fmul F32 g (fdiv F32 (of_u64 F32 rel) (of_u64 F32 (ev_fade_in e))) else g);
               from_end = sat_sub (ev_end e) clip_frame
           in if 0 < ev_fade_out e \<and> from_end < ev_fade_out e
              then fmul F32 g (fdiv F32 (of_u64 F32 from_end) (of_u64 F32 (ev_fade_out e))) else g)"

definition event_split_at ::
    "ClipAudioEvent \<Rightarrow> u64 \<Rightarrow> u64 \<Rightarrow> (ClipAudioEvent \<times> ClipAudioEvent) option" where
  "event_split_at e at_frame new_id =
     (if at_frame \<le> ev_clip_start e \<or> ev_end e \<le> at_frame then None
      else let left_len = at_frame - ev_clip_start e;
               right_len = ev_end e - at_frame
           in Some (e\<lparr>ev_length := left_len, ev_fade_out := 0\<rparr>,
                    \<lparr> ev_id = new_id, ev_source_id = ev_source_id e, ev_clip_start = at_frame,
                      ev_source_offset = sat_add (ev_source_offset e) left_len,
                      ev_length = right_len, ev_gain = ev_gain e, ev_fade_in = 0,
                      ev_fade_out = ev_fade_out e \<rparr>))"

section \<open>Timelines\<close>

record ClipAudioTimeline =
  tl_events :: "ClipAudioEvent list"
  tl_next_id :: u64

definition single_full :: "u64 \<Rightarrow> ClipAudioTimeline" where
  "single_full source_len = \<lparr> tl_events = [event_new 1 0 0 source_len], tl_next_id = 2 \<rparr>"

definition total_frames :: "ClipAudioTimeline \<Rightarrow> u64" where
  "total_frames tm = foldr (\<lambda>e m. max (ev_end e) m) (tl_events tm) 0"

definition alloc_id :: "ClipAudioTimeline \<Rightarrow> u64 \<times> ClipAudioTimeline" where
  "alloc_id tm = (let i = max (tl_next_id tm) 1 in (i, tm\<lparr>tl_next_id := i + 1\<rparr>))"

definition tl_sort :: "ClipAudioTimeline \<Rightarrow> ClipAudioTimeline" where
  "tl_sort tm = tm\<lparr>tl_events := sort_key (\<lambda>e. (ev_clip_start e, ev_id e)) (tl_events tm)\<rparr>"

definition add_event :: "ClipAudioTimeline \<Rightarrow> ClipAudioEvent \<Rightarrow> ClipAudioTimeline" where
  "add_event tm ev =
     (let (tm, ev) =
        (if ev_id ev = 0 then (let (i, tm) = alloc_id tm in (tm, ev\<lparr>ev_id := i\<rparr>))
         else (tm\<lparr>tl_next_id := max (tl_next_id tm) (ev_id ev + 1)\<rparr>, ev))
      in tl_sort (tm\<lparr>tl_events := tl_events tm @ [ev]\<rparr>))"

definition remove_event :: "ClipAudioTimeline \<Rightarrow> u64 \<Rightarrow> ClipAudioEvent option \<times> ClipAudioTimeline" where
  "remove_event tm i =
     (case find_idx (\<lambda>e. ev_id e = i) (tl_events tm) of
        None \<Rightarrow> (None, tm)
      | Some pos \<Rightarrow> (Some (tl_events tm ! pos), tm\<lparr>tl_events := remove_at pos (tl_events tm)\<rparr>))"

definition tl_split_at :: "ClipAudioTimeline \<Rightarrow> u64 \<Rightarrow> (u64 \<times> u64) option \<times> ClipAudioTimeline" where
  "tl_split_at tm at_frame =
     (case find_idx (\<lambda>e. contains_clip_frame e at_frame) (tl_events tm) of
        None \<Rightarrow> (None, tm)
      | Some idx \<Rightarrow>
          if ev_clip_start (tl_events tm ! idx) = at_frame then (None, tm)
          else let (new_id, tm) = alloc_id tm
               in case event_split_at (tl_events tm ! idx) at_frame new_id of
                    None \<Rightarrow> (None, tm)
                  | Some (l, r) \<Rightarrow>
                      (Some (ev_id l, new_id),
                       tl_sort (tm\<lparr>tl_events := (tl_events tm)[idx := l] @ [r]\<rparr>)))"

text \<open>
  \<open>cut_range\<close>: one event contributes the pieces that stay (\<open>fst\<close>) and the piece that is
  removed, re-based at 0 (\<open>snd\<close>); then everything from \<open>end\<close> on moves left by the gap.
\<close>

definition cut_event ::
    "u64 \<Rightarrow> u64 \<Rightarrow> ClipAudioEvent \<Rightarrow> ClipAudioEvent list \<times> ClipAudioEvent list" where
  "cut_event start end ev =
     (let e_end = ev_end ev
      in if e_end \<le> start \<or> end \<le> ev_clip_start ev then ([ev], [])
         else let left = (if ev_clip_start ev < start
                          then [ev\<lparr>ev_length := start - ev_clip_start ev, ev_fade_out := 0\<rparr>] else []);
                  cut_start = max (ev_clip_start ev) start;
                  cut_end = min e_end end;
                  mid = ev\<lparr>ev_source_offset := sat_add (ev_source_offset ev) (cut_start - ev_clip_start ev),
                           ev_length := cut_end - cut_start,
                           ev_clip_start := cut_start - start\<rparr>;
                  right = (if end < e_end
                           then [ev\<lparr>ev_source_offset := sat_add (ev_source_offset ev) (end - ev_clip_start ev),
                                    ev_length := e_end - end,
                                    ev_clip_start := start\<rparr>] else [])
              in (left @ right, [mid]))"

definition close_gap :: "u64 \<Rightarrow> u64 \<Rightarrow> ClipAudioEvent \<Rightarrow> ClipAudioEvent" where
  "close_gap start end ev =
     (if end \<le> ev_clip_start ev then ev\<lparr>ev_clip_start := ev_clip_start ev - (end - start)\<rparr>
      else if start \<le> ev_clip_start ev \<and> ev_clip_start ev < end
        then ev\<lparr>ev_clip_start := min start (ev_clip_start ev)\<rparr>
      else ev)"

definition cut_range ::
    "ClipAudioTimeline \<Rightarrow> u64 \<Rightarrow> u64 \<Rightarrow> ClipAudioEvent list \<times> ClipAudioTimeline" where
  "cut_range tm start end =
     (if end \<le> start then ([], tm)
      else let removed = concat (map (\<lambda>e. snd (cut_event start end e)) (tl_events tm));
               kept = concat (map (\<lambda>e. fst (cut_event start end e)) (tl_events tm))
           in (removed, tl_sort (tm\<lparr>tl_events := map (close_gap start end) kept\<rparr>)))"

text \<open>
  \<open>paste_insert\<close>: the first loop walks the events with the next free id; the second gives
  every fragment an id and its place.
\<close>

fun open_gap ::
    "u64 \<Rightarrow> u64 \<Rightarrow> u64 \<Rightarrow> ClipAudioEvent list \<Rightarrow>
     ClipAudioEvent list \<times> ClipAudioEvent list \<times> u64" where
  "open_gap at_frame paste_len next [] = ([], [], next)"
| "open_gap at_frame paste_len next (ev # evs) =
     (if at_frame \<le> ev_clip_start ev
      then (let (es, rights, nx) = open_gap at_frame paste_len next evs
            in (ev\<lparr>ev_clip_start := ev_clip_start ev + paste_len\<rparr> # es, rights, nx))
      else if at_frame < ev_end ev
      then (let (es, rights, nx) = open_gap at_frame paste_len (next + 1) evs
            in (ev # es,
                (case event_split_at ev at_frame next of
                   None \<Rightarrow> rights
                 | Some (_, r) \<Rightarrow> r\<lparr>ev_clip_start := ev_clip_start r + paste_len\<rparr> # rights), nx))
      else (let (es, rights, nx) = open_gap at_frame paste_len next evs
            in (ev # es, rights, nx)))"

fun place_fragments ::
    "u64 \<Rightarrow> ClipAudioEvent list \<Rightarrow> ClipAudioTimeline \<Rightarrow> u64 list \<times> ClipAudioTimeline" where
  "place_fragments at_frame [] tm = ([], tm)"
| "place_fragments at_frame (f # fs) tm =
     (let (i, tm) = alloc_id tm;
          f = f\<lparr>ev_id := i, ev_clip_start := ev_clip_start f + at_frame\<rparr>;
          (ids, tm) = place_fragments at_frame fs (tm\<lparr>tl_events := tl_events tm @ [f]\<rparr>)
      in (i # ids, tm))"

definition paste_insert ::
    "ClipAudioTimeline \<Rightarrow> u64 \<Rightarrow> ClipAudioEvent list \<Rightarrow> u64 list \<times> ClipAudioTimeline" where
  "paste_insert tm at_frame fragments =
     (if fragments = [] then ([], tm)
      else let frags = sort_key ev_clip_start fragments;
               paste_len = foldr (\<lambda>e m. max (ev_clip_start e + ev_length e) m) frags 0;
               (es, rights, nx) = open_gap at_frame paste_len (max (tl_next_id tm) 1) (tl_events tm);
               (ids, tm) = place_fragments at_frame frags
                 (tm\<lparr>tl_next_id := nx, tl_events := es @ rights\<rparr>)
           in (ids, tl_sort tm))"

text \<open>\<open>render_mono\<close>: the inner loop over the event's frames, with its early \<open>break\<close>.\<close>

fun render_event ::
    "f32 list \<Rightarrow> u64 \<Rightarrow> ClipAudioEvent \<Rightarrow> nat \<Rightarrow> u64 \<Rightarrow> f32 list \<Rightarrow> f32 list" where
  "render_event source tot ev 0 i out = out"
| "render_event source tot ev (Suc n) i out =
     (let dst = ev_clip_start ev + i
      in if tot \<le> dst then out
         else let src = ev_source_offset ev + i;
                  s = (if unat src < length source then source ! unat src else Num 0)
              in render_event source tot ev n (i + 1)
                   (out[unat dst := fadd F32 (out ! unat dst) (fmul F32 s (gain_at ev dst))]))"

definition render_mono :: "ClipAudioTimeline \<Rightarrow> f32 list \<Rightarrow> f32 list" where
  "render_mono tm source =
     (let tot = total_frames tm
      in fold (\<lambda>ev out. render_event source tot ev (unat (ev_length ev)) 0 out)
           (tl_events tm) (replicate (unat tot) (Num 0)))"


section \<open>The abstract content of a timeline\<close>

definition wf_event :: "ClipAudioEvent \<Rightarrow> bool" where
  "wf_event e \<longleftrightarrow> unat (ev_clip_start e) + unat (ev_length e) < 2 ^ 64
     \<and> unat (ev_source_offset e) + unat (ev_length e) < 2 ^ 64"

definition ev_content :: "ClipAudioEvent \<Rightarrow> u64 \<Rightarrow> (u32 \<times> u64) multiset" where
  "ev_content e f =
     (if contains_clip_frame e f
      then {#(ev_source_id e, ev_source_offset e + (f - ev_clip_start e))#} else {#})"

definition content :: "ClipAudioEvent list \<Rightarrow> u64 \<Rightarrow> (u32 \<times> u64) multiset" where
  "content es f = sum_mset (image_mset (\<lambda>e. ev_content e f) (mset es))"

lemma content_simps [simp]:
  "content [] f = {#}"
  "content (e # es) f = ev_content e f + content es f"
  "content (es @ es') f = content es f + content es' f"
  by (simp_all add: content_def)

lemma content_sort [simp]: "content (tl_events (tl_sort tm)) f = content (tl_events tm) f"
  by (simp add: content_def tl_sort_def)

lemma content_concat_map:
  "(\<And>e. e \<in> set es \<Longrightarrow> content (g e) f = ev_content e f') \<Longrightarrow>
   content (concat (map g es)) f = content es f'"
  by (induction es) simp_all

lemma content_map:
  "(\<And>e. e \<in> set es \<Longrightarrow> ev_content (g e) f = ev_content e f') \<Longrightarrow>
   content (map g es) f = content es f'"
  by (induction es) simp_all

lemma wf_end: "wf_event e \<Longrightarrow> unat (ev_end e) = unat (ev_clip_start e) + unat (ev_length e)"
  by (simp add: wf_event_def ev_end_def nat_of_word)

lemma contains_nat:
  "wf_event e \<Longrightarrow> contains_clip_frame e f \<longleftrightarrow>
     unat (ev_clip_start e) \<le> unat f \<and> unat f < unat (ev_clip_start e) + unat (ev_length e)"
  by (simp add: contains_clip_frame_def word_order_nat wf_end)

lemma sat_add_exact: "unat a + unat b < 2 ^ 64 \<Longrightarrow> sat_add a b = a + b"
  for a b :: "64 word"
  by (simp add: sat_add_def)

section \<open>Cutting\<close>

lemma ev_content_nat:
  "wf_event e \<Longrightarrow> ev_content e f =
     (if unat (ev_clip_start e) \<le> unat f \<and> unat f < unat (ev_clip_start e) + unat (ev_length e)
      then {#(ev_source_id e, ev_source_offset e + (f - ev_clip_start e))#} else {#})"
  by (simp add: ev_content_def contains_nat)

lemma cut_event_kept:
  assumes wf: "wf_event ev" and se: "start < end"
    and f: "start \<le> f \<Longrightarrow> unat f + unat (end - start) < 2 ^ 64"
  shows "content (map (close_gap start end) (fst (cut_event start end ev))) f
    = ev_content ev (if f < start then f else f + (end - start))"
proof -
  define g where "g = (if f < start then f else f + (end - start))"
  have gap: "unat start < unat end" "unat (end - start) = unat end - unat start"
    using se by (simp_all add: word_order_nat unat_sub_le)
  have gn: "unat g = (if unat f < unat start then unat f else unat f + (unat end - unat start))"
    using f gap by (auto simp: g_def word_order_nat unat_add_small)
  have gw: "x + (end - c) + (f - start) = x + (g - c)" "f - (c - (end - start)) = g - c"
    if "\<not> f < start" for x c
    using that by (simp_all add: g_def)
  have gf: "g = f" if "f < start" using that by (simp add: g_def)
  consider (before) "ev_end ev \<le> start" | (after) "\<not> ev_end ev \<le> start" "end \<le> ev_clip_start ev"
    | (overlap) "start < ev_end ev" "ev_clip_start ev < end" by fastforce
  then have "content (map (close_gap start end) (fst (cut_event start end ev))) f = ev_content ev g"
  proof cases
    case before
    then have "unat (ev_clip_start ev) + unat (ev_length ev) \<le> unat start"
      using wf by (simp add: word_le_nat_alt wf_end)
    moreover have "\<not> end \<le> ev_clip_start ev"
      using calculation gap by (simp add: word_le_nat_alt)
    moreover have "ev_clip_start ev \<le> start" using calculation by (simp add: word_le_nat_alt)
    ultimately show ?thesis
      using before wf gn gap gf
      by (auto simp: cut_event_def close_gap_def ev_content_nat word_order_nat wf_event_def)
  next
    case after
    let ?e = "ev\<lparr>ev_clip_start := ev_clip_start ev - (end - start)\<rparr>"
    have c: "unat (ev_clip_start ?e) = unat (ev_clip_start ev) - (unat end - unat start)"
      using after gap by (simp add: unat_sub_le word_order_nat)
    with wf have "wf_event ?e" by (auto simp: wf_event_def)
    then show ?thesis
      using after wf gn gap c gw(2) [of "ev_clip_start ev"]
      by (cases "f < start") (auto simp: cut_event_def close_gap_def ev_content_nat word_order_nat)
  next
    case overlap
    let ?l = "ev\<lparr>ev_length := start - ev_clip_start ev, ev_fade_out := 0\<rparr>"
    let ?r = "ev\<lparr>ev_source_offset := sat_add (ev_source_offset ev) (end - ev_clip_start ev),
                 ev_length := ev_end ev - end, ev_clip_start := start\<rparr>"
    have o: "unat start < unat (ev_clip_start ev) + unat (ev_length ev)"
        "unat (ev_clip_start ev) < unat end"
      using overlap wf by (simp_all add: word_less_nat_alt wf_end)
    have e: "unat (end - ev_clip_start ev) = unat end - unat (ev_clip_start ev)"
      using o by (simp add: unat_sub_le word_order_nat)
    have left: "content (map (close_gap start end) (if ev_clip_start ev < start then [?l] else [])) f
        = (if f < start then ev_content ev f else {#})"
    proof (cases "ev_clip_start ev < start")
      case True
      then have n: "unat (start - ev_clip_start ev) = unat start - unat (ev_clip_start ev)"
        by (simp add: unat_sub_le word_order_nat)
      with wf o True have "wf_event ?l" by (auto simp: wf_event_def word_less_nat_alt)
      moreover have "close_gap start end ?l = ?l"
        using True se by (auto simp: close_gap_def)
      ultimately show ?thesis
        using True wf o n by (auto simp: ev_content_nat word_order_nat)
    next
      case False
      then show ?thesis using wf by (auto simp: ev_content_nat word_order_nat)
    qed
    have right: "content (map (close_gap start end) (if end < ev_end ev then [?r] else [])) f
        = (if f < start then {#} else ev_content ev g)"
    proof (cases "end < ev_end ev")
      case True
      then have n: "unat (ev_end ev - end) = unat (ev_clip_start ev) + unat (ev_length ev) - unat end"
        and t: "unat end < unat (ev_clip_start ev) + unat (ev_length ev)"
        using wf by (simp_all add: unat_sub_le word_order_nat wf_end)
      have off: "sat_add (ev_source_offset ev) (end - ev_clip_start ev)
          = ev_source_offset ev + (end - ev_clip_start ev)"
        using wf e o t by (intro sat_add_exact) (auto simp: wf_event_def)
      have "wf_event ?r"
        using wf gap n o t e by (auto simp: wf_event_def off unat_add_small)
      moreover have "close_gap start end ?r = ?r"
        using se by (auto simp: close_gap_def)
      ultimately show ?thesis
        using True wf gn gap n t o gw(1) [of "ev_source_offset ev" "ev_clip_start ev"]
        by (cases "f < start") (auto simp: ev_content_nat word_order_nat off)
    next
      case False
      then show ?thesis using wf gn gap by (auto simp: ev_content_nat word_order_nat wf_end)
    qed
    have "fst (cut_event start end ev)
        = (if ev_clip_start ev < start then [?l] else []) @ (if end < ev_end ev then [?r] else [])"
      using overlap by (auto simp: cut_event_def Let_def)
    then show ?thesis using left right gf by simp
  qed
  then show ?thesis by (simp only: g_def)
qed


lemma cut_event_removed:
  assumes wf: "wf_event ev" and se: "start < end"
  shows "content (snd (cut_event start end ev)) f
    = (if f < end - start then ev_content ev (f + start) else {#})"
proof -
  have gap: "unat start < unat end" "unat (end - start) = unat end - unat start"
    using se by (simp_all add: word_order_nat unat_sub_le)
  have fs: "unat (f + start) = unat f + unat start" if "f < end - start"
    using that gap unat64_lt [of "end"] by (intro unat_add_small) (simp add: word_less_nat_alt)
  show ?thesis
  proof (cases "start < ev_end ev \<and> ev_clip_start ev < end")
    case False
    then show ?thesis
      using wf fs gap
      by (auto simp: cut_event_def ev_content_nat word_order_nat wf_end)
  next
    case True
    let ?cs = "max (ev_clip_start ev) start" and ?ce = "min (ev_end ev) end"
    let ?m = "ev\<lparr>ev_source_offset := sat_add (ev_source_offset ev) (?cs - ev_clip_start ev),
                 ev_length := ?ce - ?cs, ev_clip_start := ?cs - start\<rparr>"
    have o: "unat start < unat (ev_clip_start ev) + unat (ev_length ev)"
        "unat (ev_clip_start ev) < unat end"
      using True wf by (simp_all add: word_less_nat_alt wf_end)
    have cs: "unat ?cs = max (unat (ev_clip_start ev)) (unat start)"
      and ce: "unat ?ce = min (unat (ev_clip_start ev) + unat (ev_length ev)) (unat end)"
      using wf by (simp_all add: unat_min unat_max wf_end)
    have d: "unat (?cs - ev_clip_start ev) = unat ?cs - unat (ev_clip_start ev)"
        "unat (?ce - ?cs) = unat ?ce - unat ?cs" "unat (?cs - start) = unat ?cs - unat start"
      by (rule unat_sub_le, use o gap wf in \<open>simp add: word_le_nat_alt cs ce\<close>)+
    have off: "sat_add (ev_source_offset ev) (?cs - ev_clip_start ev)
        = ev_source_offset ev + (?cs - ev_clip_start ev)"
      using wf o gap by (intro sat_add_exact) (auto simp: wf_event_def d cs)
    have so: "unat (ev_source_offset ?m) = unat (ev_source_offset ev) + (unat ?cs - unat (ev_clip_start ev))"
    proof -
      have "max (unat (ev_clip_start ev)) (unat start) - unat (ev_clip_start ev) \<le> unat (ev_length ev)"
        using o by linarith
      then have "unat (ev_source_offset ev) + unat (?cs - ev_clip_start ev) < 2 ^ 64"
        using wf unfolding d cs wf_event_def by linarith
      then show ?thesis using unat_add_small [of "ev_source_offset ev" "?cs - ev_clip_start ev"] d
        by (simp add: off)
    qed
    have m: "ev_clip_start ?m = ?cs - start" "ev_length ?m = ?ce - ?cs" by simp_all
    have wfm: "wf_event ?m"
      unfolding wf_event_def so m d cs ce using o gap wf [unfolded wf_event_def] by linarith
    have ring: "ev_source_offset ev + (?cs - ev_clip_start ev) + (f - (?cs - start))
        = ev_source_offset ev + (f + start - ev_clip_start ev)" by simp
    have "snd (cut_event start end ev) = [?m]"
      using True by (auto simp: cut_event_def Let_def)
    moreover have "ev_content ?m f = (if f < end - start then ev_content ev (f + start) else {#})"
    proof (cases "f < end - start")
      case True
      then have fe: "unat f < unat end - unat start" using gap by (simp add: word_less_nat_alt)
      have "(unat (ev_clip_start ?m) \<le> unat f \<and> unat f < unat (ev_clip_start ?m) + unat (ev_length ?m))
        \<longleftrightarrow> (unat (ev_clip_start ev) \<le> unat (f + start)
              \<and> unat (f + start) < unat (ev_clip_start ev) + unat (ev_length ev))"
        unfolding m d cs ce fs [OF True] using o gap fe
        by (intro iffI conjI; elim conjE; linarith)
      moreover have "(ev_source_id ?m, ev_source_offset ?m + (f - ev_clip_start ?m))
          = (ev_source_id ev, ev_source_offset ev + (f + start - ev_clip_start ev))"
        using ring by (simp add: off)
      ultimately show ?thesis
        using True by (simp only: ev_content_nat [OF wfm] ev_content_nat [OF wf] if_True)
    next
      case False
      then have fe: "\<not> unat f < unat end - unat start" using gap by (simp add: word_less_nat_alt)
      have "unat (ev_clip_start ?m) + unat (ev_length ?m) \<le> unat end - unat start"
        unfolding m d cs ce using o gap by linarith
      with fe have "\<not> unat f < unat (ev_clip_start ?m) + unat (ev_length ?m)" by linarith
      with False show ?thesis by (simp only: ev_content_nat [OF wfm] simp_thms if_False)
    qed
    ultimately show ?thesis by simp
  qed
qed

end
