(* ===== verification/ClipEdit.thy ===== *)
theory ClipEdit
  imports ClipTimeline
begin

text \<open>
  What the editing operations of a pad promise, on the abstract content of
  \<open>ClipTimeline\<close>: cutting a range, pasting at a position, splitting an event, the gain
  envelope, and the state of the id allocator.
\<close>

section \<open>Cutting a range\<close>

text \<open>
  C12. \<open>cut_range\<close> is a ripple delete: the removed fragments carry exactly what sounded in
  \<open>[start, end)\<close>, re-based at 0, and the timeline that stays is the old one with that range
  taken out and everything after it moved left by the gap, frame by frame and with every
  overlap kept.
\<close>

theorem cut_range_content:
  assumes "\<forall>e \<in> set (tl_events tm). wf_event e" and "start < end"
  shows "content (fst (cut_range tm start end)) f
      = (if f < end - start then content (tl_events tm) (f + start) else {#})
    \<and> (unat f + unat (end - start) < 2 ^ 64 \<longrightarrow>
        content (tl_events (snd (cut_range tm start end))) f
        = content (tl_events tm) (if f < start then f else f + (end - start)))"
proof -
  have se: "\<not> end \<le> start" using assms by simp
  have "content (fst (cut_range tm start end)) f
      = (if f < end - start then content (tl_events tm) (f + start) else {#})"
  proof (cases "f < end - start")
    case True
    then show ?thesis
      using assms content_concat_map [of "tl_events tm" "\<lambda>e. snd (cut_event start end e)" f "f + start"]
      by (simp add: cut_range_def cut_event_removed se)
  next
    case False
    have "content (concat (map (\<lambda>e. snd (cut_event start end e)) es)) f = {#}"
      if "\<forall>e \<in> set es. wf_event e" for es
      using that False assms by (induction es) (simp_all add: cut_event_removed)
    then show ?thesis using assms False by (simp add: cut_range_def se)
  qed
  moreover have "content (tl_events (snd (cut_range tm start end))) f
        = content (tl_events tm) (if f < start then f else f + (end - start))"
    if "unat f + unat (end - start) < 2 ^ 64"
    using assms that
    by (simp add: cut_range_def map_concat content_concat_map cut_event_kept comp_def se)
  ultimately show ?thesis by blast
qed

definition demo_timeline :: ClipAudioTimeline where
  "demo_timeline = \<lparr> tl_events =
     [\<lparr> ev_id = 1, ev_source_id = 0, ev_clip_start = 0, ev_source_offset = 100, ev_length = 40,
        ev_gain = Num 1, ev_fade_in = 4, ev_fade_out = 8 \<rparr>,
      \<lparr> ev_id = 2, ev_source_id = 7, ev_clip_start = 30, ev_source_offset = 0, ev_length = 20,
        ev_gain = Num 1, ev_fade_in = 0, ev_fade_out = 0 \<rparr>], tl_next_id = 3 \<rparr>"

theorem cut_range_content_witness:
  "list_all wf_event (tl_events demo_timeline) \<and> (10 :: u64) < 35 \<and>
   content (tl_events (snd (cut_range demo_timeline 10 35))) 12
     = content (tl_events demo_timeline) 37"
proof -
  have "\<forall>e \<in> set (tl_events demo_timeline). wf_event e"
    by (simp add: demo_timeline_def wf_event_def)
  with cut_range_content [of demo_timeline 10 35 12] show ?thesis by (simp add: list_all_iff)
qed


section \<open>Pasting\<close>

definition shift_from :: "u64 \<Rightarrow> u64 \<Rightarrow> ClipAudioEvent \<Rightarrow> ClipAudioEvent" where
  "shift_from at_frame d ev =
     (if at_frame \<le> ev_clip_start ev then ev\<lparr>ev_clip_start := ev_clip_start ev + d\<rparr> else ev)"

definition spans :: "ClipAudioEvent \<Rightarrow> u64 \<Rightarrow> bool" where
  "spans e at_frame \<longleftrightarrow> ev_clip_start e < at_frame \<and> at_frame < ev_end e"

definition paste_length :: "ClipAudioEvent list \<Rightarrow> u64" where
  "paste_length fs = foldr (\<lambda>e m. max (ev_clip_start e + ev_length e) m) fs 0"

definition placed :: "u64 \<Rightarrow> u64 \<Rightarrow> ClipAudioEvent \<Rightarrow> ClipAudioEvent" where
  "placed at_frame i f = f\<lparr>ev_id := i, ev_clip_start := ev_clip_start f + at_frame\<rparr>"

lemma open_gap_no_span:
  "\<forall>e \<in> set es. \<not> spans e at_frame \<Longrightarrow>
   open_gap at_frame d nx es = (map (shift_from at_frame d) es, [], nx)"
  by (induction es arbitrary: nx) (auto simp: spans_def shift_from_def split: prod.splits)

lemma place_fragments_events:
  "place_fragments at_frame fs tm = (ids, tm') \<Longrightarrow>
   length ids = length fs \<and> tl_events tm' = tl_events tm @ map2 (placed at_frame) ids fs"
  by (induction fs arbitrary: tm ids tm')
    (fastforce simp: alloc_id_def Let_def placed_def split: prod.splits)+

lemma content_placed:
  "length ids = length fs \<Longrightarrow>
   content (map2 (placed at_frame) ids fs) f = content (map (placed at_frame 0) fs) f"
  by (induction ids fs rule: list_induct2)
    (simp_all add: placed_def ev_content_def contains_clip_frame_def ev_end_def)

lemma content_sort_key [simp]: "content (sort_key k es) f = content es f"
  by (simp add: content_def)

lemma paste_insert_content_raw:
  assumes "\<forall>e \<in> set (tl_events tm). \<not> spans e at_frame" "fs \<noteq> []"
  shows "content (tl_events (snd (paste_insert tm at_frame fs))) f
    = content (map (shift_from at_frame (paste_length (sort_key ev_clip_start fs))) (tl_events tm)) f
      + content (map (placed at_frame 0) fs) f"
proof -
  define d where "d = paste_length (sort_key ev_clip_start fs)"
  define tm1 where "tm1 = tm\<lparr>tl_next_id := max (tl_next_id tm) 1,
    tl_events := map (shift_from at_frame d) (tl_events tm)\<rparr>"
  obtain ids tm2 where p: "place_fragments at_frame (sort_key ev_clip_start fs) tm1 = (ids, tm2)"
    by fastforce
  have "snd (paste_insert tm at_frame fs) = tl_sort tm2"
    using assms p open_gap_no_span [of "tl_events tm" at_frame]
    by (simp add: paste_insert_def d_def paste_length_def tm1_def)
  moreover have "content (tl_events tm2) f
      = content (map (shift_from at_frame d) (tl_events tm)) f
        + content (map (placed at_frame 0) (sort_key ev_clip_start fs)) f"
    using place_fragments_events [OF p] by (simp add: content_placed tm1_def)
  moreover have "content (map (placed at_frame 0) (sort_key ev_clip_start fs)) f
      = content (map (placed at_frame 0) fs) f"
    by (simp add: content_def multiset.map_comp)
  ultimately show ?thesis by (simp add: d_def)
qed


lemma shift_content:
  assumes wf: "wf_event e" and sp: "\<not> spans e at_frame"
    and room: "at_frame \<le> ev_clip_start e \<Longrightarrow>
      unat (ev_clip_start e) + unat (ev_length e) + unat d < 2 ^ 64"
  shows "ev_content (shift_from at_frame d e) f
    = (if f < at_frame then ev_content e f
       else if f - at_frame < d then {#} else ev_content e (f - d))"
proof -
  have n: "unat (f - at_frame) = unat f - unat at_frame" if "\<not> f < at_frame"
    using that by (intro unat_sub_le) simp
  have dn: "unat (f - d) = unat f - unat d \<and> unat d + unat at_frame \<le> unat f"
    if "\<not> f < at_frame" "\<not> f - at_frame < d"
  proof -
    have "unat d + unat at_frame \<le> unat f" using that n by (auto simp: word_order_nat)
    then show ?thesis by (simp add: unat_sub_le word_le_nat_alt)
  qed
  show ?thesis
  proof (cases "at_frame \<le> ev_clip_start e")
    case True
    let ?e = "e\<lparr>ev_clip_start := ev_clip_start e + d\<rparr>"
    have c: "unat (ev_clip_start ?e) = unat (ev_clip_start e) + unat d"
      using room [OF True] by (simp add: unat_add_small)
    have w: "wf_event ?e" using wf c room [OF True] by (simp add: wf_event_def)
    have a: "unat at_frame \<le> unat (ev_clip_start e)" using True by (simp add: word_le_nat_alt)
    have r: "f - (ev_clip_start e + d) = f - d - ev_clip_start e" by simp
    show ?thesis
    proof (cases "f < at_frame")
      case False
      then show ?thesis
      proof (cases "f - at_frame < d")
        case True
        with n [OF False] have "unat f < unat at_frame + unat d" by (simp add: word_order_nat)
        with True False a c show ?thesis
          by (simp add: shift_from_def \<open>at_frame \<le> ev_clip_start e\<close> ev_content_nat [OF w])
      next
        case g: False
        with dn [OF False] a c r True False show ?thesis
          by (auto simp: shift_from_def ev_content_nat [OF w] ev_content_nat [OF wf])
      qed
    qed (use True a c in \<open>auto simp: shift_from_def ev_content_nat [OF w] ev_content_nat [OF wf] word_order_nat\<close>)
  next
    case False
    with sp wf have b: "unat (ev_clip_start e) + unat (ev_length e) \<le> unat at_frame"
      by (simp add: spans_def word_order_nat wf_end)
    have "ev_content e f = {#}" if "\<not> f < at_frame"
      using that b by (simp add: ev_content_nat [OF wf] word_less_nat_alt)
    moreover have "ev_content e (f - d) = {#}" if "\<not> f < at_frame" "\<not> f - at_frame < d"
    proof -
      have "unat at_frame \<le> unat (f - d)" using dn [OF that] by linarith
      with b show ?thesis by (simp add: ev_content_nat [OF wf])
    qed
    ultimately show ?thesis using False by (simp add: shift_from_def)
  qed
qed

lemma placed_content:
  assumes wf: "wf_event e" and room: "unat (ev_clip_start e) + unat (ev_length e) + unat at_frame < 2 ^ 64"
  shows "ev_content (placed at_frame 0 e) f = (if f < at_frame then {#} else ev_content e (f - at_frame))"
proof -
  let ?e = "placed at_frame 0 e"
  have c: "unat (ev_clip_start ?e) = unat (ev_clip_start e) + unat at_frame"
    using room by (simp add: placed_def unat_add_small)
  have w: "wf_event ?e" using wf c room by (simp add: placed_def wf_event_def)
  have n: "unat (f - at_frame) = unat f - unat at_frame" if "\<not> f < at_frame"
    using that by (intro unat_sub_le) simp
  have r: "f - (ev_clip_start e + at_frame) = f - at_frame - ev_clip_start e" by simp
  show ?thesis
    using c n r by (auto simp: ev_content_nat [OF w] ev_content_nat [OF wf] word_order_nat)
      (auto simp: placed_def)
qed

lemma paste_length_ge:
  "e \<in> set fs \<Longrightarrow> ev_clip_start e + ev_length e \<le> paste_length fs"
  by (induction fs) (auto simp: paste_length_def le_max_iff_disj)

lemma paste_length_le:
  "(\<And>e. e \<in> set fs \<Longrightarrow> ev_clip_start e + ev_length e \<le> b) \<Longrightarrow> paste_length fs \<le> b"
  by (induction fs) (simp_all add: paste_length_def)

lemma paste_length_sort [simp]: "paste_length (sort_key k fs) = paste_length fs"
  by (intro antisym paste_length_le paste_length_ge) simp_all

text \<open>
  Pasting in insert mode, where no event spans the insertion point: before it nothing
  changes, the pasted fragments sound in the gap, and what sounded from the insertion point
  on sounds later by exactly the length of the paste.
\<close>

lemma paste_insert_content:
  assumes "\<forall>e \<in> set (tl_events tm). wf_event e \<and> \<not> spans e at_frame"
    and "\<forall>e \<in> set fs. wf_event e" "fs \<noteq> []"
    and "unat at_frame + unat (paste_length fs) < 2 ^ 64"
    and "\<forall>e \<in> set (tl_events tm). at_frame \<le> ev_clip_start e \<longrightarrow>
      unat (ev_end e) + unat (paste_length fs) < 2 ^ 64"
  shows "content (tl_events (snd (paste_insert tm at_frame fs))) f
    = (if f < at_frame then content (tl_events tm) f
       else if f - at_frame < paste_length fs then content fs (f - at_frame)
       else content (tl_events tm) (f - paste_length fs))"
proof -
  define d where "d = paste_length fs"
  have fr: "unat (ev_clip_start e) + unat (ev_length e) \<le> unat d" if "e \<in> set fs" for e
  proof -
    have "unat (ev_clip_start e + ev_length e) \<le> unat d"
      using paste_length_ge [OF that] by (simp add: d_def word_le_nat_alt)
    moreover have "wf_event e" using assms(2) that by simp
    ultimately show ?thesis by (simp add: wf_event_def unat_add_small)
  qed
  have old: "ev_content (shift_from at_frame d e) f
      = (if f < at_frame then ev_content e f else if f - at_frame < d then {#} else ev_content e (f - d))"
    if "e \<in> set (tl_events tm)" for e
    using assms(1,5) that by (intro shift_content) (auto simp: d_def wf_end)
  have new: "ev_content (placed at_frame 0 e) f
      = (if f < at_frame then {#} else ev_content e (f - at_frame))" if "e \<in> set fs" for e
    using assms(2,4) fr [OF that] that by (intro placed_content) (auto simp: d_def)
  have zero: "ev_content e (f - at_frame) = {#}" if "e \<in> set fs" "\<not> f - at_frame < d" for e
    using assms(2) that fr [OF that(1)] by (auto simp: ev_content_nat word_less_nat_alt)
  have sum0: "content (map g es) f = {#}" if "\<And>e. e \<in> set es \<Longrightarrow> ev_content (g e) f = {#}" for g es
    using that by (induction es) simp_all
  have main: "content (tl_events (snd (paste_insert tm at_frame fs))) f
      = content (map (shift_from at_frame d) (tl_events tm)) f + content (map (placed at_frame 0) fs) f"
    using assms(1,3) by (simp add: paste_insert_content_raw d_def)
  consider (lo) "f < at_frame" | (mid) "\<not> f < at_frame" "f - at_frame < d"
    | (hi) "\<not> f < at_frame" "\<not> f - at_frame < d" by blast
  then show ?thesis
  proof cases
    case lo
    with old new show ?thesis
      unfolding main d_def [symmetric] by (simp add: sum0 content_map)
  next
    case mid
    with old new show ?thesis unfolding main d_def [symmetric] by (simp add: sum0 content_map)
  next
    case hi
    with old new zero show ?thesis unfolding main d_def [symmetric] by (simp add: sum0 content_map)
  qed
qed



lemma cut_event_removed_wf:
  assumes wf: "wf_event ev" and se: "start < end" and m: "m \<in> set (snd (cut_event start end ev))"
  shows "wf_event m \<and> unat (ev_clip_start m) + unat (ev_length m) \<le> unat (end - start)"
proof -
  let ?cs = "max (ev_clip_start ev) start" and ?ce = "min (ev_end ev) end"
  have "start < ev_end ev \<and> ev_clip_start ev < end"
    by (rule ccontr, use m in \<open>auto simp: cut_event_def Let_def not_less\<close>)
  then have o: "unat start < unat (ev_clip_start ev) + unat (ev_length ev)"
      "unat (ev_clip_start ev) < unat end" "unat start < unat end" "unat (end - start) = unat end - unat start"
    using wf se by (simp_all add: word_less_nat_alt wf_end unat_sub_le word_le_nat_alt)
  have cs: "unat ?cs = max (unat (ev_clip_start ev)) (unat start)"
    and ce: "unat ?ce = min (unat (ev_clip_start ev) + unat (ev_length ev)) (unat end)"
    using wf by (simp_all add: unat_min unat_max wf_end)
  have d: "unat (?cs - ev_clip_start ev) = unat ?cs - unat (ev_clip_start ev)"
      "unat (?ce - ?cs) = unat ?ce - unat ?cs" "unat (?cs - start) = unat ?cs - unat start"
    by (rule unat_sub_le, use o wf in \<open>simp add: word_le_nat_alt cs ce\<close>)+
  have me: "ev_clip_start m = ?cs - start" "ev_length m = ?ce - ?cs"
      "ev_source_offset m = sat_add (ev_source_offset ev) (?cs - ev_clip_start ev)"
    using m by (auto simp: cut_event_def Let_def split: if_splits)
  show ?thesis
    unfolding wf_event_def me d cs ce unat_sat_add
    using o wf [unfolded wf_event_def] by (intro conjI; linarith)
qed

lemma cut_event_kept_wf:
  assumes wf: "wf_event ev" and se: "start < end"
    and k: "k \<in> set (map (close_gap start end) (fst (cut_event start end ev)))"
  shows "wf_event k \<and> \<not> spans k start
    \<and> (start \<le> ev_clip_start k \<longrightarrow> unat (ev_end k) + unat (end - start) < 2 ^ 64)"
proof -
  have gap: "unat start < unat end" "unat (end - start) = unat end - unat start"
    using se by (simp_all add: word_order_nat unat_sub_le)
  have suff: ?thesis if w: "wf_event k" and
    c: "unat (ev_clip_start k) + unat (ev_length k) \<le> unat start \<or>
        unat start \<le> unat (ev_clip_start k) \<and>
        unat (ev_clip_start k) + unat (ev_length k) + (unat end - unat start) < 2 ^ 64"
    using w c gap unat64_lt [of "end"]
    by (auto simp: spans_def word_order_nat wf_end)
  show ?thesis
  proof (cases "start < ev_end ev \<and> ev_clip_start ev < end")
    case False
    then have "cut_event start end ev = ([ev], [])" by (auto simp: cut_event_def Let_def)
    then have kk: "k = close_gap start end ev" using k by simp
    show ?thesis
    proof (cases "end \<le> ev_clip_start ev")
      case True
      then have c: "unat (ev_clip_start k) = unat (ev_clip_start ev) - (unat end - unat start)"
        and n: "unat end \<le> unat (ev_clip_start ev)"
        using gap by (simp_all add: kk close_gap_def unat_sub_le word_order_nat)
      have l: "ev_length k = ev_length ev" "ev_source_offset k = ev_source_offset ev"
        using True by (simp_all add: kk close_gap_def)
      show ?thesis
        by (rule suff) (use wf n c gap in \<open>auto simp: wf_event_def l\<close>)
    next
      case F: False
      with False have "ev_end ev \<le> start" by auto
      then have b: "unat (ev_clip_start ev) + unat (ev_length ev) \<le> unat start"
        using wf by (simp add: word_le_nat_alt wf_end)
      then have "ev_clip_start ev \<le> start" by (simp add: word_le_nat_alt)
      then have "k = ev" using F by (auto simp: kk close_gap_def)
      with b wf show ?thesis by (intro suff) auto
    qed
  next
    case True
    let ?l = "ev\<lparr>ev_length := start - ev_clip_start ev, ev_fade_out := 0\<rparr>"
    let ?r = "ev\<lparr>ev_source_offset := sat_add (ev_source_offset ev) (end - ev_clip_start ev),
                 ev_length := ev_end ev - end, ev_clip_start := start\<rparr>"
    have o: "unat start < unat (ev_clip_start ev) + unat (ev_length ev)"
        "unat (ev_clip_start ev) < unat end"
      using True wf by (simp_all add: word_less_nat_alt wf_end)
    have "k = ?l \<and> ev_clip_start ev < start \<or> k = ?r \<and> end < ev_end ev"
      using True k se by (auto simp: cut_event_def Let_def close_gap_def split: if_splits)
    then show ?thesis
    proof (elim disjE conjE)
      assume k: "k = ?l" and l: "ev_clip_start ev < start"
      then have n: "unat (ev_length k) = unat start - unat (ev_clip_start ev)"
        "unat (ev_clip_start ev) < unat start"
        by (simp_all add: unat_sub_le word_order_nat)
      have e: "ev_clip_start k = ev_clip_start ev" "ev_source_offset k = ev_source_offset ev"
        using k by simp_all
      show ?thesis
        by (rule suff) (use wf n o in \<open>auto simp: wf_event_def e\<close>)
    next
      assume k: "k = ?r" and l: "end < ev_end ev"
      then have n: "unat (ev_length k) = unat (ev_clip_start ev) + unat (ev_length ev) - unat end"
        "unat end < unat (ev_clip_start ev) + unat (ev_length ev)"
        using wf by (simp_all add: unat_sub_le word_order_nat wf_end)
      have c: "ev_clip_start k = start" using k by simp
      have s: "unat (ev_source_offset k) \<le> unat (ev_source_offset ev) + (unat end - unat (ev_clip_start ev))"
        using k o by (simp add: unat_sat_add unat_sub_le word_order_nat)
      have "unat (ev_source_offset k) + unat (ev_length k) < 2 ^ 64"
        using s n o wf [unfolded wf_event_def] by linarith
      moreover have "unat start + unat (ev_length k) < 2 ^ 64"
        using n gap wf [unfolded wf_event_def] by linarith
      ultimately have "wf_event k" using c by (simp add: wf_event_def)
      moreover have "unat start + unat (ev_length k) + (unat end - unat start) < 2 ^ 64"
        using n gap wf [unfolded wf_event_def] by linarith
      ultimately show ?thesis
        using c by (intro suff) auto
    qed
  qed
qed

lemma cut_range_events:
  assumes "start < end"
  shows "fst (cut_range tm start end) = concat (map (\<lambda>e. snd (cut_event start end e)) (tl_events tm))"
    and "set (tl_events (snd (cut_range tm start end)))
      = (\<Union>e \<in> set (tl_events tm). set (map (close_gap start end) (fst (cut_event start end e))))"
  using assms by (auto simp: cut_range_def tl_sort_def)

lemma content_empty_iff: "content es f = {#} \<longleftrightarrow> (\<forall>e \<in> set es. \<not> contains_clip_frame e f)"
  by (induction es) (simp_all add: ev_content_def)

text \<open>
  C11. Cut and paste is a round trip: when the events are well formed, cutting a range \<open>[start, end)\<close> that is
  not empty and pasting the fragments back at \<open>start\<close> restores what sounds at every frame, provided something
  sounded in the last frame of the range.  (The clipboard does not record the length of a silent end of the
  range.)  What sounds is the multiset of sources with the frame of the source that is read; gain and fades are
  not part of it.
\<close>

theorem cut_paste_roundtrip:
  assumes wf: "\<forall>e \<in> set (tl_events tm). wf_event e" and se: "start < end"
    and last: "content (tl_events tm) (end - 1) \<noteq> {#}"
  shows "content (tl_events (snd (paste_insert (snd (cut_range tm start end)) start
      (fst (cut_range tm start end))))) f = content (tl_events tm) f"
proof -
  define d where "d = end - start"
  define fs where "fs = fst (cut_range tm start end)"
  define tc where "tc = snd (cut_range tm start end)"
  have gap: "unat start < unat end" "unat d = unat end - unat start"
    using se by (simp_all add: d_def word_less_nat_alt unat_sub_le word_le_nat_alt)
  note content = cut_range_content [OF wf se, folded d_def fs_def tc_def]
  have fs: "wf_event m \<and> unat (ev_clip_start m) + unat (ev_length m) \<le> unat d" if "m \<in> set fs" for m
    using that wf cut_event_removed_wf [OF _ se] by (auto simp: fs_def cut_range_events [OF se] d_def)
  have tc: "wf_event k \<and> \<not> spans k start
      \<and> (start \<le> ev_clip_start k \<longrightarrow> unat (ev_end k) + unat d < 2 ^ 64)" if "k \<in> set (tl_events tc)" for k
    using that wf cut_event_kept_wf [OF _ se]
    unfolding tc_def cut_range_events [OF se] d_def by blast
  have d1: "unat (d - 1) = unat d - 1"
    using gap by (intro unat_minus_one) auto
  have e1: "d - 1 + start = end - 1" by (simp add: d_def)
  have "d - 1 < d" using gap d1 by (simp add: word_less_nat_alt)
  then have "content fs (d - 1) \<noteq> {#}"
    using content [of "d - 1"] last by (simp only: e1 if_True simp_thms)
  then obtain m where m: "m \<in> set fs" "contains_clip_frame m (d - 1)"
    by (auto simp: content_empty_iff)
  then have "unat d \<le> unat (ev_clip_start m + ev_length m)"
    using fs [OF m(1)] d1 gap by (auto simp: contains_nat unat_add_small wf_event_def)
  then have "d \<le> paste_length fs"
    using paste_length_ge [OF m(1)] by (simp add: word_le_nat_alt)
  moreover have "paste_length fs \<le> d"
    using fs by (intro paste_length_le) (simp add: word_le_nat_alt unat_add_small wf_event_def)
  ultimately have pl: "paste_length fs = d" by simp
  have "fs \<noteq> []" using m by auto
  then have "content (tl_events (snd (paste_insert tc start fs))) f
      = (if f < start then content (tl_events tc) f
         else if f - start < d then content fs (f - start) else content (tl_events tc) (f - d))"
    using paste_insert_content [of tc start fs f] tc fs gap unat64_lt [of "end"] by (simp add: pl)
  also have "\<dots> = content (tl_events tm) f"
  proof -
    consider (lo) "f < start" | (mid) "\<not> f < start" "f - start < d" | (hi) "\<not> f < start" "\<not> f - start < d"
      by blast
    then show ?thesis
    proof cases
      case lo
      then have "unat f + unat d < 2 ^ 64"
        using gap unat64_lt [of "end"] by (simp add: word_less_nat_alt)
      with lo content [of f] show ?thesis by simp
    next
      case mid
      with content [of "f - start"] show ?thesis by simp
    next
      case hi
      then have n: "unat (f - start) = unat f - unat start" "unat start \<le> unat f"
        by (simp_all add: unat_sub_le word_le_nat_alt not_less)
      with hi have "unat end \<le> unat f" using gap by (simp add: word_less_nat_alt)
      then have "unat (f - d) = unat f - unat d" "unat d \<le> unat f"
        using gap by (simp_all add: unat_sub_le word_le_nat_alt)
      then have "\<not> f - d < start" "unat (f - d) + unat d < 2 ^ 64"
        using gap \<open>unat end \<le> unat f\<close> unat64_lt [of f] by (simp_all add: word_less_nat_alt)
      with content [of "f - d"] hi show ?thesis by simp
    qed
  qed
  finally show ?thesis by (simp add: fs_def tc_def)
qed

lemma event_split_at_None: "event_split_at e at_frame i = None \<longleftrightarrow> \<not> spans e at_frame"
  by (auto simp: event_split_at_def spans_def Let_def)

lemma open_gap_keeps_host:
  "open_gap at_frame d nx es = (es', rights, nx') \<Longrightarrow> e \<in> set es \<Longrightarrow> spans e at_frame \<Longrightarrow>
   e \<in> set es' \<and> (\<exists>i l r. event_split_at e at_frame i = Some (l, r)
     \<and> r\<lparr>ev_clip_start := ev_clip_start r + d\<rparr> \<in> set rights)"
proof (induction es arbitrary: nx es' rights nx')
  case Nil
  then show ?case by simp
next
  case (Cons x es)
  obtain es1 r1 n1 where o1: "open_gap at_frame d nx es = (es1, r1, n1)" by (metis prod_cases3)
  obtain es2 r2 n2 where o2: "open_gap at_frame d (nx + 1) es = (es2, r2, n2)" by (metis prod_cases3)
  show ?case
  proof (cases "e \<in> set es")
    case True
    have "set es1 \<subseteq> set es' \<and> set r1 \<subseteq> set rights \<or> set es2 \<subseteq> set es' \<and> set r2 \<subseteq> set rights"
      using Cons.prems(1) by (auto simp: o1 o2 split: if_splits option.splits prod.splits)
    with Cons.IH [OF o1 True Cons.prems(3)] Cons.IH [OF o2 True Cons.prems(3)] show ?thesis
      by blast
  next
    case False
    with Cons.prems have e: "x = e" by simp
    obtain l r where lr: "event_split_at e at_frame nx = Some (l, r)"
      using event_split_at_None [of e at_frame nx] Cons.prems(3) by auto
    from Cons.prems(1,3) have "e \<in> set es'" "r\<lparr>ev_clip_start := ev_clip_start r + d\<rparr> \<in> set rights"
      by (auto simp: e o2 lr spans_def split: if_splits)
    with lr show ?thesis by blast
  qed
qed

text \<open>
  The insert is not a ripple insert when an event spans the insertion point: the source
  splits the host but discards the left half and never shortens the host, so the result
  holds the whole host and, moved right, a copy of its tail.
\<close>

lemma paste_insert_host_kept:
  assumes e: "e \<in> set (tl_events tm)" "spans e at_frame" and fs: "fs \<noteq> []"
  shows "e \<in> set (tl_events (snd (paste_insert tm at_frame fs)))
    \<and> (\<exists>i l r. event_split_at e at_frame i = Some (l, r)
        \<and> r\<lparr>ev_clip_start := ev_clip_start r + paste_length fs\<rparr>
            \<in> set (tl_events (snd (paste_insert tm at_frame fs))))"
proof -
  obtain es rights nx where o: "open_gap at_frame (paste_length fs) (max (tl_next_id tm) 1)
      (tl_events tm) = (es, rights, nx)" by (metis prod_cases3)
  define tm1 where "tm1 = tm\<lparr>tl_next_id := nx, tl_events := es @ rights\<rparr>"
  obtain ids tm2 where p: "place_fragments at_frame (sort_key ev_clip_start fs) tm1 = (ids, tm2)"
    by fastforce
  have pl: "foldr (\<lambda>e m. max (ev_clip_start e + ev_length e) m) (sort_key ev_clip_start fs) 0
      = paste_length fs"
    using paste_length_sort [of ev_clip_start fs] by (simp only: paste_length_def)
  have "snd (paste_insert tm at_frame fs) = tl_sort tm2"
    using fs p o by (simp add: paste_insert_def pl tm1_def)
  moreover have "set es \<union> set rights \<subseteq> set (tl_events tm2)"
    using place_fragments_events [OF p] by (auto simp: tm1_def)
  moreover have "set (tl_events (tl_sort tm2)) = set (tl_events tm2)" by (simp add: tl_sort_def)
  ultimately show ?thesis
    using open_gap_keeps_host [OF o e] by (simp only:) blast
qed




section \<open>Splitting\<close>

lemma event_split_content:
  assumes wf: "wf_event e" and sp: "event_split_at e at_frame i = Some (l, r)"
  shows "ev_content l f + ev_content r f = ev_content e f"
proof -
  have "spans e at_frame" using sp event_split_at_None [of e at_frame i] by auto
  then have s: "unat (ev_clip_start e) < unat at_frame" "unat at_frame < unat (ev_end e)"
    by (simp_all add: spans_def word_less_nat_alt)
  then have n: "unat (at_frame - ev_clip_start e) = unat at_frame - unat (ev_clip_start e)"
      "unat (ev_end e - at_frame) = unat (ev_clip_start e) + unat (ev_length e) - unat at_frame"
    using wf by (simp_all add: unat_sub_le word_le_nat_alt wf_end)
  have off: "sat_add (ev_source_offset e) (at_frame - ev_clip_start e)
      = ev_source_offset e + (at_frame - ev_clip_start e)"
    using wf s n by (intro sat_add_exact) (auto simp: wf_event_def wf_end)
  have l: "l = e\<lparr>ev_length := at_frame - ev_clip_start e, ev_fade_out := 0\<rparr>"
    and r: "ev_clip_start r = at_frame" "ev_length r = ev_end e - at_frame" "ev_source_id r = ev_source_id e"
      "ev_source_offset r = ev_source_offset e + (at_frame - ev_clip_start e)"
    using sp off by (auto simp: event_split_at_def Let_def split: if_splits)
  have so: "unat (ev_source_offset r) = unat (ev_source_offset e) + (unat at_frame - unat (ev_clip_start e))"
  proof -
    have "unat (ev_source_offset e) + unat (at_frame - ev_clip_start e) < 2 ^ 64"
      using s n wf wf_end [OF wf] unfolding wf_event_def by linarith
    then show ?thesis by (simp add: r unat_add_small n)
  qed
  have wl: "wf_event l" using wf s n by (auto simp: l wf_event_def wf_end)
  have wr: "wf_event r"
    unfolding wf_event_def r(1,2) so n using s wf by (auto simp: wf_event_def wf_end)
  show ?thesis
    unfolding ev_content_nat [OF wf] ev_content_nat [OF wl] ev_content_nat [OF wr]
    using s n r wf by (auto simp: l wf_end)
qed

lemma content_list_update:
  "i < length es \<Longrightarrow> content (es[i := l] @ [r]) f + ev_content (es ! i) f
    = content es f + ev_content l f + ev_content r f"
  by (induction es arbitrary: i) (auto split: nat.splits simp: ac_simps)

text \<open>
  Splitting an event is inaudible: for every position of the cut the timeline sounds the
  same source frames at every clip frame, whether or not an event was split.
\<close>

lemma tl_split_at_content:
  assumes "\<forall>e \<in> set (tl_events tm). wf_event e"
  shows "content (tl_events (snd (tl_split_at tm at_frame))) f = content (tl_events tm) f"
proof -
  have al: "tl_events (snd (alloc_id tm)) = tl_events tm" by (simp add: alloc_id_def Let_def)
  have "content ((tl_events tm)[i := l] @ [r]) f = content (tl_events tm) f"
    if i: "i < length (tl_events tm)" and s: "event_split_at (tl_events tm ! i) at_frame k = Some (l, r)"
    for i k l r
    using content_list_update [OF i, of l r f] event_split_content [OF _ s, of f] assms i
    by (simp add: add.assoc)
  then show ?thesis
    using al by (auto simp: tl_split_at_def split: option.splits prod.splits dest!: find_idx_Some)
qed

section \<open>The gain envelope\<close>

text \<open>
  Splitting also keeps the gain envelope, frame by frame, when neither fade reaches over
  the cut (a fade that does is dropped on purpose, to avoid a hole at the cut).
\<close>

lemma split_gain:
  assumes wf: "wf_event e" and sp: "event_split_at e at_frame i = Some (l, r)"
    and fades: "ev_fade_in e \<le> at_frame - ev_clip_start e" "ev_fade_out e \<le> ev_end e - at_frame"
  shows "gain_at (if f < at_frame then l else r) f = gain_at e f"
proof -
  have "spans e at_frame" using sp event_split_at_None [of e at_frame i] by auto
  then have s: "unat (ev_clip_start e) < unat at_frame" "unat at_frame < unat (ev_end e)"
    by (simp_all add: spans_def word_less_nat_alt)
  then have n: "unat (at_frame - ev_clip_start e) = unat at_frame - unat (ev_clip_start e)"
      "unat (ev_end e - at_frame) = unat (ev_end e) - unat at_frame"
    by (simp_all add: unat_sub_le word_le_nat_alt)
  have l: "l = e\<lparr>ev_length := at_frame - ev_clip_start e, ev_fade_out := 0\<rparr>"
    and r: "ev_clip_start r = at_frame" "ev_length r = ev_end e - at_frame" "ev_gain r = ev_gain e"
      "ev_fade_in r = 0" "ev_fade_out r = ev_fade_out e"
    using sp by (auto simp: event_split_at_def Let_def split: if_splits)
  have el: "ev_end l = at_frame"
    using s n unat64_lt [of at_frame] by (simp add: l ev_end_def sat_add_def)
  have er: "ev_end r = ev_end e"
    using s n unat64_lt [of "ev_end e"] by (simp add: r ev_end_def sat_add_def)
  show ?thesis
  proof (cases "f < at_frame")
    case True
    have "\<not> sat_sub (ev_end e) f < ev_fade_out e"
      using True fades s n by (simp add: word_less_nat_alt word_le_nat_alt unat_sat_sub)
    moreover have "f < ev_end e" using True s by (simp add: word_less_nat_alt)
    ultimately show ?thesis
      using True el by (simp add: l gain_at_def contains_clip_frame_def ev_end_def Let_def)
  next
    case False
    then have nf: "unat (f - ev_clip_start e) = unat f - unat (ev_clip_start e)"
      "unat at_frame \<le> unat f" "ev_clip_start e \<le> f" "at_frame \<le> f"
      using s by (simp_all add: unat_sub_le word_le_nat_alt not_less)
    then have "\<not> f - ev_clip_start e < ev_fade_in e"
      using fades n s by (simp add: word_less_nat_alt word_le_nat_alt)
    then show ?thesis
      using False nf by (simp add: r er gain_at_def contains_clip_frame_def Let_def)
  qed
qed

lemma fade_step:
  fixes m n :: u64
  assumes g: "is_finite g" "fp_ok F32 g" "0 \<le> val g" and mn: "m < n"
  shows "is_finite (fmul F32 g (fdiv F32 (of_u64 F32 m) (of_u64 F32 n)))
    \<and> fp_ok F32 (fmul F32 g (fdiv F32 (of_u64 F32 m) (of_u64 F32 n)))
    \<and> 0 \<le> val (fmul F32 g (fdiv F32 (of_u64 F32 m) (of_u64 F32 n)))
    \<and> val (fmul F32 g (fdiv F32 (of_u64 F32 m) (of_u64 F32 n))) \<le> val g"
proof -
  have "m \<le> n" "n \<noteq> 0" using mn by auto
  from fdiv_ratio [OF this, of F32] fmul_scale [OF g, of "fdiv F32 (of_u64 F32 m) (of_u64 F32 n)"]
  show ?thesis by (simp add: fp_ok_fmul)
qed

text \<open>
  The gain envelope never exceeds the gain of the event, is never negative nor a NaN or an
  infinity, whatever the fades (zero, overlapping or longer than the event), and is exactly
  0 outside the event.
\<close>

lemma gain_at_bounds:
  assumes "is_finite (ev_gain e)" "fp_ok F32 (ev_gain e)" "0 \<le> val (ev_gain e)"
  shows "is_finite (gain_at e f) \<and> 0 \<le> val (gain_at e f) \<and> val (gain_at e f) \<le> val (ev_gain e)
    \<and> (\<not> contains_clip_frame e f \<longrightarrow> gain_at e f = Num 0)"
proof -
  define g where "g = (if 0 < ev_fade_in e \<and> f - ev_clip_start e < ev_fade_in e
    then fmul F32 (ev_gain e) (fdiv F32 (of_u64 F32 (f - ev_clip_start e)) (of_u64 F32 (ev_fade_in e)))
    else ev_gain e)"
  have g: "is_finite g" "fp_ok F32 g" "0 \<le> val g" "val g \<le> val (ev_gain e)"
    using fade_step [OF assms, of "f - ev_clip_start e" "ev_fade_in e"] assms by (auto simp: g_def)
  have "gain_at e f = (if \<not> contains_clip_frame e f then Num 0
      else if 0 < ev_fade_out e \<and> sat_sub (ev_end e) f < ev_fade_out e
      then fmul F32 g (fdiv F32 (of_u64 F32 (sat_sub (ev_end e) f)) (of_u64 F32 (ev_fade_out e))) else g)"
    by (simp only: gain_at_def g_def Let_def)
  then show ?thesis
    using fade_step [OF g(1-3), of "sat_sub (ev_end e) f" "ev_fade_out e"] g assms by auto
qed

section \<open>Rendering\<close>

definition source_at :: "f32 list \<Rightarrow> u64 \<Rightarrow> f32" where
  "source_at source i = (if unat i < length source then source ! unat i else Num 0)"

definition mix_at :: "f32 list \<Rightarrow> u64 \<Rightarrow> ClipAudioEvent \<Rightarrow> f32 \<Rightarrow> f32" where
  "mix_at source f ev acc =
     (if contains_clip_frame ev f
      then fadd F32 acc (fmul F32 (source_at source (ev_source_offset ev + (f - ev_clip_start ev)))
        (gain_at ev f)) else acc)"

lemma length_render_event [simp]: "length (render_event source tot ev n i out) = length out"
  by (induction n arbitrary: i out) (simp_all add: Let_def)

lemma render_event_nth:
  assumes wf: "wf_event ev" and tot: "ev_end ev \<le> tot" "length out = unat tot"
    and n: "unat i + n = unat (ev_length ev)" and f: "unat f < length out"
  shows "render_event source tot ev n i out ! unat f =
    (if ev_clip_start ev + i \<le> f \<and> f < ev_end ev then mix_at source f ev (out ! unat f)
     else out ! unat f)"
  using n tot(2) f
proof (induction n arbitrary: i out)
  case 0
  then have "ev_clip_start ev + i = ev_end ev"
    using wf by (simp add: word_eq_nat wf_end unat_add_small wf_event_def)
  then show ?case by auto
next
  case (Suc n)
  let ?dst = "ev_clip_start ev + i"
  have e: "unat (ev_end ev) = unat (ev_clip_start ev) + unat (ev_length ev)" using wf by (rule wf_end)
  have i1: "unat (i + 1) = unat i + 1" and d: "unat ?dst = unat (ev_clip_start ev) + unat i"
    using Suc.prems(1) wf by (simp_all add: unat_add_small wf_event_def)
  have de: "?dst < ev_end ev" using d e Suc.prems(1) by (simp add: word_less_nat_alt)
  with tot(1) have dt: "\<not> tot \<le> ?dst" by simp
  let ?out = "out[unat ?dst := fadd F32 (out ! unat ?dst)
    (fmul F32 (source_at source (ev_source_offset ev + i)) (gain_at ev ?dst))]"
  have step: "render_event source tot ev (Suc n) i out = render_event source tot ev n (i + 1) ?out"
    using dt by (simp add: Let_def source_at_def)
  have "unat (i + 1) + n = unat (ev_length ev)" using i1 Suc.prems(1) by simp
  from Suc.IH [OF this] Suc.prems have ih: "render_event source tot ev (Suc n) i out ! unat f =
    (if ?dst + 1 \<le> f \<and> f < ev_end ev then mix_at source f ev (?out ! unat f) else ?out ! unat f)"
    unfolding step by (simp add: add.assoc)
  have d1: "unat (?dst + 1) = unat ?dst + 1"
    using de unat64_lt [of "ev_end ev"] unat_add_small [of ?dst 1] by (simp add: word_less_nat_alt)
  show ?case
  proof (cases "f = ?dst")
    case True
    have "contains_clip_frame ev f"
      using True de d by (simp add: contains_clip_frame_def word_le_nat_alt)
    with True ih d1 de Suc.prems show ?thesis
      by (simp add: mix_at_def word_le_nat_alt)
  next
    case False
    then have "unat f \<noteq> unat ?dst" by (simp add: word_eq_nat)
    with ih d1 show ?thesis by (auto simp: word_le_nat_alt)
  qed
qed

text \<open>
  \<open>render_mono\<close> implements the overlap sum: its buffer is as long as the timeline, and each
  frame is the sum, in timeline order, of the gained samples of the events that contain it;
  the early \<open>break\<close> and the bounds tests never lose a frame.
\<close>

lemma render_mono_pointwise:
  assumes "\<forall>e \<in> set (tl_events tm). wf_event e"
  shows "length (render_mono tm source) = unat (total_frames tm)
    \<and> (\<forall>f. f < total_frames tm \<longrightarrow>
        render_mono tm source ! unat f = fold (mix_at source f) (tl_events tm) (Num 0))"
proof -
  define tot where "tot = total_frames tm"
  have tot: "ev_end e \<le> tot" if "e \<in> set (tl_events tm)" for e
  proof -
    have "e \<in> set es \<Longrightarrow> ev_end e \<le> foldr (\<lambda>e m. max (ev_end e) m) es 0" for es
      by (induction es) (auto simp: le_max_iff_disj)
    with that show ?thesis by (simp add: tot_def total_frames_def)
  qed
  define step where "step ev out = render_event source tot ev (unat (ev_length ev)) 0 out" for ev out
  have gen: "length (fold step es out) = unat tot \<and>
      fold step es out ! unat f = fold (mix_at source f) es (out ! unat f)"
    if "set es \<subseteq> set (tl_events tm)" "length out = unat tot" "unat f < unat tot" for es out f
    using that
  proof (induction es arbitrary: out)
    case (Cons e es)
    then have e: "wf_event e" "ev_end e \<le> tot" using assms tot by auto
    have "step e out ! unat f = mix_at source f e (out ! unat f)"
      using render_event_nth [OF e Cons.prems(2), of 0] Cons.prems(2,3)
      by (simp add: step_def mix_at_def contains_clip_frame_def)
    with Cons.IH [of "step e out"] Cons.prems show ?case by (simp add: step_def)
  qed simp
  have len: "length (fold step es out) = length out" for es out
    by (induction es arbitrary: out) (simp_all add: step_def)
  have r: "render_mono tm source = fold step (tl_events tm) (replicate (unat tot) (Num 0))"
    by (simp add: render_mono_def Let_def tot_def step_def [abs_def])
  show ?thesis
    using gen [of "tl_events tm" "replicate (unat tot) (Num 0)"]
    by (auto simp: r len word_less_nat_alt simp flip: tot_def)
qed


section \<open>The hypotheses can be met\<close>

definition demo_fragments :: "ClipAudioEvent list" where
  "demo_fragments = [\<lparr> ev_id = 9, ev_source_id = 3, ev_clip_start = 5, ev_source_offset = 0,
     ev_length = 10, ev_gain = Num 1, ev_fade_in = 0, ev_fade_out = 0 \<rparr>]"

lemma demo_wf: "\<forall>e \<in> set (tl_events demo_timeline). wf_event e"
  by (simp add: demo_timeline_def wf_event_def)

lemma demo_event_wf: "wf_event (tl_events demo_timeline ! 0)"
  by (simp add: demo_timeline_def wf_event_def)

lemma demo_split: "\<exists>l r. event_split_at (tl_events demo_timeline ! 0) 20 5 = Some (l, r)"
  by (simp add: demo_timeline_def event_split_at_def ev_end_def sat_add_def)

lemma paste_insert_content_witness:
  "paste_length demo_fragments = 15 \<and>
   content (tl_events (snd (paste_insert demo_timeline 50 demo_fragments))) 57
     = content demo_fragments 7"
proof -
  have p: "paste_length demo_fragments = 15" by (simp add: paste_length_def demo_fragments_def)
  have "\<forall>e \<in> set (tl_events demo_timeline). wf_event e \<and> \<not> spans e 50"
    by (simp add: demo_timeline_def wf_event_def spans_def ev_end_def sat_add_def)
  moreover have "\<forall>e \<in> set demo_fragments. wf_event e" "demo_fragments \<noteq> []"
    by (simp_all add: demo_fragments_def wf_event_def)
  moreover have "\<forall>e \<in> set (tl_events demo_timeline). (50 :: u64) \<le> ev_clip_start e \<longrightarrow>
      unat (ev_end e) + unat (paste_length demo_fragments) < 2 ^ 64"
    by (simp add: demo_timeline_def)
  ultimately show ?thesis
    using paste_insert_content [of demo_timeline 50 demo_fragments 57] p by simp
qed

theorem cut_paste_roundtrip_witness:
  "(10 :: u64) < 35 \<and> content (tl_events demo_timeline) 34 \<noteq> {#} \<and>
   content (tl_events (snd (paste_insert (snd (cut_range demo_timeline 10 35)) 10
     (fst (cut_range demo_timeline 10 35))))) 32 = content (tl_events demo_timeline) 32"
proof -
  have "content (tl_events demo_timeline) (35 - 1) \<noteq> {#}"
    by (simp add: demo_timeline_def ev_content_def contains_clip_frame_def ev_end_def sat_add_def)
  from cut_paste_roundtrip [OF demo_wf _ this, of 10] this show ?thesis by simp
qed

lemma paste_insert_host_kept_witness:
  "spans (tl_events demo_timeline ! 0) 20 \<and>
   tl_events demo_timeline ! 0 \<in> set (tl_events (snd (paste_insert demo_timeline 20 demo_fragments)))"
proof -
  have "spans (tl_events demo_timeline ! 0) 20"
    by (simp add: demo_timeline_def spans_def ev_end_def sat_add_def)
  moreover have "tl_events demo_timeline ! 0 \<in> set (tl_events demo_timeline)" "demo_fragments \<noteq> []"
    by (simp_all add: demo_timeline_def demo_fragments_def)
  ultimately show ?thesis
    using paste_insert_host_kept [of "tl_events demo_timeline ! 0" demo_timeline 20 demo_fragments]
    by blast
qed

lemma tl_split_at_content_witness:
  "content (tl_events (snd (tl_split_at demo_timeline 20))) 25 = content (tl_events demo_timeline) 25"
  using tl_split_at_content [OF demo_wf] by blast

lemma split_gain_witness:
  "\<exists>l r. event_split_at (tl_events demo_timeline ! 0) 20 5 = Some (l, r) \<and>
     gain_at r 38 = gain_at (tl_events demo_timeline ! 0) 38"
proof -
  obtain l r where s: "event_split_at (tl_events demo_timeline ! 0) 20 5 = Some (l, r)"
    using demo_split by blast
  have "ev_fade_in (tl_events demo_timeline ! 0) \<le> 20 - ev_clip_start (tl_events demo_timeline ! 0)"
    "ev_fade_out (tl_events demo_timeline ! 0) \<le> ev_end (tl_events demo_timeline ! 0) - 20"
    by (simp_all add: demo_timeline_def ev_end_def sat_add_def)
  from split_gain [OF demo_event_wf s this, of 38] s show ?thesis by auto
qed

lemma gain_at_bounds_witness:
  "is_finite (gain_at (tl_events demo_timeline ! 0) 2) \<and>
   val (gain_at (tl_events demo_timeline ! 0) 2) \<le> 1"
proof -
  have "is_finite (ev_gain (tl_events demo_timeline ! 0))" "fp_ok F32 (ev_gain (tl_events demo_timeline ! 0))"
    "0 \<le> val (ev_gain (tl_events demo_timeline ! 0))" "val (ev_gain (tl_events demo_timeline ! 0)) = 1"
    by (simp_all add: demo_timeline_def)
  with gain_at_bounds [of "tl_events demo_timeline ! 0" 2] show ?thesis by simp
qed

lemma render_mono_pointwise_witness:
  "length (render_mono demo_timeline [Num 1, Num 1]) = unat (total_frames demo_timeline)"
  using render_mono_pointwise [OF demo_wf] by blast

end
