(* ===== verification/SessionClip.thy ===== *)
theory SessionClip
  imports Ieee
begin

text \<open>
  One slot of the session matrix: \<open>Clip\<close> of crates/hikaru_sequencer/src/clip.rs and
  \<open>TrackMatrix\<close> of crates/hikaru_sequencer/src/matrix.rs.  The state byte of a clip is an
  \<open>AtomicU8\<close> that the GUI and the audio callback share; every operation that stores into it
  returns the clip with the new byte.
\<close>

section \<open>Clip states\<close>

datatype ClipState = Stopped | Queued | Playing | Stopping

datatype VoiceState = Active | Finished

datatype TriggerMode = Trigger | Toggle | Repeat | Legato

fun clip_state_byte :: "ClipState \<Rightarrow> u8" where
  "clip_state_byte Stopped = 0"
| "clip_state_byte Queued = 1"
| "clip_state_byte Playing = 2"
| "clip_state_byte Stopping = 3"

definition clip_state_from :: "u8 \<Rightarrow> ClipState" where
  "clip_state_from b =
     (if b = 1 then Queued else if b = 2 then Playing else if b = 3 then Stopping else Stopped)"

record Clip =
  cl_id :: u32
  cl_audio_buffer_id :: u32
  cl_state :: u8
  cl_trigger_mode :: TriggerMode
  cl_start_sample :: u64
  cl_loop_enabled :: bool
  cl_loop_start :: u64
  cl_loop_end :: u64
  cl_total_frames :: u64

definition clip_new :: "u32 \<Rightarrow> u32 \<Rightarrow> Clip" where
  "clip_new i buf = \<lparr>
     cl_id = i, cl_audio_buffer_id = buf, cl_state = clip_state_byte Stopped,
     cl_trigger_mode = Trigger, cl_start_sample = 0, cl_loop_enabled = True,
     cl_loop_start = 0, cl_loop_end = 0, cl_total_frames = 0 \<rparr>"

definition get_state :: "Clip \<Rightarrow> ClipState" where
  "get_state c = clip_state_from (cl_state c)"

definition set_state :: "Clip \<Rightarrow> ClipState \<Rightarrow> Clip" where
  "set_state c s = c\<lparr>cl_state := clip_state_byte s\<rparr>"

section \<open>Loop region\<close>

definition has_valid_clip_loop :: "Clip \<Rightarrow> bool" where
  "has_valid_clip_loop c \<longleftrightarrow> cl_loop_enabled c \<and> cl_loop_start c < cl_loop_end c"

definition set_source_length_frames :: "Clip \<Rightarrow> u64 \<Rightarrow> Clip" where
  "set_source_length_frames c frames =
     (let c = c\<lparr>cl_total_frames := frames\<rparr>
      in if has_valid_clip_loop c \<and> frames < cl_loop_end c
         then (let c = c\<lparr>cl_loop_end := frames\<rparr>
               in if cl_loop_end c \<le> cl_loop_start c
                  then c\<lparr>cl_loop_start := 0, cl_loop_end := 0\<rparr> else c)
         else c)"

definition loop_length_frames :: "Clip \<Rightarrow> u64" where
  "loop_length_frames c =
     (if has_valid_clip_loop c then cl_loop_end c - cl_loop_start c else cl_total_frames c)"

definition set_loop_points :: "Clip \<Rightarrow> u64 \<Rightarrow> u64 \<Rightarrow> Clip" where
  "set_loop_points c start end =
     (if end \<le> start then c\<lparr>cl_loop_start := 0, cl_loop_end := 0\<rparr>
      else c\<lparr>cl_loop_start := start, cl_loop_end := end\<rparr>)"

definition effective_loop_end :: "Clip \<Rightarrow> u64" where
  "effective_loop_end c =
     (if 0 < cl_total_frames c then min (cl_loop_end c) (cl_total_frames c) else cl_loop_end c)"

section \<open>The voice\<close>

definition resolve_voice_frame :: "Clip \<Rightarrow> u64 \<Rightarrow> (u64 \<times> u64) option \<Rightarrow> u64 option" where
  "resolve_voice_frame c global_pos global_loop =
     (if global_pos < cl_start_sample c then None
      else let elapsed = global_pos - cl_start_sample c
           in if has_valid_clip_loop c
              then let loop_start = min (cl_loop_start c) (effective_loop_end c);
                       loop_end = effective_loop_end c;
                       loop_len = loop_end - loop_start;
                       own = loop_start + (elapsed - loop_start) mod loop_len
                   in if loop_end \<le> loop_start then None
                      else if elapsed < loop_end then Some elapsed
                      else (case global_loop of
                              Some (g_start, g_end) \<Rightarrow>
                                if g_start < g_end
                                then Some (loop_start + sat_sub global_pos g_start mod loop_len)
                                else Some own
                            | None \<Rightarrow> Some own)
              else if cl_total_frames c = 0 then None
              else if cl_total_frames c \<le> elapsed then None
              else Some elapsed)"

definition voice_state :: "Clip \<Rightarrow> u64 \<Rightarrow> (u64 \<times> u64) option \<Rightarrow> VoiceState" where
  "voice_state c global_pos global_loop =
     (case resolve_voice_frame c global_pos global_loop of Some _ \<Rightarrow> Active | None \<Rightarrow> Finished)"

definition finish_slot_if_playing :: "Clip \<Rightarrow> bool \<times> Clip" where
  "finish_slot_if_playing c =
     (if get_state c = Playing then (True, set_state c Stopped) else (False, c))"

definition poll_voice :: "Clip \<Rightarrow> u64 \<Rightarrow> (u64 \<times> u64) option \<Rightarrow> VoiceState \<times> Clip" where
  "poll_voice c global_pos global_loop =
     (let vs = voice_state c global_pos global_loop
      in (vs, if vs = Finished then snd (finish_slot_if_playing c) else c))"

definition clip_read_sample ::
    "Clip \<Rightarrow> u64 \<Rightarrow> f32 list \<Rightarrow> usize \<Rightarrow> (f32 \<times> f32 \<times> VoiceState) \<times> Clip" where
  "clip_read_sample c current_sample_index interleaved channels =
     (let ch = max channels 1;
          silence = ((Num 0, Num 0, Finished), snd (finish_slot_if_playing c));
          idx = current_sample_index * ch
      in if \<not> has_valid_clip_loop c
            \<and> (cl_total_frames c = 0 \<or> cl_total_frames c \<le> current_sample_index)
         then silence
         else if vlen interleaved \<le> idx then silence
         else let l = interleaved ! unat idx;
                  r = (if 1 < ch
                       then (if unat (idx + 1) < length interleaved
                             then interleaved ! unat (idx + 1) else l)
                       else l)
              in if \<not> is_finite l \<or> \<not> is_finite r then silence else ((l, r, Active), c))"

definition next_frame ::
    "Clip \<Rightarrow> u64 \<Rightarrow> (u64 \<times> u64) option \<Rightarrow> f32 list \<Rightarrow> usize
      \<Rightarrow> (f32 \<times> f32 \<times> VoiceState) \<times> Clip" where
  "next_frame c global_pos global_loop interleaved channels =
     (case resolve_voice_frame c global_pos global_loop of
        Some frame \<Rightarrow> clip_read_sample c frame interleaved channels
      | None \<Rightarrow> ((Num 0, Num 0, Finished), snd (finish_slot_if_playing c)))"

section \<open>The matrix\<close>

definition MAX_TRACKS :: nat where "MAX_TRACKS = 16"
definition MAX_SCENES :: nat where "MAX_SCENES = 32"

type_synonym TrackMatrix = "Clip option list list"

definition matrix_ok :: "TrackMatrix \<Rightarrow> bool" where
  "matrix_ok m \<longleftrightarrow> length m = MAX_TRACKS \<and> (\<forall>row \<in> set m. length row = MAX_SCENES)"

definition matrix_new :: TrackMatrix where
  "matrix_new = replicate MAX_TRACKS (replicate MAX_SCENES None)"

text \<open>\<open>trigger_scene\<close>: for every track, queue the clip of the row.\<close>

definition matrix_trigger_scene :: "TrackMatrix \<Rightarrow> nat \<Rightarrow> TrackMatrix" where
  "matrix_trigger_scene m scene =
     (if MAX_SCENES \<le> scene then m
      else map (\<lambda>row. row[scene := map_option (\<lambda>c. set_state c Queued) (row ! scene)]) m)"

definition poll_slot ::
    "u64 \<Rightarrow> (u64 \<times> u64) option \<Rightarrow> Clip option \<Rightarrow> Clip option \<times> nat" where
  "poll_slot global_pos global_loop slot =
     (case slot of
        None \<Rightarrow> (None, 0)
      | Some c \<Rightarrow>
          if get_state c = Playing
          then (let (vs, c') = poll_voice c global_pos global_loop
                in (Some c', if vs = Finished then 1 else 0))
          else (Some c, 0))"

fun poll_row ::
    "u64 \<Rightarrow> (u64 \<times> u64) option \<Rightarrow> Clip option list \<Rightarrow> nat \<Rightarrow> Clip option list \<times> nat" where
  "poll_row p g [] n = ([], n)"
| "poll_row p g (s # row) n =
     (let (s', k) = poll_slot p g s; (row', n') = poll_row p g row (n + k) in (s' # row', n'))"

fun poll_rows ::
    "u64 \<Rightarrow> (u64 \<times> u64) option \<Rightarrow> TrackMatrix \<Rightarrow> nat \<Rightarrow> TrackMatrix \<times> nat" where
  "poll_rows p g [] n = ([], n)"
| "poll_rows p g (row # m) n =
     (let (row', n') = poll_row p g row n; (m', n'') = poll_rows p g m n' in (row' # m', n''))"

definition poll_finished_voices ::
    "TrackMatrix \<Rightarrow> u64 \<Rightarrow> (u64 \<times> u64) option \<Rightarrow> TrackMatrix \<times> nat" where
  "poll_finished_voices m global_pos global_loop = poll_rows global_pos global_loop m 0"

definition deactivate_finished_slots ::
    "TrackMatrix \<Rightarrow> u64 \<Rightarrow> (u64 \<times> u64) option \<Rightarrow> TrackMatrix \<times> nat" where
  "deactivate_finished_slots m global_pos global_loop =
     poll_finished_voices m global_pos global_loop"

section \<open>Properties of the voice\<close>

lemma clip_state_roundtrip [simp]: "clip_state_from (clip_state_byte s) = s"
  by (cases s) (simp_all add: clip_state_from_def)

lemma get_set_state [simp]: "get_state (set_state c s) = s"
  by (simp add: get_state_def set_state_def)

lemma set_state_fields [simp]:
  "cl_start_sample (set_state c s) = cl_start_sample c"
  "cl_total_frames (set_state c s) = cl_total_frames c"
  "cl_loop_start (set_state c s) = cl_loop_start c"
  "cl_loop_end (set_state c s) = cl_loop_end c"
  "cl_loop_enabled (set_state c s) = cl_loop_enabled c"
  by (simp_all add: set_state_def)

lemma set_state_loop [simp]:
  "has_valid_clip_loop (set_state c s) = has_valid_clip_loop c"
  "effective_loop_end (set_state c s) = effective_loop_end c"
  by (simp_all add: has_valid_clip_loop_def effective_loop_end_def)

lemma resolve_set_state [simp]:
  "resolve_voice_frame (set_state c s) p g = resolve_voice_frame c p g"
  by (simp only: resolve_voice_frame_def set_state_fields set_state_loop)

lemma voice_set_state [simp]: "voice_state (set_state c s) p g = voice_state c p g"
  by (simp add: voice_state_def)

text \<open>Adding a remainder to the start of a region stays inside the region.\<close>

lemma loop_mod_range:
  fixes s e x :: u64
  assumes "s < e"
  shows "s + x mod (e - s) < e \<and> s \<le> s + x mod (e - s)"
proof -
  have se: "unat s < unat e" "unat (e - s) = unat e - unat s"
    using assms by (simp_all add: word_less_nat_alt unat_sub_le word_le_nat_alt)
  then have m: "unat (x mod (e - s)) < unat e - unat s"
    by (simp add: unat_mod_distrib)
  then have "unat (s + x mod (e - s)) = unat s + unat (x mod (e - s))"
    using se unat64_lt [of e] by (intro unat_add_small) simp
  with m se show ?thesis by (simp add: word_less_nat_alt word_le_nat_alt)
qed

text \<open>
  The frame a clip voice reads is always inside the audio it may read: below the
  effective loop end with a valid loop (and not before the loop start once the first pass is
  over), and otherwise the elapsed frame itself, strictly below the real length.
\<close>

lemma resolve_voice_frame_range:
  assumes "resolve_voice_frame c p g = Some f"
  shows "cl_start_sample c \<le> p \<and>
    (if has_valid_clip_loop c
     then f < effective_loop_end c
       \<and> (effective_loop_end c \<le> p - cl_start_sample c \<longrightarrow> cl_loop_start c \<le> f)
     else f = p - cl_start_sample c \<and> f < cl_total_frames c)"
proof -
  let ?s = "min (cl_loop_start c) (effective_loop_end c)" and ?e = "effective_loop_end c"
  have *: "?s + x mod (?e - ?s) < ?e \<and> cl_loop_start c \<le> ?s + x mod (?e - ?s)" if "\<not> ?e \<le> ?s" for x
  proof -
    have "?s < ?e" using that by simp
    moreover have "?s = cl_loop_start c" using that by (auto simp: min_def split: if_splits)
    ultimately show ?thesis using loop_mod_range [of ?s ?e x] by simp
  qed
  show ?thesis
    using assms * by (auto simp: resolve_voice_frame_def Let_def not_less not_le
        split: if_splits option.splits prod.splits)
qed


lemma resolve_voice_frame_range_witness:
  "resolve_voice_frame (clip_new 1 7 \<lparr>cl_loop_start := 200, cl_loop_end := 800, cl_total_frames := 1000\<rparr>)
      1500 None = Some 300 \<and> (300 :: u64) < 800"
proof -
  define c where "c = clip_new 1 7 \<lparr>cl_loop_start := 200, cl_loop_end := 800, cl_total_frames := 1000\<rparr>"
  have *: "resolve_voice_frame c 1500 None = Some 300"
    by (simp add: c_def clip_new_def resolve_voice_frame_def has_valid_clip_loop_def effective_loop_end_def)
  have "has_valid_clip_loop c" "effective_loop_end c = 800"
    by (simp_all add: c_def clip_new_def has_valid_clip_loop_def effective_loop_end_def)
  with * resolve_voice_frame_range [OF *] show ?thesis by (simp add: c_def)
qed

text \<open>
  A one-shot never free-runs: without a valid clip loop the voice is active exactly while
  the clock is at or past the start and fewer than \<open>total_frames\<close> frames have elapsed,
  whatever the global loop is; a clip of unknown length is never active.
\<close>

lemma one_shot_active_iff:
  assumes "\<not> has_valid_clip_loop c"
  shows "voice_state c p g = Active \<longleftrightarrow>
    cl_start_sample c \<le> p \<and> unat p < unat (cl_start_sample c) + unat (cl_total_frames c)"
proof (cases "cl_start_sample c \<le> p")
  case True
  then have "p - cl_start_sample c < cl_total_frames c \<longleftrightarrow>
      unat p < unat (cl_start_sample c) + unat (cl_total_frames c)"
    by (auto simp: word_less_nat_alt unat_sub_le word_le_nat_alt)
  then show ?thesis
    using True assms by (auto simp: voice_state_def resolve_voice_frame_def Let_def)
next
  case False
  then show ?thesis by (simp add: voice_state_def resolve_voice_frame_def not_le)
qed

lemma one_shot_active_iff_witness:
  "\<not> has_valid_clip_loop (clip_new 1 7) \<and> voice_state (clip_new 1 7) 5 None \<noteq> Active"
proof -
  have "\<not> has_valid_clip_loop (clip_new 1 7)" by (simp add: clip_new_def has_valid_clip_loop_def)
  with one_shot_active_iff [OF this, of 5 None] show ?thesis by (simp add: clip_new_def)
qed

text \<open>
  A looped clip repeats its region: without a global loop, once the first pass has ended,
  the frame read at a position and one loop length later are the same, and the pass after the
  first one begins exactly at the loop start.
\<close>

lemma resolve_looped:
  assumes "has_valid_clip_loop c" "cl_loop_start c < effective_loop_end c" "cl_start_sample c \<le> p"
    and "effective_loop_end c \<le> p - cl_start_sample c"
  shows "resolve_voice_frame c p None = Some (cl_loop_start c
    + (p - cl_start_sample c - cl_loop_start c) mod (effective_loop_end c - cl_loop_start c))"
  using assms by (simp add: resolve_voice_frame_def Let_def not_le [symmetric])

lemma loop_periodic:
  assumes "has_valid_clip_loop c" "cl_loop_start c < effective_loop_end c" "cl_start_sample c \<le> p"
    and "effective_loop_end c \<le> p - cl_start_sample c"
    and "unat p + unat (effective_loop_end c - cl_loop_start c) < 2 ^ 64"
  shows "resolve_voice_frame c (p + (effective_loop_end c - cl_loop_start c)) None
      = resolve_voice_frame c p None
    \<and> (p - cl_start_sample c = effective_loop_end c \<longrightarrow>
        resolve_voice_frame c p None = Some (cl_loop_start c))"
proof -
  let ?len = "effective_loop_end c - cl_loop_start c" and ?e = "p - cl_start_sample c"
  have n: "unat (p + ?len) = unat p + unat ?len" "unat ?e = unat p - unat (cl_start_sample c)"
    using assms by (simp_all add: unat_add_small unat_sub_le)
  have le: "unat (cl_start_sample c) \<le> unat p" "unat (effective_loop_end c) \<le> unat ?e"
      "unat (cl_loop_start c) < unat (effective_loop_end c)"
      "unat ?len = unat (effective_loop_end c) - unat (cl_loop_start c)"
    using assms by (simp_all add: word_le_nat_alt word_less_nat_alt unat_sub_le)
  have e': "p + ?len - cl_start_sample c = ?e + ?len" by simp
  have ne': "unat (?e + ?len) = unat ?e + unat ?len"
    using n le assms(5) by (intro unat_add_small) simp
  have past: "effective_loop_end c \<le> p + ?len - cl_start_sample c"
    unfolding e' using ne' le by (simp add: word_le_nat_alt)
  have start: "cl_start_sample c \<le> p + ?len" using n le by (simp add: word_le_nat_alt)
  have sub: "unat (?e - cl_loop_start c) = unat ?e - unat (cl_loop_start c)"
    "unat (?e + ?len - cl_loop_start c) = unat ?e - unat (cl_loop_start c) + unat ?len"
  proof -
    have "cl_loop_start c \<le> ?e" "cl_loop_start c \<le> ?e + ?len"
      unfolding word_le_nat_alt ne' using le by linarith+
    from this [THEN unat_sub_le] show "unat (?e - cl_loop_start c) = unat ?e - unat (cl_loop_start c)"
      "unat (?e + ?len - cl_loop_start c) = unat ?e - unat (cl_loop_start c) + unat ?len"
      using ne' le by linarith+
  qed
  have "(?e + ?len - cl_loop_start c) mod ?len = (?e - cl_loop_start c) mod ?len"
    unfolding word_eq_nat unat_mod_distrib sub by simp
  moreover have "(effective_loop_end c - cl_loop_start c) mod ?len = 0" by simp
  ultimately show ?thesis
    using resolve_looped [OF assms(1,2) start past] resolve_looped [OF assms(1-4)] e'
    by (metis add.right_neutral)
qed

lemma loop_periodic_witness:
  "let c = clip_new 1 7 \<lparr>cl_loop_start := 200, cl_loop_end := 800, cl_total_frames := 1000\<rparr>
   in resolve_voice_frame c (900 + 600) None = resolve_voice_frame c 900 None"
proof -
  define c where "c = clip_new 1 7 \<lparr>cl_loop_start := 200, cl_loop_end := 800, cl_total_frames := 1000\<rparr>"
  have f: "has_valid_clip_loop c" "effective_loop_end c = 800" "cl_loop_start c = 200" "cl_start_sample c = 0"
    by (simp_all add: c_def clip_new_def has_valid_clip_loop_def effective_loop_end_def)
  from loop_periodic [of c 900] show ?thesis unfolding Let_def c_def [symmetric] by (simp add: f)
qed

text \<open>
  With a valid global loop the wrap is phase-locked to it: two clips with the same loop
  region and length read the same frame once their first pass is over, whenever each of them
  was started.
\<close>

lemma loop_phase_locked:
  assumes "has_valid_clip_loop c" "has_valid_clip_loop d" "gs < ge"
    and "cl_loop_start c = cl_loop_start d" "effective_loop_end c = effective_loop_end d"
    and "cl_start_sample c \<le> p" "effective_loop_end c \<le> p - cl_start_sample c"
    and "cl_start_sample d \<le> p" "effective_loop_end d \<le> p - cl_start_sample d"
  shows "resolve_voice_frame c p (Some (gs, ge)) = resolve_voice_frame d p (Some (gs, ge))"
proof -
  have "\<not> p < cl_start_sample c" "\<not> p < cl_start_sample d"
    "\<not> p - cl_start_sample c < effective_loop_end c" "\<not> p - cl_start_sample d < effective_loop_end d"
    using assms by (simp_all add: not_less)
  with assms show ?thesis by (simp add: resolve_voice_frame_def Let_def)
qed

lemma loop_phase_locked_witness:
  "let c = clip_new 1 7 \<lparr>cl_loop_start := 200, cl_loop_end := 800, cl_total_frames := 1000\<rparr>
   in resolve_voice_frame c 5000 (Some (4000, 7000))
      = resolve_voice_frame (c\<lparr>cl_start_sample := 123\<rparr>) 5000 (Some (4000, 7000))"
proof -
  define c where "c = clip_new 1 7 \<lparr>cl_loop_start := 200, cl_loop_end := 800, cl_total_frames := 1000\<rparr>"
  define d where "d = c\<lparr>cl_start_sample := 123\<rparr>"
  have f: "has_valid_clip_loop c" "effective_loop_end c = 800" "cl_loop_start c = 200" "cl_start_sample c = 0"
    "has_valid_clip_loop d" "effective_loop_end d = 800" "cl_loop_start d = 200" "cl_start_sample d = 123"
    by (simp_all add: d_def c_def clip_new_def has_valid_clip_loop_def effective_loop_end_def)
  from loop_phase_locked [of c d 4000 7000 5000] show ?thesis
    unfolding Let_def c_def [symmetric] d_def [symmetric] by (simp add: f)
qed

section \<open>Silence and slot deactivation\<close>

lemma get_state_finish [simp]:
  "get_state (snd (finish_slot_if_playing c)) = (if get_state c = Playing then Stopped else get_state c)"
  by (simp add: finish_slot_if_playing_def)

text \<open>
  Nothing but audio reaches the mixer: the samples of \<open>next_frame\<close> are always finite; when
  the voice is finished they are exactly 0 and the slot is not playing any more; when it is
  active the clip is unchanged.
\<close>

lemma next_frame_safe:
  "(let ((l, r, vs), c') = next_frame c p g buf ch
    in is_finite l \<and> is_finite r
       \<and> (if vs = Finished then l = Num 0 \<and> r = Num 0 \<and> get_state c' \<noteq> Playing else c' = c))"
  by (auto simp: next_frame_def clip_read_sample_def Let_def split: option.splits)

section \<open>Polling the matrix\<close>

definition done_playing :: "u64 \<Rightarrow> (u64 \<times> u64) option \<Rightarrow> Clip option \<Rightarrow> bool" where
  "done_playing p g slot \<longleftrightarrow>
     (\<exists>c. slot = Some c \<and> get_state c = Playing \<and> voice_state c p g = Finished)"

definition retire :: "u64 \<Rightarrow> (u64 \<times> u64) option \<Rightarrow> Clip option \<Rightarrow> Clip option" where
  "retire p g slot = (if done_playing p g slot then map_option (\<lambda>c. set_state c Stopped) slot else slot)"

lemma poll_slot_eq: "poll_slot p g s = (retire p g s, if done_playing p g s then 1 else 0)"
  by (cases s) (auto simp: poll_slot_def poll_voice_def retire_def done_playing_def
      finish_slot_if_playing_def Let_def)

lemma poll_row_eq:
  "poll_row p g row n = (map (retire p g) row, n + length (filter (done_playing p g) row))"
  by (induction row arbitrary: n) (auto simp: poll_slot_eq)

lemma poll_rows_eq:
  "poll_rows p g m n
    = (map (map (retire p g)) m, n + length (filter (done_playing p g) (concat m)))"
  by (induction m arbitrary: n) (auto simp: poll_row_eq)

lemma done_retire [simp]: "\<not> done_playing p g (retire p g s)"
  by (cases s) (auto simp: retire_def done_playing_def)

text \<open>
  Polling the matrix retires exactly the slots that play a finished voice, leaves every
  other slot as it is, returns how many it retired, and has nothing left to do when called
  again at the same position.
\<close>

lemma poll_finished_voices_spec:
  "poll_finished_voices m p g
      = (map (map (retire p g)) m, length (filter (done_playing p g) (concat m)))
   \<and> snd (poll_finished_voices (fst (poll_finished_voices m p g)) p g) = 0"
  by (simp add: poll_finished_voices_def poll_rows_eq map_concat [symmetric] filter_map comp_def
      flip: filter_False) (simp add: filter_map comp_def map_concat [symmetric])

text \<open>
  Launching a scene queues exactly the occupied slots of its row on all sixteen tracks
  and touches no other slot; an index past the last scene does nothing.
\<close>

lemma matrix_trigger_scene_spec:
  assumes "matrix_ok m" "t < MAX_TRACKS" "s < MAX_SCENES"
  shows "matrix_trigger_scene m scene ! t ! s
    = (if s = scene then map_option (\<lambda>c. set_state c Queued) (m ! t ! s) else m ! t ! s)"
  using assms by (auto simp: matrix_ok_def matrix_trigger_scene_def nth_list_update)

lemma matrix_trigger_scene_spec_witness:
  "matrix_ok matrix_new \<and> matrix_trigger_scene matrix_new 3 ! 2 ! 3 = None"
proof -
  have "matrix_ok matrix_new" by (simp add: matrix_ok_def matrix_new_def)
  with matrix_trigger_scene_spec [OF this, of 2 3 3] show ?thesis
    by (simp add: MAX_TRACKS_def MAX_SCENES_def matrix_new_def)
qed

text \<open>
  Loading a source clamps the loop: afterwards the length that will be played never
  exceeds the real length of the audio, and a loop that would become empty is cleared.
\<close>

lemma source_length_clamps_loop:
  "loop_length_frames (set_source_length_frames c n) \<le> n
   \<and> (has_valid_clip_loop (set_source_length_frames c n) \<longrightarrow>
        cl_loop_end (set_source_length_frames c n) \<le> n)"
  by (auto simp: loop_length_frames_def set_source_length_frames_def has_valid_clip_loop_def
      Let_def word_le_nat_alt word_less_nat_alt unat_sub_le)

lemma source_length_clamps_loop_witness:
  "\<exists>c. has_valid_clip_loop (set_source_length_frames c 10) \<and> cl_loop_end (set_source_length_frames c 10) \<le> 10"
proof -
  define c where "c = (clip_new 1 2)\<lparr>cl_loop_enabled := True, cl_loop_start := 2, cl_loop_end := 64\<rparr>"
  have "has_valid_clip_loop (set_source_length_frames c 10)"
    by (simp add: c_def set_source_length_frames_def has_valid_clip_loop_def Let_def)
  with source_length_clamps_loop [of c 10] show ?thesis by blast
qed

end
