(* ===== verification/Transport.thy ===== *)
theory Transport
  imports Ieee
begin

text \<open>
  The transport of crates/hikaru_transport/src/transport_state.rs and the quantiser of
  crates/hikaru_sequencer/src/quantizer.rs: the sample clock shared by the GUI and the
  audio callback, the tick/sample conversions, the global loop and the distance to the next
  grid line.  Tick conversions are computed in \<open>f64\<close> as the source does.
\<close>

section \<open>State\<close>

datatype TransportPlaybackState = Stopped | Playing | Paused

record TransportPosition =
  tp_sample_rate :: f32
  tp_bpm :: f64
  tp_beats_per_bar :: u32
  tp_beat_division :: u32
  tp_sample_count :: u64
  tp_playback_state :: TransportPlaybackState
  tp_loop_enabled :: bool
  tp_loop_start_samples :: u64
  tp_loop_end_samples :: u64

definition DEFAULT_PPQN :: u64 where
  "DEFAULT_PPQN = 960"

definition transport_new :: "f32 \<Rightarrow> f64 \<Rightarrow> TransportPosition" where
  "transport_new sr bpm = \<lparr>
     tp_sample_rate = sr, tp_bpm = bpm, tp_beats_per_bar = 4, tp_beat_division = 4,
     tp_sample_count = 0, tp_playback_state = Stopped,
     tp_loop_enabled = False, tp_loop_start_samples = 0, tp_loop_end_samples = 0 \<rparr>"

section \<open>Operations\<close>

definition advance :: "TransportPosition \<Rightarrow> u64 \<Rightarrow> TransportPosition" where
  "advance t n =
     (if tp_playback_state t = Playing
      then t\<lparr>tp_sample_count := tp_sample_count t + n\<rparr> else t)"

definition transport_reset :: "TransportPosition \<Rightarrow> TransportPosition" where
  "transport_reset t = t\<lparr>tp_sample_count := 0\<rparr>"

definition set_bpm :: "TransportPosition \<Rightarrow> f64 \<Rightarrow> TransportPosition" where
  "set_bpm t new_bpm = (if lt (Num 0) new_bpm then t\<lparr>tp_bpm := new_bpm\<rparr> else t)"

definition samples_per_beat :: "TransportPosition \<Rightarrow> f64" where
  "samples_per_beat t =
     (let bpm = fmax (tp_bpm t) (Num 1); sr = tp_sample_rate t
      in if le sr (Num 0) then Num 0 else fdiv F64 (fmul F64 sr (Num 60)) bpm)"

definition samples_per_bar :: "TransportPosition \<Rightarrow> f64" where
  "samples_per_bar t = fmul F64 (samples_per_beat t) (of_u64 F64 (tp_beats_per_bar t))"

definition seconds_per_tick :: "TransportPosition \<Rightarrow> f64" where
  "seconds_per_tick t =
     (let bpm = fmax (tp_bpm t) (Num 1)
      in fdiv F64 (fdiv F64 (Num 60) bpm) (of_u64 F64 DEFAULT_PPQN))"

definition ticks_to_samples :: "TransportPosition \<Rightarrow> u64 \<Rightarrow> u64" where
  "ticks_to_samples t ticks =
     (let sr = tp_sample_rate t
      in if le sr (Num 0) then 0
         else to_word (fround (fmul F64 (fmul F64 (of_u64 F64 ticks) (seconds_per_tick t)) sr)))"

definition clip_length_frames :: "TransportPosition \<Rightarrow> u64 \<Rightarrow> u64" where
  "clip_length_frames t duration_ticks = ticks_to_samples t duration_ticks"

definition samples_to_ticks :: "TransportPosition \<Rightarrow> u64 \<Rightarrow> u64" where
  "samples_to_ticks t samples =
     (let sr = tp_sample_rate t
      in if le sr (Num 0) then 0
         else let seconds = fdiv F64 (of_u64 F64 samples) sr; spt = seconds_per_tick t
              in if le spt (Num 0) then 0 else to_word (fround (fdiv F64 seconds spt)))"

definition set_loop_region_samples :: "TransportPosition \<Rightarrow> u64 \<Rightarrow> u64 \<Rightarrow> TransportPosition" where
  "set_loop_region_samples t start end =
     t\<lparr>tp_loop_start_samples := start, tp_loop_end_samples := end\<rparr>"

definition set_loop_enabled :: "TransportPosition \<Rightarrow> bool \<Rightarrow> TransportPosition" where
  "set_loop_enabled t enabled = t\<lparr>tp_loop_enabled := enabled\<rparr>"

definition has_valid_loop :: "TransportPosition \<Rightarrow> bool" where
  "has_valid_loop t \<longleftrightarrow> tp_loop_enabled t \<and> tp_loop_start_samples t < tp_loop_end_samples t"

definition loop_length_samples :: "TransportPosition \<Rightarrow> u64" where
  "loop_length_samples t = sat_sub (tp_loop_end_samples t) (tp_loop_start_samples t)"

definition wrap_sample_count :: "TransportPosition \<Rightarrow> u64 \<Rightarrow> u64" where
  "wrap_sample_count t pos =
     (if \<not> has_valid_loop t \<or> pos < tp_loop_end_samples t then pos
      else let len = loop_length_samples t
           in if len = 0 then pos
              else tp_loop_start_samples t + (pos - tp_loop_start_samples t) mod len)"

section \<open>The launch quantiser\<close>

datatype QuantizationGrid = Bar | HalfNote | Quarter | Eighth | Sixteenth | NoGrid

fun grid_size_in_beats :: "QuantizationGrid \<Rightarrow> f64 option" where
  "grid_size_in_beats Bar = Some (Num 4)"
| "grid_size_in_beats HalfNote = Some (Num 2)"
| "grid_size_in_beats Quarter = Some (Num 1)"
| "grid_size_in_beats Eighth = Some (Num (1 / 2))"
| "grid_size_in_beats Sixteenth = Some (Num (1 / 4))"
| "grid_size_in_beats NoGrid = None"

definition samples_until_next_sync ::
    "TransportPosition \<Rightarrow> QuantizationGrid \<Rightarrow> f64 \<Rightarrow> u64" where
  "samples_until_next_sync t grid sr =
     (let spb = fmul F64 (fdiv F64 (Num 60) (tp_bpm t)) sr
      in case grid_size_in_beats grid of
           None \<Rightarrow> 0
         | Some g \<Rightarrow>
             let unit = fmul F64 spb g;
                 cur = of_u64 F64 (tp_sample_count t);
                 rem = frem cur unit
             in if lt rem (lit F64 (1 / 1000)) then 0 else to_word (fsub F64 unit rem))"

section \<open>The global loop\<close>

text \<open>The transport's clock as natural numbers, where the wrap has its usual reading.\<close>

definition wrap_nat :: "nat \<Rightarrow> nat \<Rightarrow> nat \<Rightarrow> nat" where
  "wrap_nat s e p = (if p < e then p else s + (p - s) mod (e - s))"

lemma unat_wrap_sample_count:
  assumes "has_valid_loop t"
  shows "unat (wrap_sample_count t pos) =
    wrap_nat (unat (tp_loop_start_samples t)) (unat (tp_loop_end_samples t)) (unat pos)"
proof (cases "pos < tp_loop_end_samples t")
  case True
  then show ?thesis by (simp add: wrap_sample_count_def wrap_nat_def word_less_nat_alt)
next
  case False
  let ?s = "tp_loop_start_samples t" and ?e = "tp_loop_end_samples t"
  from assms have se: "unat ?s < unat ?e" by (simp add: has_valid_loop_def word_less_nat_alt)
  from False have ep: "unat ?e \<le> unat pos" by (simp add: word_less_nat_alt)
  have len: "unat (loop_length_samples t) = unat ?e - unat ?s"
    by (simp add: loop_length_samples_def nat_of_word)
  with se have len0: "loop_length_samples t \<noteq> 0" by auto
  have m: "unat ((pos - ?s) mod loop_length_samples t) = (unat pos - unat ?s) mod (unat ?e - unat ?s)"
    using se ep by (simp add: unat_mod_distrib len unat_sub_le word_le_nat_alt)
  have "(unat pos - unat ?s) mod (unat ?e - unat ?s) < unat ?e - unat ?s" using se by simp
  then have "unat ?s + unat ((pos - ?s) mod loop_length_samples t) < 2 ^ 64"
    using m se unat64_lt [of ?e] by linarith
  then show ?thesis
    using assms False len0 m ep
    by (simp add: wrap_sample_count_def wrap_nat_def unat_add_small word_less_nat_alt)
qed

lemma wrap_nat_range: "s < e \<Longrightarrow> wrap_nat s e p < e \<and> (s \<le> p \<longrightarrow> s \<le> wrap_nat s e p)"
  using mod_less_divisor [of "e - s" "p - s"] by (auto simp: wrap_nat_def less_diff_conv)

lemma wrap_nat_add:
  assumes "s < e" shows "wrap_nat s e (wrap_nat s e p + k) = wrap_nat s e (p + k)"
proof (cases "p < e")
  case False
  let ?l = "e - s"
  have l: "0 < ?l" using assms by simp
  have eq: "((p - s) mod ?l + k) mod ?l = (p + k - s) mod ?l"
    using False assms by (simp add: mod_add_left_eq)
  show ?thesis
  proof (cases "(p - s) mod ?l + k < ?l")
    case True
    then show ?thesis using False assms eq by (simp add: wrap_nat_def)
  next
    case False
    then have "\<not> s + (p - s) mod ?l + k < e" by linarith
    then show ?thesis using \<open>\<not> p < e\<close> assms eq by (simp add: wrap_nat_def)
  qed
qed (simp add: wrap_nat_def)

text \<open>
  With a valid global loop the wrapped clock lies before the loop end, and at or after
  the loop start whenever the raw position had reached it.
\<close>

lemma wrap_in_loop:
  assumes "has_valid_loop t"
  shows "wrap_sample_count t pos < tp_loop_end_samples t
    \<and> (tp_loop_start_samples t \<le> pos \<longrightarrow> tp_loop_start_samples t \<le> wrap_sample_count t pos)"
  using assms wrap_nat_range [of "unat (tp_loop_start_samples t)" "unat (tp_loop_end_samples t)" "unat pos"]
  by (simp add: word_order_nat unat_wrap_sample_count) (simp add: has_valid_loop_def word_less_nat_alt)

definition demo_transport :: TransportPosition where
  "demo_transport = (transport_new (Num 48000) (Num 120))
     \<lparr>tp_loop_enabled := True, tp_loop_start_samples := 100, tp_loop_end_samples := 300\<rparr>"

lemma demo_transport_loop: "has_valid_loop demo_transport"
  by (simp add: demo_transport_def has_valid_loop_def)

lemma wrap_in_loop_witness:
  "has_valid_loop demo_transport \<and> wrap_sample_count demo_transport 750 < 300
   \<and> 100 \<le> wrap_sample_count demo_transport 750"
  using wrap_in_loop [OF demo_transport_loop, of 750] by (simp add: demo_transport_def has_valid_loop_def)

text \<open>
  The wrap composes over blocks: advancing a wrapped clock by \<open>k\<close> frames and wrapping
  again gives the position that one wrap of the unwrapped clock gives, as long as the clock
  does not overflow.  Hence the audio callback, which stores the wrapped clock after every
  block, and the GUI, which wraps the raw position, see the same playhead.
\<close>

lemma wrap_block_composition:
  assumes "has_valid_loop t" "unat pos + unat k < 2 ^ 64"
  shows "wrap_sample_count t (wrap_sample_count t pos + k) = wrap_sample_count t (pos + k)"
proof -
  let ?s = "unat (tp_loop_start_samples t)" and ?e = "unat (tp_loop_end_samples t)"
  have se: "?s < ?e" using assms by (simp add: has_valid_loop_def word_less_nat_alt)
  have "wrap_nat ?s ?e (unat pos) \<le> unat pos"
  proof (cases "unat pos < ?e")
    case False
    with se mod_less_eq_dividend [of "unat pos - ?s" "?e - ?s"]
    have "?s + (unat pos - ?s) mod (?e - ?s) \<le> unat pos" by linarith
    then show ?thesis by (simp add: wrap_nat_def)
  qed (simp add: wrap_nat_def)
  with assms have "unat (wrap_sample_count t pos + k) = wrap_nat ?s ?e (unat pos) + unat k"
    by (subst unat_add_small) (simp_all add: unat_wrap_sample_count)
  with assms se show ?thesis
    by (simp add: word_eq_nat unat_wrap_sample_count wrap_nat_add unat_add_small)
qed


lemma wrap_block_composition_witness:
  "has_valid_loop demo_transport \<and> unat (250 :: u64) + unat (512 :: u64) < 2 ^ 64
   \<and> wrap_sample_count demo_transport (wrap_sample_count demo_transport 250 + 512)
       = wrap_sample_count demo_transport 762"
  using wrap_block_composition [OF demo_transport_loop, of 250 512] demo_transport_loop by simp

section \<open>Tick conversion\<close>

lemma bpm_at_least_1:
  "fmax bpm (Num 1) = PosInf \<or> is_finite (fmax bpm (Num 1)) \<and> 1 \<le> val (fmax bpm (Num 1))"
  by (cases bpm) (auto simp: fmax_def)

lemma seconds_per_tick_range:
  "is_finite (seconds_per_tick t) \<and> 0 \<le> val (seconds_per_tick t) \<and> val (seconds_per_tick t) \<le> 1"
proof -
  let ?b = "fmax (tp_bpm t) (Num 1)"
  have d: "is_finite (fdiv F64 (Num 60) ?b) \<and> 0 \<le> val (fdiv F64 (Num 60) ?b)
      \<and> val (fdiv F64 (Num 60) ?b) \<le> of_nat 60"
    using bpm_at_least_1 [of "tp_bpm t"]
  proof
    assume "?b = PosInf"
    then show ?thesis by (simp add: fdiv_def zero_of_def)
  next
    assume "is_finite ?b \<and> 1 \<le> val ?b"
    then show ?thesis using fdiv_bound [of "Num 60" 60 ?b F64] by simp
  qed
  have ppqn: "val (of_u64 F64 DEFAULT_PPQN) = 960" "is_finite (of_u64 F64 DEFAULT_PPQN)"
    using round_q_of_int [of 960 F64] by (simp_all add: of_u64_def DEFAULT_PPQN_def)
  show ?thesis
    using fdiv_bound [of "fdiv F64 (Num 60) ?b" 1 "of_u64 F64 DEFAULT_PPQN" F64] d
    by (simp add: seconds_per_tick_def ppqn)
qed

text \<open>
  Converting ticks to samples is monotone for every sample rate and tempo, valid or
  not: a loop region whose ticks are ordered keeps that order in samples.
\<close>

lemma ticks_to_samples_mono:
  assumes "a \<le> b"
  shows "ticks_to_samples t a \<le> ticks_to_samples t b"
proof (cases "le (tp_sample_rate t) (Num 0) \<or> tp_sample_rate t = NaN")
  case True
  then show ?thesis by (auto simp: ticks_to_samples_def)
next
  case False
  let ?sr = "tp_sample_rate t" and ?spt = "seconds_per_tick t"
  let ?x = "fmul F64 (of_u64 F64 a) ?spt" and ?y = "fmul F64 (of_u64 F64 b) ?spt"
  have fin: "is_finite ?x \<and> 0 \<le> val ?x" "is_finite ?y \<and> 0 \<le> val ?y"
    using fmul_scale [of "of_u64 F64 a" F64 ?spt] fmul_scale [of "of_u64 F64 b" F64 ?spt]
      seconds_per_tick_range [of t]
    by (simp_all add: fp_ok_of_u64 of_u64_bounds)
  have "le ?x ?y"
    using fmul_mono [of "of_u64 F64 a" "of_u64 F64 b" ?spt F64] assms seconds_per_tick_range [of t]
    by (simp add: of_u64_bounds of_u64_mono)
  then have xy: "val ?x \<le> val ?y" using fin by (simp add: le_finite)
  have "fmul F64 ?x ?sr = NaN \<or> le (fmul F64 ?x ?sr) (fmul F64 ?y ?sr)"
  proof (cases "is_finite ?sr")
    case True
    with False fin xy show ?thesis by (intro disjI2 fmul_mono) (auto simp: le_finite)
  next
    case inf: False
    with False have "?sr = PosInf" by (cases ?sr) (auto simp: le_def)
    with fin xy show ?thesis
      by (cases "?x"; cases "?y") (auto simp: fmul_def inf_of_def le_def feq_def)
  qed
  then have "(to_word (fround (fmul F64 ?x ?sr)) :: u64) \<le> to_word (fround (fmul F64 ?y ?sr))"
    by (elim disjE) (simp, blast intro: to_word_mono fround_mono)
  then show ?thesis using False by (simp add: ticks_to_samples_def Let_def)
qed

lemma ticks_to_samples_mono_witness:
  "(1920 :: u64) \<le> 3840 \<and>
   ticks_to_samples (transport_new (Num 44100) (Num 120)) 1920
     \<le> ticks_to_samples (transport_new (Num 44100) (Num 120)) 3840"
  using ticks_to_samples_mono [of 1920 3840 "transport_new (Num 44100) (Num 120)"] by simp

end
