(* ===== verification/EngineClip.thy ===== *)
theory EngineClip
  imports Transport
begin

text \<open>
  One audio clip of the engine: \<open>EngineAudioEvent\<close> and \<open>AudioClipInstance\<close> of
  crates/hikaru_audio_engine/src/lib.rs.  The model has the loop arithmetic on the absolute
  clock, the beat-quantised loop length, the resolution of the frame a voice reads and the
  sum of the events of a pad.
\<close>

section \<open>Events\<close>

datatype VoiceState = Active | Finished

record EngineAudioEvent =
  ee_id :: u64
  ee_samples :: "f32 list"
  ee_channels :: usize
  ee_clip_start :: u64
  ee_gain :: f32
  ee_fade_in :: u64
  ee_fade_out :: u64

definition ee_frames :: "EngineAudioEvent \<Rightarrow> u64" where
  "ee_frames e = vlen (ee_samples e) div max (ee_channels e) 1"

definition ee_end :: "EngineAudioEvent \<Rightarrow> u64" where
  "ee_end e = sat_add (ee_clip_start e) (ee_frames e)"

definition ee_gain_at :: "EngineAudioEvent \<Rightarrow> u64 \<Rightarrow> f32" where
  "ee_gain_at e clip_frame =
     (if clip_frame < ee_clip_start e \<or> ee_end e \<le> clip_frame then Num 0
      else let rel = clip_frame - ee_clip_start e;
               len = ee_frames e;
               g = ee_gain e;
               g = (if 0 < ee_fade_in e \<and> rel < ee_fade_in e
                    then fmul F32 g (fdiv F32 (of_u64 F32 rel) (of_u64 F32 (ee_fade_in e))) else g);
               from_end = sat_sub len rel
           in if 0 < ee_fade_out e \<and> from_end < ee_fade_out e
              then fmul F32 g (fdiv F32 (of_u64 F32 from_end) (of_u64 F32 (ee_fade_out e))) else g)"

text \<open>\<open>slice.get(i).copied().unwrap_or(d)\<close>\<close>

definition get_or :: "f32 \<Rightarrow> f32 list \<Rightarrow> usize \<Rightarrow> f32" where
  "get_or d xs i = (if unat i < length xs then xs ! unat i else d)"

definition ee_read_at :: "EngineAudioEvent \<Rightarrow> u64 \<Rightarrow> f32 \<times> f32" where
  "ee_read_at e clip_frame =
     (if clip_frame < ee_clip_start e \<or> ee_end e \<le> clip_frame then (Num 0, Num 0)
      else let rel = clip_frame - ee_clip_start e;
               ch = max (ee_channels e) 1;
               idx = sat_mul rel ch;
               l = get_or (Num 0) (ee_samples e) idx;
               r = (if 1 < ch then get_or l (ee_samples e) (idx + 1) else l)
           in if \<not> is_finite l \<or> \<not> is_finite r then (Num 0, Num 0)
              else let g = ee_gain_at e clip_frame in (fmul F32 l g, fmul F32 r g))"

section \<open>Clips\<close>

record AudioClipInstance =
  ai_id :: usize
  ai_track_index :: usize
  ai_scene_index :: usize
  ai_samples :: "f32 list"
  ai_start_frame :: u64
  ai_start_absolute :: u64
  ai_duration_frames :: u64
  ai_sample_offset :: usize
  ai_channels :: usize
  ai_is_playing :: bool
  ai_loop_enabled :: bool
  ai_loop_start :: u64
  ai_loop_end :: u64
  ai_is_matrix_clip :: bool
  ai_prev_frame :: usize
  ai_xfade_remaining :: u32
  ai_xfade_len :: u32
  ai_events :: "EngineAudioEvent list"

definition natural_frames :: "AudioClipInstance \<Rightarrow> u64" where
  "natural_frames c =
     (if ai_events c \<noteq> [] then foldr (\<lambda>e m. max (ee_end e) m) (ai_events c) 0
      else vlen (ai_samples c) div max (ai_channels c) 1)"

definition has_valid_clip_loop :: "AudioClipInstance \<Rightarrow> bool" where
  "has_valid_clip_loop c \<longleftrightarrow>
     ai_loop_enabled c \<and> ai_loop_start c < ai_loop_end c \<and> ai_loop_start c < natural_frames c"

definition raw_loop_len :: "AudioClipInstance \<Rightarrow> u64" where
  "raw_loop_len c =
     (let natural = natural_frames c;
          end = max (min (ai_loop_end c) (max natural 1)) (ai_loop_start c + 1)
      in max (sat_sub end (ai_loop_start c)) 1)"

definition quantized_loop_len :: "AudioClipInstance \<Rightarrow> TransportPosition \<Rightarrow> u64" where
  "quantized_loop_len c transport =
     (let raw_len = raw_loop_len c; spb = samples_per_beat transport
      in if \<not> lt (Num 1) spb then raw_len
         else let spb_frames = to_word (fround spb)
              in if spb_frames = 0 \<or> raw_len < spb_frames then raw_len
                 else let beats = raw_len div spb_frames
                      in min (max (beats * spb_frames) 1) raw_len)"

definition playback_length_frames :: "AudioClipInstance \<Rightarrow> u64" where
  "playback_length_frames c =
     (if has_valid_clip_loop c
      then sat_sub (min (ai_loop_end c) (natural_frames c)) (ai_loop_start c)
      else natural_frames c)"

definition emission_len_frames :: "AudioClipInstance \<Rightarrow> u64" where
  "emission_len_frames c =
     (let natural = natural_frames c
      in if 0 < ai_duration_frames c then min (ai_duration_frames c) natural else natural)"

definition voice_frame :: "AudioClipInstance \<Rightarrow> u64 \<Rightarrow> TransportPosition \<Rightarrow> usize option" where
  "voice_frame c global_pos transport =
     (if global_pos < ai_start_frame c then None
      else let natural = natural_frames c
           in if natural = 0 then None
              else let elapsed = global_pos - ai_start_frame c
                   in if has_valid_clip_loop c
                      then let loop_start = min (ai_loop_start c) natural;
                               loop_end = loop_start + quantized_loop_len c transport;
                               loop_len = loop_end - loop_start
                           in if elapsed < loop_end then Some elapsed
                              else if has_valid_loop transport
                              then let since_global = sat_sub global_pos (tp_loop_start_samples transport)
                                   in Some (loop_start + since_global mod loop_len)
                              else Some (loop_start + (elapsed - loop_start) mod loop_len)
                      else if emission_len_frames c \<le> elapsed then None
                      else Some elapsed)"

definition clip_frame_for_elapsed ::
    "AudioClipInstance \<Rightarrow> u64 \<Rightarrow> TransportPosition \<Rightarrow> u64 option" where
  "clip_frame_for_elapsed c elapsed transport =
     (let natural = natural_frames c
      in if natural = 0 then None
         else if has_valid_clip_loop c
         then let loop_start = min (ai_loop_start c) natural;
                  loop_end = loop_start + quantized_loop_len c transport;
                  loop_len = loop_end - loop_start
              in Some (loop_start + elapsed mod loop_len)
         else if emission_len_frames c \<le> elapsed then None
         else Some elapsed)"

definition voice_frame_linear :: "AudioClipInstance \<Rightarrow> u64 \<Rightarrow> TransportPosition \<Rightarrow> usize option" where
  "voice_frame_linear c abs_pos transport =
     (if abs_pos < ai_start_absolute c then None
      else let natural = natural_frames c
           in if natural = 0 then None
              else let elapsed = abs_pos - ai_start_absolute c
                   in if has_valid_clip_loop c
                      then let loop_start = min (ai_loop_start c) natural;
                               loop_end = loop_start + quantized_loop_len c transport;
                               loop_len = loop_end - loop_start
                           in Some (loop_start + elapsed mod loop_len)
                      else if emission_len_frames c \<le> elapsed then None
                      else Some elapsed)"

definition voice_state_linear :: "AudioClipInstance \<Rightarrow> u64 \<Rightarrow> TransportPosition \<Rightarrow> VoiceState" where
  "voice_state_linear c abs_pos transport =
     (if ai_events c \<noteq> []
      then if abs_pos < ai_start_absolute c then Finished
           else let elapsed = abs_pos - ai_start_absolute c; natural = natural_frames c
                in if natural = 0 then Finished
                   else if \<not> has_valid_clip_loop c \<and> emission_len_frames c \<le> elapsed then Finished
                   else let clip_frame =
                              (if has_valid_clip_loop c
                               then let loop_start = min (ai_loop_start c) natural;
                                        loop_end = loop_start + quantized_loop_len c transport;
                                        loop_len = loop_end - loop_start
                                    in loop_start + elapsed mod loop_len
                               else elapsed);
                            audible = list_ex (\<lambda>e. ee_clip_start e \<le> clip_frame \<and> clip_frame < ee_end e)
                              (ai_events c)
                        in if audible then Active
                           else if \<not> has_valid_clip_loop c \<and> emission_len_frames c \<le> elapsed
                             then Finished
                           else Active
      else case voice_frame_linear c abs_pos transport of Some _ \<Rightarrow> Active | None \<Rightarrow> Finished)"

definition voice_state :: "AudioClipInstance \<Rightarrow> u64 \<Rightarrow> TransportPosition \<Rightarrow> VoiceState" where
  "voice_state c global_pos transport =
     (case voice_frame c global_pos transport of Some _ \<Rightarrow> Active | None \<Rightarrow> Finished)"

definition mix_events_at :: "AudioClipInstance \<Rightarrow> u64 \<Rightarrow> f32 \<times> f32" where
  "mix_events_at c clip_frame =
     fold (\<lambda>ev (l, r). let (el, er) = ee_read_at ev clip_frame in (fadd F32 l el, fadd F32 r er))
       (ai_events c) (Num 0, Num 0)"

definition read_sample :: "AudioClipInstance \<Rightarrow> usize \<Rightarrow> f32" where
  "read_sample c current =
     (if \<not> has_valid_clip_loop c \<and> natural_frames c \<le> current then Num 0
      else let ch = max (ai_channels c) 1;
               idx = sat_mul current ch;
               s = get_or (Num 0) (ai_samples c) idx
           in if is_finite s then s else Num 0)"

definition read_sample_r :: "AudioClipInstance \<Rightarrow> usize \<Rightarrow> f32" where
  "read_sample_r c current =
     (if \<not> has_valid_clip_loop c \<and> natural_frames c \<le> current then Num 0
      else let ch = max (ai_channels c) 1;
               idx = sat_mul current ch
           in if 1 < ch
              then let s = get_or (Num 0) (ai_samples c) (idx + 1)
                   in if is_finite s then s else Num 0
              else read_sample c current)"

section \<open>Loop lengths\<close>

lemma raw_loop_len_bounds:
  assumes "ai_loop_start c < natural_frames c"
  shows "1 \<le> unat (raw_loop_len c)
    \<and> unat (ai_loop_start c) + unat (raw_loop_len c) \<le> unat (natural_frames c)"
proof -
  have lt: "unat (ai_loop_start c) < unat (natural_frames c)" using assms by (simp add: word_less_nat_alt)
  have s1: "unat (ai_loop_start c + 1) = unat (ai_loop_start c) + 1"
    using lt unat64_lt [of "natural_frames c"] unat_add_small [of "ai_loop_start c" 1] by simp
  show ?thesis
    using lt by (simp add: raw_loop_len_def Let_def unat_max unat_min unat_sat_sub s1)
qed

lemma raw_loop_len_pos: "1 \<le> unat (raw_loop_len c)"
  by (simp add: raw_loop_len_def Let_def unat_max)

text \<open>
  C5. The beat-quantised loop length is never 0 (so the loop arithmetic never divides by 0),
  never longer than the raw region, and a whole number of beats whenever the region has at
  least one beat and the tempo gives a usable grid; shorter regions are left alone.
\<close>

theorem quantized_loop_len_spec:
  fixes c :: AudioClipInstance and t :: TransportPosition
  defines "spb \<equiv> to_word (fround (samples_per_beat t)) :: u64"
  shows "1 \<le> quantized_loop_len c t \<and> quantized_loop_len c t \<le> raw_loop_len c
    \<and> (if lt (Num 1) (samples_per_beat t) \<and> spb \<noteq> 0 \<and> spb \<le> raw_loop_len c
       then unat spb dvd unat (quantized_loop_len c t)
         \<and> unat (raw_loop_len c) < unat (quantized_loop_len c t) + unat spb
       else quantized_loop_len c t = raw_loop_len c)"
proof (cases "lt (Num 1) (samples_per_beat t) \<and> spb \<noteq> 0 \<and> spb \<le> raw_loop_len c")
  case True
  define b where "b = raw_loop_len c div spb"
  have sp: "0 < unat spb" "unat spb \<le> unat (raw_loop_len c)"
    using True by (auto simp: word_le_nat_alt unat_gt_0)
  have nb: "unat b = unat (raw_loop_len c) div unat spb" by (simp add: b_def unat_div_distrib)
  have le: "unat b * unat spb \<le> unat (raw_loop_len c)" by (simp add: nb)
  have bs: "unat (b * spb) = unat b * unat spb"
    using le unat64_lt [of "raw_loop_len c"] by (intro unat_mul_small) simp
  have b1: "1 \<le> unat b" using sp by (simp add: nb Suc_le_eq div_greater_zero_iff)
  then have ge: "1 \<le> b * spb" using sp bs by (simp add: word_le_nat_alt Suc_le_eq)
  have leq: "b * spb \<le> raw_loop_len c" using le bs by (simp add: word_le_nat_alt)
  have nl: "\<not> raw_loop_len c < spb" using True by (simp add: not_less)
  have q: "quantized_loop_len c t = b * spb"
    using True nl ge leq
    by (simp add: quantized_loop_len_def Let_def spb_def b_def max_absorb1 min_absorb1)
  have "unat (raw_loop_len c) < unat b * unat spb + unat spb"
    using sp(1) nb dividend_less_div_times [of "unat spb" "unat (raw_loop_len c)"] by simp
  then show ?thesis using True q ge leq bs by simp
next
  case False
  then have "quantized_loop_len c t = raw_loop_len c"
    by (auto simp: quantized_loop_len_def Let_def spb_def not_le)
  moreover have "1 \<le> raw_loop_len c" using raw_loop_len_pos [of c] by (simp add: word_le_nat_alt)
  ultimately show ?thesis unfolding if_not_P [OF False] by simp
qed


lemma quantized_loop_len_pos: "1 \<le> quantized_loop_len c t"
  and quantized_loop_len_le: "quantized_loop_len c t \<le> raw_loop_len c"
proof -
  have r: "1 \<le> raw_loop_len c" using raw_loop_len_pos [of c] by (simp add: word_le_nat_alt)
  then show "1 \<le> quantized_loop_len c t" "quantized_loop_len c t \<le> raw_loop_len c"
    by (auto simp: quantized_loop_len_def Let_def)
qed

section \<open>The frame a voice reads\<close>

lemma looped_range:
  assumes "has_valid_clip_loop c"
  shows "unat (ai_loop_start c) + unat (quantized_loop_len c t) \<le> unat (natural_frames c)"
    and "unat (ai_loop_start c + quantized_loop_len c t)
      = unat (ai_loop_start c) + unat (quantized_loop_len c t)"
proof -
  have lt: "ai_loop_start c < natural_frames c" using assms by (simp add: has_valid_clip_loop_def)
  have "unat (quantized_loop_len c t) \<le> unat (raw_loop_len c)"
    using quantized_loop_len_le [of c t] by (simp add: word_le_nat_alt)
  with raw_loop_len_bounds [OF lt]
  show le: "unat (ai_loop_start c) + unat (quantized_loop_len c t) \<le> unat (natural_frames c)"
    by linarith
  then show "unat (ai_loop_start c + quantized_loop_len c t)
      = unat (ai_loop_start c) + unat (quantized_loop_len c t)"
    using unat64_lt [of "natural_frames c"] by (intro unat_add_small) simp
qed

lemma looped_start:
  assumes "has_valid_clip_loop c"
  shows "min (ai_loop_start c) (natural_frames c) = ai_loop_start c" "natural_frames c \<noteq> 0"
  using assms by (auto simp: has_valid_clip_loop_def min_def not_le)

lemma looped_mod_range:
  assumes "has_valid_clip_loop c"
  shows "unat (ai_loop_start c + x mod quantized_loop_len c t)
      = unat (ai_loop_start c) + unat x mod unat (quantized_loop_len c t)"
    and "ai_loop_start c + x mod quantized_loop_len c t < ai_loop_start c + quantized_loop_len c t"
    and "ai_loop_start c + x mod quantized_loop_len c t < natural_frames c"
proof -
  note r = looped_range [OF assms, of t]
  have q: "1 \<le> unat (quantized_loop_len c t)"
    using quantized_loop_len_pos [of c t] by (simp add: word_le_nat_alt)
  then have m: "unat x mod unat (quantized_loop_len c t) < unat (quantized_loop_len c t)" by simp
  show n: "unat (ai_loop_start c + x mod quantized_loop_len c t)
      = unat (ai_loop_start c) + unat x mod unat (quantized_loop_len c t)"
    unfolding unat_mod_distrib [symmetric]
    using m r(1) unat64_lt [of "natural_frames c"]
    by (intro unat_add_small) (simp add: unat_mod_distrib)
  show "ai_loop_start c + x mod quantized_loop_len c t < ai_loop_start c + quantized_loop_len c t"
    unfolding word_less_nat_alt n r(2) using m by linarith
  show "ai_loop_start c + x mod quantized_loop_len c t < natural_frames c"
    unfolding word_less_nat_alt n using m r(1) by linarith
qed

text \<open>
  Whatever the clocks, the tempo, the global loop and the loop points are, every function
  that resolves a frame stays inside the clip: the frame is below the natural length.
\<close>

lemma resolved_frames_in_clip:
  "(voice_frame c p t = Some f \<longrightarrow> f < natural_frames c)
   \<and> (voice_frame_linear c p t = Some f \<longrightarrow> f < natural_frames c)
   \<and> (clip_frame_for_elapsed c p t = Some f \<longrightarrow> f < natural_frames c)"
proof (cases "has_valid_clip_loop c")
  case True
  note r = looped_range [OF True, of t] looped_start [OF True] and m = looped_mod_range [OF True, of _ t]
  have le: "ai_loop_start c + quantized_loop_len c t \<le> natural_frames c"
    unfolding word_le_nat_alt r(2) by (rule r(1))
  show ?thesis
    using True r(4) m(3) le
    by (auto simp: voice_frame_def voice_frame_linear_def clip_frame_for_elapsed_def Let_def r(3)
        split: if_splits)
next
  case False
  have "emission_len_frames c \<le> natural_frames c" by (simp add: emission_len_frames_def Let_def)
  with False show ?thesis
    by (auto simp: voice_frame_def voice_frame_linear_def clip_frame_for_elapsed_def Let_def not_le
        split: if_splits)
qed

lemma resolved_frames_in_clip_witness:
  "\<exists>c f. clip_frame_for_elapsed c 5 demo_transport = Some f \<and> f < natural_frames c"
proof -
  define c where "c = \<lparr> ai_id = 1, ai_track_index = 0, ai_scene_index = 0, ai_samples = replicate 8 (Num 1),
      ai_start_frame = 0, ai_start_absolute = 0, ai_duration_frames = 8, ai_sample_offset = 0, ai_channels = 1,
      ai_is_playing = True, ai_loop_enabled = False, ai_loop_start = 0, ai_loop_end = 0,
      ai_is_matrix_clip = False, ai_prev_frame = 0, ai_xfade_remaining = 0, ai_xfade_len = 0, ai_events = [] \<rparr>"
  have "clip_frame_for_elapsed c 5 demo_transport = Some 5"
    by (simp add: c_def clip_frame_for_elapsed_def Let_def natural_frames_def vlen_def
        has_valid_clip_loop_def emission_len_frames_def)
  moreover from resolved_frames_in_clip [of c 5 demo_transport 5] this have "5 < natural_frames c" by blast
  ultimately show ?thesis by blast
qed

text \<open>
  \<open>voice_frame_linear\<close>, which the playhead reads, is \<open>clip_frame_for_elapsed\<close>, which the
  multi-event mix reads, at the frames elapsed since the start; and \<open>voice_state_linear\<close> is
  active exactly when that frame exists.
\<close>

lemma linear_state_iff_frame:
  "voice_frame_linear c p t
      = (if p < ai_start_absolute c then None else clip_frame_for_elapsed c (p - ai_start_absolute c) t)
   \<and> (voice_state_linear c p t = Active \<longleftrightarrow> voice_frame_linear c p t \<noteq> None)"
  by (auto simp: voice_frame_linear_def clip_frame_for_elapsed_def voice_state_linear_def Let_def)

end
