(* ===== verification/DmsVoices.thy ===== *)
theory DmsVoices
  imports Ieee
begin

text \<open>
  The polyphonic drum voices of the engine: \<open>DmsVoice\<close> and \<open>DmsVoicePool\<close> of
  crates/hikaru_audio_engine/src/lib.rs.  A voice keeps a raw pointer to the PCM of its pad
  (\<open>*const [f32]\<close>), so the model has a heap of sample buffers: a voice holds an address and
  the dereference is partial, undefined once the buffer has been freed.
\<close>

section \<open>Sample memory\<close>

datatype raw_slice = EmptySlice | Slice nat

type_synonym heap = "nat \<rightharpoonup> f32 list"

fun deref :: "heap \<Rightarrow> raw_slice \<Rightarrow> f32 list option" where
  "deref h EmptySlice = Some []"
| "deref h (Slice a) = h a"

section \<open>Voices\<close>

definition MAX_DMS_VOICES :: nat where "MAX_DMS_VOICES = 64"

datatype DmsEnvStage = Attack | Decay | Sustain | Release | Free

record DmsVoice =
  dv_active :: bool
  dv_samples :: raw_slice
  dv_channels :: usize
  dv_sample_len :: usize
  dv_play_pos :: f64
  dv_play_speed :: f64
  dv_gain :: f32
  dv_pan :: f32
  dv_velocity :: f32
  dv_pad_idx :: usize
  dv_track_idx :: usize
  dv_env_stage :: DmsEnvStage
  dv_env_level :: f32
  dv_attack_rate :: f32
  dv_decay_rate :: f32
  dv_sustain_level :: f32
  dv_release_rate :: f32
  dv_age :: u64

record DmsAdsrParams =
  ad_attack_rate :: f32
  ad_decay_rate :: f32
  ad_sustain_level :: f32
  ad_release_rate :: f32

definition dms_voice_new :: DmsVoice where
  "dms_voice_new = \<lparr>
     dv_active = False, dv_samples = EmptySlice, dv_channels = 0, dv_sample_len = 0,
     dv_play_pos = Num 0, dv_play_speed = Num 1, dv_gain = Num 1, dv_pan = Num 0,
     dv_velocity = Num 1, dv_pad_idx = 0, dv_track_idx = 0, dv_env_stage = Free,
     dv_env_level = Num 0, dv_attack_rate = Num 0, dv_decay_rate = Num 0,
     dv_sustain_level = Num 1, dv_release_rate = Num 0, dv_age = 0 \<rparr>"

text \<open>\<open>advance_envelope\<close>: the level of this frame and whether the stage is over.\<close>

definition advance_envelope :: "DmsVoice \<Rightarrow> f32 \<Rightarrow> (f32 \<times> bool) \<times> DmsVoice" where
  "advance_envelope v sr =
     (case dv_env_stage v of
        Attack \<Rightarrow>
          if le (dv_attack_rate v) (Num 0) then ((Num 1, True), v)
          else let v = v\<lparr>dv_env_level := fadd F32 (dv_env_level v) (fdiv F32 (dv_attack_rate v) sr)\<rparr>
               in if le (Num 1) (dv_env_level v) then ((Num 1, True), v)
                  else ((dv_env_level v, False), v)
      | Decay \<Rightarrow>
          if le (dv_decay_rate v) (Num 0) then ((dv_sustain_level v, True), v)
          else let v = v\<lparr>dv_env_level := fsub F32 (dv_env_level v) (fdiv F32 (dv_decay_rate v) sr)\<rparr>
               in if le (dv_env_level v) (dv_sustain_level v) then ((dv_sustain_level v, True), v)
                  else ((dv_env_level v, False), v)
      | Sustain \<Rightarrow> ((dv_sustain_level v, False), v)
      | Release \<Rightarrow>
          if le (dv_release_rate v) (Num 0) then ((Num 0, True), v)
          else let v = v\<lparr>dv_env_level := fsub F32 (dv_env_level v) (fdiv F32 (dv_release_rate v) sr)\<rparr>
               in if le (dv_env_level v) (Num 0) then ((Num 0, True), v)
                  else ((fmax (dv_env_level v) (Num 0), False), v)
      | Free \<Rightarrow> ((Num 0, True), v))"

definition free_voice :: "DmsVoice \<Rightarrow> DmsVoice" where
  "free_voice v = v\<lparr>dv_active := False, dv_env_stage := Free\<rparr>"

text \<open>The stage change of \<open>process_frame\<close>; \<open>None\<close> is its early return at the end of a release.\<close>

definition next_stage :: "DmsVoice \<Rightarrow> DmsVoice option" where
  "next_stage v =
     (case dv_env_stage v of
        Attack \<Rightarrow> Some (v\<lparr>dv_env_stage := Decay, dv_env_level := Num 1\<rparr>)
      | Decay \<Rightarrow> Some (v\<lparr>dv_env_stage := Sustain, dv_env_level := dv_sustain_level v\<rparr>)
      | Release \<Rightarrow> None
      | _ \<Rightarrow> Some v)"

text \<open>
  \<open>process_frame\<close>: \<open>None\<close> is the undefined behaviour of reading through a pointer to a freed
  buffer.
\<close>

definition process_frame :: "heap \<Rightarrow> f32 \<Rightarrow> DmsVoice \<Rightarrow> ((f32 \<times> f32) \<times> DmsVoice) option" where
  "process_frame h sr v =
     (if \<not> dv_active v \<or> dv_env_stage v = Free then Some ((Num 0, Num 0), v)
      else let ((env_out, stage_done), v) = advance_envelope v sr
           in case (if stage_done then next_stage v else Some v) of
                None \<Rightarrow> Some ((Num 0, Num 0), free_voice v)
              | Some v \<Rightarrow>
                  let idx = to_word (dv_play_pos v) :: usize
                  in if dv_sample_len v \<le> idx then Some ((Num 0, Num 0), free_voice v)
                     else let ch = max (dv_channels v) 1; raw_idx = idx * ch
                          in case deref h (dv_samples v) of
                               None \<Rightarrow> None
                             | Some buf \<Rightarrow>
                                 let l = (if raw_idx < vlen buf then buf ! unat raw_idx else Num 0);
                                     r = (if 1 < ch \<and> raw_idx + 1 < vlen buf
                                          then buf ! unat (raw_idx + 1) else l);
                                     v = v\<lparr>dv_play_pos := fadd F64 (dv_play_pos v) (dv_play_speed v)\<rparr>
                                 in if le (of_u64 F64 (dv_sample_len v)) (dv_play_pos v)
                                    then Some ((Num 0, Num 0), free_voice v)
                                    else let amp = fmul F32 (fmul F32 env_out (dv_gain v)) (dv_velocity v);
                                             pan_l = (if le (dv_pan v) (Num 0) then Num 1
                                                      else fsub F32 (Num 1) (dv_pan v));
                                             pan_r = (if le (Num 0) (dv_pan v) then Num 1
                                                      else fadd F32 (Num 1) (dv_pan v))
                                         in Some ((fmul F32 (fmul F32 l amp) pan_l,
                                                   fmul F32 (fmul F32 r amp) pan_r), v))"

section \<open>The pool\<close>

record DmsVoicePool =
  vp_voices :: "DmsVoice list"
  vp_global_age :: u64

definition pool_new :: DmsVoicePool where
  "pool_new = \<lparr> vp_voices = replicate MAX_DMS_VOICES dms_voice_new, vp_global_age = 0 \<rparr>"

definition start_voice ::
    "raw_slice \<Rightarrow> usize \<Rightarrow> usize \<Rightarrow> usize \<Rightarrow> f32 \<Rightarrow> f32 \<Rightarrow> f32 \<Rightarrow> f64 \<Rightarrow> DmsAdsrParams \<Rightarrow> usize
      \<Rightarrow> u64 \<Rightarrow> DmsVoice" where
  "start_voice samples len channels pad_idx gain pan velocity play_speed adsr track_idx age = \<lparr>
     dv_active = True, dv_samples = samples, dv_channels = channels,
     dv_sample_len = len div max channels 1, dv_play_pos = Num 0, dv_play_speed = play_speed,
     dv_gain = gain, dv_pan = pan, dv_velocity = velocity, dv_pad_idx = pad_idx,
     dv_track_idx = min track_idx 15, dv_env_stage = Attack, dv_env_level = Num 0,
     dv_attack_rate = ad_attack_rate adsr, dv_decay_rate = ad_decay_rate adsr,
     dv_sustain_level = ad_sustain_level adsr, dv_release_rate = ad_release_rate adsr,
     dv_age = age \<rparr>"

text \<open>\<open>samples\<close> is the slice (its address and its length); the index of the voice is returned.\<close>

definition pool_trigger ::
    "DmsVoicePool \<Rightarrow> raw_slice \<Rightarrow> usize \<Rightarrow> usize \<Rightarrow> usize \<Rightarrow> f32 \<Rightarrow> f32 \<Rightarrow> f32 \<Rightarrow> f64
      \<Rightarrow> DmsAdsrParams \<Rightarrow> usize \<Rightarrow> nat option \<times> DmsVoicePool" where
  "pool_trigger p samples len channels pad_idx gain pan velocity play_speed adsr track_idx =
     (let p = p\<lparr>vp_global_age := vp_global_age p + 1\<rparr>;
          vs = vp_voices p
      in case (case find_idx (\<lambda>v. \<not> dv_active v) vs of
                 Some i \<Rightarrow> Some i
               | None \<Rightarrow> min_by (\<lambda>i. dv_age (vs ! i)) [0..<length vs]) of
           None \<Rightarrow> (None, p)
         | Some idx \<Rightarrow>
             (Some idx, p\<lparr>vp_voices := vs[idx := start_voice samples len channels pad_idx gain pan
                velocity play_speed adsr track_idx (vp_global_age p)]\<rparr>))"

definition release_pad :: "DmsVoicePool \<Rightarrow> usize \<Rightarrow> DmsVoicePool" where
  "release_pad p pad_idx = p\<lparr>vp_voices := map (\<lambda>v.
     if dv_active v \<and> dv_pad_idx v = pad_idx \<and> dv_env_stage v \<noteq> Release
     then v\<lparr>dv_env_stage := Release\<rparr> else v) (vp_voices p)\<rparr>"

definition kill_pad :: "DmsVoicePool \<Rightarrow> usize \<Rightarrow> DmsVoicePool" where
  "kill_pad p pad_idx = p\<lparr>vp_voices := map (\<lambda>v.
     if dv_active v \<and> dv_pad_idx v = pad_idx then free_voice v else v) (vp_voices p)\<rparr>"

text \<open>One voice over one block: run it for every frame, mix unless its track is silent.\<close>

fun voice_block ::
    "heap \<Rightarrow> f32 \<Rightarrow> f32 \<Rightarrow> f32 \<Rightarrow> DmsVoice \<Rightarrow> f32 list \<Rightarrow> f32 list
      \<Rightarrow> (DmsVoice \<times> f32 list \<times> f32 list) option" where
  "voice_block h sr gl gr v (lx # lxs) (rx # rxs) =
     (case process_frame h sr v of
        None \<Rightarrow> None
      | Some ((l, r), v) \<Rightarrow>
          (case voice_block h sr gl gr v lxs rxs of
             None \<Rightarrow> None
           | Some (v, lxs', rxs') \<Rightarrow>
               if feq gl (Num 0) \<and> feq gr (Num 0) then Some (v, lx # lxs', rx # rxs')
               else Some (v, fadd F32 lx (fmul F32 l gl) # lxs', fadd F32 rx (fmul F32 r gr) # rxs')))"
| "voice_block h sr gl gr v lxs rxs = Some (v, lxs, rxs)"

fun voices_block ::
    "heap \<Rightarrow> f32 \<Rightarrow> f32 list \<Rightarrow> f32 list \<Rightarrow> DmsVoice list \<Rightarrow> f32 list \<Rightarrow> f32 list
      \<Rightarrow> (DmsVoice list \<times> f32 list \<times> f32 list) option" where
  "voices_block h sr gains_l gains_r [] lx rx = Some ([], lx, rx)"
| "voices_block h sr gains_l gains_r (v # vs) lx rx =
     (if \<not> dv_active v
      then map_option (\<lambda>(vs, lx, rx). (v # vs, lx, rx)) (voices_block h sr gains_l gains_r vs lx rx)
      else let ti = unat (min (dv_track_idx v) 15)
           in case voice_block h sr (gains_l ! ti) (gains_r ! ti) v lx rx of
                None \<Rightarrow> None
              | Some (v, lx, rx) \<Rightarrow>
                  map_option (\<lambda>(vs, lx, rx). (v # vs, lx, rx))
                    (voices_block h sr gains_l gains_r vs lx rx))"

definition process_all_with_gains ::
    "heap \<Rightarrow> DmsVoicePool \<Rightarrow> f32 list \<Rightarrow> f32 list \<Rightarrow> f32 list \<Rightarrow> f32 list \<Rightarrow> f32
      \<Rightarrow> (DmsVoicePool \<times> f32 list \<times> f32 list) option" where
  "process_all_with_gains h p lx rx gains_l gains_r sr =
     map_option (\<lambda>(vs, lx, rx). (p\<lparr>vp_voices := vs\<rparr>, lx, rx))
       (voices_block h sr gains_l gains_r (vp_voices p) lx rx)"

definition process_all ::
    "heap \<Rightarrow> DmsVoicePool \<Rightarrow> f32 list \<Rightarrow> f32 list \<Rightarrow> f32
      \<Rightarrow> (DmsVoicePool \<times> f32 list \<times> f32 list) option" where
  "process_all h p lx rx sr =
     process_all_with_gains h p lx rx (replicate 16 (Num 1)) (replicate 16 (Num 1)) sr"

section \<open>Pad keys\<close>

definition DMS_PADS_PER_TRACK :: usize where "DMS_PADS_PER_TRACK = 64"

definition dms_pad_key :: "usize \<Rightarrow> usize \<Rightarrow> usize" where
  "dms_pad_key track_idx pad_idx =
     min track_idx 15 * DMS_PADS_PER_TRACK + min pad_idx (DMS_PADS_PER_TRACK - 1)"

lemma unat_dms_pad_key:
  "unat (dms_pad_key t p) = min (unat t) 15 * 64 + min (unat p) 63"
proof -
  have "unat (min t 15 * 64 :: usize) = min (unat t) 15 * 64"
    using unat_mul_small [of "min t 15 :: usize" 64] by (simp add: unat_min)
  then have "unat (min t 15 * 64 + min p 63 :: usize) = min (unat t) 15 * 64 + min (unat p) 63"
    using unat_add_small [of "min t 15 * 64 :: usize" "min p 63"] by (simp add: unat_min)
  then show ?thesis by (simp add: dms_pad_key_def DMS_PADS_PER_TRACK_def)
qed

lemma bank_slot_eq: "b < 64 \<Longrightarrow> b' < 64 \<Longrightarrow> a * 64 + b = a' * 64 + b' \<longleftrightarrow> a = a' \<and> b = b'"
  for a b a' b' :: nat
proof
  assume less: "b < 64" "b' < 64" and eq: "a * 64 + b = a' * 64 + b'"
  have "(a * 64 + b) div 64 = a" "(a' * 64 + b') div 64 = a'" using less by simp_all
  with eq show "a = a' \<and> b = b'" by simp
qed simp

text \<open>
  The pad keys give every track its own bank of 64 pads: keys of two different pads of
  the sixteen tracks never collide, and every key is below 1024, whatever the arguments.
\<close>

lemma dms_pad_key_banks:
  "unat (dms_pad_key t p) < 1024
   \<and> (dms_pad_key t p = dms_pad_key t' p' \<longleftrightarrow>
       min (unat t) 15 = min (unat t') 15 \<and> min (unat p) 63 = min (unat p') 63)"
proof -
  have "min (unat t) 15 * 64 + min (unat p) 63 < 1024"
    using min.cobounded2 [of "unat t" 15] min.cobounded2 [of "unat p" 63] by linarith
  then show ?thesis
    unfolding word_eq_nat [of "dms_pad_key t p"] unat_dms_pad_key
    by (subst bank_slot_eq) simp_all
qed

section \<open>Voice allocation\<close>

text \<open>
  Voice stealing: a note always gets a voice; it is the first free one when there is a
  free one and otherwise the one triggered the longest ago; the new voice starts at frame 0
  of its attack, and no other voice of the pool changes.
\<close>

lemma pool_trigger_spec:
  assumes "vp_voices p \<noteq> []"
  shows "\<exists>i < length (vp_voices p).
    pool_trigger p samples len ch pad gain pan vel speed adsr track
      = (Some i, \<lparr> vp_voices = (vp_voices p)[i := start_voice samples len ch pad gain pan vel speed
                    adsr track (vp_global_age p + 1)], vp_global_age = vp_global_age p + 1 \<rparr>)
    \<and> (if \<exists>v \<in> set (vp_voices p). \<not> dv_active v
       then \<not> dv_active (vp_voices p ! i) \<and> (\<forall>j < i. dv_active (vp_voices p ! j))
       else \<forall>j < length (vp_voices p). dv_age (vp_voices p ! i) \<le> dv_age (vp_voices p ! j))"
proof (cases "find_idx (\<lambda>v. \<not> dv_active v) (vp_voices p)")
  case (Some i)
  from find_idx_Some [OF this] have i: "i < length (vp_voices p)" "\<not> dv_active (vp_voices p ! i)"
    "\<forall>j < i. dv_active (vp_voices p ! j)" by auto
  then have "\<exists>v \<in> set (vp_voices p). \<not> dv_active v" using nth_mem by blast
  with i Some show ?thesis by (intro exI [of _ i]) (simp add: pool_trigger_def)
next
  case None
  then have all: "\<forall>v \<in> set (vp_voices p). dv_active v" by simp
  have "min_by (\<lambda>i. dv_age (vp_voices p ! i)) [0..<length (vp_voices p)] \<noteq> None"
    using assms by simp
  then obtain i where m: "min_by (\<lambda>i. dv_age (vp_voices p ! i)) [0..<length (vp_voices p)] = Some i"
    by blast
  from min_by_Some [OF m] have "i < length (vp_voices p)"
    "\<forall>j < length (vp_voices p). dv_age (vp_voices p ! i) \<le> dv_age (vp_voices p ! j)" by auto
  with None m all show ?thesis
    by (intro exI [of _ i]) (simp add: pool_trigger_def del: find_idx_None)
qed

lemma pool_trigger_spec_witness:
  "vp_voices pool_new \<noteq> [] \<and>
   (\<exists>i < 64. fst (pool_trigger pool_new EmptySlice 0 1 0 (Num 1) (Num 0) (Num 1) (Num 1)
      \<lparr> ad_attack_rate = Num 0, ad_decay_rate = Num 0, ad_sustain_level = Num 1, ad_release_rate = Num 0 \<rparr> 0)
      = Some i)"
proof -
  have ne: "vp_voices pool_new \<noteq> []" "length (vp_voices pool_new) = 64"
    by (simp_all add: pool_new_def MAX_DMS_VOICES_def)
  with pool_trigger_spec [OF ne(1)] show ?thesis by (metis fst_conv)
qed

section \<open>Memory safety of the voices\<close>

definition voice_ok :: "heap \<Rightarrow> DmsVoice \<Rightarrow> bool" where
  "voice_ok h v \<longleftrightarrow> (dv_active v \<longrightarrow> deref h (dv_samples v) \<noteq> None)"

definition pool_ok :: "heap \<Rightarrow> DmsVoicePool \<Rightarrow> bool" where
  "pool_ok h p \<longleftrightarrow> (\<forall>v \<in> set (vp_voices p). voice_ok h v)"

lemma advance_envelope_fields [simp]:
  "dv_active (snd (advance_envelope v sr)) = dv_active v"
  "dv_samples (snd (advance_envelope v sr)) = dv_samples v"
  by (auto simp: advance_envelope_def Let_def split: DmsEnvStage.splits)

lemma next_stage_fields:
  "next_stage v = Some v' \<Longrightarrow> dv_active v' = dv_active v \<and> dv_samples v' = dv_samples v"
  by (auto simp: next_stage_def split: DmsEnvStage.splits)

lemma free_voice_inactive [simp]: "\<not> dv_active (free_voice v)"
  by (simp add: free_voice_def)

lemma voice_ok_free [simp]: "voice_ok h (free_voice v)"
  by (simp add: voice_ok_def)

lemma process_frame_ok:
  assumes "voice_ok h v"
  shows "\<exists>s v'. process_frame h sr v = Some (s, v') \<and> voice_ok h v'"
proof (cases "\<not> dv_active v \<or> dv_env_stage v = Free")
  case True
  with assms show ?thesis by (simp add: process_frame_def)
next
  case False
  obtain o1 d v1 where a: "advance_envelope v sr = ((o1, d), v1)" by (metis surj_pair)
  have v1: "dv_active v1 = dv_active v" "dv_samples v1 = dv_samples v"
    using advance_envelope_fields [of v sr] a by simp_all
  show ?thesis
  proof (cases "if d then next_stage v1 else Some v1")
    case None
    with a False show ?thesis by (simp add: process_frame_def)
  next
    case (Some v2)
    then have v2: "dv_active v2 = dv_active v" "dv_samples v2 = dv_samples v"
      using v1 next_stage_fields [of v1 v2] by (auto split: if_splits)
    with assms False obtain buf where "deref h (dv_samples v2) = Some buf"
      by (auto simp: voice_ok_def)
    with a Some False v2 assms show ?thesis
      by (auto simp: process_frame_def Let_def voice_ok_def)
  qed
qed

lemma voice_block_ok:
  "voice_ok h v \<Longrightarrow> \<exists>v' l r. voice_block h sr gl gr v lx rx = Some (v', l, r) \<and> voice_ok h v'
     \<and> length l = length lx \<and> length r = length rx"
proof (induction h sr gl gr v lx rx rule: voice_block.induct)
  case (1 h sr gl gr v ol lxs or1 rxs)
  obtain l r v1 where p: "process_frame h sr v = Some ((l, r), v1)" "voice_ok h v1"
    using process_frame_ok [OF 1(2), of sr] by auto
  with 1(1) [OF p(1), of "(l, r)" v1 l r] show ?case by auto
qed auto

lemma voices_block_ok:
  "\<forall>v \<in> set vs. voice_ok h v \<Longrightarrow>
   \<exists>vs' l r. voices_block h sr gl gr vs lx rx = Some (vs', l, r) \<and> (\<forall>v \<in> set vs'. voice_ok h v)
     \<and> length vs' = length vs \<and> length l = length lx \<and> length r = length rx"
proof (induction vs arbitrary: lx rx)
  case (Cons v vs)
  show ?case
  proof (cases "dv_active v")
    case True
    let ?t = "unat (min (dv_track_idx v) 15)"
    obtain v' l r where b: "voice_block h sr (gl ! ?t) (gr ! ?t) v lx rx = Some (v', l, r)" "voice_ok h v'"
      "length l = length lx" "length r = length rx"
      using voice_block_ok [of h v sr "gl ! ?t" "gr ! ?t" lx rx] Cons.prems by auto
    with True Cons.IH [of l r] Cons.prems show ?thesis by (auto simp: Let_def)
  next
    case False
    with Cons.IH [of lx rx] Cons.prems show ?thesis by auto
  qed
qed simp

lemma pool_safe_block:
  assumes "pool_ok h p"
  shows "\<exists>p' l r. process_all_with_gains h p lx rx gl gr sr = Some (p', l, r) \<and> pool_ok h p'
    \<and> length l = length lx \<and> length r = length rx"
proof -
  obtain vs' l r where b: "voices_block h sr gl gr (vp_voices p) lx rx = Some (vs', l, r)"
    "\<forall>v \<in> set vs'. voice_ok h v" "length l = length lx" "length r = length rx"
    using voices_block_ok [of "vp_voices p" h sr gl gr lx rx] assms by (auto simp: pool_ok_def)
  then show ?thesis by (auto simp: process_all_with_gains_def pool_ok_def)
qed

text \<open>
  C9. Memory safety of the drum pool: as long as the buffer of every sounding voice is still
  allocated, a block never reads freed memory, whatever the note parameters, and the same
  holds afterwards; triggering a note on an allocated buffer, releasing and killing pads keep
  that invariant.
\<close>

theorem pool_memory_safe:
  assumes "pool_ok h p"
  shows "(\<exists>p' l r. process_all_with_gains h p lx rx gl gr sr = Some (p', l, r) \<and> pool_ok h p'
        \<and> length l = length lx \<and> length r = length rx)
    \<and> pool_ok h (release_pad p pad) \<and> pool_ok h (kill_pad p pad)
    \<and> (deref h samples \<noteq> None \<longrightarrow>
        pool_ok h (snd (pool_trigger p samples len ch pad gain pan vel speed adsr track)))"
proof -
  note pool_safe_block [OF assms, of lx rx gl gr sr]
  moreover have "pool_ok h (release_pad p pad)" "pool_ok h (kill_pad p pad)"
    using assms by (auto simp: pool_ok_def release_pad_def kill_pad_def voice_ok_def)
  moreover have "pool_ok h (snd (pool_trigger p samples len ch pad gain pan vel speed adsr track))"
    if "deref h samples \<noteq> None"
    using assms that
    by (auto simp: pool_ok_def pool_trigger_def Let_def start_voice_def voice_ok_def
        split: option.splits dest!: subsetD [OF set_update_subset_insert])
  ultimately show ?thesis by blast
qed

text \<open>A pool in which a pad has just been hit: it reads its buffer, which has to be there.\<close>

definition demo_hit :: DmsVoicePool where
  "demo_hit = snd (pool_trigger pool_new (Slice 0) 4 1 3 (Num 1) (Num 0) (Num 1) (Num 1)
     \<lparr> ad_attack_rate = Num 0, ad_decay_rate = Num 0, ad_sustain_level = Num 1, ad_release_rate = Num 0 \<rparr> 0)"

lemma demo_hit_voices: "vp_voices demo_hit = start_voice (Slice 0) 4 1 3 (Num 1) (Num 0) (Num 1) (Num 1)
     \<lparr> ad_attack_rate = Num 0, ad_decay_rate = Num 0, ad_sustain_level = Num 1, ad_release_rate = Num 0 \<rparr> 0 1
     # replicate 63 dms_voice_new"
proof -
  have v: "vp_voices pool_new = dms_voice_new # replicate 63 dms_voice_new" "vp_global_age pool_new = 0"
    by (simp_all add: pool_new_def MAX_DMS_VOICES_def replicate_Suc [symmetric] del: replicate_Suc)
  have "\<not> dv_active dms_voice_new" by (simp add: dms_voice_new_def)
  then show ?thesis by (simp add: demo_hit_def pool_trigger_def Let_def v)
qed

theorem pool_memory_safe_witness:
  "list_ex dv_active (vp_voices demo_hit) \<and> pool_ok [0 \<mapsto> replicate 4 (Num 1)] demo_hit
     \<and> (\<exists>p' l r. process_all_with_gains [0 \<mapsto> replicate 4 (Num 1)] demo_hit [Num 0] [Num 0] (replicate 16 (Num 1)) (replicate 16 (Num 1)) (Num 44100)
          = Some (p', l, r) \<and> pool_ok [0 \<mapsto> replicate 4 (Num 1)] p')
     \<and> process_all_with_gains Map.empty demo_hit [Num 0] [Num 0] (replicate 16 (Num 1)) (replicate 16 (Num 1)) (Num 44100) = None"
proof -
  have idle: "\<not> dv_active dms_voice_new" by (simp add: dms_voice_new_def)
  have ok: "pool_ok [0 \<mapsto> replicate 4 (Num 1)] demo_hit"
    by (simp add: pool_ok_def demo_hit_voices voice_ok_def start_voice_def idle)
  have "process_frame Map.empty (Num 44100) (hd (vp_voices demo_hit)) = None"
    by (simp add: demo_hit_voices start_voice_def process_frame_def advance_envelope_def next_stage_def Let_def)
  then have "process_all_with_gains Map.empty demo_hit [Num 0] [Num 0] (replicate 16 (Num 1)) (replicate 16 (Num 1)) (Num 44100) = None"
    by (simp add: process_all_with_gains_def demo_hit_voices) (simp add: start_voice_def)
  moreover have "list_ex dv_active (vp_voices demo_hit)" by (simp add: demo_hit_voices start_voice_def)
  ultimately show ?thesis
    using ok conjunct1 [OF pool_memory_safe [OF ok], of "[Num 0]" "[Num 0]" "replicate 16 (Num 1)" "replicate 16 (Num 1)" "Num 44100"]
    by blast
qed

section \<open>The envelope\<close>

definition unit_level :: "f32 \<Rightarrow> bool" where
  "unit_level x \<longleftrightarrow> is_finite x \<and> fp_ok F32 x \<and> 0 \<le> val x \<and> val x \<le> 1"

definition env_ok :: "DmsVoice \<Rightarrow> bool" where
  "env_ok v \<longleftrightarrow> unit_level (dv_env_level v) \<and> unit_level (dv_sustain_level v)
     \<and> dv_attack_rate v \<noteq> NaN \<and> dv_decay_rate v \<noteq> NaN \<and> dv_release_rate v \<noteq> NaN"

lemma rate_step:
  assumes "r \<noteq> NaN" "\<not> le r (Num 0)" "is_finite sr" "0 < val sr"
  shows "fdiv F32 r sr = PosInf \<or> is_finite (fdiv F32 r sr) \<and> fp_ok F32 (fdiv F32 r sr) \<and> 0 \<le> val (fdiv F32 r sr)"
proof (cases r)
  case (Num x)
  with assms(2) have "0 < x" by (auto simp: le_def feq_def)
  moreover from this have "\<not> sign_bit sr"  "0 \<le> x / val sr" using assms by (cases sr; simp)+
  ultimately show ?thesis
    using Num assms round_q_nonneg [of "x / val sr" F32]
    by (cases sr) (auto simp: fdiv_def mk_def Let_def round_q_idem)
qed (use assms in \<open>cases sr; auto simp: le_def feq_def fdiv_def inf_of_def\<close>)+

lemma step_up:
  assumes "unit_level x" and d: "d = PosInf \<or> is_finite d \<and> fp_ok F32 d \<and> 0 \<le> val d"
    and "\<not> le (Num 1) (fadd F32 x d)"
  shows "unit_level (fadd F32 x d)"
proof -
  have x: "is_finite x" "0 \<le> val x" using assms by (simp_all add: unit_level_def)
  have "d \<noteq> PosInf" using assms x by (cases x) (auto simp: fadd_def le_def)
  then have f: "is_finite d" "0 \<le> val d" using d by auto
  then have a: "fadd F32 x d = mk F32 (x = NegZero \<and> d = NegZero) (val x + val d)"
    using x by (simp add: fadd_finite)
  have "0 \<le> round_q F32 (val x + val d)" using x f by (intro round_q_nonneg) simp
  then have "is_finite (fadd F32 x d) \<and> 0 \<le> val (fadd F32 x d)"
    using assms(3) unfolding a by (auto simp: mk_def Let_def le_def split: if_splits)
  then show ?thesis
    using assms(3) a by (auto simp: unit_level_def le_finite)
qed

lemma step_down:
  assumes "unit_level x" and d: "d = PosInf \<or> is_finite d \<and> fp_ok F32 d \<and> 0 \<le> val d"
    and lo: "is_finite lo" "0 \<le> val lo" and "\<not> le (fsub F32 x d) lo"
  shows "unit_level (fsub F32 x d)"
proof -
  have x: "is_finite x" "0 \<le> val x" "val x \<le> 1" "fp_ok F32 x" using assms by (simp_all add: unit_level_def)
  have "d \<noteq> PosInf" using assms x by (cases x; cases lo) (auto simp: fsub_def fadd_def le_def)
  then have f: "is_finite d" "0 \<le> val d" using d by auto
  obtain b where a: "fsub F32 x d = mk F32 b (val x - val d)"
    using x f by (simp add: fsub_def fadd_finite)
  have r: "round_q F32 (val x - val d) \<le> val x"
    using round_q_mono [of "val x - val d" "val x" F32] f fp_ok_val [OF x(4)] by simp
  have "is_finite (fsub F32 x d)"
    using assms(5) r x lo unfolding a by (cases lo) (auto simp: mk_def Let_def le_def split: if_splits)
  moreover from this assms(5) lo have "0 \<le> val (fsub F32 x d)" by (simp add: le_finite)
  moreover have "val (fsub F32 x d) \<le> 1" using r x unfolding a by (auto simp: mk_def Let_def)
  ultimately show ?thesis by (simp add: unit_level_def a)
qed

text \<open>
  The amplitude envelope stays in \<open>0..=1\<close> through attack, decay, sustain and release, at
  every rate the parameters can hold (infinite and zero rates included) and every positive
  sample rate, and the state it leaves for the next frame satisfies the same invariant.
\<close>

lemma envelope_bounded:
  assumes v: "env_ok v" and sr: "is_finite sr" "0 < val sr"
  shows "let ((level, stage_done), v') = advance_envelope v sr
    in 0 \<le> val level \<and> val level \<le> 1 \<and> is_finite level
      \<and> (\<forall>w. (if stage_done then next_stage v' else Some v') = Some w \<longrightarrow> env_ok w)"
proof -
  have u: "unit_level (Num 1)" "unit_level (Num 0)" by (simp_all add: unit_level_def)
  have e: "unit_level (dv_env_level v)" "unit_level (dv_sustain_level v)"
    and r: "dv_attack_rate v \<noteq> NaN" "dv_decay_rate v \<noteq> NaN" "dv_release_rate v \<noteq> NaN"
    using v by (simp_all add: env_ok_def)
  have s: "is_finite (dv_sustain_level v)" "0 \<le> val (dv_sustain_level v)" "val (dv_sustain_level v) \<le> 1"
    using e by (simp_all add: unit_level_def)
  have ul: "unit_level x \<Longrightarrow> 0 \<le> val x \<and> val x \<le> 1 \<and> is_finite x" for x by (simp add: unit_level_def)
  show ?thesis
  proof (cases "dv_env_stage v")
    case Attack
    have "unit_level (fadd F32 (dv_env_level v) (fdiv F32 (dv_attack_rate v) sr))"
      if "\<not> le (dv_attack_rate v) (Num 0)"
        "\<not> le (Num 1) (fadd F32 (dv_env_level v) (fdiv F32 (dv_attack_rate v) sr))"
      using step_up [OF e(1) rate_step [OF r(1) that(1) sr] that(2)] .
    then show ?thesis using Attack v u
      by (auto simp: advance_envelope_def next_stage_def env_ok_def Let_def ul)
  next
    case Decay
    have "unit_level (fsub F32 (dv_env_level v) (fdiv F32 (dv_decay_rate v) sr))"
      if "\<not> le (dv_decay_rate v) (Num 0)"
        "\<not> le (fsub F32 (dv_env_level v) (fdiv F32 (dv_decay_rate v) sr)) (dv_sustain_level v)"
      using step_down [OF e(1) rate_step [OF r(2) that(1) sr] s(1,2) that(2)] .
    then show ?thesis using Decay v s e
      by (auto simp: advance_envelope_def next_stage_def env_ok_def Let_def ul)
  next
    case Release
    have "unit_level (fsub F32 (dv_env_level v) (fdiv F32 (dv_release_rate v) sr))"
      if "\<not> le (dv_release_rate v) (Num 0)"
        "\<not> le (fsub F32 (dv_env_level v) (fdiv F32 (dv_release_rate v) sr)) (Num 0)"
      using step_down [OF e(1) rate_step [OF r(3) that(1) sr] _ _ that(2)] by simp
    then show ?thesis using Release v
      by (auto simp: advance_envelope_def next_stage_def env_ok_def Let_def ul fmax_def)
  qed (use v s in \<open>auto simp: advance_envelope_def next_stage_def\<close>)
qed

lemma envelope_bounded_witness:
  "env_ok (dms_voice_new\<lparr>dv_env_stage := Release\<rparr>) \<and>
   val (fst (fst (advance_envelope (dms_voice_new\<lparr>dv_env_stage := Release\<rparr>) (Num 44100)))) \<le> 1"
proof -
  have "env_ok (dms_voice_new\<lparr>dv_env_stage := Release\<rparr>)"
    by (simp add: env_ok_def dms_voice_new_def unit_level_def)
  with envelope_bounded [OF this, of "Num 44100"] show ?thesis
    by (auto simp: Let_def split: prod.splits)
qed

end
