(* ===== verification/Preview.thy ===== *)
theory Preview
  imports Ieee
begin

text \<open>
  The sample preview of crates/hikaru_audio_engine/src/preview_player.rs: a buffer that the
  command handler fills and the audio callback drains frame by frame, and the player that
  owns it.  Both run under the engine's mutex, so the operations are transitions of one state.
\<close>

record PreviewBuffer =
  pb_data :: "f32 list"
  pb_channels :: usize
  pb_length :: usize
  pb_cursor :: usize
  pb_volume :: f32
  pb_is_playing :: bool
  pb_generation :: u64

definition preview_buffer_new :: PreviewBuffer where
  "preview_buffer_new = \<lparr> pb_data = [], pb_channels = 1, pb_length = 0, pb_cursor = 0,
     pb_volume = lit F32 (8 / 10), pb_is_playing = False, pb_generation = 0 \<rparr>"

definition preview_start :: "PreviewBuffer \<Rightarrow> f32 list \<Rightarrow> usize \<Rightarrow> u64 \<Rightarrow> PreviewBuffer" where
  "preview_start b samples channels generation =
     b\<lparr>pb_data := samples, pb_channels := max channels 1, pb_length := vlen samples,
       pb_cursor := 0, pb_generation := generation, pb_is_playing := True\<rparr>"

definition preview_stop :: "PreviewBuffer \<Rightarrow> PreviewBuffer" where
  "preview_stop b = b\<lparr>pb_is_playing := False, pb_cursor := 0\<rparr>"

definition scaled :: "PreviewBuffer \<Rightarrow> usize \<Rightarrow> f32" where
  "scaled b pos = fclamp (fmul F32 (pb_data b ! unat pos) (pb_volume b)) (Num (- 1)) (Num 1)"

text \<open>The two mixing loops; the list is the part of the output not yet written.\<close>

fun preview_stereo :: "usize \<Rightarrow> PreviewBuffer \<Rightarrow> f32 list \<Rightarrow> f32 list \<times> PreviewBuffer" where
  "preview_stereo active_len b (x # y # out) =
     (let pos = pb_cursor b; b = b\<lparr>pb_cursor := pos + 2\<rparr>
      in if pos + 1 < active_len
         then (let l = scaled b pos; r = scaled b (pos + 1);
                   (out, b) = preview_stereo active_len b out
               in (fadd F32 x l # fadd F32 y r # out, b))
         else (x # y # out, b\<lparr>pb_is_playing := False\<rparr>))"
| "preview_stereo active_len b out = (out, b)"

fun preview_mono :: "usize \<Rightarrow> PreviewBuffer \<Rightarrow> f32 list \<Rightarrow> f32 list \<times> PreviewBuffer" where
  "preview_mono active_len b (x # y # out) =
     (let pos = pb_cursor b; b = b\<lparr>pb_cursor := pos + 1\<rparr>
      in if pos < active_len
         then (let s = scaled b pos; (out, b) = preview_mono active_len b out
               in (fadd F32 x s # fadd F32 y s # out, b))
         else (x # y # out, b\<lparr>pb_is_playing := False\<rparr>))"
| "preview_mono active_len b out = (out, b)"

definition preview_process :: "PreviewBuffer \<Rightarrow> f32 list \<Rightarrow> f32 list \<times> PreviewBuffer" where
  "preview_process b output =
     (if \<not> pb_is_playing b then (output, b)
      else let active_len = min (pb_length b) (vlen (pb_data b));
               (output, b) = (if pb_channels b = 2 then preview_stereo active_len b output
                              else preview_mono active_len b output)
           in (output, if pb_is_playing b \<and> active_len \<le> pb_cursor b
                       then b\<lparr>pb_is_playing := False\<rparr> else b))"

section \<open>The player\<close>

record PreviewPlayer =
  pp_shared :: PreviewBuffer
  pp_generation :: u64
  pp_volume :: f32

definition preview_player_new :: PreviewPlayer where
  "preview_player_new = \<lparr> pp_shared = preview_buffer_new, pp_generation = 0,
     pp_volume = lit F32 (8 / 10) \<rparr>"

definition preview_is_active :: "PreviewPlayer \<Rightarrow> bool" where
  "preview_is_active p = pb_is_playing (pp_shared p)"

definition preview_set_volume :: "PreviewPlayer \<Rightarrow> f32 \<Rightarrow> PreviewPlayer" where
  "preview_set_volume p vol =
     (let v = fclamp vol (Num 0) (Num 1)
      in p\<lparr>pp_volume := v, pp_shared := (pp_shared p)\<lparr>pb_volume := v\<rparr>\<rparr>)"

definition preview_play :: "PreviewPlayer \<Rightarrow> f32 list \<Rightarrow> usize \<Rightarrow> PreviewPlayer" where
  "preview_play p samples channels =
     (let g = pp_generation p + 1
      in p\<lparr>pp_generation := g, pp_shared := preview_start (pp_shared p) samples channels g\<rparr>)"

definition preview_player_stop :: "PreviewPlayer \<Rightarrow> PreviewPlayer" where
  "preview_player_stop p = p\<lparr>pp_shared := preview_stop (pp_shared p)\<rparr>"

section \<open>Properties\<close>

lemma scaled_cursor [simp]: "scaled (b\<lparr>pb_cursor := c\<rparr>) = scaled b"
  by (simp add: scaled_def fun_eq_iff)

text \<open>What a stereo preview adds to position \<open>i\<close> of a block that starts at frame \<open>c\<close>.\<close>

definition stereo_mix :: "PreviewBuffer \<Rightarrow> nat \<Rightarrow> nat \<Rightarrow> f32 list \<Rightarrow> nat \<Rightarrow> f32" where
  "stereo_mix b n c out i =
     (if i < 2 * (length out div 2) \<and> c + 2 * (i div 2) + 1 < n
      then fadd F32 (out ! i) (scaled b (word_of_nat (c + i))) else out ! i)"

lemma preview_stereo_spec:
  "unat n < 2 ^ 62 \<Longrightarrow> unat (pb_cursor b) \<le> unat n \<Longrightarrow>
   length (fst (preview_stereo n b out)) = length out \<and>
   (\<forall>i < length out. fst (preview_stereo n b out) ! i = stereo_mix b (unat n) (unat (pb_cursor b)) out i)"
proof (induction n b out rule: preview_stereo.induct)
  case (1 n b x y out)
  let ?pos = "pb_cursor b" and ?b = "b\<lparr>pb_cursor := pb_cursor b + 2\<rparr>"
  have p1: "unat (?pos + 1) = unat ?pos + 1" "unat (?pos + 2) = unat ?pos + 2"
    using 1(2,3) unat_add_small [of ?pos 1] unat_add_small [of ?pos 2] by simp_all
  have lt: "?pos + 1 < n \<longleftrightarrow> unat ?pos + 1 < unat n"
    using p1 by (simp add: word_less_nat_alt)
  have w: "word_of_nat (Suc (unat ?pos)) = ?pos + 1" "word_of_nat (unat ?pos + 1) = ?pos + 1" by simp_all
  show ?case
  proof (cases "?pos + 1 < n")
    case True
    obtain o' b' where o: "preview_stereo n ?b out = (o', b')" by fastforce
    have ih: "length o' = length out"
      "\<And>i. i < length out \<Longrightarrow> o' ! i = stereo_mix b (unat n) (unat ?pos + 2) out i"
      using 1(1) [OF refl refl True refl refl] 1(2) True lt p1 o
      by (simp_all add: stereo_mix_def)
    have r: "fst (preview_stereo n b (x # y # out))
        = fadd F32 x (scaled b ?pos) # fadd F32 y (scaled b (?pos + 1)) # o'"
      using True o by (simp add: Let_def)
    have "fst (preview_stereo n b (x # y # out)) ! i = stereo_mix b (unat n) (unat ?pos) (x # y # out) i"
      if i: "i < length (x # y # out)" for i
    proof -
      consider "i = 0" | "i = 1" | j where "i = Suc (Suc j)"
        by (metis One_nat_def not0_implies_Suc)
      then show ?thesis
      proof cases
        case 3
        then have "o' ! j = stereo_mix b (unat n) (unat ?pos + 2) out j" using ih(2) i by simp
        then show ?thesis using 3 unfolding r by (simp add: stereo_mix_def ac_simps)
      qed (unfold r, use True lt in \<open>simp_all add: stereo_mix_def w ac_simps\<close>)
    qed
    then show ?thesis using r ih(1) by simp
  next
    case False
    then have "\<not> unat ?pos + 2 * (i div 2) + 1 < unat n" for i using lt by simp
    then show ?thesis using False by (simp add: Let_def stereo_mix_def)
  qed
qed (auto simp: stereo_mix_def less_Suc_eq)


lemma preview_stereo_state:
  "unat n < 2 ^ 62 \<Longrightarrow> unat (pb_cursor b) \<le> unat n \<Longrightarrow>
   snd (preview_stereo n b out) =
     (let k = length out div 2; avail = (unat n - unat (pb_cursor b)) div 2
      in if k \<le> avail then b\<lparr>pb_cursor := pb_cursor b + 2 * word_of_nat k\<rparr>
         else b\<lparr>pb_cursor := pb_cursor b + 2 * word_of_nat avail + 2, pb_is_playing := False\<rparr>)"
proof (induction n b out rule: preview_stereo.induct)
  case (1 n b x y out)
  let ?pos = "pb_cursor b" and ?b = "b\<lparr>pb_cursor := pb_cursor b + 2\<rparr>"
  have p1: "unat (?pos + 1) = unat ?pos + 1" "unat (?pos + 2) = unat ?pos + 2"
    using 1(2,3) unat_add_small [of ?pos 1] unat_add_small [of ?pos 2] by simp_all
  have lt: "?pos + 1 < n \<longleftrightarrow> unat ?pos + 1 < unat n"
    using p1 by (simp add: word_less_nat_alt)
  show ?case
  proof (cases "?pos + 1 < n")
    case True
    define avail where "avail = (unat n - unat ?pos - 2) div 2"
    have av: "(unat n - unat ?pos) div 2 = Suc avail" using True lt by (simp add: avail_def)
    obtain o' b' where o: "preview_stereo n ?b out = (o', b')" by fastforce
    have "b' =
      (if length out div 2 \<le> avail then b\<lparr>pb_cursor := ?pos + 2 + 2 * word_of_nat (length out div 2)\<rparr>
       else b\<lparr>pb_cursor := ?pos + 2 + 2 * word_of_nat avail + 2, pb_is_playing := False\<rparr>)"
      using 1(1) [OF refl refl True refl refl] 1(2) True lt p1 o by (simp add: Let_def avail_def)
    then show ?thesis using True av o by (simp add: Let_def algebra_simps)
  next
    case False
    then have "(unat n - unat ?pos) div 2 = 0" using lt by simp
    with False show ?thesis by (simp add: Let_def)
  qed
qed auto


lemma pair_below: "even n \<Longrightarrow> even p \<Longrightarrow> p + 2 * (i div 2) + 1 < n \<longleftrightarrow> p + i < n"
  for n p i :: nat
  by (elim evenE) presburger

lemma half_le: "l div 2 \<le> (n - p) div 2 \<Longrightarrow> even l \<Longrightarrow> even n \<Longrightarrow> even p \<Longrightarrow> p \<le> n \<Longrightarrow> p + l \<le> n"
  for n p l :: nat
  by (auto elim!: evenE)

text \<open>
  A stereo preview plays at full speed and stops exactly at its end: each output frame gets
  the next frame of the source, scaled by the volume and clamped; the part of the block
  after the end is left untouched; and the preview is still playing afterwards exactly when
  frames are left, with the cursor on the next one.
\<close>

lemma preview_process_stereo:
  assumes b: "pb_is_playing b" "pb_channels b = 2" "pb_length b = vlen (pb_data b)"
    and v: "vec_ok (pb_data b)" "even (length (pb_data b))" "even (unat (pb_cursor b))"
    and c: "unat (pb_cursor b) \<le> length (pb_data b)" and o: "even (length out)"
  defines "n \<equiv> length (pb_data b)" and "p \<equiv> unat (pb_cursor b)"
  shows "length (fst (preview_process b out)) = length out
    \<and> (\<forall>i < length out. fst (preview_process b out) ! i
        = (if p + i < n then fadd F32 (out ! i) (scaled b (word_of_nat (p + i))) else out ! i))
    \<and> (if p + length out < n
       then pb_is_playing (snd (preview_process b out))
         \<and> unat (pb_cursor (snd (preview_process b out))) = p + length out
       else \<not> pb_is_playing (snd (preview_process b out)))"
proof -
  let ?n = "vlen (pb_data b)"
  have un: "unat ?n = n" using v by (simp add: unat_vlen_ok n_def)
  have n62: "n < 2 ^ 62" using v by (simp add: vec_ok_def n_def)
  have evs: "even n" "even p" "p \<le> n" using v c by (simp_all add: n_def p_def)
  note spec = preview_stereo_spec [of ?n b out, unfolded un, folded p_def]
    and state = preview_stereo_state [of ?n b out, unfolded un, folded p_def]
  have f: "fst (preview_process b out) = fst (preview_stereo ?n b out)"
    using b by (simp add: preview_process_def Let_def split: prod.splits)
  have s: "snd (preview_process b out) = (let b' = snd (preview_stereo ?n b out)
      in if pb_is_playing b' \<and> ?n \<le> pb_cursor b' then b'\<lparr>pb_is_playing := False\<rparr> else b')"
    using b by (simp add: preview_process_def Let_def split: prod.splits)
  have mix: "stereo_mix b n p out i
      = (if p + i < n then fadd F32 (out ! i) (scaled b (word_of_nat (p + i))) else out ! i)"
    if "i < length out" for i
  proof -
    have "i < 2 * (length out div 2)" using that o by simp
    moreover have "p + 2 * (i div 2) + 1 < n \<longleftrightarrow> p + i < n" using evs(1,2) by (rule pair_below)
    ultimately show ?thesis by (simp add: stereo_mix_def)
  qed
  have "if p + length out < n
       then pb_is_playing (snd (preview_process b out))
         \<and> unat (pb_cursor (snd (preview_process b out))) = p + length out
       else \<not> pb_is_playing (snd (preview_process b out))"
  proof (cases "length out div 2 \<le> (n - p) div 2")
    case True
    then have le: "p + length out \<le> n" using o evs by (intro half_le)
    have w: "2 * word_of_nat (length out div 2) = (word_of_nat (length out) :: usize)"
      using o by (elim evenE) simp
    have "snd (preview_stereo ?n b out) = b\<lparr>pb_cursor := pb_cursor b + word_of_nat (length out)\<rparr>"
      using state True n62 evs w by (simp add: Let_def)
    moreover have "unat (pb_cursor b + word_of_nat (length out)) = p + length out"
      using le n62 unat_add_small [of "pb_cursor b" "word_of_nat (length out)"]
      by (simp add: p_def unat_of_nat)
    ultimately show ?thesis using b le un by (auto simp: s Let_def word_le_nat_alt)
  next
    case False
    then have "\<not> p + length out < n" by (intro notI) (simp add: div_le_mono)
    moreover have "\<not> pb_is_playing (snd (preview_stereo ?n b out))"
      using state False n62 evs by (simp add: Let_def)
    ultimately show ?thesis by (simp add: s Let_def)
  qed
  then show ?thesis using spec n62 evs mix by (simp add: f)
qed

lemma preview_process_stereo_witness:
  "\<not> pb_is_playing (snd (preview_process
     (pp_shared (preview_play preview_player_new [Num 1, Num (- 1), Num 0, Num 1] 2)) (replicate 6 (Num 0))))"
proof -
  let ?b = "pp_shared (preview_play preview_player_new [Num 1, Num (- 1), Num 0, Num 1] 2)"
  have f: "pb_is_playing ?b" "pb_channels ?b = 2" "pb_data ?b = [Num 1, Num (- 1), Num 0, Num 1]"
    "pb_length ?b = vlen (pb_data ?b)" "pb_cursor ?b = 0"
    by (simp_all add: preview_play_def Let_def preview_start_def)
  with preview_process_stereo [of ?b "replicate 6 (Num 0)"] show ?thesis
    by (simp add: vec_ok_def)
qed

end
