(* ===== verification/PluginTap.thy ===== *)
theory PluginTap
  imports Ieee
begin

text \<open>
  The lock-free ring that carries audio from the engine to the window of a plugin editor
  (crates/hikaru_plugin_host/src/tap.rs), and the registry that finds the ring of a slot.
  The ring is specified as a mailbox: the blocks published and not yet taken, bounded by the
  capacity; a full mailbox drops the new block, a take returns the newest and empties it.
  The locale \<open>mailbox\<close> states that contract and \<open>PluginTap\<close> is its interpretation.
\<close>

section \<open>The interface\<close>

locale mailbox =
  fixes pub :: "'b \<Rightarrow> 's \<Rightarrow> 's"
    and tk :: "'s \<Rightarrow> 'b option \<times> 's"
    and pend :: "'s \<Rightarrow> 'b list"
    and cut :: "'s \<Rightarrow> 'b \<Rightarrow> 'b option"
    and cap :: "'s \<Rightarrow> nat"
    and used :: "'s \<Rightarrow> nat"
    and ok :: "'s \<Rightarrow> bool"
  assumes pub_ok: "ok s \<Longrightarrow> used s + 1 < 2 ^ 64 \<Longrightarrow>
      ok (pub b s) \<and> used (pub b s) \<le> used s + 1 \<and> cap (pub b s) = cap s \<and> cut (pub b s) = cut s"
    and pend_pub: "ok s \<Longrightarrow> used s + 1 < 2 ^ 64 \<Longrightarrow> pend (pub b s)
      = (case cut s b of None \<Rightarrow> pend s
         | Some b' \<Rightarrow> if length (pend s) < cap s then pend s @ [b'] else pend s)"
    and pend_bound: "ok s \<Longrightarrow> length (pend s) \<le> cap s"
    and tk_ok: "ok s \<Longrightarrow> ok (snd (tk s)) \<and> pend (snd (tk s)) = []
      \<and> fst (tk s) = (if pend s = [] then None else Some (last (pend s)))"
begin

lemma publish_many:
  "ok s \<Longrightarrow> used s + length bs < 2 ^ 64 \<Longrightarrow>
   ok (fold pub bs s) \<and> pend (fold pub bs s) = take (cap s) (pend s @ List.map_filter (cut s) bs)"
proof (induction bs arbitrary: s)
  case Nil
  then show ?case using pend_bound [of s] by simp
next
  case (Cons b bs)
  have p: "ok (pub b s)" "used (pub b s) \<le> used s + 1" "cap (pub b s) = cap s" "cut (pub b s) = cut s"
    using pub_ok [of s b] Cons.prems by auto
  then have "used (pub b s) + length bs < 2 ^ 64" using Cons.prems by simp
  from Cons.IH [OF p(1) this] p Cons.prems pend_pub [of s b] pend_bound [of s] show ?case
    by (auto simp: take_Cons' split: option.splits)
qed

lemma take_after_many:
  "ok s \<Longrightarrow> used s + length bs < 2 ^ 64 \<Longrightarrow> pend s = [] \<Longrightarrow>
   fst (tk (fold pub bs s)) =
     (let accepted = take (cap s) (List.map_filter (cut s) bs)
      in if accepted = [] then None else Some (last accepted))"
  using publish_many [of s bs] tk_ok [of "fold pub bs s"] by (simp add: Let_def)

lemma take_twice: "ok s \<Longrightarrow> fst (tk (snd (tk s))) = None"
  using tk_ok [of s] tk_ok [of "snd (tk s)"] by simp

end

section \<open>The ring\<close>

definition NUM_CHANNELS :: usize where "NUM_CHANNELS = 2"
definition DEFAULT_CAPACITY :: usize where "DEFAULT_CAPACITY = 8"

record PluginTap =
  tap_ring :: "f32 list"
  tap_lens :: "u32 list"
  tap_capacity :: usize
  tap_max_frames :: usize
  tap_write :: usize
  tap_read :: usize
  tap_sample_rate :: f32
  tap_consumers :: usize
  tap_dropped :: u64

definition tap_with_capacity :: "f32 \<Rightarrow> usize \<Rightarrow> usize \<Rightarrow> PluginTap" where
  "tap_with_capacity sample_rate max_frames capacity =
     (let max_frames = max max_frames 1; capacity = max capacity 2
      in \<lparr> tap_ring = replicate (unat (capacity * max_frames * NUM_CHANNELS)) (Num 0),
           tap_lens = replicate (unat capacity) 0, tap_capacity = capacity,
           tap_max_frames = max_frames, tap_write = 0, tap_read = 0,
           tap_sample_rate = sample_rate, tap_consumers = 0, tap_dropped = 0 \<rparr>)"

definition tap_new :: "f32 \<Rightarrow> usize \<Rightarrow> PluginTap" where
  "tap_new sample_rate max_frames = tap_with_capacity sample_rate max_frames DEFAULT_CAPACITY"

definition tap_set_sample_rate :: "PluginTap \<Rightarrow> f32 \<Rightarrow> PluginTap" where
  "tap_set_sample_rate t sr = t\<lparr>tap_sample_rate := sr\<rparr>"

definition attach_consumer :: "PluginTap \<Rightarrow> PluginTap" where
  "attach_consumer t = t\<lparr>tap_consumers := tap_consumers t + 1\<rparr>"

definition detach_consumer :: "PluginTap \<Rightarrow> PluginTap" where
  "detach_consumer t = t\<lparr>tap_consumers := tap_consumers t - 1\<rparr>"

text \<open>\<open>dst[base..base + src.len()].copy_from_slice(src)\<close>\<close>

definition write_at :: "nat \<Rightarrow> 'a list \<Rightarrow> 'a list \<Rightarrow> 'a list" where
  "write_at base src dst = take base dst @ src @ drop (base + length src) dst"

definition block_frames :: "PluginTap \<Rightarrow> f32 list \<Rightarrow> usize" where
  "block_frames t samples = min (vlen samples div NUM_CHANNELS) (tap_max_frames t)"

definition publish :: "PluginTap \<Rightarrow> f32 list \<Rightarrow> PluginTap" where
  "publish t samples =
     (if tap_consumers t = 0 then t
      else let frames = block_frames t samples
           in if frames = 0 then t
              else let w = tap_write t; r = tap_read t
                   in if tap_capacity t \<le> sat_sub w r then t\<lparr>tap_dropped := tap_dropped t + 1\<rparr>
                      else let slot = w mod tap_capacity t;
                               base = slot * tap_max_frames t * NUM_CHANNELS;
                               len = frames * NUM_CHANNELS
                           in t\<lparr>tap_ring := write_at (unat base) (take (unat len) samples) (tap_ring t),
                                tap_lens := (tap_lens t)[unat slot := ucast frames],
                                tap_write := w + 1\<rparr>)"

definition tap_take :: "PluginTap \<Rightarrow> f32 list \<Rightarrow> bool \<times> f32 list \<times> PluginTap" where
  "tap_take t out =
     (let w = tap_write t; r = tap_read t
      in if w \<le> r then (False, out, t)
         else let newest = w - 1;
                  slot = newest mod tap_capacity t;
                  frames = min (ucast (tap_lens t ! unat slot)) (tap_max_frames t);
                  len = frames * NUM_CHANNELS
              in if len = 0 then (False, out, t\<lparr>tap_read := newest + 1\<rparr>)
                 else let base = slot * tap_max_frames t * NUM_CHANNELS
                      in (True, take (unat len) (drop (unat base) (tap_ring t)),
                          t\<lparr>tap_read := newest + 1\<rparr>))"

section \<open>Slots of the ring\<close>

lemma length_write_at [simp]:
  "base + length src \<le> length dst \<Longrightarrow> length (write_at base src dst) = length dst"
  by (simp add: write_at_def)

lemma nth_write_at:
  "base + length src \<le> length dst \<Longrightarrow> j < length dst \<Longrightarrow>
   write_at base src dst ! j = (if base \<le> j \<and> j < base + length src then src ! (j - base) else dst ! j)"
  by (auto simp: write_at_def nth_append)

lemma write_at_same:
  "base + length src \<le> length dst \<Longrightarrow>
   take (length src) (drop base (write_at base src dst)) = src"
  by (simp add: write_at_def)

lemma write_at_other:
  assumes "base + length src \<le> length dst" "b + n \<le> length dst" "b + n \<le> base \<or> base + length src \<le> b"
  shows "take n (drop b (write_at base src dst)) = take n (drop b dst)"
  using assms by (intro nth_equalityI) (auto simp: nth_write_at)

lemma mod_distinct:
  fixes c i w :: nat
  assumes "i < w" "w - i < c"
  shows "i mod c \<noteq> w mod c"
proof
  assume "i mod c = w mod c"
  then have "c dvd w - i" using assms by (metis less_imp_le_nat mod_eq_dvd_iff_nat)
  with assms show False by (simp add: nat_dvd_not_less)
qed

lemma slot_le:
  fixes s c m n :: nat
  assumes "s < c" "n \<le> m" shows "s * m * 2 + n * 2 \<le> c * m * 2"
proof -
  have "Suc s * m \<le> c * m" using assms(1) by (intro mult_le_mono1) simp
  with assms(2) show ?thesis by simp
qed

lemma slot_disjoint:
  fixes s t m n k :: nat
  assumes "s \<noteq> t" "n \<le> m" "k \<le> m"
  shows "s * m * 2 + n * 2 \<le> t * m * 2 \<or> t * m * 2 + k * 2 \<le> s * m * 2"
proof -
  have "s < t \<or> t < s" using assms(1) by auto
  then show ?thesis using slot_le [of s t n m] slot_le [of t s k m] assms by auto
qed

text \<open>
  The shape of a tap and its blocks.  \<open>lens\<close> holds the frame counts as \<open>u32\<close>, so the frames
  of a block have to fit; \<open>MAX_BLOCK_FRAMES\<close>, the only size the engine passes, is 4096.
\<close>

definition tap_ok :: "PluginTap \<Rightarrow> bool" where
  "tap_ok t \<longleftrightarrow> 2 \<le> tap_capacity t \<and> 1 \<le> tap_max_frames t
     \<and> unat (tap_max_frames t) < 2 ^ 32
     \<and> unat (tap_capacity t) * unat (tap_max_frames t) * 2 < 2 ^ 62
     \<and> length (tap_ring t) = unat (tap_capacity t) * unat (tap_max_frames t) * 2
     \<and> length (tap_lens t) = unat (tap_capacity t)
     \<and> tap_read t \<le> tap_write t
     \<and> unat (tap_write t) - unat (tap_read t) \<le> unat (tap_capacity t)
     \<and> (\<forall>i. unat (tap_read t) \<le> i \<and> i < unat (tap_write t) \<longrightarrow>
         tap_lens t ! (i mod unat (tap_capacity t)) \<noteq> 0
         \<and> unat (tap_lens t ! (i mod unat (tap_capacity t))) \<le> unat (tap_max_frames t))"

definition tap_block :: "PluginTap \<Rightarrow> nat \<Rightarrow> f32 list" where
  "tap_block t i =
     (let slot = i mod unat (tap_capacity t)
      in take (unat (tap_lens t ! slot) * 2) (drop (slot * unat (tap_max_frames t) * 2) (tap_ring t)))"

definition tap_pending :: "PluginTap \<Rightarrow> f32 list list" where
  "tap_pending t = map (tap_block t) [unat (tap_read t)..<unat (tap_write t)]"

text \<open>What a publish makes of a block: nothing without a consumer, else its whole frames.\<close>

definition tap_cut :: "PluginTap \<Rightarrow> f32 list \<Rightarrow> f32 list option" where
  "tap_cut t samples =
     (if tap_consumers t = 0 \<or> block_frames t samples = 0 then None
      else Some (take (unat (block_frames t samples) * 2) samples))"

lemma half_bound: "a * 2 < 2 ^ 62 \<Longrightarrow> a < 2 ^ 64 \<and> a * 2 < 2 ^ 64" for a :: nat
  by simp

lemma slot_words:
  assumes ok: "tap_ok t"
  shows "unat (x mod tap_capacity t * tap_max_frames t * NUM_CHANNELS)
    = unat x mod unat (tap_capacity t) * unat (tap_max_frames t) * 2"
    and "unat (x mod tap_capacity t) = unat x mod unat (tap_capacity t)"
proof -
  let ?c = "unat (tap_capacity t)" and ?m = "unat (tap_max_frames t)" and ?s = "unat x mod unat (tap_capacity t)"
  have b: "?c * ?m * 2 < 2 ^ 62" "2 \<le> ?c" using ok by (simp_all add: tap_ok_def word_le_nat_alt)
  then have "?s < ?c" by simp
  then have le: "?s * ?m * 2 \<le> ?c * ?m * 2" by simp
  show s: "unat (x mod tap_capacity t) = ?s" by (simp add: unat_mod_distrib)
  have "?s * ?m * 2 < 2 ^ 62" using le b(1) by (rule le_less_trans)
  from half_bound [OF this] have lt: "?s * ?m < 2 ^ 64" and lt2: "?s * ?m * 2 < 2 ^ 64" by blast+
  have 1: "unat (x mod tap_capacity t * tap_max_frames t) = ?s * ?m"
    using lt unat_mul_small [of "x mod tap_capacity t" "tap_max_frames t"] by (simp add: s)
  show "unat (x mod tap_capacity t * tap_max_frames t * NUM_CHANNELS) = ?s * ?m * 2"
    using lt2 unat_mul_small [of "x mod tap_capacity t * tap_max_frames t" 2]
    by (simp add: 1 NUM_CHANNELS_def)
qed

lemma frames_words:
  assumes "tap_ok t" "n \<le> tap_max_frames t"
  shows "unat (n * NUM_CHANNELS) = unat n * 2"
  using assms by (subst unat_mul_small) (simp_all add: NUM_CHANNELS_def tap_ok_def word_le_nat_alt)


section \<open>Publishing and taking\<close>

lemma tap_words:
  assumes ok: "tap_ok t"
  shows "unat (sat_sub (tap_write t) (tap_read t)) = unat (tap_write t) - unat (tap_read t)"
    and "unat (tap_read t) \<le> unat (tap_write t)" and "2 \<le> unat (tap_capacity t)"
    and "unat (tap_max_frames t) < 2 ^ 32"
    and "unat (tap_write t) - unat (tap_read t) \<le> unat (tap_capacity t)"
  using ok by (simp_all add: unat_sat_sub tap_ok_def word_le_nat_alt)

lemma block_frames_le: "block_frames t s \<le> tap_max_frames t"
  by (simp add: block_frames_def)

lemma block_frames_samples: "unat (block_frames t s) * 2 \<le> length s"
proof -
  have "unat (block_frames t s) \<le> unat (vlen s div NUM_CHANNELS)"
    by (simp add: block_frames_def unat_min)
  moreover have "unat (vlen s) \<le> length s" by (simp add: unat_vlen)
  moreover have "unat (vlen s div NUM_CHANNELS) * 2 \<le> unat (vlen s)"
    by (simp add: NUM_CHANNELS_def unat_div_distrib)
  ultimately show ?thesis by linarith
qed

text \<open>The state after a publish that is neither ignored nor dropped.\<close>

definition tap_stored :: "PluginTap \<Rightarrow> f32 list \<Rightarrow> PluginTap" where
  "tap_stored t b =
     (let slot = unat (tap_write t) mod unat (tap_capacity t)
      in t\<lparr>tap_ring := write_at (slot * unat (tap_max_frames t) * 2) b (tap_ring t),
           tap_lens := (tap_lens t)[slot := word_of_nat (length b div 2)],
           tap_write := tap_write t + 1\<rparr>)"

lemma ucast_frames:
  assumes "unat (n :: usize) < 2 ^ 32" shows "unat (ucast n :: u32) = unat n"
  using assms by (simp add: unsigned_ucast_eq take_bit_eq_mod)

lemma publish_cases:
  assumes ok: "tap_ok t"
  shows "publish t s = (case tap_cut t s of None \<Rightarrow> t
    | Some b \<Rightarrow> if unat (tap_write t) - unat (tap_read t) < unat (tap_capacity t)
                then tap_stored t b else t\<lparr>tap_dropped := tap_dropped t + 1\<rparr>)"
proof (cases "tap_cut t s")
  case None
  then show ?thesis by (auto simp: publish_def tap_cut_def Let_def split: if_splits)
next
  case (Some b)
  then have n: "tap_consumers t \<noteq> 0" "block_frames t s \<noteq> 0" "b = take (unat (block_frames t s) * 2) s"
    by (auto simp: tap_cut_def split: if_splits)
  have l: "length b = unat (block_frames t s) * 2" using n(3) block_frames_samples [of t s] by simp
  have u: "ucast (block_frames t s) = (word_of_nat (length b div 2) :: u32)"
    by (simp add: l word_eq_nat unsigned_ucast_eq unat_of_nat take_bit_eq_mod)
  have f: "unat (block_frames t s * NUM_CHANNELS) = unat (block_frames t s) * 2"
    using ok block_frames_le by (rule frames_words)
  have full: "tap_capacity t \<le> sat_sub (tap_write t) (tap_read t) \<longleftrightarrow>
      \<not> unat (tap_write t) - unat (tap_read t) < unat (tap_capacity t)"
    using tap_words(1) [OF ok] by (simp add: word_le_nat_alt not_less)
  show ?thesis
    using n Some full
    by (simp add: publish_def Let_def tap_stored_def slot_words [OF ok] f u)
qed

lemma stored_facts:
  assumes ok: "tap_ok t" and room: "unat (tap_write t) - unat (tap_read t) < unat (tap_capacity t)"
    and b: "0 < length b" "even (length b)" "length b div 2 \<le> unat (tap_max_frames t)"
    and w: "unat (tap_write t) + 1 < 2 ^ 64"
  shows "tap_ok (tap_stored t b)" and "tap_pending (tap_stored t b) = tap_pending t @ [b]"
proof -
  let ?c = "unat (tap_capacity t)" and ?m = "unat (tap_max_frames t)" and ?w = "unat (tap_write t)"
  let ?r = "unat (tap_read t)" and ?t = "tap_stored t b"
  let ?slot = "?w mod ?c"
  have c: "?slot < ?c" "0 < ?c" using tap_words(3) [OF ok] by simp_all
  have m32: "?m < 2 ^ 32" "?r \<le> ?w" using tap_words [OF ok] by simp_all
  have lens: "length (tap_lens t) = ?c" "length (tap_ring t) = ?c * ?m * 2" using ok by (simp_all add: tap_ok_def)
  have len: "length b = length b div 2 * 2" using b by simp
  have fit: "?slot * ?m * 2 + length b \<le> length (tap_ring t)"
    using slot_le [OF c(1) b(3)] len lens by simp
  have sw: "unat (tap_write ?t) = ?w + 1"
    using w unat_add_small [of "tap_write t" 1] by (simp add: tap_stored_def Let_def)
  have ln: "unat (word_of_nat (length b div 2) :: u32) = length b div 2"
    using b m32 by (simp add: unat_of_nat)
  have nz: "(word_of_nat (length b div 2) :: u32) \<noteq> 0"
  proof
    assume "(word_of_nat (length b div 2) :: u32) = 0"
    then have "length b div 2 = 0" using ln by simp
    with b(1) len show False by simp
  qed
  have same: "tap_capacity ?t = tap_capacity t" "tap_max_frames ?t = tap_max_frames t"
    "tap_read ?t = tap_read t" "tap_lens ?t = (tap_lens t)[?slot := word_of_nat (length b div 2)]"
    "tap_ring ?t = write_at (?slot * ?m * 2) b (tap_ring t)"
    by (simp_all add: tap_stored_def Let_def)
  have lens_old: "tap_lens ?t ! (i mod ?c) = tap_lens t ! (i mod ?c)" if "?r \<le> i" "i < ?w" for i
  proof -
    have "?w - i < ?c" using that room by linarith
    with mod_distinct [of i ?w ?c] that show ?thesis by (simp add: same)
  qed
  have lens_new: "tap_lens ?t ! (?w mod ?c) = word_of_nat (length b div 2)"
    using c lens by (simp add: same)
  have old: "tap_lens t ! (i mod ?c) \<noteq> 0 \<and> unat (tap_lens t ! (i mod ?c)) \<le> ?m" if "?r \<le> i" "i < ?w" for i
    using ok that by (simp add: tap_ok_def)
  have "tap_lens ?t ! (i mod ?c) \<noteq> 0 \<and> unat (tap_lens ?t ! (i mod ?c)) \<le> ?m" if "?r \<le> i" "i < ?w + 1" for i
  proof (cases "i = ?w")
    case True
    then show ?thesis using lens_new nz ln b by simp
  next
    case False
    then show ?thesis using lens_old [of i] old [of i] that by simp
  qed
  then show "tap_ok ?t"
    using ok fit room m32 sw by (simp add: tap_ok_def same word_le_nat_alt)
  have block_new: "tap_block ?t ?w = b"
    using lens_new fit len by (simp add: tap_block_def Let_def same(1,2)) (simp add: same ln write_at_same len [symmetric])
  have block_old: "tap_block ?t i = tap_block t i" if "?r \<le> i" "i < ?w" for i
  proof -
    let ?n = "unat (tap_lens t ! (i mod ?c))"
    have "?w - i < ?c" using that room by linarith
    with mod_distinct [of i ?w ?c] that have d: "i mod ?c \<noteq> ?slot" by simp
    have n: "?n \<le> ?m" using old that by simp
    have "i mod ?c * ?m * 2 + ?n * 2 \<le> ?slot * ?m * 2 \<or> ?slot * ?m * 2 + length b \<le> i mod ?c * ?m * 2"
      using slot_disjoint [OF d n b(3)] len by simp
    moreover have "i mod ?c * ?m * 2 + ?n * 2 \<le> length (tap_ring t)"
      using slot_le [of "i mod ?c" ?c ?n ?m] c n lens by simp
    ultimately have "take (?n * 2) (drop (i mod ?c * ?m * 2) (write_at (?slot * ?m * 2) b (tap_ring t)))
        = take (?n * 2) (drop (i mod ?c * ?m * 2) (tap_ring t))"
      using fit by (intro write_at_other) auto
    with lens_old [OF that] show ?thesis by (simp add: tap_block_def Let_def same(1,2,5))
  qed
  show "tap_pending ?t = tap_pending t @ [b]"
    using block_old block_new m32 by (simp add: tap_pending_def sw same(3))
qed


lemma tap_cut_Some:
  assumes ok: "tap_ok t" and c: "tap_cut t s = Some b"
  shows "0 < length b" "even (length b)" "length b div 2 \<le> unat (tap_max_frames t)"
proof -
  have n: "block_frames t s \<noteq> 0" "length b = unat (block_frames t s) * 2"
    using c block_frames_samples [of t s] by (auto simp: tap_cut_def split: if_splits)
  then show "0 < length b" "even (length b)" by (simp_all add: unat_gt_0)
  show "length b div 2 \<le> unat (tap_max_frames t)"
    using n block_frames_le [of t s] by (simp add: word_le_nat_alt)
qed

lemma tap_take_eq:
  assumes ok: "tap_ok t"
  shows "tap_take t out =
    (if tap_pending t = [] then (False, out, t)
     else (True, last (tap_pending t), t\<lparr>tap_read := tap_write t\<rparr>))"
proof (cases "tap_write t \<le> tap_read t")
  case True
  then show ?thesis using tap_words(2) [OF ok]
    by (simp add: tap_take_def tap_pending_def word_le_nat_alt)
next
  case False
  let ?c = "unat (tap_capacity t)" and ?m = "unat (tap_max_frames t)" and ?w = "unat (tap_write t)"
  have lt: "unat (tap_read t) < ?w" using False by (simp add: word_le_nat_alt)
  then have n: "unat (tap_write t - 1) = ?w - 1" by (intro unat_minus_one) auto
  let ?l = "tap_lens t ! ((?w - 1) mod ?c)"
  have l: "?l \<noteq> 0" "unat ?l \<le> ?m" using ok lt by (simp_all add: tap_ok_def)
  have m32: "?m < 2 ^ 32" using tap_words [OF ok] by simp
  have "unat ?l < 2 ^ 64" using l m32 by simp
  then have u: "unat (ucast ?l :: usize) = unat ?l" by (simp add: unsigned_ucast_eq take_bit_eq_mod)
  then have f: "min (ucast ?l) (tap_max_frames t) = (ucast ?l :: usize)"
    using l by (simp add: min_def word_le_nat_alt)
  have len: "unat (ucast ?l * NUM_CHANNELS) = unat ?l * 2"
    using frames_words [OF ok, of "ucast ?l"] u l by (simp add: word_le_nat_alt)
  have "unat (ucast ?l * NUM_CHANNELS) \<noteq> 0" using len l by (simp add: unat_gt_0)
  then have "ucast ?l * NUM_CHANNELS \<noteq> 0" by auto
  moreover have "unat ((tap_write t - 1) mod tap_capacity t) = (?w - 1) mod ?c"
    using slot_words(2) [OF ok, of "tap_write t - 1"] n by simp
  moreover have "unat ((tap_write t - 1) mod tap_capacity t * tap_max_frames t * NUM_CHANNELS)
      = (?w - 1) mod ?c * ?m * 2"
    using slot_words(1) [OF ok, of "tap_write t - 1"] n by simp
  ultimately have "tap_take t out = (True, tap_block t (?w - 1), t\<lparr>tap_read := tap_write t\<rparr>)"
    using False by (simp add: tap_take_def Let_def f len tap_block_def del: One_nat_def)
  moreover have "last (tap_pending t) = tap_block t (?w - 1)" "tap_pending t \<noteq> []"
    using lt by (simp_all add: tap_pending_def last_map)
  ultimately show ?thesis by simp
qed

definition tap_pub :: "f32 list \<Rightarrow> PluginTap \<Rightarrow> PluginTap" where
  "tap_pub b t = publish t b"

definition tap_tk :: "PluginTap \<Rightarrow> f32 list option \<times> PluginTap" where
  "tap_tk t = (let (got, out, t') = tap_take t [] in (if got then Some out else None, t'))"

text \<open>The ring implements the mailbox.\<close>

interpretation tap: mailbox tap_pub tap_tk tap_pending tap_cut "\<lambda>t. unat (tap_capacity t)"
  "\<lambda>t. unat (tap_write t)" tap_ok
proof
  fix t :: PluginTap and b :: "f32 list"
  assume ok: "tap_ok t" and w: "unat (tap_write t) + 1 < 2 ^ 64"
  note pc = publish_cases [OF ok, of b, folded tap_pub_def]
  have sw: "unat (tap_write (tap_stored t b')) = unat (tap_write t) + 1" for b'
    using w unat_add_small [of "tap_write t" 1] by (simp add: tap_stored_def Let_def)
  have cut: "tap_cut t' = tap_cut t" if "tap_consumers t' = tap_consumers t"
    "tap_max_frames t' = tap_max_frames t" for t'
    using that by (simp add: tap_cut_def block_frames_def fun_eq_iff)
  have st: "tap_capacity (tap_stored t b') = tap_capacity t" for b'
    by (simp add: tap_stored_def Let_def)
  have sc: "tap_cut (tap_stored t b') = tap_cut t" for b'
    by (rule cut) (simp_all add: tap_stored_def Let_def)
  have dr: "tap_ok (t\<lparr>tap_dropped := d\<rparr>) = tap_ok t" "tap_pending (t\<lparr>tap_dropped := d\<rparr>) = tap_pending t"
for d
    by (simp_all add: tap_ok_def tap_pending_def tap_block_def)
  have dc: "tap_cut (t\<lparr>tap_dropped := d\<rparr>) = tap_cut t" for d
    by (rule cut) simp_all
  have plen: "length (tap_pending t) = unat (tap_write t) - unat (tap_read t)"
    by (simp add: tap_pending_def)
  note stf = stored_facts [OF ok _ tap_cut_Some [OF ok] w]
  have "tap_pub b t = t \<or> tap_pub b t = t\<lparr>tap_dropped := tap_dropped t + 1\<rparr>
      \<or> (\<exists>b'. tap_pub b t = tap_stored t b' \<and> tap_ok (tap_stored t b'))"
    using stf(1) unfolding pc by (auto split: option.splits)
  then show "tap_ok (tap_pub b t) \<and> unat (tap_write (tap_pub b t)) \<le> unat (tap_write t) + 1
      \<and> unat (tap_capacity (tap_pub b t)) = unat (tap_capacity t) \<and> tap_cut (tap_pub b t) = tap_cut t"
    using ok dr dc sw st sc by (elim disjE exE) simp_all
  show "tap_pending (tap_pub b t) = (case tap_cut t b of None \<Rightarrow> tap_pending t
     | Some b' \<Rightarrow> if length (tap_pending t) < unat (tap_capacity t) then tap_pending t @ [b']
                 else tap_pending t)"
    using stf(2) by (auto simp: pc dr plen split: option.splits)
next
  fix t :: PluginTap
  assume ok: "tap_ok t"
  show "length (tap_pending t) \<le> unat (tap_capacity t)"
    using tap_words(5) [OF ok] by (simp add: tap_pending_def)
  have "tap_ok (t\<lparr>tap_read := tap_write t\<rparr>)" "tap_pending (t\<lparr>tap_read := tap_write t\<rparr>) = []"
    using ok by (auto simp: tap_ok_def tap_pending_def)
  then show "tap_ok (snd (tap_tk t)) \<and> tap_pending (snd (tap_tk t)) = [] \<and>
      fst (tap_tk t) = (if tap_pending t = [] then None else Some (last (tap_pending t)))"
    using ok by (simp add: tap_tk_def tap_take_eq)
qed

text \<open>
  C7. The ring is a bounded mailbox: from an empty ring, after any sequence of published
  blocks, a take returns exactly the last block that was accepted (the first \<open>capacity\<close>
  non-empty ones are; a full ring drops the new block instead of overwriting one that may be
  being read), truncated to its whole frames, and a second take returns nothing.
\<close>

theorem tap_take_after_publishes:
  assumes "tap_ok t" "tap_pending t = []" "unat (tap_write t) + length bs < 2 ^ 64"
  shows "fst (tap_tk (fold tap_pub bs t)) =
     (let accepted = take (unat (tap_capacity t)) (List.map_filter (tap_cut t) bs)
      in if accepted = [] then None else Some (last accepted))
    \<and> fst (tap_tk (snd (tap_tk (fold tap_pub bs t)))) = None"
  using tap.take_after_many [OF assms(1,3,2)] tap.publish_many [OF assms(1,3)] tap.take_twice
  by blast

lemma tap_with_capacity_ok:
  assumes "unat (max c 2) * unat (max m 1) * 2 < 2 ^ 62" "unat m < 2 ^ 32"
  shows "tap_ok (tap_with_capacity sr m c)" "tap_pending (tap_with_capacity sr m c) = []"
proof -
  have "unat (max c 2) * unat (max m 1) < 2 ^ 64" "unat (max c 2) * unat (max m 1) * 2 < 2 ^ 64"
    using half_bound [of "unat (max c 2) * unat (max m 1)"] assms by simp_all
  then have "unat (max c 2 * max m 1 * NUM_CHANNELS) = unat (max c 2) * unat (max m 1) * 2"
    using unat_mul_small [of "max c 2" "max m 1"] unat_mul_small [of "max c 2 * max m 1" 2]
    by (simp add: NUM_CHANNELS_def)
  then show "tap_ok (tap_with_capacity sr m c)"
    using assms by (simp add: tap_ok_def tap_with_capacity_def Let_def unat_max)
  show "tap_pending (tap_with_capacity sr m c) = []"
    by (simp add: tap_pending_def tap_with_capacity_def Let_def)
qed

theorem tap_take_after_publishes_witness:
  "fst (tap_tk (snd (tap_tk (fold tap_pub [[Num 1, Num 1], [Num 0, Num 1], [Num 1, Num 0]]
      (attach_consumer (tap_with_capacity (Num 48000) 1 2)))))) = None"
proof -
  let ?t = "attach_consumer (tap_with_capacity (Num 48000) 1 2)"
  have "tap_ok (tap_with_capacity (Num 48000) 1 2)" "tap_pending (tap_with_capacity (Num 48000) 1 2) = []"
    by (rule tap_with_capacity_ok; simp add: max_def)+
  then have "tap_ok ?t" "tap_pending ?t = []"
    by (simp_all add: attach_consumer_def tap_ok_def tap_pending_def)
  moreover have "unat (tap_write ?t) = 0" by (simp add: attach_consumer_def tap_with_capacity_def Let_def)
  ultimately show ?thesis
    using tap_take_after_publishes [of ?t "[[Num 1, Num 1], [Num 0, Num 1], [Num 1, Num 0]]"] by simp
qed

end
