(* ===== verification/TapRegistry.thy ===== *)
theory TapRegistry
  imports PluginTap
begin

text \<open>
  The process-wide registry of taps (crates/hikaru_plugin_host/src/tap.rs): an association
  list from the slot \<open>(track, index in the chain)\<close> to the shared tap.  The engine, its client,
  relies on it as a map; the locale states that interface and proves once what registering a
  whole chain gives.
\<close>

type_synonym TapKey = "usize \<times> usize"

locale slot_registry =
  fixes reg :: "'k \<Rightarrow> 'v \<Rightarrow> 'r \<Rightarrow> 'r"
    and look :: "'k \<Rightarrow> 'r \<Rightarrow> 'v option"
    and unreg :: "'k \<Rightarrow> 'r \<Rightarrow> 'r"
  assumes look_reg: "look k' (reg k v r) = (if k' = k then Some v else look k' r)"
    and look_unreg: "look k' (unreg k r) = (if k' = k then None else look k' r)"
begin

text \<open>Register every slot of a chain that has a tap, in order.\<close>

definition reg_slots :: "('n \<Rightarrow> 'k) \<Rightarrow> ('n \<times> 'v option) list \<Rightarrow> 'r \<Rightarrow> 'r" where
  "reg_slots key ns r = fold (\<lambda>(i, t) r. case t of None \<Rightarrow> r | Some v \<Rightarrow> reg (key i) v r) ns r"

lemma look_reg_slots_other:
  "(\<And>i t. (i, t) \<in> set ns \<Longrightarrow> key i \<noteq> k) \<Longrightarrow> look k (reg_slots key ns r) = look k r"
proof (induction ns arbitrary: r)
  case (Cons x ns)
  obtain i t where x: "x = (i, t)" by fastforce
  have "look k (reg_slots key (x # ns) r)
      = look k (case t of None \<Rightarrow> r | Some v \<Rightarrow> reg (key i) v r)"
  proof -
    have "\<And>i t. (i, t) \<in> set ns \<Longrightarrow> key i \<noteq> k" using Cons.prems by auto
    from Cons.IH [OF this] show ?thesis by (simp add: reg_slots_def x)
  qed
  also have "\<dots> = look k r" using Cons.prems [of i t] by (auto simp: x look_reg split: option.splits)
  finally show ?case .
qed (simp add: reg_slots_def)

lemma look_reg_slots:
  assumes "inj_on key (fst ` set ns)" "distinct (map fst ns)" "(i, t) \<in> set ns"
  shows "look (key i) (reg_slots key ns r) = (case t of None \<Rightarrow> look (key i) r | Some v \<Rightarrow> Some v)"
  using assms
proof (induction ns arbitrary: r)
  case (Cons x ns)
  obtain j u where x: "x = (j, u)" by fastforce
  let ?r = "case u of None \<Rightarrow> r | Some v \<Rightarrow> reg (key j) v r"
  have step: "reg_slots key (x # ns) r = reg_slots key ns ?r" by (simp add: reg_slots_def x)
  show ?case
  proof (cases "(i, t) = (j, u)")
    case True
    have "key a \<noteq> key i" if "(a, b) \<in> set ns" for a b
    proof
      assume "key a = key i"
      then have "a = i" using Cons.prems(1) that True
        by (fastforce simp: x inj_on_def image_iff)
      then show False using Cons.prems(2) that True by (force simp: x)
    qed
    then have "look (key i) (reg_slots key ns ?r) = look (key i) ?r"
      by (rule look_reg_slots_other)
    then show ?thesis using True by (simp add: step look_reg split: option.splits)
  next
    case False
    then have m: "(i, t) \<in> set ns" using Cons.prems(3) x by auto
    then have "i \<noteq> j" using Cons.prems(2) by (force simp: x)
    moreover have "i \<in> fst ` set (x # ns)" "j \<in> fst ` set (x # ns)" using m x by force+
    ultimately have kd: "key i \<noteq> key j" using inj_onD [OF Cons.prems(1), of i j] by blast
    have "look (key i) (reg_slots key ns ?r) = (case t of None \<Rightarrow> look (key i) ?r | Some v \<Rightarrow> Some v)"
      using Cons.IH [of ?r] Cons.prems m by (auto simp: inj_on_def)
    moreover have "look (key i) ?r = look (key i) r"
      using kd by (auto simp: look_reg split: option.splits)
    ultimately show ?thesis unfolding step by (cases t) simp_all
  qed
qed simp

end

section \<open>The registry\<close>

type_synonym 'v registry = "(TapKey \<times> 'v) list"

definition register :: "TapKey \<Rightarrow> 'v \<Rightarrow> 'v registry \<Rightarrow> 'v registry" where
  "register key tap rg = filter (\<lambda>(k, _). k \<noteq> key) rg @ [(key, tap)]"

definition lookup :: "TapKey \<Rightarrow> 'v registry \<Rightarrow> 'v option" where
  "lookup key rg = map_option snd (find (\<lambda>(k, _). k = key) rg)"

definition unregister :: "TapKey \<Rightarrow> 'v registry \<Rightarrow> 'v registry" where
  "unregister key rg = filter (\<lambda>(k, _). k \<noteq> key) rg"

definition NO_SLOT :: TapKey where "NO_SLOT = (- 1, - 1)"

lemma lookup_map_of: "lookup key rg = map_of rg key"
  by (induction rg) (auto simp: lookup_def)

lemma map_of_filter_key: "map_of (filter (\<lambda>(k, _). k \<noteq> key) rg) k' = (if k' = key then None else map_of rg k')"
  by (induction rg) auto

interpretation taps: slot_registry register lookup unregister
  by standard (auto simp: lookup_map_of register_def unregister_def map_add_def map_of_filter_key
      split: option.splits)

end
