(* ===== verification/PluginScan.thy ===== *)
theory PluginScan
  imports Machine "HOL-Library.Sublist" "HOL-Library.Char_ord" "HOL-Library.List_Lexorder"
    "HOL-Library.Product_Lexorder"
begin

text \<open>
  Plugin discovery: crates/hikaru_plugin_host/src/registry.rs.  The file system is a partial
  function from paths (lists of components) to nodes; a directory lists its entries or cannot
  be read, and an entry may be unreadable.  Symbolic links need no node of their own: a path
  through a link is one more path of the function, so a link to a parent makes it infinite,
  which is why the walk is bounded.  \<open>canonicalize\<close> and \<open>to_lowercase\<close> are parameters.
\<close>

type_synonym path = "string list"

datatype fsnode = FileN nat | DirN "string option list option"

type_synonym fs = "path \<rightharpoonup> fsnode"

fun read_dir :: "fs \<Rightarrow> path \<Rightarrow> string option list option" where
  "read_dir fs p = (case fs p of Some (DirN es) \<Rightarrow> es | _ \<Rightarrow> None)"

definition is_dir :: "fs \<Rightarrow> path \<Rightarrow> bool" where
  "is_dir fs p \<longleftrightarrow> (case fs p of Some (DirN _) \<Rightarrow> True | _ \<Rightarrow> False)"

text \<open>\<open>Path::file_stem\<close> and \<open>extension\<close>: the name split at its last dot, unless it starts with it.\<close>

definition split_name :: "string \<Rightarrow> string \<times> string option" where
  "split_name name =
     (let ext = takeWhile (\<lambda>c. c \<noteq> CHR ''.'') (rev name);
          stem = rev (drop (Suc (length ext)) (rev name))
      in if name = ''..'' \<or> CHR ''.'' \<notin> set name \<or> stem = [] then (name, None) else (stem, Some (rev ext)))"

definition extension :: "path \<Rightarrow> string option" where
  "extension p = (if p = [] then None else snd (split_name (last p)))"

definition file_stem :: "path \<Rightarrow> string option" where
  "file_stem p = (if p = [] then None else Some (fst (split_name (last p))))"

section \<open>Descriptors\<close>

datatype PluginFormat = VST3 | CLAP

datatype PluginKind = Effect | Instrument

record PluginDescriptor =
  pd_id :: string
  pd_name :: string
  pd_vendor :: string
  pd_path :: path
  pd_format :: PluginFormat
  pd_kind :: PluginKind
  pd_has_gui :: bool
  pd_input_channels :: "usize option"

definition display_label :: "PluginDescriptor \<Rightarrow> string" where
  "display_label d = (if pd_vendor d = [] then pd_name d
     else pd_vendor d @ '' '' @ map char_of [226 :: nat, 128, 148] @ '' '' @ pd_name d)"

datatype scan_reason = ReadDir | UnreadableEntry | EmptyBundle | EmptyFile

type_synonym PluginScanError = "path \<times> scan_reason"

record ScanReport =
  sr_plugins :: "PluginDescriptor list"
  sr_errors :: "PluginScanError list"

definition show_path :: "path \<Rightarrow> string" where
  "show_path p = concat (map (\<lambda>c. CHR ''/'' # c) p)"

definition descriptor_id :: "(path \<Rightarrow> path) \<Rightarrow> PluginFormat \<Rightarrow> path \<Rightarrow> string" where
  "descriptor_id canon format p =
     (case format of VST3 \<Rightarrow> ''vst3'' | CLAP \<Rightarrow> ''clap'') @ '':'' @ show_path (canon p)"

definition standard_search_paths :: "path option \<Rightarrow> path list" where
  "standard_search_paths home =
     (case home of Some h \<Rightarrow> [h @ [''.vst3'']] | None \<Rightarrow> [])
     @ [[''usr'', ''lib'', ''vst3'']]
     @ (case home of Some h \<Rightarrow> [h @ [''.clap''], h @ [''.local'', ''lib'', ''clap'']] | None \<Rightarrow> [])
     @ [[''usr'', ''lib'', ''clap'']]"

section \<open>Bundles\<close>

fun find_so :: "path \<Rightarrow> string option list \<Rightarrow> path option" where
  "find_so dir [] = None"
| "find_so dir (None # es) = find_so dir es"
| "find_so dir (Some name # es) =
     (if extension (dir @ [name]) = Some ''so'' then Some (dir @ [name]) else find_so dir es)"

fun find_arch :: "fs \<Rightarrow> path \<Rightarrow> string option list \<Rightarrow> path option" where
  "find_arch fs contents [] = None"
| "find_arch fs contents (None # es) = find_arch fs contents es"
| "find_arch fs contents (Some name # es) =
     (let dir = contents @ [name]
      in if \<not> is_dir fs dir then find_arch fs contents es
         else case read_dir fs dir of
                None \<Rightarrow> find_arch fs contents es
              | Some inner \<Rightarrow>
                  (case find_so dir inner of Some p \<Rightarrow> Some p | None \<Rightarrow> find_arch fs contents es))"

definition bundle_binary :: "fs \<Rightarrow> path \<Rightarrow> path option" where
  "bundle_binary fs bundle =
     (case read_dir fs (bundle @ [''Contents'']) of
        None \<Rightarrow> None
      | Some arch \<Rightarrow> find_arch fs (bundle @ [''Contents'']) arch)"

definition bundle_display_name :: "fs \<Rightarrow> path \<Rightarrow> PluginFormat \<Rightarrow> string option" where
  "bundle_display_name fs p format =
     (case format of
        CLAP \<Rightarrow> None
      | VST3 \<Rightarrow>
          if \<not> is_dir fs p then None
          else case bundle_binary fs p of
                 None \<Rightarrow> None
               | Some binary \<Rightarrow>
                   (case file_stem binary of
                      None \<Rightarrow> None
                    | Some stem \<Rightarrow> if stem = [] \<or> stem = ''Plugin'' then None else Some stem))"

section \<open>The walk\<close>

definition MAX_SCAN_DEPTH :: nat where "MAX_SCAN_DEPTH = 3"

type_synonym candidate = "path \<times> PluginFormat"

text \<open>One directory, and the loop over its entries.\<close>

function walk :: "fs \<Rightarrow> path \<Rightarrow> nat \<Rightarrow> bool \<Rightarrow> candidate list \<times> PluginScanError list"
  and walk_entries :: "fs \<Rightarrow> path \<Rightarrow> nat \<Rightarrow> bool \<Rightarrow> string option list \<Rightarrow> candidate list \<times> PluginScanError list" where
  "walk fs dir depth in_bundle =
     (case read_dir fs dir of
        None \<Rightarrow> ([], [(dir, ReadDir)])
      | Some entries \<Rightarrow> walk_entries fs dir depth in_bundle entries)"
| "walk_entries fs dir depth in_bundle [] = ([], [])"
| "walk_entries fs dir depth in_bundle (None # es) =
     (let (out, errors) = walk_entries fs dir depth in_bundle es in (out, (dir, UnreadableEntry) # errors))"
| "walk_entries fs dir depth in_bundle (Some name # es) =
     (let p = dir @ [name];
          (out, errors) =
            (if is_dir fs p
             then let is_vst3_bundle = suffix ''.vst3'' name;
                      (out1, errors1) = (if \<not> is_vst3_bundle then ([], [])
                                         else case bundle_binary fs p of
                                                Some _ \<Rightarrow> ([(p, VST3)], [])
                                              | None \<Rightarrow> ([], [(p, EmptyBundle)]));
                      (out2, errors2) = (if depth < MAX_SCAN_DEPTH
                                         then walk fs p (Suc depth) (in_bundle \<or> is_vst3_bundle) else ([], []))
                  in (out1 @ out2, errors1 @ errors2)
             else if in_bundle then ([], [])
             else if extension p = Some ''so'' \<or> extension p = Some ''clap'' then ([(p, CLAP)], [])
             else ([], []));
          (out', errors') = walk_entries fs dir depth in_bundle es
      in (out @ out', errors @ errors'))"
  by pat_completeness auto

termination
  by (relation "measures
       [\<lambda>x. case x of Inl (_, _, d, _) \<Rightarrow> 2 * (Suc MAX_SCAN_DEPTH - d) + 1
                    | Inr (_, _, d, _, _) \<Rightarrow> 2 * (Suc MAX_SCAN_DEPTH - d),
        \<lambda>x. case x of Inl _ \<Rightarrow> 0 | Inr (_, _, _, _, es) \<Rightarrow> length es]") auto

section \<open>The scan\<close>

definition inspect_candidate ::
    "fs \<Rightarrow> (path \<Rightarrow> path) \<Rightarrow> candidate \<Rightarrow> PluginScanError + PluginDescriptor" where
  "inspect_candidate fs canon c =
     (let (p, format) = c
      in if fs p = Some (FileN 0) then Inl (p, EmptyFile)
         else let stem = (case file_stem p of Some s \<Rightarrow> s
                          | None \<Rightarrow> (case format of VST3 \<Rightarrow> ''VST3'' | CLAP \<Rightarrow> ''CLAP''));
                  name = (case bundle_display_name fs p format of Some n \<Rightarrow> n | None \<Rightarrow> stem)
              in Inr \<lparr> pd_id = descriptor_id canon format p, pd_name = name, pd_vendor = [], pd_path = p,
                       pd_format = format, pd_kind = Effect, pd_has_gui = False, pd_input_channels = None \<rparr>)"

fun scan_candidates ::
    "fs \<Rightarrow> (path \<Rightarrow> path) \<Rightarrow> candidate list \<Rightarrow> string list \<Rightarrow> ScanReport \<Rightarrow> string list \<times> ScanReport" where
  "scan_candidates fs canon [] seen report = (seen, report)"
| "scan_candidates fs canon (c # cs) seen report =
     (if descriptor_id canon (snd c) (fst c) \<in> set seen then scan_candidates fs canon cs seen report
      else case inspect_candidate fs canon c of
             Inr d \<Rightarrow> scan_candidates fs canon cs (pd_id d # seen) (report\<lparr>sr_plugins := sr_plugins report @ [d]\<rparr>)
           | Inl err \<Rightarrow> scan_candidates fs canon cs seen (report\<lparr>sr_errors := sr_errors report @ [err]\<rparr>))"

fun scan_roots ::
    "fs \<Rightarrow> (path \<Rightarrow> path) \<Rightarrow> path list \<Rightarrow> string list \<Rightarrow> ScanReport \<Rightarrow> string list \<times> ScanReport" where
  "scan_roots fs canon [] seen report = (seen, report)"
| "scan_roots fs canon (p # ps) seen report =
     (if fs p = None then scan_roots fs canon ps seen report
      else let (candidates, errors) = walk fs p 0 False;
               (seen, report) = scan_candidates fs canon candidates seen
                 (report\<lparr>sr_errors := sr_errors report @ errors\<rparr>)
           in scan_roots fs canon ps seen report)"

definition scan_paths :: "fs \<Rightarrow> (path \<Rightarrow> path) \<Rightarrow> (string \<Rightarrow> string) \<Rightarrow> path list \<Rightarrow> ScanReport" where
  "scan_paths fs canon lower paths =
     (let report = snd (scan_roots fs canon paths [] \<lparr> sr_plugins = [], sr_errors = [] \<rparr>)
      in report\<lparr>sr_plugins := sort_key (\<lambda>d. (lower (pd_name d), pd_id d)) (sr_plugins report)\<rparr>)"

section \<open>What the walk finds\<close>

fun listed :: "fs \<Rightarrow> path \<Rightarrow> string list \<Rightarrow> bool" where
  "listed fs dir [] \<longleftrightarrow> False"
| "listed fs dir (n # rel) \<longleftrightarrow>
     (case read_dir fs dir of None \<Rightarrow> False
      | Some es \<Rightarrow> Some n \<in> set es \<and> (rel = [] \<or> listed fs (dir @ [n]) rel))"

definition is_plugin :: "fs \<Rightarrow> bool \<Rightarrow> path \<Rightarrow> string list \<Rightarrow> PluginFormat \<Rightarrow> bool" where
  "is_plugin fs in_bundle dir rel format \<longleftrightarrow>
     (case format of
        VST3 \<Rightarrow> is_dir fs (dir @ rel) \<and> suffix ''.vst3'' (last rel) \<and> bundle_binary fs (dir @ rel) \<noteq> None
      | CLAP \<Rightarrow> \<not> is_dir fs (dir @ rel) \<and> \<not> in_bundle \<and> list_all (\<lambda>c. \<not> suffix ''.vst3'' c) (butlast rel)
          \<and> extension (dir @ rel) \<in> {Some ''so'', Some ''clap''})"

lemma listed_is_dir: "listed fs dir rel \<Longrightarrow> is_dir fs dir"
  by (cases rel) (auto simp: is_dir_def split: option.splits fsnode.splits)

lemma is_plugin_one:
  "is_plugin fs inb dir [n] f \<longleftrightarrow>
     (if is_dir fs (dir @ [n]) then f = VST3 \<and> suffix ''.vst3'' n \<and> bundle_binary fs (dir @ [n]) \<noteq> None
      else f = CLAP \<and> \<not> inb \<and> extension (dir @ [n]) \<in> {Some ''so'', Some ''clap''})"
  by (cases f) (simp_all add: is_plugin_def)

lemma is_plugin_Cons:
  "rel \<noteq> [] \<Longrightarrow> is_plugin fs inb dir (n # rel) f = is_plugin fs (inb \<or> suffix ''.vst3'' n) (dir @ [n]) rel f"
  by (cases f) (auto simp: is_plugin_def)

lemma walk_entries_mem:
  "c \<in> set (fst (walk_entries fs dir d inb (Some n # es))) \<longleftrightarrow>
     (let p = dir @ [n] in fst c = p \<and> is_plugin fs inb dir [n] (snd c)
        \<or> is_dir fs p \<and> d < MAX_SCAN_DEPTH \<and> c \<in> set (fst (walk fs p (Suc d) (inb \<or> suffix ''.vst3'' n)))
        \<or> c \<in> set (fst (walk_entries fs dir d inb es)))"
  by (cases c) (auto simp: is_plugin_one Let_def simp del: walk.simps split: prod.splits option.splits if_splits)

lemma walk_spec:
  "d \<le> MAX_SCAN_DEPTH \<Longrightarrow> c \<in> set (fst (walk fs dir d inb)) \<longleftrightarrow>
     (\<exists>rel. fst c = dir @ rel \<and> listed fs dir rel \<and> d + length rel \<le> Suc MAX_SCAN_DEPTH
        \<and> is_plugin fs inb dir rel (snd c))"
  and walk_entries_spec:
  "d \<le> MAX_SCAN_DEPTH \<Longrightarrow> c \<in> set (fst (walk_entries fs dir d inb es)) \<longleftrightarrow>
     (\<exists>n rel. Some n \<in> set es \<and> fst c = dir @ n # rel \<and> (rel = [] \<or> listed fs (dir @ [n]) rel)
        \<and> d + length rel \<le> MAX_SCAN_DEPTH \<and> is_plugin fs inb dir (n # rel) (snd c))"
proof (induction fs dir d inb and fs dir d inb es rule: walk_walk_entries.induct)
  case (1 fs dir d inb)
  show ?case
  proof (cases "read_dir fs dir")
    case None
    then show ?thesis by (auto elim: listed.elims simp del: read_dir.simps)
  next
    case (Some es)
    then have w: "walk fs dir d inb = walk_entries fs dir d inb es" by (simp del: read_dir.simps)
    show ?thesis unfolding w 1(1) [OF Some 1(2)]
    proof (intro iffI; elim exE conjE)
      fix n rel assume "Some n \<in> set es" "fst c = dir @ n # rel" "rel = [] \<or> listed fs (dir @ [n]) rel"
        "d + length rel \<le> MAX_SCAN_DEPTH" "is_plugin fs inb dir (n # rel) (snd c)"
      then show "\<exists>rel. fst c = dir @ rel \<and> listed fs dir rel \<and> d + length rel \<le> Suc MAX_SCAN_DEPTH
          \<and> is_plugin fs inb dir rel (snd c)"
        by (intro exI [of _ "n # rel"]) (use Some in \<open>simp del: read_dir.simps\<close>)
    next
      fix rel assume "fst c = dir @ rel" "listed fs dir rel" "d + length rel \<le> Suc MAX_SCAN_DEPTH"
        "is_plugin fs inb dir rel (snd c)"
      then show "\<exists>n rel. Some n \<in> set es \<and> fst c = dir @ n # rel \<and> (rel = [] \<or> listed fs (dir @ [n]) rel)
          \<and> d + length rel \<le> MAX_SCAN_DEPTH \<and> is_plugin fs inb dir (n # rel) (snd c)"
        using Some by (cases rel) (simp_all del: read_dir.simps)
    qed
  qed
next
  case (2 fs dir d inb) then show ?case by simp
next
  case (3 fs dir d inb es)
  then show ?case by (simp add: case_prod_beta)
next
  case (4 fs dir d inb n es)
  let ?p = "dir @ [n]" and ?v = "inb \<or> suffix ''.vst3'' n"
  have es: "c \<in> set (fst (walk_entries fs dir d inb es)) \<longleftrightarrow>
     (\<exists>m rel. Some m \<in> set es \<and> fst c = dir @ m # rel \<and> (rel = [] \<or> listed fs (dir @ [m]) rel)
        \<and> d + length rel \<le> MAX_SCAN_DEPTH \<and> is_plugin fs inb dir (m # rel) (snd c))"
    by (rule 4(2) [OF refl refl prod.collapse 4(3)])
  have ih: "c \<in> set (fst (walk fs ?p (Suc d) ?v)) \<longleftrightarrow>
     (\<exists>rel. fst c = ?p @ rel \<and> listed fs ?p rel \<and> Suc d + length rel \<le> Suc MAX_SCAN_DEPTH
        \<and> is_plugin fs ?v ?p rel (snd c))" if "is_dir fs ?p" "d < MAX_SCAN_DEPTH"
    using 4(1) [OF refl that(1) refl refl prod.collapse that(2)] that(2) by simp
  have nil: "\<not> listed fs ?p []" by simp
  have sub: "is_dir fs ?p \<and> d < MAX_SCAN_DEPTH \<and> c \<in> set (fst (walk fs ?p (Suc d) ?v)) \<longleftrightarrow>
     (\<exists>rel. rel \<noteq> [] \<and> fst c = dir @ n # rel \<and> listed fs ?p rel \<and> d + length rel \<le> MAX_SCAN_DEPTH
        \<and> is_plugin fs inb dir (n # rel) (snd c))" (is "?l \<longleftrightarrow> (\<exists>rel. ?r rel)")
  proof
    assume l: ?l
    with ih obtain rel where r: "fst c = ?p @ rel" "listed fs ?p rel" "Suc d + length rel \<le> Suc MAX_SCAN_DEPTH"
      "is_plugin fs ?v ?p rel (snd c)" by blast
    with nil have "rel \<noteq> []" by blast
    with r is_plugin_Cons [OF this] show "\<exists>rel. ?r rel" by (intro exI [of _ rel]) simp
  next
    assume "\<exists>rel. ?r rel"
    then obtain rel where r: "rel \<noteq> []" "fst c = dir @ n # rel" "listed fs ?p rel"
      "d + length rel \<le> MAX_SCAN_DEPTH" "is_plugin fs inb dir (n # rel) (snd c)" by blast
    then have "is_dir fs ?p" "d < MAX_SCAN_DEPTH" by (auto dest: listed_is_dir simp: Suc_le_eq neq_Nil_conv)
    with r ih is_plugin_Cons [OF r(1)] show ?l by auto
  qed
  show ?case unfolding walk_entries_mem Let_def es sub
    using 4(3) by (auto simp del: listed.simps)
qed

text \<open>
  The walk finds exactly the plugins below a root: directories named \<open>*.vst3\<close> with a
  binary in one of their architecture directories, and loose \<open>.so\<close> and \<open>.clap\<close> files outside
  every bundle, at most four levels down, along directories that can be read, whatever the
  entries beside them, the unreadable ones included, are.
\<close>

lemma walk_finds_plugins:
  "(p, format) \<in> set (fst (walk fs root 0 False)) \<longleftrightarrow>
     (\<exists>rel. p = root @ rel \<and> listed fs root rel \<and> length rel \<le> Suc MAX_SCAN_DEPTH
        \<and> is_plugin fs False root rel format)"
  by (subst walk_spec) simp_all

section \<open>What the scan reports\<close>

definition readable_candidate :: "fs \<Rightarrow> candidate \<Rightarrow> bool" where
  "readable_candidate fs c \<longleftrightarrow> fs (fst c) \<noteq> Some (FileN 0)"

definition ids_ok :: "string list \<Rightarrow> ScanReport \<Rightarrow> bool" where
  "ids_ok seen r \<longleftrightarrow> distinct (map pd_id (sr_plugins r)) \<and> set seen = pd_id ` set (sr_plugins r)"

lemma inspect_Inr:
  "inspect_candidate fs canon c = Inr d \<Longrightarrow>
     readable_candidate fs c \<and> pd_id d = descriptor_id canon (snd c) (fst c) \<and> pd_path d = fst c"
  by (auto simp: inspect_candidate_def readable_candidate_def Let_def split: prod.splits if_splits)

lemma inspect_Inl: "inspect_candidate fs canon c = Inl e \<Longrightarrow> \<not> readable_candidate fs c"
  by (auto simp: inspect_candidate_def readable_candidate_def Let_def split: prod.splits if_splits)

lemma image_pairs:
  "(\<lambda>c. f (snd c) (fst c)) ` {c. P (fst c) \<and> Q c} = {f b a | a b. P a \<and> Q (a, b)}"
  by (auto simp: image_iff) force+

lemma scan_candidates_ids:
  assumes "ids_ok seen r" "scan_candidates fs canon cs seen r = (seen', r')"
  shows "ids_ok seen' r' \<and> set seen' = set seen \<union>
    (\<lambda>c. descriptor_id canon (snd c) (fst c)) ` {c \<in> set cs. readable_candidate fs c}"
  using assms
proof (induction cs arbitrary: seen r)
  case (Cons c cs)
  show ?case
  proof (cases "descriptor_id canon (snd c) (fst c) \<in> set seen")
    case True
    then show ?thesis using Cons.IH [of seen r] Cons.prems by auto
  next
    case new: False
    show ?thesis
    proof (cases "inspect_candidate fs canon c")
      case (Inl e)
      have "ids_ok seen (r\<lparr>sr_errors := sr_errors r @ [e]\<rparr>)" using Cons.prems(1) by (simp add: ids_ok_def)
      moreover have "{x \<in> set (c # cs). readable_candidate fs x} = {x \<in> set cs. readable_candidate fs x}"
        using inspect_Inl [OF Inl] by auto
      ultimately show ?thesis using Cons.IH Cons.prems(2) new Inl by simp
    next
      case (Inr d)
      note d = inspect_Inr [OF Inr]
      have "ids_ok (pd_id d # seen) (r\<lparr>sr_plugins := sr_plugins r @ [d]\<rparr>)"
        using Cons.prems(1) new d by (auto simp: ids_ok_def)
      from Cons.IH [OF this] show ?thesis using Cons.prems(2) new Inr d by auto
    qed
  qed
qed simp

lemma scan_roots_ids:
  assumes "ids_ok seen r" "scan_roots fs canon ps seen r = (seen', r')"
  shows "ids_ok seen' r' \<and> set seen' = set seen \<union>
    (\<lambda>c. descriptor_id canon (snd c) (fst c)) `
      {c. readable_candidate fs c \<and> (\<exists>root \<in> set ps. fs root \<noteq> None \<and> c \<in> set (fst (walk fs root 0 False)))}"
  using assms
proof (induction ps arbitrary: seen r)
  case (Cons p ps)
  show ?case
  proof (cases "fs p")
    case None
    then show ?thesis using Cons.IH [of seen r] Cons.prems by auto
  next
    case (Some node)
    obtain cs es where w: "walk fs p 0 False = (cs, es)" by fastforce
    obtain s1 r1 where c: "scan_candidates fs canon cs seen (r\<lparr>sr_errors := sr_errors r @ es\<rparr>) = (s1, r1)"
      by fastforce
    have "ids_ok seen (r\<lparr>sr_errors := sr_errors r @ es\<rparr>)" using Cons.prems(1) by (simp add: ids_ok_def)
    from scan_candidates_ids [OF this c] have k: "ids_ok s1 r1" "set s1 = set seen \<union>
      (\<lambda>c. descriptor_id canon (snd c) (fst c)) ` {c \<in> set cs. readable_candidate fs c}" by simp_all
    have "scan_roots fs canon ps s1 r1 = (seen', r')"
      using Cons.prems(2) Some w c by (simp del: walk.simps)
    from Cons.IH [OF k(1) this] have i: "ids_ok seen' r'" "set seen' = set s1 \<union>
      (\<lambda>c. descriptor_id canon (snd c) (fst c)) `
        {c. readable_candidate fs c \<and> (\<exists>root \<in> set ps. fs root \<noteq> None \<and> c \<in> set (fst (walk fs root 0 False)))}"
      by simp_all
    have "{c. readable_candidate fs c \<and> (\<exists>root \<in> set (p # ps). fs root \<noteq> None \<and> c \<in> set (fst (walk fs root 0 False)))}
      = {c \<in> set cs. readable_candidate fs c} \<union>
        {c. readable_candidate fs c \<and> (\<exists>root \<in> set ps. fs root \<noteq> None \<and> c \<in> set (fst (walk fs root 0 False)))}"
      using Some w by (auto simp del: walk.simps)
    with i k(2) show ?thesis by (simp only: image_Un Un_assoc simp_thms)
  qed
qed simp

lemma scan_paths_walk:
  "let plugins = sr_plugins (scan_paths fs canon lower roots)
   in distinct (map pd_id plugins)
     \<and> sorted (map (\<lambda>d. (lower (pd_name d), pd_id d)) plugins)
     \<and> pd_id ` set plugins = {descriptor_id canon format p | p format.
          fs p \<noteq> Some (FileN 0) \<and> (\<exists>root \<in> set roots. fs root \<noteq> None
            \<and> (p, format) \<in> set (fst (walk fs root 0 False)))}"
proof -
  let ?r0 = "\<lparr> sr_plugins = [], sr_errors = [] \<rparr> :: ScanReport"
  obtain seen r where s: "scan_roots fs canon roots [] ?r0 = (seen, r)" by fastforce
  have "ids_ok [] ?r0" by (simp add: ids_ok_def)
  from scan_roots_ids [OF this s] have k: "ids_ok seen r" "set seen =
    (\<lambda>c. descriptor_id canon (snd c) (fst c)) `
      {c. readable_candidate fs c \<and> (\<exists>root \<in> set roots. fs root \<noteq> None \<and> c \<in> set (fst (walk fs root 0 False)))}"
    by simp_all
  let ?k = "\<lambda>d. (lower (pd_name d), pd_id d)"
  have p: "sr_plugins (scan_paths fs canon lower roots) = sort_key ?k (sr_plugins r)"
    by (simp add: scan_paths_def s)
  have "distinct (map pd_id (sort_key ?k (sr_plugins r)))"
    using k(1) by (simp add: ids_ok_def distinct_map)
  moreover have "pd_id ` set (sr_plugins r) = {descriptor_id canon format p | p format.
          fs p \<noteq> Some (FileN 0) \<and> (\<exists>root \<in> set roots. fs root \<noteq> None
            \<and> (p, format) \<in> set (fst (walk fs root 0 False)))}"
  proof -
    have "pd_id ` set (sr_plugins r) = set seen" using k(1) by (simp add: ids_ok_def)
    then show ?thesis unfolding k(2) readable_candidate_def by (rule trans [OF _ image_pairs])
  qed
  ultimately show ?thesis unfolding Let_def p by simp
qed

text \<open>
  C14. A scan lists every plugin that lies below one of its roots once, and nothing else: the descriptors
  have distinct identifiers, those of the \<open>.vst3\<close> directories with a binary and the loose \<open>.so\<close> and \<open>.clap\<close> files
  outside them that can be reached from a root through at most four names along directories that can be
  read, empty files left out; they are in the order of their names without regard to case, then of their
  identifiers.
\<close>

theorem scan_paths_spec:
  "let plugins = sr_plugins (scan_paths fs canon lower roots)
   in distinct (map pd_id plugins)
     \<and> sorted (map (\<lambda>d. (lower (pd_name d), pd_id d)) plugins)
     \<and> pd_id ` set plugins = {descriptor_id canon format (root @ rel) | root rel format.
          root \<in> set roots \<and> fs root \<noteq> None \<and> listed fs root rel \<and> length rel \<le> 4
          \<and> is_plugin fs False root rel format \<and> fs (root @ rel) \<noteq> Some (FileN 0)}"
proof -
  have "{descriptor_id canon format p | p format. fs p \<noteq> Some (FileN 0)
        \<and> (\<exists>root \<in> set roots. fs root \<noteq> None \<and> (p, format) \<in> set (fst (walk fs root 0 False)))}
    = {descriptor_id canon format (root @ rel) | root rel format.
          root \<in> set roots \<and> fs root \<noteq> None \<and> listed fs root rel \<and> length rel \<le> 4
          \<and> is_plugin fs False root rel format \<and> fs (root @ rel) \<noteq> Some (FileN 0)}"
    unfolding walk_finds_plugins MAX_SCAN_DEPTH_def by (rule set_eqI) (auto; metis)
  then show ?thesis using scan_paths_walk [of fs canon lower roots] by (simp only: Let_def)
qed

definition demo_fs :: fs where
  "demo_fs = map_of
     [([''u'', ''.vst3''], DirN (Some [Some ''Foo.vst3''])),
      ([''u'', ''.vst3'', ''Foo.vst3''], DirN (Some [Some ''Contents''])),
      ([''u'', ''.vst3'', ''Foo.vst3'', ''Contents''], DirN (Some [Some ''x''])),
      ([''u'', ''.vst3'', ''Foo.vst3'', ''Contents'', ''x''], DirN (Some [Some ''Foo.so''])),
      ([''u'', ''.vst3'', ''Foo.vst3'', ''Contents'', ''x'', ''Foo.so''], FileN 9),
      ([''usr'', ''lib'', ''vst3''], DirN (Some [None, Some ''Foo.vst3'', Some ''Bad.vst3''])),
      ([''usr'', ''lib'', ''vst3'', ''Bad.vst3''], DirN None),
      ([''usr'', ''lib'', ''vst3'', ''Foo.vst3''], DirN (Some [Some ''Contents''])),
      ([''usr'', ''lib'', ''vst3'', ''Foo.vst3'', ''Contents''], DirN (Some [Some ''x''])),
      ([''usr'', ''lib'', ''vst3'', ''Foo.vst3'', ''Contents'', ''x''], DirN (Some [Some ''Foo.so''])),
      ([''usr'', ''lib'', ''vst3'', ''Foo.vst3'', ''Contents'', ''x'', ''Foo.so''], FileN 9)]"

lemma user_copy_does_not_replace:
  "let r = scan_paths demo_fs (\<lambda>p. p) (\<lambda>n. n) (standard_search_paths (Some [''u'']))
   in map (\<lambda>d. (pd_name d, pd_path d)) (sr_plugins r)
        = [(''Foo'', [''u'', ''.vst3'', ''Foo.vst3'']), (''Foo'', [''usr'', ''lib'', ''vst3'', ''Foo.vst3''])]
      \<and> sr_errors r = [([''usr'', ''lib'', ''vst3''], UnreadableEntry),
          ([''usr'', ''lib'', ''vst3'', ''Bad.vst3''], EmptyBundle),
          ([''usr'', ''lib'', ''vst3'', ''Bad.vst3''], ReadDir)]"
  by code_simp

end
