(* ===== verification/PluginChain.thy ===== *)
theory PluginChain
  imports TapRegistry PluginScan
begin

text \<open>
  The effect chains of the engine: \<open>DspPluginNode\<close> of crates/hikaru_dsp/src/plugin_node.rs
  and the operations of \<open>AudioEngine\<close> (crates/hikaru_audio_engine/src/lib.rs) that load,
  remove, move and drive external plugins, with the global tap registry they keep in step.
  A plugin instance is code that is not in the repository: its type and the functions that
  load it, process a block, set its rate and its parameters are parameters.  Taps are shared
  (\<open>Arc\<close>), so a node and the registry hold an address in a heap of taps.
\<close>

section \<open>State\<close>

datatype PluginCategory = Vst3Generator | Vst3Fx | ClapGenerator | ClapFx

record 'i DspPluginNode =
  pn_name :: string
  pn_category :: PluginCategory
  pn_instance :: 'i
  pn_is_active :: bool
  pn_tap :: "nat option"

record 'i ChainState =
  cs_effects :: "'i DspPluginNode list list"
  cs_registry :: "nat registry"
  cs_taps :: "PluginTap list"
  cs_sample_rate :: f32

definition MAX_BLOCK_FRAMES :: usize where "MAX_BLOCK_FRAMES = 4096"

definition node_new :: "string \<Rightarrow> PluginCategory \<Rightarrow> 'i \<Rightarrow> 'i DspPluginNode" where
  "node_new name category inst = \<lparr>
     pn_name = name, pn_category = category, pn_instance = inst, pn_is_active = True, pn_tap = None \<rparr>"

definition set_tap :: "'i DspPluginNode \<Rightarrow> nat option \<Rightarrow> 'i DspPluginNode" where
  "set_tap n tap = n\<lparr>pn_tap := tap\<rparr>"

definition chains_new :: "f32 \<Rightarrow> 'i ChainState" where
  "chains_new sr = \<lparr> cs_effects = replicate 16 [], cs_registry = [], cs_taps = [],
     cs_sample_rate = sr \<rparr>"

section \<open>Operations\<close>

datatype load_error = TrackOutOfRange usize | LoadVst3 string | LoadClap string

text \<open>
  \<open>load_external_plugin\<close>: \<open>load\<close> is the loader of the descriptor's format, \<open>set_sr\<close> the
  instance's \<open>set_sample_rate\<close>.  The early return on a failed load comes after the registry
  and the chain have been changed, as in the source.
\<close>

definition load_external_plugin ::
    "(PluginFormat \<Rightarrow> path \<Rightarrow> string + 'i) \<Rightarrow> (f32 \<Rightarrow> 'i \<Rightarrow> 'i) \<Rightarrow>
     'i ChainState \<Rightarrow> usize \<Rightarrow> usize \<Rightarrow> PluginDescriptor \<Rightarrow> (load_error + unit) \<times> 'i ChainState" where
  "load_external_plugin load set_sr st track slot desc =
     (if 16 \<le> track then (Inl (TrackOutOfRange track), st)
      else let rg = unregister (track, slot) (cs_registry st);
               chain = cs_effects st ! unat track;
               chain = (if slot < vlen chain then remove_at (unat slot) chain else chain);
               st = st\<lparr>cs_registry := rg, cs_effects := (cs_effects st)[unat track := chain]\<rparr>
           in case load (pd_format desc) (pd_path desc) of
                Inl e \<Rightarrow> (Inl (case pd_format desc of VST3 \<Rightarrow> LoadVst3 e | CLAP \<Rightarrow> LoadClap e), st)
              | Inr inst \<Rightarrow>
                  let inst = set_sr (cs_sample_rate st) inst;
                      category = (case pd_format desc of VST3 \<Rightarrow> Vst3Fx | CLAP \<Rightarrow> ClapFx);
                      node = node_new (pd_name desc) category inst;
                      tap = length (cs_taps st);
                      taps = cs_taps st @ [tap_new (cs_sample_rate st) MAX_BLOCK_FRAMES];
                      rg = register (track, slot) tap (cs_registry st);
                      node = set_tap node (Some tap);
                      chain = insert_at (unat (min slot (vlen chain))) node chain
                  in (Inr (), st\<lparr>cs_registry := rg, cs_taps := taps,
                                cs_effects := (cs_effects st)[unat track := chain]\<rparr>))"

definition remove_external_plugin :: "'i ChainState \<Rightarrow> usize \<Rightarrow> usize \<Rightarrow> 'i ChainState" where
  "remove_external_plugin st track slot =
     (let st = st\<lparr>cs_registry := unregister (track, slot) (cs_registry st)\<rparr>
      in if track < 16 \<and> slot < vlen (cs_effects st ! unat track)
         then st\<lparr>cs_effects := (cs_effects st)
                [unat track := remove_at (unat slot) (cs_effects st ! unat track)]\<rparr>
         else st)"

text \<open>The loop that registers the taps of a chain again, one per slot.\<close>

definition register_chain :: "usize \<Rightarrow> 'i DspPluginNode list \<Rightarrow> nat registry \<Rightarrow> nat registry" where
  "register_chain track chain rg =
     fold (\<lambda>(i, tap) rg. case tap of None \<Rightarrow> rg | Some v \<Rightarrow> register (track, word_of_nat i) v rg)
       (zip [0..<length chain] (map pn_tap chain)) rg"

definition move_external_plugin ::
    "'i ChainState \<Rightarrow> usize \<Rightarrow> usize \<Rightarrow> usize \<Rightarrow> usize \<Rightarrow> bool \<times> 'i ChainState" where
  "move_external_plugin st from_track from_slot to_track to_slot =
     (if 16 \<le> from_track \<or> 16 \<le> to_track then (False, st)
      else if vlen (cs_effects st ! unat from_track) \<le> from_slot then (False, st)
      else let rg = unregister (from_track, from_slot) (cs_registry st);
               src = cs_effects st ! unat from_track;
               node = src ! unat from_slot;
               src = remove_at (unat from_slot) src;
               effects = (cs_effects st)[unat from_track := src];
               rg = unregister (from_track, vlen src) rg;
               rg = register_chain from_track src rg;
               dst = effects ! unat to_track;
               dst = insert_at (unat (min to_slot (vlen dst))) node dst;
               effects = effects[unat to_track := dst];
               rg = register_chain to_track dst rg
           in (True, st\<lparr>cs_registry := rg, cs_effects := effects\<rparr>))"

text \<open>\<open>apply_params_to_instance\<close>: every value is offered, the accepted ones are counted.\<close>

fun apply_params_to_instance ::
    "('i \<Rightarrow> u32 \<Rightarrow> f32 \<Rightarrow> bool \<times> 'i) \<Rightarrow> 'i \<Rightarrow> (u32 \<times> f32) list \<Rightarrow> nat \<times> 'i" where
  "apply_params_to_instance set_param inst [] = (0, inst)"
| "apply_params_to_instance set_param inst ((i, v) # ps) =
     (let (accepted, inst) = set_param inst i v;
          (n, inst) = apply_params_to_instance set_param inst ps
      in ((if accepted then Suc n else n), inst))"

definition update_node ::
    "'i ChainState \<Rightarrow> usize \<Rightarrow> usize \<Rightarrow> ('i DspPluginNode \<Rightarrow> 'i DspPluginNode) \<Rightarrow> 'i ChainState" where
  "update_node st track slot f =
     (if track < 16 \<and> slot < vlen (cs_effects st ! unat track)
      then st\<lparr>cs_effects := (cs_effects st)[unat track :=
             (cs_effects st ! unat track)[unat slot := f (cs_effects st ! unat track ! unat slot)]]\<rparr>
      else st)"

definition set_external_plugin_param ::
    "('i \<Rightarrow> u32 \<Rightarrow> f32 \<Rightarrow> bool \<times> 'i) \<Rightarrow> 'i ChainState \<Rightarrow> usize \<Rightarrow> usize \<Rightarrow> u32 \<Rightarrow> f32
      \<Rightarrow> 'i ChainState" where
  "set_external_plugin_param set_param st track slot param value =
     update_node st track slot (\<lambda>n. n\<lparr>pn_instance := snd (set_param (pn_instance n) param value)\<rparr>)"

definition sync_external_plugin_params ::
    "('i \<Rightarrow> u32 \<Rightarrow> f32 \<Rightarrow> bool \<times> 'i) \<Rightarrow> 'i ChainState \<Rightarrow> usize \<Rightarrow> usize \<Rightarrow> (u32 \<times> f32) list
      \<Rightarrow> 'i ChainState" where
  "sync_external_plugin_params set_param st track slot params =
     update_node st track slot
       (\<lambda>n. n\<lparr>pn_instance := snd (apply_params_to_instance set_param (pn_instance n) params)\<rparr>)"

text \<open>\<open>DspPluginNode::process\<close>: the instance rewrites the block, then the tap publishes it.\<close>

definition node_process ::
    "('i \<Rightarrow> f32 list \<Rightarrow> f32 list \<times> 'i) \<Rightarrow> 'i DspPluginNode \<Rightarrow> f32 list \<Rightarrow> PluginTap list
      \<Rightarrow> 'i DspPluginNode \<times> f32 list \<times> PluginTap list" where
  "node_process run n buf taps =
     (if \<not> pn_is_active n then (n, buf, taps)
      else let (buf, inst) = run (pn_instance n) buf;
               taps = (case pn_tap n of None \<Rightarrow> taps | Some a \<Rightarrow> taps[a := publish (taps ! a) buf])
           in (n\<lparr>pn_instance := inst\<rparr>, buf, taps))"

fun chain_process ::
    "('i \<Rightarrow> f32 list \<Rightarrow> f32 list \<times> 'i) \<Rightarrow> 'i DspPluginNode list \<Rightarrow> f32 list \<Rightarrow> PluginTap list
      \<Rightarrow> 'i DspPluginNode list \<times> f32 list \<times> PluginTap list" where
  "chain_process run [] buf taps = ([], buf, taps)"
| "chain_process run (n # ns) buf taps =
     (let (n, buf, taps) = (if pn_is_active n then node_process run n buf taps else (n, buf, taps));
          (ns, buf, taps) = chain_process run ns buf taps
      in (n # ns, buf, taps))"

definition chains_set_sample_rate ::
    "(f32 \<Rightarrow> 'i \<Rightarrow> 'i) \<Rightarrow> 'i ChainState \<Rightarrow> f32 \<Rightarrow> 'i ChainState" where
  "chains_set_sample_rate set_sr st new_sr =
     (let nodes = concat (cs_effects st);
          taps = fold (\<lambda>n taps. case pn_tap n of None \<Rightarrow> taps
                   | Some a \<Rightarrow> taps[a := tap_set_sample_rate (taps ! a) new_sr]) nodes (cs_taps st)
      in st\<lparr>cs_sample_rate := new_sr, cs_taps := taps,
            cs_effects := map (map (\<lambda>n. n\<lparr>pn_instance := set_sr new_sr (pn_instance n)\<rparr>)) (cs_effects st)\<rparr>)"

section \<open>The registry agrees with the chains\<close>

text \<open>
  A slot is registered exactly when the chain of its track has a node there, and then with
  the tap of that node.
\<close>

definition chain_tap :: "'i DspPluginNode list \<Rightarrow> usize \<Rightarrow> nat option" where
  "chain_tap chain slot = (if unat slot < length chain then pn_tap (chain ! unat slot) else None)"

definition taps_agree :: "'i ChainState \<Rightarrow> bool" where
  "taps_agree st \<longleftrightarrow> length (cs_effects st) = 16
     \<and> (\<forall>chain \<in> set (cs_effects st). vec_ok chain \<and> (\<forall>n \<in> set chain. pn_tap n \<noteq> None))
     \<and> (\<forall>track slot. lookup (track, slot) (cs_registry st)
          = (if track < 16 then chain_tap (cs_effects st ! unat track) slot else None))"

lemma lookup_register_chain:
  assumes "vec_ok chain" "\<forall>n \<in> set chain. pn_tap n \<noteq> None"
  shows "lookup (t, s) (register_chain track chain rg)
    = (if t = track \<and> unat s < length chain then chain_tap chain s else lookup (t, s) rg)"
proof -
  define ns where "ns = zip [0..<length chain] (map pn_tap chain)"
  define key where "key i = (track, word_of_nat i :: usize)" for i
  have rc: "register_chain track chain rg = taps.reg_slots key ns rg"
    by (simp add: register_chain_def taps.reg_slots_def ns_def key_def [abs_def])
  have small: "i < length chain \<Longrightarrow> unat (word_of_nat i :: usize) = i" for i
    using assms(1) by (simp add: unat_of_nat vec_ok_def)
  have mem: "(i, v) \<in> set ns \<longleftrightarrow> i < length chain \<and> v = pn_tap (chain ! i)" for i v
    by (auto simp: ns_def in_set_zip intro!: exI [of _ i])
  show ?thesis
  proof (cases "t = track \<and> unat s < length chain")
    case True
    have k: "key (unat s) = (t, s)" using True by (simp add: key_def)
    have "inj_on key (fst ` set ns)"
      using small by (auto simp: inj_on_def key_def mem) metis
    moreover have "distinct (map fst ns)" by (simp add: ns_def)
    moreover have "(unat s, pn_tap (chain ! unat s)) \<in> set ns" using True by (simp add: mem)
    ultimately have "lookup (key (unat s)) (taps.reg_slots key ns rg)
        = (case pn_tap (chain ! unat s) of None \<Rightarrow> lookup (key (unat s)) rg | Some v \<Rightarrow> Some v)"
      by (rule taps.look_reg_slots)
    moreover have "pn_tap (chain ! unat s) \<noteq> None" using assms(2) True by simp
    ultimately show ?thesis using True k by (auto simp: rc chain_tap_def)
  next
    case False
    have "lookup (t, s) (taps.reg_slots key ns rg) = lookup (t, s) rg"
    proof (rule taps.look_reg_slots_other)
      fix i v assume "(i, v) \<in> set ns"
      then show "key i \<noteq> (t, s)" using False small by (auto simp: key_def mem)
    qed
    with False show ?thesis by (auto simp: rc)
  qed
qed


lemma taps_agreeD:
  assumes "taps_agree st"
  shows "length (cs_effects st) = 16"
    and "track < 16 \<Longrightarrow> vec_ok (cs_effects st ! unat track) \<and> (\<forall>n \<in> set (cs_effects st ! unat track). pn_tap n \<noteq> None)"
    and "lookup (track, slot) (cs_registry st)
      = (if track < 16 then chain_tap (cs_effects st ! unat track) slot else None)"
  using assms by (auto simp: taps_agree_def word_less_nat_alt)

lemma set_remove_at: "set (remove_at i xs) \<subseteq> set xs"
  by (auto simp: remove_at_def dest: in_set_takeD in_set_dropD)

lemma set_insert_at: "set (insert_at i x xs) = insert x (set xs)"
proof -
  have "set (take i xs) \<union> set (drop i xs) = set xs" by (metis append_take_drop_id set_append)
  then show ?thesis by (auto simp: insert_at_def)
qed

text \<open>Rebuilding the invariant from one changed chain at a time.\<close>

definition chains_ok :: "'i DspPluginNode list list \<Rightarrow> bool" where
  "chains_ok es \<longleftrightarrow> length es = 16 \<and> (\<forall>chain \<in> set es. vec_ok chain \<and> (\<forall>n \<in> set chain. pn_tap n \<noteq> None))"

definition agree_at :: "'i DspPluginNode list list \<Rightarrow> nat registry \<Rightarrow> usize \<Rightarrow> bool" where
  "agree_at es rg track \<longleftrightarrow> (\<forall>slot. lookup (track, slot) rg
     = (if track < 16 then chain_tap (es ! unat track) slot else None))"

lemma taps_agree_split:
  "taps_agree st \<longleftrightarrow> chains_ok (cs_effects st) \<and> (\<forall>track. agree_at (cs_effects st) (cs_registry st) track)"
  by (simp add: taps_agree_def chains_ok_def agree_at_def)

lemma chains_ok_update:
  "chains_ok es \<Longrightarrow> vec_ok chain \<Longrightarrow> \<forall>n \<in> set chain. pn_tap n \<noteq> None \<Longrightarrow> chains_ok (es[i := chain])"
  using set_update_subset_insert [of es i chain] by (auto simp: chains_ok_def)

lemma agree_at_register_chain:
  assumes es: "chains_ok es" and tr: "track < 16"
    and stale: "\<forall>slot. length (es ! unat track) \<le> unat slot \<longrightarrow> lookup (track, slot) rg = None"
  shows "agree_at es (register_chain track (es ! unat track) rg) track"
    and "t \<noteq> track \<Longrightarrow> agree_at es rg t \<Longrightarrow> agree_at es (register_chain track (es ! unat track) rg) t"
proof -
  have mem: "es ! unat track \<in> set es" using es tr by (simp add: chains_ok_def word_less_nat_alt)
  then have c: "vec_ok (es ! unat track)" "\<forall>n \<in> set (es ! unat track). pn_tap n \<noteq> None"
    using es by (auto simp: chains_ok_def)
  show "agree_at es (register_chain track (es ! unat track) rg) track"
    using stale tr by (auto simp: agree_at_def lookup_register_chain [OF c] chain_tap_def not_less)
  show "t \<noteq> track \<Longrightarrow> agree_at es rg t \<Longrightarrow> agree_at es (register_chain track (es ! unat track) rg) t"
    by (simp add: agree_at_def lookup_register_chain [OF c])
qed

text \<open>
  C13. Moving a plugin between slots and tracks keeps the registry in step with the chains:
  afterwards every slot of every track finds the tap of the node it now holds, and no stale
  slot is left, for every pair of tracks (the same one included) and every target slot.
\<close>

theorem move_external_plugin_agrees:
  assumes ag: "taps_agree st"
    and room: "tt < 16 \<Longrightarrow> length (cs_effects st ! unat tt) + 1 < 2 ^ 62"
  shows "taps_agree (snd (move_external_plugin st ft fs tt ts))"
proof (cases "16 \<le> ft \<or> 16 \<le> tt \<or> vlen (cs_effects st ! unat ft) \<le> fs")
  case True
  then show ?thesis using ag by (auto simp: move_external_plugin_def)
next
  case False
  then have tr: "ft < 16" "tt < 16" by (simp_all add: not_le)
  let ?es = "cs_effects st" and ?rg = "cs_registry st"
  define node where "node = ?es ! unat ft ! unat fs"
  define src where "src = remove_at (unat fs) (?es ! unat ft)"
  define es1 where "es1 = ?es[unat ft := src]"
  define rg1 where "rg1 = unregister (ft, vlen src) (unregister (ft, fs) ?rg)"
  define dst where "dst = insert_at (unat (min ts (vlen (es1 ! unat tt)))) node (es1 ! unat tt)"
  define es2 where "es2 = es1[unat tt := dst]"
  have ok: "chains_ok ?es" and at: "agree_at ?es ?rg t" for t
    using ag by (auto simp: taps_agree_split)
  have u: "unat ft < 16" "unat tt < 16" using tr by (simp_all add: word_less_nat_alt)
  have len: "length ?es = 16" using ok by (simp add: chains_ok_def)
  have cf: "vec_ok (?es ! unat ft)" "\<forall>n \<in> set (?es ! unat ft). pn_tap n \<noteq> None"
    using taps_agreeD(2) [OF ag tr(1)] by auto
  have fs: "unat fs < length (?es ! unat ft)"
    using False cf(1) by (simp add: word_le_nat_alt unat_vlen_ok not_le)
  have ls: "length src = length (?es ! unat ft) - 1" using fs by (simp add: src_def)
  have sv: "vec_ok src" "\<forall>n \<in> set src. pn_tap n \<noteq> None"
    using cf ls set_remove_at [of "unat fs" "?es ! unat ft"] by (auto simp: vec_ok_def src_def)
  have ok1: "chains_ok es1" using ok sv by (simp add: es1_def chains_ok_update)
  have e1: "es1 ! unat ft = src" using u len by (simp add: es1_def)
  have nt: "pn_tap node \<noteq> None" using cf(2) fs by (simp add: node_def)
  have stale1: "lookup (ft, slot) rg1 = None" if "length src \<le> unat slot" for slot
  proof (cases "slot = vlen src")
    case False
    then have "unat slot \<noteq> length src" using unat_vlen_ok [OF sv(1)] by (auto simp: word_eq_nat)
    then have "length (?es ! unat ft) \<le> unat slot" using that ls by linarith
    then have "lookup (ft, slot) ?rg = None" using at [of ft] tr by (simp add: agree_at_def chain_tap_def)
    then show ?thesis by (simp add: rg1_def taps.look_unreg)
  qed (simp add: rg1_def taps.look_unreg)
  have other1: "agree_at es1 rg1 t" if "t \<noteq> ft" for t
    using at [of t] that u
    by (auto simp: agree_at_def rg1_def taps.look_unreg es1_def word_eq_nat)
  define rg2 where "rg2 = register_chain ft src rg1"
  have at2: "agree_at es1 rg2 t" for t
  proof (cases "t = ft")
    case True
    then show ?thesis
      using agree_at_register_chain(1) [OF ok1 tr(1), of rg1] stale1 by (simp add: e1 rg2_def)
  next
    case False
    then show ?thesis
      using agree_at_register_chain(2) [OF ok1 tr(1), of rg1] stale1 other1 by (simp add: e1 rg2_def)
  qed
  have ct: "es1 ! unat tt \<in> set es1" using u len by (simp add: es1_def)
  then have dv0: "vec_ok (es1 ! unat tt)" "\<forall>n \<in> set (es1 ! unat tt). pn_tap n \<noteq> None"
    using ok1 by (auto simp: chains_ok_def)
  have lt: "length (es1 ! unat tt) + 1 < 2 ^ 62"
    using room [OF tr(2)] ls fs u len by (cases "unat tt = unat ft") (auto simp: es1_def)
  have pos: "unat (min ts (vlen (es1 ! unat tt))) \<le> length (es1 ! unat tt)"
    by (simp add: unat_min unat_vlen_ok [OF dv0(1)])
  have ld: "length dst = length (es1 ! unat tt) + 1" using pos by (simp add: dst_def)
  have dv: "vec_ok dst" "\<forall>n \<in> set dst. pn_tap n \<noteq> None"
    using dv0 nt lt ld by (auto simp: dst_def set_insert_at vec_ok_def)
  have ok2: "chains_ok es2" using ok1 dv by (simp add: es2_def chains_ok_update)
  have e2: "es2 ! unat tt = dst" using u len by (simp add: es2_def es1_def)
  have stale2: "lookup (tt, slot) rg2 = None" if "length dst \<le> unat slot" for slot
    using at2 [of tt] that ld tr by (simp add: agree_at_def chain_tap_def)
  have other2: "agree_at es2 rg2 t" if "t \<noteq> tt" for t
    using at2 [of t] that by (auto simp: agree_at_def es2_def word_eq_nat)
  have "agree_at es2 (register_chain tt dst rg2) t" for t
  proof (cases "t = tt")
    case True
    then show ?thesis
      using agree_at_register_chain(1) [OF ok2 tr(2), of rg2] stale2 by (simp add: e2)
  next
    case False
    then show ?thesis
      using agree_at_register_chain(2) [OF ok2 tr(2), of rg2] stale2 other2 by (simp add: e2)
  qed
  moreover have "snd (move_external_plugin st ft fs tt ts)
      = st\<lparr>cs_registry := register_chain tt dst rg2, cs_effects := es2\<rparr>"
    using False
    by (simp add: move_external_plugin_def Let_def es1_def es2_def src_def node_def dst_def rg1_def rg2_def)
  ultimately show ?thesis using ok2 by (simp add: taps_agree_split)
qed



lemma agree_at_other:
  "t \<noteq> track \<Longrightarrow> agree_at (es[unat track := chain]) rg t = agree_at es rg t"
  by (simp add: agree_at_def word_eq_nat)

lemma chain_facts:
  fixes track :: usize
  assumes ag: "taps_agree st" and tr: "track < 16"
  shows "vec_ok (cs_effects st ! unat track)" "\<forall>n \<in> set (cs_effects st ! unat track). pn_tap n \<noteq> None"
    "unat track < length (cs_effects st)" "chains_ok (cs_effects st)"
    "agree_at (cs_effects st) (cs_registry st) t"
    "s < vlen (cs_effects st ! unat track) \<longleftrightarrow> unat s < length (cs_effects st ! unat track)"
proof -
  show v: "vec_ok (cs_effects st ! unat track)" "\<forall>n \<in> set (cs_effects st ! unat track). pn_tap n \<noteq> None"
    using taps_agreeD(2) [OF ag tr] by auto
  show "unat track < length (cs_effects st)" using taps_agreeD(1) [OF ag] tr by (simp add: word_less_nat_alt)
  show "chains_ok (cs_effects st)" "agree_at (cs_effects st) (cs_registry st) t"
    using ag by (auto simp: taps_agree_split)
  show "s < vlen (cs_effects st ! unat track) \<longleftrightarrow> unat s < length (cs_effects st ! unat track)"
    by (simp add: word_less_nat_alt unat_vlen_ok [OF v(1)])
qed

text \<open>
  Removing a plugin keeps the registry in step with the chain exactly when the slot is
  the last one (or empty): the source unregisters the key of the removed slot but does not
  register the plugins that move down again, as its own \<open>move_external_plugin\<close> does.
\<close>

lemma remove_external_plugin_agrees_iff:
  assumes ag: "taps_agree st" and tr: "track < 16"
  shows "taps_agree (remove_external_plugin st track slot) \<longleftrightarrow>
    length (cs_effects st ! unat track) \<le> unat slot + 1"
proof -
  note f = chain_facts [OF ag tr]
  let ?chain = "cs_effects st ! unat track" and ?rg = "unregister (track, slot) (cs_registry st)"
  have look: "lookup (track, s) (cs_registry st) = chain_tap ?chain s" for s
    using f(5) [of track] tr by (simp add: agree_at_def)
  show ?thesis
  proof (cases "unat slot < length ?chain")
    case False
    then have "agree_at (cs_effects st) ?rg t" for t
      using f(5) [of t] look [of slot] tr
      by (cases "t = track") (auto simp: agree_at_def taps.look_unreg chain_tap_def)
    then show ?thesis
      using False tr f(4,6) by (simp add: remove_external_plugin_def Let_def taps_agree_split)
  next
    case True
    let ?new = "remove_at (unat slot) ?chain"
    have st': "remove_external_plugin st track slot
        = st\<lparr>cs_registry := ?rg, cs_effects := (cs_effects st)[unat track := ?new]\<rparr>"
      using True tr f(6) by (simp add: remove_external_plugin_def Let_def)
    have ln: "length ?new = length ?chain - 1" using True by simp
    have e: "(cs_effects st)[unat track := ?new] ! unat track = ?new" using f(3) by simp
    show ?thesis
    proof (cases "unat slot + 1 = length ?chain")
      case last: True
      have new: "?new = take (unat slot) ?chain" using last by (simp add: remove_at_def)
      have "agree_at ((cs_effects st)[unat track := ?new]) ?rg t" for t
      proof (cases "t = track")
        case True
        have "lookup (track, s) ?rg = chain_tap ?new s" for s
        proof (cases "s = slot")
          case False
          then have "unat s \<noteq> unat slot" by (simp add: word_eq_nat)
          then show ?thesis using look [of s] last
            by (auto simp: taps.look_unreg chain_tap_def new False)
        qed (use last in \<open>simp add: taps.look_unreg chain_tap_def new\<close>)
        then show ?thesis using True tr e by (simp add: agree_at_def)
      next
        case False
        then show ?thesis using f(5) [of t] by (simp add: agree_at_other) (simp add: agree_at_def taps.look_unreg)
      qed
      moreover have "chains_ok ((cs_effects st)[unat track := ?new])"
      proof (rule chains_ok_update)
        show "\<forall>n \<in> set ?new. pn_tap n \<noteq> None" using f(2) by (auto simp: new dest: in_set_takeD)
        show "vec_ok ?new" using f(1) ln by (simp add: vec_ok_def)
      qed (rule f(4))
      ultimately show ?thesis using last by (simp add: st' taps_agree_split)
    next
      case False
      with True have s1: "unat slot + 1 < length ?chain" by simp
      have "?new ! unat slot = ?chain ! (unat slot + 1)"
        using s1 by (subst nth_remove_at) simp_all
      then have "chain_tap ?new slot \<noteq> None"
        using f(2) s1 ln by (simp add: chain_tap_def)
      moreover have "lookup (track, slot) ?rg = None" by (simp add: taps.look_unreg)
      ultimately have "\<not> agree_at ((cs_effects st)[unat track := ?new]) ?rg track"
        unfolding agree_at_def e using tr by (metis (lifting))
      then show ?thesis using s1 by (auto simp: st' taps_agree_split)
    qed
  qed
qed

text \<open>
  Loading a plugin keeps the registry in step with the chains when the slot exists or is
  the next free one: the new node is found at its slot, and a plugin it replaces is forgotten.
\<close>

lemma load_external_plugin_agrees:
  assumes ag: "taps_agree st" and tr: "track < 16"
    and slot: "unat slot \<le> length (cs_effects st ! unat track)"
    and room: "length (cs_effects st ! unat track) + 1 < 2 ^ 62"
    and ok: "load (pd_format desc) (pd_path desc) = Inr inst"
  shows "taps_agree (snd (load_external_plugin load set_sr st track slot desc))
    \<and> lookup (track, slot) (cs_registry (snd (load_external_plugin load set_sr st track slot desc)))
        = Some (length (cs_taps st))"
proof -
  note f = chain_facts [OF ag tr]
  let ?chain = "cs_effects st ! unat track"
  define base where "base = (if slot < vlen ?chain then remove_at (unat slot) ?chain else ?chain)"
  have lb: "unat slot \<le> length base" "vec_ok base" "length base + 1 < 2 ^ 62"
    using f(1) f(6) [of slot] slot room by (cases "slot < vlen ?chain"; simp add: base_def vec_ok_def)+
  have nb: "\<forall>n \<in> set base. pn_tap n \<noteq> None"
    using f(2) set_remove_at [of "unat slot" ?chain] by (auto simp: base_def)
  have pos: "unat (min slot (vlen base)) = unat slot"
    unfolding unat_min unat_vlen_ok [OF lb(2)] using lb by simp
  obtain node where nd: "pn_tap node = Some (length (cs_taps st))" and
    st': "snd (load_external_plugin load set_sr st track slot desc) =
      st\<lparr>cs_registry := register (track, slot) (length (cs_taps st)) (unregister (track, slot) (cs_registry st)),
         cs_taps := cs_taps st @ [tap_new (cs_sample_rate st) MAX_BLOCK_FRAMES],
         cs_effects := (cs_effects st)[unat track := insert_at (unat slot) node base]\<rparr>"
  proof
    let ?node = "set_tap (node_new (pd_name desc) (case pd_format desc of VST3 \<Rightarrow> Vst3Fx | CLAP \<Rightarrow> ClapFx)
        (set_sr (cs_sample_rate st) inst)) (Some (length (cs_taps st)))"
    show "pn_tap ?node = Some (length (cs_taps st))" by (simp add: set_tap_def)
    show "snd (load_external_plugin load set_sr st track slot desc) =
      st\<lparr>cs_registry := register (track, slot) (length (cs_taps st)) (unregister (track, slot) (cs_registry st)),
         cs_taps := cs_taps st @ [tap_new (cs_sample_rate st) MAX_BLOCK_FRAMES],
         cs_effects := (cs_effects st)[unat track := insert_at (unat slot) ?node base]\<rparr>"
      using tr f(3) pos
      by (simp add: load_external_plugin_def Let_def ok base_def not_le cong: if_cong)
  qed
  define new where "new = insert_at (unat slot) node base"
  have e: "(cs_effects st)[unat track := new] ! unat track = new" using f(3) by simp
  let ?rg = "register (track, slot) (length (cs_taps st)) (unregister (track, slot) (cs_registry st))"
  have ln: "length new = length base + 1" using lb by (simp add: new_def)
  have tapn: "chain_tap new s = (if s = slot then Some (length (cs_taps st)) else chain_tap ?chain s)" for s
  proof (cases "s = slot")
    case True
    then show ?thesis using lb nd ln by (simp add: chain_tap_def new_def nth_insert_at)
  next
    case False
    then have n: "unat s \<noteq> unat slot" by (simp add: word_eq_nat)
    show ?thesis
    proof (cases "unat slot < length ?chain")
      case True
      then have b: "base = remove_at (unat slot) ?chain" using f(6) by (simp add: base_def)
      have "length new = length ?chain" using ln b True by simp
      moreover have "new ! unat s = ?chain ! unat s" if "unat s < length ?chain"
        using that True n lb
        by (simp add: new_def b nth_insert_at nth_remove_at split: if_splits)
      ultimately show ?thesis using False by (simp add: chain_tap_def)
    next
      case F: False
      then have "base = ?chain" "unat slot = length ?chain" using f(6) slot by (simp_all add: base_def)
      then show ?thesis using n False ln by (auto simp: chain_tap_def new_def nth_insert_at)
    qed
  qed
  have "agree_at ((cs_effects st)[unat track := new]) ?rg t" for t
  proof (cases "t = track")
    case True
    then show ?thesis using tr e tapn f(5) [of track]
      by (simp add: agree_at_def taps.look_reg taps.look_unreg)
  next
    case False
    then show ?thesis using f(5) [of t]
      by (simp add: agree_at_other) (simp add: agree_at_def taps.look_reg taps.look_unreg)
  qed
  moreover have "chains_ok ((cs_effects st)[unat track := new])"
    using f(4) nb nd lb ln by (intro chains_ok_update) (auto simp: new_def set_insert_at vec_ok_def)
  ultimately show ?thesis by (simp add: st' taps_agree_split new_def taps.look_reg)
qed


section \<open>The hypotheses can be met\<close>

definition demo_node :: "nat \<Rightarrow> unit DspPluginNode" where
  "demo_node a = set_tap (node_new ''Vital'' Vst3Fx ()) (Some a)"

definition demo_chains :: "unit ChainState" where
  "demo_chains = (chains_new (Num 48000))\<lparr>
     cs_effects := (replicate 16 [])[0 := [demo_node 0, demo_node 1]],
     cs_registry := [((0, 0), 0), ((0, 1), 1)],
     cs_taps := [tap_new (Num 48000) MAX_BLOCK_FRAMES, tap_new (Num 48000) MAX_BLOCK_FRAMES]\<rparr>"

lemma demo_chains_agree: "taps_agree demo_chains"
proof -
  have es: "cs_effects demo_chains ! unat t = (if t = 0 then [demo_node 0, demo_node 1] else [])"
    if "t < 16" for t :: usize
  proof -
    have "unat t < 16" using that by (simp add: word_less_nat_alt)
    then show ?thesis by (simp add: demo_chains_def nth_list_update word_eq_nat [of t 0])
  qed
  have tp: "chain_tap [demo_node 0, demo_node 1] s = (if s = 0 then Some 0 else if s = 1 then Some 1 else None)"
    for s
  proof -
    have "unat s < 2 \<longleftrightarrow> s = 0 \<or> s = 1" by (auto simp: word_eq_nat)
    then show ?thesis by (auto simp: chain_tap_def demo_node_def set_tap_def)
  qed
  have "set (cs_effects demo_chains) \<subseteq> {[demo_node 0, demo_node 1], []}"
    using set_update_subset_insert [of "replicate 16 []" 0 "[demo_node 0, demo_node 1]"]
    by (auto simp: demo_chains_def)
  moreover have "vec_ok [demo_node 0, demo_node 1]" "vec_ok ([] :: unit DspPluginNode list)"
    "\<forall>n \<in> set [demo_node 0, demo_node 1]. pn_tap n \<noteq> None"
    by (simp_all add: vec_ok_def demo_node_def set_tap_def)
  ultimately have "\<forall>chain \<in> set (cs_effects demo_chains). vec_ok chain \<and> (\<forall>n \<in> set chain. pn_tap n \<noteq> None)"
    by fastforce
  moreover have "lookup (t, s) (cs_registry demo_chains)
      = (if t < 16 then chain_tap (cs_effects demo_chains ! unat t) s else None)" for t s
    using es [of t] tp by (auto simp: lookup_map_of demo_chains_def) (auto simp: chain_tap_def)
  ultimately show ?thesis by (simp add: taps_agree_def demo_chains_def)
qed

theorem move_external_plugin_agrees_witness:
  "fst (move_external_plugin demo_chains 0 0 3 9) \<and> taps_agree (snd (move_external_plugin demo_chains 0 0 3 9))"
  using move_external_plugin_agrees [OF demo_chains_agree, of 3 0 0 9]
  by (simp add: demo_chains_def move_external_plugin_def Let_def vlen_def)

lemma remove_external_plugin_agrees_iff_witness:
  "taps_agree demo_chains \<and> \<not> taps_agree (remove_external_plugin demo_chains 0 0)
   \<and> taps_agree (remove_external_plugin demo_chains 0 1)"
  using remove_external_plugin_agrees_iff [OF demo_chains_agree, of 0] demo_chains_agree
  by (simp add: demo_chains_def)

lemma load_external_plugin_agrees_witness:
  "lookup (0, 2) (cs_registry (snd (load_external_plugin (\<lambda>_ _. Inr ()) (\<lambda>_ i. i) demo_chains 0 2
      \<lparr> pd_id = ''clap:/surge.clap'', pd_name = ''Surge'', pd_vendor = [], pd_path = [''surge.clap''],
        pd_format = CLAP, pd_kind = Effect, pd_has_gui = False, pd_input_channels = None \<rparr>))) = Some 2"
  using load_external_plugin_agrees [OF demo_chains_agree, of 0 2 "\<lambda>_ _. Inr ()"]
  by (simp add: demo_chains_def)

end
