(* ===== verification/Engine.thy ===== *)
theory Engine
  imports EngineClip DmsVoices Preview PluginChain
begin

text \<open>
  The state of the audio engine and its control operations
  (\<open>AudioEngine\<close> of crates/hikaru_audio_engine/src/lib.rs): mixer, clips, transport, launching
  of pads and scenes, drum pads.  The render callback is in \<open>EngineProcess\<close>.  The fields
  \<open>matrix\<close>, \<open>main_filter\<close> and \<open>oscillator\<close> are built by the constructor and read by no
  operation modelled here; \<open>track_output_bufs\<close> is cleared at the start of every block, so it
  is local to the callback.  Atomic cells hold their value; \<open>f32\<close> bits hold the \<open>f32\<close>.
\<close>

section \<open>State\<close>

datatype EngineMode = OpenLive | OpenStudio

record MidiNoteInstance =
  mn_start_tick :: u64
  mn_pitch :: u8
  mn_velocity :: u8
  mn_duration_ticks :: u32

record MidiClipInstance =
  mc_track_index :: usize
  mc_scene_index :: usize
  mc_notes :: "MidiNoteInstance list"
  mc_is_playing :: bool

record 'i AudioEngine =
  en_transport :: TransportPosition
  en_mode :: EngineMode
  en_sample_rate :: f32
  en_clips :: "AudioClipInstance list"
  en_preview :: PreviewPlayer
  en_position_clock :: u64
  en_absolute_clock :: u64
  en_absolute_frame :: u64
  en_output_level :: f32
  en_track_peaks :: "f32 list"
  en_track_volumes :: "f32 list"
  en_track_pans :: "f32 list"
  en_track_mutes :: "bool list"
  en_track_solos :: "bool list"
  en_master_gain :: f32
  en_midi_clips :: "MidiClipInstance list"
  en_voice_pool :: DmsVoicePool
  en_heap :: heap
  en_next_addr :: nat
  en_dms_samples :: "nat option list"
  en_dms_channels :: "usize list"
  en_dms_track_idx :: usize
  en_chains :: "'i ChainState"

definition engine_with_clocks :: "f32 \<Rightarrow> u64 \<Rightarrow> u64 \<Rightarrow> 'i AudioEngine" where
  "engine_with_clocks sr position_clock absolute_clock = \<lparr>
     en_transport = transport_new sr (Num 128), en_mode = OpenStudio, en_sample_rate = sr,
     en_clips = [], en_preview = preview_player_new, en_position_clock = position_clock,
     en_absolute_clock = absolute_clock, en_absolute_frame = 0, en_output_level = Num 0,
     en_track_peaks = replicate 16 (Num 0), en_track_volumes = replicate 16 (Num (3 / 4)),
     en_track_pans = replicate 16 (Num 0), en_track_mutes = replicate 16 False,
     en_track_solos = replicate 16 False, en_master_gain = Num (3 / 4), en_midi_clips = [],
     en_voice_pool = pool_new, en_heap = (\<lambda>_. None), en_next_addr = 0, en_dms_samples = [],
     en_dms_channels = [], en_dms_track_idx = 0, en_chains = chains_new sr \<rparr>"

section \<open>Mixer\<close>

definition output_peak :: "'i AudioEngine \<Rightarrow> f32" where
  "output_peak e = en_output_level e"

definition track_peak :: "'i AudioEngine \<Rightarrow> usize \<Rightarrow> f32" where
  "track_peak e t = (if t < 16 then en_track_peaks e ! unat t else Num 0)"

definition output_db :: "(f32 \<Rightarrow> f32) \<Rightarrow> 'i AudioEngine \<Rightarrow> f32" where
  "output_db log10 e =
     (let peak = output_peak e
      in if le peak (Num 0) \<or> \<not> is_finite peak then NegInf else fmul F32 (Num 20) (log10 peak))"

definition set_mode :: "'i AudioEngine \<Rightarrow> EngineMode \<Rightarrow> 'i AudioEngine" where
  "set_mode e m = e\<lparr>en_mode := m\<rparr>"

definition set_sample_rate :: "(f32 \<Rightarrow> 'i \<Rightarrow> 'i) \<Rightarrow> 'i AudioEngine \<Rightarrow> f32 \<Rightarrow> 'i AudioEngine" where
  "set_sample_rate set_sr e new_sr =
     e\<lparr>en_sample_rate := new_sr, en_transport := (en_transport e)\<lparr>tp_sample_rate := new_sr\<rparr>,
       en_chains := chains_set_sample_rate set_sr (en_chains e) new_sr\<rparr>"

definition set_track_volume :: "'i AudioEngine \<Rightarrow> usize \<Rightarrow> f32 \<Rightarrow> 'i AudioEngine" where
  "set_track_volume e t volume =
     (if t < 16
      then e\<lparr>en_track_volumes := (en_track_volumes e)[unat t := fclamp volume (Num 0) (Num 1)]\<rparr>
      else e)"

definition set_track_pan :: "'i AudioEngine \<Rightarrow> usize \<Rightarrow> f32 \<Rightarrow> 'i AudioEngine" where
  "set_track_pan e t pan =
     (if t < 16
      then let raw = (if le (fabs pan) (Num (3 / 2)) then fmul F32 pan (Num 100) else pan)
           in e\<lparr>en_track_pans := (en_track_pans e)[unat t := fclamp raw (Num (- 100)) (Num 100)]\<rparr>
      else e)"

definition set_track_mute :: "'i AudioEngine \<Rightarrow> usize \<Rightarrow> bool \<Rightarrow> 'i AudioEngine" where
  "set_track_mute e t mute =
     (if t < 16 then e\<lparr>en_track_mutes := (en_track_mutes e)[unat t := mute]\<rparr> else e)"

definition set_track_solo :: "'i AudioEngine \<Rightarrow> usize \<Rightarrow> bool \<Rightarrow> 'i AudioEngine" where
  "set_track_solo e t solo =
     (if t < 16 then e\<lparr>en_track_solos := (en_track_solos e)[unat t := solo]\<rparr> else e)"

definition set_master_gain :: "'i AudioEngine \<Rightarrow> f32 \<Rightarrow> 'i AudioEngine" where
  "set_master_gain e volume = e\<lparr>en_master_gain := fclamp volume (Num 0) (Num 1)\<rparr>"

text \<open>The gains of one track, as both mixing stages of the callback compute them.\<close>

definition track_gains :: "'i AudioEngine \<Rightarrow> nat \<Rightarrow> f32 \<times> f32" where
  "track_gains e t =
     (let any_solo = list_ex (\<lambda>s. s) (en_track_solos e);
          vol = en_track_volumes e ! t;
          muted = en_track_mutes e ! t;
          soloed = en_track_solos e ! t;
          effective_gain = (if muted then Num 0 else if any_solo \<and> \<not> soloed then Num 0 else vol);
          pan_norm = fdiv F32 (en_track_pans e ! t) (Num 100)
      in (fmul F32 effective_gain (if lt (Num 0) pan_norm then fsub F32 (Num 1) pan_norm else Num 1),
          fmul F32 effective_gain (if lt pan_norm (Num 0) then fadd F32 (Num 1) pan_norm else Num 1)))"

section \<open>Clips\<close>

definition secs_to_frames :: "f32 \<Rightarrow> f32 \<Rightarrow> 'a::len word" where
  "secs_to_frames secs sr = to_word (fmul F32 secs sr)"

definition at_slot :: "usize \<Rightarrow> usize \<Rightarrow> AudioClipInstance \<Rightarrow> bool" where
  "at_slot t s c \<longleftrightarrow> ai_track_index c = t \<and> ai_scene_index c = s"

text \<open>How a clip is identified: by id in OpenStudio, by pad in OpenLive.\<close>

definition same_clip :: "EngineMode \<Rightarrow> usize \<Rightarrow> usize \<Rightarrow> usize \<Rightarrow> AudioClipInstance \<Rightarrow> bool" where
  "same_clip m i t s c \<longleftrightarrow> (if m = OpenStudio then ai_id c = i else at_slot t s c)"

definition sync_clips :: "'i AudioEngine \<Rightarrow> AudioClipInstance list \<Rightarrow> 'i AudioEngine" where
  "sync_clips e cs = e\<lparr>en_clips := cs\<rparr>"

definition update_clip_bounds ::
    "'i AudioEngine \<Rightarrow> usize \<Rightarrow> usize \<Rightarrow> usize \<Rightarrow> f32 \<Rightarrow> f32 \<Rightarrow> f32 \<Rightarrow> 'i AudioEngine" where
  "update_clip_bounds e clip_id track scene start_secs duration_secs offset_secs =
     e\<lparr>en_clips := map_first (same_clip (en_mode e) clip_id track scene)
        (\<lambda>c. c\<lparr>ai_start_frame := secs_to_frames start_secs (en_sample_rate e),
               ai_duration_frames :=
                 (if lt (Num 0) duration_secs then secs_to_frames duration_secs (en_sample_rate e)
                  else natural_frames c),
               ai_sample_offset := secs_to_frames offset_secs (en_sample_rate e) * ai_channels c\<rparr>)
        (en_clips e)\<rparr>"

definition loop_off :: "AudioClipInstance \<Rightarrow> AudioClipInstance" where
  "loop_off c = c\<lparr>ai_loop_enabled := False, ai_loop_start := 0, ai_loop_end := 0\<rparr>"

definition loop_clip :: "f32 \<Rightarrow> f32 \<Rightarrow> f32 \<Rightarrow> bool \<Rightarrow> AudioClipInstance \<Rightarrow> AudioClipInstance" where
  "loop_clip sr start_secs end_secs enabled c =
     (let natural = natural_frames c;
          start = to_word (fmul F32 (fmax start_secs (Num 0)) sr);
          end = to_word (fmul F32 (fmax end_secs (Num 0)) sr);
          end = (if 0 < natural then min end natural else end)
      in if enabled \<and> start < natural
         then let loop_end = (if start < end then min end natural else natural)
              in if start < loop_end
                 then c\<lparr>ai_loop_enabled := True, ai_loop_start := start, ai_loop_end := loop_end\<rparr>
                 else loop_off c
         else loop_off c)"

definition set_clip_loop ::
    "'i AudioEngine \<Rightarrow> usize \<Rightarrow> usize \<Rightarrow> f32 \<Rightarrow> f32 \<Rightarrow> bool \<Rightarrow> 'i AudioEngine" where
  "set_clip_loop e track scene start_secs end_secs enabled =
     (let sr = fmax (en_sample_rate e) (Num 1)
      in e\<lparr>en_clips := map_first (at_slot track scene) (loop_clip sr start_secs end_secs enabled)
             (en_clips e)\<rparr>)"

definition clip_instance ::
    "f32 \<Rightarrow> usize \<Rightarrow> usize \<Rightarrow> usize \<Rightarrow> f32 list \<Rightarrow> f32 \<Rightarrow> f32 \<Rightarrow> f32 \<Rightarrow> usize \<Rightarrow> bool
      \<Rightarrow> AudioClipInstance" where
  "clip_instance sr i track scene samples start_secs duration_secs offset_secs channels matrix_clip =
     (let ch = max channels 1;
          natural = vlen samples div ch;
          duration = (if lt (Num 0) duration_secs then secs_to_frames duration_secs sr else natural);
          (loop_on, loop_end) = (if matrix_clip \<and> 0 < natural then (True, natural) else (False, 0))
      in \<lparr> ai_id = i, ai_track_index = track, ai_scene_index = scene, ai_samples = samples,
           ai_start_frame = secs_to_frames start_secs sr, ai_start_absolute = 0,
           ai_duration_frames = duration, ai_sample_offset = secs_to_frames offset_secs sr * ch,
           ai_channels = ch, ai_is_playing = False, ai_loop_enabled = loop_on, ai_loop_start = 0,
           ai_loop_end = loop_end, ai_is_matrix_clip = matrix_clip, ai_prev_frame = - 1,
           ai_xfade_remaining = 0, ai_xfade_len = 0, ai_events = [] \<rparr>)"

definition add_clip ::
    "'i AudioEngine \<Rightarrow> usize \<Rightarrow> usize \<Rightarrow> usize \<Rightarrow> f32 list \<Rightarrow> f32 \<Rightarrow> f32 \<Rightarrow> f32 \<Rightarrow> usize \<Rightarrow> bool
      \<Rightarrow> 'i AudioEngine" where
  "add_clip e i track scene samples start_secs duration_secs offset_secs channels matrix_clip =
     (let inst = clip_instance (en_sample_rate e) i track scene samples start_secs duration_secs
                   offset_secs channels matrix_clip;
          same = same_clip (en_mode e) i track scene
      in e\<lparr>en_clips := (if list_ex same (en_clips e) then map_first same (\<lambda>_. inst) (en_clips e)
                       else en_clips e @ [inst])\<rparr>)"

definition with_events :: "EngineAudioEvent list \<Rightarrow> AudioClipInstance \<Rightarrow> AudioClipInstance" where
  "with_events events c =
     (let was_full_loop = (ai_loop_enabled c \<and> ai_loop_start c = 0
            \<and> (ai_loop_end c = 0
               \<or> ai_loop_end c = vlen (ai_samples c) div max (ai_channels c) 1
               \<or> ai_events c = [] \<and> ai_loop_end c = natural_frames c));
          c = c\<lparr>ai_events := events\<rparr>;
          natural = natural_frames c;
          c = (if ai_loop_enabled c \<and> 0 < natural
               then (if ai_loop_end c = 0 \<or> natural < ai_loop_end c \<or> was_full_loop
                     then c\<lparr>ai_loop_start := 0, ai_loop_end := natural\<rparr> else c)
               else if 0 < natural \<and> ai_loop_end c = 0
               then c\<lparr>ai_loop_enabled := True, ai_loop_start := 0, ai_loop_end := natural\<rparr>
               else c)
      in c\<lparr>ai_prev_frame := - 1, ai_xfade_remaining := 0\<rparr>)"

definition set_clip_events ::
    "'i AudioEngine \<Rightarrow> usize \<Rightarrow> usize \<Rightarrow> EngineAudioEvent list \<Rightarrow> 'i AudioEngine" where
  "set_clip_events e track scene events =
     e\<lparr>en_clips := map_first (at_slot track scene) (with_events events) (en_clips e)\<rparr>"

definition remove_clip :: "'i AudioEngine \<Rightarrow> usize \<Rightarrow> usize \<Rightarrow> usize \<Rightarrow> 'i AudioEngine" where
  "remove_clip e clip_id track scene =
     e\<lparr>en_clips := filter (\<lambda>c. \<not> same_clip (en_mode e) clip_id track scene c) (en_clips e)\<rparr>"

section \<open>Transport\<close>

definition play :: "'i AudioEngine \<Rightarrow> 'i AudioEngine" where
  "play e = e\<lparr>en_preview := preview_player_stop (en_preview e),
              en_transport := (en_transport e)\<lparr>tp_playback_state := Playing\<rparr>\<rparr>"

definition pause :: "'i AudioEngine \<Rightarrow> 'i AudioEngine" where
  "pause e = e\<lparr>en_transport := (en_transport e)\<lparr>tp_playback_state := Paused\<rparr>\<rparr>"

definition stop :: "'i AudioEngine \<Rightarrow> 'i AudioEngine" where
  "stop e = e\<lparr>en_transport := (en_transport e)\<lparr>tp_playback_state := Stopped, tp_sample_count := 0\<rparr>\<rparr>"

definition set_global_loop :: "'i AudioEngine \<Rightarrow> u64 \<Rightarrow> u64 \<Rightarrow> bool \<Rightarrow> 'i AudioEngine" where
  "set_global_loop e start_samples end_samples enabled =
     e\<lparr>en_transport := set_loop_enabled
         (set_loop_region_samples (en_transport e) start_samples end_samples) enabled\<rparr>"

definition seek :: "'i AudioEngine \<Rightarrow> f32 \<Rightarrow> 'i AudioEngine" where
  "seek e position_secs = e\<lparr>en_transport := (en_transport e)
     \<lparr>tp_sample_count := secs_to_frames position_secs (en_sample_rate e)\<rparr>\<rparr>"

section \<open>Launching pads and scenes\<close>

definition oldest_playing :: "AudioClipInstance list \<Rightarrow> (u64 \<times> u64) option" where
  "oldest_playing cs =
     map_option (\<lambda>c. (ai_start_frame c, ai_start_absolute c))
       (min_by ai_start_absolute (filter ai_is_playing cs))"

definition legato_reference :: "'i AudioEngine \<Rightarrow> usize option \<Rightarrow> (u64 \<times> u64) option" where
  "legato_reference e preferred_track =
     (case (case preferred_track of
              None \<Rightarrow> None
            | Some t \<Rightarrow> oldest_playing (filter (\<lambda>c. ai_track_index c = t) (en_clips e))) of
        Some origin \<Rightarrow> Some origin
      | None \<Rightarrow> oldest_playing (en_clips e))"

definition reset_voice :: "u64 \<Rightarrow> u64 \<Rightarrow> AudioClipInstance \<Rightarrow> AudioClipInstance" where
  "reset_voice frame absolute c =
     c\<lparr>ai_is_playing := True, ai_start_frame := frame, ai_start_absolute := absolute,
       ai_prev_frame := - 1, ai_xfade_remaining := 0, ai_xfade_len := 0\<rparr>"

definition trigger_clip :: "'i AudioEngine \<Rightarrow> usize \<Rightarrow> usize \<Rightarrow> 'i AudioEngine" where
  "trigger_clip e track scene =
     (let now = tp_sample_count (en_transport e);
          now_abs = en_absolute_frame e;
          target_was_playing =
            (case find (at_slot track scene) (en_clips e) of None \<Rightarrow> False | Some c \<Rightarrow> ai_is_playing c);
          legato_origin = (if target_was_playing then None else legato_reference e (Some track));
          (frame, absolute) = (case legato_origin of Some o1 \<Rightarrow> o1 | None \<Rightarrow> (now, now_abs))
      in e\<lparr>en_clips := map (\<lambda>c.
             if ai_track_index c \<noteq> track then c
             else if ai_scene_index c = scene
             then (if target_was_playing then c\<lparr>ai_is_playing := False\<rparr>
                   else reset_voice frame absolute c)
             else c\<lparr>ai_is_playing := False\<rparr>) (en_clips e)\<rparr>)"

definition trigger_scene :: "'i AudioEngine \<Rightarrow> usize \<Rightarrow> 'i AudioEngine" where
  "trigger_scene e scene =
     (let now = tp_sample_count (en_transport e);
          now_abs = en_absolute_frame e;
          tracks = ai_track_index ` set (filter (\<lambda>c. ai_scene_index c = scene) (en_clips e))
      in e\<lparr>en_clips := map (\<lambda>c.
             if ai_scene_index c = scene then reset_voice now now_abs c
             else if ai_track_index c \<in> tracks then c\<lparr>ai_is_playing := False\<rparr>
             else c) (en_clips e)\<rparr>)"

definition voice_active :: "'i AudioEngine \<Rightarrow> usize \<Rightarrow> usize \<Rightarrow> bool" where
  "voice_active e track scene =
     (case find (at_slot track scene) (en_clips e) of
        None \<Rightarrow> False
      | Some c \<Rightarrow> ai_is_playing c
          \<and> voice_state_linear c (en_absolute_frame e) (en_transport e) = Active)"

definition voice_elapsed_frames :: "'i AudioEngine \<Rightarrow> usize \<Rightarrow> usize \<Rightarrow> u64 option" where
  "voice_elapsed_frames e track scene =
     (case find (at_slot track scene) (en_clips e) of
        None \<Rightarrow> None
      | Some c \<Rightarrow>
          if \<not> ai_is_playing c then None
          else if voice_state_linear c (en_absolute_frame e) (en_transport e) \<noteq> Active then None
          else Some (sat_sub (en_absolute_frame e) (ai_start_absolute c)))"

definition voice_playhead_frame :: "'i AudioEngine \<Rightarrow> usize \<Rightarrow> usize \<Rightarrow> (u64 \<times> u64) option" where
  "voice_playhead_frame e track scene =
     (case find (at_slot track scene) (en_clips e) of
        None \<Rightarrow> None
      | Some c \<Rightarrow>
          if \<not> ai_is_playing c then None
          else if voice_state_linear c (en_absolute_frame e) (en_transport e) \<noteq> Active then None
          else map_option (\<lambda>frame. (frame, max (natural_frames c) 1))
                 (voice_frame_linear c (en_absolute_frame e) (en_transport e)))"

definition stop_track :: "'i AudioEngine \<Rightarrow> usize \<Rightarrow> 'i AudioEngine" where
  "stop_track e track =
     e\<lparr>en_clips := map (\<lambda>c. if ai_track_index c = track then c\<lparr>ai_is_playing := False\<rparr> else c)
        (en_clips e)\<rparr>"

section \<open>Drum pads\<close>

text \<open>
  \<open>load_dms_sample_for_track\<close>: the bank grows up to the key; storing the new buffer frees the
  one that was there.
\<close>

definition grow_to :: "nat \<Rightarrow> 'a \<Rightarrow> 'a list \<Rightarrow> 'a list" where
  "grow_to n d xs = xs @ replicate (n - length xs) d"

definition load_dms_sample_for_track ::
    "'i AudioEngine \<Rightarrow> usize \<Rightarrow> usize \<Rightarrow> f32 list \<Rightarrow> usize \<Rightarrow> 'i AudioEngine" where
  "load_dms_sample_for_track e track pad samples channels =
     (let key = unat (dms_pad_key track pad);
          bank = grow_to (Suc key) None (en_dms_samples e);
          chans = en_dms_channels e @ replicate (Suc key - length (en_dms_samples e)) 1;
          a = en_next_addr e;
          h = (case bank ! key of None \<Rightarrow> en_heap e | Some old \<Rightarrow> (en_heap e)(old := None))
      in e\<lparr>en_dms_channels := chans[key := channels], en_dms_samples := bank[key := Some a],
           en_heap := h(a \<mapsto> samples), en_next_addr := Suc a\<rparr>)"

definition load_dms_sample :: "'i AudioEngine \<Rightarrow> usize \<Rightarrow> f32 list \<Rightarrow> usize \<Rightarrow> 'i AudioEngine" where
  "load_dms_sample e pad samples channels = load_dms_sample_for_track e 0 pad samples channels"

definition bank_sample :: "'i AudioEngine \<Rightarrow> usize \<Rightarrow> (nat \<times> usize) option" where
  "bank_sample e key =
     (if unat key < length (en_dms_samples e)
      then map_option (\<lambda>a. (a, if unat key < length (en_dms_channels e)
                               then en_dms_channels e ! unat key else 1))
             (en_dms_samples e ! unat key)
      else None)"

definition trigger_dms_note ::
    "'i AudioEngine \<Rightarrow> usize \<Rightarrow> f32 \<Rightarrow> f32 \<Rightarrow> f32 \<Rightarrow> f64 \<Rightarrow> DmsAdsrParams \<Rightarrow> usize \<Rightarrow> 'i AudioEngine" where
  "trigger_dms_note e pad gain pan velocity play_speed adsr track =
     (let ti = min track 15; key = dms_pad_key ti pad
      in case (case bank_sample e key of Some s \<Rightarrow> Some s | None \<Rightarrow> bank_sample e pad) of
           None \<Rightarrow> e
         | Some (a, channels) \<Rightarrow>
             e\<lparr>en_voice_pool := snd (pool_trigger (en_voice_pool e) (Slice a)
                 (case en_heap e a of None \<Rightarrow> 0 | Some s \<Rightarrow> vlen s) channels key gain pan velocity
                 play_speed adsr ti)\<rparr>)"

definition release_dms_note_for_track :: "'i AudioEngine \<Rightarrow> usize \<Rightarrow> usize \<Rightarrow> 'i AudioEngine" where
  "release_dms_note_for_track e track pad =
     e\<lparr>en_voice_pool := release_pad (en_voice_pool e) (dms_pad_key track pad)\<rparr>"

definition release_dms_note :: "'i AudioEngine \<Rightarrow> usize \<Rightarrow> 'i AudioEngine" where
  "release_dms_note e pad =
     e\<lparr>en_voice_pool := fold (\<lambda>t p. release_pad p (dms_pad_key (word_of_nat t) pad)) [0..<16]
        (release_pad (en_voice_pool e) pad)\<rparr>"

definition kill_dms_note_for_track :: "'i AudioEngine \<Rightarrow> usize \<Rightarrow> usize \<Rightarrow> 'i AudioEngine" where
  "kill_dms_note_for_track e track pad =
     e\<lparr>en_voice_pool := kill_pad (en_voice_pool e) (dms_pad_key track pad)\<rparr>"

definition kill_dms_note :: "'i AudioEngine \<Rightarrow> usize \<Rightarrow> 'i AudioEngine" where
  "kill_dms_note e pad =
     e\<lparr>en_voice_pool := fold (\<lambda>t p. kill_pad p (dms_pad_key (word_of_nat t) pad)) [0..<16]
        (kill_pad (en_voice_pool e) pad)\<rparr>"

definition set_dms_track :: "'i AudioEngine \<Rightarrow> usize \<Rightarrow> 'i AudioEngine" where
  "set_dms_track e track = e\<lparr>en_dms_track_idx := min track 15\<rparr>"

definition update_midi_clip ::
    "'i AudioEngine \<Rightarrow> usize \<Rightarrow> usize \<Rightarrow> MidiNoteInstance list \<Rightarrow> 'i AudioEngine" where
  "update_midi_clip e track scene notes =
     (let same = (\<lambda>c. mc_track_index c = track \<and> mc_scene_index c = scene)
      in e\<lparr>en_midi_clips :=
             (if list_ex same (en_midi_clips e)
              then map_first same (\<lambda>c. c\<lparr>mc_notes := notes\<rparr>) (en_midi_clips e)
              else en_midi_clips e @ [\<lparr> mc_track_index = track, mc_scene_index = scene,
                                        mc_notes = notes, mc_is_playing = False \<rparr>])\<rparr>)"

end
