(* ===== verification/EngineProcess.thy ===== *)
theory EngineProcess
  imports Engine
begin

text \<open>
  The render callback: \<open>AudioEngine::process\<close> of crates/hikaru_audio_engine/src/lib.rs.  The
  source reads clip samples through raw pointers; the model's \<open>raw_read\<close> is \<open>None\<close> outside
  the buffer, and so is every definition that reads there: \<open>None\<close> is undefined behaviour,
  not an error the program handles.  \<open>tanh\<close> (libm) and the plugin instances are parameters.
\<close>

section \<open>Reading and mixing one clip\<close>

definition raw_read :: "f32 list \<Rightarrow> usize \<Rightarrow> f32 option" where
  "raw_read xs i = (if unat i < length xs then Some (xs ! unat i) else None)"

text \<open>The left and right sample of the frame at \<open>idx\<close>: a mono clip uses the left one twice.\<close>

definition read_pair :: "f32 list \<Rightarrow> usize \<Rightarrow> usize \<Rightarrow> f32 \<Rightarrow> f32 \<Rightarrow> (f32 \<times> f32) option" where
  "read_pair xs ch idx gl gr =
     (case raw_read xs idx of
        None \<Rightarrow> None
      | Some s \<Rightarrow>
          let l = fmul F32 s gl
          in if 1 < ch
             then map_option (\<lambda>s'. (l, fmul F32 s' gr)) (raw_read xs (idx + 1))
             else Some (l, l))"

definition add_pair :: "f32 list \<Rightarrow> nat \<Rightarrow> f32 \<Rightarrow> f32 \<Rightarrow> f32 list" where
  "add_pair buf f l r =
     (let buf = buf[f * 2 := fadd F32 (buf ! (f * 2)) l]
      in buf[f * 2 + 1 := fadd F32 (buf ! (f * 2 + 1)) r])"

text \<open>OpenStudio: the clip sounds between its start and end on the wrapped timeline.\<close>

definition studio_frame ::
    "AudioClipInstance \<Rightarrow> TransportPosition \<Rightarrow> u64 \<Rightarrow> f32 \<Rightarrow> f32 \<Rightarrow> nat \<Rightarrow> f32 list \<Rightarrow> f32 list option" where
  "studio_frame c transport frame_start gl gr f buf =
     (let ch = max (ai_channels c) 1;
          src_len = vlen (ai_samples c);
          offset_frames = ai_sample_offset c div ch;
          clip_frame_end = sat_add (ai_start_frame c) (ai_duration_frames c);
          global_frame = wrap_sample_count transport (frame_start + word_of_nat f)
      in if global_frame < ai_start_frame c \<or> clip_frame_end \<le> global_frame then Some buf
         else let relative_frame = global_frame - ai_start_frame c;
                  idx = (offset_frames + relative_frame) * ch
              in if idx + ch \<le> src_len
                 then map_option (\<lambda>(l, r). add_pair buf f l r) (read_pair (ai_samples c) ch idx gl gr)
                 else Some buf)"

fun studio_frames ::
    "AudioClipInstance \<Rightarrow> TransportPosition \<Rightarrow> u64 \<Rightarrow> f32 \<Rightarrow> f32 \<Rightarrow> nat list \<Rightarrow> f32 list \<Rightarrow> f32 list option" where
  "studio_frames c transport frame_start gl gr [] buf = Some buf"
| "studio_frames c transport frame_start gl gr (f # fs) buf =
     (case studio_frame c transport frame_start gl gr f buf of
        None \<Rightarrow> None
      | Some buf \<Rightarrow> studio_frames c transport frame_start gl gr fs buf)"

text \<open>OpenLive, pad with events: the result says whether the clip has finished.\<close>

fun event_frames ::
    "AudioClipInstance \<Rightarrow> TransportPosition \<Rightarrow> u64 \<Rightarrow> f32 \<Rightarrow> f32 \<Rightarrow> nat list \<Rightarrow> f32 list \<Rightarrow> bool \<times> f32 list" where
  "event_frames c transport elapsed_start gl gr [] buf = (False, buf)"
| "event_frames c transport elapsed_start gl gr (f # fs) buf =
     (case clip_frame_for_elapsed c (elapsed_start + word_of_nat f) transport of
        None \<Rightarrow> (True, buf)
      | Some clip_frame \<Rightarrow>
          let (l, r) = mix_events_at c clip_frame
          in event_frames c transport elapsed_start gl gr fs
               (add_pair buf f (fmul F32 l gl) (fmul F32 r gr)))"

text \<open>
  OpenLive, pad with one sample: the frame read at \<open>elapsed\<close>, and one frame of the loop with
  the cross-fade over a loop wrap.
\<close>

definition legacy_position :: "bool \<Rightarrow> u64 \<Rightarrow> u64 \<Rightarrow> u64 \<Rightarrow> usize" where
  "legacy_position has_loop loop_start loop_len elapsed =
     (if has_loop
      then let loop_end = loop_start + loop_len
           in if elapsed < loop_end then elapsed
              else loop_start + (elapsed - loop_end) mod loop_len
      else elapsed)"

definition start_xfade :: "usize \<Rightarrow> u64 \<Rightarrow> usize \<Rightarrow> AudioClipInstance \<Rightarrow> AudioClipInstance" where
  "start_xfade xfade_frames emission relative_frame c =
     (if 0 < xfade_frames \<and> ai_prev_frame c \<noteq> - 1 \<and> relative_frame < ai_prev_frame c
         \<and> emission div 2 < ai_prev_frame c - relative_frame
      then c\<lparr>ai_xfade_remaining := ucast xfade_frames, ai_xfade_len := ucast xfade_frames\<rparr> else c)"

definition legacy_mix ::
    "AudioClipInstance \<Rightarrow> f32 \<Rightarrow> f32 \<Rightarrow> usize \<Rightarrow> (AudioClipInstance \<times> (f32 \<times> f32) option) option" where
  "legacy_mix c gl gr relative_frame =
     (let ch = max (ai_channels c) 1;
          src_len = vlen (ai_samples c);
          idx = relative_frame * ch
      in if 0 < ai_xfade_remaining c \<and> idx + ch \<le> src_len
         then (case read_pair (ai_samples c) ch idx gl gr of
                 None \<Rightarrow> None
               | Some (l_new, r_new) \<Rightarrow>
                   let fade_pos = ai_xfade_len c - ai_xfade_remaining c;
                       fade_total = of_u64 F32 (ai_xfade_len c);
                       out_gain = fdiv F32 (of_u64 F32 fade_pos) fade_total;
                       in_gain = fsub F32 (Num 1) out_gain;
                       prev_idx = ai_prev_frame c * ch
                   in case (if prev_idx + ch \<le> src_len
                            then read_pair (ai_samples c) ch prev_idx gl gr
                            else Some (Num 0, Num 0)) of
                        None \<Rightarrow> None
                      | Some (l_old, r_old) \<Rightarrow>
                          Some (c\<lparr>ai_xfade_remaining := ai_xfade_remaining c - 1\<rparr>,
                                Some (fadd F32 (fmul F32 l_old in_gain) (fmul F32 l_new out_gain),
                                      fadd F32 (fmul F32 r_old in_gain) (fmul F32 r_new out_gain))))
         else if idx + ch \<le> src_len
         then map_option (\<lambda>p. (c, Some p)) (read_pair (ai_samples c) ch idx gl gr)
         else Some (c, None))"

fun legacy_frames ::
    "bool \<Rightarrow> u64 \<Rightarrow> u64 \<Rightarrow> u64 \<Rightarrow> u64 \<Rightarrow> f32 \<Rightarrow> f32 \<Rightarrow> nat list \<Rightarrow> AudioClipInstance \<Rightarrow> f32 list
      \<Rightarrow> (bool \<times> AudioClipInstance \<times> f32 list) option" where
  "legacy_frames has_loop emission loop_start loop_len elapsed_start gl gr [] c buf = Some (False, c, buf)"
| "legacy_frames has_loop emission loop_start loop_len elapsed_start gl gr (f # fs) c buf =
     (let elapsed = elapsed_start + word_of_nat f
      in if \<not> has_loop \<and> emission \<le> elapsed then Some (True, c, buf)
         else let relative_frame = legacy_position has_loop loop_start loop_len elapsed;
                  c = start_xfade (if has_loop then 32 else 0) emission relative_frame c
              in case legacy_mix c gl gr relative_frame of
                   None \<Rightarrow> None
                 | Some (c, mix) \<Rightarrow>
                     legacy_frames has_loop emission loop_start loop_len elapsed_start gl gr fs
                       (c\<lparr>ai_prev_frame := relative_frame\<rparr>)
                       (case mix of None \<Rightarrow> buf | Some (l, r) \<Rightarrow> add_pair buf f l r))"

text \<open>One clip over one block, added to the buffer of its track.\<close>

definition stopped_if :: "bool \<Rightarrow> AudioClipInstance \<Rightarrow> AudioClipInstance" where
  "stopped_if b c = (if b then c\<lparr>ai_is_playing := False\<rparr> else c)"

definition clip_block ::
    "EngineMode \<Rightarrow> TransportPosition \<Rightarrow> u64 \<Rightarrow> nat \<Rightarrow> f32 \<Rightarrow> f32 \<Rightarrow> AudioClipInstance \<Rightarrow> f32 list
      \<Rightarrow> (AudioClipInstance \<times> f32 list) option" where
  "clip_block mode transport abs_start buffer_frames gl gr c buf =
     (if feq gl (Num 0) \<and> feq gr (Num 0) then Some (c, buf)
      else if mode = OpenStudio
      then map_option (\<lambda>buf. (c, buf))
             (studio_frames c transport (tp_sample_count transport) gl gr [0..<buffer_frames] buf)
      else if \<not> ai_is_playing c then Some (c, buf)
      else if abs_start < ai_start_absolute c then Some (c, buf)
      else let elapsed_start = abs_start - ai_start_absolute c;
               emission = emission_len_frames c;
               has_loop = has_valid_clip_loop c
           in if \<not> has_loop \<and> emission \<le> elapsed_start then Some (stopped_if True c, buf)
              else if natural_frames c = 0 then Some (c, buf)
              else if ai_events c \<noteq> []
              then let (finished, buf) = event_frames c transport elapsed_start gl gr [0..<buffer_frames] buf
                   in Some (stopped_if finished c, buf)
              else let (loop_start, loop_len) =
                         (if has_loop then (min (ai_loop_start c) (natural_frames c), quantized_loop_len c transport)
                          else (0, 0))
                   in map_option (\<lambda>(finished, c, buf). (stopped_if finished c, buf))
                        (legacy_frames has_loop emission loop_start loop_len elapsed_start gl gr
                           [0..<buffer_frames] c buf))"

fun clips_block ::
    "EngineMode \<Rightarrow> TransportPosition \<Rightarrow> u64 \<Rightarrow> nat \<Rightarrow> (nat \<Rightarrow> f32 \<times> f32) \<Rightarrow> AudioClipInstance list
      \<Rightarrow> f32 list list \<Rightarrow> (AudioClipInstance list \<times> f32 list list) option" where
  "clips_block mode transport abs_start n gains [] bufs = Some ([], bufs)"
| "clips_block mode transport abs_start n gains (c # cs) bufs =
     (let ti = unat (min (ai_track_index c) 15); (gl, gr) = gains ti
      in case clip_block mode transport abs_start n gl gr c (bufs ! ti) of
           None \<Rightarrow> None
         | Some (c, buf) \<Rightarrow>
             map_option (\<lambda>(cs, bufs). (c # cs, bufs))
               (clips_block mode transport abs_start n gains cs (bufs[ti := buf])))"

section \<open>Tracks and master\<close>

text \<open>Adding one track to the output, with the peak of what is added.\<close>

definition peak_of :: "f32 list \<Rightarrow> f32" where
  "peak_of buf = fold (\<lambda>v peak. let a = (if is_finite v then fabs v else Num 0)
                               in if lt peak a then a else peak) buf (Num 0)"

definition add_track :: "f32 list \<Rightarrow> f32 list \<Rightarrow> f32 list" where
  "add_track samples buf = map2 (fadd F32) samples buf"

fun mix_tracks ::
    "('i \<Rightarrow> f32 list \<Rightarrow> f32 list \<times> 'i) \<Rightarrow> 'i DspPluginNode list list \<Rightarrow> f32 list list \<Rightarrow> f32 list
      \<Rightarrow> PluginTap list \<Rightarrow> 'i DspPluginNode list list \<times> f32 list \<times> f32 list \<times> PluginTap list" where
  "mix_tracks run (chain # css) (buf # bufs) samples taps =
     (let (chain, fx, taps) = (if chain = [] then (chain, buf, taps) else chain_process run chain buf taps);
          (css, samples, peaks, taps) = mix_tracks run css bufs (add_track samples fx) taps
      in (chain # css, samples, peak_of fx # peaks, taps))"
| "mix_tracks run css bufs samples taps = (css, samples, [], taps)"

definition is_denormal :: "f32 \<Rightarrow> bool" where
  "is_denormal x \<longleftrightarrow> is_finite x \<and> \<bar>val x\<bar> < 1 / 2 ^ 126"

definition flush_denormals :: "f32 list \<Rightarrow> f32 list" where
  "flush_denormals buf = map (\<lambda>s. if is_denormal s then Num 0 else s) buf"

definition master_out :: "(f32 \<Rightarrow> f32) \<Rightarrow> f32 \<Rightarrow> f32 list \<Rightarrow> f32 list" where
  "master_out ftanh mg samples =
     (let samples = flush_denormals samples;
          samples = (if feq mg (Num 1) then samples else map (\<lambda>s. fmul F32 s mg) samples)
      in map ftanh samples)"

definition output_peak_of :: "f32 list \<Rightarrow> f32" where
  "output_peak_of samples = fold (\<lambda>s peak. if lt peak (fabs s) then fabs s else peak) samples (Num 0)"

section \<open>The callback\<close>

definition interleave_add :: "f32 list \<Rightarrow> f32 list \<Rightarrow> f32 list \<Rightarrow> f32 list" where
  "interleave_add samples ls rs =
     fold (\<lambda>i buf. add_pair buf i (ls ! i) (rs ! i)) [0..<length ls] samples"

text \<open>The preview and the drum voices, which run whether or not the transport does.\<close>

definition preview_stage :: "'i AudioEngine \<Rightarrow> f32 list \<Rightarrow> f32 list \<times> 'i AudioEngine" where
  "preview_stage e samples =
     (if preview_is_active (en_preview e)
      then (let (out, b) = preview_process (pp_shared (en_preview e)) samples
            in (out, e\<lparr>en_preview := (en_preview e)\<lparr>pp_shared := b\<rparr>\<rparr>))
      else (samples, e))"

definition process_always :: "'i AudioEngine \<Rightarrow> nat \<Rightarrow> ('i AudioEngine \<times> f32 list) option" where
  "process_always e len =
     (let (samples, e) = preview_stage e (replicate len (Num 0));
          buf_frames = len div 2;
          gains = map (track_gains e) [0..<16]
      in case process_all_with_gains (en_heap e) (en_voice_pool e) (replicate buf_frames (Num 0))
                (replicate buf_frames (Num 0)) (map fst gains) (map snd gains) (en_sample_rate e) of
           None \<Rightarrow> None
         | Some (pool, dl, dr) \<Rightarrow> Some (e\<lparr>en_voice_pool := pool\<rparr>, interleave_add samples dl dr))"

text \<open>The playing transport: clips, effects, and the two clocks.\<close>

definition process_playing ::
    "('i \<Rightarrow> f32 list \<Rightarrow> f32 list \<times> 'i) \<Rightarrow> 'i AudioEngine \<Rightarrow> f32 list \<Rightarrow> ('i AudioEngine \<times> f32 list) option" where
  "process_playing run e samples =
     (let n = length samples div 2;
          frame_start = tp_sample_count (en_transport e);
          abs_start = en_absolute_frame e
      in case clips_block (en_mode e) (en_transport e) abs_start n (track_gains e) (en_clips e)
                (replicate 16 (replicate (length samples) (Num 0))) of
           None \<Rightarrow> None
         | Some (clips, bufs) \<Rightarrow>
             let (css, samples, peaks, taps) =
                   mix_tracks run (cs_effects (en_chains e)) bufs samples (cs_taps (en_chains e))
             in Some (e\<lparr>en_clips := clips,
                        en_chains := (en_chains e)\<lparr>cs_effects := css, cs_taps := taps\<rparr>,
                        en_track_peaks := peaks,
                        en_transport := (en_transport e)\<lparr>tp_sample_count :=
                          wrap_sample_count (en_transport e) (frame_start + word_of_nat n)\<rparr>,
                        en_absolute_frame := sat_add abs_start (word_of_nat n)\<rparr>, samples))"

definition process ::
    "(f32 \<Rightarrow> f32) \<Rightarrow> ('i \<Rightarrow> f32 list \<Rightarrow> f32 list \<times> 'i) \<Rightarrow> 'i AudioEngine \<Rightarrow> nat
      \<Rightarrow> ('i AudioEngine \<times> f32 list) option" where
  "process ftanh run e len =
     (case process_always e len of
        None \<Rightarrow> None
      | Some (e, samples) \<Rightarrow>
          if tp_playback_state (en_transport e) = Playing \<and> len div 2 = 0
          then Some (e\<lparr>en_output_level := Num 0,
                       en_track_peaks := replicate (length (en_track_peaks e)) (Num 0)\<rparr>, samples)
          else case (if tp_playback_state (en_transport e) = Playing
                     then process_playing run e samples
                     else Some (e\<lparr>en_track_peaks := replicate (length (en_track_peaks e)) (Num 0)\<rparr>,
                                samples)) of
                 None \<Rightarrow> None
               | Some (e, samples) \<Rightarrow>
                   let out = master_out ftanh (en_master_gain e) samples
                   in Some (e\<lparr>en_output_level := output_peak_of out,
                              en_position_clock := tp_sample_count (en_transport e),
                              en_absolute_clock := en_absolute_frame e\<rparr>, out))"

end
