(* ===== verification/EngineControl.thy ===== *)
theory EngineControl
  imports Engine
begin

text \<open>
  What the control operations of the engine promise: loop regions inside the clip, one clip
  per identity, at most one sounding pad per track, launches in phase, gains in range.
\<close>

section \<open>Loop regions\<close>

text \<open>
  Setting the loop of a pad leaves it either with a valid loop inside the clip, which it
  does exactly when the loop was enabled and starts inside the clip (an empty region then
  means the rest of the clip), or with no loop at all; no float argument, NaN and infinities
  included, gives anything else.
\<close>

lemma loop_clip_valid:
  fixes c :: AudioClipInstance and sr start_secs end_secs :: f32 and enabled :: bool
  defines "c' \<equiv> loop_clip sr start_secs end_secs enabled c"
  defines "start \<equiv> to_word (fmul F32 (fmax start_secs (Num 0)) sr) :: u64"
  shows "natural_frames c' = natural_frames c
    \<and> (if enabled \<and> start < natural_frames c
       then has_valid_clip_loop c' \<and> ai_loop_start c' = start \<and> ai_loop_end c' \<le> natural_frames c
       else \<not> ai_loop_enabled c' \<and> ai_loop_start c' = 0 \<and> ai_loop_end c' = 0)"
proof -
  define en where "en = (to_word (fmul F32 (fmax end_secs (Num 0)) sr) :: u64)"
  define en2 where "en2 = (if 0 < natural_frames c then min en (natural_frames c) else en)"
  define le where "le = (if start < en2 then min en2 (natural_frames c) else natural_frames c)"
  have nat: "natural_frames (c\<lparr>ai_loop_enabled := a, ai_loop_start := b, ai_loop_end := d\<rparr>) = natural_frames c"
    for a b d by (simp add: natural_frames_def)
  have c': "c' = (if enabled \<and> start < natural_frames c
      then if start < le then c\<lparr>ai_loop_enabled := True, ai_loop_start := start, ai_loop_end := le\<rparr> else loop_off c
      else loop_off c)"
    unfolding c'_def loop_clip_def Let_def start_def [symmetric] en_def [symmetric] en2_def [symmetric]
      le_def [symmetric] ..
  have "start < le \<and> le \<le> natural_frames c" if "start < natural_frames c"
    using that by (auto simp: le_def)
  then show ?thesis
    by (simp add: c' loop_off_def nat has_valid_clip_loop_def)
qed

lemma natural_frames_irrelevant [simp]:
  "natural_frames (c\<lparr>ai_loop_enabled := a\<rparr>) = natural_frames c"
  "natural_frames (c\<lparr>ai_loop_start := b\<rparr>) = natural_frames c"
  "natural_frames (c\<lparr>ai_loop_end := d\<rparr>) = natural_frames c"
  "natural_frames (c\<lparr>ai_prev_frame := p\<rparr>) = natural_frames c"
  "natural_frames (c\<lparr>ai_xfade_remaining := x\<rparr>) = natural_frames c"
  "natural_frames (c\<lparr>ai_xfade_len := x\<rparr>) = natural_frames c"
  "natural_frames (c\<lparr>ai_is_playing := y\<rparr>) = natural_frames c"
  "natural_frames (c\<lparr>ai_start_frame := s\<rparr>) = natural_frames c"
  "natural_frames (c\<lparr>ai_start_absolute := s\<rparr>) = natural_frames c"
  by (simp_all add: natural_frames_def)

text \<open>
  Editing the events of a pad keeps its loop meaningful: whatever it looped before, an
  enabled loop never reaches past the new timeline, and a pad that looped its whole sample
  loops the whole new timeline.
\<close>

lemma with_events_loop:
  fixes c :: AudioClipInstance and evs :: "EngineAudioEvent list"
  defines "c' \<equiv> with_events evs c"
  assumes "0 < natural_frames c'"
  shows "(ai_loop_enabled c' \<longrightarrow> ai_loop_end c' \<le> natural_frames c')
    \<and> (ai_loop_enabled c \<and> ai_loop_start c = 0 \<and> ai_events c = [] \<and> ai_loop_end c = natural_frames c
        \<longrightarrow> ai_loop_enabled c' \<and> ai_loop_start c' = 0 \<and> ai_loop_end c' = natural_frames c')"
  using assms(2) unfolding c'_def
  by (auto simp: with_events_def Let_def)

lemma with_events_loop_witness:
  "let c = clip_instance (Num 2) 1 0 0 [Num 1, Num 1] (Num 0) (Num 0) (Num 0) 1 True;
       c' = with_events [\<lparr> ee_id = 1, ee_samples = [Num 1], ee_channels = 1, ee_clip_start = 4,
         ee_gain = Num 1, ee_fade_in = 0, ee_fade_out = 0 \<rparr>] c
   in ai_loop_enabled c' \<and> ai_loop_start c' = 0 \<and> ai_loop_end c' = natural_frames c'"
proof -
  define c where "c = clip_instance (Num 2) 1 0 0 [Num 1, Num 1] (Num 0) (Num 0) (Num 0) 1 True"
  define evs where "evs = [\<lparr> ee_id = 1, ee_samples = [Num 1], ee_channels = 1, ee_clip_start = 4,
         ee_gain = Num 1, ee_fade_in = 0, ee_fade_out = 0 \<rparr>]"
  have "ai_events (with_events evs c) = evs" by (simp add: with_events_def Let_def)
  then have "natural_frames (with_events evs c) = 5"
    by (simp add: natural_frames_def evs_def ee_end_def ee_frames_def vlen_def sat_add_def)
  then have pos: "0 < natural_frames (with_events evs c)" by simp
  have c: "ai_loop_enabled c \<and> ai_loop_start c = 0 \<and> ai_events c = [] \<and> ai_loop_end c = natural_frames c"
    by (simp add: c_def clip_instance_def Let_def natural_frames_def vlen_def)
  from with_events_loop [OF pos] c show ?thesis
    unfolding c_def [symmetric] evs_def [symmetric] Let_def by blast
qed

section \<open>One clip per identity\<close>

definition clips_distinct :: "EngineMode \<Rightarrow> AudioClipInstance list \<Rightarrow> bool" where
  "clips_distinct m cs \<longleftrightarrow>
     (if m = OpenStudio then distinct (map ai_id cs)
      else distinct (map (\<lambda>c. (ai_track_index c, ai_scene_index c)) cs))"

lemma clips_distinct_same:
  "clips_distinct m cs \<Longrightarrow> c \<in> set cs \<Longrightarrow> d \<in> set cs \<Longrightarrow> same_clip m i t s c \<Longrightarrow> same_clip m i t s d \<Longrightarrow> c = d"
  by (auto simp: clips_distinct_def same_clip_def at_slot_def distinct_map inj_on_def split: if_splits)

lemma map_first_const_spec:
  assumes "\<exists>x \<in> set xs. p x" "\<And>x y. x \<in> set xs \<Longrightarrow> y \<in> set xs \<Longrightarrow> p x \<Longrightarrow> p y \<Longrightarrow> x = y" "distinct xs"
  shows "set (map_first p (\<lambda>_. v) xs) = insert v {x \<in> set xs. \<not> p x}"
  using assms
proof (induction xs)
  case (Cons x xs)
  show ?case
  proof (cases "p x")
    case True
    then have "\<not> p y" if "y \<in> set xs" for y using Cons.prems(2,3) that by force
    then show ?thesis using True by auto
  next
    case False
    have "\<exists>x \<in> set xs. p x" using Cons.prems(1) False by auto
    from Cons.IH [OF this] Cons.prems(2,3) show ?thesis using False by auto
  qed
qed simp

lemma map_map_first_key:
  "(\<And>x. x \<in> set xs \<Longrightarrow> p x \<Longrightarrow> g (f x) = g x) \<Longrightarrow> map g (map_first p f xs) = map g xs"
  by (induction xs) auto

text \<open>
  Adding a clip keeps identities unique (ids in OpenStudio, pads in OpenLive): afterwards
  the engine holds the new clip and exactly the clips that had another identity.
\<close>

lemma add_clip_unique:
  assumes d: "clips_distinct (en_mode e) (en_clips e)"
  shows "clips_distinct (en_mode e) (en_clips (add_clip e i track scene samples st du off ch matrix_clip))
    \<and> set (en_clips (add_clip e i track scene samples st du off ch matrix_clip)) = insert (clip_instance (en_sample_rate e) i track scene samples st du off ch matrix_clip)
        {c \<in> set (en_clips e). \<not> same_clip (en_mode e) i track scene c}"
proof -
  let ?c = "clip_instance (en_sample_rate e) i track scene samples st du off ch matrix_clip"
  let ?same = "same_clip (en_mode e) i track scene" and ?cs = "en_clips e"
  have c: "ai_id ?c = i" "ai_track_index ?c = track" "ai_scene_index ?c = scene"
    by (simp_all add: clip_instance_def Let_def split: prod.splits)
  have dc: "distinct ?cs" using d by (auto simp: clips_distinct_def distinct_map split: if_splits)
  have e': "en_clips (add_clip e i track scene samples st du off ch matrix_clip)
      = (if list_ex ?same ?cs then map_first ?same (\<lambda>_. ?c) ?cs else ?cs @ [?c])"
    by (simp add: add_clip_def Let_def)
  show ?thesis
  proof (cases "list_ex ?same ?cs")
    case True
    have "map ai_id (map_first ?same (\<lambda>_. ?c) ?cs) = map ai_id ?cs" if "en_mode e = OpenStudio"
      using that by (intro map_map_first_key) (simp add: same_clip_def c)
    moreover have "map (\<lambda>c. (ai_track_index c, ai_scene_index c)) (map_first ?same (\<lambda>_. ?c) ?cs)
        = map (\<lambda>c. (ai_track_index c, ai_scene_index c)) ?cs" if "en_mode e \<noteq> OpenStudio"
      using that by (intro map_map_first_key) (simp add: same_clip_def at_slot_def c)
    ultimately have "clips_distinct (en_mode e) (map_first ?same (\<lambda>_. ?c) ?cs)"
      using d by (simp add: clips_distinct_def)
    moreover have "set (map_first ?same (\<lambda>_. ?c) ?cs) = insert ?c {c \<in> set ?cs. \<not> ?same c}"
      using True clips_distinct_same [OF d] dc
      by (intro map_first_const_spec) (auto simp: list_ex_iff)
    ultimately show ?thesis using True by (simp add: e')
  next
    case False
    then have no: "\<forall>c \<in> set ?cs. \<not> ?same c" by (simp add: list_ex_iff)
    then have "clips_distinct (en_mode e) (?cs @ [?c])"
      using d c by (auto simp: clips_distinct_def same_clip_def at_slot_def)
    moreover have "set (?cs @ [?c]) = insert ?c {c \<in> set ?cs. \<not> ?same c}" using no by auto
    ultimately show ?thesis using False by (simp add: e')
  qed
qed

definition demo_engine :: "unit AudioEngine" where
  "demo_engine = engine_with_clocks (Num 48000) 0 0"

lemma add_clip_unique_witness:
  "clips_distinct (en_mode demo_engine) (en_clips demo_engine) \<and>
   length (en_clips (add_clip demo_engine 7 0 0 [Num 1, Num 1] (Num 0) (Num 0) (Num 0) 1 True)) = 1"
proof -
  have d: "clips_distinct (en_mode demo_engine) (en_clips demo_engine)"
    by (simp add: clips_distinct_def demo_engine_def engine_with_clocks_def)
  with add_clip_unique [OF d, of 7 0 0 "[Num 1, Num 1]" "Num 0" "Num 0" "Num 0" 1 True] show ?thesis
    by (simp add: add_clip_def Let_def demo_engine_def engine_with_clocks_def)
qed

section \<open>Launching\<close>

text \<open>At most one pad of each track sounds.\<close>

definition one_pad_per_track :: "AudioClipInstance list \<Rightarrow> bool" where
  "one_pad_per_track cs \<longleftrightarrow> (\<forall>c \<in> set cs. \<forall>d \<in> set cs.
     ai_is_playing c \<and> ai_is_playing d \<and> ai_track_index c = ai_track_index d
       \<longrightarrow> ai_scene_index c = ai_scene_index d)"

lemma reset_voice_fields [simp]:
  "ai_track_index (reset_voice f a c) = ai_track_index c"
  "ai_scene_index (reset_voice f a c) = ai_scene_index c"
  "ai_is_playing (reset_voice f a c)"
  "ai_start_absolute (reset_voice f a c) = a" "ai_start_frame (reset_voice f a c) = f"
  "natural_frames (reset_voice f a c) = natural_frames c"
  by (simp_all add: reset_voice_def natural_frames_def)

definition target_playing :: "'i AudioEngine \<Rightarrow> usize \<Rightarrow> usize \<Rightarrow> bool" where
  "target_playing e t s =
     (case find (at_slot t s) (en_clips e) of None \<Rightarrow> False | Some c \<Rightarrow> ai_is_playing c)"

definition launch_origin :: "'i AudioEngine \<Rightarrow> usize \<Rightarrow> usize \<Rightarrow> u64 \<times> u64" where
  "launch_origin e t s =
     (case (if target_playing e t s then None else legato_reference e (Some t)) of
        Some o1 \<Rightarrow> o1 | None \<Rightarrow> (tp_sample_count (en_transport e), en_absolute_frame e))"

definition launched :: "'i AudioEngine \<Rightarrow> usize \<Rightarrow> usize \<Rightarrow> AudioClipInstance \<Rightarrow> AudioClipInstance" where
  "launched e t s c =
     (if ai_track_index c \<noteq> t then c
      else if ai_scene_index c = s \<and> \<not> target_playing e t s
      then reset_voice (fst (launch_origin e t s)) (snd (launch_origin e t s)) c
      else c\<lparr>ai_is_playing := False\<rparr>)"

lemma trigger_clip_map: "en_clips (trigger_clip e t s) = map (launched e t s) (en_clips e)"
  by (simp add: trigger_clip_def Let_def launched_def launch_origin_def target_playing_def
      split: prod.split)

lemma launched_fields [simp]:
  "ai_track_index (launched e t s c) = ai_track_index c"
  "ai_scene_index (launched e t s c) = ai_scene_index c"
  "ai_is_playing (launched e t s c)
    = (if ai_track_index c = t then ai_scene_index c = s \<and> \<not> target_playing e t s else ai_is_playing c)"
  by (simp_all add: launched_def)

lemma one_pad_map:
  assumes "\<And>c. ai_track_index (f c) = ai_track_index c \<and> ai_scene_index (f c) = ai_scene_index c"
    and "\<And>c d. c \<in> set cs \<Longrightarrow> d \<in> set cs \<Longrightarrow> ai_is_playing (f c) \<Longrightarrow> ai_is_playing (f d) \<Longrightarrow>
      ai_track_index c = ai_track_index d \<Longrightarrow> ai_scene_index c = ai_scene_index d"
  shows "one_pad_per_track (map f cs)"
  unfolding one_pad_per_track_def
proof (intro ballI impI)
  fix x y assume "x \<in> set (map f cs)" "y \<in> set (map f cs)"
    and p: "ai_is_playing x \<and> ai_is_playing y \<and> ai_track_index x = ai_track_index y"
  then obtain c d where c: "c \<in> set cs" "x = f c" and d: "d \<in> set cs" "y = f d" by auto
  then have "ai_scene_index c = ai_scene_index d"
    using assms(2) [OF c(1) d(1)] assms(1) p by metis
  then show "ai_scene_index x = ai_scene_index y" using c d assms(1) by metis
qed

lemma one_padD:
  "one_pad_per_track cs \<Longrightarrow> c \<in> set cs \<Longrightarrow> d \<in> set cs \<Longrightarrow> ai_is_playing c \<Longrightarrow> ai_is_playing d \<Longrightarrow>
   ai_track_index c = ai_track_index d \<Longrightarrow> ai_scene_index c = ai_scene_index d"
  unfolding one_pad_per_track_def by blast

text \<open>
  C4. Launching a pad, launching a scene and stopping a track keep at most one sounding pad
  per track; after launching a pad that was silent it is the one of its track, and launching
  a sounding pad silences the track.
\<close>

theorem launches_one_pad_per_track:
  assumes one: "one_pad_per_track (en_clips e)"
  shows "one_pad_per_track (en_clips (trigger_clip e t s))
    \<and> one_pad_per_track (en_clips (trigger_scene e s))
    \<and> one_pad_per_track (en_clips (stop_track e t))
    \<and> (\<forall>c \<in> set (en_clips (trigger_clip e t s)). ai_track_index c = t \<longrightarrow>
        ai_is_playing c = (ai_scene_index c = s \<and> \<not> target_playing e t s))"
proof (intro conjI)
  show "one_pad_per_track (en_clips (trigger_clip e t s))"
    unfolding trigger_clip_map
    by (rule one_pad_map) (auto split: if_splits intro: one_padD [OF one])
  have ts: "en_clips (trigger_scene e s) = map (\<lambda>c.
      if ai_scene_index c = s then reset_voice (tp_sample_count (en_transport e)) (en_absolute_frame e) c
      else if ai_track_index c \<in> ai_track_index ` {c \<in> set (en_clips e). ai_scene_index c = s}
      then c\<lparr>ai_is_playing := False\<rparr> else c) (en_clips e)"
    by (simp add: trigger_scene_def Let_def)
  show "one_pad_per_track (en_clips (trigger_scene e s))"
    unfolding ts
  proof (rule one_pad_map)
    fix c d
    let ?tracks = "ai_track_index ` {c \<in> set (en_clips e). ai_scene_index c = s}"
    let ?f = "\<lambda>c. if ai_scene_index c = s
      then reset_voice (tp_sample_count (en_transport e)) (en_absolute_frame e) c
      else if ai_track_index c \<in> ?tracks then c\<lparr>ai_is_playing := False\<rparr> else c"
    have p: "ai_is_playing (?f c) \<longleftrightarrow> ai_scene_index c = s \<or> ai_track_index c \<notin> ?tracks \<and> ai_is_playing c"
      for c by simp
    assume c: "c \<in> set (en_clips e)" and d: "d \<in> set (en_clips e)"
      and pl: "ai_is_playing (?f c)" "ai_is_playing (?f d)" and tr: "ai_track_index c = ai_track_index d"
    have in_row: "ai_track_index x \<in> ?tracks" if "x \<in> set (en_clips e)" "ai_scene_index x = s" for x
      using that by blast
    show "ai_scene_index c = ai_scene_index d"
    proof (cases "ai_track_index c \<in> ?tracks")
      case True
      then have "ai_scene_index c = s" using pl(1) unfolding p by blast
      moreover have "ai_track_index d \<in> ?tracks" using True unfolding tr .
      then have "ai_scene_index d = s" using pl(2) unfolding p by blast
      ultimately show ?thesis by (rule trans [OF _ sym])
    next
      case False
      then have "ai_track_index d \<notin> ?tracks" unfolding tr .
      then have "ai_scene_index c \<noteq> s" "ai_scene_index d \<noteq> s" using False in_row c d by blast+
      then have "ai_is_playing c" "ai_is_playing d" using pl unfolding p by blast+
      then show ?thesis by (rule one_padD [OF one c d _ _ tr])
    qed
  qed simp
  show "one_pad_per_track (en_clips (stop_track e t))"
  proof -
    have "one_pad_per_track (map (\<lambda>c. if ai_track_index c = t then c\<lparr>ai_is_playing := False\<rparr> else c) (en_clips e))"
    proof (rule one_pad_map)
      fix c d
      assume "c \<in> set (en_clips e)" "d \<in> set (en_clips e)"
        "ai_is_playing (if ai_track_index c = t then c\<lparr>ai_is_playing := False\<rparr> else c)"
        "ai_is_playing (if ai_track_index d = t then d\<lparr>ai_is_playing := False\<rparr> else d)"
        "ai_track_index c = ai_track_index d"
      then show "ai_scene_index c = ai_scene_index d"
        using one_padD [OF one, of c d] by (simp split: if_splits)
    qed simp
    then show ?thesis by (simp add: stop_track_def)
  qed
  show "\<forall>c \<in> set (en_clips (trigger_clip e t s)). ai_track_index c = t \<longrightarrow>
        ai_is_playing c = (ai_scene_index c = s \<and> \<not> target_playing e t s)"
    by (simp add: trigger_clip_map)
qed

lemma clip_instance_fields [simp]:
  "ai_track_index (clip_instance sr i t s xs st du off ch m) = t"
  "ai_scene_index (clip_instance sr i t s xs st du off ch m) = s"
  "\<not> ai_is_playing (clip_instance sr i t s xs st du off ch m)"
  "ai_start_absolute (clip_instance sr i t s xs st du off ch m) = 0"
  by (simp_all add: clip_instance_def Let_def split: prod.split)

definition demo_pads :: "unit AudioEngine" where
  "demo_pads = demo_engine\<lparr>en_mode := OpenLive, en_absolute_frame := 900, en_clips :=
     [(clip_instance (Num 48000) 1 0 0 (replicate 4 (Num 1)) (Num 0) (Num 0) (Num 0) 1 True)
        \<lparr>ai_is_playing := True, ai_start_absolute := 100\<rparr>,
      clip_instance (Num 48000) 2 0 1 (replicate 4 (Num 1)) (Num 0) (Num 0) (Num 0) 1 True]\<rparr>"

theorem launches_one_pad_per_track_witness:
  "one_pad_per_track (en_clips demo_pads) \<and> list_ex ai_is_playing (en_clips demo_pads)
     \<and> map ai_is_playing (en_clips (trigger_clip demo_pads 0 1)) = [False, True]
     \<and> one_pad_per_track (en_clips (trigger_clip demo_pads 0 1)) \<and> one_pad_per_track (en_clips (trigger_scene demo_pads 1))"
proof -
  have one: "one_pad_per_track (en_clips demo_pads)" by (simp add: one_pad_per_track_def demo_pads_def)
  have "list_ex ai_is_playing (en_clips demo_pads)" by (simp add: demo_pads_def)
  moreover have "map ai_is_playing (en_clips (trigger_clip demo_pads 0 1)) = [False, True]"
    by (simp add: trigger_clip_map) (simp add: demo_pads_def target_playing_def at_slot_def)
  ultimately show ?thesis using launches_one_pad_per_track [OF one] one by blast
qed

section \<open>Phase\<close>

text \<open>What the position of a voice depends on, besides its origin.\<close>

definition same_loop :: "AudioClipInstance \<Rightarrow> AudioClipInstance \<Rightarrow> bool" where
  "same_loop c d \<longleftrightarrow> natural_frames c = natural_frames d \<and> ai_loop_enabled c = ai_loop_enabled d
     \<and> ai_loop_start c = ai_loop_start d \<and> ai_loop_end c = ai_loop_end d
     \<and> ai_duration_frames c = ai_duration_frames d"

lemma same_loop_frame:
  "same_loop c d \<Longrightarrow> ai_start_absolute c = ai_start_absolute d \<Longrightarrow>
   voice_frame_linear c p tr = voice_frame_linear d p tr"
proof -
  assume s: "same_loop c d" and a: "ai_start_absolute c = ai_start_absolute d"
  have "has_valid_clip_loop c = has_valid_clip_loop d" "quantized_loop_len c tr = quantized_loop_len d tr"
    "emission_len_frames c = emission_len_frames d" "natural_frames c = natural_frames d"
    "ai_loop_start c = ai_loop_start d"
    using s by (simp_all add: same_loop_def has_valid_clip_loop_def quantized_loop_len_def
        raw_loop_len_def emission_len_frames_def Let_def)
  with a show ?thesis by (simp add: voice_frame_linear_def Let_def)
qed

lemma same_loop_launched:
  "same_loop c d \<Longrightarrow> same_loop (reset_voice f a c) d"
  by (simp add: same_loop_def) (simp add: reset_voice_def)

text \<open>The sounding pads a launch takes its phase from: those of its track, or else all.\<close>

definition phase_donors :: "'i AudioEngine \<Rightarrow> usize \<Rightarrow> AudioClipInstance set" where
  "phase_donors e t =
     (let sounding = {c \<in> set (en_clips e). ai_is_playing c}; own = {c \<in> sounding. ai_track_index c = t}
      in if own = {} then sounding else own)"

lemma launch_origin_donor:
  assumes silent: "\<not> target_playing e t s"
  shows "if phase_donors e t = {} then launch_origin e t s = (tp_sample_count (en_transport e), en_absolute_frame e)
    else \<exists>d \<in> phase_donors e t. (\<forall>x \<in> phase_donors e t. ai_start_absolute d \<le> ai_start_absolute x)
      \<and> launch_origin e t s = (ai_start_frame d, ai_start_absolute d)"
proof -
  let ?own = "filter ai_is_playing (filter (\<lambda>c. ai_track_index c = t) (en_clips e))"
  let ?all = "filter ai_is_playing (en_clips e)"
  have sets: "set ?own = {c \<in> {c \<in> set (en_clips e). ai_is_playing c}. ai_track_index c = t}"
    "set ?all = {c \<in> set (en_clips e). ai_is_playing c}" by auto
  have pick: "\<exists>d \<in> set cs. (\<forall>x \<in> set cs. ai_start_absolute d \<le> ai_start_absolute x) \<and> min_by ai_start_absolute cs = Some d"
    if ne: "cs \<noteq> []" for cs
  proof -
    obtain d where m: "min_by ai_start_absolute cs = Some d" using ne by fastforce
    then show ?thesis using min_by_Some [OF m] by blast
  qed
  have lo: "launch_origin e t s = (case (case min_by ai_start_absolute ?own of None \<Rightarrow> min_by ai_start_absolute ?all | Some d \<Rightarrow> Some d) of
      Some d \<Rightarrow> (ai_start_frame d, ai_start_absolute d) | None \<Rightarrow> (tp_sample_count (en_transport e), en_absolute_frame e))"
    using silent unfolding launch_origin_def legato_reference_def oldest_playing_def
    by (cases "min_by ai_start_absolute ?own"; cases "min_by ai_start_absolute ?all") (simp_all del: filter_filter)
  show ?thesis
  proof (cases "?own = []")
    case False
    then have "set ?own \<noteq> {}" by (simp only: set_empty simp_thms)
    then have "phase_donors e t = set ?own" unfolding phase_donors_def Let_def sets by (simp only: if_False)
    then show ?thesis using pick [OF False] False unfolding lo by (auto simp del: filter_filter set_filter)
  next
    case own: True
    then have "set ?own = {}" by (simp only: set_empty)
    then have d: "phase_donors e t = set ?all" unfolding phase_donors_def Let_def sets by (simp only: if_True simp_thms)
    show ?thesis
    proof (cases "?all = []")
      case True
      then show ?thesis unfolding lo d own by (simp del: filter_filter)
    next
      case False
      then show ?thesis using pick [OF False] unfolding lo d own by (auto simp del: filter_filter set_filter)
    qed
  qed
qed

text \<open>
  C2. Legato: a silent pad launched takes over the phase origin of the pad that has sounded longest, among
  those of its track if one sounds there and among all others, so a pad with the same loop continues
  from exactly the frame the other one is at, at every later time; with nothing sounding anywhere it
  starts at the current clocks.
\<close>

theorem legato_continues_phase:
  assumes silent: "\<not> target_playing e t s"
    and c: "c \<in> set (en_clips (trigger_clip e t s))" "at_slot t s c"
  shows "ai_is_playing c \<and>
    (if phase_donors e t = {}
     then ai_start_absolute c = en_absolute_frame e \<and> ai_start_frame c = tp_sample_count (en_transport e)
     else \<exists>d \<in> phase_donors e t. (\<forall>x \<in> phase_donors e t. ai_start_absolute d \<le> ai_start_absolute x)
       \<and> ai_start_absolute c = ai_start_absolute d \<and> ai_start_frame c = ai_start_frame d
       \<and> (same_loop c d \<longrightarrow> voice_frame_linear c p tr = voice_frame_linear d p tr))"
proof -
  obtain c0 where "c = launched e t s c0" "at_slot t s c0"
    using c by (auto simp: trigger_clip_map at_slot_def)
  then have c0: "c = reset_voice (fst (launch_origin e t s)) (snd (launch_origin e t s)) c0"
    using silent by (simp add: launched_def at_slot_def)
  then have "ai_is_playing c" "ai_start_absolute c = snd (launch_origin e t s)" "ai_start_frame c = fst (launch_origin e t s)"
    by simp_all
  then show ?thesis using launch_origin_donor [OF silent] same_loop_frame [of c _ p tr] by (auto split: if_splits)
qed

theorem legato_continues_phase_witness:
  "\<not> target_playing demo_pads 0 1
     \<and> (\<exists>c \<in> set (en_clips (trigger_clip demo_pads 0 1)). at_slot 0 1 c \<and> ai_is_playing c \<and> ai_start_absolute c = 100)"
proof -
  have t: "\<not> target_playing demo_pads 0 1"
    by (simp add: target_playing_def demo_pads_def at_slot_def)
  let ?c = "launched demo_pads 0 1 (en_clips demo_pads ! 1)"
  have c: "?c \<in> set (en_clips (trigger_clip demo_pads 0 1))" by (simp add: trigger_clip_map demo_pads_def)
  have s: "at_slot 0 1 ?c" by (simp add: at_slot_def demo_pads_def)
  have "list_ex (\<lambda>c. ai_is_playing c \<and> ai_track_index c = 0) (en_clips demo_pads)" by (simp add: demo_pads_def)
  then have "phase_donors demo_pads 0 \<noteq> {}" by (auto simp: phase_donors_def Let_def list_ex_iff)
  moreover have "list_all (\<lambda>c. ai_is_playing c \<longrightarrow> ai_start_absolute c = 100) (en_clips demo_pads)" by (simp add: demo_pads_def)
  then have "\<forall>d \<in> phase_donors demo_pads 0. ai_start_absolute d = 100"
    by (auto simp: phase_donors_def Let_def list_all_iff split: if_splits)
  ultimately have "ai_is_playing ?c \<and> ai_start_absolute ?c = 100" using legato_continues_phase [OF t c s] by auto
  then show ?thesis using t c s by blast
qed

text \<open>
  C3. Launching a scene restarts its row in phase: every pad of the row sounds from its first
  frame at the current clocks (so pads with the same loop stay on the same frame for ever),
  the other pads of those tracks stop, and the tracks without a pad in the row are untouched.
\<close>

theorem scene_launch_in_phase:
  assumes c: "c \<in> set (en_clips (trigger_scene e s))"
  shows "if ai_scene_index c = s
    then ai_is_playing c \<and> ai_start_absolute c = en_absolute_frame e
      \<and> ai_start_frame c = tp_sample_count (en_transport e)
      \<and> (\<forall>d \<in> set (en_clips (trigger_scene e s)). ai_scene_index d = s \<and> same_loop c d \<longrightarrow>
           voice_frame_linear c p tr = voice_frame_linear d p tr)
    else if \<exists>d \<in> set (en_clips e). ai_scene_index d = s \<and> ai_track_index d = ai_track_index c
    then \<not> ai_is_playing c
    else c \<in> set (en_clips e)"
proof -
  let ?tracks = "ai_track_index ` {c \<in> set (en_clips e). ai_scene_index c = s}"
  let ?f = "\<lambda>c. if ai_scene_index c = s
      then reset_voice (tp_sample_count (en_transport e)) (en_absolute_frame e) c
      else if ai_track_index c \<in> ?tracks then c\<lparr>ai_is_playing := False\<rparr> else c"
  have ts: "set (en_clips (trigger_scene e s)) = ?f ` set (en_clips e)"
    by (simp add: trigger_scene_def Let_def)
  have sc: "ai_scene_index (?f y) = ai_scene_index y \<and> ai_track_index (?f y) = ai_track_index y" for y by simp
  have row: "ai_is_playing x \<and> ai_start_absolute x = en_absolute_frame e
      \<and> ai_start_frame x = tp_sample_count (en_transport e)"
    if x: "x \<in> ?f ` set (en_clips e)" "ai_scene_index x = s" for x
  proof -
    obtain x0 where x0: "x = ?f x0" using x(1) by blast
    have "ai_scene_index x0 = s" using x(2) sc [of x0, folded x0] by simp
    then have "x = reset_voice (tp_sample_count (en_transport e)) (en_absolute_frame e) x0" using x0 by simp
    then show ?thesis by simp
  qed
  have tracks: "(\<exists>d \<in> set (en_clips e). ai_scene_index d = s \<and> ai_track_index d = k) \<longleftrightarrow> k \<in> ?tracks" for k
    by auto
  from c [unfolded ts] obtain c0 where c0: "c = ?f c0" "c0 \<in> set (en_clips e)" by (rule imageE)
  show ?thesis
  proof (cases "ai_scene_index c = s")
    case True
    note rc = row [OF c [unfolded ts] True]
    have "voice_frame_linear c p tr = voice_frame_linear d p tr"
      if d: "d \<in> set (en_clips (trigger_scene e s))" "ai_scene_index d = s" and sl: "same_loop c d" for d
    proof -
      have "ai_start_absolute c = ai_start_absolute d" using rc row [OF d(1) [unfolded ts] d(2)] by simp
      with sl show ?thesis by (rule same_loop_frame)
    qed
    with True rc show ?thesis by simp
  next
    case False
    have n: "ai_scene_index c0 \<noteq> s" "ai_track_index c = ai_track_index c0"
      using False sc [of c0, folded c0(1)] by simp_all
    then have c1: "c = (if ai_track_index c0 \<in> ?tracks then c0\<lparr>ai_is_playing := False\<rparr> else c0)" using c0(1) by simp
    show ?thesis
    proof (cases "ai_track_index c0 \<in> ?tracks")
      case True
      then show ?thesis using False n(2) c1 unfolding tracks by simp
    next
      case nt: False
      then show ?thesis using False n(2) c1 c0(2) unfolding tracks by simp
    qed
  qed
qed

theorem scene_launch_in_phase_witness:
  "list_all (\<lambda>c. ai_scene_index c = 1 \<longrightarrow> ai_start_absolute c = 900) (en_clips (trigger_scene demo_pads 1))"
  using scene_launch_in_phase [of _ demo_pads 1] by (simp add: demo_pads_def list_all_iff)

section \<open>Mixer gains\<close>

definition mixer_ok :: "'i AudioEngine \<Rightarrow> bool" where
  "mixer_ok e \<longleftrightarrow> length (en_track_volumes e) = 16 \<and> length (en_track_pans e) = 16
     \<and> length (en_track_mutes e) = 16 \<and> length (en_track_solos e) = 16
     \<and> (\<forall>v \<in> set (en_track_volumes e). unit_level v)
     \<and> (\<forall>p \<in> set (en_track_pans e). is_finite p \<and> \<bar>val p\<bar> \<le> 100)"

lemma fdiv_100:
  assumes "is_finite p" "\<bar>val p\<bar> \<le> 100"
  shows "is_finite (fdiv F32 p (Num 100)) \<and> fp_ok F32 (fdiv F32 p (Num 100)) \<and> \<bar>val (fdiv F32 p (Num 100))\<bar> \<le> 1"
proof -
  have "round_q F32 (val p / 100) \<le> 1" "- 1 \<le> round_q F32 (val p / 100)"
    using assms round_q_mono [of "val p / 100" 1 F32] round_q_mono [of "- 1" "val p / 100" F32]
      round_q_uminus [of F32 1]
    by simp_all
  then have r: "\<bar>round_q F32 (val p / 100)\<bar> \<le> 1" by simp
  then have rm: "\<bar>round_q F32 (val p / 100)\<bar> \<le> fmax_val F32" by simp
  have d: "\<exists>b. fdiv F32 p (Num 100) = mk F32 b (val p / 100)"
    using assms by (cases p) (auto simp: fdiv_def)
  then show ?thesis using r val_mk [OF rm] is_finite_mk [OF rm] by auto
qed

lemma one_minus:
  assumes "is_finite x" "0 \<le> val x" "val x \<le> 1"
  shows "is_finite (fsub F32 (Num 1) x) \<and> 0 \<le> val (fsub F32 (Num 1) x) \<and> val (fsub F32 (Num 1) x) \<le> 1"
proof -
  have "0 \<le> round_q F32 (1 - val x)" "round_q F32 (1 - val x) \<le> 1"
    using assms round_q_nonneg [of "1 - val x" F32] round_q_mono [of "1 - val x" 1 F32] by simp_all
  then have r: "\<bar>round_q F32 (1 - val x)\<bar> \<le> fmax_val F32" by simp
  show ?thesis
    using assms \<open>0 \<le> round_q F32 (1 - val x)\<close> \<open>round_q F32 (1 - val x) \<le> 1\<close> val_mk [OF r] is_finite_mk [OF r]
    by (simp add: fsub_def fadd_finite)
qed

lemma one_plus:
  assumes "is_finite x" "- 1 \<le> val x" "val x \<le> 0"
  shows "is_finite (fadd F32 (Num 1) x) \<and> 0 \<le> val (fadd F32 (Num 1) x) \<and> val (fadd F32 (Num 1) x) \<le> 1"
proof -
  have a: "0 \<le> round_q F32 (1 + val x)" "round_q F32 (1 + val x) \<le> 1"
    using assms round_q_nonneg [of "1 + val x" F32] round_q_mono [of "1 + val x" 1 F32] by simp_all
  then have r: "\<bar>round_q F32 (1 + val x)\<bar> \<le> fmax_val F32" by simp
  show ?thesis
    using assms a val_mk [OF r] is_finite_mk [OF r] by (simp add: fadd_finite)
qed

text \<open>
  The gains of a track are finite, between 0 and its volume on both sides, one side is
  never attenuated by the pan, and a muted track, or one that is not soloed while another is,
  has gain 0 on both sides.
\<close>

lemma track_gains_bounds:
  assumes ok: "mixer_ok e" and t: "t < 16"
  shows "(let (gl, gr) = track_gains e t; vol = en_track_volumes e ! t;
       silent = en_track_mutes e ! t \<or> (\<exists>s \<in> set (en_track_solos e). s) \<and> \<not> en_track_solos e ! t
     in is_finite gl \<and> is_finite gr \<and> 0 \<le> val gl \<and> val gl \<le> val vol \<and> 0 \<le> val gr \<and> val gr \<le> val vol
       \<and> (if silent then val gl = 0 \<and> val gr = 0 else val gl = val vol \<or> val gr = val vol))"
proof -
  let ?pan = "fdiv F32 (en_track_pans e ! t) (Num 100)"
  define silent where "silent \<longleftrightarrow> en_track_mutes e ! t \<or> (\<exists>s \<in> set (en_track_solos e). s) \<and> \<not> en_track_solos e ! t"
  define eff where "eff = (if silent then Num 0 else en_track_volumes e ! t)"
  define kl where "kl = (if lt (Num 0) ?pan then fsub F32 (Num 1) ?pan else Num 1)"
  define kr where "kr = (if lt ?pan (Num 0) then fadd F32 (Num 1) ?pan else Num 1)"
  have vol: "unit_level (en_track_volumes e ! t)" using ok t by (simp add: mixer_ok_def)
  have pan: "is_finite ?pan" "\<bar>val ?pan\<bar> \<le> 1"
    using ok t fdiv_100 [of "en_track_pans e ! t"] by (simp_all add: mixer_ok_def)
  have eff: "is_finite eff" "fp_ok F32 eff" "0 \<le> val eff"
    using vol by (simp_all add: eff_def unit_level_def)
  have kl: "is_finite kl" "0 \<le> val kl" "val kl \<le> 1"
    using pan one_minus [of ?pan] by (auto simp: kl_def lt_finite)
  have kr: "is_finite kr" "0 \<le> val kr" "val kr \<le> 1"
    using pan one_plus [of ?pan] by (auto simp: kr_def lt_finite)
  have g: "track_gains e t = (fmul F32 eff kl, fmul F32 eff kr)"
    by (auto simp: track_gains_def Let_def eff_def silent_def kl_def kr_def list_ex_iff)
  have full: "fmul F32 eff (Num 1) = eff \<or> val (fmul F32 eff (Num 1)) = val eff"
    using eff fp_ok_val [OF eff(2)] by (cases eff) (auto simp: fmul_def mk_def Let_def)
  have "val (fmul F32 eff kl) = val eff \<or> val (fmul F32 eff kr) = val eff"
    using full pan by (auto simp: kl_def kr_def lt_finite)
  moreover have "val eff \<le> val (en_track_volumes e ! t)" using vol by (simp add: eff_def unit_level_def)
  moreover have "silent \<Longrightarrow> val eff = 0" "\<not> silent \<Longrightarrow> val eff = val (en_track_volumes e ! t)"
    by (simp_all add: eff_def)
  ultimately show ?thesis
    using fmul_scale [OF eff kl] fmul_scale [OF eff kr] unfolding g Let_def silent_def [symmetric]
    by (auto intro: order_trans)
qed

lemma track_gains_bounds_witness:
  "mixer_ok (set_track_mute demo_engine 3 True) \<and> val (fst (track_gains (set_track_mute demo_engine 3 True) 3)) = 0"
proof -
  have ok: "mixer_ok (set_track_mute demo_engine 3 True)"
  proof -
    have "round_q F32 (3 / 4) = 3 / 4" using round_q_representable [of 3 F32 "- 2"]
      by (simp add: power_int_def power2_eq_square)
    then show ?thesis
      by (simp add: mixer_ok_def set_track_mute_def demo_engine_def engine_with_clocks_def unit_level_def)
  qed
  have "en_track_mutes (set_track_mute demo_engine 3 True) ! 3"
    by (simp add: set_track_mute_def demo_engine_def engine_with_clocks_def)
  with track_gains_bounds [OF ok, of 3] ok show ?thesis by (auto simp: Let_def split: prod.splits)
qed

end
