(* ===== verification/EngineSafety.thy ===== *)
theory EngineSafety
  imports EngineProcess EngineControl
begin

text \<open>
  What the render callback promises: it never reads outside the buffers of clips that are
  set up soundly, it advances the two clocks and keeps the size of the block; and the places
  where the code does something else than it means to.
\<close>

section \<open>Reading a clip\<close>

lemma read_pair_ok:
  assumes "1 \<le> unat ch" "unat idx + unat ch \<le> length xs" "length xs < 2 ^ 62"
  shows "\<exists>p. read_pair xs ch idx gl gr = Some p"
proof -
  have "unat (idx + 1) = unat idx + 1" if "1 < unat ch"
    using that assms unat_add_small [of idx 1] by simp
  with assms show ?thesis by (auto simp: read_pair_def raw_read_def Let_def word_less_nat_alt)
qed

text \<open>A read of frame \<open>f\<close> is guarded by the length, provided \<open>f * ch\<close> does not wrap around.\<close>

lemma guarded_read:
  assumes "1 \<le> unat ch" "length xs < 2 ^ 62" "unat f * unat ch + unat ch < 2 ^ 64"
    and "f * ch + ch \<le> vlen xs"
  shows "\<exists>p. read_pair xs ch (f * ch) gl gr = Some p"
proof -
  have 1: "unat (f * ch) = unat f * unat ch" using assms(3) by (intro unat_mul_small) simp
  have "unat (f * ch + ch) = unat f * unat ch + unat ch"
    using assms(3) 1 by (subst unat_add_small) simp_all
  with assms(2,4) have "unat (f * ch) + unat ch \<le> length xs"
    by (simp add: 1 word_le_nat_alt unat_vlen_ok vec_ok_def)
  with assms(1,2) show ?thesis by (intro read_pair_ok)
qed

section \<open>Clips that are set up soundly\<close>

text \<open>
  The channel count is at least one, the sample fits in memory, and the positions that index
  it do not wrap around: the offset with the duration (OpenStudio), and the previous frame of
  a cross-fade (OpenLive).  \<open>add_clip\<close> gives all of it for any offset below 2^60 frames.
\<close>

definition clip_safe :: "AudioClipInstance \<Rightarrow> bool" where
  "clip_safe c \<longleftrightarrow> length (ai_samples c) < 2 ^ 62 \<and> 1 \<le> unat (ai_channels c)
     \<and> (unat (ai_sample_offset c) div unat (ai_channels c) + unat (ai_duration_frames c) + 1)
         * unat (ai_channels c) < 2 ^ 64
     \<and> (0 < ai_xfade_remaining c \<longrightarrow> unat (ai_prev_frame c) * unat (ai_channels c) + unat (ai_channels c) < 2 ^ 64)"

lemma clip_safe_channels:
  "clip_safe c \<Longrightarrow> max (ai_channels c) 1 = ai_channels c \<and> 1 \<le> unat (ai_channels c)
    \<and> length (ai_samples c) < 2 ^ 62"
  by (simp add: clip_safe_def word_eq_nat unat_max)

lemma studio_frame_ok:
  assumes "clip_safe c"
  shows "\<exists>buf'. studio_frame c t fs gl gr f buf = Some buf' \<and> length buf' = length buf"
proof -
  define ch where "ch = max (ai_channels c) 1"
  define g where "g = wrap_sample_count t (fs + word_of_nat f)"
  define rel where "rel = g - ai_start_frame c"
  define off where "off = ai_sample_offset c div ch"
  have ch: "ch = ai_channels c" "1 \<le> unat ch"
    using clip_safe_channels [OF assms] by (simp_all add: ch_def)
  have "\<exists>p. read_pair (ai_samples c) ch ((off + rel) * ch) gl gr = Some p"
    if g: "\<not> g < ai_start_frame c" "\<not> sat_add (ai_start_frame c) (ai_duration_frames c) \<le> g"
      and le: "(off + rel) * ch + ch \<le> vlen (ai_samples c)"
  proof -
    have r: "unat rel = unat g - unat (ai_start_frame c)" "unat (ai_start_frame c) \<le> unat g"
      using g(1) by (simp_all add: rel_def unat_sub_le word_le_nat_alt not_less)
    have "unat g < unat (ai_start_frame c) + unat (ai_duration_frames c)"
      using g(2) by (auto simp: word_le_nat_alt unat_sat_add not_le)
    then have rd: "unat rel + 1 \<le> unat (ai_duration_frames c)" using r by linarith
    have uo: "unat off = unat (ai_sample_offset c) div unat ch" by (simp add: off_def unat_div_distrib)
    have "(unat off + unat rel + 1) * unat ch
        \<le> (unat (ai_sample_offset c) div unat ch + unat (ai_duration_frames c) + 1) * unat ch"
      using rd uo by (intro mult_le_mono1) linarith
    also have "\<dots> < 2 ^ 64" using assms ch by (simp add: clip_safe_def)
    finally have b: "(unat off + unat rel + 1) * unat ch < 2 ^ 64" .
    moreover have "unat off + unat rel + 1 \<le> (unat off + unat rel + 1) * unat ch"
      using mult_le_mono2 [OF ch(2), of "unat off + unat rel + 1"] by (simp only: mult_1_right)
    ultimately have "unat off + unat rel < 2 ^ 64" by linarith
    then have s: "unat (off + rel) = unat off + unat rel" using unat_add_small [of off rel] by simp
    have "unat (off + rel) * unat ch + unat ch < 2 ^ 64" using b by (simp add: s algebra_simps)
    then show ?thesis using ch(2) le assms by (intro guarded_read) (simp_all add: clip_safe_def)
  qed
  then show ?thesis
    unfolding studio_frame_def Let_def ch_def [symmetric] g_def [symmetric] rel_def [symmetric] off_def [symmetric]
    by (auto simp: add_pair_def Let_def)
qed

lemma studio_frames_ok:
  "clip_safe c \<Longrightarrow> \<exists>buf'. studio_frames c t fs gl gr ns buf = Some buf' \<and> length buf' = length buf"
proof (induction ns arbitrary: buf)
  case (Cons n ns)
  obtain b where b: "studio_frame c t fs gl gr n buf = Some b" "length b = length buf"
    using studio_frame_ok [OF Cons.prems] by blast
  with Cons.IH [OF Cons.prems, of b] show ?case by simp
qed simp

lemma event_frames_length:
  "length (snd (event_frames c t es gl gr ns buf)) = length buf"
proof (induction ns arbitrary: buf)
  case (Cons n ns)
  then show ?case by (auto simp: add_pair_def Let_def split: option.splits prod.splits)
qed simp

lemma natural_frames_samples:
  assumes "clip_safe c" "ai_events c = []"
  shows "unat (natural_frames c) * unat (ai_channels c) \<le> length (ai_samples c)"
proof -
  have m: "max (ai_channels c) 1 = ai_channels c"
    using clip_safe_channels [OF assms(1)] by simp
  have "unat (natural_frames c) = length (ai_samples c) div unat (ai_channels c)"
    using assms by (simp add: natural_frames_def m unat_div_distrib unat_vlen_ok vec_ok_def clip_safe_def)
  then show ?thesis by simp
qed

lemma frame_below_natural:
  assumes "clip_safe c" "ai_events c = []" "f < natural_frames c"
  shows "unat f * unat (ai_channels c) + unat (ai_channels c) \<le> length (ai_samples c)"
proof -
  have "(unat f + 1) * unat (ai_channels c) \<le> unat (natural_frames c) * unat (ai_channels c)"
    using assms(3) by (intro mult_le_mono1) (simp add: word_less_nat_alt)
  with natural_frames_samples [OF assms(1,2)] show ?thesis by (simp add: algebra_simps)
qed

lemma legacy_mix_ok:
  assumes s: "clip_safe c" and f: "unat f * unat (ai_channels c) + unat (ai_channels c) < 2 ^ 64"
  shows "\<exists>c' m. legacy_mix c gl gr f = Some (c', m) \<and> clip_safe (c'\<lparr>ai_prev_frame := f\<rparr>)
    \<and> ai_samples c' = ai_samples c \<and> ai_channels c' = ai_channels c \<and> ai_events c' = ai_events c"
proof -
  have ch: "max (ai_channels c) 1 = ai_channels c" "1 \<le> unat (ai_channels c)" "length (ai_samples c) < 2 ^ 62"
    using clip_safe_channels [OF s] by blast+
  have pf: "clip_safe (c\<lparr>ai_prev_frame := f\<rparr>)"
    "clip_safe (c\<lparr>ai_xfade_remaining := x, ai_prev_frame := f\<rparr>)" for x
    using s f by (simp_all add: clip_safe_def)
  have new: "\<exists>p. read_pair (ai_samples c) (ai_channels c) (f * ai_channels c) gl gr = Some p"
    if "f * ai_channels c + ai_channels c \<le> vlen (ai_samples c)"
    using guarded_read [OF ch(2,3) f that] .
  have old: "\<exists>p. (if ai_prev_frame c * ai_channels c + ai_channels c \<le> vlen (ai_samples c)
      then read_pair (ai_samples c) (ai_channels c) (ai_prev_frame c * ai_channels c) gl gr
      else Some (Num 0, Num 0)) = Some p" if "0 < ai_xfade_remaining c"
  proof -
    have b: "unat (ai_prev_frame c) * unat (ai_channels c) + unat (ai_channels c) < 2 ^ 64"
      using s that by (simp add: clip_safe_def)
    show ?thesis using guarded_read [OF ch(2,3) b] by (auto split: if_splits)
  qed
  show ?thesis
  proof (cases "f * ai_channels c + ai_channels c \<le> vlen (ai_samples c)")
    case True
    obtain l r where n: "read_pair (ai_samples c) (ai_channels c) (f * ai_channels c) gl gr = Some (l, r)"
      using new [OF True] by auto
    show ?thesis
    proof (cases "0 < ai_xfade_remaining c")
      case x: True
      from old [OF x] obtain lo ro where "(if ai_prev_frame c * ai_channels c + ai_channels c \<le> vlen (ai_samples c)
          then read_pair (ai_samples c) (ai_channels c) (ai_prev_frame c * ai_channels c) gl gr
          else Some (Num 0, Num 0)) = Some (lo, ro)" by auto
      then show ?thesis using True x n pf unfolding legacy_mix_def Let_def ch(1) by simp
    next
      case False
      then show ?thesis using True n pf unfolding legacy_mix_def Let_def ch(1) by simp
    qed
  next
    case False
    then show ?thesis using pf unfolding legacy_mix_def Let_def ch(1) by simp
  qed
qed


lemma start_xfade_safe:
  assumes "clip_safe c" "unat f * unat (ai_channels c) + unat (ai_channels c) < 2 ^ 64"
    and "0 < x \<Longrightarrow> ai_prev_frame c \<noteq> - 1 \<Longrightarrow>
      unat (ai_prev_frame c) * unat (ai_channels c) + unat (ai_channels c) < 2 ^ 64"
  shows "clip_safe (start_xfade x em f c)"
  using assms by (auto simp: start_xfade_def clip_safe_def)

lemma start_xfade_fields [simp]:
  "ai_samples (start_xfade x em f c) = ai_samples c" "ai_channels (start_xfade x em f c) = ai_channels c"
  "ai_events (start_xfade x em f c) = ai_events c"
  by (simp_all add: start_xfade_def)

text \<open>
  In the loop over a block the previous frame is either unset or one that was read, so the
  invariant of the loop is \<open>clip_safe\<close> with \<open>prev_ok\<close>.
\<close>

definition prev_ok :: "AudioClipInstance \<Rightarrow> bool" where
  "prev_ok c \<longleftrightarrow> (ai_prev_frame c \<noteq> - 1 \<longrightarrow>
     unat (ai_prev_frame c) * unat (ai_channels c) + unat (ai_channels c) < 2 ^ 64)"

lemma legacy_frames_ok:
  assumes "clip_safe c" "prev_ok c"
    and pos: "\<And>f. has_loop \<or> \<not> em \<le> es + word_of_nat f \<Longrightarrow>
      unat (legacy_position has_loop ls ll (es + word_of_nat f)) * unat (ai_channels c)
        + unat (ai_channels c) < 2 ^ 64"
  shows "\<exists>b c' buf'. legacy_frames has_loop em ls ll es gl gr ns c buf = Some (b, c', buf')
    \<and> clip_safe c' \<and> prev_ok c' \<and> length buf' = length buf"
  using assms
proof (induction ns arbitrary: c buf)
  case (Cons n ns)
  let ?e = "es + word_of_nat n" let ?f = "legacy_position has_loop ls ll ?e"
  let ?c = "start_xfade (if has_loop then 32 else 0) em ?f c"
  show ?case
  proof (cases "\<not> has_loop \<and> em \<le> ?e")
    case True
    with Cons.prems show ?thesis by (auto simp: Let_def)
  next
    case False
    then have f: "unat ?f * unat (ai_channels c) + unat (ai_channels c) < 2 ^ 64"
      using Cons.prems(3) by blast
    have "clip_safe ?c"
      using Cons.prems(1,2) f by (intro start_xfade_safe) (auto simp: prev_ok_def)
    from legacy_mix_ok [OF this, of ?f gl gr] f
    obtain c' m where m: "legacy_mix ?c gl gr ?f = Some (c', m)" "clip_safe (c'\<lparr>ai_prev_frame := ?f\<rparr>)"
      "ai_channels c' = ai_channels c" by auto
    have p: "prev_ok (c'\<lparr>ai_prev_frame := ?f\<rparr>)" using f m(3) by (simp add: prev_ok_def)
    let ?buf = "case m of None \<Rightarrow> buf | Some (l, r) \<Rightarrow> add_pair buf n l r"
    have lb: "length ?buf = length buf" by (simp add: add_pair_def Let_def split: option.split prod.split)
    have "\<exists>b c2 buf2. legacy_frames has_loop em ls ll es gl gr ns (c'\<lparr>ai_prev_frame := ?f\<rparr>) ?buf
        = Some (b, c2, buf2) \<and> clip_safe c2 \<and> prev_ok c2 \<and> length buf2 = length ?buf"
      using Cons.prems(3) m(3) by (intro Cons.IH [OF m(2) p]) simp
    then show ?thesis using False m(1) lb by (auto simp: Let_def)
  qed
next
  case Nil
  then show ?case by (intro exI [of _ False] exI [of _ c] exI [of _ buf]) simp
qed

lemma legacy_position_range:
  assumes "has_valid_clip_loop c"
  shows "legacy_position True (min (ai_loop_start c) (natural_frames c)) (quantized_loop_len c t) e < natural_frames c"
proof -
  note r = looped_range [OF assms, of t] looped_start [OF assms] and m = looped_mod_range(3) [OF assms, of _ t]
  have le: "ai_loop_start c + quantized_loop_len c t \<le> natural_frames c"
    unfolding word_le_nat_alt r(2) by (rule r(1))
  show ?thesis using m le by (auto simp: legacy_position_def Let_def r(3))
qed

lemma clip_block_ok:
  assumes s: "clip_safe c" and p: "prev_ok c"
  shows "\<exists>c' buf'. clip_block mode t now n gl gr c buf = Some (c', buf')
    \<and> clip_safe c' \<and> prev_ok c' \<and> length buf' = length buf"
proof -
  have stop: "clip_safe (stopped_if b c) \<longleftrightarrow> clip_safe c" "prev_ok (stopped_if b c) \<longleftrightarrow> prev_ok c" for b c
    by (simp_all add: stopped_if_def clip_safe_def prev_ok_def)
  obtain b1 where b1: "studio_frames c t (tp_sample_count t) gl gr [0..<n] buf = Some b1" "length b1 = length buf"
    using studio_frames_ok [OF s] by blast
  obtain fin ev where ev: "event_frames c t (now - ai_start_absolute c) gl gr [0..<n] buf = (fin, ev)"
    "length ev = length buf"
    using event_frames_length [of c t "now - ai_start_absolute c" gl gr "[0..<n]" buf] by (metis snd_conv surj_pair)
  define lp where "lp = (if has_valid_clip_loop c
    then (min (ai_loop_start c) (natural_frames c), quantized_loop_len c t) else (0, 0))"
  have pos: "unat (legacy_position (has_valid_clip_loop c) (fst lp) (snd lp) e) * unat (ai_channels c)
      + unat (ai_channels c) < 2 ^ 64"
    if ne: "ai_events c = []" and e: "has_valid_clip_loop c \<or> \<not> emission_len_frames c \<le> e" for e
  proof -
    have "legacy_position (has_valid_clip_loop c) (fst lp) (snd lp) e < natural_frames c"
    proof (cases "has_valid_clip_loop c")
      case True
      then show ?thesis using legacy_position_range [OF True] by (simp add: lp_def)
    next
      case False
      have "emission_len_frames c \<le> natural_frames c" by (simp add: emission_len_frames_def Let_def)
      with False e show ?thesis by (auto simp: legacy_position_def)
    qed
    moreover have "length (ai_samples c) < 2 ^ 62" using clip_safe_channels [OF s] by blast
    ultimately show ?thesis using frame_below_natural [OF s ne] by fastforce
  qed
  have leg: "\<exists>b c' buf'. legacy_frames (has_valid_clip_loop c) (emission_len_frames c) (fst lp) (snd lp)
      (now - ai_start_absolute c) gl gr [0..<n] c buf = Some (b, c', buf')
      \<and> clip_safe c' \<and> prev_ok c' \<and> length buf' = length buf" if "ai_events c = []"
    using pos [OF that] by (intro legacy_frames_ok [OF s p]) blast
  show ?thesis
  proof (cases "ai_events c = []")
    case True
    from leg [OF True] show ?thesis using s p b1 True
      unfolding clip_block_def Let_def lp_def [symmetric]
      by (cases lp) (auto simp: stop)
  next
    case False
    then show ?thesis using s p b1 ev by (simp add: clip_block_def Let_def stop)
  qed
qed

section \<open>The whole callback\<close>

definition engine_safe :: "'i AudioEngine \<Rightarrow> bool" where
  "engine_safe e \<longleftrightarrow> pool_ok (en_heap e) (en_voice_pool e) \<and> (\<forall>c \<in> set (en_clips e). clip_safe c \<and> prev_ok c)"

lemma clips_block_ok:
  "\<forall>c \<in> set cs. clip_safe c \<and> prev_ok c \<Longrightarrow> \<forall>b \<in> set bufs. length b = k \<Longrightarrow> length bufs = 16 \<Longrightarrow>
   \<exists>cs' bufs'. clips_block mode t now n gains cs bufs = Some (cs', bufs')
     \<and> (\<forall>c \<in> set cs'. clip_safe c \<and> prev_ok c) \<and> (\<forall>b \<in> set bufs'. length b = k) \<and> length bufs' = 16"
proof (induction cs arbitrary: bufs)
  case (Cons c cs)
  let ?ti = "unat (min (ai_track_index c) 15)"
  obtain gl gr where g: "gains ?ti = (gl, gr)" by fastforce
  have ti: "?ti < length bufs" using Cons.prems(3) by (simp add: unat_min)
  obtain c' b' where b: "clip_block mode t now n gl gr c (bufs ! ?ti) = Some (c', b')"
    "clip_safe c'" "prev_ok c'" "length b' = k"
    using clip_block_ok [of c mode t now n gl gr "bufs ! ?ti"] Cons.prems nth_mem [OF ti] by auto
  have "\<forall>x \<in> set (bufs[?ti := b']). length x = k"
    using Cons.prems(2) b(4) set_update_subset_insert [of bufs ?ti b'] by auto
  with Cons.IH [of "bufs[?ti := b']"] Cons.prems b g show ?case by (auto simp: Let_def)
qed simp

lemma chain_process_length:
  assumes "\<And>i b. length (fst (run i b)) = length b"
  shows "length (fst (snd (chain_process run ns buf taps))) = length buf"
proof (induction ns arbitrary: buf taps)
  case (Cons n ns)
  have "length (fst (snd (node_process run n buf taps))) = length buf"
    using assms by (simp add: node_process_def Let_def split: prod.split) (metis fst_conv)
  with Cons show ?case by (simp add: Let_def split: prod.split) (metis fst_conv snd_conv)
qed simp

lemma mix_tracks_length:
  assumes "\<And>i b. length (fst (run i b)) = length b"
  shows "\<forall>b \<in> set bufs. length b = length samples \<Longrightarrow>
    length (fst (snd (mix_tracks run chs bufs samples taps))) = length samples"
proof (induction bufs arbitrary: chs samples taps)
  case Nil
  then show ?case by (cases chs) simp_all
next
  case (Cons buf bufs)
  show ?case
  proof (cases chs)
    case (Cons chain chs1)
    obtain c fx tp where f: "(if chain = [] then (chain, buf, taps) else chain_process run chain buf taps) = (c, fx, tp)"
      by (rule prod_cases3)
    have "length fx = length buf"
    proof (cases "chain = []")
      case False
      then have "chain_process run chain buf taps = (c, fx, tp)" using f by simp
      with chain_process_length [of run chain buf taps, OF assms] show ?thesis by simp
    qed (use f in simp)
    then have l: "length (add_track samples fx) = length samples" using Cons.prems by (simp add: add_track_def)
    obtain chs' s' p' t' where m: "mix_tracks run chs1 bufs (add_track samples fx) tp = (chs', s', p', t')"
      by (rule prod_cases4)
    have "length s' = length samples"
      using Cons.IH [of "add_track samples fx" chs1 tp] Cons.prems l m by simp
    then show ?thesis using f m Cons by (simp add: Let_def)
  qed simp
qed

lemma interleave_add_length: "length (interleave_add samples ls rs) = length samples"
proof -
  have "length (fold (\<lambda>i buf. add_pair buf i (f i) (g i)) is buf) = length buf" for f g "is" buf
    by (induction "is" arbitrary: buf) (simp_all add: add_pair_def Let_def)
  then show ?thesis by (simp add: interleave_add_def)
qed

lemma preview_loops_length:
  "length (fst (preview_stereo n b out)) = length out" "length (fst (preview_mono n b out)) = length out"
  by (induction n b out rule: preview_stereo.induct; simp add: Let_def split: prod.split; metis fst_conv)
    (induction n b out rule: preview_mono.induct; simp add: Let_def split: prod.split; metis fst_conv)


lemma preview_process_length: "length (fst (preview_process b out)) = length out"
  using preview_loops_length by (auto simp: preview_process_def Let_def split: prod.split) (metis fst_conv)+

lemma preview_stage_shape:
  "\<exists>pv out. preview_stage e samples = (out, e\<lparr>en_preview := pv\<rparr>) \<and> length out = length samples"
proof (cases "preview_is_active (en_preview e)")
  case True
  obtain out b where o: "preview_process (pp_shared (en_preview e)) samples = (out, b)" by fastforce
  have "length out = length samples"
    using preview_process_length [of "pp_shared (en_preview e)" samples] o by simp
  with True o show ?thesis by (auto simp: preview_stage_def)
next
  case False
  then show ?thesis by (intro exI [of _ "en_preview e"] exI [of _ samples]) (simp add: preview_stage_def)
qed

lemma process_always_shape:
  assumes "process_always e len = Some (e', out)"
  shows "\<exists>pv pool. e' = e\<lparr>en_preview := pv, en_voice_pool := pool\<rparr> \<and> length out = len"
proof -
  obtain pv samples where p: "preview_stage e (replicate len (Num 0)) = (samples, e\<lparr>en_preview := pv\<rparr>)"
    "length samples = len" using preview_stage_shape [of e "replicate len (Num 0)"] by auto
  then show ?thesis using assms
    by (auto simp: process_always_def Let_def interleave_add_length split: option.splits)
qed

lemma process_always_ok:
  assumes "engine_safe e"
  shows "\<exists>e' out. process_always e len = Some (e', out) \<and> engine_safe e' \<and> length out = len"
proof -
  obtain pv samples where p: "preview_stage e (replicate len (Num 0)) = (samples, e\<lparr>en_preview := pv\<rparr>)"
    "length samples = len" using preview_stage_shape [of e "replicate len (Num 0)"] by auto
  let ?e = "e\<lparr>en_preview := pv\<rparr>"
  have ok: "pool_ok (en_heap e) (en_voice_pool e)" using assms by (simp add: engine_safe_def)
  obtain pool dl dr where d: "process_all_with_gains (en_heap ?e) (en_voice_pool ?e) (replicate (len div 2) (Num 0))
      (replicate (len div 2) (Num 0)) (map fst (map (track_gains ?e) [0..<16]))
      (map snd (map (track_gains ?e) [0..<16])) (en_sample_rate ?e) = Some (pool, dl, dr)"
    "pool_ok (en_heap e) pool"
    using pool_safe_block [OF ok] by fastforce
  have "process_always e len = Some (?e\<lparr>en_voice_pool := pool\<rparr>, interleave_add samples dl dr)"
    using p d(1) by (simp add: process_always_def Let_def)
  moreover have "engine_safe (?e\<lparr>en_voice_pool := pool\<rparr>)" using assms d(2) by (simp add: engine_safe_def)
  ultimately show ?thesis using p(2) by (simp add: interleave_add_length)
qed

lemma process_playing_ok:
  assumes "engine_safe e" and run: "\<And>i b. length (fst (run i b)) = length b"
  shows "\<exists>e' out. process_playing run e samples = Some (e', out) \<and> engine_safe e' \<and> length out = length samples"
proof -
  obtain cs' bufs where c: "clips_block (en_mode e) (en_transport e) (en_absolute_frame e) (length samples div 2)
      (track_gains e) (en_clips e) (replicate 16 (replicate (length samples) (Num 0))) = Some (cs', bufs)"
    "\<forall>c \<in> set cs'. clip_safe c \<and> prev_ok c" "\<forall>b \<in> set bufs. length b = length samples"
    using clips_block_ok [of "en_clips e" "replicate 16 (replicate (length samples) (Num 0))" "length samples"
        "en_mode e" "en_transport e" "en_absolute_frame e" "length samples div 2" "track_gains e"] assms(1)
    by (auto simp: engine_safe_def)
  obtain chs s ps tp where m: "mix_tracks run (cs_effects (en_chains e)) bufs samples (cs_taps (en_chains e))
      = (chs, s, ps, tp)" by (rule prod_cases4)
  have "length s = length samples"
    using mix_tracks_length [of run bufs samples "cs_effects (en_chains e)" "cs_taps (en_chains e)", OF run c(3)] m
    by simp
  then show ?thesis using c m assms(1) by (simp add: process_playing_def Let_def engine_safe_def)
qed

text \<open>
  C1. Memory safety of the render callback: from a safe engine state (the buffers of the
  sounding drum voices are allocated, the positions of every clip fit in a \<open>usize\<close>) a block
  of any length is rendered without reading outside a buffer, the block keeps its length, and
  the state it leaves is safe again, so every later block is rendered too.  The plugin
  instances are only assumed to keep the length of the slice they process.
\<close>

theorem process_memory_safe:
  assumes safe: "engine_safe e" and run: "\<And>i b. length (fst (run i b)) = length b"
  shows "\<exists>e' out. process th run e len = Some (e', out) \<and> engine_safe e' \<and> length out = len"
proof -
  obtain e1 s where a: "process_always e len = Some (e1, s)" "engine_safe e1" "length s = len"
    using process_always_ok [OF safe] by blast
  have ml: "length (master_out th mg xs) = length xs" for mg xs
    by (simp add: master_out_def Let_def flush_denormals_def)
  have keep: "engine_safe (x\<lparr>en_output_level := a, en_position_clock := b, en_absolute_clock := c\<rparr>) = engine_safe x"
    "engine_safe (x\<lparr>en_track_peaks := ps\<rparr>) = engine_safe x"
    "engine_safe (x\<lparr>en_output_level := a\<rparr>) = engine_safe x"
    "engine_safe (x\<lparr>en_output_level := a, en_track_peaks := ps\<rparr>) = engine_safe x" for x a b c ps
    by (simp_all add: engine_safe_def)
  show ?thesis
  proof (cases "tp_playback_state (en_transport e1) = Playing")
    case True
    from process_playing_ok [OF a(2), of run s, OF run] obtain e2 s2 where
      "process_playing run e1 s = Some (e2, s2)" "engine_safe e2" "length s2 = length s" by blast
    then show ?thesis using True a by (simp add: process_def Let_def keep ml)
  next
    case False
    then show ?thesis using a by (simp add: process_def Let_def keep ml)
  qed
qed

theorem process_memory_safe_witness:
  "engine_safe (play demo_pads) \<and> (\<exists>e' out. process (\<lambda>s. s) (\<lambda>i b. (b, i)) (play demo_pads) 64 = Some (e', out))"
proof -
  have v: "pool_ok (en_heap (play demo_pads)) (en_voice_pool (play demo_pads))"
    by (simp add: play_def demo_pads_def demo_engine_def engine_with_clocks_def pool_ok_def pool_new_def
        voice_ok_def dms_voice_new_def)
  have c: "clip_safe (clip_instance (Num 48000) i t s (replicate 4 (Num 1)) (Num 0) (Num 0) (Num 0) 1 True)
      \<and> prev_ok (clip_instance (Num 48000) i t s (replicate 4 (Num 1)) (Num 0) (Num 0) (Num 0) 1 True)" for i t s
    by (simp add: clip_safe_def prev_ok_def clip_instance_def Let_def secs_to_frames_def fmul_def mk_def vlen_def)
  have "engine_safe (play demo_pads)"
    using v c [of 1 0 0] c [of 2 0 1]
    by (simp add: engine_safe_def) (simp add: play_def demo_pads_def clip_safe_def prev_ok_def)
  with process_memory_safe [OF this, of "\<lambda>i b. (b, i)" "\<lambda>s. s" 64] show ?thesis by auto
qed

text \<open>
  C6. The clocks: while the transport plays, a block advances the monotonic clock by its
  number of frames (saturating) and the position by the same, wrapped into the global loop;
  otherwise both stand still; and both are published to the GUI in the same callback.
\<close>

theorem process_clocks:
  assumes "process th run e len = Some (e', out)" "0 < len div 2"
  shows "en_absolute_frame e' = (if tp_playback_state (en_transport e) = Playing
       then sat_add (en_absolute_frame e) (word_of_nat (len div 2)) else en_absolute_frame e)
    \<and> en_transport e' = (if tp_playback_state (en_transport e) = Playing
       then (en_transport e)\<lparr>tp_sample_count := wrap_sample_count (en_transport e)
              (tp_sample_count (en_transport e) + word_of_nat (len div 2))\<rparr> else en_transport e)
    \<and> en_position_clock e' = tp_sample_count (en_transport e')
    \<and> en_absolute_clock e' = en_absolute_frame e'"
proof -
  obtain e1 s where a: "process_always e len = Some (e1, s)"
    using assms(1) by (auto simp: process_def split: option.splits)
  from process_always_shape [OF a] obtain pv pool where
    e1: "e1 = e\<lparr>en_preview := pv, en_voice_pool := pool\<rparr>" and s: "length s = len" by blast
  show ?thesis
    using assms a s
    by (auto simp: process_def process_playing_def Let_def e1 split: if_splits prod.splits option.splits)
qed

theorem process_clocks_witness:
  "\<exists>e' out. process (\<lambda>s. s) (\<lambda>i b. (b, i)) (pause demo_engine) 64 = Some (e', out) \<and> en_absolute_frame e' = 0"
proof -
  have "engine_safe (pause demo_engine)"
    by (simp add: engine_safe_def pause_def demo_engine_def engine_with_clocks_def pool_ok_def pool_new_def
        voice_ok_def dms_voice_new_def)
  then obtain e1 s where a: "process_always (pause demo_engine) 64 = Some (e1, s)"
    "length s = 64" using process_always_ok by blast
  have "tp_playback_state (en_transport e1) \<noteq> Playing"
    using process_always_shape [OF a(1)] by (auto simp: pause_def)
  then obtain e' out where p: "process (\<lambda>s. s) (\<lambda>i b. (b, i)) (pause demo_engine) 64 = Some (e', out)"
    using a by (simp add: process_def Let_def)
  from process_clocks [OF p] p show ?thesis
    by (simp add: pause_def demo_engine_def engine_with_clocks_def)
qed

end
