(* ===== verification/EngineFaults.thy ===== *)
theory EngineFaults
  imports EngineSafety
begin

text \<open>
  Where the render callback of crates/hikaru_audio_engine/src/lib.rs does not do what it
  means to: the pan of mono clips, the playhead of clips whose loop starts late, and the
  raw pointer of a drum voice whose pad is loaded again.
\<close>

section \<open>Mono clips and pan\<close>

lemma read_pair_mono: "\<not> 1 < ch \<Longrightarrow> read_pair xs ch i gl gr = read_pair xs ch i gl gr'"
  by (simp add: read_pair_def Let_def split: option.split)

lemma studio_frames_mono:
  assumes "ai_channels c \<le> 1"
  shows "studio_frames c t p gl gr fs buf = studio_frames c t p gl gr' fs buf"
proof (induction fs arbitrary: buf)
  case (Cons f fs)
  have ch: "\<not> 1 < max (ai_channels c) 1" using assms by (simp add: not_less)
  note r = read_pair_mono [OF ch, of _ _ gl gr gr']
  have "studio_frame c t p gl gr f buf = studio_frame c t p gl gr' f buf"
    unfolding studio_frame_def Let_def by (simp only: r)
  then show ?case by (simp add: Cons split: option.split)
qed simp

lemma legacy_mix_mono: "ai_channels c \<le> 1 \<Longrightarrow> legacy_mix c gl gr i = legacy_mix c gl gr' i"
proof -
  assume "ai_channels c \<le> 1"
  then have "\<not> 1 < max (ai_channels c) 1" by (simp add: not_less)
  note r = read_pair_mono [OF this, of _ _ gl gr gr']
  show ?thesis unfolding legacy_mix_def Let_def by (simp only: r)
qed

lemma legacy_mix_channels: "legacy_mix c gl gr i = Some (c', m) \<Longrightarrow> ai_channels c' = ai_channels c"
  by (auto simp: legacy_mix_def Let_def split: if_splits option.splits prod.splits)

lemma legacy_frames_mono:
  "ai_channels c \<le> 1 \<Longrightarrow>
   legacy_frames hl em ls k el gl gr fs c buf = legacy_frames hl em ls k el gl gr' fs c buf"
proof (induction fs arbitrary: c buf)
  case (Cons f fs)
  define p where "p = legacy_position hl ls k (el + word_of_nat f)"
  define d where "d = start_xfade (if hl then 32 else 0) em p c"
  have d: "ai_channels d \<le> 1" using Cons.prems by (simp add: d_def start_xfade_def)
  note m = legacy_mix_mono [OF d, of gl gr p gr']
  show ?case
  proof (cases "legacy_mix d gl gr' p")
    case None
    then show ?thesis using m
      unfolding legacy_frames.simps Let_def p_def [symmetric] d_def [symmetric] by simp
  next
    case (Some r)
    obtain c' mix where r: "r = (c', mix)" by fastforce
    have "ai_channels (c'\<lparr>ai_prev_frame := p\<rparr>) \<le> 1"
      using legacy_mix_channels [of d gl gr' p c' mix] Some r d by simp
    note ih = Cons.IH [OF this]
    show ?thesis using m Some r ih
      unfolding legacy_frames.simps Let_def p_def [symmetric] d_def [symmetric] by (cases hl) simp_all
  qed
qed simp

text \<open>
  The right gain of a track does not reach a mono clip: for a clip with one channel and
  no events, whatever block is rendered, the result is the same for every right gain, because
  the right output reuses the left sample with the left gain already applied.  So a pan to
  the left, which only lowers the right gain, is inaudible on such a clip, and a pan hard to
  the right silences it.
\<close>

lemma mono_clip_ignores_right_gain:
  assumes "ai_channels c \<le> 1" "ai_events c = []" "\<not> feq gl (Num 0)"
  shows "clip_block mode t now n gl gr c buf = clip_block mode t now n gl gr' c buf"
  using assms studio_frames_mono [OF assms(1), of t "tp_sample_count t" gl gr "[0..<n]" buf gr']
    legacy_frames_mono [OF assms(1), of _ _ _ _ _ gl gr "[0..<n]" buf gr']
  by (simp add: clip_block_def Let_def)

lemma mono_clip_ignores_right_gain_witness:
  "(\<forall>gr. clip_block OpenLive (transport_new (Num 48000) (Num 120)) 0 8 (Num 1) gr
        (clip_instance (Num 48000) 1 0 0 [Num 1] (Num 0) (Num 0) (Num 0) 1 True) (replicate 16 (Num 0))
      = clip_block OpenLive (transport_new (Num 48000) (Num 120)) 0 8 (Num 1) (Num 0)
        (clip_instance (Num 48000) 1 0 0 [Num 1] (Num 0) (Num 0) (Num 0) 1 True) (replicate 16 (Num 0)))
   \<and> ai_channels (clip_instance (Num 48000) 1 0 0 [Num 1] (Num 0) (Num 0) (Num 0) 1 True) = 1"
proof -
  let ?c = "clip_instance (Num 48000) 1 0 0 [Num 1] (Num 0) (Num 0) (Num 0) 1 True"
  have c: "ai_channels ?c = 1" "ai_events ?c = []" by (simp_all add: clip_instance_def Let_def)
  have g: "\<not> feq (Num 1) (Num 0)" by (simp add: feq_def)
  show ?thesis
    using mono_clip_ignores_right_gain [OF _ c(2) g, of OpenLive "transport_new (Num 48000) (Num 120)" 0 8]
    c by simp
qed

section \<open>Audio position and playhead\<close>

text \<open>
  The playhead and the audio of a looping one-sample pad without events agree only when the loop starts
  at 0: the frame the renderer of a one-sample pad reads is the frame that \<open>clip_frame_for_elapsed\<close>
  (hence \<open>voice_frame_linear\<close>, the GUI playhead) reports, at all times, exactly when
  \<open>clip_loop_start = 0\<close>.  With a loop that starts later the renderer first plays the intro
  while the playhead already shows the loop.
\<close>

lemma playhead_follows_audio_iff:
  assumes loop: "has_valid_clip_loop c"
  shows "(\<forall>x. clip_frame_for_elapsed c x t
            = Some (legacy_position True (min (ai_loop_start c) (natural_frames c)) (quantized_loop_len c t) x))
         \<longleftrightarrow> ai_loop_start c = 0"
proof -
  define s q where "s = ai_loop_start c" and "q = quantized_loop_len c t"
  note r = looped_range [OF loop, of t, folded s_def q_def]
  have cf: "clip_frame_for_elapsed c x t = Some (s + x mod q)" for x
    using loop looped_start [OF loop] by (simp add: clip_frame_for_elapsed_def Let_def s_def q_def)
  have q0: "0 < q" using quantized_loop_len_pos [of c t] by (simp add: q_def word_order_nat)
  have pos: "0 < s + q" using r(2) q0 by (simp add: word_less_nat_alt)
  have zero: "x mod q = legacy_position True 0 q x" for x
  proof (cases "x < q")
    case False
    then have "unat (x - q) = unat x - unat q" "unat q \<le> unat x"
      by (simp_all add: unat_sub_le word_le_nat_alt not_less)
    then have "x mod q = (x - q) mod q"
      by (simp add: word_eq_nat unat_mod_distrib le_mod_geq)
    with False show ?thesis by (simp add: legacy_position_def)
  qed (simp add: legacy_position_def word_less_nat_alt word_eq_nat unat_mod_distrib)
  show ?thesis unfolding looped_start(1) [OF loop] unfolding s_def [symmetric] q_def [symmetric] cf
  proof
    assume "\<forall>x. Some (s + x mod q) = Some (legacy_position True s q x)"
    then have "s + 0 mod q = legacy_position True s q 0" by blast
    with pos show "s = 0" by (simp add: legacy_position_def)
  next
    assume "s = 0"
    with zero show "\<forall>x. Some (s + x mod q) = Some (legacy_position True s q x)" by simp
  qed
qed

definition demo_loop :: AudioClipInstance where
  "demo_loop = (clip_instance (Num 48000) 1 0 0 (replicate 4 (Num 1)) (Num 0) (Num 0) (Num 0) 1 True)
     \<lparr>ai_loop_start := 2\<rparr>"

lemma playhead_follows_audio_iff_witness:
  "has_valid_clip_loop demo_loop \<and>
   (\<exists>x. clip_frame_for_elapsed demo_loop x (transport_new (Num 48000) (Num 120)) \<noteq>
      Some (legacy_position True (min (ai_loop_start demo_loop) (natural_frames demo_loop))
              (quantized_loop_len demo_loop (transport_new (Num 48000) (Num 120))) x))"
proof -
  have v: "has_valid_clip_loop demo_loop" "ai_loop_start demo_loop \<noteq> 0"
    by (simp_all add: demo_loop_def clip_instance_def Let_def has_valid_clip_loop_def natural_frames_def vlen_def)
  with playhead_follows_audio_iff [OF v(1), of "transport_new (Num 48000) (Num 120)"] show ?thesis by blast
qed

section \<open>Reloading a sounding pad\<close>

lemma process_frame_dangling:
  assumes "dv_active v" "dv_env_stage v = Attack \<or> dv_env_stage v = Decay \<or> dv_env_stage v = Sustain"
    "to_word (dv_play_pos v) < dv_sample_len v" "deref h (dv_samples v) = None"
  shows "process_frame h sr v = None"
proof -
  obtain o1 d v1 where a: "advance_envelope v sr = ((o1, d), v1)" by (metis surj_pair)
  have v1: "dv_samples v1 = dv_samples v" "dv_play_pos v1 = dv_play_pos v" "dv_sample_len v1 = dv_sample_len v"
    "dv_env_stage v1 = dv_env_stage v"
    using a by (auto simp: advance_envelope_def Let_def split: DmsEnvStage.splits if_splits)
  obtain v2 where v2: "(if d then next_stage v1 else Some v1) = Some v2" "dv_samples v2 = dv_samples v"
      "dv_play_pos v2 = dv_play_pos v" "dv_sample_len v2 = dv_sample_len v"
    using assms(2) v1 by (cases d) (auto simp: next_stage_def)
  show ?thesis using assms a v2 by (auto simp: process_frame_def Let_def not_le [symmetric])
qed

lemma voice_block_length:
  "voice_block h sr a b u l r = Some (u', l', r') \<Longrightarrow> length l' = length l \<and> length r' = length r"
proof (induction h sr a b u l r arbitrary: u' l' r' rule: voice_block.induct)
  case (1 h sr gl gr v lx lxs rx rxs)
  obtain s v1 where p: "process_frame h sr v = Some (s, v1)"
    using 1(2) by (auto split: option.splits)
  obtain v2 l2 r2 where b: "voice_block h sr gl gr v1 lxs rxs = Some (v2, l2, r2)"
    using 1(2) p by (auto split: option.splits prod.splits)
  have "length l2 = length lxs \<and> length r2 = length rxs"
    using 1(1) [OF p _ _ b] by (metis surj_pair)
  then show ?case using 1(2) p b by (auto split: prod.splits if_splits)
qed simp_all

lemma voices_block_dangling:
  "v \<in> set vs \<Longrightarrow> dv_active v \<Longrightarrow> process_frame h sr v = None \<Longrightarrow> lx \<noteq> [] \<Longrightarrow> rx \<noteq> [] \<Longrightarrow>
   length lx = length rx \<Longrightarrow>
   voices_block h sr gl gr vs lx rx = None"
proof (induction vs arbitrary: lx rx)
  case (Cons w vs)
  show ?case
  proof (cases "w = v")
    case True
    obtain x xs y ys where "lx = x # xs" "rx = y # ys" using Cons.prems by (metis neq_Nil_conv)
    with True Cons.prems show ?thesis by simp
  next
    case False
    show ?thesis
    proof (cases "dv_active w")
      case True
      let ?t = "unat (min (dv_track_idx w) 15)"
      show ?thesis
      proof (cases "voice_block h sr (gl ! ?t) (gr ! ?t) w lx rx")
        case (Some r)
        obtain u l' r' where r: "r = (u, l', r')" by (rule prod_cases3)
        have "length l' = length lx" "length r' = length rx" using voice_block_length Some r by blast+
        then have "voices_block h sr gl gr vs l' r' = None"
          using Cons.IH [of l' r'] Cons.prems False by force
        with Some r True show ?thesis by (simp add: Let_def)
      qed (use True in \<open>simp add: Let_def\<close>)
    next
      case False
      with Cons.IH [of lx rx] Cons.prems show ?thesis by auto
    qed
  qed
qed simp


lemma process_always_dangling:
  assumes v: "v \<in> set (vp_voices (en_voice_pool e))" "dv_active v"
    and f: "process_frame (en_heap e) (en_sample_rate e) v = None" and len: "2 \<le> len"
  shows "process_always e len = None"
proof -
  obtain pv samples where p: "preview_stage e (replicate len (Num 0)) = (samples, e\<lparr>en_preview := pv\<rparr>)"
    using preview_stage_shape [of e "replicate len (Num 0)"] by auto
  have ne: "replicate (len div 2) (Num 0) \<noteq> []" using len by simp
  have "voices_block (en_heap e) (en_sample_rate e) gl gr (vp_voices (en_voice_pool e))
      (replicate (len div 2) (Num 0)) (replicate (len div 2) (Num 0)) = None" for gl gr
    by (rule voices_block_dangling [OF v f ne ne]) simp
  then show ?thesis by (simp add: process_always_def p Let_def process_all_with_gains_def)
qed

text \<open>
  C10. Reloading a pad while it sounds is a use after free: a drum voice keeps a raw pointer
  into the sample bank, \<open>load_dms_sample_for_track\<close> frees the old buffer without stopping the
  voices that read it, and the next block of at least one frame dereferences the freed
  buffer, whatever else the engine is doing.
\<close>

theorem reload_sounding_pad_dangles:
  assumes bank: "bank_sample e (dms_pad_key track pad) = Some (a, ch)" "a < en_next_addr e"
    and v: "v \<in> set (vp_voices (en_voice_pool e))" "dv_active v" "dv_samples v = Slice a"
    "dv_env_stage v \<in> {Attack, Decay, Sustain}" "to_word (dv_play_pos v) < dv_sample_len v"
    and len: "2 \<le> len"
  shows "process th run (load_dms_sample_for_track e track pad new_samples channels) len = None"
proof -
  let ?e = "load_dms_sample_for_track e track pad new_samples channels"
  have k: "unat (dms_pad_key track pad) < length (en_dms_samples e)"
    "en_dms_samples e ! unat (dms_pad_key track pad) = Some a"
    using bank(1) by (auto simp: bank_sample_def split: if_splits)
  have free: "en_heap ?e a = None"
    using k bank(2) by (simp add: load_dms_sample_for_track_def Let_def grow_to_def nth_append)
  have same: "en_voice_pool ?e = en_voice_pool e" "en_sample_rate ?e = en_sample_rate e"
    by (simp_all add: load_dms_sample_for_track_def Let_def)
  have "process_frame (en_heap ?e) (en_sample_rate ?e) v = None"
    using v free by (intro process_frame_dangling) auto
  then have "process_always ?e len = None"
    using v same len by (intro process_always_dangling [of v]) simp_all
  then show ?thesis by (simp add: process_def)
qed

definition demo_drum :: "unit AudioEngine" where
  "demo_drum = trigger_dms_note (load_dms_sample_for_track demo_engine 0 0 [Num 1, Num 1] 1) 0 (Num 1)
     (Num 0) (Num 1) (Num 1) \<lparr> ad_attack_rate = Num 0, ad_decay_rate = Num 0, ad_sustain_level = Num 1,
        ad_release_rate = Num 0 \<rparr> 0"

theorem reload_sounding_pad_dangles_witness:
  "process (\<lambda>s. s) (\<lambda>i b. (b, i)) (load_dms_sample_for_track demo_drum 0 0 [Num 0] 1) 64 = None"
proof -
  let ?v = "start_voice (Slice 0) 2 1 0 (Num 1) (Num 0) (Num 1) (Num 1) \<lparr> ad_attack_rate = Num 0,
      ad_decay_rate = Num 0, ad_sustain_level = Num 1, ad_release_rate = Num 0 \<rparr> 0 1"
  have key: "dms_pad_key 0 0 = 0" by (simp add: dms_pad_key_def)
  have bank: "bank_sample demo_drum (dms_pad_key 0 0) = Some (0, 1)" "0 < en_next_addr demo_drum"
    by (simp_all add: demo_drum_def trigger_dms_note_def Let_def key bank_sample_def grow_to_def
        load_dms_sample_for_track_def demo_engine_def engine_with_clocks_def)
  have mem: "?v \<in> set (vp_voices (en_voice_pool demo_drum))"
    by (simp add: demo_drum_def trigger_dms_note_def Let_def key bank_sample_def grow_to_def vlen_def
        load_dms_sample_for_track_def demo_engine_def engine_with_clocks_def pool_new_def MAX_DMS_VOICES_def
        pool_trigger_def dms_voice_new_def numeral_eq_Suc)
  have v: "dv_active ?v" "dv_samples ?v = Slice 0" "dv_env_stage ?v \<in> {Attack, Decay, Sustain}"
    "to_word (dv_play_pos ?v) < dv_sample_len ?v"
    by (simp_all add: start_voice_def)
  show ?thesis by (rule reload_sounding_pad_dangles [OF bank mem v]) simp
qed

end
