(* ===== verification/DspEffects.thy ===== *)
theory DspEffects
  imports Ieee
begin

text \<open>
  The native effects of crates/hikaru_dsp/src: flanger, comb filter, phaser, state variable
  filter and the wavetable oscillator.  \<open>sin\<close> and \<open>tan\<close> are parameters.  Every array access
  of the source is checked by Rust, so the model's accesses are partial: \<open>None\<close> is the panic
  of an index out of bounds (on the audio thread, the end of the stream).
\<close>

definition PI :: f32 where "PI = Num (13176795 / 4194304)"

text \<open>\<open>xs[i]\<close>\<close>

definition idx_at :: "'a list \<Rightarrow> usize \<Rightarrow> 'a option" where
  "idx_at xs i = (if unat i < length xs then Some (xs ! unat i) else None)"

section \<open>Flanger\<close>

record Flanger =
  fl_buffer :: "f32 list"
  fl_write_ptr :: usize
  fl_lfo_phase :: f32

definition flanger_new :: Flanger where
  "flanger_new = \<lparr> fl_buffer = replicate 1024 (Num 0), fl_write_ptr = 0, fl_lfo_phase = Num 0 \<rparr>"

definition flanger_process ::
    "(f32 \<Rightarrow> f32) \<Rightarrow> Flanger \<Rightarrow> f32 \<Rightarrow> f32 \<Rightarrow> f32 \<Rightarrow> f32 \<Rightarrow> f32 \<Rightarrow> (f32 \<times> Flanger) option" where
  "flanger_process fsin s input rate depth_ms feedback sample_rate =
     (let phase = fadd F32 (fl_lfo_phase s)
                    (fdiv F32 (fmul F32 (fmul F32 (Num 2) PI) rate) sample_rate);
          lfo_val = fmul F32 (fadd F32 (fsin phase) (Num 1)) (lit F32 (1 / 2));
          delay_samples = fmul F32 (fadd F32 (Num 1) (fmul F32 lfo_val depth_ms))
                            (fdiv F32 sample_rate (Num 1000));
          read_ptr = frem (fadd F32 (fsub F32 (of_u64 F32 (fl_write_ptr s)) delay_samples) (Num 1024))
                       (Num 1024)
      in case idx_at (fl_buffer s) (to_word read_ptr) of
           None \<Rightarrow> None
         | Some delayed \<Rightarrow>
             if unat (fl_write_ptr s) < length (fl_buffer s)
             then Some (fadd F32 input delayed,
                    \<lparr> fl_buffer = (fl_buffer s)[unat (fl_write_ptr s) := fadd F32 input (fmul F32 delayed feedback)],
                      fl_write_ptr = (fl_write_ptr s + 1) mod 1024, fl_lfo_phase = phase \<rparr>)
             else None)"

section \<open>Comb filter\<close>

definition MAX_DELAY :: usize where "MAX_DELAY = 2048"

record CombFilter =
  cf_buffer :: "f32 list"
  cf_write_ptr :: usize
  cf_feedback :: f32
  cf_damp :: f32
  cf_last_out :: f32

definition comb_new :: CombFilter where
  "comb_new = \<lparr> cf_buffer = replicate (unat MAX_DELAY) (Num 0), cf_write_ptr = 0,
     cf_feedback = lit F32 (1 / 2), cf_damp = lit F32 (1 / 5), cf_last_out = Num 0 \<rparr>"

definition comb_process :: "CombFilter \<Rightarrow> f32 \<Rightarrow> f32 \<Rightarrow> (f32 \<times> CombFilter) option" where
  "comb_process s input delay_samples =
     (let size = of_u64 F32 MAX_DELAY;
          read_ptr = frem (fadd F32 (fsub F32 (of_u64 F32 (cf_write_ptr s)) delay_samples) size) size;
          idx0 = to_word read_ptr :: usize;
          idx1 = (idx0 + 1) mod MAX_DELAY;
          frac = fsub F32 read_ptr (of_u64 F32 idx0)
      in case (idx_at (cf_buffer s) idx0, idx_at (cf_buffer s) idx1) of
           (Some x0, Some x1) \<Rightarrow>
             if unat (cf_write_ptr s) < length (cf_buffer s)
             then let delayed = fadd F32 x0 (fmul F32 frac (fsub F32 x1 x0));
                      out = fadd F32 (fmul F32 delayed (fsub F32 (Num 1) (cf_damp s)))
                              (fmul F32 (cf_last_out s) (cf_damp s))
                  in Some (out, s\<lparr>cf_last_out := out,
                       cf_buffer := (cf_buffer s)[unat (cf_write_ptr s) :=
                                       fadd F32 input (fmul F32 out (cf_feedback s))],
                       cf_write_ptr := (cf_write_ptr s + 1) mod MAX_DELAY\<rparr>)
             else None
         | _ \<Rightarrow> None)"

definition comb_set_feedback :: "CombFilter \<Rightarrow> f32 \<Rightarrow> CombFilter" where
  "comb_set_feedback s fb = s\<lparr>cf_feedback := fclamp fb (lit F32 (- 99 / 100)) (lit F32 (99 / 100))\<rparr>"

definition comb_set_damp :: "CombFilter \<Rightarrow> f32 \<Rightarrow> CombFilter" where
  "comb_set_damp s d = s\<lparr>cf_damp := fclamp d (Num 0) (lit F32 (9 / 10))\<rparr>"

section \<open>Phaser\<close>

definition allpass_process :: "f32 \<Rightarrow> f32 \<Rightarrow> f32 \<Rightarrow> f32 \<times> f32" where
  "allpass_process z1 input a =
     (let out = fadd F32 (fmul F32 a input) z1
      in (out, fsub F32 input (fmul F32 a out)))"

record Phaser =
  ph_stages :: "f32 list"
  ph_lfo_phase :: f32
  ph_feedback :: f32
  ph_last_out :: f32

definition phaser_new :: Phaser where
  "phaser_new = \<lparr> ph_stages = replicate 6 (Num 0), ph_lfo_phase = Num 0,
     ph_feedback = lit F32 (2 / 5), ph_last_out = Num 0 \<rparr>"

fun allpass_chain :: "f32 \<Rightarrow> f32 list \<Rightarrow> f32 \<Rightarrow> f32 \<times> f32 list" where
  "allpass_chain a [] out = (out, [])"
| "allpass_chain a (z # zs) out =
     (let (out, z) = allpass_process z out a; (out, zs) = allpass_chain a zs out in (out, z # zs))"

definition phaser_process :: "(f32 \<Rightarrow> f32) \<Rightarrow> Phaser \<Rightarrow> f32 \<Rightarrow> f32 \<Rightarrow> f32 \<Rightarrow> f32 \<Rightarrow> f32 \<times> Phaser" where
  "phaser_process fsin s input rate depth sample_rate =
     (let two_pi = fmul F32 (Num 2) PI;
          phase = fadd F32 (ph_lfo_phase s) (fdiv F32 (fmul F32 two_pi rate) sample_rate);
          phase = (if lt two_pi phase then fsub F32 phase two_pi else phase);
          lfo_val = fmul F32 (fadd F32 (fsin phase) (Num 1)) (lit F32 (1 / 2));
          a = fadd F32 (lit F32 (1 / 5)) (fmul F32 (fmul F32 lfo_val depth) (lit F32 (3 / 5)));
          (out, zs) = allpass_chain a (ph_stages s)
                        (fadd F32 input (fmul F32 (ph_last_out s) (ph_feedback s)))
      in (out, s\<lparr>ph_stages := zs, ph_lfo_phase := phase, ph_last_out := out\<rparr>))"

section \<open>State variable filter\<close>

record StateVariableFilter =
  sv_ic1eq :: f32
  sv_ic2eq :: f32
  sv_g :: f32
  sv_k :: f32
  sv_a1 :: f32
  sv_a2 :: f32
  sv_a3 :: f32

definition svf_new :: StateVariableFilter where
  "svf_new = \<lparr> sv_ic1eq = Num 0, sv_ic2eq = Num 0, sv_g = Num 0, sv_k = Num 0, sv_a1 = Num 0,
     sv_a2 = Num 0, sv_a3 = Num 0 \<rparr>"

definition svf_set_params ::
    "(f32 \<Rightarrow> f32) \<Rightarrow> StateVariableFilter \<Rightarrow> f32 \<Rightarrow> f32 \<Rightarrow> f32 \<Rightarrow> StateVariableFilter" where
  "svf_set_params ftan s cutoff resonance sample_rate =
     (let k = fdiv F32 (Num 1) (fmax resonance (lit F32 (1 / 100)));
          g = ftan (fdiv F32 (fmul F32 PI cutoff) sample_rate);
          a1 = fdiv F32 (Num 1) (fadd F32 (Num 1) (fmul F32 g (fadd F32 g k)));
          a2 = fmul F32 g a1
      in s\<lparr>sv_g := g, sv_k := k, sv_a1 := a1, sv_a2 := a2, sv_a3 := fmul F32 g a2\<rparr>)"

definition svf_process :: "StateVariableFilter \<Rightarrow> f32 \<Rightarrow> (f32 \<times> f32 \<times> f32) \<times> StateVariableFilter" where
  "svf_process s v0 =
     (let v3 = fsub F32 v0 (sv_ic2eq s);
          v1 = fadd F32 (fmul F32 (sv_a1 s) (sv_ic1eq s)) (fmul F32 (sv_a2 s) v3);
          v2 = fadd F32 (fadd F32 (sv_ic2eq s) (fmul F32 (sv_a2 s) (sv_ic1eq s))) (fmul F32 (sv_a3 s) v3)
      in ((v2, fsub F32 (fsub F32 v0 (fmul F32 (sv_k s) v1)) v2, v1),
          s\<lparr>sv_ic1eq := fsub F32 (fmul F32 (Num 2) v1) (sv_ic1eq s),
            sv_ic2eq := fsub F32 (fmul F32 (Num 2) v2) (sv_ic2eq s)\<rparr>))"

section \<open>Wavetable oscillator\<close>

record WavetableOscillator =
  wo_table :: "f32 list"
  wo_phase :: f32
  wo_phase_increment :: f32
  wo_sample_rate :: f32

definition osc_new :: "f32 list \<Rightarrow> f32 \<Rightarrow> WavetableOscillator" where
  "osc_new table sample_rate =
     \<lparr> wo_table = table, wo_phase = Num 0, wo_phase_increment = Num 0, wo_sample_rate = sample_rate \<rparr>"

definition osc_set_frequency :: "WavetableOscillator \<Rightarrow> f32 \<Rightarrow> WavetableOscillator" where
  "osc_set_frequency s frequency = s\<lparr>wo_phase_increment :=
     fdiv F32 (fmul F32 frequency (of_u64 F32 (vlen (wo_table s)))) (wo_sample_rate s)\<rparr>"

definition osc_next_sample :: "WavetableOscillator \<Rightarrow> (f32 \<times> WavetableOscillator) option" where
  "osc_next_sample s =
     (let table_size = vlen (wo_table s); index0 = to_word (wo_phase s) :: usize
      in if table_size = 0 then None
         else let index1 = (index0 + 1) mod table_size;
                  frac = fsub F32 (wo_phase s) (of_u64 F32 index0)
              in case (idx_at (wo_table s) index0, idx_at (wo_table s) index1) of
                   (Some y0, Some y1) \<Rightarrow>
                     Some (fadd F32 y0 (fmul F32 frac (fsub F32 y1 y0)),
                       s\<lparr>wo_phase := frem (fadd F32 (wo_phase s) (wo_phase_increment s))
                                      (of_u64 F32 table_size)\<rparr>)
                 | _ \<Rightarrow> None)"

section \<open>Reading positions stay inside their buffers\<close>

lemma frem_less:
  assumes "0 < n"
  shows "frem a (Num n) = NaN \<or> is_finite (frem a (Num n)) \<and> val (frem a (Num n)) < n"
proof (cases "a = NaN \<or> \<not> is_finite a")
  case False
  define q where "q = val a / n"
  define r where "r = val a - n * of_int (trunc_rat q)"
  have "q - of_int (trunc_rat q) < 1"
    by (simp add: trunc_rat_def) linarith
  moreover have "r = n * (q - of_int (trunc_rat q))" using assms by (simp add: r_def q_def algebra_simps)
  ultimately have "r < n" using assms by simp
  moreover have "frem a (Num n) = (if r = 0 then zero_of (sign_bit a) else Num r)"
    using False assms by (simp add: frem_def r_def q_def Let_def)
  ultimately show ?thesis using assms by (auto simp: zero_of_def)
qed (use assms in \<open>auto simp: frem_def\<close>)

lemma to_word_less:
  assumes "x = NaN \<or> is_finite x \<and> val x < of_nat n" "0 < n" "n < 2 ^ 63"
  shows "unat (to_word x :: usize) < n"
proof (cases x)
  case (Num r)
  then have r: "r < of_nat n" using assms by simp
  show ?thesis
  proof (cases "r \<le> 0")
    case False
    have "(of_nat n :: rat) \<le> of_nat (2 ^ 63)" using assms(3) by (simp only: of_nat_le_iff less_imp_le)
    then have small: "\<not> 2 ^ LENGTH(64) - 1 \<le> r" using r by simp
    have f: "0 \<le> \<lfloor>r\<rfloor>" "\<lfloor>r\<rfloor> < int n" using False r by (simp_all add: floor_less_iff)
    have "int n \<le> 2 ^ 64" using assms(3) by simp
    with f(2) have "\<lfloor>r\<rfloor> < 2 ^ 64" by (rule order_less_le_trans)
    with f have "take_bit 64 \<lfloor>r\<rfloor> = \<lfloor>r\<rfloor>" by (intro take_bit_int_eq_self)
    then have "unat (word_of_int \<lfloor>r\<rfloor> :: usize) = nat \<lfloor>r\<rfloor>" by (simp add: unsigned_of_int)
    moreover have "nat \<lfloor>r\<rfloor> < n" using f nat_less_iff by blast
    ultimately show ?thesis using Num False small by simp
  qed (use Num assms in simp)
qed (use assms in auto)

lemma frem_index:
  assumes "0 < n" "n < 2 ^ 63"
  shows "unat (to_word (frem a (Num (of_nat n))) :: usize) < n"
  using frem_less [of "of_nat n" a] assms by (intro to_word_less) simp_all


lemma idx_at_Some: "unat i < length xs \<Longrightarrow> idx_at xs i = Some (xs ! unat i)"
  by (simp add: idx_at_def)

lemma unat_succ_mod: "unat (m :: usize) = k \<Longrightarrow> 0 < k \<Longrightarrow> unat ((i + 1) mod m) < k"
  by (simp add: unat_mod_distrib)

definition flanger_ok :: "Flanger \<Rightarrow> bool" where
  "flanger_ok s \<longleftrightarrow> length (fl_buffer s) = 1024 \<and> unat (fl_write_ptr s) < 1024"

definition comb_ok :: "CombFilter \<Rightarrow> bool" where
  "comb_ok s \<longleftrightarrow> length (cf_buffer s) = 2048 \<and> unat (cf_write_ptr s) < 2048"

lemma flanger_ok_new: "flanger_ok flanger_new"
  by (simp add: flanger_ok_def flanger_new_def)

lemma comb_ok_new: "comb_ok comb_new"
  by (simp add: comb_ok_def comb_new_def MAX_DELAY_def)

lemma flanger_step:
  assumes "flanger_ok s"
  shows "\<exists>out s'. flanger_process fsin s input rate depth fb sr = Some (out, s') \<and> flanger_ok s'"
proof -
  have "idx_at (fl_buffer s) (to_word (frem x (Num 1024))) \<noteq> None" for x
    using frem_index [of 1024 x] assms by (simp add: flanger_ok_def idx_at_def)
  then show ?thesis
    using assms unat_succ_mod [of 1024 1024 "fl_write_ptr s"]
    by (auto simp: flanger_process_def Let_def flanger_ok_def split: option.split)
qed

lemma comb_step:
  assumes "comb_ok s"
  shows "\<exists>out s'. comb_process s input d = Some (out, s') \<and> comb_ok s'"
proof -
  have size: "of_u64 F32 MAX_DELAY = Num 2048"
    using round_q_of_int [of 2048 F32] by (simp add: of_u64_def MAX_DELAY_def)
  have "unat (to_word (frem x (Num 2048)) :: usize) < length (cf_buffer s)" for x
    using frem_index [of 2048 x] assms by (simp add: comb_ok_def)
  moreover have m: "unat ((i + 1) mod MAX_DELAY) < 2048" for i
    by (rule unat_succ_mod) (simp_all add: MAX_DELAY_def)
  moreover have "unat ((i + 1) mod MAX_DELAY) < length (cf_buffer s)" for i
    using m assms by (simp add: comb_ok_def)
  ultimately show ?thesis
    using assms by (simp add: comb_process_def Let_def size idx_at_Some comb_ok_def)
qed

text \<open>
  The delay lines never index out of bounds: for every input, rate, depth, delay,
  feedback and sample rate (negative, infinite and NaN ones included) and every sine
  function, a sample of the flanger or of the comb filter is processed without a panic and
  leaves the line as long and its write position as valid as before.
\<close>

lemma delay_lines_never_panic:
  assumes "flanger_ok f" "comb_ok c"
  shows "(\<exists>out f'. flanger_process fsin f x rate depth fb sr = Some (out, f') \<and> flanger_ok f')
       \<and> (\<exists>out c'. comb_process c x d = Some (out, c') \<and> comb_ok c')"
  using flanger_step [OF assms(1)] comb_step [OF assms(2)] by blast

lemma delay_lines_never_panic_witness:
  "flanger_ok flanger_new \<and> comb_ok comb_new
   \<and> (\<exists>out f'. flanger_process (\<lambda>x. x) flanger_new NaN PosInf (Num 9) (Num 1) (Num 0) = Some (out, f'))
   \<and> (\<exists>out c'. comb_process comb_new (Num 1) NegInf = Some (out, c'))"
  using delay_lines_never_panic [OF flanger_ok_new comb_ok_new, of "\<lambda>x. x" NaN PosInf "Num 9" "Num 1" "Num 0"]
    delay_lines_never_panic [OF flanger_ok_new comb_ok_new, of "\<lambda>x. x" "Num 1" _ _ _ _ NegInf]
    flanger_ok_new comb_ok_new by blast

section \<open>The oscillator\<close>

definition osc_ok :: "WavetableOscillator \<Rightarrow> bool" where
  "osc_ok s \<longleftrightarrow> wo_table s \<noteq> [] \<and> length (wo_table s) \<le> 2 ^ 24
     \<and> unat (to_word (wo_phase s) :: usize) < length (wo_table s)"

lemma osc_step:
  assumes "osc_ok s"
  shows "\<exists>y s'. osc_next_sample s = Some (y, s') \<and> osc_ok s' \<and> wo_table s' = wo_table s"
proof -
  let ?n = "length (wo_table s)"
  have n: "0 < ?n" "?n \<le> 2 ^ 24" using assms by (auto simp: osc_ok_def)
  have len: "unat (vlen (wo_table s)) = ?n" using n by (simp add: unat_vlen)
  then have ne: "vlen (wo_table s) \<noteq> 0" using n by auto
  have "\<bar>int ?n\<bar> \<le> 2 ^ nat (prec F32)" using n by simp
  from round_q_of_int [OF this] have size: "of_u64 F32 (vlen (wo_table s)) = Num (of_nat ?n)"
    by (simp add: of_u64_def len)
  have small: "?n < 2 ^ 63" using n(2) by simp
  have i1: "unat ((i + 1) mod vlen (wo_table s)) < ?n" for i by (rule unat_succ_mod [OF len n(1)])
  have i0: "unat (to_word (wo_phase s) :: usize) < ?n" using assms by (simp add: osc_ok_def)
  show ?thesis
    using ne i0 i1 frem_index [OF n(1) small] n
    by (simp add: osc_next_sample_def Let_def idx_at_Some size osc_ok_def)
qed

fun osc_run :: "f32 list \<Rightarrow> WavetableOscillator \<Rightarrow> (f32 list \<times> WavetableOscillator) option" where
  "osc_run [] s = Some ([], s)"
| "osc_run (f # fs) s =
     (case osc_next_sample (osc_set_frequency s f) of
        None \<Rightarrow> None
      | Some (y, s) \<Rightarrow> map_option (\<lambda>(ys, s). (y # ys, s)) (osc_run fs s))"

lemma osc_run_ok: "osc_ok s \<Longrightarrow> \<exists>ys s'. osc_run fs s = Some (ys, s') \<and> length ys = length fs"
proof (induction fs arbitrary: s)
  case (Cons f fs)
  have "osc_ok (osc_set_frequency s f)" using Cons.prems by (simp add: osc_ok_def osc_set_frequency_def)
  then obtain y s' where y: "osc_next_sample (osc_set_frequency s f) = Some (y, s')" "osc_ok s'"
    using osc_step by blast
  with Cons.IH [OF y(2)] show ?case by auto
qed simp

text \<open>
  The oscillator never reads outside its table: from its initial state, with a table of
  1 to \<open>2 ^ 24\<close> samples, any sequence of frequency changes (negative, infinite and NaN ones
  included) is rendered sample by sample without a panic, because the phase is reduced
  modulo the table length before every read.  With an empty table the first sample panics.
\<close>

lemma osc_never_panics:
  assumes "table \<noteq> []" "length table \<le> 2 ^ 24"
  shows "(\<exists>ys s. osc_run fs (osc_new table sr) = Some (ys, s) \<and> length ys = length fs)
    \<and> osc_next_sample (osc_new [] sr) = None"
proof -
  have "osc_ok (osc_new table sr)" using assms by (simp add: osc_ok_def osc_new_def)
  from osc_run_ok [OF this] show ?thesis by (simp add: osc_next_sample_def osc_new_def vlen_def)
qed

lemma osc_never_panics_witness:
  "[Num 0, Num 1] \<noteq> [] \<and> length [Num 0, Num 1] \<le> 2 ^ 24
   \<and> (\<exists>ys s. osc_run [Num 440, NaN, NegInf] (osc_new [Num 0, Num 1] (Num 48000)) = Some (ys, s))"
  using osc_never_panics [of "[Num 0, Num 1]" "[Num 440, NaN, NegInf]" "Num 48000"] by auto

end
