(* ===== verification/SpectralPhaser.thy ===== *)
theory SpectralPhaser
  imports DspEffects
begin

text \<open>
  The OpenSpectral Phaser of crates/hikaru_dsp/src/effects/openspectral_phaser.rs: a cascade of
  biquad sections whose coefficients are recomputed per sample from a cutoff that an LFO
  sweeps.  \<open>sin\<close>, \<open>cos\<close>, \<open>tan\<close>, \<open>powf\<close> and \<open>sqrt\<close> are parameters (the record \<open>libm\<close>).
  \<open>f32::clamp\<close> panics when its bounds are not ordered; where a bound depends on the sample
  rate the model's \<open>clamp_checked\<close> is \<open>None\<close> there.
\<close>

record libm =
  m_sin :: "f32 \<Rightarrow> f32"
  m_cos :: "f32 \<Rightarrow> f32"
  m_tan :: "f32 \<Rightarrow> f32"
  m_pow :: "f32 \<Rightarrow> f32 \<Rightarrow> f32"
  m_sqrt :: "f32 \<Rightarrow> f32"

definition clamp_checked :: "f32 \<Rightarrow> f32 \<Rightarrow> f32 \<Rightarrow> f32 option" where
  "clamp_checked x lo hi = (if le lo hi then Some (fclamp x lo hi) else None)"

section \<open>Parameters\<close>

record SpectralPhaserParams =
  sp_width :: f32
  sp_offset :: f32
  sp_depth :: f32
  sp_speed :: f32
  sp_mix :: f32
  sp_blur :: f32
  sp_hz_per_oct :: f32
  sp_times_five :: f32
  sp_keep_bass :: f32
  sp_blocksize :: f32
  sp_bypass :: f32

definition params_default :: SpectralPhaserParams where
  "params_default = \<lparr> sp_width = Num 50, sp_offset = Num 0, sp_depth = Num 0, sp_speed = Num 0,
     sp_mix = Num 100, sp_blur = Num 0, sp_hz_per_oct = Num 0, sp_times_five = Num 0,
     sp_keep_bass = Num 0, sp_blocksize = Num 1024, sp_bypass = Num 0 \<rparr>"

section \<open>Biquad sections\<close>

record Biquad =
  bq_z1 :: f32
  bq_z2 :: f32
  bq_b0 :: f32
  bq_b1 :: f32
  bq_b2 :: f32
  bq_a1 :: f32
  bq_a2 :: f32

definition biquad_default :: Biquad where
  "biquad_default = \<lparr> bq_z1 = Num 0, bq_z2 = Num 0, bq_b0 = Num 0, bq_b1 = Num 0, bq_b2 = Num 0,
     bq_a1 = Num 0, bq_a2 = Num 0 \<rparr>"

definition set_coeffs :: "f32 \<Rightarrow> f32 \<Rightarrow> f32 \<Rightarrow> f32 \<Rightarrow> f32 \<Rightarrow> Biquad \<Rightarrow> Biquad" where
  "set_coeffs b0 b1 b2 a1 a2 s =
     s\<lparr>bq_b0 := b0, bq_b1 := b1, bq_b2 := b2, bq_a1 := a1, bq_a2 := a2\<rparr>"

definition biquad_process :: "Biquad \<Rightarrow> f32 \<Rightarrow> f32 \<times> Biquad" where
  "biquad_process s x =
     (let y = fadd F32 (fmul F32 (bq_b0 s) x) (bq_z1 s)
      in (if is_finite y then y else Num 0,
          s\<lparr>bq_z1 := fsub F32 (fadd F32 (fmul F32 (bq_b1 s) x) (bq_z2 s)) (fmul F32 (bq_a1 s) y),
            bq_z2 := fsub F32 (fmul F32 (bq_b2 s) x) (fmul F32 (bq_a2 s) y)\<rparr>))"

definition biquad_reset :: "Biquad \<Rightarrow> Biquad" where
  "biquad_reset s = s\<lparr>bq_z1 := Num 0, bq_z2 := Num 0\<rparr>"

section \<open>The phaser\<close>

record SpectralPhaser =
  ps_sample_rate :: f32
  ps_params :: SpectralPhaserParams
  ps_sections :: "Biquad list"
  ps_num_sections :: usize
  ps_lfo_phase :: f32
  ps_smoothed_cutoff :: f32
  ps_bass_lp :: f32

definition resize_sections :: "SpectralPhaser \<Rightarrow> SpectralPhaser" where
  "resize_sections s = (let n = unat (ps_num_sections s)
     in s\<lparr>ps_sections := take n (ps_sections s) @ replicate (n - length (ps_sections s)) biquad_default\<rparr>)"

definition phaser_create :: "f32 \<Rightarrow> SpectralPhaser" where
  "phaser_create sample_rate = resize_sections \<lparr>
     ps_sample_rate = (if lt (Num 0) sample_rate then sample_rate else Num 44100),
     ps_params = params_default, ps_sections = [], ps_num_sections = 4, ps_lfo_phase = Num 0,
     ps_smoothed_cutoff = Num 1000, ps_bass_lp = Num 0 \<rparr>"

definition phaser_set_sample_rate :: "SpectralPhaser \<Rightarrow> f32 \<Rightarrow> SpectralPhaser" where
  "phaser_set_sample_rate s sr = (if lt (Num 0) sr then s\<lparr>ps_sample_rate := sr\<rparr> else s)"

definition phaser_set_params :: "SpectralPhaser \<Rightarrow> SpectralPhaserParams \<Rightarrow> SpectralPhaser" where
  "phaser_set_params s params =
     (let s = s\<lparr>ps_params := params\<rparr>;
          width_norm = fclamp (fdiv F32 (sp_width params) (Num 100)) (Num 0) (Num 1);
          n = to_word (fround (fadd F32 (Num 2) (fmul F32 width_norm (Num 48)))) :: usize
      in resize_sections (s\<lparr>ps_num_sections := min (max n 1) 100\<rparr>))"

definition phaser_reset :: "SpectralPhaser \<Rightarrow> SpectralPhaser" where
  "phaser_reset s = s\<lparr>ps_lfo_phase := Num 0, ps_smoothed_cutoff := Num 1000, ps_bass_lp := Num 0,
     ps_sections := map biquad_reset (ps_sections s)\<rparr>"

text \<open>\<open>recompute\<close>: the loop over the sections, with the previous pole carried along.\<close>

fun recompute_from ::
    "libm \<Rightarrow> f32 \<Rightarrow> usize \<Rightarrow> f32 \<times> f32 \<Rightarrow> nat list \<Rightarrow> Biquad list \<Rightarrow> Biquad list" where
  "recompute_from m r n prev [] ss = ss"
| "recompute_from m r n (prev_re, prev_im) (k # ks) ss =
     (let phi = fdiv F32 (fmul F32 (of_u64 F32 (2 * word_of_nat k + 1 :: usize)) PI)
                  (fmul F32 (Num 2) (of_u64 F32 n));
          denom = fadd F32 (fadd F32 (Num 1) (fmul F32 r r)) (fmul F32 (fmul F32 (Num 2) r) (m_cos m phi));
          denom = (if lt (fabs denom) (lit F32 (1 / 10 ^ 9)) then Num 1 else denom);
          re = fdiv F32 (fsub F32 (Num 1) (fmul F32 r r)) denom;
          im = fdiv F32 (fmul F32 (fmul F32 (Num 2) r) (m_sin m phi)) denom;
          p1 = fadd F32 prev_re (Num 1);
          g = fdiv F32 (fadd F32 (fmul F32 p1 p1) (fmul F32 prev_im prev_im)) (Num 4);
          b0 = fmul F32 (Num 2) re;
          b1 = fneg (fadd F32 (fmul F32 re re) (fmul F32 im im));
          a1 = fmul F32 (Num (- 2)) g
      in recompute_from m r n (re, im) ks
           (if k < length ss then ss[k := set_coeffs b0 b1 g a1 g (ss ! k)] else ss))"

definition recompute :: "libm \<Rightarrow> SpectralPhaser \<Rightarrow> f32 \<Rightarrow> SpectralPhaser" where
  "recompute m s cutoff =
     (let nyq = fmul F32 (ps_sample_rate s) (lit F32 (1 / 2));
          norm = fclamp (fdiv F32 cutoff nyq) (Num 0) (lit F32 (999 / 1000));
          r = fclamp (m_tan m (fmul F32 norm (fmul F32 PI (lit F32 (1 / 2))))) (Num 0)
                (lit F32 (9999 / 10000))
      in s\<lparr>ps_sections := recompute_from m r (ps_num_sections s) (Num 0, Num 0)
             [0..<unat (ps_num_sections s)] (ps_sections s)\<rparr>)"

definition signum :: "f32 \<Rightarrow> f32" where
  "signum x = (if x = NaN then NaN else if sign_bit x then Num (- 1) else Num 1)"

definition lfo_rate_hz :: "SpectralPhaser \<Rightarrow> f32" where
  "lfo_rate_hz s =
     (let rate = fdiv F32 (sp_speed (ps_params s)) (Num 10);
          rate = (if le (lit F32 (1 / 2)) (sp_times_five (ps_params s)) then fmul F32 rate (Num 5) else rate)
      in if \<not> feq rate (Num 0) \<and> lt (fabs rate) (lit F32 (1 / 100))
         then fmul F32 (lit F32 (1 / 100)) (signum rate) else rate)"

definition max_cutoff :: "SpectralPhaser \<Rightarrow> f32" where
  "max_cutoff s = fmul F32 (ps_sample_rate s) (lit F32 (49 / 100))"

definition cutoff_at_phase :: "libm \<Rightarrow> SpectralPhaser \<Rightarrow> f32 \<Rightarrow> f32 option" where
  "cutoff_at_phase m s phase =
     (let p = ps_params s;
          lfo = (if is_finite phase then m_sin m phase else Num 0);
          base = fadd F32 (Num 200) (fmul F32 (fdiv F32 (sp_offset p) (Num 100)) (Num 4000));
          octaves = fmul F32 (fmul F32 (fclamp (fdiv F32 (sp_depth p) (Num 100)) (Num 0) (Num 1)) lfo)
                      (fadd F32 (Num 1) (fmul F32 (fdiv F32 (sp_hz_per_oct p) (Num 100)) (Num 4)));
          cutoff = fmul F32 base (m_pow m (Num 2) octaves)
      in if is_finite cutoff then clamp_checked cutoff (Num 20) (max_cutoff s) else Some (Num 20))"

definition set_analysis_cutoff :: "libm \<Rightarrow> SpectralPhaser \<Rightarrow> f32 \<Rightarrow> SpectralPhaser option" where
  "set_analysis_cutoff m s cutoff =
     map_option (\<lambda>c. recompute m (s\<lparr>ps_smoothed_cutoff := c\<rparr>) c)
       (if is_finite cutoff then clamp_checked cutoff (Num 20) (max_cutoff s) else Some (Num 20))"

definition section_magnitude :: "libm \<Rightarrow> f32 \<Rightarrow> f32 \<Rightarrow> f32 \<Rightarrow> f32 \<Rightarrow> Biquad \<Rightarrow> f32 \<Rightarrow> f32" where
  "section_magnitude m sin1 cos1 sin2 cos2 s magnitude =
     (let num_re = fadd F32 (fadd F32 (bq_b0 s) (fmul F32 (bq_b1 s) cos1)) (fmul F32 (bq_b2 s) cos2);
          num_im = fneg (fadd F32 (fmul F32 (bq_b1 s) sin1) (fmul F32 (bq_b2 s) sin2));
          den_re = fadd F32 (fadd F32 (Num 1) (fmul F32 (bq_a1 s) cos1)) (fmul F32 (bq_a2 s) cos2);
          den_im = fneg (fadd F32 (fmul F32 (bq_a1 s) sin1) (fmul F32 (bq_a2 s) sin2));
          num = m_sqrt m (fadd F32 (fmul F32 num_re num_re) (fmul F32 num_im num_im));
          den = m_sqrt m (fadd F32 (fmul F32 den_re den_re) (fmul F32 den_im den_im))
      in if lt (lit F32 (1 / 10 ^ 12)) den then fmul F32 magnitude (fdiv F32 num den) else magnitude)"

definition magnitude_response :: "libm \<Rightarrow> SpectralPhaser \<Rightarrow> f32 \<Rightarrow> f32 option" where
  "magnitude_response m s freq =
     (case clamp_checked freq (Num 1) (max_cutoff s) of
        None \<Rightarrow> None
      | Some freq \<Rightarrow>
          let w = fdiv F32 (fmul F32 (fmul F32 (Num 2) PI) freq) (ps_sample_rate s);
              w2 = fmul F32 (Num 2) w;
              mag = fold (section_magnitude m (m_sin m w) (m_cos m w) (m_sin m w2) (m_cos m w2))
                      (ps_sections s) (Num 1)
          in Some (if is_finite mag then mag else Num 0))"

fun sections_process :: "Biquad list \<Rightarrow> f32 \<Rightarrow> f32 \<times> Biquad list" where
  "sections_process [] x = (x, [])"
| "sections_process (s # ss) x =
     (let (x, s) = biquad_process s x; (x, ss) = sections_process ss x in (x, s # ss))"

definition process_sample :: "libm \<Rightarrow> SpectralPhaser \<Rightarrow> f32 \<Rightarrow> (f32 \<times> SpectralPhaser) option" where
  "process_sample m s input =
     (let p = ps_params s
      in if le (lit F32 (1 / 2)) (sp_bypass p) then Some (input, s)
         else let two_pi = fmul F32 (Num 2) PI;
                  phase = fadd F32 (ps_lfo_phase s)
                            (fdiv F32 (fmul F32 two_pi (lfo_rate_hz s)) (ps_sample_rate s));
                  phase = (if lt two_pi phase then fsub F32 phase two_pi else phase);
                  s = s\<lparr>ps_lfo_phase := phase\<rparr>
              in case cutoff_at_phase m s phase of
                   None \<Rightarrow> None
                 | Some cutoff \<Rightarrow>
                     let blur = fclamp (fdiv F32 (sp_blur p) (Num 100)) (Num 0) (Num 1);
                         alpha = fsub F32 (Num 1) (fmul F32 blur (lit F32 (9 / 10)));
                         sc = fadd F32 (ps_smoothed_cutoff s)
                                (fmul F32 (fsub F32 cutoff (ps_smoothed_cutoff s)) alpha);
                         s = recompute m (s\<lparr>ps_smoothed_cutoff := sc\<rparr>) sc;
                         (x, ss) = sections_process (ps_sections s) input;
                         s = s\<lparr>ps_sections := ss\<rparr>;
                         a = fclamp (fdiv F32 (fmul F32 two_pi (Num 120)) (ps_sample_rate s)) (Num 0) (Num 1);
                         bass = fadd F32 (ps_bass_lp s) (fmul F32 a (fsub F32 input (ps_bass_lp s)));
                         (out, s) = (if le (lit F32 (1 / 2)) (sp_keep_bass p)
                                     then (fadd F32 x bass, s\<lparr>ps_bass_lp := bass\<rparr>) else (x, s));
                         wet = fclamp (fdiv F32 (sp_mix p) (Num 100)) (Num 0) (Num 1);
                         y = fadd F32 (fmul F32 input (fsub F32 (Num 1) wet)) (fmul F32 out wet)
                     in Some (if is_finite y then y else input, s))"

fun spectral_block :: "libm \<Rightarrow> SpectralPhaser \<Rightarrow> f32 list \<Rightarrow> (f32 list \<times> SpectralPhaser) option" where
  "spectral_block m s [] = Some ([], s)"
| "spectral_block m s (x # xs) =
     (case process_sample m s x of
        None \<Rightarrow> None
      | Some (y, s) \<Rightarrow> map_option (\<lambda>(ys, s). (y # ys, s)) (spectral_block m s xs))"

text \<open>\<open>chunks_mut(2)\<close>: the last chunk of an odd block has one sample, and \<open>frame[1]\<close> panics.\<close>

fun spectral_block_stereo :: "libm \<Rightarrow> SpectralPhaser \<Rightarrow> f32 list \<Rightarrow> (f32 list \<times> SpectralPhaser) option" where
  "spectral_block_stereo m s [] = Some ([], s)"
| "spectral_block_stereo m s [x] = None"
| "spectral_block_stereo m s (x # x' # xs) =
     (case process_sample m s x of
        None \<Rightarrow> None
      | Some (l, s) \<Rightarrow>
          (case process_sample m s x' of
             None \<Rightarrow> None
           | Some (r, s) \<Rightarrow> map_option (\<lambda>(ys, s). (l # r # ys, s)) (spectral_block_stereo m s xs)))"

section \<open>The cascade keeps its shape\<close>

definition spectral_ok :: "SpectralPhaser \<Rightarrow> bool" where
  "spectral_ok s \<longleftrightarrow> length (ps_sections s) = unat (ps_num_sections s)
     \<and> 1 \<le> ps_num_sections s \<and> ps_num_sections s \<le> 100"

lemma set_coeffs_state [simp]:
  "bq_z1 (set_coeffs b0 b1 b2 a1 a2 s) = bq_z1 s" "bq_z2 (set_coeffs b0 b1 b2 a1 a2 s) = bq_z2 s"
  by (simp_all add: set_coeffs_def)

lemma recompute_from_state: "map bq_z1 (recompute_from m r n prev ks ss) = map bq_z1 ss"
proof (induction m r n prev ks ss rule: recompute_from.induct)
  case (2 m r n prev_re prev_im k ks ss)
  have "map bq_z1 (ss[k := set_coeffs b0 b1 b2 a1 a2 (ss ! k)]) = map bq_z1 ss" if "k < length ss"
    for b0 b1 b2 a1 a2
    by (rule nth_equalityI) (use that in \<open>auto simp: nth_list_update\<close>)
  with 2 show ?case by (simp add: Let_def)
qed simp

lemma recompute_from_length [simp]: "length (recompute_from m r n prev ks ss) = length ss"
  using arg_cong [OF recompute_from_state, of length m r n prev ks ss] by simp

lemma recompute_fields [simp]:
  "ps_sample_rate (recompute m s c) = ps_sample_rate s" "ps_params (recompute m s c) = ps_params s"
  "ps_num_sections (recompute m s c) = ps_num_sections s"
  "length (ps_sections (recompute m s c)) = length (ps_sections s)"
  "map bq_z1 (ps_sections (recompute m s c)) = map bq_z1 (ps_sections s)"
  by (simp_all add: recompute_def Let_def recompute_from_state)

lemma sections_process_length [simp]: "length (snd (sections_process ss x)) = length ss"
  by (induction ss arbitrary: x) (simp_all add: Let_def split: prod.split, metis snd_conv)

lemma resize_ok: "1 \<le> ps_num_sections s \<Longrightarrow> ps_num_sections s \<le> 100 \<Longrightarrow> spectral_ok (resize_sections s)"
  by (simp add: spectral_ok_def resize_sections_def Let_def)

lemma phaser_create_ok: "spectral_ok (phaser_create sr)"
  unfolding phaser_create_def by (rule resize_ok) simp_all

lemma phaser_set_params_ok: "spectral_ok (phaser_set_params s p)"
  unfolding phaser_set_params_def Let_def by (rule resize_ok) simp_all

lemma cutoff_at_phase_range:
  assumes "le (Num 20) (max_cutoff s)"
  shows "\<exists>c. cutoff_at_phase m s phase = Some c \<and> is_finite c \<and> 20 \<le> val c \<and> le c (max_cutoff s)"
proof -
  have "is_finite (fclamp x (Num 20) (max_cutoff s)) \<and> 20 \<le> val (fclamp x (Num 20) (max_cutoff s))
    \<and> le (fclamp x (Num 20) (max_cutoff s)) (max_cutoff s)" if "is_finite x" for x
    using that assms by (cases x; cases "max_cutoff s") (auto simp: fclamp_def le_def feq_def not_less)
  then show ?thesis using assms by (auto simp: cutoff_at_phase_def clamp_checked_def Let_def)
qed

lemma process_sample_step:
  assumes "spectral_ok s" "le (Num 20) (max_cutoff s)"
  shows "\<exists>y s'. process_sample m s x = Some (y, s') \<and> spectral_ok s'
    \<and> ps_params s' = ps_params s \<and> ps_sample_rate s' = ps_sample_rate s
    \<and> (is_finite x \<longrightarrow> is_finite y)"
proof (cases "le (lit F32 (1 / 2)) (sp_bypass (ps_params s))")
  case True
  then show ?thesis using assms by (simp add: process_sample_def)
next
  case False
  have mc: "max_cutoff (s\<lparr>ps_lfo_phase := p\<rparr>) = max_cutoff s" for p by (simp add: max_cutoff_def)
  have c: "\<exists>c. cutoff_at_phase m (s\<lparr>ps_lfo_phase := p\<rparr>) q = Some c" for p q
    using cutoff_at_phase_range [of "s\<lparr>ps_lfo_phase := p\<rparr>" m q] assms(2) mc by auto
  have len: "sections_process ss x = (y, ss') \<Longrightarrow> length ss' = length ss" for ss y ss'
    using sections_process_length [of ss x] by simp
  show ?thesis
    using False c assms(1) len
    by (simp add: process_sample_def Let_def spectral_ok_def split: prod.split option.split)
      (metis option.distinct(1))
qed


lemma spectral_block_ok:
  "spectral_ok s \<Longrightarrow> le (Num 20) (max_cutoff s) \<Longrightarrow>
   \<exists>ys s'. spectral_block m s xs = Some (ys, s') \<and> length ys = length xs \<and> spectral_ok s'
     \<and> (list_all is_finite xs \<longrightarrow> list_all is_finite ys)"
proof (induction xs arbitrary: s)
  case (Cons x xs)
  obtain y s' where y: "process_sample m s x = Some (y, s')" "spectral_ok s'"
    "ps_sample_rate s' = ps_sample_rate s" "is_finite x \<longrightarrow> is_finite y"
    using process_sample_step [OF Cons.prems] by blast
  then have "le (Num 20) (max_cutoff s')" using Cons.prems(2) by (simp add: max_cutoff_def)
  from Cons.IH [OF y(2) this] y show ?case by auto
qed simp

lemma spectral_block_stereo_ok:
  "spectral_ok s \<Longrightarrow> le (Num 20) (max_cutoff s) \<Longrightarrow>
   (if even (length xs) then \<exists>ys s'. spectral_block_stereo m s xs = Some (ys, s') \<and> length ys = length xs
    else spectral_block_stereo m s xs = None)"
proof (induction m s xs rule: spectral_block_stereo.induct)
  case (3 m s x x' xs)
  obtain l s1 where l: "process_sample m s x = Some (l, s1)" "spectral_ok s1" "ps_sample_rate s1 = ps_sample_rate s"
    using process_sample_step [OF 3(2,3)] by blast
  then have "le (Num 20) (max_cutoff s1)" using 3(3) by (simp add: max_cutoff_def)
  from process_sample_step [OF l(2) this] obtain r s2 where
    r: "process_sample m s1 x' = Some (r, s2)" "spectral_ok s2" "ps_sample_rate s2 = ps_sample_rate s"
    using l(3) by force
  then have "le (Num 20) (max_cutoff s2)" using 3(3) by (simp add: max_cutoff_def)
  with 3(1) [OF l(1) refl r(1) refl r(2)] have ih: "if even (length xs)
      then \<exists>ys s'. spectral_block_stereo m s2 xs = Some (ys, s') \<and> length ys = length xs
      else spectral_block_stereo m s2 xs = None" by simp
  show ?case
  proof (cases "even (length xs)")
    case True
    with ih obtain ys s' where "spectral_block_stereo m s2 xs = Some (ys, s')" "length ys = length xs" by auto
    with True l r show ?thesis by simp
  next
    case False
    with ih l r show ?thesis by simp
  qed
qed simp_all

text \<open>
  The phaser on the audio thread: whatever its parameters and whatever the mathematical
  functions return, as long as the sample rate gives a cutoff range that is not empty, a mono
  block is processed without a panic, keeps its length, keeps one coefficient set per section
  and is finite where the input is; a stereo block is processed without a panic exactly when
  its length is even.
\<close>

lemma spectral_phaser_total:
  assumes "spectral_ok s" "le (Num 20) (max_cutoff s)"
  shows "(\<exists>ys s'. spectral_block m s xs = Some (ys, s') \<and> length ys = length xs \<and> spectral_ok s'
            \<and> (list_all is_finite xs \<longrightarrow> list_all is_finite ys))
    \<and> (spectral_block_stereo m s xs \<noteq> None \<longleftrightarrow> even (length xs))"
  using spectral_block_ok [OF assms, of m xs] spectral_block_stereo_ok [OF assms, of xs m]
  by (auto split: if_splits)

lemma max_cutoff_44100: "le (Num 20) (max_cutoff (phaser_create (Num 44100)))"
  by (simp add: max_cutoff_def phaser_create_def resize_sections_def Let_def) code_simp

lemma spectral_phaser_total_witness:
  "spectral_ok (phaser_create (Num 44100)) \<and> le (Num 20) (max_cutoff (phaser_create (Num 44100)))
   \<and> spectral_block_stereo \<lparr>m_sin = (\<lambda>x. x), m_cos = (\<lambda>x. x), m_tan = (\<lambda>x. x), m_pow = (\<lambda>x y. NaN),
        m_sqrt = (\<lambda>x. x)\<rparr> (phaser_create (Num 44100)) [Num 1, Num 1, Num 1] = None"
  using spectral_phaser_total [OF phaser_create_ok max_cutoff_44100,
      of "\<lparr>m_sin = (\<lambda>x. x), m_cos = (\<lambda>x. x), m_tan = (\<lambda>x. x), m_pow = (\<lambda>x y. NaN),
        m_sqrt = (\<lambda>x. x)\<rparr>" "[Num 1, Num 1, Num 1]"] phaser_create_ok [of "Num 44100"] max_cutoff_44100
  by (simp del: spectral_block_stereo.simps not_None_eq)

text \<open>
  The sample rate is only checked to be positive, but the cutoff is clamped between 20 Hz and
  0.49 of it: a finite analysis cutoff is accepted exactly when that range is not empty, and
  the clamp panics below about 40.8 Hz.
\<close>

lemma cutoff_needs_rate:
  assumes "is_finite c"
  shows "set_analysis_cutoff m s c = None \<longleftrightarrow> \<not> le (Num 20) (max_cutoff s)"
  using assms by (simp add: set_analysis_cutoff_def clamp_checked_def)

section \<open>A section that has become NaN\<close>

lemma fadd_NaN [simp]: "fadd fm a NaN = NaN" "fadd fm NaN b = NaN"
  by (simp_all add: fadd_def)

lemma fsub_NaN [simp]: "fsub fm a NaN = NaN" "fsub fm NaN b = NaN"
  by (simp_all add: fsub_def)

lemma biquad_NaN: "bq_z1 s = NaN \<Longrightarrow> fst (biquad_process s x) = Num 0 \<and> bq_z1 (snd (biquad_process s x)) = NaN"
  by (simp add: biquad_process_def Let_def)

lemma sections_last_NaN:
  "ss \<noteq> [] \<Longrightarrow> bq_z1 (last ss) = NaN \<Longrightarrow>
   fst (sections_process ss x) = Num 0 \<and> bq_z1 (last (snd (sections_process ss x))) = NaN"
proof (induction ss arbitrary: x)
  case (Cons s ss)
  show ?case
  proof (cases "ss = []")
    case True
    with Cons.prems biquad_NaN [of s x] show ?thesis by (simp add: Let_def split: prod.split) auto
  next
    case False
    obtain y s' where b: "biquad_process s x = (y, s')" by fastforce
    obtain z ss' where p: "sections_process ss y = (z, ss')" by fastforce
    have "ss' \<noteq> []" using sections_process_length [of ss y] False p by auto
    with Cons.IH [of y] False Cons.prems b p show ?thesis by simp
  qed
qed simp

definition muted :: "SpectralPhaser \<Rightarrow> bool" where
  "muted s \<longleftrightarrow> ps_sections s \<noteq> [] \<and> bq_z1 (last (ps_sections s)) = NaN
     \<and> sp_mix (ps_params s) = Num 100 \<and> \<not> le (lit F32 (1 / 2)) (sp_keep_bass (ps_params s))
     \<and> \<not> le (lit F32 (1 / 2)) (sp_bypass (ps_params s))"

lemma last_map_recompute:
  "ps_sections s \<noteq> [] \<Longrightarrow> bq_z1 (last (ps_sections (recompute m s c))) = bq_z1 (last (ps_sections s))"
proof -
  assume ne: "ps_sections s \<noteq> []"
  then have "ps_sections (recompute m s c) \<noteq> []" by (metis length_0_conv recompute_fields(4))
  with ne show ?thesis by (metis last_map recompute_fields(5))
qed

lemma wet_zero: "is_finite x \<Longrightarrow> val (fadd F32 (fmul F32 x (fsub F32 (Num 1) (Num 1))) (fmul F32 (Num 0) (Num 1))) = 0
   \<and> is_finite (fadd F32 (fmul F32 x (fsub F32 (Num 1) (Num 1))) (fmul F32 (Num 0) (Num 1)))"
proof -
  assume x: "is_finite x"
  have one: "fsub F32 (Num 1) (Num 1) = Num 0" "fmul F32 (Num 0) (Num 1) = Num 0" by code_simp+
  have z: "mk F32 b 0 = Num 0 \<or> mk F32 b 0 = NegZero" for b by (simp add: mk_def)
  have "fmul F32 x (Num 0) = Num 0 \<or> fmul F32 x (Num 0) = NegZero"
    using x z by (simp add: fmul_def Let_def is_finite_not_NaN)
  then show ?thesis unfolding one using z [of False] by (auto simp: fadd_def)
qed

lemma process_sample_muted:
  assumes "muted s" "is_finite x" "process_sample m s x = Some (y, s')"
  shows "val y = 0 \<and> is_finite y \<and> muted s'"
proof -
  have wet: "fclamp (fdiv F32 (Num 100) (Num 100)) (Num 0) (Num 1) = Num 1" by code_simp
  have r: "ps_sections (recompute m t c) \<noteq> [] \<and> bq_z1 (last (ps_sections (recompute m t c))) = NaN"
    if "ps_sections t = ps_sections s" for t c
    using assms(1) that last_map_recompute [of t m c] recompute_fields(4) [of m t c]
    by (auto simp: muted_def simp del: recompute_fields(4))
  have sp: "y = Num 0 \<and> ss' \<noteq> [] \<and> bq_z1 (last ss') = NaN"
    if "sections_process ss z = (y, ss')" "ss \<noteq> []" "bq_z1 (last ss) = NaN" for ss z y ss'
    using sections_last_NaN [of ss z] sections_process_length [of ss z] that by auto
  show ?thesis
    using assms r sp [OF _ conjunct1 [OF r] conjunct2 [OF r]] wet_zero [OF assms(2)]
    by (auto simp: process_sample_def muted_def Let_def wet split: option.splits prod.splits)
qed

text \<open>
  A numerical blow-up is permanent: once the last section of a fully wet phaser holds a
  NaN, every later sample is silence, for every finite input and whatever the LFO does.  The
  finiteness test on a section's output hides the NaN but leaves it in the section's state,
  and recomputing the coefficients does not touch that state.
\<close>

lemma nan_section_mutes_for_ever:
  assumes "muted s" "list_all is_finite xs" "spectral_block m s xs = Some (ys, s')"
  shows "list_all (\<lambda>y. val y = 0 \<and> is_finite y) ys \<and> muted s'"
  using assms
proof (induction xs arbitrary: s ys)
  case (Cons x xs)
  obtain y s1 where y: "process_sample m s x = Some (y, s1)"
    using Cons.prems(3) by (auto split: option.splits)
  with process_sample_muted [OF Cons.prems(1) _ this] Cons.prems Cons.IH [of s1] show ?case by auto
qed auto


definition demo_muted :: SpectralPhaser where
  "demo_muted = (phaser_create (Num 44100))\<lparr>ps_sections := [biquad_default\<lparr>bq_z1 := NaN\<rparr>], ps_num_sections := 1\<rparr>"

lemma nan_section_mutes_for_ever_witness:
  "muted demo_muted \<and> (\<exists>ys s'. spectral_block \<lparr>m_sin = (\<lambda>x. x), m_cos = (\<lambda>x. x), m_tan = (\<lambda>x. x),
       m_pow = (\<lambda>x y. Num 1), m_sqrt = (\<lambda>x. x)\<rparr> demo_muted [Num 1, Num 1] = Some (ys, s')
     \<and> list_all (\<lambda>y. val y = 0 \<and> is_finite y) ys)"
proof -
  let ?m = "\<lparr>m_sin = (\<lambda>x. x), m_cos = (\<lambda>x. x), m_tan = (\<lambda>x. x), m_pow = (\<lambda>x y. Num 1),
      m_sqrt = (\<lambda>x. x)\<rparr> :: libm"
  have h: "\<not> le (lit F32 (1 / 2)) (Num 0)" by code_simp
  have m: "muted demo_muted"
    by (simp add: muted_def demo_muted_def phaser_create_def resize_sections_def Let_def params_default_def h)
  have ok: "spectral_ok demo_muted" by (simp add: spectral_ok_def demo_muted_def)
  have "le (Num 20) (max_cutoff demo_muted)"
    using max_cutoff_44100 by (simp add: max_cutoff_def demo_muted_def)
  from spectral_block_ok [OF ok this, of ?m "[Num 1, Num 1]"] obtain ys s' where
    r: "spectral_block ?m demo_muted [Num 1, Num 1] = Some (ys, s')" by blast
  from nan_section_mutes_for_ever [OF m _ r] m r show ?thesis by auto
qed

end
