(* ===== verification/PlanarScratch.thy ===== *)
theory PlanarScratch
  imports PluginChain
begin

text \<open>
  The bridge between the interleaved blocks of the engine and the planar buffers of the
  plugin formats: \<open>PlanarScratch\<close> of crates/hikaru_plugin_host/src/scratch.rs, and the block
  processing of \<open>Vst3Instance\<close> and \<open>ClapInstance\<close> around it.  \<open>None\<close> is the panic of an index
  out of bounds.  What the plugin does to the planar buffers is a parameter.
\<close>

section \<open>The scratch buffers\<close>

record PlanarScratch =
  sc_inputs :: "f32 list list"
  sc_outputs :: "f32 list list"
  sc_frames :: usize
  sc_overflowed :: bool

definition scratch_new :: "usize \<Rightarrow> PlanarScratch" where
  "scratch_new frames =
     (let frames = min (max frames 1) MAX_BLOCK_FRAMES;
          bufs = replicate (unat NUM_CHANNELS) (replicate (unat frames) (Num 0))
      in \<lparr> sc_inputs = bufs, sc_outputs = bufs, sc_frames = frames, sc_overflowed = False \<rparr>)"

definition fits :: "PlanarScratch \<Rightarrow> usize \<Rightarrow> bool \<times> PlanarScratch" where
  "fits s frames = (if sc_frames s < frames then (False, s\<lparr>sc_overflowed := True\<rparr>) else (True, s))"

definition take_buffers :: "PlanarScratch \<Rightarrow> (f32 list list \<times> f32 list list) \<times> PlanarScratch" where
  "take_buffers s = ((sc_inputs s, sc_outputs s), s\<lparr>sc_inputs := [], sc_outputs := []\<rparr>)"

definition restore_buffers :: "PlanarScratch \<Rightarrow> f32 list list \<Rightarrow> f32 list list \<Rightarrow> PlanarScratch" where
  "restore_buffers s inputs outputs = s\<lparr>sc_inputs := inputs, sc_outputs := outputs\<rparr>"

text \<open>
  One channel: the loop writes \<open>len\<close> samples and then silences the rest, so it panics when
  \<open>len\<close> passes the end of the channel or the channel number passes the frame.
\<close>

definition deinterleave_channel :: "f32 list \<Rightarrow> nat \<Rightarrow> nat \<Rightarrow> f32 list \<Rightarrow> f32 list option" where
  "deinterleave_channel samples len ch buffer =
     (if len \<le> length buffer \<and> (\<forall>i<len. i * 2 + ch < length samples)
      then Some (map (\<lambda>i. samples ! (i * 2 + ch)) [0..<len] @ replicate (length buffer - len) (Num 0))
      else None)"

fun deinterleave_channels :: "f32 list \<Rightarrow> nat \<Rightarrow> nat \<Rightarrow> f32 list list \<Rightarrow> f32 list list option" where
  "deinterleave_channels samples len ch [] = Some []"
| "deinterleave_channels samples len ch (b # bs) =
     (case deinterleave_channel samples len ch b of
        None \<Rightarrow> None
      | Some b \<Rightarrow> map_option (\<lambda>bs. b # bs) (deinterleave_channels samples len (Suc ch) bs))"

definition deinterleave_stereo :: "PlanarScratch \<Rightarrow> f32 list \<Rightarrow> usize \<Rightarrow> PlanarScratch option" where
  "deinterleave_stereo s samples frames =
     map_option (\<lambda>bs. s\<lparr>sc_inputs := bs\<rparr>)
       (deinterleave_channels samples (min (unat frames) (length samples div 2)) 0 (sc_inputs s))"

fun write_frames :: "f32 list \<Rightarrow> f32 list \<Rightarrow> nat list \<Rightarrow> f32 list \<Rightarrow> f32 list option" where
  "write_frames l r [] samples = Some samples"
| "write_frames l r (i # is) samples =
     (if i < length l \<and> i < length r \<and> i * 2 + 1 < length samples
      then write_frames l r is (samples[i * 2 := l ! i, i * 2 + 1 := r ! i]) else None)"

definition reinterleave_stereo :: "PlanarScratch \<Rightarrow> f32 list \<Rightarrow> usize \<Rightarrow> f32 list option" where
  "reinterleave_stereo s samples frames =
     (let len = min (unat frames) (length samples div 2)
      in if len = 0 then Some samples
         else case sc_outputs s of
                l # r # _ \<Rightarrow> write_frames l r [0..<len] samples
              | _ \<Rightarrow> None)"

section \<open>A block through a plugin\<close>

text \<open>
  \<open>Vst3Instance::process\<close>: \<open>start\<close> and \<open>plug\<close> are the plugin behind the real-time runner; they
  return \<open>False\<close> for an error.
\<close>

record 'r Vst3Instance =
  vi_runner :: 'r
  vi_scratch :: PlanarScratch
  vi_started :: bool
  vi_failed :: bool

definition ensure_started :: "('r \<Rightarrow> bool \<times> 'r) \<Rightarrow> 'r Vst3Instance \<Rightarrow> bool \<times> 'r" where
  "ensure_started start v = (if vi_started v then (True, vi_runner v) else start (vi_runner v))"

definition vst3_process ::
    "('r \<Rightarrow> bool \<times> 'r) \<Rightarrow> ('r \<Rightarrow> usize \<Rightarrow> f32 list list \<times> f32 list list
        \<Rightarrow> bool \<times> (f32 list list \<times> f32 list list) \<times> 'r)
      \<Rightarrow> 'r Vst3Instance \<Rightarrow> f32 list \<Rightarrow> ('r Vst3Instance \<times> f32 list) option" where
  "vst3_process start plug v samples =
     (let frames = vlen samples div NUM_CHANNELS
      in if frames = 0 then Some (v, samples)
         else let (ok, s) = fits (vi_scratch v) frames; v = v\<lparr>vi_scratch := s\<rparr>
              in if \<not> ok then Some (v, samples)
                 else let (started, r) = ensure_started start v;
                          v = v\<lparr>vi_runner := r\<rparr>
                      in if \<not> started then Some (v\<lparr>vi_failed := True\<rparr>, samples)
                         else let v = v\<lparr>vi_started := True\<rparr>
                              in case deinterleave_stereo (vi_scratch v) samples frames of
                                   None \<Rightarrow> None
                                 | Some s \<Rightarrow>
                                     let (bufs, s) = take_buffers s;
                                         (ok, (inputs, outputs), r) = plug (vi_runner v) frames bufs;
                                         s = restore_buffers s inputs outputs;
                                         v = v\<lparr>vi_runner := r, vi_scratch := s\<rparr>
                                     in if ok then map_option (Pair v) (reinterleave_stereo s samples frames)
                                        else Some (v\<lparr>vi_failed := True\<rparr>, samples))"

section \<open>Lossless blocks\<close>

definition scratch_ok :: "PlanarScratch \<Rightarrow> bool" where
  "scratch_ok s \<longleftrightarrow> length (sc_inputs s) = 2 \<and> length (sc_outputs s) = 2
     \<and> (\<forall>b \<in> set (sc_inputs s @ sc_outputs s). length b = unat (sc_frames s))"

lemma scratch_ok_new: "scratch_ok (scratch_new n)"
  by (simp add: scratch_ok_def scratch_new_def Let_def NUM_CHANNELS_def)

text \<open>The planar channels of an interleaved block.\<close>

definition channel :: "nat \<Rightarrow> nat \<Rightarrow> f32 list \<Rightarrow> f32 list" where
  "channel ch len samples = map (\<lambda>i. samples ! (i * 2 + ch)) [0..<len]"

lemma deinterleave_channel_ok:
  assumes "len \<le> length b" "len \<le> length samples div 2" "ch < 2"
  shows "deinterleave_channel samples len ch b
    = Some (channel ch len samples @ replicate (length b - len) (Num 0))"
proof -
  have "i * 2 + ch < length samples" if "i < len" for i using that assms by linarith
  with assms(1) show ?thesis by (simp add: deinterleave_channel_def channel_def)
qed

lemma two_lists: "length bs = 2 \<Longrightarrow> \<exists>x y. bs = [x, y]"
  by (cases bs; cases "tl bs") auto

lemma deinterleave_ok:
  assumes "scratch_ok s" "frames \<le> sc_frames s" "n = min (unat frames) (length samples div 2)"
  shows "deinterleave_stereo s samples frames
      = Some (s\<lparr>sc_inputs := map (\<lambda>ch. channel ch n samples @ replicate (unat (sc_frames s) - n) (Num 0)) [0, 1]\<rparr>)"
proof -
  obtain a b where ab: "sc_inputs s = [a, b]" using assms(1) two_lists [of "sc_inputs s"] by (auto simp: scratch_ok_def)
  have l: "length a = unat (sc_frames s)" "length b = unat (sc_frames s)"
    using assms(1) ab by (simp_all add: scratch_ok_def)
  have le: "n \<le> unat (sc_frames s)" using assms(2,3) by (simp add: word_le_nat_alt)
  have half: "n \<le> length samples div 2" by (simp add: assms(3))
  show ?thesis
    using deinterleave_channel_ok [of n a samples 0] deinterleave_channel_ok [of n b samples 1] le half l ab
    by (simp add: deinterleave_stereo_def assms(3) [symmetric])
qed

lemma length_channel [simp]: "length (channel ch n samples) = n"
  by (simp add: channel_def)

text \<open>The interleaved block after its first \<open>n\<close> frames have been replaced.\<close>

lemma write_frames_prefix:
  assumes "n \<le> length l" "n \<le> length r" "n \<le> length samples div 2"
  shows "\<exists>out. write_frames l r [0..<n] samples = Some out \<and> length out = length samples
    \<and> (\<forall>j < length samples. out ! j = (if j < n * 2 then (if even j then l else r) ! (j div 2) else samples ! j))"
  using assms
proof (induction n)
  case (Suc n)
  have app: "write_frames l r (xs @ [n]) s = (case write_frames l r xs s of None \<Rightarrow> None
      | Some o1 \<Rightarrow> write_frames l r [n] o1)" for xs s
    by (induction xs arbitrary: s) auto
  obtain o1 where o1: "write_frames l r [0..<n] samples = Some o1" "length o1 = length samples"
    "\<forall>j < length samples. o1 ! j = (if j < n * 2 then (if even j then l else r) ! (j div 2) else samples ! j)"
    using Suc by auto
  have "n * 2 + 1 < length samples" using Suc.prems(3) by linarith
  moreover have "j < Suc n * 2 \<longleftrightarrow> j < n * 2 \<or> j = n * 2 \<or> j = n * 2 + 1" for j by presburger
  ultimately show ?case using app [of "[0..<n]" samples] o1 Suc.prems
    by (auto simp: nth_list_update)
qed simp


lemma scratch_two: "scratch_ok s \<Longrightarrow> \<exists>l r. sc_outputs s = [l, r] \<and> length l = unat (sc_frames s)
    \<and> length r = unat (sc_frames s)"
  using two_lists [of "sc_outputs s"] by (auto simp: scratch_ok_def)

text \<open>
  Deinterleaving and interleaving are inverse: when the plugin copies its input channels
  to its outputs, a block that fits in the scratch comes back unchanged, the odd sample of an
  incomplete last frame included, and a block shorter than the scratch leaves no stale
  samples in the channels.
\<close>

lemma planar_roundtrip:
  assumes "scratch_ok s" "frames \<le> sc_frames s" "unat frames \<le> length samples div 2"
  shows "\<exists>s'. deinterleave_stereo s samples frames = Some s'
    \<and> reinterleave_stereo (s'\<lparr>sc_outputs := sc_inputs s'\<rparr>) samples frames = Some samples
    \<and> map (drop (unat frames)) (sc_inputs s') = replicate 2 (replicate (unat (sc_frames s) - unat frames) (Num 0))"
proof -
  define n where "n = unat frames"
  have n: "n = min (unat frames) (length samples div 2)" "n \<le> length samples div 2" "n \<le> unat (sc_frames s)"
    using assms(2,3) by (simp_all add: n_def word_le_nat_alt)
  let ?c = "\<lambda>ch. channel ch n samples @ replicate (unat (sc_frames s) - n) (Num 0)"
  have d: "deinterleave_stereo s samples frames = Some (s\<lparr>sc_inputs := [?c 0, ?c 1]\<rparr>)"
    using deinterleave_ok [OF assms(1,2) n(1)] by simp
  obtain out where out: "write_frames (?c 0) (?c 1) [0..<n] samples = Some out" "length out = length samples"
    "\<forall>j < length samples. out ! j = (if j < n * 2 then (if even j then ?c 0 else ?c 1) ! (j div 2) else samples ! j)"
    using write_frames_prefix [of n "?c 0" "?c 1" samples] n(2) by auto
  have "out = samples"
  proof (rule nth_equalityI [OF out(2)])
    fix j assume "j < length out"
    then have j: "j < length samples" using out(2) by simp
    show "out ! j = samples ! j"
    proof (cases "j < n * 2")
      case True
      then have d2: "j div 2 < n" by linarith
      have "channel (j mod 2) n samples ! (j div 2) = samples ! j"
        using d2 by (simp add: channel_def)
      then show ?thesis using out(3) j True d2
        by (cases "even j") (auto simp: nth_append even_iff_mod_2_eq_zero odd_iff_mod_2_eq_one)
    qed (use out(3) j in simp)
  qed
  with out(1) have "reinterleave_stereo (s\<lparr>sc_inputs := [?c 0, ?c 1], sc_outputs := [?c 0, ?c 1]\<rparr>) samples frames
      = Some samples"
    by (simp add: reinterleave_stereo_def n(1) [symmetric])
  with d show ?thesis by (simp add: n_def [symmetric] numeral_2_eq_2)
qed

lemma planar_roundtrip_witness:
  "scratch_ok (scratch_new 4) \<and> (\<exists>s'. deinterleave_stereo (scratch_new 4) [Num 1, Num 2, Num 3] 1 = Some s'
    \<and> reinterleave_stereo (s'\<lparr>sc_outputs := sc_inputs s'\<rparr>) [Num 1, Num 2, Num 3] 1 = Some [Num 1, Num 2, Num 3])"
proof -
  have "(1::usize) \<le> sc_frames (scratch_new 4)"
    by (simp add: scratch_new_def MAX_BLOCK_FRAMES_def Let_def min_def)
  from planar_roundtrip [OF scratch_ok_new this, of "[Num 1, Num 2, Num 3]"] scratch_ok_new show ?thesis
    by auto
qed

text \<open>
  C15. A block through the VST3 host: for every block length, whatever the plugin answers (as
  long as it keeps the length of the planar channels), the call returns, the block keeps its
  length and the scratch stays usable for the next one.  A block that does not fit, or whose
  plugin does not start or fails, passes through unchanged; the first case raises the
  overflow flag.
\<close>

theorem vst3_process_total:
  assumes ok: "scratch_ok (vi_scratch v)" and len: "length samples < 2 ^ 62"
    and plug: "\<And>r n ins outs b ins' outs' r'. plug r n (ins, outs) = (b, (ins', outs'), r')
        \<Longrightarrow> map length ins' = map length ins \<and> map length outs' = map length outs"
  shows "\<exists>v' out. vst3_process start plug v samples = Some (v', out) \<and> length out = length samples
    \<and> scratch_ok (vi_scratch v')
    \<and> (sc_frames (vi_scratch v) < vlen samples div NUM_CHANNELS \<longrightarrow>
         out = samples \<and> sc_overflowed (vi_scratch v'))"
proof -
  let ?f = "vlen samples div NUM_CHANNELS"
  have f: "unat ?f = length samples div 2" using len by (simp add: unat_div_distrib unat_vlen NUM_CHANNELS_def)
  show ?thesis
  proof (cases "?f = 0 \<or> sc_frames (vi_scratch v) < ?f")
    case True
    then show ?thesis using ok by (auto simp: vst3_process_def Let_def fits_def scratch_ok_def)
  next
    case False
    then have fit: "fits (vi_scratch v) ?f = (True, vi_scratch v)" "?f \<le> sc_frames (vi_scratch v)"
      by (auto simp: fits_def not_less)
    obtain b0 r0 where st: "ensure_started start v = (b0, r0)"
      by fastforce
    show ?thesis
    proof (cases b0)
      case False
      have "ensure_started start (v\<lparr>vi_scratch := vi_scratch v\<rparr>) = (b0, r0)" using st by simp
      with False fit st \<open>\<not> (?f = 0 \<or> _)\<close> ok show ?thesis by (simp add: vst3_process_def Let_def)
    next
      case True
      obtain l r where d: "deinterleave_stereo (vi_scratch v) samples ?f
          = Some ((vi_scratch v)\<lparr>sc_inputs := [l, r]\<rparr>)"
        "length l = unat (sc_frames (vi_scratch v))" "length r = unat (sc_frames (vi_scratch v))"
        using deinterleave_ok [OF ok fit(2) refl, of samples] fit(2) f by (auto simp: word_le_nat_alt)
      obtain ol or' where o': "sc_outputs (vi_scratch v) = [ol, or']"
        "length ol = unat (sc_frames (vi_scratch v))" "length or' = unat (sc_frames (vi_scratch v))"
        using scratch_two [OF ok] by blast
      obtain b1 i1 o1 r1 where p: "plug r0 ?f ([l, r], [ol, or']) = (b1, (i1, o1), r1)"
        by (metis prod.exhaust)
      from plug [OF p] obtain i2 i3 o2 o3 where io: "i1 = [i2, i3]" "o1 = [o2, o3]" "length i2 = length l"
        "length i3 = length r" "length o2 = length ol" "length o3 = length or'"
        by (auto simp: map_eq_Cons_conv)
      have "\<exists>out. reinterleave_stereo ((vi_scratch v)\<lparr>sc_inputs := i1, sc_outputs := o1\<rparr>) samples ?f = Some out
          \<and> length out = length samples"
        using write_frames_prefix [of "length samples div 2" o2 o3 samples] io o' fit(2) f
        by (auto simp: reinterleave_stereo_def word_le_nat_alt Let_def)
      then show ?thesis using fit st d o' p io True \<open>\<not> (?f = 0 \<or> _)\<close> ok
        by (cases b1) (auto simp: vst3_process_def Let_def take_buffers_def restore_buffers_def scratch_ok_def)
    qed
  qed
qed

theorem vst3_process_total_witness:
  "\<exists>v' out. vst3_process (Pair True) (\<lambda>r n io. (True, io, r))
      \<lparr>vi_runner = (), vi_scratch = scratch_new 4, vi_started = False, vi_failed = False\<rparr> (replicate 10 (Num 1))
    = Some (v', out) \<and> length out = 10 \<and> scratch_ok (vi_scratch v')"
  using vst3_process_total [of "\<lparr>vi_runner = (), vi_scratch = scratch_new 4, vi_started = False, vi_failed = False\<rparr>"
      "replicate 10 (Num 1)" "\<lambda>r n io. (True, io, r)" "Pair True"] scratch_ok_new
  by force

end
