(* ===== verification/PluginParams.thy ===== *)
theory PluginParams
  imports Ieee
begin

text \<open>
  The parameters of a hosted plugin (crates/hikaru_plugin_host/src): \<open>PluginParamInfo\<close> of
  lib.rs, the change detection of \<open>Vst3Instance\<close> and \<open>ClapInstance\<close> that tells an edit in the
  plugin's own window from the echo of a value the host has written, the parameter queue
  towards the audio thread and the timer registry of the CLAP host.  What the plugin reports
  (its values, its explicit edits, its open gesture) is an argument.
\<close>

section \<open>Parameter descriptions\<close>

record PluginParamInfo =
  pi_id :: u32
  pi_name :: string
  pi_unit :: string
  pi_min :: f32
  pi_max :: f32
  pi_default_value :: f32
  pi_step_count :: int
  pi_can_automate :: bool

definition is_boolean :: "PluginParamInfo \<Rightarrow> bool" where
  "is_boolean p \<longleftrightarrow> pi_step_count p = 2"

definition is_discrete :: "PluginParamInfo \<Rightarrow> bool" where
  "is_discrete p \<longleftrightarrow> 1 < pi_step_count p"

definition snap :: "PluginParamInfo \<Rightarrow> f32 \<Rightarrow> f32" where
  "snap p normalized =
     (let n = fclamp normalized (Num 0) (Num 1)
      in if is_discrete p
         then let steps = Num (round_q F32 (of_int (pi_step_count p)))
              in fclamp (fdiv F32 (fround (fmul F32 n steps)) steps) (Num 0) (Num 1)
         else n)"

text \<open>\<open>snapshot_params\<close>: \<open>info\<close> and \<open>get\<close> are the plugin's answers.\<close>

definition snapshot_params ::
    "nat \<Rightarrow> (nat \<Rightarrow> PluginParamInfo option) \<Rightarrow> (u32 \<Rightarrow> f32 option) \<Rightarrow> (PluginParamInfo \<times> f32) list" where
  "snapshot_params n info get =
     (let xs = concat (map (\<lambda>i. case info i of None \<Rightarrow> []
                  | Some p \<Rightarrow> [(p, case get (pi_id p) of None \<Rightarrow> pi_default_value p | Some v \<Rightarrow> v)]) [0..<n])
      in if list_ex (\<lambda>(p, _). pi_can_automate p) xs then filter (\<lambda>(p, _). pi_can_automate p) xs else xs)"

section \<open>Telling edits from echoes\<close>

definition PARAM_EPSILON :: f32 where "PARAM_EPSILON = lit F32 (1 / 10 ^ 6)"

definition near :: "f32 \<Rightarrow> f32 \<Rightarrow> bool" where
  "near a b \<longleftrightarrow> le (fabs (fsub F32 a b)) PARAM_EPSILON"

record EchoState =
  es_host_sent :: "u32 \<rightharpoonup> f32"
  es_seen :: "u32 \<rightharpoonup> f32"
  es_editing :: "u32 option"

definition echo_new :: EchoState where
  "echo_new = \<lparr> es_host_sent = Map.empty, es_seen = Map.empty, es_editing = None \<rparr>"

text \<open>The value noted by \<open>set_param_normalized\<close>, and the value handed to the plugin.\<close>

definition note_host_value :: "EchoState \<Rightarrow> u32 \<Rightarrow> f32 \<Rightarrow> f32 \<times> EchoState" where
  "note_host_value s i value =
     (let value = fclamp value (Num 0) (Num 1)
      in (value, s\<lparr>es_host_sent := (es_host_sent s)(i \<mapsto> value)\<rparr>))"

text \<open>The tests of the polling loop on one parameter, in their order.\<close>

definition user_edit ::
    "(u32 \<rightharpoonup> f32) \<Rightarrow> u32 list \<Rightarrow> u32 option \<Rightarrow> f32 option \<Rightarrow> u32 \<Rightarrow> f32 \<Rightarrow> bool" where
  "user_edit host_sent reported editing previous i current =
     (case previous of
        None \<Rightarrow> False
      | Some previous \<Rightarrow>
          if near previous current then False
          else if i \<in> set reported then False
          else if editing = Some i then True
          else case host_sent i of None \<Rightarrow> True | Some sent \<Rightarrow> \<not> near sent current)"

fun poll_ids ::
    "(u32 \<Rightarrow> f32 option) \<Rightarrow> (u32 \<rightharpoonup> f32) \<Rightarrow> u32 list \<Rightarrow> u32 option \<Rightarrow> u32 list \<Rightarrow> (u32 \<rightharpoonup> f32)
      \<Rightarrow> (u32 \<times> f32) list \<times> (u32 \<rightharpoonup> f32)" where
  "poll_ids get host_sent reported editing [] seen = ([], seen)"
| "poll_ids get host_sent reported editing (i # ids) seen =
     (case get i of
        None \<Rightarrow> poll_ids get host_sent reported editing ids seen
      | Some current \<Rightarrow>
          let (changes, seen') = poll_ids get host_sent reported editing ids (seen(i \<mapsto> current))
          in (if user_edit host_sent reported editing (seen i) i current then (i, current) # changes else changes,
              seen'))"

definition vst3_poll ::
    "(u32 \<times> f64) list \<Rightarrow> u32 option \<Rightarrow> (u32 \<times> bool \<times> bool) list \<Rightarrow> (u32 \<Rightarrow> f32 option)
      \<Rightarrow> EchoState \<Rightarrow> (u32 \<times> f32) list \<times> EchoState" where
  "vst3_poll edits gesture params get s =
     (let changes = map (\<lambda>(i, v). (i, to_f32 (fclamp v (Num 0) (Num 1)))) edits;
          reported = map fst changes;
          s = s\<lparr>es_editing := gesture\<rparr>;
          ids = map fst (filter (\<lambda>(i, can_automate, read_only). can_automate \<and> \<not> read_only) params);
          (diff, seen) = poll_ids get (es_host_sent s) reported (es_editing s) ids (es_seen s)
      in (changes @ diff, s\<lparr>es_seen := seen\<rparr>))"

text \<open>CLAP has no explicit edits and no gestures; \<open>params\<close> is \<open>None\<close> without the extension.\<close>

definition clap_poll ::
    "(u32 \<times> bool) list option \<Rightarrow> (u32 \<Rightarrow> f32 option) \<Rightarrow> EchoState \<Rightarrow> (u32 \<times> f32) list \<times> EchoState" where
  "clap_poll params get s =
     (case params of
        None \<Rightarrow> ([], s)
      | Some ps \<Rightarrow>
          let (diff, seen) = poll_ids get (es_host_sent s) [] None (map fst (filter snd ps)) (es_seen s)
          in (diff, s\<lparr>es_seen := seen\<rparr>))"

text \<open>\<open>ClapInstance::get_param_normalized\<close>: what it makes of the plain value of the plugin.\<close>

definition clap_get_param_normalized :: "(u32 \<Rightarrow> f64 option) \<Rightarrow> u32 \<Rightarrow> f32 option" where
  "clap_get_param_normalized value i = map_option (\<lambda>v. to_f32 (fclamp v (Num 0) (Num 1))) (value i)"

section \<open>The queue to the audio thread\<close>

record ParamQueue =
  pq_items :: "(u32 \<times> f32) list"
  pq_capacity :: nat

definition queue_new :: "nat \<Rightarrow> ParamQueue" where
  "queue_new capacity = \<lparr> pq_items = [], pq_capacity = max capacity 1 \<rparr>"

definition queue_push :: "ParamQueue \<Rightarrow> u32 \<times> f32 \<Rightarrow> bool \<times> ParamQueue" where
  "queue_push q p = (if length (pq_items q) < pq_capacity q then (True, q\<lparr>pq_items := pq_items q @ [p]\<rparr>)
     else (False, q))"

definition queue_drain :: "ParamQueue \<Rightarrow> (u32 \<times> f32) list \<times> ParamQueue" where
  "queue_drain q = (pq_items q, q\<lparr>pq_items := []\<rparr>)"

section \<open>Timers\<close>

record TimerRegistry =
  tm_entries :: "(u32 \<times> u32 \<times> u64) list"
  tm_next_id :: u32

definition timers_new :: TimerRegistry where
  "timers_new = \<lparr> tm_entries = [], tm_next_id = 1 \<rparr>"

definition timer_register :: "TimerRegistry \<Rightarrow> u32 \<Rightarrow> u64 \<Rightarrow> u32 \<times> TimerRegistry" where
  "timer_register r period_ms now_ms =
     (tm_next_id r, \<lparr> tm_entries = tm_entries r @ [(tm_next_id r, period_ms, sat_add now_ms (ucast period_ms))],
        tm_next_id = max (tm_next_id r + 1) 1 \<rparr>)"

definition timer_unregister :: "TimerRegistry \<Rightarrow> u32 \<Rightarrow> TimerRegistry" where
  "timer_unregister r i = r\<lparr>tm_entries := filter (\<lambda>(entry, _, _). entry \<noteq> i) (tm_entries r)\<rparr>"

fun take_due_entries :: "u64 \<Rightarrow> (u32 \<times> u32 \<times> u64) list \<Rightarrow> u32 list \<times> (u32 \<times> u32 \<times> u64) list" where
  "take_due_entries now_ms [] = ([], [])"
| "take_due_entries now_ms ((i, period, due_at) # es) =
     (let (due, es) = take_due_entries now_ms es
      in if due_at \<le> now_ms then (i # due, (i, period, sat_add now_ms (ucast period)) # es)
         else (due, (i, period, due_at) # es))"

definition take_due :: "TimerRegistry \<Rightarrow> u64 \<Rightarrow> u32 list \<times> TimerRegistry" where
  "take_due r now_ms =
     (let (due, es) = take_due_entries now_ms (tm_entries r) in (due, r\<lparr>tm_entries := es\<rparr>))"

section \<open>What a poll reports\<close>

lemma poll_ids_step:
  "get i = Some c \<Longrightarrow> fst (poll_ids get hs rep ed (i # ids) seen) =
     (if user_edit hs rep ed (seen i) i c then (i, c) # fst (poll_ids get hs rep ed ids (seen(i \<mapsto> c)))
      else fst (poll_ids get hs rep ed ids (seen(i \<mapsto> c))))"
  "get i = Some c \<Longrightarrow> snd (poll_ids get hs rep ed (i # ids) seen) = snd (poll_ids get hs rep ed ids (seen(i \<mapsto> c)))"
  by (simp_all add: Let_def split: prod.split)

lemma poll_ids_seen:
  "snd (poll_ids get hs rep ed ids seen) i = (if i \<in> set ids \<and> get i \<noteq> None then get i else seen i)"
proof (induction ids arbitrary: seen)
  case (Cons j ids)
  then show ?case by (cases "get j") (auto simp: poll_ids_step simp del: poll_ids.simps(2), simp_all)
qed simp

lemma poll_ids_reports:
  "distinct ids \<Longrightarrow> (i, v) \<in> set (fst (poll_ids get hs rep ed ids seen)) \<longleftrightarrow>
     i \<in> set ids \<and> get i = Some v \<and> user_edit hs rep ed (seen i) i v"
proof (induction ids arbitrary: seen)
  case (Cons j ids)
  show ?case
  proof (cases "get j")
    case None
    with Cons show ?thesis by auto
  next
    case (Some c)
    define S where "S = fst (poll_ids get hs rep ed ids (seen(j \<mapsto> c)))"
    have ih: "(i, v) \<in> set S \<longleftrightarrow> i \<in> set ids \<and> get i = Some v \<and> user_edit hs rep ed (seen i) i v"
    proof (cases "i = j")
      case False
      then have same: "(seen(j \<mapsto> c)) i = seen i" by simp
      show ?thesis using Cons.IH [of "seen(j \<mapsto> c)"] Cons.prems unfolding S_def same by (simp del: fun_upd_apply)
    qed (use Cons.IH [of "seen(j \<mapsto> c)"] Cons.prems in \<open>simp add: S_def del: fun_upd_apply\<close>)
    have step: "fst (poll_ids get hs rep ed (j # ids) seen)
        = (if user_edit hs rep ed (seen j) j c then (j, c) # S else S)"
      unfolding S_def by (rule poll_ids_step(1) [of get j c, OF Some])
    show ?thesis using Cons.prems ih Some unfolding step by auto
  qed
qed simp

lemma near_refl: "is_finite v \<Longrightarrow> near v v"
proof -
  assume v: "is_finite v"
  have "val (fsub F32 v v) = 0 \<and> is_finite (fsub F32 v v)"
    using v by (simp add: fsub_def fadd_finite mk_def)
  then have "is_finite (fabs (fsub F32 v v)) \<and> val (fabs (fsub F32 v v)) = 0"
    by (cases "fsub F32 v v") simp_all
  moreover have "is_finite PARAM_EPSILON \<and> 0 \<le> val PARAM_EPSILON" unfolding PARAM_EPSILON_def by code_simp
  ultimately show ?thesis by (simp add: near_def le_finite)
qed

text \<open>
  What the change detection reports for a VST3 plugin, exactly: besides the edits the
  plugin announced, an automatable parameter is reported, with its current value, when that
  value moved away from the one last seen, was not already announced, and either the user
  holds its control or the value is not the one the host last wrote.  Whatever is reported,
  the value last seen becomes the current one.
\<close>

lemma vst3_poll_reports:
  assumes "distinct (map fst params)" "i \<notin> fst ` set edits" "(i, True, False) \<in> set params" "get i = Some w"
  shows "((i, v) \<in> set (fst (vst3_poll edits gesture params get s)) \<longleftrightarrow>
      v = w \<and> (\<exists>p. es_seen s i = Some p \<and> \<not> near p w)
      \<and> (gesture = Some i \<or> (case es_host_sent s i of None \<Rightarrow> True | Some sent \<Rightarrow> \<not> near sent w)))
    \<and> es_seen (snd (vst3_poll edits gesture params get s)) i = Some w"
proof -
  let ?ids = "map fst (filter (\<lambda>(i, a, r). a \<and> \<not> r) params)"
  let ?ch = "map (\<lambda>(i, v). (i, to_f32 (fclamp v (Num 0) (Num 1)))) edits"
  have d: "distinct ?ids" using assms(1) by (simp add: distinct_map_filter)
  have ids: "i \<in> set ?ids" using assms(3) by force
  have rep: "i \<notin> set (map fst ?ch)" "(i, v) \<notin> set ?ch" using assms(2) by force+
  obtain diff seen where p: "poll_ids get (es_host_sent s) (map fst ?ch) gesture ?ids (es_seen s) = (diff, seen)"
    by fastforce
  have vp: "vst3_poll edits gesture params get s = (?ch @ diff, s\<lparr>es_editing := gesture, es_seen := seen\<rparr>)"
    using p by (simp add: vst3_poll_def Let_def)
  have "(i, v) \<in> set diff \<longleftrightarrow> v = w \<and> user_edit (es_host_sent s) (map fst ?ch) gesture (es_seen s i) i v"
    using poll_ids_reports [OF d, of i v get "es_host_sent s" "map fst ?ch" gesture "es_seen s"] ids assms(4)
    unfolding p by auto
  moreover have "seen i = Some w"
    using poll_ids_seen [of get "es_host_sent s" "map fst ?ch" gesture ?ids "es_seen s" i] ids assms(4)
    unfolding p by simp
  ultimately show ?thesis using rep unfolding vp user_edit_def by (auto split: option.splits)
qed

lemma vst3_poll_reports_witness:
  "(7, Num 1) \<in> set (fst (vst3_poll [] None [(7, True, False)] (\<lambda>i. Some (Num 1))
      \<lparr> es_host_sent = Map.empty, es_seen = [7 \<mapsto> Num 0], es_editing = None \<rparr>))"
proof -
  have "\<not> near (Num 0) (Num 1)" by code_simp
  with vst3_poll_reports [of "[(7, True, False)]" 7 "[]" "\<lambda>i. Some (Num 1)" "Num 1" "Num 1" None
      "\<lparr> es_host_sent = Map.empty, es_seen = [7 \<mapsto> Num 0], es_editing = None \<rparr>"] show ?thesis by simp
qed

text \<open>
  The host's note of a value it has written never expires, so an edit in the plugin's
  window that returns to that value is taken for an echo and lost: after the host has written
  \<open>v\<close>, a move of the plugin's own knob to \<open>w\<close> is reported, the move back to \<open>v\<close> is not, and
  no later poll reports it while the knob stays there.  The rack goes on showing \<open>w\<close>.
\<close>

lemma edit_back_to_host_value_lost:
  assumes ps: "distinct (map fst ps)" "(i, True) \<in> set ps"
    and v: "is_finite v" "0 \<le> val v" "val v \<le> 1" and far: "\<not> near v w" "\<not> near w v"
  defines "poll \<equiv> (\<lambda>x s. clap_poll (Some ps) (\<lambda>j. if j = i then Some x else None) s)"
  shows "let s0 = snd (poll v (snd (note_host_value echo_new i v)));
             (r1, s1) = poll w s0; (r2, s2) = poll v s1; (r3, s3) = poll v s2
         in r1 = [(i, w)] \<and> r2 = [] \<and> r3 = []"
proof -
  have nv: "note_host_value echo_new i v = (v, echo_new\<lparr>es_host_sent := [i \<mapsto> v]\<rparr>)"
    using fclamp_id [of v "Num 0" "Num 1"] v by (simp add: note_host_value_def Let_def echo_new_def)
  let ?ids = "map fst (filter snd ps)"
  have d: "distinct ?ids" "i \<in> set ?ids" using ps by (force simp: distinct_map_filter)+
  let ?get = "\<lambda>x j. if j = i then Some x else None"
  have only: "fst (poll_ids (?get x) [i \<mapsto> v] [] None ids seen)
      = (if i \<in> set ids \<and> user_edit [i \<mapsto> v] [] None (seen i) i x then [(i, x)] else [])"
    if "distinct ids" for ids seen x
    using that
  proof (induction ids arbitrary: seen)
    case (Cons j ids)
    show ?case
    proof (cases "j = i")
      case True
      with Cons show ?thesis using poll_ids_step(1) [of "?get x" i x] by simp
    qed (use Cons in auto)
  qed simp
  have seen: "snd (poll_ids (?get x) [i \<mapsto> v] [] None ?ids seen) = seen(i \<mapsto> x)" for seen x
    using d(2) by (auto simp: poll_ids_seen fun_eq_iff)
  have poll: "poll x s = ((if user_edit [i \<mapsto> v] [] None (es_seen s i) i x then [(i, x)] else []),
      s\<lparr>es_seen := (es_seen s)(i \<mapsto> x)\<rparr>)"
    if "es_host_sent s = [i \<mapsto> v]" for s x
  proof -
    obtain diff sn where p: "poll_ids (?get x) [i \<mapsto> v] [] None ?ids (es_seen s) = (diff, sn)" by fastforce
    from only [OF d(1), of x "es_seen s"] seen [of x "es_seen s"] d(2) p that show ?thesis
      by (simp add: poll_def clap_poll_def)
  qed
  show ?thesis using far near_refl [OF v(1)] unfolding nv by (simp add: poll echo_new_def Let_def user_edit_def)
qed

lemma edit_back_to_host_value_lost_witness:
  "let poll = (\<lambda>x s. clap_poll (Some [(7, True)]) (\<lambda>j. if j = 7 then Some x else None) s);
       s0 = snd (poll (Num 1) (snd (note_host_value echo_new 7 (Num 1))));
       (r1, s1) = poll (Num 0) s0; (r2, s2) = poll (Num 1) s1; (r3, s3) = poll (Num 1) s2
   in r1 = [(7, Num 0)] \<and> r2 = [] \<and> r3 = []"
proof -
  have "\<not> near (Num 0) (Num 1)" "\<not> near (Num 1) (Num 0)" by code_simp+
  with edit_back_to_host_value_lost [of "[(7, True)]" 7 "Num 1" "Num 0"] show ?thesis by (simp add: Let_def)
qed

text \<open>
  CLAP values are not normalised on reading: every plain value of at least 1 reads as 1,
  so two settings of a parameter in Hz or dB cannot be told apart.
\<close>

lemma clap_plain_values_saturate:
  assumes "value i = Some (Num x)" "1 \<le> x"
  shows "clap_get_param_normalized value i = Some (Num 1)"
proof -
  have "fclamp (Num x) (Num 0) (Num 1) = Num 1" using assms(2) by (auto simp: fclamp_def)
  moreover have "to_f32 (Num 1) = Num 1" by (simp add: mk_def)
  ultimately show ?thesis using assms(1) by (simp add: clap_get_param_normalized_def del: to_f32.simps)
qed

lemma clap_plain_values_saturate_witness:
  "clap_get_param_normalized (\<lambda>i. Some (Num 440)) 3 = Some (Num 1)"
  using clap_plain_values_saturate [of "\<lambda>i. Some (Num 440)" 3 440] by simp

section \<open>Timers fire once per period\<close>

definition timers_ok :: "TimerRegistry \<Rightarrow> bool" where
  "timers_ok r \<longleftrightarrow> distinct (map fst (tm_entries r)) \<and> (\<forall>e \<in> set (tm_entries r). fst e < tm_next_id r)"

lemma take_due_entries_map:
  "take_due_entries now es = (map fst (filter (\<lambda>(_, _, d). d \<le> now) es),
     map (\<lambda>(i, p, d). (i, p, if d \<le> now then sat_add now (ucast p) else d)) es)"
  by (induction es) (auto simp: Let_def)

lemma timer_due:
  assumes "timers_ok r" "(i, period, d) \<in> set (tm_entries r)"
  shows "i \<in> set (fst (take_due r now)) \<longleftrightarrow> d \<le> now"
proof -
  have "(i, p', d') \<in> set (tm_entries r) \<longleftrightarrow> p' = period \<and> d' = d" for p' d'
    using assms by (auto simp: timers_ok_def dest: eq_key_imp_eq_value)
  then show ?thesis by (force simp: take_due_def take_due_entries_map)
qed

text \<open>
  C16. The timers of a CLAP editor: a poll fires exactly the timers that are due, each once; a timer that
  fired is due again one period after the poll (saturating), the others keep their deadline, so it does not
  fire before that and does fire at every poll from then on.  Ids stay distinct across registrations and
  removals until the 32-bit counter wraps.
\<close>

theorem timers_fire_when_due:
  assumes ok: "timers_ok r" and e: "(i, period, d) \<in> set (tm_entries r)"
  shows "(i \<in> set (fst (take_due r now)) \<longleftrightarrow> d \<le> now) \<and> distinct (fst (take_due r now))
    \<and> timers_ok (snd (take_due r now))
    \<and> (i, period, if d \<le> now then sat_add now (ucast period) else d) \<in> set (tm_entries (snd (take_due r now)))
    \<and> (d \<le> now \<and> unat now + unat period < 2 ^ 64
         \<longrightarrow> (i \<in> set (fst (take_due (snd (take_due r now)) later)) \<longleftrightarrow> unat now + unat period \<le> unat later))
    \<and> (tm_next_id r \<noteq> - 1 \<longrightarrow> timers_ok (snd (timer_register r p now)) \<and> timers_ok (timer_unregister r j))"
proof -
  have due: "i \<in> set (fst (take_due r now)) \<longleftrightarrow> d \<le> now" by (rule timer_due [OF ok e])
  have ids: "map fst (tm_entries (snd (take_due r now))) = map fst (tm_entries r)"
    by (auto simp: take_due_def take_due_entries_map)
  have ok': "timers_ok (snd (take_due r now))"
  proof -
    have "fst ` set (tm_entries (snd (take_due r now))) = fst ` set (tm_entries r)"
      using arg_cong [OF ids, of set] by simp
    moreover have "tm_next_id (snd (take_due r now)) = tm_next_id r"
      by (simp add: take_due_def take_due_entries_map)
    moreover have b: "(\<forall>e \<in> set es. fst e < n) \<longleftrightarrow> (\<forall>j \<in> fst ` set es. j < n)" for es :: "(u32 \<times> u32 \<times> u64) list" and n
      by auto
    ultimately show ?thesis using ok unfolding timers_ok_def ids b by (elim conjE) (simp only: simp_thms)
  qed
  have dist: "distinct (fst (take_due r now))"
    using ok by (simp add: take_due_def take_due_entries_map timers_ok_def distinct_map_filter)
  have entry: "(i, period, if d \<le> now then sat_add now (ucast period) else d) \<in> set (tm_entries (snd (take_due r now)))"
    using e by (force simp: take_due_def take_due_entries_map)
  have later: "i \<in> set (fst (take_due (snd (take_due r now)) later)) \<longleftrightarrow> unat now + unat period \<le> unat later"
    if "d \<le> now" "unat now + unat period < 2 ^ 64"
  proof -
    have up: "unat (ucast period :: u64) = unat period" by (simp add: unsigned_ucast_eq take_bit_nat_eq_self order_less_le_trans [OF unsigned_less])
    then have "unat (sat_add now (ucast period)) = unat now + unat period" using that(2) by (simp add: unat_sat_add)
    then have "sat_add now (ucast period) \<le> later \<longleftrightarrow> unat now + unat period \<le> unat later" by (simp add: word_le_nat_alt)
    moreover have "i \<in> set (fst (take_due (snd (take_due r now)) later)) \<longleftrightarrow> sat_add now (ucast period) \<le> later"
      using timer_due [OF ok' entry] that(1) by simp
    ultimately show ?thesis by simp
  qed
  have reg: "timers_ok (snd (timer_register r p now)) \<and> timers_ok (timer_unregister r j)" if "tm_next_id r \<noteq> - 1"
  proof -
    have "tm_next_id r < tm_next_id r + 1" using that by (rule word_less_inc)
    moreover have "tm_next_id r + 1 \<le> max (tm_next_id r + 1) 1" by simp
    ultimately have lt: "tm_next_id r < max (tm_next_id r + 1) 1" by (rule order_less_le_trans)
    then have "e < max (tm_next_id r + 1) 1" if "e < tm_next_id r" for e using that order_less_trans by blast
    with lt ok show ?thesis
      by (fastforce simp: timers_ok_def timer_register_def timer_unregister_def distinct_map_filter)
  qed
  show ?thesis using due dist ok' entry later reg by blast
qed

theorem timers_fire_when_due_witness:
  "timers_ok (snd (timer_register timers_new 16 100)) \<and>
   fst (timer_register timers_new 16 100) \<in> set (fst (take_due (snd (timer_register timers_new 16 100)) 120))
   \<and> 1 \<notin> set (fst (take_due (snd (take_due (snd (timer_register timers_new 16 100)) 120)) 135))
   \<and> 1 \<in> set (fst (take_due (snd (take_due (snd (timer_register timers_new 16 100)) 120)) 136))"
proof -
  let ?r = "snd (timer_register timers_new 16 100)"
  have ok: "timers_ok ?r" by (simp add: timers_ok_def timer_register_def timers_new_def max_def word_order_nat)
  have e: "(1, 16, 116) \<in> set (tm_entries ?r)" by (simp add: timer_register_def timers_new_def sat_add_def)
  have i: "fst (timer_register timers_new 16 100) = 1" by (simp add: timer_register_def timers_new_def)
  show ?thesis unfolding i using timers_fire_when_due [OF ok e, of 120 135] timers_fire_when_due [OF ok e, of 120 136] ok by simp
qed

end
