(* ===== verification/McpPort.thy ===== *)
theory McpPort
  imports Ieee "HOL-Library.AList"
begin

text \<open>
  The MCP port crate: crates/hikaru_mcp_port/src/config.rs (port slots and their configuration),
  ipc.rs (the rules of the connections, without sockets) and telemetry.rs (the bounded buffer of
  plugin snapshots).  Paths are strings; the environment, the files and serde are parameters.
\<close>

section \<open>Configuration\<close>

type_synonym PortSlotId = u16

definition FIRST_PORT_SLOT :: PortSlotId where "FIRST_PORT_SLOT = 1"

definition DEFAULT_PORT_SLOTS :: nat where "DEFAULT_PORT_SLOTS = 10"

record ServerFlags =
  sf_executable :: string
  sf_args :: "string list"
  sf_env :: "string \<rightharpoonup> string"
  sf_working_dir :: "string option"

definition server_flags_default :: ServerFlags where
  "server_flags_default = \<lparr> sf_executable = ''hikaru_mcp'', sf_args = [''--mode=live''],
     sf_env = Map.empty, sf_working_dir = None \<rparr>"

definition command_line :: "ServerFlags \<Rightarrow> string" where
  "command_line f = foldl (\<lambda>line arg. line @ '' '' @ arg) (sf_executable f) (sf_args f)"

datatype McpTransport = UnixSocket string | Stdio | ServerFlags ServerFlags

fun label :: "McpTransport \<Rightarrow> string" where
  "label (UnixSocket _) = ''Unix Socket''"
| "label Stdio = ''Stdio''"
| "label (ServerFlags _) = ''Server Flags''"

fun uses_unix_socket :: "McpTransport \<Rightarrow> bool" where
  "uses_unix_socket (UnixSocket _) = True"
| "uses_unix_socket _ = False"

fun socket_path :: "McpTransport \<Rightarrow> string option" where
  "socket_path (UnixSocket path) = Some path"
| "socket_path _ = None"

record McpPortConfig =
  mp_id :: PortSlotId
  mp_label :: string
  mp_enabled :: bool
  mp_transport :: McpTransport
  mp_max_clients :: usize

text \<open>\<open>Path::join\<close> with a relative name.\<close>

definition join :: "string \<Rightarrow> string \<Rightarrow> string" where
  "join dir name = (if dir = [] \<or> last dir = CHR ''/'' then dir @ name else dir @ ''/'' @ name)"

definition port_config_new :: "PortSlotId \<Rightarrow> string \<Rightarrow> McpPortConfig" where
  "port_config_new i path = \<lparr> mp_id = i, mp_label = ''MCP Port '' @ show_nat (unat i), mp_enabled = False,
     mp_transport = UnixSocket path, mp_max_clients = 1 \<rparr>"

definition default_runtime_dir :: "string option \<Rightarrow> string" where
  "default_runtime_dir xdg_runtime_dir =
     (case xdg_runtime_dir of
        Some dir \<Rightarrow> if dir \<noteq> [] then join dir ''hikaru'' else ''/tmp/hikaru''
      | None \<Rightarrow> ''/tmp/hikaru'')"

definition socket_path_in :: "string \<Rightarrow> PortSlotId \<Rightarrow> string" where
  "socket_path_in runtime_dir i = join runtime_dir (''hikaru-mcp-'' @ show_nat (unat i) @ ''.sock'')"

record McpServerConfig =
  mc_enabled :: bool
  mc_runtime_dir :: string
  mc_server_flags :: ServerFlags
  mc_ports :: "McpPortConfig list"

definition server_config_default :: "string option \<Rightarrow> McpServerConfig" where
  "server_config_default xdg_runtime_dir =
     (let runtime_dir = default_runtime_dir xdg_runtime_dir;
          ports = map (\<lambda>k. let i = FIRST_PORT_SLOT + word_of_nat k in port_config_new i (socket_path_in runtime_dir i))
                    [0..<DEFAULT_PORT_SLOTS]
      in \<lparr> mc_enabled = False, mc_runtime_dir = runtime_dir, mc_server_flags = server_flags_default,
           mc_ports = ports \<rparr>)"

definition slot :: "McpServerConfig \<Rightarrow> PortSlotId \<Rightarrow> McpPortConfig option" where
  "slot c i = find (\<lambda>p. mp_id p = i) (mc_ports c)"

definition slot_mut :: "McpServerConfig \<Rightarrow> PortSlotId \<Rightarrow> (McpPortConfig \<Rightarrow> McpPortConfig) \<Rightarrow> McpServerConfig" where
  "slot_mut c i write = c\<lparr>mc_ports := map_first (\<lambda>p. mp_id p = i) write (mc_ports c)\<rparr>"

definition next_port_id :: "McpServerConfig \<Rightarrow> PortSlotId" where
  "next_port_id c =
     (case map mp_id (mc_ports c) of
        [] \<Rightarrow> FIRST_PORT_SLOT
      | i # is \<Rightarrow> sat_add (fold max is i) 1)"

definition add_port :: "McpServerConfig \<Rightarrow> PortSlotId \<times> McpServerConfig" where
  "add_port c =
     (let i = next_port_id c; path = socket_path_in (mc_runtime_dir c) i
      in (i, c\<lparr>mc_ports := sort_key mp_id (mc_ports c @ [port_config_new i path])\<rparr>))"

definition remove_port :: "McpServerConfig \<Rightarrow> PortSlotId \<Rightarrow> bool \<times> McpServerConfig" where
  "remove_port c i =
     (let ports = filter (\<lambda>p. mp_id p \<noteq> i) (mc_ports c)
      in (length ports \<noteq> length (mc_ports c), c\<lparr>mc_ports := ports\<rparr>))"

definition enabled_ports :: "McpServerConfig \<Rightarrow> McpPortConfig list" where
  "enabled_ports c = filter mp_enabled (mc_ports c)"

definition socket_path_for :: "McpServerConfig \<Rightarrow> PortSlotId \<Rightarrow> string" where
  "socket_path_for c i = socket_path_in (mc_runtime_dir c) i"

datatype ConfigIssue =
    DuplicateSlot PortSlotId
  | InvalidSlotId PortSlotId
  | InvalidSocketPath PortSlotId
  | InvalidMaxClients PortSlotId

definition port_issues :: "PortSlotId list \<Rightarrow> McpPortConfig \<Rightarrow> ConfigIssue list" where
  "port_issues seen p =
     (if mp_id p < FIRST_PORT_SLOT then [InvalidSlotId (mp_id p)] else [])
     @ (if mp_id p \<in> set seen then [DuplicateSlot (mp_id p)] else [])
     @ (if mp_max_clients p = 0 then [InvalidMaxClients (mp_id p)] else [])
     @ (case mp_transport p of
          UnixSocket path \<Rightarrow> if path = [] then [InvalidSocketPath (mp_id p)] else []
        | _ \<Rightarrow> [])"

fun validate_ports :: "PortSlotId list \<Rightarrow> McpPortConfig list \<Rightarrow> ConfigIssue list" where
  "validate_ports seen [] = []"
| "validate_ports seen (p # ps) = port_issues seen p @ validate_ports (mp_id p # seen) ps"

definition validate :: "McpServerConfig \<Rightarrow> ConfigIssue list" where
  "validate c = validate_ports [] (mc_ports c)"

definition default_config_path :: "string option \<Rightarrow> string option \<Rightarrow> string" where
  "default_config_path xdg_config_home home =
     (let base = (case xdg_config_home of
                    Some dir \<Rightarrow> if dir \<noteq> [] then dir else join (case home of Some h \<Rightarrow> h | None \<Rightarrow> ''/'') ''.config''
                  | None \<Rightarrow> join (case home of Some h \<Rightarrow> h | None \<Rightarrow> ''/'') ''.config'')
      in join (join base ''hikaru'') ''mcp-ports.json'')"

text \<open>\<open>load_config\<close>: a missing file is the default, an unreadable or broken one an error.\<close>

datatype ('io, 'p) ConfigError = Io 'io | Parse 'p

definition load_config ::
    "string option \<Rightarrow> bool \<Rightarrow> 'io + string \<Rightarrow> (string \<Rightarrow> 'p + McpServerConfig)
      \<Rightarrow> ('io, 'p) ConfigError + McpServerConfig" where
  "load_config xdg_runtime_dir exists text from_str =
     (if \<not> exists then Inr (server_config_default xdg_runtime_dir)
      else case text of
             Inl e \<Rightarrow> Inl (Io e)
           | Inr t \<Rightarrow> (case from_str t of Inl e \<Rightarrow> Inl (Parse e) | Inr c \<Rightarrow> Inr c))"

section \<open>Connections\<close>

datatype IpcDirection = DListen | DConnect

datatype IpcError =
    UnsupportedTransport McpTransport
  | UnknownPort PortSlotId
  | PortDisabled PortSlotId
  | PortFull PortSlotId
  | SocketUnavailable string

datatype IpcEvent =
    Listen PortSlotId "string option"
  | Connect PortSlotId "string option"
  | Handshake PortSlotId string
  | Disconnect PortSlotId
  | Failed PortSlotId IpcError

text \<open>\<open>Failed\<close> carries the error whose text the code stores.\<close>

record IpcStub =
  is_direction :: IpcDirection
  is_events :: "IpcEvent list"
  is_clients :: "(PortSlotId \<times> string list) list"

definition ipc_new :: "IpcDirection \<Rightarrow> IpcStub" where
  "ipc_new d = \<lparr> is_direction = d, is_events = [], is_clients = [] \<rparr>"

definition log_event :: "IpcEvent \<Rightarrow> IpcStub \<Rightarrow> IpcStub" where
  "log_event ev s = s\<lparr>is_events := is_events s @ [ev]\<rparr>"

definition ipc_listen :: "IpcStub \<Rightarrow> McpPortConfig \<Rightarrow> (IpcError + unit) \<times> IpcStub" where
  "ipc_listen s p =
     (if \<not> mp_enabled p then (Inl (PortDisabled (mp_id p)), s)
      else case mp_transport p of
             UnixSocket path \<Rightarrow> (Inr (), log_event (Listen (mp_id p) (Some path)) s)
           | t \<Rightarrow> (Inl (UnsupportedTransport t), log_event (Failed (mp_id p) (UnsupportedTransport t)) s))"

definition ipc_connect :: "IpcStub \<Rightarrow> McpPortConfig \<Rightarrow> (IpcError + unit) \<times> IpcStub" where
  "ipc_connect s p =
     (if \<not> mp_enabled p then (Inl (PortDisabled (mp_id p)), s)
      else (Inr (), log_event (Connect (mp_id p) (socket_path (mp_transport p))) s))"

definition clients_of :: "IpcStub \<Rightarrow> PortSlotId \<Rightarrow> string list" where
  "clients_of s i = (case map_of (is_clients s) i of None \<Rightarrow> [] | Some cs \<Rightarrow> cs)"

definition handshake :: "IpcStub \<Rightarrow> McpPortConfig \<Rightarrow> string \<Rightarrow> (IpcError + unit) \<times> IpcStub" where
  "handshake s p agent =
     (let cs = clients_of s (mp_id p);
          s = s\<lparr>is_clients := AList.update (mp_id p) cs (is_clients s)\<rparr>
      in if mp_max_clients p \<le> vlen cs then (Inl (PortFull (mp_id p)), s)
         else (Inr (), log_event (Handshake (mp_id p) agent)
                (s\<lparr>is_clients := AList.update (mp_id p) (cs @ [agent]) (is_clients s)\<rparr>)))"

definition ipc_disconnect :: "IpcStub \<Rightarrow> PortSlotId \<Rightarrow> IpcStub" where
  "ipc_disconnect s i =
     log_event (Disconnect i)
       (case map_of (is_clients s) i of
          Some cs \<Rightarrow> s\<lparr>is_clients := AList.update i (butlast cs) (is_clients s)\<rparr>
        | None \<Rightarrow> s)"

definition client_count :: "IpcStub \<Rightarrow> nat" where
  "client_count s = sum_list (map (\<lambda>(_, cs). length cs) (is_clients s))"

definition clear_events :: "IpcStub \<Rightarrow> IpcStub" where
  "clear_events s = s\<lparr>is_events := []\<rparr>"

section \<open>Telemetry\<close>

record PluginTelemetry =
  pt_plugin_id :: string
  pt_plugin_name :: string
  pt_format :: string
  pt_vendor :: string
  pt_cpu_load :: f32
  pt_xrun_count :: u64
  pt_parameters_changed :: u64
  pt_sample_rate :: f32
  pt_editor_surface :: "string option"

definition telemetry_new :: "string \<Rightarrow> string \<Rightarrow> string \<Rightarrow> PluginTelemetry" where
  "telemetry_new i name format = \<lparr> pt_plugin_id = i, pt_plugin_name = name, pt_format = format,
     pt_vendor = [], pt_cpu_load = Num 0, pt_xrun_count = 0, pt_parameters_changed = 0,
     pt_sample_rate = Num 48000, pt_editor_surface = None \<rparr>"

record TelemetryExporter =
  te_entries :: "PluginTelemetry list"
  te_capacity :: nat

definition exporter_new :: "nat \<Rightarrow> TelemetryExporter" where
  "exporter_new capacity = \<lparr> te_entries = [], te_capacity = max capacity 1 \<rparr>"

fun drop_oldest :: "nat \<Rightarrow> 'a list \<Rightarrow> 'a list" where
  "drop_oldest capacity [] = []"
| "drop_oldest capacity (x # xs) = (if capacity < length (x # xs) then drop_oldest capacity xs else x # xs)"

definition telemetry_record :: "PluginTelemetry \<Rightarrow> TelemetryExporter \<Rightarrow> TelemetryExporter" where
  "telemetry_record entry t = t\<lparr>te_entries := drop_oldest (te_capacity t) (te_entries t @ [entry])\<rparr>"

definition telemetry_clear :: "TelemetryExporter \<Rightarrow> TelemetryExporter" where
  "telemetry_clear t = t\<lparr>te_entries := []\<rparr>"

section \<open>Port identifiers\<close>

lemma find_append: "find p (xs @ ys) = (case find p xs of None \<Rightarrow> find p ys | Some x \<Rightarrow> Some x)"
  by (induction xs) auto

definition port_ids :: "McpServerConfig \<Rightarrow> PortSlotId list" where
  "port_ids c = map mp_id (mc_ports c)"

lemma fold_max_word: "fold max is (i :: u16) = Max (set (i # is))"
  by (simp only: Max.set_eq_fold)

lemma next_port_id_spec:
  "next_port_id c = (if port_ids c = [] then FIRST_PORT_SLOT else sat_add (Max (set (port_ids c))) 1)"
  by (cases "mc_ports c") (simp_all add: next_port_id_def port_ids_def fold_max_word)

lemma sorted_append_last:
  assumes "sorted_wrt (<) (map f xs)" "\<forall>x \<in> set xs. f x < (f y :: 'b :: linorder)"
  shows "sort_key f (xs @ [y]) = xs @ [y]" "sorted_wrt (<) (map f (xs @ [y]))"
proof -
  show *: "sorted_wrt (<) (map f (xs @ [y]))" using assms by (auto simp: sorted_wrt_append)
  show "sort_key f (xs @ [y]) = xs @ [y]"
    by (rule sort_key_id_if_sorted) (use strict_sorted_imp_sorted [OF *] in simp)
qed

lemma ids_below_next:
  assumes "port_ids c \<noteq> [] \<Longrightarrow> Max (set (port_ids c)) \<noteq> - 1"
  shows "i \<in> set (port_ids c) \<Longrightarrow> i < next_port_id c"
proof -
  assume i: "i \<in> set (port_ids c)"
  then have ne: "port_ids c \<noteq> []" by auto
  have "i \<le> Max (set (port_ids c))" using i by simp
  also have "\<dots> < Max (set (port_ids c)) + 1"
    by (rule word_less_inc [OF assms [OF ne]])
  finally show ?thesis using ne assms by (simp add: next_port_id_spec sat_add_one)
qed

text \<open>Where the issues of the validation come from.\<close>

definition port_valid :: "McpPortConfig \<Rightarrow> bool" where
  "port_valid p \<longleftrightarrow> FIRST_PORT_SLOT \<le> mp_id p \<and> mp_max_clients p \<noteq> 0 \<and> mp_transport p \<noteq> UnixSocket []"

lemma port_issues_mem:
  "DuplicateSlot i \<in> set (port_issues seen p) \<longleftrightarrow> i = mp_id p \<and> i \<in> set seen"
  "port_issues seen p = [] \<longleftrightarrow> port_valid p \<and> mp_id p \<notin> set seen"
  by (auto simp: port_issues_def port_valid_def not_less split: McpTransport.splits)

lemma validate_ports_duplicates:
  "DuplicateSlot i \<in> set (validate_ports seen ps) \<longleftrightarrow>
     (let n = count (mset (map mp_id ps)) i in i \<in> set seen \<and> 1 \<le> n \<or> 2 \<le> n)"
proof (induction ps arbitrary: seen)
  case (Cons p ps)
  define n where "n = count (mset (map mp_id ps)) i"
  have "0 < n \<longleftrightarrow> i \<in> mp_id ` set ps" by (simp add: n_def count_greater_zero_iff)
  moreover have "count (mset (map mp_id (p # ps))) i = (if mp_id p = i then Suc n else n)" by (simp add: n_def)
  ultimately show ?case
    using Cons [of "mp_id p # seen"] unfolding n_def [symmetric] by (auto simp: port_issues_mem Let_def)
qed simp

lemma validate_ports_nil:
  "validate_ports seen ps = [] \<longleftrightarrow> list_all port_valid ps \<and> distinct (map mp_id ps) \<and> set (map mp_id ps) \<inter> set seen = {}"
  by (induction ps arbitrary: seen) (auto simp: port_issues_mem)

text \<open>
  The validation is silent exactly for a list of slots with distinct identifiers of at least
  1, room for a client and a path if they are sockets, and it reports a duplicate identifier
  exactly when two slots carry it.  It does not look for two slots with one socket path.
\<close>

lemma validate_spec:
  "(validate c = [] \<longleftrightarrow> list_all port_valid (mc_ports c) \<and> distinct (port_ids c))
   \<and> (DuplicateSlot i \<in> set (validate c) \<longleftrightarrow> 2 \<le> count (mset (port_ids c)) i)"
  using validate_ports_nil [of "[]" "mc_ports c"] validate_ports_duplicates [of i "[]" "mc_ports c"]
  by (simp add: validate_def port_ids_def Let_def)

lemma port_ids_add:
  "mset (port_ids (snd (add_port c))) = add_mset (fst (add_port c)) (mset (port_ids c))"
  by (simp add: add_port_def port_ids_def Let_def port_config_new_def)

text \<open>
  \<open>add_port\<close> on a list of slots in strict order of their identifiers appends a fresh slot
  and keeps that order, as long as the highest identifier is not 65535.  With slot 65535 in use
  the saturating increment returns 65535 again and the configuration no longer validates.
\<close>

lemma add_port_spec:
  assumes "sorted_wrt (<) (port_ids c)"
  shows "if - 1 \<in> set (port_ids c)
    then fst (add_port c) = - 1 \<and> DuplicateSlot (- 1) \<in> set (validate (snd (add_port c)))
    else port_ids (snd (add_port c)) = port_ids c @ [fst (add_port c)]
      \<and> sorted_wrt (<) (port_ids (snd (add_port c)))
      \<and> slot (snd (add_port c)) (fst (add_port c))
          = Some (port_config_new (fst (add_port c)) (socket_path_for c (fst (add_port c))))
      \<and> (validate c = [] \<longrightarrow> validate (snd (add_port c)) = [])"
proof (cases "- 1 \<in> set (port_ids c)")
  case True
  then have "Max (set (port_ids c)) = - 1"
    by (intro Max_eqI) auto
  then have n: "next_port_id c = - 1" using True by (auto simp: next_port_id_spec sat_add_one)
  then have f: "fst (add_port c) = - 1" by (simp add: add_port_def Let_def)
  have "2 \<le> count (mset (port_ids (snd (add_port c)))) (- 1)"
    unfolding port_ids_add f using True by (simp add: Suc_le_eq count_greater_zero_iff)
  then have "DuplicateSlot (- 1) \<in> set (validate (snd (add_port c)))"
    by (simp add: validate_def validate_ports_duplicates port_ids_def Let_def)
  with True f show ?thesis by simp
next
  case False
  let ?n = "next_port_id c"
  define p where "p = port_config_new ?n (socket_path_for c ?n)"
  have pid: "mp_id p = ?n" by (simp add: p_def port_config_new_def)
  have below: "\<forall>x \<in> set (mc_ports c). mp_id x < mp_id p"
  proof
    fix x assume "x \<in> set (mc_ports c)"
    then have x: "mp_id x \<in> set (port_ids c)" by (simp add: port_ids_def)
    have "Max (set (port_ids c)) \<noteq> - 1" using False x by (metis List.finite_set Max_in empty_iff)
    then show "mp_id x < mp_id p" unfolding pid by (intro ids_below_next x)
  qed
  note srt = sorted_append_last [OF assms [unfolded port_ids_def] below]
  have a: "add_port c = (?n, c\<lparr>mc_ports := mc_ports c @ [p]\<rparr>)"
    using srt(1) by (simp add: add_port_def Let_def p_def socket_path_for_def)
  have ids: "port_ids (snd (add_port c)) = port_ids c @ [?n]" by (simp add: a port_ids_def pid)
  have sl: "slot (c\<lparr>mc_ports := mc_ports c @ [p]\<rparr>) ?n = Some p"
  proof -
    have "find (\<lambda>p. mp_id p = ?n) (mc_ports c) = None" using below by (auto simp: find_None_iff pid)
    then show ?thesis by (simp add: slot_def find_append pid)
  qed
  have one: "FIRST_PORT_SLOT \<le> ?n"
  proof (cases "port_ids c = []")
    case False
    then obtain j where "j \<in> set (port_ids c)" by (cases "port_ids c") auto
    then have "j < ?n" using below by (auto simp: port_ids_def pid)
    then show ?thesis by (simp add: FIRST_PORT_SLOT_def word_order_nat)
  qed (simp add: next_port_id_spec)
  have "validate (snd (add_port c)) = []" if "validate c = []"
  proof -
    have "port_valid p"
      using one by (simp add: port_valid_def p_def port_config_new_def socket_path_for_def socket_path_in_def join_def)
    moreover have "distinct (port_ids (snd (add_port c)))"
      using srt(2) by (simp add: strict_sorted_iff port_ids_def a)
    ultimately show ?thesis using that by (simp add: validate_def validate_ports_nil a port_ids_def)
  qed
  then show ?thesis using False ids srt(2) sl by (simp add: a p_def port_ids_def)
qed

lemma default_strict: "sorted_wrt (<) (port_ids (server_config_default None))"
  by code_simp

lemma add_port_spec_witness:
  "port_ids (snd (add_port (server_config_default None)))
     = port_ids (server_config_default None) @ [fst (add_port (server_config_default None))]"
proof -
  have "- 1 \<notin> set (port_ids (server_config_default None))" by code_simp
  with add_port_spec [OF default_strict] show ?thesis by (simp only: if_False)
qed

lemma next_port_id_sorted:
  assumes "sorted_wrt (<) (port_ids c)" "port_ids c \<noteq> []"
  shows "next_port_id c = sat_add (last (port_ids c)) 1"
proof -
  obtain xs m where x: "port_ids c = xs @ [m]" using assms(2) by (metis append_butlast_last_id)
  have "Max (set (port_ids c)) = m"
    using assms(1) unfolding x by (intro Max_eqI) (auto simp: sorted_wrt_append intro: less_imp_le)
  then show ?thesis using assms(2) by (simp add: next_port_id_spec x)
qed

lemma next_after_remove:
  assumes "sorted_wrt (<) (port_ids c)" "filter (\<lambda>i. i \<noteq> j) (port_ids c) = xs @ [m]"
  shows "fst (add_port (snd (remove_port c j))) = sat_add m 1"
proof -
  have ids: "port_ids (snd (remove_port c j)) = xs @ [m]"
    using assms(2) by (simp add: remove_port_def port_ids_def Let_def filter_map comp_def)
  moreover have "sorted_wrt (<) (xs @ [m])"
    using sorted_wrt_filter [OF assms(1)] unfolding assms(2) [symmetric] by blast
  ultimately show ?thesis by (simp add: add_port_def Let_def next_port_id_sorted)
qed

text \<open>
  An identifier is the address an agent uses, and a removed one should not come to mean
  another slot.  That holds for every removed slot but the highest: after its removal the next
  \<open>add_port\<close> hands out the successor of the one below, the removed identifier itself when the
  two were adjacent.
\<close>

lemma removed_ids_reused:
  assumes "sorted_wrt (<) (port_ids c)" "port_ids c = ids @ [k, i]"
  shows "fst (add_port (snd (remove_port c i))) = sat_add k 1
    \<and> (j \<in> set (ids @ [k]) \<longrightarrow> fst (add_port (snd (remove_port c j))) = sat_add i 1)"
proof (intro conjI impI)
  have lt: "x < i" if "x \<in> set (ids @ [k])" for x using assms that by (auto simp: sorted_wrt_append)
  have "filter (\<lambda>x. x \<noteq> i) (ids @ [k]) = ids @ [k]" using lt by (intro filter_True) auto
  then have "filter (\<lambda>x. x \<noteq> i) (port_ids c) = ids @ [k]" using assms(2) by auto
  from next_after_remove [OF assms(1) this] show "fst (add_port (snd (remove_port c i))) = sat_add k 1" .
  assume "j \<in> set (ids @ [k])"
  with lt have "i \<noteq> j" by blast
  then have "filter (\<lambda>x. x \<noteq> j) (port_ids c) = filter (\<lambda>x. x \<noteq> j) (ids @ [k]) @ [i]" using assms(2) by simp
  from next_after_remove [OF assms(1) this] show "fst (add_port (snd (remove_port c j))) = sat_add i 1" .
qed

lemma removed_ids_reused_witness:
  "fst (add_port (snd (remove_port (server_config_default None) 10))) = 10
   \<and> fst (add_port (snd (remove_port (server_config_default None) 3))) = 11"
proof -
  have "port_ids (server_config_default None) = [1, 2, 3, 4, 5, 6, 7, 8] @ [9, 10]" by code_simp
  from removed_ids_reused [OF default_strict this, of 3] show ?thesis by (simp add: sat_add_def)
qed

section \<open>Connections\<close>

datatype ipc_op =
    OpListen McpPortConfig
  | OpConnect McpPortConfig
  | OpHandshake McpPortConfig string
  | OpDisconnect PortSlotId
  | OpClear

fun ipc_step :: "ipc_op \<Rightarrow> IpcStub \<Rightarrow> IpcStub" where
  "ipc_step (OpListen p) s = snd (ipc_listen s p)"
| "ipc_step (OpConnect p) s = snd (ipc_connect s p)"
| "ipc_step (OpHandshake p agent) s = snd (handshake s p agent)"
| "ipc_step (OpDisconnect i) s = ipc_disconnect s i"
| "ipc_step OpClear s = clear_events s"

fun replay_event :: "PortSlotId \<Rightarrow> string list \<Rightarrow> IpcEvent \<Rightarrow> string list" where
  "replay_event i cs (Handshake j agent) = (if j = i then cs @ [agent] else cs)"
| "replay_event i cs (Disconnect j) = (if j = i then butlast cs else cs)"
| "replay_event i cs ev = cs"

definition replay :: "PortSlotId \<Rightarrow> IpcEvent list \<Rightarrow> string list" where
  "replay i evs = foldl (replay_event i) [] evs"

lemma clients_log [simp]: "clients_of (log_event ev s) i = clients_of s i"
  by (simp add: clients_of_def log_event_def)

lemma events_log [simp]: "is_events (log_event ev s) = is_events s @ [ev]"
  "is_clients (log_event ev s) = is_clients s"
  by (simp_all add: log_event_def)

lemma clients_update [simp]:
  "clients_of (s\<lparr>is_clients := AList.update j cs al\<rparr>) i =
     (if i = j then cs else clients_of (s\<lparr>is_clients := al\<rparr>) i)"
  by (simp add: clients_of_def update_conv')

lemma replay_snoc [simp]: "replay i (evs @ [ev]) = replay_event i (replay i evs) ev"
  by (simp add: replay_def)

definition ipc_ok :: "(PortSlotId \<Rightarrow> usize) \<Rightarrow> IpcStub \<Rightarrow> bool" where
  "ipc_ok cap s \<longleftrightarrow> (\<forall>i. length (clients_of s i) \<le> unat (cap i))"

lemma ipc_step_ok:
  assumes "ipc_ok cap s" "\<And>p agent. op = OpHandshake p agent \<Longrightarrow> mp_max_clients p \<le> cap (mp_id p)"
  shows "ipc_ok cap (ipc_step op s)"
proof (cases op)
  case (OpHandshake p agent)
  let ?cs = "clients_of s (mp_id p)"
  have "vlen ?cs < mp_max_clients p \<Longrightarrow> length ?cs < unat (cap (mp_id p))"
  proof -
    assume l: "vlen ?cs < mp_max_clients p"
    have "length ?cs \<le> unat (cap (mp_id p))" using assms(1) by (simp add: ipc_ok_def)
    then have "unat (vlen ?cs) = length ?cs" using unat64_lt [of "cap (mp_id p)"] by (simp add: unat_vlen)
    with l assms(2) [OF OpHandshake] show ?thesis by (simp add: word_order_nat)
  qed
  then show ?thesis using assms(1) OpHandshake by (auto simp: ipc_ok_def handshake_def Let_def not_le Suc_le_eq)
next
  case (OpDisconnect i)
  have "length (clients_of (ipc_disconnect s i) j) \<le> length (clients_of s j)" for j
    by (simp add: ipc_disconnect_def clients_of_def update_conv' split: option.splits)
  then show ?thesis using assms(1) OpDisconnect by (auto simp: ipc_ok_def intro: order_trans)
qed (use assms(1) in \<open>auto simp: ipc_ok_def ipc_listen_def ipc_connect_def clear_events_def clients_of_def
  log_event_def split: McpTransport.splits\<close>)

lemma ipc_step_replay:
  assumes "\<forall>i. clients_of s i = replay i (is_events s)" "op \<noteq> OpClear"
  shows "clients_of (ipc_step op s) i = replay i (is_events (ipc_step op s))"
proof (cases op)
  case (OpDisconnect j)
  have "clients_of (ipc_disconnect s j) i = (if i = j then butlast (clients_of s i) else clients_of s i)"
    by (simp add: ipc_disconnect_def clients_of_def update_conv' split: option.splits)
  moreover have "is_events (ipc_disconnect s j) = is_events s @ [Disconnect j]"
    by (simp add: ipc_disconnect_def split: option.splits)
  ultimately show ?thesis using assms(1) OpDisconnect by simp
qed (use assms in \<open>auto simp: ipc_listen_def ipc_connect_def handshake_def Let_def split: McpTransport.splits\<close>)

text \<open>
  C17. After every sequence of operations on a new stub, no slot has more clients than the
  configurations it was used with allow, and, as long as the log is not cleared, the clients of
  every slot are those its log of events tells: a handshake appends its agent, a disconnection
  removes the agent that came last.
\<close>

theorem ipc_sessions:
  assumes "\<And>p agent. OpHandshake p agent \<in> set ops \<Longrightarrow> mp_max_clients p \<le> cap (mp_id p)"
  shows "length (clients_of (fold ipc_step ops (ipc_new d)) i) \<le> unat (cap i)
    \<and> (OpClear \<notin> set ops \<longrightarrow>
        clients_of (fold ipc_step ops (ipc_new d)) i = replay i (is_events (fold ipc_step ops (ipc_new d))))"
proof -
  have new: "ipc_ok cap (ipc_new d)" "\<forall>i. clients_of (ipc_new d) i = replay i (is_events (ipc_new d))"
    by (simp_all add: ipc_ok_def ipc_new_def clients_of_def replay_def)
  have "ipc_ok cap (fold ipc_step ops (ipc_new d))
    \<and> (OpClear \<notin> set ops \<longrightarrow> (\<forall>i. clients_of (fold ipc_step ops (ipc_new d)) i
        = replay i (is_events (fold ipc_step ops (ipc_new d)))))"
    using assms
  proof (induction ops rule: rev_induct)
    case (snoc op ops)
    let ?s = "fold ipc_step ops (ipc_new d)"
    have ih: "ipc_ok cap ?s \<and> (OpClear \<notin> set ops \<longrightarrow> (\<forall>i. clients_of ?s i = replay i (is_events ?s)))"
      by (rule snoc.IH) (use snoc.prems in auto)
    then have "ipc_ok cap ?s" by simp
    then have "ipc_ok cap (ipc_step op ?s)" by (rule ipc_step_ok) (use snoc.prems in auto)
    moreover have "\<forall>i. clients_of (ipc_step op ?s) i = replay i (is_events (ipc_step op ?s))"
      if "OpClear \<notin> set (ops @ [op])"
      using ipc_step_replay [of ?s op] ih that by auto
    ultimately show ?case by simp
  qed (use new in simp)
  then show ?thesis by (simp add: ipc_ok_def)
qed

theorem ipc_sessions_witness:
  "clients_of (fold ipc_step [OpHandshake (port_config_new 1 ''/s'') ''a'', OpHandshake (port_config_new 1 ''/s'') ''b'']
     (ipc_new DListen)) 1 = [''a'']"
  using ipc_sessions [of "[OpHandshake (port_config_new 1 ''/s'') ''a'', OpHandshake (port_config_new 1 ''/s'') ''b'']"
      "\<lambda>_. 1" DListen 1]
  by (simp add: port_config_new_def handshake_def ipc_new_def clients_of_def vlen_def log_event_def Let_def)

text \<open>
  A disabled slot refuses to listen and to connect, but a handshake on it is accepted: the
  rule that a disabled slot takes no connection is not checked there.
\<close>

lemma disabled_slot_accepts_handshake:
  assumes "\<not> mp_enabled p" "vlen (clients_of s (mp_id p)) < mp_max_clients p"
  shows "fst (ipc_listen s p) = Inl (PortDisabled (mp_id p)) \<and> fst (ipc_connect s p) = Inl (PortDisabled (mp_id p))
    \<and> fst (handshake s p agent) = Inr ()
    \<and> clients_of (snd (handshake s p agent)) (mp_id p) = clients_of s (mp_id p) @ [agent]"
  using assms by (simp add: ipc_listen_def ipc_connect_def handshake_def Let_def)

lemma disabled_slot_accepts_handshake_witness:
  "fst (handshake (ipc_new DListen) (port_config_new 1 ''/s'') ''a'') = Inr ()"
  using disabled_slot_accepts_handshake [of "port_config_new 1 ''/s''" "ipc_new DListen" "''a''"]
  by (simp add: port_config_new_def ipc_new_def clients_of_def vlen_def)

section \<open>Telemetry keeps the newest snapshots\<close>

lemma drop_oldest_eq: "drop_oldest n xs = drop (length xs - n) xs"
proof (induction xs)
  case (Cons x xs)
  then show ?case by (cases "length xs - n") (auto simp: Suc_diff_le not_less le_Suc_eq)
qed simp

lemma telemetry_keeps_newest:
  "te_entries (fold telemetry_record es (exporter_new capacity)) = drop (length es - max capacity 1) es"
proof -
  define cap where "cap = max capacity 1"
  have "te_capacity (fold telemetry_record es (exporter_new capacity)) = cap
    \<and> te_entries (fold telemetry_record es (exporter_new capacity)) = drop (length es - cap) es"
  proof (induction es rule: rev_induct)
    case (snoc e es)
    have "1 \<le> cap" by (simp add: cap_def)
    then have "drop (Suc (length es - (length es - cap)) - cap) (drop (length es - cap) es @ [e])
        = drop (Suc (length es) - cap) (es @ [e])"
      by (cases "cap \<le> length es") (simp_all add: Suc_diff_le)
    with snoc show ?case by (simp add: telemetry_record_def drop_oldest_eq)
  qed (simp add: exporter_new_def cap_def)
  then show ?thesis by (simp add: cap_def)
qed

end
