(* ===== verification/TapRace.thy ===== *)
theory TapRace
  imports PluginTap
begin

text \<open>
  The tap under concurrency (crates/hikaru_plugin_host/src/tap.rs): \<open>publish\<close> on the audio
  thread and \<open>take\<close> on the window's thread, cut into their loads and stores, the block copies
  sample by sample, and interleaved in every order; a window may attach or detach at any time.
  The stores of the two indices carry \<open>Release\<close> and the loads by the other side \<open>Acquire\<close>, so
  what one side wrote before an index it stores is visible to the side that loads it; the
  interleaving of single steps is that order.  The log of published blocks and the list of
  delivered ones are ghosts.
\<close>

section \<open>Threads\<close>

datatype producer =
    PIdle
  | PLoaded "f32 list" usize
  | PCopy "f32 list" usize nat
  | PPublish "f32 list" usize

datatype consumer =
    CIdle
  | CLoaded usize
  | CLens usize
  | CCopy usize usize "f32 list"

record race =
  rc_tap :: PluginTap
  rc_prod :: producer
  rc_cons :: consumer
  rc_log :: "f32 list list"
  rc_out :: "(nat \<times> f32 list) list"

definition slot_base :: "PluginTap \<Rightarrow> usize \<Rightarrow> nat" where
  "slot_base t i = unat (i mod tap_capacity t * tap_max_frames t * NUM_CHANNELS)"

inductive race_step :: "race \<Rightarrow> race \<Rightarrow> bool" where
  attach: "race_step s (s\<lparr>rc_tap := attach_consumer (rc_tap s)\<rparr>)"
| detach: "race_step s (s\<lparr>rc_tap := detach_consumer (rc_tap s)\<rparr>)"
| p_load: "rc_prod s = PIdle \<Longrightarrow> tap_consumers (rc_tap s) \<noteq> 0 \<Longrightarrow>
    frames = block_frames (rc_tap s) samples \<Longrightarrow> frames \<noteq> 0 \<Longrightarrow>
    race_step s (s\<lparr>rc_prod := PLoaded (take (unat (frames * NUM_CHANNELS)) samples) (tap_write (rc_tap s))\<rparr>)"
| p_full: "rc_prod s = PLoaded src w \<Longrightarrow> tap_capacity (rc_tap s) \<le> sat_sub w (tap_read (rc_tap s)) \<Longrightarrow>
    race_step s (s\<lparr>rc_prod := PIdle, rc_tap := (rc_tap s)\<lparr>tap_dropped := tap_dropped (rc_tap s) + 1\<rparr>\<rparr>)"
| p_room: "rc_prod s = PLoaded src w \<Longrightarrow> \<not> tap_capacity (rc_tap s) \<le> sat_sub w (tap_read (rc_tap s)) \<Longrightarrow>
    race_step s (s\<lparr>rc_prod := PCopy src w 0\<rparr>)"
| p_copy: "rc_prod s = PCopy src w k \<Longrightarrow> k < length src \<Longrightarrow>
    race_step s (s\<lparr>rc_prod := PCopy src w (Suc k),
      rc_tap := (rc_tap s)\<lparr>tap_ring := (tap_ring (rc_tap s))[slot_base (rc_tap s) w + k := src ! k]\<rparr>\<rparr>)"
| p_lens: "rc_prod s = PCopy src w k \<Longrightarrow> \<not> k < length src \<Longrightarrow>
    race_step s (s\<lparr>rc_prod := PPublish src w,
      rc_tap := (rc_tap s)\<lparr>tap_lens := (tap_lens (rc_tap s))
        [unat (w mod tap_capacity (rc_tap s)) := ucast (vlen src div NUM_CHANNELS)]\<rparr>\<rparr>)"
| p_store: "rc_prod s = PPublish src w \<Longrightarrow>
    race_step s (s\<lparr>rc_prod := PIdle, rc_log := rc_log s @ [src],
      rc_tap := (rc_tap s)\<lparr>tap_write := w + 1\<rparr>\<rparr>)"
| c_load: "rc_cons s = CIdle \<Longrightarrow> race_step s (s\<lparr>rc_cons := CLoaded (tap_write (rc_tap s))\<rparr>)"
| c_none: "rc_cons s = CLoaded w \<Longrightarrow> w \<le> tap_read (rc_tap s) \<Longrightarrow> race_step s (s\<lparr>rc_cons := CIdle\<rparr>)"
| c_some: "rc_cons s = CLoaded w \<Longrightarrow> \<not> w \<le> tap_read (rc_tap s) \<Longrightarrow> race_step s (s\<lparr>rc_cons := CLens (w - 1)\<rparr>)"
| c_empty: "rc_cons s = CLens newest \<Longrightarrow>
    min (ucast (tap_lens (rc_tap s) ! unat (newest mod tap_capacity (rc_tap s)))) (tap_max_frames (rc_tap s))
      * NUM_CHANNELS = 0 \<Longrightarrow>
    race_step s (s\<lparr>rc_cons := CIdle, rc_tap := (rc_tap s)\<lparr>tap_read := newest + 1\<rparr>\<rparr>)"
| c_lens: "rc_cons s = CLens newest \<Longrightarrow>
    len = min (ucast (tap_lens (rc_tap s) ! unat (newest mod tap_capacity (rc_tap s)))) (tap_max_frames (rc_tap s))
      * NUM_CHANNELS \<Longrightarrow> len \<noteq> 0 \<Longrightarrow>
    race_step s (s\<lparr>rc_cons := CCopy newest len []\<rparr>)"
| c_copy: "rc_cons s = CCopy newest len out \<Longrightarrow> length out < unat len \<Longrightarrow>
    race_step s (s\<lparr>rc_cons := CCopy newest len (out @ [tap_ring (rc_tap s) ! (slot_base (rc_tap s) newest + length out)])\<rparr>)"
| c_store: "rc_cons s = CCopy newest len out \<Longrightarrow> \<not> length out < unat len \<Longrightarrow>
    race_step s (s\<lparr>rc_cons := CIdle, rc_out := rc_out s @ [(unat newest, out)],
      rc_tap := (rc_tap s)\<lparr>tap_read := newest + 1\<rparr>\<rparr>)"

inductive race_reach :: "race \<Rightarrow> race \<Rightarrow> bool" for s0 where
  start: "race_reach s0 s0"
| step: "race_reach s0 s \<Longrightarrow> race_step s s' \<Longrightarrow> race_reach s0 s'"

definition race_start :: "PluginTap \<Rightarrow> race" where
  "race_start t = \<lparr> rc_tap = t, rc_prod = PIdle, rc_cons = CIdle, rc_log = [], rc_out = [] \<rparr>"

section \<open>The invariant\<close>

text \<open>A block as \<open>publish\<close> cuts it, and the samples of slot \<open>i\<close> up to \<open>k\<close>.\<close>

definition whole :: "PluginTap \<Rightarrow> f32 list \<Rightarrow> bool" where
  "whole t b \<longleftrightarrow> even (length b) \<and> 0 < length b \<and> length b \<le> 2 * unat (tap_max_frames t)"

definition cells :: "PluginTap \<Rightarrow> nat \<Rightarrow> f32 list \<Rightarrow> nat \<Rightarrow> bool" where
  "cells t i b k \<longleftrightarrow>
     (\<forall>j < k. tap_ring t ! (i mod unat (tap_capacity t) * unat (tap_max_frames t) * 2 + j) = b ! j)"

definition stored :: "PluginTap \<Rightarrow> nat \<Rightarrow> f32 list \<Rightarrow> bool" where
  "stored t i b \<longleftrightarrow> cells t i b (length b)
     \<and> unat (tap_lens t ! (i mod unat (tap_capacity t))) = length b div 2"

fun prod_ok :: "PluginTap \<Rightarrow> producer \<Rightarrow> bool" where
  "prod_ok t PIdle = True"
| "prod_ok t (PLoaded src w) = (w = tap_write t \<and> whole t src)"
| "prod_ok t (PCopy src w k) = (w = tap_write t \<and> whole t src \<and> k \<le> length src
     \<and> unat (tap_write t) - unat (tap_read t) < unat (tap_capacity t) \<and> cells t (unat w) src k)"
| "prod_ok t (PPublish src w) = (w = tap_write t \<and> whole t src
     \<and> unat (tap_write t) - unat (tap_read t) < unat (tap_capacity t) \<and> stored t (unat w) src)"

fun cons_ok :: "PluginTap \<Rightarrow> f32 list list \<Rightarrow> consumer \<Rightarrow> bool" where
  "cons_ok t lg CIdle = True"
| "cons_ok t lg (CLoaded w) = (w \<le> tap_write t)"
| "cons_ok t lg (CLens n) = (tap_read t \<le> n \<and> n < tap_write t)"
| "cons_ok t lg (CCopy n len out) = (tap_read t \<le> n \<and> n < tap_write t
     \<and> unat len = length (lg ! unat n) \<and> length out \<le> unat len \<and> out = take (length out) (lg ! unat n))"

definition race_ok :: "race \<Rightarrow> bool" where
  "race_ok s \<longleftrightarrow> tap_ok (rc_tap s) \<and> unat (tap_write (rc_tap s)) = length (rc_log s)
     \<and> list_all (whole (rc_tap s)) (rc_log s)
     \<and> (\<forall>i. unat (tap_read (rc_tap s)) \<le> i \<and> i < length (rc_log s) \<longrightarrow> stored (rc_tap s) i (rc_log s ! i))
     \<and> prod_ok (rc_tap s) (rc_prod s) \<and> cons_ok (rc_tap s) (rc_log s) (rc_cons s)
     \<and> (\<forall>(i, b) \<in> set (rc_out s). i < unat (tap_read (rc_tap s)) \<and> i < length (rc_log s) \<and> b = rc_log s ! i)
     \<and> sorted_wrt (<) (map fst (rc_out s))"

section \<open>Slots in use\<close>

lemma slot_base_eq: "tap_ok t \<Longrightarrow> slot_base t i = unat i mod unat (tap_capacity t) * unat (tap_max_frames t) * 2"
  unfolding slot_base_def by (rule slot_words(1))

lemma slot_in_ring:
  assumes "tap_ok t" "j < 2 * unat (tap_max_frames t)"
  shows "i mod unat (tap_capacity t) * unat (tap_max_frames t) * 2 + j < length (tap_ring t)"
    and "i mod unat (tap_capacity t) < length (tap_lens t)"
proof -
  have c: "i mod unat (tap_capacity t) < unat (tap_capacity t)"
    using assms(1) by (simp add: tap_ok_def word_le_nat_alt)
  from slot_le [OF c order_refl, of "unat (tap_max_frames t)"] assms
  show "i mod unat (tap_capacity t) * unat (tap_max_frames t) * 2 + j < length (tap_ring t)"
    by (simp add: tap_ok_def)
  show "i mod unat (tap_capacity t) < length (tap_lens t)" using c assms(1) by (simp add: tap_ok_def)
qed

lemma other_slot:
  assumes "unat (tap_read t) \<le> i" "i < unat (tap_write t)"
    "unat (tap_write t) - unat (tap_read t) < unat (tap_capacity t)"
  shows "i mod unat (tap_capacity t) \<noteq> unat (tap_write t) mod unat (tap_capacity t)"
  using assms by (intro mod_distinct) auto

lemma other_cell:
  assumes "s \<noteq> s'" "j < 2 * m" "k < 2 * (m :: nat)"
  shows "s * m * 2 + j \<noteq> s' * m * 2 + k"
  using slot_disjoint [OF assms(1) order_refl order_refl, of m] assms(2,3) by auto

lemma tap_okD:
  assumes "tap_ok t" "unat (tap_read t) \<le> i" "i < unat (tap_write t)"
  shows "tap_lens t ! (i mod unat (tap_capacity t)) \<noteq> 0"
    "unat (tap_lens t ! (i mod unat (tap_capacity t))) \<le> unat (tap_max_frames t)"
  using assms by (auto simp: tap_ok_def)

lemma tap_ok_le: "tap_ok t \<Longrightarrow> tap_read t \<le> tap_write t"
  by (simp add: tap_ok_def)

section \<open>Steps of the producer\<close>

text \<open>A copied sample: the written slot is not one the consumer may be reading.\<close>

lemma copy_step:
  assumes ok: "tap_ok t" and p: "prod_ok t (PCopy src w k)" "k < length src"
  defines "t' \<equiv> t\<lparr>tap_ring := (tap_ring t)[slot_base t w + k := src ! k]\<rparr>"
  shows "tap_ok t'" "prod_ok t' (PCopy src w (Suc k))"
    "unat (tap_read t) \<le> i \<Longrightarrow> i < unat (tap_write t) \<Longrightarrow> whole t b \<Longrightarrow> stored t i b \<Longrightarrow> stored t' i b"
proof -
  show "tap_ok t'" using ok by (simp add: t'_def tap_ok_def)
  have k: "k < 2 * unat (tap_max_frames t)" and w: "w = tap_write t"
    and room: "unat (tap_write t) - unat (tap_read t) < unat (tap_capacity t)"
    using p by (auto simp: whole_def)
  note inr = slot_in_ring(1) [OF ok k, of "unat w"]
  have base: "slot_base t (tap_write t) = unat (tap_write t) mod unat (tap_capacity t) * unat (tap_max_frames t) * 2"
    by (rule slot_base_eq [OF ok])
  show "prod_ok t' (PCopy src w (Suc k))"
    using p inr by (auto simp: t'_def cells_def whole_def base less_Suc_eq nth_list_update)
  show "stored t' i b"
    if i: "unat (tap_read t) \<le> i" "i < unat (tap_write t)" and b: "whole t b" and st: "stored t i b"
  proof -
    have "unat w mod unat (tap_capacity t) * unat (tap_max_frames t) * 2 + k
        \<noteq> i mod unat (tap_capacity t) * unat (tap_max_frames t) * 2 + j" if "j < length b" for j
      using other_cell [OF other_slot [OF i room], of j "unat (tap_max_frames t)" k] that b k
      by (auto simp: whole_def w)
    then show ?thesis using st by (simp add: stored_def cells_def t'_def base w)
  qed
qed

lemma lens_step:
  assumes ok: "tap_ok t" and p: "prod_ok t (PCopy src w k)" "\<not> k < length src"
  defines "t' \<equiv> t\<lparr>tap_lens := (tap_lens t)[unat (w mod tap_capacity t) := ucast (vlen src div NUM_CHANNELS)]\<rparr>"
  shows "tap_ok t'" "prod_ok t' (PPublish src w)"
    "unat (tap_read t) \<le> i \<Longrightarrow> i < unat (tap_write t) \<Longrightarrow> stored t i b \<Longrightarrow> stored t' i b"
proof -
  have w: "w = tap_write t" and src: "whole t src" and k: "k = length src"
    and room: "unat (tap_write t) - unat (tap_read t) < unat (tap_capacity t)"
    using p by auto
  have slot: "unat (tap_write t mod tap_capacity t) = unat (tap_write t) mod unat (tap_capacity t)"
    by (simp add: unat_mod_distrib)
  have m: "length src div 2 \<le> unat (tap_max_frames t)" "unat (tap_max_frames t) < 2 ^ 32"
    using src ok by (auto simp: whole_def tap_ok_def)
  have n: "unat (ucast (vlen src div NUM_CHANNELS) :: u32) = length src div 2"
  proof -
    have l: "length src < 2 ^ 34" using src m by (auto simp: whole_def)
    have v: "unat (vlen src div NUM_CHANNELS) = length src div 2"
      using l by (simp add: unat_div_distrib unat_vlen NUM_CHANNELS_def)
    show ?thesis using m by (simp add: unsigned_ucast_eq v take_bit_nat_eq_self)
  qed
  have keep: "tap_lens t' ! (i mod unat (tap_capacity t)) = tap_lens t ! (i mod unat (tap_capacity t))"
    if "unat (tap_read t) \<le> i" "i < unat (tap_write t)" for i
    using other_slot [OF that room] by (simp add: t'_def slot w)
  show "tap_ok t'" using ok keep by (auto simp: tap_ok_def t'_def)
  show "prod_ok t' (PPublish src w)"
  proof -
    have "0 < 2 * unat (tap_max_frames t)" using src unfolding whole_def by linarith
    from slot_in_ring(2) [OF ok this] show ?thesis
      using p k n by (auto simp: stored_def cells_def t'_def slot whole_def)
  qed
  show "stored t' i b" if "unat (tap_read t) \<le> i" "i < unat (tap_write t)" "stored t i b"
    using that keep [OF that(1,2)] by (simp add: stored_def cells_def t'_def)
qed

lemma store_step:
  assumes ok: "tap_ok t" and p: "prod_ok t (PPublish src w)" and lt: "unat (tap_write t) + 1 < 2 ^ 64"
  defines "t' \<equiv> t\<lparr>tap_write := w + 1\<rparr>"
  shows "tap_ok t'" "unat (tap_write t') = unat (tap_write t) + 1" "tap_write t \<le> tap_write t'"
proof -
  have w: "w = tap_write t" and src: "whole t src" and st: "stored t (unat (tap_write t)) src"
    and room: "unat (tap_write t) - unat (tap_read t) < unat (tap_capacity t)"
    using p by auto
  show w1: "unat (tap_write t') = unat (tap_write t) + 1"
    using lt unat_add_small [of w 1] by (simp add: t'_def w)
  then show "tap_write t \<le> tap_write t'" by (simp add: word_le_nat_alt)
  have len: "0 < length src div 2" "length src div 2 \<le> unat (tap_max_frames t)"
  proof -
    from src obtain b where "length src = 2 * b" "0 < length src" "length src \<le> 2 * unat (tap_max_frames t)"
      unfolding whole_def by (blast elim: evenE)
    then show "0 < length src div 2" "length src div 2 \<le> unat (tap_max_frames t)" by simp_all
  qed
  have "tap_lens t ! (i mod unat (tap_capacity t)) \<noteq> 0
      \<and> unat (tap_lens t ! (i mod unat (tap_capacity t))) \<le> unat (tap_max_frames t)"
    if "unat (tap_read t) \<le> i" "i < unat (tap_write t) + 1" for i
  proof (cases "i = unat (tap_write t)")
    case True
    then show ?thesis using st len by (auto simp: stored_def)
  next
    case False
    then show ?thesis using tap_okD [OF ok that(1)] that(2) by simp
  qed
  moreover have "tap_read t \<le> w + 1"
    using tap_ok_le [OF ok] w1 by (simp add: t'_def word_le_nat_alt)
  ultimately show "tap_ok t'" using ok w1 room by (auto simp: tap_ok_def t'_def)
qed

section \<open>Steps of the consumer\<close>

lemma read_step:
  assumes ok: "tap_ok t" and n: "tap_read t \<le> n" "n < tap_write t"
  defines "t' \<equiv> t\<lparr>tap_read := n + 1\<rparr>"
  shows "tap_ok t'" "unat (tap_read t') = unat n + 1" "prod_ok t p \<Longrightarrow> prod_ok t' p"
proof -
  have "unat n + 1 < 2 ^ 64" using n(2) unat64_lt [of "tap_write t"] by (simp add: word_less_nat_alt)
  then show r: "unat (tap_read t') = unat n + 1" using unat_add_small [of n 1] by (simp add: t'_def)
  have le: "unat (tap_read t) \<le> unat (tap_read t')" "tap_read t' \<le> tap_write t"
    using n r by (simp_all add: word_order_nat)
  show "tap_ok t'" using ok le r by (auto simp: tap_ok_def t'_def)
  show "prod_ok t' p" if "prod_ok t p"
    using that le by (cases p) (auto simp: t'_def cells_def stored_def whole_def)
qed

lemma lens_of_block:
  assumes ok: "tap_ok t" and st: "stored t (unat n) b" and b: "whole t b"
  shows "unat (min (ucast (tap_lens t ! unat (n mod tap_capacity t))) (tap_max_frames t) * NUM_CHANNELS) = length b"
proof -
  have l: "unat (tap_lens t ! unat (n mod tap_capacity t)) = length b div 2"
    using st by (simp add: stored_def unat_mod_distrib)
  have m: "length b div 2 \<le> unat (tap_max_frames t)" "even (length b)" "unat (tap_max_frames t) < 2 ^ 32"
    using b ok by (auto simp: whole_def tap_ok_def)
  let ?u = "ucast (tap_lens t ! unat (n mod tap_capacity t)) :: usize"
  have u: "unat ?u = length b div 2"
    using l m by (simp add: unsigned_ucast_eq take_bit_nat_eq_self)
  have "min ?u (tap_max_frames t) = ?u" using u m by (simp add: min_def word_le_nat_alt)
  then show ?thesis using unat_mul_small [of ?u 2] u m by (simp add: NUM_CHANNELS_def)
qed

lemma copied_sample:
  assumes ok: "tap_ok t" and st: "stored t (unat n) b" and out: "out = take (length out) b" "length out < length b"
  shows "out @ [tap_ring t ! (slot_base t n + length out)] = take (Suc (length out)) b"
proof -
  have "tap_ring t ! (slot_base t n + length out) = b ! length out"
    using st out(2) by (simp add: stored_def cells_def slot_base_eq [OF ok])
  then show ?thesis using out by (metis take_Suc_conv_app_nth)
qed

section \<open>Every step keeps the invariant\<close>

lemma race_okD:
  assumes "race_ok s"
  shows "tap_ok (rc_tap s)" "unat (tap_write (rc_tap s)) = length (rc_log s)"
    "prod_ok (rc_tap s) (rc_prod s)" "cons_ok (rc_tap s) (rc_log s) (rc_cons s)"
    "\<And>i. unat (tap_read (rc_tap s)) \<le> i \<Longrightarrow> i < length (rc_log s) \<Longrightarrow> stored (rc_tap s) i (rc_log s ! i)"
    "\<And>i. i < length (rc_log s) \<Longrightarrow> whole (rc_tap s) (rc_log s ! i)"
  using assms by (auto simp: race_ok_def list_all_length)

text \<open>A step that changes only fields of the tap the invariant does not read, or the threads.\<close>

lemma race_ok_threads:
  assumes "race_ok s" "prod_ok (rc_tap s) p" "cons_ok (rc_tap s) (rc_log s) c"
  shows "race_ok (s\<lparr>rc_prod := p, rc_cons := c\<rparr>)"
  using assms by (simp add: race_ok_def)

lemma race_ok_counters:
  assumes "race_ok s"
  shows "race_ok (s\<lparr>rc_tap := (rc_tap s)\<lparr>tap_consumers := x, tap_dropped := y\<rparr>\<rparr>)"
proof -
  let ?t = "rc_tap s" and ?t' = "(rc_tap s)\<lparr>tap_consumers := x, tap_dropped := y\<rparr>"
  have "tap_ok ?t' = tap_ok ?t" "whole ?t' = whole ?t" "stored ?t' = stored ?t"
    by (simp_all add: tap_ok_def whole_def stored_def cells_def fun_eq_iff)
  moreover from this have "prod_ok ?t' p = prod_ok ?t p" "cons_ok ?t' lg c = cons_ok ?t lg c" for p c lg
    by (cases p; simp add: cells_def) (cases c; simp)
  ultimately show ?thesis using assms by (simp add: race_ok_def)
qed

lemma race_ok_read:
  assumes ok: "race_ok s" and n: "tap_read (rc_tap s) \<le> n" "n < tap_write (rc_tap s)"
  shows "race_ok (s\<lparr>rc_cons := CIdle, rc_tap := (rc_tap s)\<lparr>tap_read := n + 1\<rparr>\<rparr>)"
    "race_ok (s\<lparr>rc_cons := CIdle, rc_out := rc_out s @ [(unat n, rc_log s ! unat n)],
       rc_tap := (rc_tap s)\<lparr>tap_read := n + 1\<rparr>\<rparr>)"
proof -
  let ?t = "rc_tap s" and ?t' = "(rc_tap s)\<lparr>tap_read := n + 1\<rparr>"
  note d = race_okD [OF ok] and r = read_step [OF race_okD(1) [OF ok] n]
  have st: "stored ?t' i b = stored ?t i b" "whole ?t' b = whole ?t b" for i b
    by (simp_all add: stored_def cells_def whole_def)
  have le: "unat (tap_read ?t) \<le> unat n" "unat n < length (rc_log s)" using n d(2) by (simp_all add: word_order_nat)
  have out: "\<And>i b. (i, b) \<in> set (rc_out s) \<Longrightarrow> i < unat (tap_read ?t) \<and> i < length (rc_log s) \<and> b = rc_log s ! i"
    "sorted_wrt (<) (map fst (rc_out s))"
    using ok by (auto simp: race_ok_def)
  have base: "tap_ok ?t' \<and> unat (tap_write ?t') = length (rc_log s) \<and> list_all (whole ?t') (rc_log s)
      \<and> (\<forall>i. unat (tap_read ?t') \<le> i \<and> i < length (rc_log s) \<longrightarrow> stored ?t' i (rc_log s ! i))
      \<and> prod_ok ?t' (rc_prod s)"
    using r d le unfolding st by (auto simp: list_all_length st)
  show "race_ok (s\<lparr>rc_cons := CIdle, rc_tap := ?t'\<rparr>)"
    using base r(2) le out by (force simp: race_ok_def)
  have "sorted_wrt (<) (map fst (rc_out s @ [(unat n, rc_log s ! unat n)]))"
    using out le by (force simp: sorted_wrt_append)
  then show "race_ok (s\<lparr>rc_cons := CIdle, rc_out := rc_out s @ [(unat n, rc_log s ! unat n)], rc_tap := ?t'\<rparr>)"
    using base r(2) le out(1) by (force simp: race_ok_def)
qed

lemma whole_block:
  assumes ok: "tap_ok t" and f: "frames = block_frames t samples" "frames \<noteq> 0"
  shows "whole t (take (unat (frames * NUM_CHANNELS)) samples)"
    "vlen (take (unat (frames * NUM_CHANNELS)) samples) div NUM_CHANNELS = frames"
proof -
  have le: "frames \<le> tap_max_frames t" "unat frames \<le> unat (vlen samples div NUM_CHANNELS)"
    unfolding f(1) block_frames_def by (simp_all add: unat_min)
  have "unat (vlen samples div NUM_CHANNELS) \<le> length samples div 2"
    by (simp add: unat_div_distrib unat_vlen NUM_CHANNELS_def div_le_mono)
  with le(2) have two: "unat frames * 2 \<le> length samples" by linarith
  have n: "unat (frames * NUM_CHANNELS) = unat frames * 2" by (rule frames_words [OF ok le(1)])
  have "0 < unat frames" using f(2) by (simp add: unat_gt_0)
  moreover have m: "unat frames \<le> unat (tap_max_frames t)" using le(1) by (simp add: word_le_nat_alt)
  ultimately show "whole t (take (unat (frames * NUM_CHANNELS)) samples)" using two by (simp add: whole_def n)
  have "unat frames * 2 < 2 ^ 64" using m ok by (auto simp: tap_ok_def)
  then have "unat (vlen (take (unat frames * 2) samples) div NUM_CHANNELS) = unat frames"
    using two by (simp add: unat_div_distrib unat_vlen NUM_CHANNELS_def min_absorb2)
  then show "vlen (take (unat (frames * NUM_CHANNELS)) samples) div NUM_CHANNELS = frames"
    by (simp add: n word_eq_nat)
qed

lemma race_ok_prod: "race_ok s \<Longrightarrow> prod_ok (rc_tap s) p \<Longrightarrow> race_ok (s\<lparr>rc_prod := p\<rparr>)"
  by (simp add: race_ok_def)

lemma race_ok_cons: "race_ok s \<Longrightarrow> cons_ok (rc_tap s) (rc_log s) c \<Longrightarrow> race_ok (s\<lparr>rc_cons := c\<rparr>)"
  by (simp add: race_ok_def)

text \<open>A step of the producer that leaves the indices alone.\<close>

lemma race_ok_write:
  assumes ok: "race_ok s" and t': "tap_ok t'" "prod_ok t' p"
    and same: "tap_write t' = tap_write (rc_tap s)" "tap_read t' = tap_read (rc_tap s)"
      "tap_max_frames t' = tap_max_frames (rc_tap s)"
    and st: "\<And>i b. unat (tap_read (rc_tap s)) \<le> i \<Longrightarrow> i < unat (tap_write (rc_tap s)) \<Longrightarrow>
      whole (rc_tap s) b \<Longrightarrow> stored (rc_tap s) i b \<Longrightarrow> stored t' i b"
  shows "race_ok (s\<lparr>rc_prod := p, rc_tap := t'\<rparr>)"
proof -
  have "whole t' = whole (rc_tap s)" by (simp add: whole_def fun_eq_iff same)
  moreover have "cons_ok t' (rc_log s) (rc_cons s)"
    using race_okD(4) [OF ok] same by (cases "rc_cons s") auto
  moreover have "\<forall>i. unat (tap_read t') \<le> i \<and> i < length (rc_log s) \<longrightarrow> stored t' i (rc_log s ! i)"
    using st race_okD(2,5,6) [OF ok] same by simp
  ultimately show ?thesis using ok t' same by (simp add: race_ok_def)
qed

lemma race_ok_store:
  assumes ok: "race_ok s" and p: "rc_prod s = PPublish src w" and lt: "length (rc_log s) + 1 < 2 ^ 64"
  shows "race_ok (s\<lparr>rc_prod := PIdle, rc_log := rc_log s @ [src], rc_tap := (rc_tap s)\<lparr>tap_write := w + 1\<rparr>\<rparr>)"
proof -
  let ?t' = "(rc_tap s)\<lparr>tap_write := w + 1\<rparr>"
  note d = race_okD [OF ok]
  have pp: "prod_ok (rc_tap s) (PPublish src w)" by (rule d(3) [unfolded p])
  have "unat (tap_write (rc_tap s)) + 1 < 2 ^ 64" using lt d(2) by simp
  note t' = store_step [OF d(1) pp this]
  have same: "whole ((rc_tap s)\<lparr>tap_write := v\<rparr>) = whole (rc_tap s)"
    "stored ((rc_tap s)\<lparr>tap_write := v\<rparr>) = stored (rc_tap s)" for v
    by (simp_all add: whole_def stored_def cells_def fun_eq_iff)
  have "cons_ok ?t' (rc_log s @ [src]) (rc_cons s)"
    using d(2,4) t'(2,3) by (cases "rc_cons s") (auto simp: nth_append word_less_nat_alt)
  moreover have "\<forall>i. unat (tap_read (rc_tap s)) \<le> i \<and> i < length (rc_log s @ [src])
      \<longrightarrow> stored (rc_tap s) i ((rc_log s @ [src]) ! i)"
  proof -
    have "stored (rc_tap s) (length (rc_log s)) src" using pp unfolding d(2) [symmetric] by auto
    then show ?thesis using d(5) by (auto simp: nth_append less_Suc_eq)
  qed
  moreover have "\<forall>(i, b) \<in> set (rc_out s). i < unat (tap_read (rc_tap s)) \<and> i < length (rc_log s @ [src])
      \<and> b = (rc_log s @ [src]) ! i"
    using ok by (fastforce simp: race_ok_def nth_append)
  ultimately show ?thesis using ok t' pp d(2) by (simp add: race_ok_def same)
qed

lemma race_step_ok: "race_step s s' \<Longrightarrow> race_ok s \<Longrightarrow> length (rc_log s') < 2 ^ 64 \<Longrightarrow> race_ok s'"
proof (induction rule: race_step.induct)
  case (attach s)
  then show ?case using race_ok_counters [of s "tap_dropped (rc_tap s)" "tap_consumers (rc_tap s) + 1"]
    by (simp add: attach_consumer_def)
next
  case (detach s)
  then show ?case using race_ok_counters [of s "tap_dropped (rc_tap s)" "tap_consumers (rc_tap s) - 1"]
    by (simp add: detach_consumer_def)
next
  case (p_load s frames samples)
  have "whole (rc_tap s) (take (unat (frames * NUM_CHANNELS)) samples)"
    by (rule whole_block(1) [OF race_okD(1) [OF p_load(5)] p_load(3,4)])
  then show ?case using p_load by (intro race_ok_prod) simp_all
next
  case (p_full s src w)
  have "race_ok (s\<lparr>rc_prod := PIdle\<rparr>)" using p_full by (intro race_ok_prod) simp_all
  from race_ok_counters [OF this, of "tap_dropped (rc_tap s) + 1" "tap_consumers (rc_tap s)"]
  show ?case by simp
next
  case (p_room s src w)
  have "prod_ok (rc_tap s) (PLoaded src w)" by (rule race_okD(3) [OF p_room(3), unfolded p_room(1)])
  with p_room(2) have "prod_ok (rc_tap s) (PCopy src w 0)"
    by (auto simp: cells_def word_le_nat_alt unat_sat_sub)
  then show ?case using p_room by (intro race_ok_prod)
next
  case (p_copy s src w k)
  have "prod_ok (rc_tap s) (PCopy src w k)" by (rule race_okD(3) [OF p_copy(3), unfolded p_copy(1)])
  note c = copy_step [OF race_okD(1) [OF p_copy(3)] this p_copy(2)]
  show ?case by (rule race_ok_write [OF p_copy(3) c(1,2)]) (use c(3) in auto)
next
  case (p_lens s src w k)
  have "prod_ok (rc_tap s) (PCopy src w k)" by (rule race_okD(3) [OF p_lens(3), unfolded p_lens(1)])
  note c = lens_step [OF race_okD(1) [OF p_lens(3)] this p_lens(2)]
  show ?case by (rule race_ok_write [OF p_lens(3) c(1,2)]) (use c(3) in auto)
next
  case (p_store s src w)
  then show ?case by (intro race_ok_store) simp_all
next
  case (c_load s)
  then show ?case by (intro race_ok_cons) simp_all
next
  case (c_none s w)
  then show ?case by (intro race_ok_cons) simp_all
next
  case (c_some s w)
  have "w \<le> tap_write (rc_tap s)" using race_okD(4) [OF c_some(3)] unfolding c_some(1) by simp
  then have "tap_read (rc_tap s) \<le> w - 1 \<and> w - 1 < tap_write (rc_tap s)"
    using c_some(2) unat_sub_le [of 1 w] by (auto simp: word_order_nat)
  then show ?case using c_some by (intro race_ok_cons) simp_all
next
  case (c_empty s newest)
  have "cons_ok (rc_tap s) (rc_log s) (CLens newest)" by (rule race_okD(4) [OF c_empty(3), unfolded c_empty(1)])
  then show ?case using c_empty by (intro race_ok_read) simp_all
next
  case (c_lens s newest len)
  have n: "tap_read (rc_tap s) \<le> newest" "newest < tap_write (rc_tap s)"
    using race_okD(4) [OF c_lens(4)] c_lens(1) by simp_all
  then have "unat (tap_read (rc_tap s)) \<le> unat newest" "unat newest < length (rc_log s)"
    using race_okD(2) [OF c_lens(4)] by (simp_all add: word_order_nat)
  with race_okD(5,6) [OF c_lens(4)] lens_of_block [OF race_okD(1) [OF c_lens(4)]]
  have "unat len = length (rc_log s ! unat newest)" unfolding c_lens(2) by blast
  then show ?case using c_lens n by (intro race_ok_cons) simp_all
next
  case (c_copy s newest len out)
  have c: "cons_ok (rc_tap s) (rc_log s) (CCopy newest len out)" by (rule race_okD(4) [OF c_copy(3), unfolded c_copy(1)])
  then have "unat (tap_read (rc_tap s)) \<le> unat newest" "unat newest < length (rc_log s)"
    using race_okD(2) [OF c_copy(3)] by (simp_all add: word_order_nat)
  from copied_sample [OF race_okD(1) [OF c_copy(3)] race_okD(5) [OF c_copy(3) this]] c c_copy(2)
  have "out @ [tap_ring (rc_tap s) ! (slot_base (rc_tap s) newest + length out)]
      = take (Suc (length out)) (rc_log s ! unat newest)" by simp
  then show ?case using c c_copy by (intro race_ok_cons) simp_all
next
  case (c_store s newest len out)
  have c: "cons_ok (rc_tap s) (rc_log s) (CCopy newest len out)" by (rule race_okD(4) [OF c_store(3), unfolded c_store(1)])
  with c_store(2) have "out = rc_log s ! unat newest" by auto
  then show ?case using c c_store race_ok_read(2) [of s newest] by simp
qed

section \<open>No torn block\<close>

lemma race_step_log: "race_step s s' \<Longrightarrow> length (rc_log s) \<le> length (rc_log s')"
  by (induction rule: race_step.induct) simp_all

lemma race_start_ok: "tap_ok t \<Longrightarrow> tap_write t = 0 \<Longrightarrow> race_ok (race_start t)"
  by (simp add: race_ok_def race_start_def)

lemma race_reach_ok:
  "race_reach s0 s \<Longrightarrow> race_ok s0 \<Longrightarrow> length (rc_log s) < 2 ^ 64 \<Longrightarrow> race_ok s"
proof (induction rule: race_reach.induct)
  case (step s s')
  then show ?case using race_step_ok [OF step(2)] race_step_log [OF step(2)] by simp
qed simp

lemma race_reach_trans: "race_reach s1 s2 \<Longrightarrow> race_reach s0 s1 \<Longrightarrow> race_reach s0 s2"
  by (induction rule: race_reach.induct) (auto intro: race_reach.step)

text \<open>
  A publish that nobody interrupts is the function \<open>publish\<close>, and a take that nobody
  interrupts is \<open>tap_take\<close>.
\<close>

lemma race_copy_run:
  "rc_prod s = PCopy src w k \<Longrightarrow> k \<le> length src \<Longrightarrow> slot_base (rc_tap s) w + length src \<le> length (tap_ring (rc_tap s)) \<Longrightarrow>
   race_reach s (s\<lparr>rc_prod := PCopy src w (length src),
     rc_tap := (rc_tap s)\<lparr>tap_ring := write_at (slot_base (rc_tap s) w + k) (drop k src) (tap_ring (rc_tap s))\<rparr>\<rparr>)"
proof (induction "length src - k" arbitrary: s k)
  case 0
  then have "s\<lparr>rc_prod := PCopy src w (length src),
     rc_tap := (rc_tap s)\<lparr>tap_ring := write_at (slot_base (rc_tap s) w + k) (drop k src) (tap_ring (rc_tap s))\<rparr>\<rparr> = s"
    by (simp add: write_at_def)
  then show ?case using race_reach.start [of s] by simp
next
  case (Suc n)
  then have k: "k < length src" by simp
  let ?b = "slot_base (rc_tap s) w"
  let ?s = "s\<lparr>rc_prod := PCopy src w (Suc k), rc_tap := (rc_tap s)\<lparr>tap_ring := (tap_ring (rc_tap s))[?b + k := src ! k]\<rparr>\<rparr>"
  have one: "race_reach s ?s" using race_reach.step [OF race_reach.start race_step.p_copy [OF Suc.prems(1) k]] .
  have base: "slot_base (rc_tap ?s) w = ?b" by (simp add: slot_base_def)
  have "write_at (?b + Suc k) (drop (Suc k) src) ((tap_ring (rc_tap s))[?b + k := src ! k])
      = write_at (?b + k) (drop k src) (tap_ring (rc_tap s))"
    using k Suc.prems(3) by (simp add: write_at_def Cons_nth_drop_Suc [symmetric] take_Suc_conv_app_nth)
  then show ?case
    using race_reach_trans [OF Suc.hyps(1) [of "Suc k" ?s] one] Suc.hyps(2) Suc.prems k base
    by (simp add: Suc_le_eq)
qed

lemma slot_room:
  assumes "tap_ok t" "whole t src"
  shows "slot_base t w + length src \<le> length (tap_ring t)"
proof -
  have c: "unat w mod unat (tap_capacity t) < unat (tap_capacity t)"
    using assms(1) by (simp add: tap_ok_def word_le_nat_alt)
  from slot_le [OF c order_refl, of "unat (tap_max_frames t)"] assms show ?thesis
    by (simp add: slot_base_eq [OF assms(1)] tap_ok_def whole_def)
qed

lemma idle_update:
  "rc_prod s = PIdle \<Longrightarrow> s\<lparr>rc_prod := PIdle, rc_log := l, rc_tap := t\<rparr> = s\<lparr>rc_log := l, rc_tap := t\<rparr>"
  by (cases s) simp

lemma publish_run:
  assumes ok: "tap_ok (rc_tap s)" and idle: "rc_prod s = PIdle"
  shows "\<exists>lg. length lg \<le> Suc (length (rc_log s))
    \<and> race_reach s (s\<lparr>rc_log := lg, rc_tap := publish (rc_tap s) samples\<rparr>)"
proof -
  let ?t = "rc_tap s" and ?f = "block_frames (rc_tap s) samples"
  let ?w = "tap_write (rc_tap s)" and ?src = "take (unat (block_frames (rc_tap s) samples * NUM_CHANNELS)) samples"
  consider "tap_consumers ?t = 0 \<or> ?f = 0"
    | "tap_consumers ?t \<noteq> 0" "?f \<noteq> 0" "tap_capacity ?t \<le> sat_sub ?w (tap_read ?t)"
    | "tap_consumers ?t \<noteq> 0" "?f \<noteq> 0" "\<not> tap_capacity ?t \<le> sat_sub ?w (tap_read ?t)" by blast
  then show ?thesis
  proof cases
    case 1
    then have "publish ?t samples = ?t" by (auto simp: publish_def Let_def)
    then show ?thesis using race_reach.start [of s] by (intro exI [of _ "rc_log s"]) simp
  next
    case 2
    let ?s1 = "s\<lparr>rc_prod := PLoaded ?src ?w\<rparr>"
    have "race_reach s ?s1" by (rule race_reach.step [OF race_reach.start race_step.p_load [OF idle 2(1) refl 2(2)]])
    moreover have "race_step ?s1 (?s1\<lparr>rc_prod := PIdle, rc_tap := ?t\<lparr>tap_dropped := tap_dropped ?t + 1\<rparr>\<rparr>)"
      using race_step.p_full [of ?s1 ?src ?w] 2(3) by simp
    moreover have "publish ?t samples = ?t\<lparr>tap_dropped := tap_dropped ?t + 1\<rparr>"
      using 2 by (simp add: publish_def Let_def)
    ultimately have "race_reach s (s\<lparr>rc_prod := PIdle, rc_log := rc_log s, rc_tap := publish ?t samples\<rparr>)"
      using race_reach.step by fastforce
    then show ?thesis unfolding idle_update [OF idle] by (intro exI [of _ "rc_log s"]) simp
  next
    case 3
    note wb = whole_block [OF ok refl 3(2)]
    let ?s1 = "s\<lparr>rc_prod := PLoaded ?src ?w\<rparr>" and ?s2 = "s\<lparr>rc_prod := PCopy ?src ?w 0\<rparr>"
    let ?t3 = "?t\<lparr>tap_ring := write_at (slot_base ?t ?w) ?src (tap_ring ?t)\<rparr>"
    let ?s3 = "s\<lparr>rc_prod := PCopy ?src ?w (length ?src), rc_tap := ?t3\<rparr>"
    let ?t4 = "?t3\<lparr>tap_lens := (tap_lens ?t)[unat (?w mod tap_capacity ?t) := ucast ?f]\<rparr>"
    let ?s4 = "s\<lparr>rc_prod := PPublish ?src ?w, rc_tap := ?t4\<rparr>"
    let ?s5 = "s\<lparr>rc_prod := PIdle, rc_log := rc_log s @ [?src], rc_tap := ?t4\<lparr>tap_write := ?w + 1\<rparr>\<rparr>"
    have "race_reach s ?s1" by (rule race_reach.step [OF race_reach.start race_step.p_load [OF idle 3(1) refl 3(2)]])
    moreover have "race_step ?s1 ?s2" using race_step.p_room [of ?s1 ?src ?w] 3(3) by simp
    ultimately have r2: "race_reach s ?s2" by (rule race_reach.step)
    have "race_reach ?s2 ?s3"
      using race_copy_run [of ?s2 ?src ?w 0] slot_room [OF ok wb(1), of ?w] by simp
    then have r3: "race_reach s ?s3" using r2 by (rule race_reach_trans)
    have "race_step ?s3 ?s4" using race_step.p_lens [of ?s3 ?src ?w "length ?src"] wb(2) by simp
    with r3 have r4: "race_reach s ?s4" by (rule race_reach.step)
    have "race_step ?s4 ?s5" using race_step.p_store [of ?s4 ?src ?w] by simp
    with r4 have "race_reach s ?s5" by (rule race_reach.step)
    moreover have "publish ?t samples = ?t4\<lparr>tap_write := ?w + 1\<rparr>"
      using 3 by (simp add: publish_def Let_def slot_base_def)
    ultimately have "race_reach s (s\<lparr>rc_prod := PIdle, rc_log := rc_log s @ [?src], rc_tap := publish ?t samples\<rparr>)"
      by simp
    then show ?thesis unfolding idle_update [OF idle] by (intro exI [of _ "rc_log s @ [?src]"]) simp
  qed
qed

lemma race_read_run:
  "rc_cons s = CCopy n len out \<Longrightarrow> length out \<le> unat len \<Longrightarrow> slot_base (rc_tap s) n + unat len \<le> length (tap_ring (rc_tap s)) \<Longrightarrow>
   race_reach s (s\<lparr>rc_cons := CCopy n len
     (out @ take (unat len - length out) (drop (slot_base (rc_tap s) n + length out) (tap_ring (rc_tap s))))\<rparr>)"
proof (induction "unat len - length out" arbitrary: s out)
  case 0
  then have eq: "s\<lparr>rc_cons := CCopy n len
      (out @ take (unat len - length out) (drop (slot_base (rc_tap s) n + length out) (tap_ring (rc_tap s))))\<rparr> = s"
    by (cases s) simp
  show ?case unfolding eq by (rule race_reach.start)
next
  case (Suc k)
  let ?b = "slot_base (rc_tap s) n" and ?r = "tap_ring (rc_tap s)"
  let ?x = "?r ! (?b + length out)"
  let ?s = "s\<lparr>rc_cons := CCopy n len (out @ [?x])\<rparr>"
  have lt: "length out < unat len" using Suc.hyps(2) by simp
  have one: "race_reach s ?s" using race_reach.step [OF race_reach.start race_step.c_copy [OF Suc.prems(1) lt]] .
  have "take (unat len - length out) (drop (?b + length out) ?r)
      = ?x # take (unat len - Suc (length out)) (drop (?b + Suc (length out)) ?r)"
    using lt Suc.prems(3) by (simp add: Cons_nth_drop_Suc [symmetric] take_Cons')
  then show ?case
    using race_reach_trans [OF Suc.hyps(1) [of "out @ [?x]" ?s] one] Suc.hyps(2) Suc.prems lt by simp
qed

lemma take_run:
  assumes ok: "race_ok s" and idle: "rc_cons s = CIdle"
  shows "race_reach s (s\<lparr>rc_tap := snd (snd (tap_take (rc_tap s) out)),
     rc_out := rc_out s @ (if fst (tap_take (rc_tap s) out)
       then [(unat (tap_write (rc_tap s) - 1), fst (snd (tap_take (rc_tap s) out)))] else [])\<rparr>)"
proof -
  let ?t = "rc_tap s"
  let ?w = "tap_write ?t" and ?n = "tap_write ?t - 1"
  let ?len = "min (ucast (tap_lens ?t ! unat (?n mod tap_capacity ?t))) (tap_max_frames ?t) * NUM_CHANNELS"
  have idle_upd: "s\<lparr>rc_cons := CIdle, rc_out := o', rc_tap := t'\<rparr> = s\<lparr>rc_tap := t', rc_out := o'\<rparr>"
    "s\<lparr>rc_cons := CIdle\<rparr> = s" "s\<lparr>rc_tap := rc_tap s, rc_out := rc_out s\<rparr> = s" for o' t'
    using idle by (cases s, simp)+
  have r1: "race_reach s (s\<lparr>rc_cons := CLoaded ?w\<rparr>)"
    by (rule race_reach.step [OF race_reach.start race_step.c_load [OF idle]])
  show ?thesis
  proof (cases "?w \<le> tap_read ?t")
    case True
    then have "race_step (s\<lparr>rc_cons := CLoaded ?w\<rparr>) s"
      using race_step.c_none [of "s\<lparr>rc_cons := CLoaded ?w\<rparr>" ?w] idle_upd(2) by simp
    with r1 have "race_reach s s" by (rule race_reach.step)
    then show ?thesis using True idle_upd(3) by (simp add: tap_take_def Let_def)
  next
    case False
    have "race_step (s\<lparr>rc_cons := CLoaded ?w\<rparr>) (s\<lparr>rc_cons := CLens ?n\<rparr>)"
      using race_step.c_some [of "s\<lparr>rc_cons := CLoaded ?w\<rparr>" ?w] False by simp
    with r1 have r2: "race_reach s (s\<lparr>rc_cons := CLens ?n\<rparr>)" by (rule race_reach.step)
    have n: "tap_read ?t \<le> ?n" "?n < ?w"
      using False unat_sub_le [of 1 ?w] by (auto simp: word_order_nat)
    have i: "unat (tap_read ?t) \<le> unat ?n" "unat ?n < length (rc_log s)"
      using n race_okD(2) [OF ok] by (simp_all add: word_order_nat)
    note b = race_okD(5) [OF ok i] race_okD(6) [OF ok i(2)]
    have len: "unat ?len = length (rc_log s ! unat ?n)"
      by (rule lens_of_block [OF race_okD(1) [OF ok] b])
    then have ne: "?len \<noteq> 0" using b(2) by (auto simp: whole_def)
    have "race_step (s\<lparr>rc_cons := CLens ?n\<rparr>) (s\<lparr>rc_cons := CCopy ?n ?len []\<rparr>)"
      using race_step.c_lens [of "s\<lparr>rc_cons := CLens ?n\<rparr>" ?n ?len] ne by simp
    with r2 have r3: "race_reach s (s\<lparr>rc_cons := CCopy ?n ?len []\<rparr>)" by (rule race_reach.step)
    let ?b = "take (unat ?len) (drop (slot_base ?t ?n) (tap_ring ?t))"
    have room: "slot_base ?t ?n + unat ?len \<le> length (tap_ring ?t)"
      using slot_room [OF race_okD(1) [OF ok] b(2), of ?n] len by simp
    have "race_reach (s\<lparr>rc_cons := CCopy ?n ?len []\<rparr>) (s\<lparr>rc_cons := CCopy ?n ?len ?b\<rparr>)"
      using race_read_run [of "s\<lparr>rc_cons := CCopy ?n ?len []\<rparr>" ?n ?len "[]"] room by simp
    then have r4: "race_reach s (s\<lparr>rc_cons := CCopy ?n ?len ?b\<rparr>)" using r3 by (rule race_reach_trans)
    have "length ?b = unat ?len" using room by simp
    then have "race_step (s\<lparr>rc_cons := CCopy ?n ?len ?b\<rparr>)
        (s\<lparr>rc_cons := CIdle, rc_out := rc_out s @ [(unat ?n, ?b)], rc_tap := ?t\<lparr>tap_read := ?n + 1\<rparr>\<rparr>)"
      using race_step.c_store [of "s\<lparr>rc_cons := CCopy ?n ?len ?b\<rparr>" ?n ?len ?b] by simp
    with r4 have r5: "race_reach s (s\<lparr>rc_cons := CIdle, rc_out := rc_out s @ [(unat ?n, ?b)], rc_tap := ?t\<lparr>tap_read := ?n + 1\<rparr>\<rparr>)"
      by (rule race_reach.step)
    have "tap_take ?t out = (True, ?b, ?t\<lparr>tap_read := ?n + 1\<rparr>)"
      using False ne by (simp add: tap_take_def Let_def slot_base_def)
    then show ?thesis using r5 unfolding idle_upd(1) by simp
  qed
qed

text \<open>
  C8. The tap is free of torn reads: whatever the order in which the single loads, stores and
  sample copies of \<open>publish\<close> and \<open>take\<close> interleave, every block delivered to the window is
  one of the blocks published, complete and unmixed, no block is delivered twice or out of
  order, and the producer is never more than the capacity ahead.
\<close>

theorem tap_never_tears:
  assumes "race_reach (race_start t) s" "tap_ok t" "tap_write t = 0" "length (rc_log s) < 2 ^ 64"
  shows "list_all (\<lambda>(i, b). i < length (rc_log s) \<and> b = rc_log s ! i) (rc_out s)
    \<and> sorted_wrt (<) (map fst (rc_out s))
    \<and> unat (tap_write (rc_tap s)) - unat (tap_read (rc_tap s)) \<le> unat (tap_capacity (rc_tap s))"
proof -
  have "race_ok s" using race_reach_ok [OF assms(1) race_start_ok [OF assms(2,3)] assms(4)] .
  then show ?thesis by (auto simp: race_ok_def list_all_iff tap_ok_def)
qed

definition demo_race :: PluginTap where
  "demo_race = attach_consumer (tap_with_capacity (Num 48000) 1 2)"

lemma demo_race_ok: "tap_ok demo_race" "tap_write demo_race = 0"
proof -
  have "tap_ok (tap_with_capacity (Num 48000) 1 2)" by (rule tap_with_capacity_ok) simp_all
  then show "tap_ok demo_race" by (simp add: demo_race_def attach_consumer_def tap_ok_def)
  show "tap_write demo_race = 0" by (simp add: demo_race_def attach_consumer_def tap_with_capacity_def Let_def)
qed

theorem tap_never_tears_witness:
  "\<exists>s. race_reach (race_start demo_race) s \<and> length (rc_log s) = 1 \<and> map fst (rc_out s) = [0]
     \<and> list_all (\<lambda>(i, b). i < length (rc_log s) \<and> b = rc_log s ! i) (rc_out s)"
proof -
  let ?s0 = "race_start demo_race" and ?b = "[Num 1, Num 2]"
  obtain lg where lg: "length lg \<le> 1"
    and r1: "race_reach ?s0 (?s0\<lparr>rc_log := lg, rc_tap := publish demo_race ?b\<rparr>)"
    using publish_run [of ?s0 ?b] demo_race_ok by (auto simp: race_start_def)
  let ?s1 = "?s0\<lparr>rc_log := lg, rc_tap := publish demo_race ?b\<rparr>"
  have w: "tap_write (publish demo_race ?b) = 1" "fst (tap_take (publish demo_race ?b) [])" by code_simp+
  have ok: "race_ok ?s1" using race_reach_ok [OF r1 race_start_ok [OF demo_race_ok]] lg by simp
  then have l1: "length lg = 1" using race_okD(2) [OF ok] w(1) by simp
  have idle: "rc_cons ?s1 = CIdle" "rc_tap ?s1 = publish demo_race ?b" "rc_out ?s1 = []" "rc_log ?s1 = lg"
    by (simp_all add: race_start_def)
  let ?o = "[(0, fst (snd (tap_take (publish demo_race ?b) [])))]"
  obtain s where s: "race_reach ?s1 s" "rc_log s = lg" "rc_out s = ?o"
    using take_run [OF ok idle(1), of "[]"] w idle by (auto simp del: One_nat_def)
  have "race_reach ?s0 s" using s(1) r1 by (rule race_reach_trans)
  moreover from tap_never_tears [OF this demo_race_ok] l1
  have "list_all (\<lambda>(i, b). i < length (rc_log s) \<and> b = rc_log s ! i) (rc_out s)" unfolding s(2) by simp
  ultimately show ?thesis using s l1 by (intro exI [of _ s]) simp
qed

end
