(* ===== verification/GuiTracks.thy ===== *)
theory GuiTracks
  imports PluginScan PluginParams
begin

text \<open>
  The mixer of the interface: tracks, device slots and the queue of parameter changes of a slot
  (crates/hikaru_gui/src/views/mixer.rs), the commands of the interface to the engine
  (audio_proxy.rs) and the reconciliation of mixer and session matrix
  (\<open>sync_matrix_mixer_bidirectional\<close>, app.rs).  Of a slot's wavetable editor only the path of its
  table is kept, and the sampler is left out.  A sent command is an entry of a list.
\<close>

section \<open>Commands\<close>

record EngineEventData =
  ed_id :: u64
  ed_samples :: "f32 list"
  ed_channels :: usize
  ed_clip_start_secs :: f32
  ed_sample_rate :: u32
  ed_gain :: f32
  ed_fade_in_secs :: f32
  ed_fade_out_secs :: f32

record AudioClipData =
  ac_clip_id :: usize
  ac_path :: string
  ac_start_secs :: f32
  ac_duration_secs :: f32
  ac_offset_secs :: f32
  ac_track_index :: usize

text \<open>The constructors carry the fields of the commands in their order.\<close>

datatype GuiCommand =
    SetAppMode bool
  | Play | Pause | Stop
  | Seek u64
  | LoadClip usize string f32 f32 f32 usize usize
  | UpdateClipBounds usize usize usize f32 f32 f32
  | LoadMidiClip usize usize usize "(u64 \<times> u8 \<times> u8 \<times> u32) list"
  | UpdateMidiClipNotes usize usize "(u64 \<times> u8 \<times> u8 \<times> u32) list"
  | SyncPlaylistClips "AudioClipData list"
  | ToggleRecord
  | SetBpm f32
  | TriggerScene usize
  | TriggerClip usize usize
  | SetClipEvents usize usize "EngineEventData list"
  | StopTrack usize
  | SetClipLoop usize usize f32 f32 bool
  | SetGlobalLoop u64 u64 bool
  | AddTrack | AddScene
  | RemoveScene usize
  | SetTrackPan usize f32
  | SetTrackVolume usize f32
  | SetMasterVolume f32
  | SetTrackMute usize bool
  | SetTrackSolo usize bool
  | RemoveTrack usize
  | PreviewSample string f32 f32
  | StopPreview
  | SetPreviewVolume f32
  | LoadDmsSample usize string
  | DmsNoteOn usize f32 f32 f32 f64 f32 f32 f32 f32
  | DmsNoteOff usize
  | LoadExternalPlugin usize usize PluginDescriptor
  | RemoveExternalPlugin usize usize
  | MoveExternalPlugin usize usize usize usize
  | SetExternalPluginParam usize usize u32 f32
  | SyncExternalPluginParams usize usize "(u32 \<times> f32) list"

section \<open>Device slots\<close>

datatype ExternalParamsStatus = Idle | Probing | Ready | ProbeFailed string

record ExternalParamState =
  xp_info :: PluginParamInfo
  xp_value :: f32

record DspSlot =
  ds_id :: usize
  ds_name :: string
  ds_active :: bool
  ds_is_open :: bool
  ds_wavetable_path :: "string option"
  ds_menu_open :: bool
  ds_options_open :: bool
  ds_external :: "PluginDescriptor option"
  ds_load_error :: "string option"
  ds_external_params :: "ExternalParamState list"
  ds_pending :: "(u32 \<times> f32) list"
  ds_params_status :: ExternalParamsStatus
  ds_has_gui :: "bool option"

definition EMPTY_SLOT_NAME :: string where "EMPTY_SLOT_NAME = ''Empty Slot''"

text \<open>\<open>initial_table\<close> is the path of the table a new wavetable editor opens with.\<close>

definition dsp_slot_new :: "string option \<Rightarrow> usize \<Rightarrow> string \<Rightarrow> DspSlot" where
  "dsp_slot_new initial_table i name = \<lparr> ds_id = i, ds_name = name, ds_active = True, ds_is_open = False,
     ds_wavetable_path = initial_table, ds_menu_open = False, ds_options_open = False, ds_external = None,
     ds_load_error = None, ds_external_params = [], ds_pending = [], ds_params_status = Idle,
     ds_has_gui = None \<rparr>"

definition has_editor :: "DspSlot \<Rightarrow> bool" where
  "has_editor s = (case ds_external s of
     Some p \<Rightarrow> pd_has_gui p
   | None \<Rightarrow> ds_name s = ''OpenWavetable'' \<or> ds_name s = ''Hikaru OpenDMS'')"

definition is_empty_slot :: "DspSlot \<Rightarrow> bool" where
  "is_empty_slot s \<longleftrightarrow> ds_external s = None \<and> ds_name s = EMPTY_SLOT_NAME"

definition take_pending_external_params :: "DspSlot \<Rightarrow> (u32 \<times> f32) list \<times> DspSlot" where
  "take_pending_external_params s = (ds_pending s, s\<lparr>ds_pending := []\<rparr>)"

definition enqueue_external_param :: "u32 \<Rightarrow> f32 \<Rightarrow> DspSlot \<Rightarrow> DspSlot" where
  "enqueue_external_param i v s = s\<lparr>ds_pending :=
     (if i \<in> fst ` set (ds_pending s) then map_first (\<lambda>(j, _). j = i) (\<lambda>(j, _). (j, v)) (ds_pending s)
      else ds_pending s @ [(i, v)])\<rparr>"

definition F32_EPSILON :: f32 where "F32_EPSILON = Num (1 / 2 ^ 23)"

definition set_external_param :: "u32 \<Rightarrow> f32 \<Rightarrow> DspSlot \<Rightarrow> f32 option \<times> DspSlot" where
  "set_external_param i v s =
     (case find (\<lambda>p. pi_id (xp_info p) = i) (ds_external_params s) of
        None \<Rightarrow> (None, s)
      | Some param \<Rightarrow>
          let snapped = snap (xp_info param) v
          in if le (fabs (fsub F32 (xp_value param) snapped)) F32_EPSILON then (None, s)
             else (Some snapped, enqueue_external_param i snapped
                    (s\<lparr>ds_external_params := map_first (\<lambda>p. pi_id (xp_info p) = i)
                       (\<lambda>p. p\<lparr>xp_value := snapped\<rparr>) (ds_external_params s)\<rparr>)))"

section \<open>Tracks\<close>

datatype PanMode = Stereo | MidSide

record SendConnection =
  sn_target_id :: usize
  sn_amount :: f32

record Track =
  tk_id :: usize
  tk_name :: string
  tk_volume :: f32
  tk_pan :: f32
  tk_pan_mode :: PanMode
  tk_mute :: bool
  tk_solo :: bool
  tk_arm :: bool
  tk_is_master :: bool
  tk_route_destination_id :: usize
  tk_sends :: "SendConnection list"
  tk_effects :: "DspSlot list"
  tk_matrix_idx :: "usize option"
  tk_width :: f32

definition DEFAULT_TRACK_WIDTH :: f32 where "DEFAULT_TRACK_WIDTH = Num 132"
definition MIN_TRACK_WIDTH :: f32 where "MIN_TRACK_WIDTH = Num 80"
definition MAX_TRACK_WIDTH :: f32 where "MAX_TRACK_WIDTH = Num 340"

definition track_new :: "usize \<Rightarrow> string \<Rightarrow> bool \<Rightarrow> Track" where
  "track_new i name is_master = \<lparr> tk_id = i, tk_name = name, tk_volume = Num (3 / 4), tk_pan = Num 0,
     tk_pan_mode = Stereo, tk_mute = False, tk_solo = False, tk_arm = False, tk_is_master = is_master,
     tk_route_destination_id = 0, tk_sends = [], tk_effects = [], tk_matrix_idx = None,
     tk_width = DEFAULT_TRACK_WIDTH \<rparr>"

record TrackMeta =
  tm_name :: string
  tm_muted :: bool
  tm_soloed :: bool
  tm_volume :: f32
  tm_pan :: f32

section \<open>Mixer and matrix\<close>

text \<open>
  One value in both places: the side that moved away from its old value wins, the mixer if both
  did.  The third component tells whether the mixer's value went to the matrix (and is sent).
\<close>

definition sync_float :: "f32 \<Rightarrow> f32 \<Rightarrow> f32 \<Rightarrow> f32 \<Rightarrow> f32 \<times> f32 \<times> bool" where
  "sync_float mx old_mx t old_t =
     (let matrix_changed = lt F32_EPSILON (fabs (fsub F32 mx old_mx));
          mixer_changed = lt F32_EPSILON (fabs (fsub F32 t old_t))
      in if matrix_changed \<and> \<not> mixer_changed then (mx, mx, False)
         else if mixer_changed then (t, t, True)
         else (mx, t, False))"

definition sync_bool :: "bool \<Rightarrow> bool \<Rightarrow> bool \<Rightarrow> bool \<Rightarrow> bool \<times> bool \<times> bool" where
  "sync_bool mx old_mx t old_t =
     (let matrix_changed = mx \<noteq> old_mx; mixer_changed = t \<noteq> old_t
      in if matrix_changed \<and> \<not> mixer_changed then (mx, mx, True)
         else if mixer_changed then (t, t, True)
         else (mx, t, False))"

definition sync_row ::
    "nat \<Rightarrow> TrackMeta option \<Rightarrow> (f32 \<times> f32 \<times> bool \<times> bool) option \<Rightarrow> TrackMeta \<Rightarrow> Track
      \<Rightarrow> TrackMeta \<times> Track \<times> GuiCommand list" where
  "sync_row i old_mx old_mix mx t =
     (let row = word_of_nat i :: usize;
          (omv, omp, omm, oms) = (case old_mx of None \<Rightarrow> (Num (3 / 4), Num 0, False, False)
             | Some m \<Rightarrow> (tm_volume m, tm_pan m, tm_muted m, tm_soloed m));
          (otv, otp, otm, ots) = (case old_mix of None \<Rightarrow> (Num (3 / 4), Num 0, False, False) | Some o1 \<Rightarrow> o1);
          (mv, tv, sv) = sync_float (tm_volume mx) omv (tk_volume t) otv;
          (mp, tp, sp) = sync_float (tm_pan mx) omp (tk_pan t) otp;
          (mm, tm, sm) = sync_bool (tm_muted mx) omm (tk_mute t) otm;
          (ms, ts, ss) = sync_bool (tm_soloed mx) oms (tk_solo t) ots
      in (mx\<lparr>tm_volume := mv, tm_pan := mp, tm_muted := mm, tm_soloed := ms\<rparr>,
          t\<lparr>tk_name := tm_name mx, tk_matrix_idx := Some row, tk_volume := tv, tk_pan := tp, tk_mute := tm,
            tk_solo := ts\<rparr>,
          (if sv then [SetTrackVolume row tv] else []) @ (if sp then [SetTrackPan row tp] else [])
          @ (if sm then [SetTrackMute row tm] else []) @ (if ss then [SetTrackSolo row ts] else [])))"

definition row_track :: "TrackMeta list \<Rightarrow> nat \<Rightarrow> Track" where
  "row_track metas idx =
     (let mx = metas ! idx
      in (track_new (word_of_nat (idx + 1)) (tm_name mx) False)\<lparr>tk_volume := tm_volume mx, tk_pan := tm_pan mx,
           tk_mute := tm_muted mx, tk_solo := tm_soloed mx, tk_matrix_idx := Some (word_of_nat idx)\<rparr>)"

text \<open>The master in front, and one mixer track per row: surplus tracks go, missing ones come.\<close>

definition fit_tracks :: "Track list \<Rightarrow> TrackMeta list \<Rightarrow> Track list" where
  "fit_tracks live metas =
     (let live = (if live = [] \<or> \<not> tk_is_master (hd live) then track_new 0 ''MASTER'' True # live else live);
          live = (hd live)\<lparr>tk_matrix_idx := None\<rparr> # tl live;
          live = take (length metas + 1) live
      in live @ map (row_track metas) [length live - 1..<length metas])"

definition sync_matrix_mixer_bidirectional ::
    "Track list \<Rightarrow> TrackMeta list \<Rightarrow> TrackMeta list \<Rightarrow> (f32 \<times> f32 \<times> bool \<times> bool) list
      \<Rightarrow> Track list \<times> TrackMeta list \<times> GuiCommand list" where
  "sync_matrix_mixer_bidirectional live metas old_matrix old_mixer =
     (let live = fit_tracks live metas;
          rows = map (\<lambda>i. sync_row i (nth_opt old_matrix i) (nth_opt old_mixer (i + 1)) (metas ! i) (live ! (i + 1)))
                   [0..<length metas]
      in (hd live # map (fst \<circ> snd) rows, map fst rows, concat (map (snd \<circ> snd) rows)))"

section \<open>What the queue and the reconciliation promise\<close>

lemma enqueue_external_param_keys:
  "fst ` set (ds_pending (enqueue_external_param i v s)) = insert i (fst ` set (ds_pending s))"
proof -
  have "fst ` set (map_first (\<lambda>(j, _). j = i) (\<lambda>(j, _). (j, v)) q) = fst ` set q" for q
    by (induction q) (auto simp: split_beta)
  then show ?thesis by (auto simp: enqueue_external_param_def)
qed

text \<open>
  A queue of parameter changes holds one entry per parameter, the last value the user gave it,
  so that a drag leaves one command however often the window is drawn meanwhile.
\<close>

lemma enqueue_external_param_map:
  "map_of (ds_pending (enqueue_external_param i v s)) = (map_of (ds_pending s))(i \<mapsto> v)"
proof -
  have "i \<in> fst ` set q \<Longrightarrow> map_of (map_first (\<lambda>(j, _). j = i) (\<lambda>(j, _). (j, v)) q) = (map_of q)(i \<mapsto> v)" for q
    by (induction q) (force simp: fun_eq_iff split_beta)+
  moreover have "i \<notin> fst ` set q \<Longrightarrow> map_of (q @ [(i, v)]) = (map_of q)(i \<mapsto> v)" for q
    by (auto simp: map_of_append map_add_def fun_eq_iff split: option.splits dest: map_of_SomeD intro: rev_image_eqI)
  ultimately show ?thesis by (simp add: enqueue_external_param_def)
qed

lemma enqueue_external_param_distinct:
  assumes "distinct (map fst (ds_pending s))"
  shows "distinct (map fst (ds_pending (enqueue_external_param i v s)))"
proof -
  have "map fst (map_first (\<lambda>(j, _). j = i) (\<lambda>(j, _). (j, v)) q) = map fst q" for q
    by (induction q) (auto simp: split_beta)
  then show ?thesis using assms by (auto simp: enqueue_external_param_def)
qed

lemma length_fit_tracks: "length (fit_tracks live metas) = length metas + 1"
  by (simp add: fit_tracks_def Let_def)

lemma hd_fit_tracks:
  "tk_is_master (hd (fit_tracks live metas))" "tk_matrix_idx (hd (fit_tracks live metas)) = None"
  by (auto simp: fit_tracks_def Let_def track_new_def)

text \<open>The flags a snapshot of a row holds, absent rows counting as neither muted nor soloed.\<close>

definition meta_flags :: "TrackMeta option \<Rightarrow> bool \<times> bool" where
  "meta_flags m = (case m of None \<Rightarrow> (False, False) | Some m \<Rightarrow> (tm_muted m, tm_soloed m))"

definition mix_flags :: "(f32 \<times> f32 \<times> bool \<times> bool) option \<Rightarrow> bool \<times> bool" where
  "mix_flags m = (case m of None \<Rightarrow> (False, False) | Some (_, _, mu, so) \<Rightarrow> (mu, so))"

lemma sync_float_cases:
  assumes "sync_float mx old_mx t old_t = (a, b, c)"
  shows "a = b \<or> a = mx \<and> b = t \<and> \<not> lt F32_EPSILON (fabs (fsub F32 mx old_mx))
                 \<and> \<not> lt F32_EPSILON (fabs (fsub F32 t old_t))"
  using assms by (auto simp: sync_float_def Let_def split: if_splits)

lemma sync_bool_same:
  "fst (sync_bool mx old t old) = fst (snd (sync_bool mx old t old))"
  "snd (snd (sync_bool mx old t old)) = (fst (snd (sync_bool mx old t old)) \<noteq> old)"
  by (auto simp: sync_bool_def Let_def)

lemma sync_row_spec:
  assumes "sync_row i old_mx old_mix mx t = (mx', t', cmds)"
  shows "tk_name t' = tm_name mx" "tm_name mx' = tm_name mx" "tk_matrix_idx t' = Some (word_of_nat i)"
    "meta_flags old_mx = mix_flags old_mix \<Longrightarrow> tk_mute t' = tm_muted mx' \<and> tk_solo t' = tm_soloed mx'"
    "meta_flags old_mx = mix_flags old_mix \<Longrightarrow>
       (\<exists>m. SetTrackMute (word_of_nat i) m \<in> set cmds) = (tk_mute t' \<noteq> fst (meta_flags old_mx))"
  using assms
  by (auto simp: sync_row_def Let_def meta_flags_def mix_flags_def split_beta sync_bool_same
      split: option.splits)

lemma sync_nth:
  assumes "sync_matrix_mixer_bidirectional live metas old_matrix old_mixer = (tracks, metas', cmds)"
    and "i < length metas"
  obtains c where "sync_row i (nth_opt old_matrix i) (nth_opt old_mixer (i + 1)) (metas ! i)
                    (fit_tracks live metas ! (i + 1)) = (metas' ! i, tracks ! (i + 1), c)" "set c \<subseteq> set cmds"
proof
  show "sync_row i (nth_opt old_matrix i) (nth_opt old_mixer (i + 1)) (metas ! i) (fit_tracks live metas ! (i + 1))
    = (metas' ! i, tracks ! (i + 1), snd (snd (sync_row i (nth_opt old_matrix i) (nth_opt old_mixer (i + 1)) (metas ! i) (fit_tracks live metas ! (i + 1)))))"
    using assms by (auto simp: sync_matrix_mixer_bidirectional_def Let_def)
  show "set (snd (snd (sync_row i (nth_opt old_matrix i) (nth_opt old_mixer (i + 1)) (metas ! i) (fit_tracks live metas ! (i + 1))))) \<subseteq> set cmds"
    using assms by (force simp: sync_matrix_mixer_bidirectional_def Let_def)
qed

text \<open>
  C18. After a reconciliation the mixer is the master and one track per row of the matrix, in order,
  under the row's name and index; and when the two sides agreed about mute and solo before, they
  agree after it, whichever side was changed.
\<close>

theorem sync_rows_agree:
  assumes sync: "sync_matrix_mixer_bidirectional live metas old_matrix old_mixer = (tracks, metas', cmds)"
    and agreed: "\<forall>i < length metas. meta_flags (nth_opt old_matrix i) = mix_flags (nth_opt old_mixer (i + 1))"
  shows "length tracks = length metas + 1 \<and> length metas' = length metas
     \<and> tk_is_master (hd tracks) \<and> tk_matrix_idx (hd tracks) = None
     \<and> (\<forall>i < length metas. tk_name (tracks ! (i + 1)) = tm_name (metas' ! i) \<and> tm_name (metas' ! i) = tm_name (metas ! i)
          \<and> tk_matrix_idx (tracks ! (i + 1)) = Some (word_of_nat i)
          \<and> tk_mute (tracks ! (i + 1)) = tm_muted (metas' ! i) \<and> tk_solo (tracks ! (i + 1)) = tm_soloed (metas' ! i))"
proof (intro conjI allI impI)
  show "length tracks = length metas + 1" "length metas' = length metas"
    using sync by (auto simp: sync_matrix_mixer_bidirectional_def Let_def)
  show "tk_is_master (hd tracks)" "tk_matrix_idx (hd tracks) = None"
    using sync hd_fit_tracks[of live metas] by (auto simp: sync_matrix_mixer_bidirectional_def Let_def)
next
  fix i assume i: "i < length metas"
  obtain c where row: "sync_row i (nth_opt old_matrix i) (nth_opt old_mixer (i + 1)) (metas ! i)
                    (fit_tracks live metas ! (i + 1)) = (metas' ! i, tracks ! (i + 1), c)"
    by (rule sync_nth[OF sync i])
  note spec = sync_row_spec[OF row]
  show "tk_name (tracks ! (i + 1)) = tm_name (metas' ! i)" "tm_name (metas' ! i) = tm_name (metas ! i)"
    "tk_matrix_idx (tracks ! (i + 1)) = Some (word_of_nat i)" using spec(1-3) by auto
  show "tk_mute (tracks ! (i + 1)) = tm_muted (metas' ! i)" "tk_solo (tracks ! (i + 1)) = tm_soloed (metas' ! i)"
    using spec(4) agreed i by auto
qed

definition demo_meta :: TrackMeta where
  "demo_meta = \<lparr> tm_name = ''A'', tm_muted = True, tm_soloed = False, tm_volume = Num (3 / 4), tm_pan = Num 0 \<rparr>"

theorem sync_rows_agree_witness:
  "map tk_mute (fst (sync_matrix_mixer_bidirectional [] [demo_meta] [demo_meta\<lparr>tm_muted := False\<rparr>] [])) = [False, True]"
proof -
  let ?r = "sync_matrix_mixer_bidirectional [] [demo_meta] [demo_meta\<lparr>tm_muted := False\<rparr>] []"
  have "length (fst ?r) = 2 \<and> tk_mute (fst ?r ! 1) = tm_muted (fst (snd ?r) ! 0)"
    using sync_rows_agree[of "[]" "[demo_meta]" "[demo_meta\<lparr>tm_muted := False\<rparr>]" "[]" "fst ?r" "fst (snd ?r)" "snd (snd ?r)"]
    by (auto simp: meta_flags_def mix_flags_def nth_opt_def demo_meta_def)
  then show ?thesis
    by code_simp
qed

end
