(* ===== verification/GuiPlaylist.thy ===== *)
theory GuiPlaylist
  imports GuiTracks
begin

text \<open>
  The timeline of OpenStudio (crates/hikaru_gui/src/views/playlist.rs): clips, the loop region,
  trimming, box selection, clipboard and the gestures of the ruler.  Pixels are \<open>f32\<close>, ticks
  \<open>u64\<close>.  A handler takes the state it reads and returns it updated with the commands it sends;
  repainting is left out.  \<open>powf\<close> and the reader of sample files are parameters, and so are the
  offset and the bounds of the scroll handle.
\<close>

section \<open>State\<close>

type_synonym Hsla = "f32 \<times> f32 \<times> f32 \<times> f32"

record CurvePoint =
  cp_rel_tick :: u64
  cp_value :: f32
  cp_tension :: f32

text \<open>\<open>AudioClip sample_path peaks sample_offset_ticks total_sample_ticks\<close>\<close>

datatype ClipType =
    Pattern usize
  | AudioClip string "f32 list" u64 u64
  | Automation "CurvePoint list" string

record PlaylistClip =
  pc_id :: usize
  pc_name :: string
  pc_start_tick :: u64
  pc_duration_ticks :: u64
  pc_clip_type :: ClipType
  pc_color :: Hsla

datatype LoopDragHandle = NoHandle | LeftHandle | RightHandle | BodyHandle

record PlaylistClipDrag =
  cd_clip_id :: usize
  cd_orig_tick :: u64
  cd_orig_track :: usize
  cd_grab_dx_px :: f32
  cd_grab_dy_px :: f32
  cd_moved :: bool

datatype TrimEdge = LeftEdge | RightEdge

record TrimDrag =
  td_clip_id :: usize
  td_edge :: TrimEdge
  td_orig_edge_tick :: u64
  td_orig_start :: u64
  td_orig_duration :: u64
  td_orig_offset :: u64
  td_orig_total :: u64
  td_grab_dx_px :: f32
  td_moved :: bool

record MarqueeState =
  mq_start_x :: f32
  mq_start_y :: f32
  mq_cur_x :: f32
  mq_cur_y :: f32

record PlaylistState =
  pl_clips :: "(usize \<times> PlaylistClip) list"
  pl_playhead_tick :: u64
  pl_ppqn :: u64
  pl_next_clip_id :: usize
  pl_header_width :: f32
  pl_grid_numerator :: u32
  pl_grid_denominator :: u32
  pl_zoom_x :: f32
  pl_row_h :: f32
  pl_selected_clips :: "usize list"
  pl_clipboard :: "(usize \<times> PlaylistClip) list"
  pl_needs_full_sync :: bool
  pl_loop_start_ticks :: u64
  pl_loop_end_ticks :: u64
  pl_loop_region_active :: bool
  pl_loop_dragging :: bool
  pl_loop_preview_start_ticks :: u64
  pl_loop_preview_end_ticks :: u64
  pl_loop_preview_active :: bool
  pl_loop_drag_handle :: LoopDragHandle
  pl_loop_drag_completed :: bool
  pl_clip_drag :: "PlaylistClipDrag option"
  pl_clip_click_suppress :: bool
  pl_marquee :: "MarqueeState option"
  pl_trim_drag :: "TrimDrag option"
  pl_trim_hover :: "(usize \<times> TrimEdge) option"
  pl_hover_tick :: "u64 option"

definition DEFAULT_PPQN :: u64 where "DEFAULT_PPQN = 960"
definition TRACK_ROW_H :: f32 where "TRACK_ROW_H = Num 68"
definition MIN_ZOOM_X :: f32 where "MIN_ZOOM_X = lit F32 (5 / 1000)"
definition MAX_ZOOM_X :: f32 where "MAX_ZOOM_X = Num 2"
definition MIN_ROW_H :: f32 where "MIN_ROW_H = Num 60"
definition MAX_ROW_H :: f32 where "MAX_ROW_H = Num 180"
definition ZOOM_STEP_FACTOR :: f32 where "ZOOM_STEP_FACTOR = Num (5 / 4)"
definition LINES_PER_NOTCH :: f32 where "LINES_PER_NOTCH = Num 3"
definition PX_PER_NOTCH :: f32 where "PX_PER_NOTCH = Num 53"

definition playlist_default :: PlaylistState where
  "playlist_default = \<lparr> pl_clips = [], pl_playhead_tick = 0, pl_ppqn = DEFAULT_PPQN, pl_next_clip_id = 1,
     pl_header_width = Num 196, pl_grid_numerator = 1, pl_grid_denominator = 4, pl_zoom_x = lit F32 (4 / 100),
     pl_row_h = TRACK_ROW_H, pl_selected_clips = [], pl_clipboard = [], pl_needs_full_sync = True,
     pl_loop_start_ticks = 0, pl_loop_end_ticks = 0, pl_loop_region_active = False,
     pl_loop_dragging = False, pl_loop_preview_start_ticks = 0, pl_loop_preview_end_ticks = 0,
     pl_loop_preview_active = False, pl_loop_drag_handle = NoHandle, pl_loop_drag_completed = False,
     pl_clip_drag = None, pl_clip_click_suppress = False, pl_marquee = None, pl_trim_drag = None,
     pl_trim_hover = None, pl_hover_tick = None \<rparr>"

section \<open>Pixels and ticks\<close>

definition px_to_ticks :: "f32 \<Rightarrow> f32 \<Rightarrow> u64" where
  "px_to_ticks px zoom_x = to_word (fdiv F32 (fmax px (Num 0)) (fmax zoom_x (lit F32 (1 / 10000))))"

definition ticks_to_px :: "u64 \<Rightarrow> f32 \<Rightarrow> f32" where
  "ticks_to_px ticks zoom_x = fmul F32 (of_u64 F32 ticks) zoom_x"

definition ticks_per_bar :: "u64 \<Rightarrow> u32 \<Rightarrow> u64" where
  "ticks_per_bar ppqn beats_per_bar = max ppqn 1 * ucast (max beats_per_bar 1)"

definition bar_number_at_tick :: "u64 \<Rightarrow> u64 \<Rightarrow> u32" where
  "bar_number_at_tick tick bar_ticks = ucast (tick div max bar_ticks 1) + 1"

definition bar_to_px :: "u32 \<Rightarrow> u64 \<Rightarrow> f32 \<Rightarrow> f32" where
  "bar_to_px bar bar_ticks zoom_x =
     fmul F32 (of_u64 F32 (ucast (sat_sub bar 1) * max bar_ticks 1 :: u64)) zoom_x"

definition snap_step_ticks :: "u64 \<Rightarrow> u32 \<Rightarrow> u64" where
  "snap_step_ticks ppqn grid_denominator =
     (let ppqn = max ppqn 1; d = max grid_denominator 1
      in max (if d = 2 then ppqn * 2 else if d = 4 then ppqn else if d = 8 then ppqn div 2
              else if d = 16 then ppqn div 4 else ppqn * 4 div ucast d) 1)"

definition clamped_zoom :: "f32 \<Rightarrow> f32" where
  "clamped_zoom zoom = (if \<not> is_finite zoom then lit F32 (4 / 100) else fclamp zoom MIN_ZOOM_X MAX_ZOOM_X)"

definition step_zoom :: "f32 \<Rightarrow> bool \<Rightarrow> f32" where
  "step_zoom zoom zoom_in =
     clamped_zoom (if zoom_in then fmul F32 zoom (Num (5 / 4)) else fdiv F32 zoom (Num (5 / 4)))"

definition clamped_row_h :: "f32 \<Rightarrow> f32" where
  "clamped_row_h h = (if \<not> is_finite h then TRACK_ROW_H else fclamp h MIN_ROW_H MAX_ROW_H)"

definition step_row_h :: "f32 \<Rightarrow> bool \<Rightarrow> f32" where
  "step_row_h h zoom_in =
     clamped_row_h (if zoom_in then fmul F32 h (Num (5 / 4)) else fdiv F32 h (Num (5 / 4)))"

text \<open>A wheel event in pixels (trackpads) or in lines.\<close>

datatype ScrollDelta = Pixels f32 f32 | Lines f32 f32

fun scroll_axes :: "ScrollDelta \<Rightarrow> f32 \<times> f32" where
  "scroll_axes (Pixels dx dy) = (dx, dy)"
| "scroll_axes (Lines dx dy) = (dx, dy)"

definition wheel_zoom_in :: "ScrollDelta \<Rightarrow> bool" where
  "wheel_zoom_in delta =
     (let (dx, dy) = scroll_axes delta; d = (if \<not> feq dy (Num 0) then dy else dx) in lt d (Num 0))"

definition wheel_notches :: "ScrollDelta \<Rightarrow> f32" where
  "wheel_notches delta =
     (let (dx, dy) = scroll_axes delta;
          per_notch = (case delta of Pixels _ _ \<Rightarrow> PX_PER_NOTCH | Lines _ _ \<Rightarrow> LINES_PER_NOTCH);
          d = (if \<not> feq dy (Num 0) then dy else dx)
      in if \<not> is_finite d \<or> \<not> is_finite per_notch \<or> le per_notch (Num 0) then Num 0
         else fdiv F32 (fneg d) per_notch)"

definition smooth_zoom :: "(f32 \<Rightarrow> f32 \<Rightarrow> f32) \<Rightarrow> f32 \<Rightarrow> f32 \<Rightarrow> f32" where
  "smooth_zoom powf zoom notches =
     (if \<not> is_finite notches then clamped_zoom zoom
      else clamped_zoom (fmul F32 zoom (powf ZOOM_STEP_FACTOR notches)))"

definition smooth_row_h :: "(f32 \<Rightarrow> f32 \<Rightarrow> f32) \<Rightarrow> f32 \<Rightarrow> f32 \<Rightarrow> f32" where
  "smooth_row_h powf h notches =
     (if \<not> is_finite notches then clamped_row_h h
      else clamped_row_h (fmul F32 h (powf ZOOM_STEP_FACTOR notches)))"

definition MMB_DRAG_PX_PER_NOTCH :: f32 where "MMB_DRAG_PX_PER_NOTCH = Num 120"

definition mmb_drag_notches :: "f32 \<Rightarrow> f32" where
  "mmb_drag_notches dy = (if \<not> is_finite dy then Num 0 else fdiv F32 (fneg dy) MMB_DRAG_PX_PER_NOTCH)"

definition clamp_scroll_offset :: "f32 \<Rightarrow> f32 \<Rightarrow> f32" where
  "clamp_scroll_offset current mx = fclamp current (fneg (fmax mx (Num 0))) (Num 0)"

definition anchor_h_offset :: "f32 \<Rightarrow> f32 \<Rightarrow> f32 \<Rightarrow> f32 \<Rightarrow> f32 \<Rightarrow> f32 \<Rightarrow> f32 \<Rightarrow> f32" where
  "anchor_h_offset cursor_vx header_w old_zoom new_zoom old_offset_x viewport_w content_w =
     (let old_zoom = fmax old_zoom (lit F32 (1 / 10000));
          tick = fdiv F32 (fsub F32 (fsub F32 cursor_vx old_offset_x) header_w) old_zoom;
          new_offset = fsub F32 (fsub F32 cursor_vx header_w) (fmul F32 tick new_zoom);
          mn = fneg (fmax (fsub F32 content_w viewport_w) (Num 0))
      in fclamp new_offset mn (Num 0))"

definition anchor_v_offset :: "f32 \<Rightarrow> f32 \<Rightarrow> f32 \<Rightarrow> f32 \<Rightarrow> f32 \<Rightarrow> f32 \<Rightarrow> f32 \<Rightarrow> f32" where
  "anchor_v_offset cursor_vy ruler_h old_row_h new_row_h old_offset_y viewport_h content_h =
     (let scale = (if lt (Num 0) old_row_h then fdiv F32 new_row_h old_row_h else Num 1);
          content_y = fsub F32 cursor_vy old_offset_y;
          new_content_y = fadd F32 ruler_h (fmul F32 (fsub F32 content_y ruler_h) scale);
          new_offset = fsub F32 cursor_vy new_content_y;
          mn = fneg (fmax (fsub F32 content_h viewport_h) (Num 0))
      in fclamp new_offset mn (Num 0))"

definition snap_ticks :: "u64 \<Rightarrow> u64 \<Rightarrow> u64" where
  "snap_ticks ticks grid_ticks =
     (if grid_ticks = 0 then ticks
      else sat_mul (to_word (fround (fdiv F64 (of_u64 F64 ticks) (of_u64 F64 grid_ticks)))) grid_ticks)"

definition loop_display_tick :: "u64 \<Rightarrow> u64 \<Rightarrow> u64 \<Rightarrow> bool \<Rightarrow> u64" where
  "loop_display_tick current loop_start loop_end loop_enabled =
     (let len = sat_sub loop_end loop_start
      in if \<not> loop_enabled then current
         else if len = 0 \<or> loop_end \<le> loop_start then current
         else if current < loop_start then current
         else if loop_end \<le> current then loop_start + (current - loop_start) mod len
         else current)"

definition samples_to_ticks_precise :: "u64 \<Rightarrow> u64 \<Rightarrow> f64 \<Rightarrow> u32 \<Rightarrow> u64" where
  "samples_to_ticks_precise sample_count ppqn bpm sample_rate =
     (let ppqn = max ppqn 1
      in if le bpm (Num 0) \<or> sample_rate = 0 then 0
         else let seconds = fdiv F64 (of_u64 F64 sample_count) (of_u64 F64 sample_rate);
                  seconds_per_tick = fdiv F64 (fdiv F64 (Num 60) bpm) (of_u64 F64 ppqn)
              in to_word (fround (fdiv F64 seconds seconds_per_tick)))"

definition ticks_to_samples_precise :: "u64 \<Rightarrow> u64 \<Rightarrow> f64 \<Rightarrow> u32 \<Rightarrow> u64" where
  "ticks_to_samples_precise ticks ppqn bpm sample_rate =
     (let ppqn = max ppqn 1
      in if le bpm (Num 0) \<or> sample_rate = 0 then 0
         else let seconds_per_tick = fdiv F64 (fdiv F64 (Num 60) bpm) (of_u64 F64 ppqn)
              in to_word (fround (fmul F64 (fmul F64 (of_u64 F64 ticks) seconds_per_tick)
                                           (of_u64 F64 sample_rate))))"

definition ticks_to_secs_precise :: "u64 \<Rightarrow> u64 \<Rightarrow> f64 \<Rightarrow> f32" where
  "ticks_to_secs_precise ticks ppqn bpm =
     (if ppqn = 0 \<or> le bpm (Num 0) then Num 0
      else let seconds_per_tick = fdiv F64 (fdiv F64 (Num 60) bpm) (of_u64 F64 ppqn)
           in to_f32 (fmul F64 (of_u64 F64 ticks) seconds_per_tick))"

definition adaptive_bar_stride :: "u64 \<Rightarrow> f32 \<Rightarrow> u64" where
  "adaptive_bar_stride bar_ticks zoom_x =
     (let bar_px = ticks_to_px (max bar_ticks 1) zoom_x
      in case find (\<lambda>stride. le (Num 36) (fmul F32 bar_px (of_u64 F32 stride)))
                [1, 2, 4, 8, 16, 32, 64, 128 :: u64] of
           Some stride \<Rightarrow> stride
         | None \<Rightarrow> 128)"

section \<open>Loop region\<close>

definition track_height :: "PlaylistState \<Rightarrow> f32" where
  "track_height s = clamped_row_h (pl_row_h s)"

definition loop_length_ticks :: "PlaylistState \<Rightarrow> u64" where
  "loop_length_ticks s = sat_sub (pl_loop_end_ticks s) (pl_loop_start_ticks s)"

definition is_loop_region_valid :: "PlaylistState \<Rightarrow> bool" where
  "is_loop_region_valid s \<longleftrightarrow> pl_loop_region_active s \<and> pl_loop_start_ticks s < pl_loop_end_ticks s"

definition clear_loop_region :: "PlaylistState \<Rightarrow> PlaylistState" where
  "clear_loop_region s = s\<lparr>pl_loop_start_ticks := 0, pl_loop_end_ticks := 0, pl_loop_region_active := False,
     pl_loop_dragging := False, pl_loop_preview_start_ticks := 0, pl_loop_preview_end_ticks := 0,
     pl_loop_preview_active := False, pl_loop_drag_handle := NoHandle, pl_loop_drag_completed := True\<rparr>"

definition paste_tick :: "PlaylistState \<Rightarrow> u64" where
  "paste_tick s = loop_display_tick (pl_playhead_tick s) (pl_loop_start_ticks s) (pl_loop_end_ticks s)
     (pl_loop_region_active s)"

definition total_project_ticks :: "PlaylistState \<Rightarrow> u64" where
  "total_project_ticks s =
     fold (\<lambda>(_, c) m. max m (sat_add (pc_start_tick c) (pc_duration_ticks c))) (pl_clips s) 0"

definition sanitize_loop_region :: "PlaylistState \<Rightarrow> PlaylistState" where
  "sanitize_loop_region s =
     (let ppqn = max (pl_ppqn s) 1;
          start = pl_loop_start_ticks s;
          end = pl_loop_end_ticks s;
          end = (if end \<le> start then sat_add start (sat_mul 4 ppqn) else end);
          end = (if sat_sub end start < ppqn then sat_add start ppqn else end)
      in s\<lparr>pl_loop_start_ticks := start, pl_loop_end_ticks := end,
           pl_loop_region_active := (start < end \<or> pl_loop_region_active s)\<rparr>)"

definition ensure_minimum_global_loop :: "bool \<Rightarrow> PlaylistState \<Rightarrow> PlaylistState" where
  "ensure_minimum_global_loop loop_enabled s =
     (if \<not> loop_enabled \<or> pl_loop_dragging s then s
      else
        let ppqn = max (pl_ppqn s) 1;
            len = loop_length_ticks s
        in if \<not> pl_loop_region_active s \<or> pl_loop_end_ticks s \<le> pl_loop_start_ticks s \<or> len < ppqn
           then
             let start = 0;
                 end = max (total_project_ticks s) (sat_mul 4 ppqn);
                 end = (if end \<le> start then sat_add start (sat_mul 4 ppqn) else end);
                 end = (if sat_sub end start < ppqn then sat_add start ppqn else end)
             in if start < end
                then s\<lparr>pl_loop_start_ticks := start, pl_loop_end_ticks := end,
                       pl_loop_preview_start_ticks := start, pl_loop_preview_end_ticks := end,
                       pl_loop_region_active := True, pl_loop_drag_completed := True\<rparr>
                else s
           else sanitize_loop_region s)"

definition sync_all_clips_to_engine :: "f64 \<Rightarrow> PlaylistState \<Rightarrow> PlaylistState \<times> GuiCommand list" where
  "sync_all_clips_to_engine bpm s =
     (s\<lparr>pl_needs_full_sync := False\<rparr>,
      concat (map (\<lambda>(track_id, clip). case pc_clip_type clip of
          AudioClip sample_path _ offset _ \<Rightarrow>
            [LoadClip (pc_id clip) sample_path
               (ticks_to_secs_precise (pc_start_tick clip) (pl_ppqn s) bpm)
               (ticks_to_secs_precise (pc_duration_ticks clip) (pl_ppqn s) bpm)
               (ticks_to_secs_precise offset (pl_ppqn s) bpm) track_id 0]
        | _ \<Rightarrow> []) (pl_clips s)))"

section \<open>Trimming\<close>

definition min_clip_ticks :: "u64 \<Rightarrow> u64" where
  "min_clip_ticks ppqn = max (max ppqn 1 div 4) 1"

definition trim_edge_at :: "f32 \<Rightarrow> f32 \<Rightarrow> f32 \<Rightarrow> f32 \<Rightarrow> TrimEdge option" where
  "trim_edge_at x clip_x clip_w edge_px =
     (if le clip_w (Num 0) then None
      else let left = clip_x; right = fadd F32 clip_x clip_w
           in if le left x \<and> le x (fadd F32 left edge_px) \<and> le (fsub F32 x left) (fsub F32 right x)
              then Some LeftEdge
              else if le (fsub F32 right edge_px) x \<and> le x right \<and> le (fsub F32 right x) (fsub F32 x left)
              then Some RightEdge else None)"

text \<open>
  \<open>Ord::clamp\<close> panics when the lower bound exceeds the upper one: \<open>None\<close>.  The result is
  \<open>(start, duration, offset)\<close>.
\<close>

definition clamp_ord :: "'a::linorder \<Rightarrow> 'a \<Rightarrow> 'a \<Rightarrow> 'a option" where
  "clamp_ord x lo hi = (if hi < lo then None else Some (if x < lo then lo else if hi < x then hi else x))"

definition trim_apply :: "u64 \<Rightarrow> u64 \<Rightarrow> u64 \<Rightarrow> u64 \<Rightarrow> TrimEdge \<Rightarrow> u64 \<Rightarrow> u64 \<Rightarrow> u64 \<Rightarrow> (u64 \<times> u64 \<times> u64) option" where
  "trim_apply orig_start orig_dur orig_offset orig_total edge edge_tick grid_ticks min_ticks =
     (case edge of
        RightEdge \<Rightarrow>
          let audio_left = sat_sub orig_total orig_offset;
              audio_end = max (sat_add orig_start audio_left) (sat_add orig_start min_ticks);
              new_end = min (max edge_tick (sat_add orig_start min_ticks)) audio_end;
              dur = max (sat_sub new_end orig_start) min_ticks
          in Some (orig_start, dur, orig_offset)
      | LeftEdge \<Rightarrow>
          let max_tick = sat_sub (sat_add orig_start orig_dur) min_ticks
          in case clamp_ord edge_tick orig_offset max_tick of
               None \<Rightarrow> None
             | Some new_start \<Rightarrow>
                 let offset = sat_add orig_offset (sat_sub new_start orig_start);
                     dur = max (sat_sub (sat_add orig_start orig_dur) new_start) min_ticks
                 in Some (new_start, dur, offset))"

definition audio_span :: "u64 \<Rightarrow> u64 \<Rightarrow> u64 \<times> u64" where
  "audio_span offset tot = (offset, sat_add offset tot)"

definition find_clip :: "usize \<Rightarrow> PlaylistState \<Rightarrow> (usize \<times> PlaylistClip) option" where
  "find_clip i s = find (\<lambda>(_, c). pc_id c = i) (pl_clips s)"

definition start_clip_trim :: "usize \<Rightarrow> TrimEdge \<Rightarrow> f32 \<Rightarrow> f32 \<Rightarrow> PlaylistState \<Rightarrow> PlaylistState" where
  "start_clip_trim clip_id edge cursor_x edge_x s =
     (case find_clip clip_id s of
        None \<Rightarrow> s
      | Some (_, clip) \<Rightarrow>
          (case pc_clip_type clip of
             AudioClip _ _ offset tot \<Rightarrow>
               s\<lparr>pl_trim_drag := Some \<lparr> td_clip_id = clip_id, td_edge = edge,
                  td_orig_edge_tick = (case edge of LeftEdge \<Rightarrow> pc_start_tick clip
                     | RightEdge \<Rightarrow> sat_add (pc_start_tick clip) (pc_duration_ticks clip)),
                  td_orig_start = pc_start_tick clip, td_orig_duration = pc_duration_ticks clip,
                  td_orig_offset = offset, td_orig_total = tot,
                  td_grab_dx_px = fsub F32 cursor_x edge_x, td_moved = False \<rparr>\<rparr>
           | _ \<Rightarrow> s))"

definition set_offset_ticks :: "u64 \<Rightarrow> ClipType \<Rightarrow> ClipType" where
  "set_offset_ticks offset t = (case t of AudioClip p pk _ tot \<Rightarrow> AudioClip p pk offset tot | _ \<Rightarrow> t)"

text \<open>One step of the gesture; \<open>zone_x\<close> is the left edge of the grid in the window.\<close>

definition update_clip_trim :: "f32 \<Rightarrow> f32 \<Rightarrow> PlaylistState \<Rightarrow> PlaylistState option" where
  "update_clip_trim cursor_x zone_x s =
     (case pl_trim_drag s of
        None \<Rightarrow> Some s
      | Some drag \<Rightarrow>
          let ppqn = max (pl_ppqn s) 1;
              grid = max (snap_step_ticks ppqn (pl_grid_denominator s)) 1;
              rel_x = fmax (fsub F32 (fsub F32 cursor_x (td_grab_dx_px drag)) zone_x) (Num 0);
              edge_tick = snap_ticks (px_to_ticks rel_x (pl_zoom_x s)) grid
          in case find_clip (td_clip_id drag) s of
               None \<Rightarrow> Some (s\<lparr>pl_trim_drag := None\<rparr>)
             | Some (_, clip) \<Rightarrow>
                 (case trim_apply (td_orig_start drag) (td_orig_duration drag) (td_orig_offset drag)
                         (td_orig_total drag) (td_edge drag) edge_tick grid (min_clip_ticks ppqn) of
                    None \<Rightarrow> None
                  | Some (start, dur, offset) \<Rightarrow>
                      if pc_start_tick clip = start \<and> pc_duration_ticks clip = dur then Some s
                      else Some (s\<lparr>pl_clips := map_first (\<lambda>(_, c). pc_id c = td_clip_id drag)
                               (\<lambda>(k, c). (k, c\<lparr>pc_start_tick := start, pc_duration_ticks := dur,
                                  pc_clip_type := set_offset_ticks offset (pc_clip_type c)\<rparr>)) (pl_clips s),
                             pl_trim_drag := Some (drag\<lparr>td_moved := True\<rparr>)\<rparr>)))"

definition finish_clip_trim :: "f64 \<Rightarrow> PlaylistState \<Rightarrow> PlaylistState \<times> GuiCommand list" where
  "finish_clip_trim bpm s =
     (case pl_trim_drag s of
        None \<Rightarrow> (s, [])
      | Some drag \<Rightarrow>
          let s = s\<lparr>pl_trim_drag := None\<rparr>
          in if \<not> td_moved drag then (s, [])
             else let s = s\<lparr>pl_clip_click_suppress := True\<rparr>; ppqn = max (pl_ppqn s) 1
                  in (s, case find_clip (td_clip_id drag) s of
                           None \<Rightarrow> []
                         | Some (key, clip) \<Rightarrow>
                             (case pc_clip_type clip of
                                AudioClip _ _ offset _ \<Rightarrow>
                                  [UpdateClipBounds (td_clip_id drag) key 0
                                     (ticks_to_secs_precise (pc_start_tick clip) ppqn bpm)
                                     (ticks_to_secs_precise (pc_duration_ticks clip) ppqn bpm)
                                     (ticks_to_secs_precise offset ppqn bpm)]
                              | _ \<Rightarrow> [])))"

section \<open>Box selection\<close>

definition MARQUEE_DRAG_THRESHOLD :: f32 where "MARQUEE_DRAG_THRESHOLD = Num 4"

definition drag_distance :: "MarqueeState \<Rightarrow> f32" where
  "drag_distance m = fadd F32 (fabs (fsub F32 (mq_cur_x m) (mq_start_x m)))
                             (fabs (fsub F32 (mq_cur_y m) (mq_start_y m)))"

definition is_drag :: "MarqueeState \<Rightarrow> bool" where
  "is_drag m = le MARQUEE_DRAG_THRESHOLD (drag_distance m)"

type_synonym rect = "f32 \<times> f32 \<times> f32 \<times> f32"

definition normalize_rect :: "f32 \<Rightarrow> f32 \<Rightarrow> f32 \<Rightarrow> f32 \<Rightarrow> rect" where
  "normalize_rect ax ay bx by1 = (fmin ax bx, fmin ay by1, fmax ax bx, fmax ay by1)"

definition normalized :: "MarqueeState \<Rightarrow> rect" where
  "normalized m = (fmin (mq_start_x m) (mq_cur_x m), fmin (mq_start_y m) (mq_cur_y m),
                   fmax (mq_start_x m) (mq_cur_x m), fmax (mq_start_y m) (mq_cur_y m))"

fun rects_intersect :: "rect \<Rightarrow> rect \<Rightarrow> bool" where
  "rects_intersect (a0, a1, a2, a3) (b0, b1, b2, b3) \<longleftrightarrow> le a0 b2 \<and> le b0 a2 \<and> le a1 b3 \<and> le b1 a3"

type_synonym clip_rect = "usize \<times> usize \<times> f32 \<times> f32 \<times> f32 \<times> f32"

definition clips_in_marquee :: "clip_rect list \<Rightarrow> rect \<Rightarrow> usize list \<Rightarrow> usize list" where
  "clips_in_marquee rows rect track_keys =
     map (\<lambda>(_, clip_id, _). clip_id)
       (filter (\<lambda>(track_key, _, x, y, w, h). track_key \<in> set track_keys
          \<and> rects_intersect rect (x, y, fadd F32 x w, fadd F32 y h)) rows)"

definition grid_origin_from_zone :: "rect \<Rightarrow> f32 \<Rightarrow> f32 \<times> f32" where
  "grid_origin_from_zone zone ruler_h = (case zone of (x, y, _) \<Rightarrow> (x, fsub F32 y ruler_h))"

definition update_marquee :: "f32 \<Rightarrow> f32 \<Rightarrow> rect \<Rightarrow> f32 \<Rightarrow> PlaylistState \<Rightarrow> PlaylistState" where
  "update_marquee x y zone ruler_h s =
     (let (gx, gy) = grid_origin_from_zone zone ruler_h
      in s\<lparr>pl_marquee := map_option (\<lambda>m. m\<lparr>mq_cur_x := fsub F32 x gx, mq_cur_y := fsub F32 y gy\<rparr>) (pl_marquee s)\<rparr>)"

definition select_more :: "usize list \<Rightarrow> usize list \<Rightarrow> usize list" where
  "select_more hits sel = fold (\<lambda>i sel. if i \<in> set sel then sel else sel @ [i]) hits sel"

definition finish_marquee :: "f32 \<times> f32 \<Rightarrow> rect \<Rightarrow> f32 \<Rightarrow> clip_rect list \<Rightarrow> bool \<Rightarrow> usize list \<Rightarrow> PlaylistState \<Rightarrow> PlaylistState" where
  "finish_marquee cur zone ruler_h clip_rects add_to keys s =
     (case pl_marquee s of
        None \<Rightarrow> s
      | Some m \<Rightarrow>
          let (gx, gy) = grid_origin_from_zone zone ruler_h;
              s = s\<lparr>pl_marquee := None\<rparr>;
              end = m\<lparr>mq_cur_x := fsub F32 (fst cur) gx, mq_cur_y := fsub F32 (snd cur) gy\<rparr>
          in if \<not> is_drag end then s
             else let hits = clips_in_marquee clip_rects (normalized end) keys
                  in if add_to then s\<lparr>pl_selected_clips := select_more hits (pl_selected_clips s)\<rparr>
                     else s\<lparr>pl_selected_clips := hits\<rparr>)"

section \<open>Clipboard\<close>

definition selection_span :: "(usize \<times> PlaylistClip) list \<Rightarrow> u64 \<times> u64" where
  "selection_span clips =
     (let (min_start, max_end) = fold (\<lambda>(_, c) (lo, hi). (min lo (pc_start_tick c),
            max hi (sat_add (pc_start_tick c) (pc_duration_ticks c)))) clips (- 1, 0)
      in if min_start = - 1 then (0, 0) else (min_start, max_end))"

definition picked :: "PlaylistState \<Rightarrow> (usize \<times> PlaylistClip) list" where
  "picked s = filter (\<lambda>(_, c). pc_id c \<in> set (pl_selected_clips s)) (pl_clips s)"

definition copy_selected_clips :: "PlaylistState \<Rightarrow> nat \<times> PlaylistState" where
  "copy_selected_clips s =
     (if pl_selected_clips s = [] then (0, s)
      else (length (picked s), if 0 < length (picked s) then s\<lparr>pl_clipboard := picked s\<rparr> else s))"

definition cut_selected_clips :: "PlaylistState \<Rightarrow> nat \<times> PlaylistState" where
  "cut_selected_clips s =
     (let (n, s) = copy_selected_clips s
      in if 0 < n then (n, s\<lparr>pl_clips := filter (\<lambda>(_, c). pc_id c \<notin> set (pl_selected_clips s)) (pl_clips s),
                             pl_selected_clips := []\<rparr>)
         else (n, s))"

definition next_free_clip_id :: "PlaylistState \<Rightarrow> usize" where
  "next_free_clip_id s = max (fold (\<lambda>(_, c) m. max m (pc_id c)) (pl_clips s) 0) (pl_next_clip_id s) + 1"

text \<open>The loop that pasting and duplicating share: each clip a new id and a shifted start.\<close>

fun insert_copies :: "u64 \<Rightarrow> u64 \<Rightarrow> (usize \<times> PlaylistClip) list \<Rightarrow> PlaylistState \<Rightarrow> usize list \<times> PlaylistState" where
  "insert_copies delta grid_ticks [] s = ([], s)"
| "insert_copies delta grid_ticks ((track_key, clip) # clips) s =
     (let i = next_free_clip_id s;
          copy = clip\<lparr>pc_id := i, pc_start_tick := snap_ticks (sat_add (pc_start_tick clip) delta) grid_ticks\<rparr>;
          s = s\<lparr>pl_clips := pl_clips s @ [(track_key, copy)],
                pl_next_clip_id := max (pl_next_clip_id s) (i + 1)\<rparr>;
          (ids, s) = insert_copies delta grid_ticks clips s
      in (i # ids, s))"

definition paste_clips :: "u64 \<Rightarrow> u64 \<Rightarrow> usize list \<Rightarrow> PlaylistState \<Rightarrow> usize list \<times> PlaylistState" where
  "paste_clips at_tick grid_ticks track_keys s =
     (if pl_clipboard s = [] then ([], s)
      else let (min_start, _) = selection_span (pl_clipboard s);
               delta = sat_sub at_tick min_start;
               (ids, s) = insert_copies delta grid_ticks
                            (filter (\<lambda>(k, _). k \<in> set track_keys) (pl_clipboard s)) s
           in (ids, s\<lparr>pl_selected_clips := ids\<rparr>))"

definition duplicate_selected_clips :: "u64 \<Rightarrow> PlaylistState \<Rightarrow> usize list \<times> PlaylistState" where
  "duplicate_selected_clips grid_ticks s =
     (if pl_selected_clips s = [] \<or> picked s = [] then ([], s)
      else let (min_start, max_end) = selection_span (picked s);
               delta = sat_sub max_end min_start;
               (ids, s) = insert_copies delta grid_ticks (picked s) s
           in (ids, s\<lparr>pl_selected_clips := ids\<rparr>))"

text \<open>The rows of a mode are its tracks other than the master, by index.\<close>

definition row_keys_of :: "Track list \<Rightarrow> usize list" where
  "row_keys_of tracks = map (\<lambda>(i, _). word_of_nat i) (filter (\<lambda>(_, t). \<not> tk_is_master t) (enumerate 0 tracks))"

definition handle_edit_shortcut :: "char \<Rightarrow> f64 \<Rightarrow> usize list \<Rightarrow> PlaylistState \<Rightarrow> bool \<times> PlaylistState \<times> GuiCommand list" where
  "handle_edit_shortcut key bpm keys s =
     (let grid = max (snap_step_ticks (pl_ppqn s) (pl_grid_denominator s)) 1
      in if key = CHR ''c'' then (True, snd (copy_selected_clips s), [])
         else if key = CHR ''x''
         then (let (n, s) = cut_selected_clips s
               in (True, if 0 < n then sync_all_clips_to_engine bpm s else (s, [])))
         else if key = CHR ''v''
         then (let (ids, s') = paste_clips (paste_tick s) grid keys s
               in (True, if ids = [] then (s', []) else sync_all_clips_to_engine bpm s'))
         else if key = CHR ''d''
         then (let (ids, s') = duplicate_selected_clips grid s
               in (True, if ids \<noteq> [] then sync_all_clips_to_engine bpm s' else (s', [])))
         else (False, s, []))"

section \<open>Dropping a sample, the ruler\<close>

text \<open>\<open>info\<close> reads the length in ticks and the peaks of a sample file.\<close>

definition build_audio_clip ::
    "(string \<Rightarrow> u64 \<Rightarrow> f64 \<Rightarrow> u64 \<times> f32 list) \<Rightarrow> usize \<Rightarrow> string \<Rightarrow> string \<Rightarrow> u64 \<Rightarrow> u64 \<Rightarrow> f64 \<Rightarrow> Hsla \<Rightarrow> PlaylistClip" where
  "build_audio_clip info i name path start_tick ppqn bpm color =
     (let (duration, peaks) = info path ppqn bpm; duration = max duration 1
      in \<lparr> pc_id = i, pc_name = name, pc_start_tick = start_tick, pc_duration_ticks = duration,
           pc_clip_type = AudioClip path peaks 0 duration, pc_color = color \<rparr>)"

text \<open>
  The row is \<open>floor(rel_y / height) as isize\<close> clamped to the rows: what is negative or no number
  goes to row 0, as it does with the unsigned cast used here.
\<close>

definition drop_audio_at_grid_pos ::
    "(string \<Rightarrow> u64 \<Rightarrow> f64 \<Rightarrow> u64 \<times> f32 list) \<Rightarrow> (string \<Rightarrow> string) \<Rightarrow> (nat \<Rightarrow> Hsla) \<Rightarrow> f64 \<Rightarrow> string \<Rightarrow> f32 \<Rightarrow> f32 \<Rightarrow> usize list
      \<Rightarrow> PlaylistState \<Rightarrow> PlaylistState \<times> GuiCommand list" where
  "drop_audio_at_grid_pos info file_name stripe bpm path rel_x rel_y track_ids s =
     (let ppqn = max (pl_ppqn s) 1;
          snap_val = max (snap_step_ticks ppqn (pl_grid_denominator s)) 1;
          drop_tick = snap_ticks (px_to_ticks (fmax rel_x (Num 0)) (pl_zoom_x s)) snap_val;
          row = min (unat (to_word (ffloor (fdiv F32 rel_y (track_height s))) :: usize)) (length track_ids - 1)
      in case nth_opt track_ids row of
           None \<Rightarrow> (s, [])
         | Some tid \<Rightarrow>
             let cid = pl_next_clip_id s;
                 clip = build_audio_clip info cid (file_name path) path drop_tick ppqn bpm (stripe row)
             in (s\<lparr>pl_next_clip_id := cid + 1, pl_clips := pl_clips s @ [(tid, clip)], pl_selected_clips := [cid]\<rparr>,
                 [LoadClip cid path (ticks_to_secs_precise drop_tick ppqn bpm)
                    (ticks_to_secs_precise (fst (info path ppqn bpm)) ppqn bpm) (Num 0) tid 0]))"

definition ruler_mouse_down ::
    "f64 \<Rightarrow> u32 \<Rightarrow> f32 \<Rightarrow> f32 \<times> f32 \<Rightarrow> f32 \<times> f32 \<Rightarrow> f32 \<Rightarrow> nat \<Rightarrow> PlaylistState \<Rightarrow> PlaylistState \<times> GuiCommand list" where
  "ruler_mouse_down bpm sr scroll_x cursor_win origin ruler_h click_count s =
     (let zoom_x = pl_zoom_x s;
          ppqn = max (pl_ppqn s) 1;
          snap_val = max (snap_step_ticks ppqn (pl_grid_denominator s)) 1;
          local_x = fmax (fsub F32 (fsub F32 (fst cursor_win) (fst origin)) scroll_x) (Num 0);
          local_y = fsub F32 (snd cursor_win) (snd origin);
          raw_tick = px_to_ticks local_x zoom_x;
          snapped_tick = snap_ticks raw_tick snap_val
      in if le (fsub F32 ruler_h (Num 9)) local_y
         then (if 2 \<le> click_count
               then (let s = s\<lparr>pl_loop_region_active := \<not> pl_loop_region_active s\<rparr>;
                         s = (if pl_loop_region_active s then ensure_minimum_global_loop True s else s)
                     in s\<lparr>pl_loop_dragging := False, pl_loop_drag_handle := NoHandle\<rparr>)
               else let lx0 = ticks_to_px (pl_loop_start_ticks s) zoom_x;
                        lx1 = ticks_to_px (pl_loop_end_ticks s) zoom_x;
                        active = is_loop_region_valid s
                    in if active \<and> le (fabs (fsub F32 local_x lx0)) (Num 7)
                       then s\<lparr>pl_loop_dragging := True, pl_loop_drag_handle := LeftHandle\<rparr>
                       else if active \<and> le (fabs (fsub F32 local_x lx1)) (Num 7)
                       then s\<lparr>pl_loop_dragging := True, pl_loop_drag_handle := RightHandle\<rparr>
                       else if active \<and> lt lx0 local_x \<and> lt local_x lx1
                       then s\<lparr>pl_loop_dragging := True, pl_loop_drag_handle := BodyHandle,
                              pl_loop_preview_start_ticks := sat_sub raw_tick (pl_loop_start_ticks s),
                              pl_loop_preview_end_ticks := loop_length_ticks s\<rparr>
                       else s\<lparr>pl_loop_start_ticks := snapped_tick,
                              pl_loop_end_ticks := sat_add snapped_tick (max snap_val ppqn),
                              pl_loop_region_active := True, pl_loop_dragging := True,
                              pl_loop_drag_handle := RightHandle\<rparr>, [])
         else (s\<lparr>pl_playhead_tick := raw_tick\<rparr>, [Seek (ticks_to_samples_precise raw_tick ppqn bpm sr)]))"

definition ruler_mouse_move :: "f32 \<Rightarrow> f32 \<Rightarrow> f32 \<Rightarrow> PlaylistState \<Rightarrow> PlaylistState" where
  "ruler_mouse_move scroll_x cursor_x origin_x s =
     (if \<not> pl_loop_dragging s then s
      else let ppqn = max (pl_ppqn s) 1;
               snap_val = max (snap_step_ticks ppqn (pl_grid_denominator s)) 1;
               min_len = max snap_val ppqn;
               local_x = fmax (fsub F32 (fsub F32 cursor_x origin_x) scroll_x) (Num 0);
               raw_tick = px_to_ticks local_x (pl_zoom_x s);
               snapped = snap_ticks raw_tick snap_val
           in case pl_loop_drag_handle s of
                LeftHandle \<Rightarrow> s\<lparr>pl_loop_start_ticks := min snapped (sat_sub (pl_loop_end_ticks s) min_len)\<rparr>
              | RightHandle \<Rightarrow> s\<lparr>pl_loop_end_ticks := max snapped (sat_add (pl_loop_start_ticks s) min_len)\<rparr>
              | BodyHandle \<Rightarrow>
                  let len = max (pl_loop_preview_end_ticks s) min_len;
                      new_start = snap_ticks (sat_sub raw_tick (pl_loop_preview_start_ticks s)) snap_val
                  in s\<lparr>pl_loop_start_ticks := new_start, pl_loop_end_ticks := sat_add new_start len\<rparr>
              | NoHandle \<Rightarrow> s)"

definition finish_ruler_drag :: "PlaylistState \<Rightarrow> PlaylistState" where
  "finish_ruler_drag s =
     (if pl_loop_dragging s
      then s\<lparr>pl_loop_dragging := False, pl_loop_drag_handle := NoHandle, pl_loop_drag_completed := True\<rparr>
      else s)"

end
