(* ===== verification/PlaylistEdit.thy ===== *)
theory PlaylistEdit
  imports GuiPlaylist
begin

text \<open>
  What the edits of the timeline promise: trimming a clip, pasting and duplicating the selection,
  and the gestures of the ruler (crates/hikaru_gui/src/views/playlist.rs).
\<close>

section \<open>Trimming\<close>

lemma clamp_ord_None [simp]: "clamp_ord x lo hi = None \<longleftrightarrow> hi < lo"
  by (simp add: clamp_ord_def)

lemma clamp_ord_Some: "clamp_ord x lo hi = Some y \<longleftrightarrow> lo \<le> hi \<and> y = max lo (min x hi)"
  by (auto simp: clamp_ord_def not_less split: if_splits)

text \<open>
  Trimming the right edge moves the end only: the clip keeps start and offset, is never shorter
  than the minimum, and never reaches past the end of its sample (unless the minimum does).
\<close>

lemma trim_right_spec:
  assumes "trim_apply st du off tot RightEdge edge grid mn = Some (st', du', off')"
    and "unat st + max (unat mn) (unat tot - unat off) < 2 ^ 64"
  shows "st' = st" "off' = off" "unat mn \<le> unat du'" "unat du' \<le> max (unat mn) (unat tot - unat off)"
proof -
  have du: "du' = max (sat_sub (min (max edge (sat_add st mn)) (max (sat_add st (sat_sub tot off)) (sat_add st mn))) st) mn"
    and "st' = st" "off' = off"
    using assms(1) by (auto simp: trim_apply_def Let_def)
  then show "st' = st" "off' = off" by simp_all
  have "unat du' = max (min (max (unat edge) (unat st + unat mn)) (max (unat st + (unat tot - unat off)) (unat st + unat mn)) - unat st) (unat mn)"
    unfolding du using assms(2) by (simp add: nat_of_word)
  then show "unat mn \<le> unat du'" "unat du' \<le> max (unat mn) (unat tot - unat off)" by linarith+
qed

text \<open>
  Trimming the left edge fixes the end of the clip.  The offset into the sample moves with the
  start only to the right; dragged to the left of where it was, the clip starts earlier with the
  same offset, so what it plays slides.  The start is clamped to the offset, a position in the
  sample, as if it were one on the timeline: a clip whose offset exceeds its end panics.
\<close>

lemma trim_left_spec:
  assumes "trim_apply st du off tot LeftEdge edge grid mn = Some (st', du', off')"
    and "unat st + unat du < 2 ^ 64" "unat off + unat du < 2 ^ 64" "unat mn \<le> unat du"
  shows "off \<le> st'" "unat st' + unat du' = unat st + unat du" "unat mn \<le> unat du'"
    "unat off' = unat off + (unat st' - unat st)"
proof -
  have st: "st' = max off (min edge (sat_sub (sat_add st du) mn))" "off \<le> sat_sub (sat_add st du) mn"
    and du: "du' = max (sat_sub (sat_add st du) st') mn" and off: "off' = sat_add off (sat_sub st' st)"
    using assms(1) by (auto simp: trim_apply_def Let_def clamp_ord_Some split: option.splits)
  show "off \<le> st'" unfolding st by simp
  have st': "unat off \<le> unat st + unat du - unat mn" "unat st' = max (unat off) (min (unat edge) (unat st + unat du - unat mn))"
    using st(2) assms(2) unfolding st(1) by (simp_all add: nat_of_word word_le_nat_alt)
  moreover have "unat du' = max (unat st + unat du - unat st') (unat mn)"
    unfolding du using assms(2) by (simp add: nat_of_word)
  ultimately show "unat st' + unat du' = unat st + unat du" "unat mn \<le> unat du'"
    using assms(4) by linarith+
  have "unat off + (unat st' - unat st) < 2 ^ 64" using st' assms(3) by linarith
  then show "unat off' = unat off + (unat st' - unat st)"
    unfolding off by (simp add: nat_of_word)
qed

text \<open>
  Trimming the left edge panics exactly when the offset into the sample lies behind the last
  position the start may take; otherwise the end of the clip stays, the clip keeps its minimum,
  and the sample stays in place under it if and only if the start did not move to the left.
\<close>

lemma trim_left_content:
  assumes "unat st + unat du < 2 ^ 64" "unat off + unat du < 2 ^ 64" "unat mn \<le> unat du"
  shows "(trim_apply st du off tot LeftEdge edge grid mn = None \<longleftrightarrow> unat st + unat du - unat mn < unat off)
    \<and> (\<forall>st' du' off'. trim_apply st du off tot LeftEdge edge grid mn = Some (st', du', off') \<longrightarrow>
          unat st' + unat du' = unat st + unat du \<and> unat mn \<le> unat du'
          \<and> ((int (unat off') - int (unat st') = int (unat off) - int (unat st)) \<longleftrightarrow> st \<le> st'))"
proof (intro conjI allI impI)
  show "trim_apply st du off tot LeftEdge edge grid mn = None \<longleftrightarrow> unat st + unat du - unat mn < unat off"
  proof -
    have "trim_apply st du off tot LeftEdge edge grid mn = None \<longleftrightarrow> sat_sub (sat_add st du) mn < off"
      by (auto simp: trim_apply_def Let_def clamp_ord_Some split: option.split)
    then show ?thesis using assms(1) by (simp add: nat_of_word word_less_nat_alt)
  qed
next
  fix st' du' off' assume t: "trim_apply st du off tot LeftEdge edge grid mn = Some (st', du', off')"
  note spec = trim_left_spec[OF t assms]
  show "unat st' + unat du' = unat st + unat du" "unat mn \<le> unat du'" by (fact spec(2,3))+
  show "(int (unat off') - int (unat st') = int (unat off) - int (unat st)) \<longleftrightarrow> st \<le> st'"
    unfolding spec(4) word_le_nat_alt by linarith
qed

lemma trim_left_content_witness:
  "trim_apply 480 960 2000 4000 LeftEdge 0 240 240 = None
   \<and> trim_apply 1920 960 480 4000 LeftEdge 960 240 240 = Some (960, 1920, 480)
   \<and> int (unat (480 :: u64)) - int (unat (960 :: u64)) \<noteq> int (unat (480 :: u64)) - int (unat (1920 :: u64))"
proof (intro conjI)
  show "trim_apply 480 960 2000 4000 LeftEdge 0 240 240 = None"
    using trim_left_content[of 480 960 2000 240 4000 0 240] by simp
  show t: "trim_apply 1920 960 480 4000 LeftEdge 960 240 240 = Some (960, 1920, 480)"
    by (simp add: trim_apply_def Let_def clamp_ord_def sat_add_def sat_sub_def)
  show "int (unat (480 :: u64)) - int (unat (960 :: u64)) \<noteq> int (unat (480 :: u64)) - int (unat (1920 :: u64))"
    using trim_left_content[of 1920 960 480 240 4000 960 240] t by simp
qed

section \<open>Pasting and duplicating\<close>

definition clip_ids :: "PlaylistState \<Rightarrow> usize set" where
  "clip_ids s = (\<lambda>(_, c). pc_id c) ` set (pl_clips s)"

lemma fold_max_ge: "m \<le> fold (\<lambda>(_, c) m. max m (f c)) xs m" for m :: "'a::linorder"
  by (induction xs arbitrary: m) (auto intro: order_trans[OF max.cobounded1])

lemma fold_max_upper: "(k, c) \<in> set xs \<Longrightarrow> f c \<le> fold (\<lambda>(_, c) m. max m (f c)) xs m" for m :: "'a::linorder"
proof (induction xs arbitrary: m)
  case (Cons x xs)
  then show ?case
    by (auto intro: order_trans[OF max.cobounded2 fold_max_ge])
qed simp

lemma fold_max_least: "m \<le> b \<Longrightarrow> (\<And>k c. (k, c) \<in> set xs \<Longrightarrow> f c \<le> b) \<Longrightarrow> fold (\<lambda>(_, c) m. max m (f c)) xs m \<le> b"
  for m :: "'a::linorder"
proof (induction xs arbitrary: m)
  case (Cons x xs)
  obtain k c where x: "x = (k, c)" by force
  have "max m (f c) \<le> b" using Cons.prems(1) Cons.prems(2)[of k c] by (simp add: x)
  moreover have "f c' \<le> b" if "(k', c') \<in> set xs" for k' c' using Cons.prems(2)[of k' c'] that by simp
  ultimately have "fold (\<lambda>(_, c) m. max m (f c)) xs (max m (f c)) \<le> b" by (rule Cons.IH)
  then show ?case by (simp add: x)
qed simp

text \<open>How far the identifiers of a state reach.\<close>

definition id_bound :: "PlaylistState \<Rightarrow> nat" where
  "id_bound s = unat (next_free_clip_id s - 1)"

lemma id_bound:
  "i \<in> clip_ids s \<Longrightarrow> unat i \<le> id_bound s" "unat (pl_next_clip_id s) \<le> id_bound s"
  "id_bound s + 1 < 2 ^ 64 \<Longrightarrow> unat (next_free_clip_id s) = id_bound s + 1"
proof -
  define m where "m = max (fold (\<lambda>(_, c) m. max m (pc_id c)) (pl_clips s) 0) (pl_next_clip_id s)"
  have n: "next_free_clip_id s = m + 1" "id_bound s = unat m"
    by (simp_all add: next_free_clip_id_def m_def id_bound_def)
  show "unat (pl_next_clip_id s) \<le> id_bound s"
    unfolding n m_def by (simp add: nat_of_word)
  show "i \<in> clip_ids s \<Longrightarrow> unat i \<le> id_bound s"
    using fold_max_upper[of _ _ "pl_clips s" pc_id 0] unfolding n m_def clip_ids_def
    by (auto simp: nat_of_word word_le_nat_alt le_max_iff_disj)
  show "id_bound s + 1 < 2 ^ 64 \<Longrightarrow> unat (next_free_clip_id s) = id_bound s + 1"
    unfolding n by (simp add: unat_word_ariths)
qed

text \<open>A copy made under an identifier.\<close>

definition copy_of :: "u64 \<Rightarrow> u64 \<Rightarrow> usize \<times> PlaylistClip \<Rightarrow> usize \<Rightarrow> usize \<times> PlaylistClip" where
  "copy_of delta grid kc i = (fst kc, (snd kc)\<lparr>pc_id := i,
     pc_start_tick := snap_ticks (sat_add (pc_start_tick (snd kc)) delta) grid\<rparr>)"

lemma insert_copies_spec:
  assumes "insert_copies delta grid cs s = (ids, s')" "id_bound s + 2 * length cs < 2 ^ 64"
  shows "pl_clips s' = pl_clips s @ map2 (copy_of delta grid) cs ids \<and> length ids = length cs
    \<and> distinct ids \<and> (\<forall>i \<in> set ids. id_bound s < unat i) \<and> pl_clipboard s' = pl_clipboard s"
  using assms
proof (induction cs arbitrary: s ids s')
  case Nil
  then show ?case by simp
next
  case (Cons kc cs)
  obtain k c where kc: "kc = (k, c)" by force
  let ?i = "next_free_clip_id s"
  let ?s = "s\<lparr>pl_clips := pl_clips s @ [copy_of delta grid kc ?i], pl_next_clip_id := max (pl_next_clip_id s) (?i + 1)\<rparr>"
  obtain ids' where ids': "ids = ?i # ids'" "insert_copies delta grid cs ?s = (ids', s')"
    using Cons.prems(1) by (auto simp: kc copy_of_def Let_def split: prod.splits)
  have room: "id_bound s + 2 * length (kc # cs) < 2 ^ 64" by (fact Cons.prems(2))
  have i: "unat ?i = id_bound s + 1" using id_bound(3)[of s] room by simp
  have i1: "unat (?i + 1) = id_bound s + 2"
    using i room by (simp add: unat_word_ariths)
  have "next_free_clip_id ?s - 1 = max (max (fold (\<lambda>(_, c) m. max m (pc_id c)) (pl_clips s) 0) ?i) (max (pl_next_clip_id s) (?i + 1))"
    by (simp add: next_free_clip_id_def copy_of_def)
  also have "\<dots> = ?i + 1"
  proof -
    have "pc_id c \<le> ?i" if "(k, c) \<in> set (pl_clips s)" for k c
    proof -
      from that have "pc_id c \<in> clip_ids s" unfolding clip_ids_def by force
      from id_bound(1)[OF this] i show ?thesis by (simp add: word_le_nat_alt)
    qed
    then have "fold (\<lambda>(_, c) m. max m (pc_id c)) (pl_clips s) 0 \<le> ?i"
      by (intro fold_max_least) auto
    moreover have "pl_next_clip_id s \<le> ?i"
      using i id_bound(2)[of s] by (simp add: word_le_nat_alt)
    moreover have "?i \<le> ?i + 1" using i i1 by (simp add: word_le_nat_alt)
    ultimately show ?thesis by (simp add: max_absorb2)
  qed
  finally have b: "id_bound ?s = id_bound s + 2"
    unfolding id_bound_def[of ?s] i1[symmetric] by (rule arg_cong)
  have "id_bound ?s + 2 * length cs < 2 ^ 64" using b room by simp
  from Cons.IH[OF ids'(2) this] b i show ?case by (auto simp: ids'(1))
qed

lemma fold_span:
  fixes lo hi :: u64
  shows "fold (\<lambda>(_, c) (lo, hi). (min lo (pc_start_tick c), max hi (sat_add (pc_start_tick c) (pc_duration_ticks c)))) cs (lo, hi)
    = (fold min (map (pc_start_tick \<circ> snd) cs) lo,
       fold max (map (\<lambda>kc. sat_add (pc_start_tick (snd kc)) (pc_duration_ticks (snd kc))) cs) hi)"
  by (induction cs arbitrary: lo hi) (auto simp: split_beta min.commute max.commute)

lemma fold_min_in: "fold min xs (a :: 'a::linorder) \<in> insert a (set xs) \<and> (\<forall>x \<in> insert a (set xs). fold min xs a \<le> x)"
proof (induction xs arbitrary: a)
  case (Cons x xs)
  from Cons[of "min x a"] show ?case by (auto simp: min_def split: if_splits)
qed simp

text \<open>The first tick of a non-empty selection: the least start.\<close>

lemma selection_span_min:
  assumes "cs \<noteq> []" "\<forall>(k, c) \<in> set cs. pc_start_tick c \<noteq> - 1"
  shows "(\<exists>(k, c) \<in> set cs. pc_start_tick c = fst (selection_span cs))
    \<and> (\<forall>(k, c) \<in> set cs. fst (selection_span cs) \<le> pc_start_tick c)"
proof -
  let ?xs = "map (pc_start_tick \<circ> snd) cs"
  let ?m = "fold min ?xs (- 1)"
  have le: "\<forall>x \<in> set ?xs. ?m \<le> x" and m: "?m \<in> insert (- 1) (set ?xs)" using fold_min_in[of ?xs "- 1"] by auto
  have ne: "?m \<noteq> - 1"
  proof
    assume "?m = - 1"
    moreover obtain x where "x \<in> set ?xs" using assms(1) by (cases cs) auto
    ultimately have "x \<in> set ?xs" "- 1 \<le> x" using le by auto
    then have "x = - 1" by (meson antisym_conv word_order.extremum)
    with \<open>x \<in> set ?xs\<close> show False using assms(2) by auto
  qed
  then have "fst (selection_span cs) = ?m"
    by (simp add: selection_span_def fold_span comp_def)
  moreover obtain kc where "kc \<in> set cs" "?m = pc_start_tick (snd kc)" using ne m by auto
  ultimately show ?thesis using le by (auto simp: split_beta intro!: bexI[of _ kc])
qed

lemma snap_ticks_id:
  assumes "unat grid dvd unat t" "unat t < 2 ^ 53"
  shows "snap_ticks t grid = t"
proof (cases "grid = 0")
  case False
  then have g: "0 < unat grid" by (simp add: unat_gt_0)
  obtain k where k: "unat t = unat grid * k" using assms(1) by (elim dvdE)
  define q where "q = word_of_nat k * (1 :: u64)"
  have kt: "k \<le> unat t" using k g by simp
  have num: "of_u64 F64 t = Num (of_nat (unat t))"
    by (rule of_u64_exact[OF assms(2)])
  have kd: "(of_nat (unat t) :: rat) = of_nat (unat grid) * of_nat k" unfolding k by (rule of_nat_mult)
  show ?thesis
  proof (cases "t = 0")
    case True
    then have "k = 0" using k g by auto
    have "fdiv F64 (of_u64 F64 (0 :: u64)) (of_u64 F64 grid) = Num 0"
      using of_u64_ge_1[OF False, of F64] of_u64_bounds[of F64 grid]
      by (auto simp: fdiv_def of_u64_def mk_def)
    then show ?thesis using True False by (simp add: snap_ticks_def sat_mul_def)
  next
    case t0: False
    then have "unat grid \<le> unat t" using assms(1) by (intro dvd_imp_le) (auto simp: unat_gt_0)
    then have numg: "of_u64 F64 grid = Num (of_nat (unat grid))"
      using assms(2) by (intro of_u64_exact) linarith
    have "round_q F64 (of_nat k) = of_nat k"
      using kt assms(2) by (intro round_q_of_nat) linarith
    then have "mk F64 False (of_nat k) = Num (of_nat k)"
      using kt assms(2) by (auto simp: mk_def Let_def)
    then have div: "fdiv F64 (of_u64 F64 t) (of_u64 F64 grid) = Num (of_nat k)"
      using g unfolding num numg fdiv_def by (simp add: kd not_less del: of_nat_unat)
    have "\<lfloor>(of_nat k :: rat) + 1 / 2\<rfloor> = int k" by (rule floor_unique) auto
    then have r: "fround (Num (of_nat k)) = Num (of_nat k)" by simp
    have "(of_nat k :: rat) \<le> of_nat (2 ^ 53)" using kt assms(2) by (simp only: of_nat_le_iff)
    then have w: "(to_word (fround (Num (of_nat k))) :: u64) = word_of_nat k"
      unfolding r by auto
    have "unat (word_of_nat k :: u64) = k"
      using kt unat64_lt[of t] by (simp add: unat_of_nat)
    then have "unat (sat_mul (word_of_nat k) grid) = unat t"
      using k unat64_lt[of t] by (simp add: sat_mul_def unat_word_ariths mult.commute)
    then have "sat_mul (word_of_nat k) grid = t" by (simp add: word_eq_nat)
    then show ?thesis unfolding snap_ticks_def div w using False by simp
  qed
qed (simp add: snap_ticks_def)


lemma paste_clips_lemma:
  assumes paste: "paste_clips at_tick grid keys s = (ids, s')" and some: "pl_clipboard s \<noteq> []"
    and starts: "\<forall>(k, c) \<in> set (pl_clipboard s). pc_start_tick c \<noteq> - 1"
    and room: "id_bound s + 2 * length (pl_clipboard s) < 2 ^ 64"
  shows "\<exists>m. (\<exists>(k, c) \<in> set (pl_clipboard s). pc_start_tick c = m) \<and> (\<forall>(k, c) \<in> set (pl_clipboard s). m \<le> pc_start_tick c)
    \<and> pl_clips s' = pl_clips s @ map2 (copy_of (sat_sub at_tick m) grid) (filter (\<lambda>(k, _). k \<in> set keys) (pl_clipboard s)) ids
    \<and> length ids = length (filter (\<lambda>(k, _). k \<in> set keys) (pl_clipboard s)) \<and> distinct ids \<and> set ids \<inter> clip_ids s = {}
    \<and> pl_selected_clips s' = ids \<and> (at_tick \<le> m \<longrightarrow> (\<forall>kc i. copy_of (sat_sub at_tick m) grid kc i
          = (fst kc, (snd kc)\<lparr>pc_id := i, pc_start_tick := snap_ticks (pc_start_tick (snd kc)) grid\<rparr>)))"
proof -
  define cs where "cs = filter (\<lambda>(k, _). k \<in> set keys) (pl_clipboard s)"
  define m where "m = fst (selection_span (pl_clipboard s))"
  have m: "(\<exists>(k, c) \<in> set (pl_clipboard s). pc_start_tick c = m) \<and> (\<forall>(k, c) \<in> set (pl_clipboard s). m \<le> pc_start_tick c)"
    unfolding m_def by (rule selection_span_min[OF some starts])
  obtain s1 where s1: "insert_copies (sat_sub at_tick m) grid cs s = (ids, s1)" "s' = s1\<lparr>pl_selected_clips := ids\<rparr>"
    using paste some unfolding m_def cs_def by (auto simp: paste_clips_def split: prod.splits)
  have "length cs \<le> length (pl_clipboard s)" unfolding cs_def by (rule length_filter_le)
  then have "id_bound s + 2 * length cs < 2 ^ 64" using room by linarith
  note spec = insert_copies_spec[OF s1(1) this]
  have "set ids \<inter> clip_ids s = {}" using spec id_bound(1)[of _ s] by fastforce
  moreover have "at_tick \<le> m \<Longrightarrow> copy_of (sat_sub at_tick m) grid kc i
          = (fst kc, (snd kc)\<lparr>pc_id := i, pc_start_tick := snap_ticks (pc_start_tick (snd kc)) grid\<rparr>)" for kc i
  proof -
    assume "at_tick \<le> m"
    then have "sat_sub at_tick m = 0" by (simp add: word_eq_nat nat_of_word word_le_nat_alt)
    moreover have "sat_add x 0 = x" for x :: u64 using unat64_less[of x] by (simp add: sat_add_def)
    ultimately show ?thesis by (simp add: copy_of_def)
  qed
  ultimately show ?thesis using m spec s1(2) unfolding cs_def[symmetric] by (intro exI[of _ m]) auto
qed


text \<open>
  Pasting puts a copy of every clipboard clip whose track still exists behind the clips that were
  there, under fresh distinct identifiers, and selects the copies.  A copy starts \<open>at - m\<close> later than
  its original, where \<open>m\<close> is the first tick of the clipboard, snapped on its own; when the paste
  position lies before \<open>m\<close> the copy lands on its original instead of at the position.
\<close>

lemma paste_clips_spec:
  assumes paste: "paste_clips at_tick grid keys s = (ids, s')" and some: "pl_clipboard s \<noteq> []"
    and starts: "\<forall>(k, c) \<in> set (pl_clipboard s). pc_start_tick c \<noteq> - 1"
    and room: "id_bound s + 2 * length (pl_clipboard s) < 2 ^ 64"
  shows "\<exists>m. (\<exists>(k, c) \<in> set (pl_clipboard s). pc_start_tick c = m) \<and> (\<forall>(k, c) \<in> set (pl_clipboard s). m \<le> pc_start_tick c)
    \<and> pl_clips s' = pl_clips s @ map2 (copy_of (sat_sub at_tick m) grid) (filter (\<lambda>(k, _). k \<in> set keys) (pl_clipboard s)) ids
    \<and> length ids = length (filter (\<lambda>(k, _). k \<in> set keys) (pl_clipboard s)) \<and> distinct ids \<and> set ids \<inter> clip_ids s = {}
    \<and> pl_selected_clips s' = ids \<and> (at_tick \<le> m \<longrightarrow> (\<forall>kc i. copy_of (sat_sub at_tick m) grid kc i
          = (fst kc, (snd kc)\<lparr>pc_id := i, pc_start_tick := snap_ticks (pc_start_tick (snd kc)) grid\<rparr>)))"
  by (rule paste_clips_lemma[OF assms])

definition demo_clip :: "usize \<Rightarrow> u64 \<Rightarrow> PlaylistClip" where
  "demo_clip i t = \<lparr> pc_id = i, pc_name = ''a'', pc_start_tick = t, pc_duration_ticks = 480,
     pc_clip_type = AudioClip ''a.wav'' [] 0 480, pc_color = (Num 0, Num 0, Num 0, Num 1) \<rparr>"

definition demo_playlist :: PlaylistState where
  "demo_playlist = playlist_default\<lparr>pl_clips := [(1, demo_clip 5 960)], pl_selected_clips := [5],
     pl_clipboard := [(1, demo_clip 5 960)]\<rparr>"

lemma demo_room: "id_bound demo_playlist + 2 * length (pl_clipboard demo_playlist) < 2 ^ 64"
  by (simp add: id_bound_def next_free_clip_id_def demo_playlist_def playlist_default_def demo_clip_def)

lemma paste_clips_spec_witness:
  "\<exists>ids s'. paste_clips 0 960 [1] demo_playlist = (ids, s') \<and> length ids = 1 \<and> set ids \<inter> clip_ids demo_playlist = {}
    \<and> map (\<lambda>(k, c). pc_start_tick c) (pl_clips s') = [960, 960]"
proof -
  obtain ids s' where r: "paste_clips 0 960 [1] demo_playlist = (ids, s')" by force
  have c: "pl_clipboard demo_playlist = [(1, demo_clip 5 960)]" by (simp add: demo_playlist_def)
  obtain m where m: "\<exists>(k, c) \<in> set (pl_clipboard demo_playlist). pc_start_tick c = m"
    and cl: "pl_clips s' = pl_clips demo_playlist @ map2 (copy_of (sat_sub 0 m) 960) (filter (\<lambda>(k, _). k \<in> set [1]) (pl_clipboard demo_playlist)) ids"
    and len: "length ids = length (filter (\<lambda>(k, _). k \<in> set [1]) (pl_clipboard demo_playlist))"
    and fresh: "set ids \<inter> clip_ids demo_playlist = {}"
    and cp: "0 \<le> m \<longrightarrow> (\<forall>kc i. copy_of (sat_sub 0 m) 960 kc i = (fst kc, (snd kc)\<lparr>pc_id := i, pc_start_tick := snap_ticks (pc_start_tick (snd kc)) 960\<rparr>))"
    using paste_clips_spec[OF r _ _ demo_room] by (auto simp: c demo_clip_def)
  have "m = 960" using m by (simp add: c demo_clip_def)
  have snap: "snap_ticks 960 960 = 960" by (rule snap_ticks_id) simp_all
  obtain i where i: "ids = [i]" using len by (auto simp: c length_Suc_conv)
  have "pl_clips s' = [(1, demo_clip 5 960), copy_of (sat_sub 0 m) 960 (1, demo_clip 5 960) i]"
    using cl by (simp add: c i) (simp add: demo_playlist_def)
  then have "map (\<lambda>(k, c). pc_start_tick c) (pl_clips s') = [960, 960]"
    using cp snap by (simp add: demo_clip_def)
  with r i fresh show ?thesis by fastforce
qed

text \<open>What a clip is apart from its identifier.\<close>

definition shape :: "usize \<times> PlaylistClip \<Rightarrow> usize \<times> PlaylistClip" where
  "shape kc = (fst kc, (snd kc)\<lparr>pc_id := 0\<rparr>)"

lemma cut_selected_clips_spec:
  assumes "cut_selected_clips s = (n, s')" "0 < n"
  shows "n = length (picked s)" "pl_clipboard s' = picked s" "pl_selected_clips s' = []"
    "pl_clips s' = filter (\<lambda>(_, c). pc_id c \<notin> set (pl_selected_clips s)) (pl_clips s)"
    "id_bound s' \<le> id_bound s"
proof -
  show "n = length (picked s)" "pl_clipboard s' = picked s" "pl_selected_clips s' = []"
    and cl: "pl_clips s' = filter (\<lambda>(_, c). pc_id c \<notin> set (pl_selected_clips s)) (pl_clips s)"
    using assms by (auto simp: cut_selected_clips_def copy_selected_clips_def split: if_splits)
  have next_id: "pl_next_clip_id s' = pl_next_clip_id s"
    using assms by (auto simp: cut_selected_clips_def copy_selected_clips_def split: if_splits)
  let ?f = "\<lambda>cs. fold (\<lambda>(_, c) m. max m (pc_id c)) cs (0 :: usize)"
  have "?f (pl_clips s') \<le> ?f (pl_clips s)"
    by (rule fold_max_least) (auto simp: cl intro: fold_max_upper)
  then have "max (?f (pl_clips s')) (pl_next_clip_id s) \<le> max (?f (pl_clips s)) (pl_next_clip_id s)"
    by (intro max.mono order_refl)
  then show "id_bound s' \<le> id_bound s"
    by (simp only: id_bound_def next_free_clip_id_def next_id add_diff_cancel_right' word_le_nat_alt)
qed

lemma mset_partition: "mset (filter P xs) + mset (filter (\<lambda>x. \<not> P x) xs) = mset xs"
  by (induction xs) auto

text \<open>
  Cutting the selection and pasting it back at its first tick restores the timeline up to
  identifiers, provided its tracks are still there and its clips lie on the grid.
\<close>

lemma cut_paste_restores:
  assumes cut: "cut_selected_clips s = (n, s1)" "0 < n"
    and paste: "paste_clips m grid keys s1 = (ids, s2)"
    and m: "\<exists>(k, c) \<in> set (picked s). pc_start_tick c = m" "\<forall>(k, c) \<in> set (picked s). m \<le> pc_start_tick c"
    and clips: "\<forall>(k, c) \<in> set (picked s). k \<in> set keys \<and> unat grid dvd unat (pc_start_tick c) \<and> unat (pc_start_tick c) < 2 ^ 53"
    and room: "id_bound s + 2 * length (picked s) < 2 ^ 64"
  shows "mset (map shape (pl_clips s2)) = mset (map shape (pl_clips s))"
proof -
  note c = cut_selected_clips_spec[OF cut]
  have room1: "id_bound s1 + 2 * length (pl_clipboard s1) < 2 ^ 64" using c(2,5) room by simp
  have small: "pc_start_tick c \<noteq> - 1" if "(k, c) \<in> set (picked s)" for k c
    using clips that by (force simp: unsigned_minus_1_eq_mask mask_eq_exp_minus_1)
  have some: "pl_clipboard s1 \<noteq> []" and starts: "\<forall>(k, c) \<in> set (pl_clipboard s1). pc_start_tick c \<noteq> - 1"
    using cut(2) c(1,2) small by auto
  obtain m' where m': "\<exists>(k, c) \<in> set (picked s). pc_start_tick c = m'" "\<forall>(k, c) \<in> set (picked s). m' \<le> pc_start_tick c"
    and cl: "pl_clips s2 = pl_clips s1 @ map2 (copy_of (sat_sub m m') grid) (filter (\<lambda>(k, _). k \<in> set keys) (picked s)) ids"
      "length ids = length (filter (\<lambda>(k, _). k \<in> set keys) (picked s))"
    and cp: "m \<le> m' \<longrightarrow> (\<forall>kc i. copy_of (sat_sub m m') grid kc i = (fst kc, (snd kc)\<lparr>pc_id := i, pc_start_tick := snap_ticks (pc_start_tick (snd kc)) grid\<rparr>))"
    using paste_clips_lemma[OF paste some starts room1] unfolding c(2) by (elim exE conjE) (rule that)
  obtain k1 c1 k2 c2 where "(k1, c1) \<in> set (picked s)" "pc_start_tick c1 = m" "(k2, c2) \<in> set (picked s)" "pc_start_tick c2 = m'"
    using m(1) m'(1) by blast
  then have "m' = m" using m(2) m'(2) by (intro antisym) auto
  have all: "filter (\<lambda>(k, _). k \<in> set keys) (picked s) = picked s"
    using clips by (auto simp: filter_id_conv)
  have "shape (copy_of (sat_sub m m') grid kc i) = shape kc" if "kc \<in> set (picked s)" for kc i
    using cp clips that snap_ticks_id[of grid "pc_start_tick (snd kc)"] unfolding \<open>m' = m\<close>
    by (cases kc) (auto simp: shape_def split_beta)
  then have "map shape (map2 (copy_of (sat_sub m m') grid) (picked s) ids) = map shape (picked s)"
    using cl(2) unfolding all by (auto simp: list_eq_iff_nth_eq)
  then have "mset (map shape (pl_clips s2)) = image_mset shape (mset (pl_clips s1) + mset (picked s))"
    unfolding cl(1) all by simp
  also have "mset (pl_clips s1) + mset (picked s) = mset (pl_clips s)"
    using mset_partition[of "\<lambda>(_, c). pc_id c \<in> set (pl_selected_clips s)" "pl_clips s"]
    by (simp add: c(4) picked_def split_beta add.commute)
  finally show ?thesis by simp
qed


lemma cut_paste_restores_witness:
  "mset (map shape (pl_clips (snd (paste_clips 960 960 [1] (snd (cut_selected_clips demo_playlist))))))
   = {#shape (1, demo_clip 5 960)#}"
proof -
  have p: "picked demo_playlist = [(1, demo_clip 5 960)]"
    by (simp add: picked_def demo_playlist_def demo_clip_def)
  obtain n s1 where c: "cut_selected_clips demo_playlist = (n, s1)" by force
  then have "0 < n" using p by (auto simp: cut_selected_clips_def copy_selected_clips_def demo_playlist_def split: if_splits)
  obtain ids s2 where r: "paste_clips 960 960 [1] s1 = (ids, s2)" by force
  have "mset (map shape (pl_clips s2)) = mset (map shape (pl_clips demo_playlist))"
  proof (rule cut_paste_restores[OF c \<open>0 < n\<close> r])
    have "length (pl_clipboard demo_playlist) = length (picked demo_playlist)"
      unfolding p by (simp add: demo_playlist_def)
    then show "id_bound demo_playlist + 2 * length (picked demo_playlist) < 2 ^ 64" using demo_room by simp
  qed (simp_all add: p demo_clip_def)
  then show ?thesis using c r by (simp add: demo_playlist_def)
qed

section \<open>The loop region\<close>

text \<open>An active region is at least a beat long.\<close>

definition loop_ok :: "PlaylistState \<Rightarrow> bool" where
  "loop_ok s \<longleftrightarrow> (pl_loop_region_active s \<longrightarrow>
     unat (pl_loop_start_ticks s) + unat (max (pl_ppqn s) 1) \<le> unat (pl_loop_end_ticks s))"

lemma loop_ok_valid: "loop_ok s \<Longrightarrow> pl_loop_region_active s \<Longrightarrow> is_loop_region_valid s"
proof -
  have "1 \<le> unat (max (pl_ppqn s) 1)" by (simp add: nat_of_word)
  then show "loop_ok s \<Longrightarrow> pl_loop_region_active s \<Longrightarrow> is_loop_region_valid s"
    unfolding loop_ok_def is_loop_region_valid_def word_less_nat_alt by linarith
qed

lemma ensure_minimum_global_loop_ok:
  assumes "unat (pl_loop_start_ticks s) + 4 * unat (max (pl_ppqn s) 1) < 2 ^ 64" "\<not> pl_loop_dragging s"
  shows "loop_ok (ensure_minimum_global_loop True s)" "pl_loop_region_active (ensure_minimum_global_loop True s)"
proof -
  define p where "p = unat (max (pl_ppqn s) 1)"
  have p: "1 \<le> p" unfolding p_def by (simp add: nat_of_word)
  have four: "unat (sat_mul 4 (max (pl_ppqn s) 1)) = 4 * p"
    using assms(1) unfolding p_def sat_mul_def by (simp add: unat_word_ariths)
  let ?s = "ensure_minimum_global_loop True s"
  have "pl_loop_region_active ?s \<and> unat (pl_loop_start_ticks ?s) + p \<le> unat (pl_loop_end_ticks ?s)"
  proof (cases "\<not> pl_loop_region_active s \<or> pl_loop_end_ticks s \<le> pl_loop_start_ticks s \<or> loop_length_ticks s < max (pl_ppqn s) 1")
    case True
    define e1 where "e1 = max (total_project_ticks s) (sat_mul 4 (max (pl_ppqn s) 1))"
    have e1: "4 * p \<le> unat e1" unfolding e1_def by (simp add: nat_of_word four)
    then have "\<not> e1 \<le> 0" "\<not> sat_sub e1 0 < max (pl_ppqn s) 1" "0 < e1"
      using p by (auto simp: word_le_nat_alt word_less_nat_alt unat_sat_sub p_def[symmetric])
    then have "?s = s\<lparr>pl_loop_start_ticks := 0, pl_loop_end_ticks := e1, pl_loop_preview_start_ticks := 0,
        pl_loop_preview_end_ticks := e1, pl_loop_region_active := True, pl_loop_drag_completed := True\<rparr>"
      using True assms(2) by (simp add: ensure_minimum_global_loop_def Let_def e1_def[symmetric])
    then show ?thesis using e1 p by simp
  next
    case False
    then have "?s = s\<lparr>pl_loop_region_active := True\<rparr>" "unat (pl_loop_start_ticks s) + p \<le> unat (pl_loop_end_ticks s)"
      using assms(2) p
      by (auto simp: ensure_minimum_global_loop_def sanitize_loop_region_def Let_def loop_length_ticks_def
          word_le_nat_alt word_less_nat_alt unat_sat_sub p_def[symmetric] intro!: PlaylistState.equality)
    then show ?thesis by simp
  qed
  moreover have "pl_ppqn ?s = pl_ppqn s"
    by (simp add: ensure_minimum_global_loop_def sanitize_loop_region_def Let_def)
  ultimately show "loop_ok ?s" "pl_loop_region_active ?s" by (simp_all add: loop_ok_def p_def)
qed

lemma left_handle_ok:
  fixes st en snapped beat min_len :: u64
  assumes "unat st + unat beat \<le> unat en" "beat \<le> min_len"
  shows "unat (min snapped (sat_sub en min_len)) + unat beat \<le> unat en"
  using assms by (simp add: unat_min unat_sat_sub word_le_nat_alt)

lemma right_handle_ok:
  fixes st snapped beat min_len :: u64
  assumes "beat \<le> min_len" "unat st + unat min_len < 2 ^ 64"
  shows "unat st + unat beat \<le> unat (max snapped (sat_add st min_len))"
  using assms by (simp add: unat_max unat_sat_add word_le_nat_alt le_max_iff_disj)

lemma body_handle_ok:
  fixes st len beat min_len :: u64
  assumes "beat \<le> min_len" "unat st + unat (max len min_len) < 2 ^ 64"
  shows "unat st + unat beat \<le> unat (sat_add st (max len min_len))"
  using assms by (simp add: unat_max unat_sat_add word_le_nat_alt le_max_iff_disj)

text \<open>The region starts far enough from the last ticks of a \<open>u64\<close>, where its end would saturate.\<close>

definition min_loop_len :: "PlaylistState \<Rightarrow> u64" where
  "min_loop_len s = max (max (snap_step_ticks (max (pl_ppqn s) 1) (pl_grid_denominator s)) 1) (max (pl_ppqn s) 1)"

definition loop_room :: "PlaylistState \<Rightarrow> bool" where
  "loop_room s \<longleftrightarrow> unat (pl_loop_start_ticks s) + 4 * unat (max (pl_ppqn s) 1) < 2 ^ 64
     \<and> unat (pl_loop_start_ticks s) + unat (max (pl_loop_preview_end_ticks s) (min_loop_len s)) < 2 ^ 64"

lemma min_loop_len: "max (pl_ppqn s) 1 \<le> min_loop_len s"
  by (simp add: min_loop_len_def)

lemma loop_roomD: "loop_room s \<Longrightarrow> unat (pl_loop_start_ticks s) + unat (min_loop_len s) < 2 ^ 64"
  by (auto simp: loop_room_def unat_max)

lemma ruler_mouse_move_ok:
  assumes "loop_ok s" "loop_room (ruler_mouse_move scroll_x x origin_x s)"
  shows "loop_ok (ruler_mouse_move scroll_x x origin_x s)"
proof (cases "pl_loop_dragging s")
  case True
  note def = ruler_mouse_move_def Let_def min_loop_len_def[symmetric]
  show ?thesis
  proof (cases "pl_loop_drag_handle s")
    case NoHandle
    with True assms(1) show ?thesis by (simp add: def)
  next
    case LeftHandle
    with True assms(1) show ?thesis
      by (auto simp: def loop_ok_def intro!: left_handle_ok[OF _ min_loop_len])
  next
    case RightHandle
    have "unat (pl_loop_start_ticks s) + unat (min_loop_len s) < 2 ^ 64"
      using loop_roomD[OF assms(2)] True RightHandle by (simp add: ruler_mouse_move_def Let_def min_loop_len_def)
    with True RightHandle right_handle_ok[OF min_loop_len[of s]] show ?thesis
      by (simp add: def loop_ok_def)
  next
    case BodyHandle
    let ?st = "pl_loop_start_ticks (ruler_mouse_move scroll_x x origin_x s)"
    have "unat ?st + unat (max (pl_loop_preview_end_ticks s) (min_loop_len s)) < 2 ^ 64"
      using assms(2) True BodyHandle by (simp add: ruler_mouse_move_def Let_def loop_room_def min_loop_len_def)
    from body_handle_ok[OF min_loop_len[of s] this] show ?thesis
      using True BodyHandle by (simp add: def loop_ok_def)
  qed
qed (use assms in \<open>simp add: ruler_mouse_move_def\<close>)

lemma ruler_mouse_down_ok:
  assumes ok: "loop_ok s" and room: "loop_room s" and idle: "\<not> pl_loop_dragging s"
    and room': "loop_room (fst (ruler_mouse_down bpm sr scroll_x cur origin h clicks s))"
  shows "loop_ok (fst (ruler_mouse_down bpm sr scroll_x cur origin h clicks s))"
proof -
  let ?t = "fst (ruler_mouse_down bpm sr scroll_x cur origin h clicks s)"
  define raw where "raw = px_to_ticks (fmax (fsub F32 (fsub F32 (fst cur) (fst origin)) scroll_x) (Num 0)) (pl_zoom_x s)"
  define snapped where "snapped = snap_ticks raw (max (snap_step_ticks (max (pl_ppqn s) 1) (pl_grid_denominator s)) 1)"
  let ?on = "(ensure_minimum_global_loop True (s\<lparr>pl_loop_region_active := True\<rparr>))\<lparr>pl_loop_dragging := False, pl_loop_drag_handle := NoHandle\<rparr>"
  let ?off = "s\<lparr>pl_loop_region_active := False, pl_loop_dragging := False, pl_loop_drag_handle := NoHandle\<rparr>"
  let ?grab = "\<lambda>d. s\<lparr>pl_loop_dragging := True, pl_loop_drag_handle := d\<rparr>"
  let ?body = "s\<lparr>pl_loop_dragging := True, pl_loop_drag_handle := BodyHandle,
                pl_loop_preview_start_ticks := sat_sub raw (pl_loop_start_ticks s), pl_loop_preview_end_ticks := loop_length_ticks s\<rparr>"
  let ?fresh = "s\<lparr>pl_loop_start_ticks := snapped, pl_loop_end_ticks := sat_add snapped (min_loop_len s),
                pl_loop_region_active := True, pl_loop_dragging := True, pl_loop_drag_handle := RightHandle\<rparr>"
  have "?t \<in> {s\<lparr>pl_playhead_tick := raw\<rparr>, ?on, ?off, ?grab LeftHandle, ?grab RightHandle, ?body, ?fresh}"
    unfolding ruler_mouse_down_def Let_def fst_conv if_distrib[of fst] raw_def[symmetric] snapped_def[symmetric] min_loop_len_def[symmetric]
    by (simp split: if_split)
  then consider (seek) "?t = s\<lparr>pl_playhead_tick := raw\<rparr>" | (toggle_on) "?t = ?on" | (toggle_off) "?t = ?off"
    | (grab) d where "?t = ?grab d" | (body) "?t = ?body" | (fresh) "?t = ?fresh"
    by blast
  then show ?thesis
  proof cases
    case toggle_on
    have "loop_ok (ensure_minimum_global_loop True (s\<lparr>pl_loop_region_active := True\<rparr>))"
      using room idle by (intro ensure_minimum_global_loop_ok) (simp_all add: loop_room_def)
    with toggle_on show ?thesis by (simp add: loop_ok_def)
  next
    case fresh
    have "unat snapped + unat (min_loop_len s) < 2 ^ 64"
      using loop_roomD[OF room'] unfolding fresh by (simp add: min_loop_len_def)
    with right_handle_ok[OF min_loop_len[of s] this, of 0] fresh show ?thesis
      by (simp add: loop_ok_def)
  qed (use ok in \<open>simp_all add: loop_ok_def\<close>)
qed

text \<open>The gestures of the ruler; the button goes down only between two drags.\<close>

inductive ruler_run :: "PlaylistState \<Rightarrow> PlaylistState \<Rightarrow> bool" where
  start: "loop_room s \<Longrightarrow> ruler_run s s"
| press: "ruler_run s t \<Longrightarrow> \<not> pl_loop_dragging t \<Longrightarrow>
    u = fst (ruler_mouse_down bpm sr scroll_x cur origin h clicks t) \<Longrightarrow> loop_room u \<Longrightarrow> ruler_run s u"
| drag: "ruler_run s t \<Longrightarrow> u = ruler_mouse_move scroll_x x origin_x t \<Longrightarrow> loop_room u \<Longrightarrow> ruler_run s u"
| release: "ruler_run s t \<Longrightarrow> ruler_run s (finish_ruler_drag t)"
| clear: "ruler_run s t \<Longrightarrow> loop_room (clear_loop_region t) \<Longrightarrow> ruler_run s (clear_loop_region t)"

inductive_cases ruler_runE: "ruler_run s t"

lemma ruler_run_room: "ruler_run s t \<Longrightarrow> loop_room t"
  by (induction rule: ruler_run.induct) (auto simp: finish_ruler_drag_def loop_room_def min_loop_len_def)

text \<open>
  Whatever is done on the ruler, from a sound state an active loop region stays at least a beat
  long, so the playhead never loops over an empty region.
\<close>

lemma ruler_keeps_loop:
  assumes "ruler_run s t" "loop_ok s"
  shows "loop_ok t \<and> (pl_loop_region_active t \<longrightarrow> is_loop_region_valid t)"
proof -
  from assms have "loop_ok t"
  proof (induction rule: ruler_run.induct)
    case (press s t u bpm sr scroll_x cur origin h clicks)
    then show ?case using ruler_mouse_down_ok ruler_run_room by blast
  next
    case (drag s t u scroll_x x origin_x)
    then show ?case using ruler_mouse_move_ok by blast
  next
    case (release s t)
    then show ?case by (simp add: finish_ruler_drag_def loop_ok_def)
  qed (simp_all add: clear_loop_region_def loop_ok_def)
  with loop_ok_valid show ?thesis by blast
qed

lemma ruler_keeps_loop_witness:
  "loop_ok (clear_loop_region (finish_ruler_drag playlist_default))"
proof -
  have room: "loop_room playlist_default"
    by (simp add: loop_room_def min_loop_len_def playlist_default_def DEFAULT_PPQN_def snap_step_ticks_def nat_of_word)
  then have "loop_room (clear_loop_region (finish_ruler_drag playlist_default))"
    by (simp add: finish_ruler_drag_def clear_loop_region_def playlist_default_def loop_room_def min_loop_len_def)
  with room have "ruler_run playlist_default (clear_loop_region (finish_ruler_drag playlist_default))"
    by (intro ruler_run.clear ruler_run.release ruler_run.start)
  from ruler_keeps_loop[OF this] show ?thesis by (simp add: loop_ok_def playlist_default_def)
qed

end
