(* ===== verification/GuiMatrix.thy ===== *)
theory GuiMatrix
  imports GuiPlaylist
begin

text \<open>
  The session grid of the interface (crates/hikaru_gui/src/views/matrix.rs and clipboard.rs):
  audio events, clips, slots, editing of the grid, launching, and loading of samples.  The reader
  of WAV files, the peaks of a file and \<open>to_lowercase\<close> are parameters.  A handler returns the
  state and the commands it sends; where the source indexes out of range, \<open>None\<close>.
\<close>

section \<open>Numbers\<close>

definition fceil :: "fp \<Rightarrow> fp" where
  "fceil x = fneg (ffloor (fneg x))"

text \<open>\<open>as i64\<close>: saturating, NaN to 0.\<close>

definition to_i64 :: "fp \<Rightarrow> 64 word" where
  "to_i64 x = (case x of NaN \<Rightarrow> 0 | PosInf \<Rightarrow> word_of_int (2 ^ 63 - 1) | NegInf \<Rightarrow> word_of_int (- (2 ^ 63))
     | NegZero \<Rightarrow> 0 | Num r \<Rightarrow> word_of_int (max (- (2 ^ 63)) (min (2 ^ 63 - 1) (trunc_rat r))))"

text \<open>\<open>(1 << n) as f32\<close> and \<open>n as f32\<close> on \<open>i32\<close>: the shift amount is taken modulo 32.\<close>

definition f32_of_int :: "int \<Rightarrow> f32" where
  "f32_of_int n = mk F32 False (of_int n)"

definition shl_i32 :: "u16 \<Rightarrow> int" where
  "shl_i32 n = sint (push_bit (unat n mod 32) (1 :: 32 word))"

section \<open>Audio events\<close>

record AudioEvent =
  av_id :: u64
  av_name :: string
  av_source_path :: "path option"
  av_samples :: "f32 list"
  av_channels :: usize
  av_sample_rate :: u32
  av_start_secs :: f64
  av_trim_left_frames :: usize
  av_visible_frames :: usize
  av_gain :: f32
  av_fade_in_secs :: f64
  av_fade_out_secs :: f64

definition new_full :: "u64 \<Rightarrow> string \<Rightarrow> f32 list \<Rightarrow> usize \<Rightarrow> u32 \<Rightarrow> f64 \<Rightarrow> AudioEvent" where
  "new_full i name samples channels sample_rate start_secs =
     \<lparr> av_id = i, av_name = name, av_source_path = None, av_samples = samples, av_channels = channels,
       av_sample_rate = sample_rate, av_start_secs = start_secs, av_trim_left_frames = 0,
       av_visible_frames = vlen samples div max channels 1, av_gain = Num 1, av_fade_in_secs = Num 0,
       av_fade_out_secs = Num 0 \<rparr>"

definition av_total_frames :: "AudioEvent \<Rightarrow> usize" where
  "av_total_frames e = vlen (av_samples e) div max (av_channels e) 1"

definition av_frames :: "AudioEvent \<Rightarrow> u64" where
  "av_frames e = min (sat_sub (av_total_frames e) (av_trim_left_frames e)) (av_visible_frames e)"

definition window_samples :: "AudioEvent \<Rightarrow> f32 list" where
  "window_samples e =
     (let ch = max (av_channels e) 1;
          start = min (av_trim_left_frames e * ch) (vlen (av_samples e));
          end = min (start + av_frames e * ch) (vlen (av_samples e))
      in take (unat end - unat start) (drop (unat start) (av_samples e)))"

definition duration_secs :: "AudioEvent \<Rightarrow> f64" where
  "duration_secs e = (if av_sample_rate e = 0 then Num 0
     else fdiv F64 (of_u64 F64 (av_frames e)) (of_u64 F64 (av_sample_rate e)))"

definition end_secs :: "AudioEvent \<Rightarrow> f64" where
  "end_secs e = fadd F64 (av_start_secs e) (duration_secs e)"

definition content_start_secs :: "AudioEvent \<Rightarrow> f64" where
  "content_start_secs e = (if av_sample_rate e = 0 then av_start_secs e
     else fsub F64 (av_start_secs e) (fdiv F64 (of_u64 F64 (av_trim_left_frames e)) (of_u64 F64 (av_sample_rate e))))"

definition content_end_secs :: "AudioEvent \<Rightarrow> f64" where
  "content_end_secs e = (if av_sample_rate e = 0 then end_secs e
     else fadd F64 (content_start_secs e) (fdiv F64 (of_u64 F64 (av_total_frames e)) (of_u64 F64 (av_sample_rate e))))"

definition av_contains :: "AudioEvent \<Rightarrow> f64 \<Rightarrow> bool" where
  "av_contains e t \<longleftrightarrow> le (av_start_secs e) t \<and> lt t (end_secs e)"

text \<open>The left part of a split, with the right one if the cut falls inside the event.\<close>

definition av_split_at :: "f64 \<Rightarrow> u64 \<Rightarrow> string \<Rightarrow> AudioEvent \<Rightarrow> AudioEvent \<times> AudioEvent option" where
  "av_split_at at_secs new_id new_name e =
     (if le at_secs (av_start_secs e) \<or> le (end_secs e) at_secs \<or> av_sample_rate e = 0 then (e, None)
      else let cut = to_word (fround (fmul F64 (fsub F64 at_secs (av_start_secs e)) (of_u64 F64 (av_sample_rate e))));
               left_visible = av_frames e
           in if cut = 0 \<or> left_visible \<le> cut then (e, None)
              else let abs_cut = av_trim_left_frames e + cut
                   in (e\<lparr>av_visible_frames := cut, av_fade_out_secs := Num 0\<rparr>,
                       Some (e\<lparr>av_id := new_id, av_name := new_name, av_start_secs := at_secs,
                               av_trim_left_frames := abs_cut, av_visible_frames := left_visible - cut,
                               av_fade_in_secs := Num 0\<rparr>)))"

fun chunks :: "nat \<Rightarrow> 'a list \<Rightarrow> 'a list list" where
  "chunks n [] = []"
| "chunks n (x # xs) = take (Suc (n - 1)) (x # xs) # chunks n (drop (n - 1) xs)"

text \<open>A sum of floats starts from \<open>-0.0\<close>.\<close>

definition mono_mixed :: "AudioEvent \<Rightarrow> f32 list" where
  "mono_mixed e =
     (let ch = unat (max (av_channels e) 1); window = window_samples e
      in if ch = 1 then window
         else map (\<lambda>c. fdiv F32 (fold (\<lambda>x acc. fadd F32 acc x) c NegZero) (of_u64 F32 (vlen c))) (chunks ch window))"

section \<open>Clips and slots\<close>

text \<open>\<open>Audio events next_event_id preview_mix preview_sr\<close>\<close>

datatype ClipData =
    Audio "AudioEvent list" u64 "f32 list" u32
  | Midi "(u64 \<times> u8 \<times> u8 \<times> u32) list"

record MatrixClip =
  xc_id :: usize
  xc_name :: string
  xc_path :: path
  xc_duration_secs :: f64
  xc_content :: ClipData
  xc_local_state :: PlaylistState
  xc_local_track :: Track
  xc_local_bar :: f32
  xc_loop_start :: u64
  xc_loop_end :: u64
  xc_loop_enabled :: bool
  xc_has_time_selection :: bool
  xc_peaks :: "f32 list"

definition PEAK_BINS :: usize where "PEAK_BINS = 56"

definition pcm_data :: "MatrixClip \<Rightarrow> f32 list" where
  "pcm_data c = (case xc_content c of Audio _ _ mix _ \<Rightarrow> mix | Midi _ \<Rightarrow> [])"

definition audio_events :: "MatrixClip \<Rightarrow> AudioEvent list" where
  "audio_events c = (case xc_content c of Audio events _ _ _ \<Rightarrow> events | Midi _ \<Rightarrow> [])"

definition set_audio_events :: "AudioEvent list \<Rightarrow> MatrixClip \<Rightarrow> MatrixClip" where
  "set_audio_events events c = (case xc_content c of
       Audio _ next mix sr \<Rightarrow> c\<lparr>xc_content := Audio events next mix sr\<rparr> | Midi _ \<Rightarrow> c)"

definition audio_total_secs :: "MatrixClip \<Rightarrow> f64" where
  "audio_total_secs c = (case xc_content c of
       Audio events _ _ _ \<Rightarrow> fold (\<lambda>e m. fmax m (end_secs e)) events (Num 0) | Midi _ \<Rightarrow> Num 0)"

text \<open>One event added to the mix, from frame \<open>i\<close> on.\<close>

definition preview_gain :: "f32 \<Rightarrow> usize \<Rightarrow> usize \<Rightarrow> usize \<Rightarrow> usize \<Rightarrow> f32" where
  "preview_gain gain fi fo i len =
     (let g = (if 0 < fi \<and> i < fi then fmul F32 gain (fdiv F32 (of_u64 F32 i) (of_u64 F32 fi)) else gain);
          from_end = sat_sub len i
      in if 0 < fo \<and> from_end < fo then fmul F32 g (fdiv F32 (of_u64 F32 from_end) (of_u64 F32 fo)) else g)"

fun mix_event :: "64 word \<Rightarrow> f32 \<Rightarrow> usize \<Rightarrow> usize \<Rightarrow> usize \<Rightarrow> nat \<Rightarrow> f32 list \<Rightarrow> f32 list \<Rightarrow> f32 list" where
  "mix_event start gain fi fo len i [] mix = mix"
| "mix_event start gain fi fo len i (s # ms) mix =
     (let dst = start + word_of_nat i
      in if sint dst < 0 then mix_event start gain fi fo len (Suc i) ms mix
         else if vlen mix \<le> dst then mix
         else mix_event start gain fi fo len (Suc i) ms
                (mix[unat dst := fadd F32 (mix ! unat dst) (fmul F32 s (preview_gain gain fi fo (word_of_nat i) len))]))"

definition add_event_to_mix :: "u32 \<Rightarrow> AudioEvent \<Rightarrow> f32 list \<Rightarrow> f32 list" where
  "add_event_to_mix sr ev mix =
     (let ms = mono_mixed ev; sr = of_u64 F64 sr
      in mix_event (to_i64 (fround (fmul F64 (av_start_secs ev) sr))) (av_gain ev)
           (to_word (fround (fmul F64 (av_fade_in_secs ev) sr))) (to_word (fround (fmul F64 (av_fade_out_secs ev) sr)))
           (vlen ms) 0 ms mix)"

definition refresh_preview :: "MatrixClip \<Rightarrow> MatrixClip" where
  "refresh_preview c =
     (case xc_content c of
        Midi _ \<Rightarrow> c
      | Audio events next mix _ \<Rightarrow>
          let sr = (case events of e # _ \<Rightarrow> av_sample_rate e | [] \<Rightarrow> 44100)
          in if events = [] \<or> sr = 0
             then c\<lparr>xc_content := Audio events next [] sr, xc_duration_secs := Num 0\<rparr>
             else let total_secs = fold (\<lambda>e m. fmax m (end_secs e)) events (Num 0);
                      total_frames = to_word (fceil (fmul F64 total_secs (of_u64 F64 sr))) :: usize;
                      mix = fold (add_event_to_mix sr) events (replicate (unat total_frames) (Num 0))
                  in c\<lparr>xc_content := Audio events next mix sr, xc_duration_secs := total_secs\<rparr>)"

definition alloc_event_id :: "MatrixClip \<Rightarrow> u64 \<times> MatrixClip" where
  "alloc_event_id c =
     (case xc_content c of
        Audio events next mix sr \<Rightarrow>
          let i = max next 1 in (i, c\<lparr>xc_content := Audio events (i + 1) mix sr\<rparr>)
      | Midi _ \<Rightarrow> (0, c))"

definition xc_loop_length_ticks :: "MatrixClip \<Rightarrow> u64" where
  "xc_loop_length_ticks c = sat_sub (xc_loop_end c) (xc_loop_start c)"

definition xc_has_valid_clip_loop :: "MatrixClip \<Rightarrow> bool" where
  "xc_has_valid_clip_loop c \<longleftrightarrow> xc_loop_enabled c \<and> xc_loop_start c < xc_loop_end c"

datatype SlotState = SlotEmpty | SlotStopped | QueuedToPlay | SlotPlaying | QueuedToStop

record MatrixSlot =
  sl_state :: SlotState
  sl_clip :: "MatrixClip option"

definition slot_default :: MatrixSlot where
  "slot_default = \<lparr> sl_state = SlotEmpty, sl_clip = None \<rparr>"

text \<open>\<open>MatrixClipboard\<close>: a copied slot and copied events.\<close>

record MatrixClipboard =
  cb_slot :: "MatrixSlot option"
  cb_events :: "AudioEvent list"

definition clipboard_new :: MatrixClipboard where
  "clipboard_new = \<lparr> cb_slot = None, cb_events = [] \<rparr>"

definition clipboard_copy :: "MatrixSlot \<Rightarrow> MatrixClipboard \<Rightarrow> MatrixClipboard" where
  "clipboard_copy slot cb = cb\<lparr>cb_slot := Some slot\<rparr>"

definition has_content :: "MatrixClipboard \<Rightarrow> bool" where
  "has_content cb \<longleftrightarrow> cb_slot cb \<noteq> None"

definition copy_events :: "AudioEvent list \<Rightarrow> MatrixClipboard \<Rightarrow> MatrixClipboard" where
  "copy_events events cb = cb\<lparr>cb_events := events\<rparr>"

definition has_events :: "MatrixClipboard \<Rightarrow> bool" where
  "has_events cb \<longleftrightarrow> cb_events cb \<noteq> []"

definition clipboard_clear :: "MatrixClipboard \<Rightarrow> MatrixClipboard" where
  "clipboard_clear cb = cb\<lparr>cb_slot := None\<rparr>"

section \<open>The grid\<close>

type_synonym SceneMeta = string

record SessionMatrixState =
  sm_grid :: "MatrixSlot list list"
  sm_tracks :: "TrackMeta list"
  sm_scenes :: "SceneMeta list"
  sm_next_clip_id :: usize
  sm_selected_slot :: "(usize \<times> usize) option"
  sm_editor_height :: f32
  sm_editor_zoom_x :: f32
  sm_show_editor :: bool

definition session_default :: "TrackMeta list \<Rightarrow> SceneMeta list \<Rightarrow> SessionMatrixState" where
  "session_default tracks scenes = \<lparr> sm_grid = replicate (length tracks) (replicate (length scenes) slot_default),
     sm_tracks = tracks, sm_scenes = scenes, sm_next_clip_id = 1, sm_selected_slot = None,
     sm_editor_height = Num 104, sm_editor_zoom_x = lit F32 (4 / 100), sm_show_editor = True \<rparr>"

definition add_track :: "SessionMatrixState \<Rightarrow> SessionMatrixState" where
  "add_track s = s\<lparr>sm_tracks := sm_tracks s @ [\<lparr> tm_name = ''Audio '' @ show_nat (length (sm_tracks s) + 1),
        tm_muted = False, tm_soloed = False, tm_volume = Num (3 / 4), tm_pan = Num 0 \<rparr>],
      sm_grid := sm_grid s @ [replicate (length (sm_scenes s)) slot_default]\<rparr>"

definition remove_track :: "SessionMatrixState \<Rightarrow> SessionMatrixState" where
  "remove_track s =
     (if 1 < length (sm_tracks s)
      then let s = s\<lparr>sm_tracks := butlast (sm_tracks s), sm_grid := butlast (sm_grid s)\<rparr>
           in case sm_selected_slot s of
                Some (t, _) \<Rightarrow> if length (sm_tracks s) \<le> unat t then s\<lparr>sm_selected_slot := None\<rparr> else s
              | None \<Rightarrow> s
      else s)"

definition add_scene :: "SessionMatrixState \<Rightarrow> SessionMatrixState" where
  "add_scene s = s\<lparr>sm_scenes := sm_scenes s @ [''Scene '' @ show_nat (length (sm_scenes s) + 1)],
     sm_grid := map (\<lambda>row. row @ [slot_default]) (sm_grid s)\<rparr>"

definition remove_scene :: "SessionMatrixState \<Rightarrow> SessionMatrixState" where
  "remove_scene s =
     (if 1 < length (sm_scenes s)
      then let s = s\<lparr>sm_scenes := butlast (sm_scenes s), sm_grid := map butlast (sm_grid s)\<rparr>
           in case sm_selected_slot s of
                Some (_, sc) \<Rightarrow> if length (sm_scenes s) \<le> unat sc then s\<lparr>sm_selected_slot := None\<rparr> else s
              | None \<Rightarrow> s
      else s)"

definition get_slot :: "SessionMatrixState \<Rightarrow> usize \<Rightarrow> usize \<Rightarrow> MatrixSlot option" where
  "get_slot s t sc = (case nth_opt (sm_grid s) (unat t) of None \<Rightarrow> None | Some row \<Rightarrow> nth_opt row (unat sc))"

definition put_slot :: "usize \<Rightarrow> usize \<Rightarrow> MatrixSlot \<Rightarrow> SessionMatrixState \<Rightarrow> SessionMatrixState" where
  "put_slot t sc slot s =
     s\<lparr>sm_grid := (sm_grid s)[unat t := (sm_grid s ! unat t)[unat sc := slot]]\<rparr>"

section \<open>Editing the grid\<close>

definition sync_midi_clip :: "SessionMatrixState \<Rightarrow> usize \<Rightarrow> usize \<Rightarrow> GuiCommand list" where
  "sync_midi_clip s t sc =
     (case get_slot s t sc of
        Some slot \<Rightarrow> (case sl_clip slot of
            Some clip \<Rightarrow> (case xc_content clip of Midi notes \<Rightarrow> [UpdateMidiClipNotes t sc notes] | Audio _ _ _ _ \<Rightarrow> [])
          | None \<Rightarrow> [])
      | None \<Rightarrow> [])"

definition is_midi_slot :: "MatrixSlot \<Rightarrow> bool" where
  "is_midi_slot slot = (case sl_clip slot of Some c \<Rightarrow> (case xc_content c of Midi _ \<Rightarrow> True | Audio _ _ _ _ \<Rightarrow> False) | None \<Rightarrow> False)"

definition copy_slot :: "usize \<Rightarrow> usize \<Rightarrow> SessionMatrixState \<Rightarrow> MatrixClipboard \<Rightarrow> MatrixClipboard" where
  "copy_slot t sc s cb = (case get_slot s t sc of Some slot \<Rightarrow> clipboard_copy slot cb | None \<Rightarrow> cb)"

definition delete_slot :: "usize \<Rightarrow> usize \<Rightarrow> SessionMatrixState \<Rightarrow> SessionMatrixState \<times> GuiCommand list" where
  "delete_slot t sc s =
     (case get_slot s t sc of
        None \<Rightarrow> (s, [])
      | Some slot \<Rightarrow>
          (put_slot t sc slot_default s,
           if sl_state slot \<in> {SlotPlaying, QueuedToPlay, QueuedToStop} then [TriggerClip t sc] else []))"

definition cut_slot :: "usize \<Rightarrow> usize \<Rightarrow> SessionMatrixState \<Rightarrow> MatrixClipboard
    \<Rightarrow> SessionMatrixState \<times> MatrixClipboard \<times> GuiCommand list" where
  "cut_slot t sc s cb =
     (let cb = copy_slot t sc s cb; (s, cmds) = delete_slot t sc s in (s, cb, cmds))"

text \<open>
  A copy of a slot placed at \<open>(t, sc)\<close> under a new clip id: an audio clip is loaded again from its
  file, the notes of a MIDI clip are sent.  \<open>paste_slot\<close> and \<open>duplicate_slot\<close> share it.
\<close>

definition place_copy :: "usize \<Rightarrow> usize \<Rightarrow> MatrixSlot \<Rightarrow> SessionMatrixState \<Rightarrow> (SessionMatrixState \<times> GuiCommand list) option" where
  "place_copy t sc slot s =
     (let next_id = sm_next_clip_id s;
          s = s\<lparr>sm_next_clip_id := next_id + 1\<rparr>;
          is_midi = is_midi_slot slot;
          slot' = slot\<lparr>sl_clip := map_option (\<lambda>c. c\<lparr>xc_id := next_id\<rparr>) (sl_clip slot)\<rparr>;
          load = (case sl_clip slot of
                    Some c \<Rightarrow> if is_midi then [] else [LoadClip next_id (show_path (xc_path c)) (Num 0) (Num 0) (Num 0) t sc]
                  | None \<Rightarrow> [])
      in if get_slot s t sc = None then None
         else let s = put_slot t sc slot' s in Some (s, load @ (if is_midi then sync_midi_clip s t sc else [])))"

definition paste_slot :: "usize \<Rightarrow> usize \<Rightarrow> MatrixClipboard \<Rightarrow> SessionMatrixState \<Rightarrow> (SessionMatrixState \<times> GuiCommand list) option" where
  "paste_slot t sc cb s =
     (case cb_slot cb of
        None \<Rightarrow> Some (s, [])
      | Some copied \<Rightarrow> place_copy t sc (copied\<lparr>sl_state := SlotStopped\<rparr>) s)"

definition duplicate_slot :: "usize \<Rightarrow> usize \<Rightarrow> SessionMatrixState \<Rightarrow> (SessionMatrixState \<times> GuiCommand list) option" where
  "duplicate_slot t sc s =
     (let target = min (sc + 1) (vlen (sm_scenes s) - 1)
      in if target = sc then Some (s, [])
         else case get_slot s t sc of
                None \<Rightarrow> None
              | Some slot \<Rightarrow> place_copy t target slot s)"

section \<open>Launching\<close>

text \<open>The other playing pads of the row stop; \<open>None\<close> when the row is shorter than the scenes.\<close>

definition stop_others :: "nat \<Rightarrow> nat \<Rightarrow> MatrixSlot list \<Rightarrow> MatrixSlot list option" where
  "stop_others n sc row =
     (if \<exists>i \<in> {length row..<n}. i \<noteq> sc then None
      else Some (map (\<lambda>(i, slot). if i < n \<and> i \<noteq> sc \<and> sl_state slot = SlotPlaying then slot\<lparr>sl_state := SlotStopped\<rparr> else slot)
                   (enumerate 0 row)))"

definition start_slot :: "MatrixSlot \<Rightarrow> MatrixSlot" where
  "start_slot slot = slot\<lparr>sl_state := SlotPlaying, sl_clip := map_option (\<lambda>c. c\<lparr>xc_local_bar := Num 1\<rparr>) (sl_clip slot)\<rparr>"

definition trigger_pad :: "usize \<Rightarrow> usize \<Rightarrow> SessionMatrixState \<Rightarrow> (SessionMatrixState \<times> GuiCommand list) option" where
  "trigger_pad t sc s =
     (case get_slot s t sc of
        None \<Rightarrow> Some (s, [])
      | Some slot \<Rightarrow>
          if sl_clip slot = None then Some (s, [])
          else case sl_state slot of
                 SlotStopped \<Rightarrow>
                   (case stop_others (length (sm_scenes s)) (unat sc) (sm_grid s ! unat t) of
                      None \<Rightarrow> None
                    | Some row \<Rightarrow>
                        let s = s\<lparr>sm_grid := (sm_grid s)[unat t := row]\<rparr>;
                            notes = sync_midi_clip s t sc
                        in Some (put_slot t sc (start_slot slot) s, notes @ [TriggerClip t sc]))
               | SlotEmpty \<Rightarrow> Some (s, [])
               | _ \<Rightarrow> Some (put_slot t sc (slot\<lparr>sl_state := SlotStopped\<rparr>) s, [TriggerClip t sc]))"

text \<open>One row of a scene launch; the notes are sent after the row has been updated.\<close>

definition launch_row :: "usize \<Rightarrow> nat \<Rightarrow> SessionMatrixState \<Rightarrow> (SessionMatrixState \<times> GuiCommand list) option" where
  "launch_row sc t s =
     (case nth_opt (sm_grid s) t of
        None \<Rightarrow> None
      | Some row \<Rightarrow>
          (case nth_opt row (unat sc) of
             None \<Rightarrow> None
           | Some slot \<Rightarrow>
               if sl_clip slot = None then Some (s, [])
               else case stop_others (length (sm_scenes s)) (unat sc) row of
                      None \<Rightarrow> None
                    | Some row' \<Rightarrow>
                        let s = s\<lparr>sm_grid := (sm_grid s)[t := row'[unat sc := start_slot slot]]\<rparr>
                        in Some (s, sync_midi_clip s (word_of_nat t) sc)))"

fun launch_rows :: "usize \<Rightarrow> nat list \<Rightarrow> SessionMatrixState \<Rightarrow> (SessionMatrixState \<times> GuiCommand list) option" where
  "launch_rows sc [] s = Some (s, [])"
| "launch_rows sc (t # ts) s =
     (case launch_row sc t s of
        None \<Rightarrow> None
      | Some (s, cmds) \<Rightarrow> map_option (\<lambda>(s, cmds'). (s, cmds @ cmds')) (launch_rows sc ts s))"

definition matrix_launch_scene :: "usize \<Rightarrow> SessionMatrixState \<Rightarrow> (SessionMatrixState \<times> GuiCommand list) option" where
  "matrix_launch_scene sc s =
     map_option (\<lambda>(s, cmds). (s, cmds @ [TriggerScene sc])) (launch_rows sc [0..<length (sm_tracks s)] s)"

text \<open>Pads whose voice is over stop; \<open>None\<close> when the grid is smaller than its headers.\<close>

definition finished_pad :: "(usize \<Rightarrow> usize \<Rightarrow> bool) \<Rightarrow> nat \<Rightarrow> nat \<Rightarrow> MatrixSlot \<Rightarrow> bool" where
  "finished_pad is_active t sc slot \<longleftrightarrow>
     sl_state slot = SlotPlaying \<and> \<not> is_midi_slot slot \<and> \<not> is_active (word_of_nat t) (word_of_nat sc)"

definition poll_finished_pads :: "(usize \<Rightarrow> usize \<Rightarrow> bool) \<Rightarrow> SessionMatrixState \<Rightarrow> (nat \<times> SessionMatrixState) option" where
  "poll_finished_pads is_active s =
     (let nt = length (sm_tracks s); ns = length (sm_scenes s)
      in if ns = 0 then Some (0, s)
         else if length (sm_grid s) < nt \<or> (\<exists>row \<in> set (take nt (sm_grid s)). length row < ns) then None
         else Some (sum_list (map (\<lambda>(t, row). length (filter (\<lambda>(sc, slot). finished_pad is_active t sc slot)
                         (enumerate 0 (take ns row)))) (enumerate 0 (take nt (sm_grid s)))),
                    s\<lparr>sm_grid := map (\<lambda>(t, row). if t < nt
                         then map (\<lambda>(sc, slot). if sc < ns \<and> finished_pad is_active t sc slot
                                then slot\<lparr>sl_state := SlotStopped\<rparr> else slot) (enumerate 0 row)
                         else row) (enumerate 0 (sm_grid s))\<rparr>))"

section \<open>Loading samples\<close>

text \<open>What the WAV reader yields: the header, and samples of which some may not decode.\<close>

datatype WavData = FloatData "f32 option list" | IntData "int option list"

record WavFile =
  wv_channels :: u16
  wv_sample_rate :: u32
  wv_bits :: u16
  wv_duration :: u32
  wv_data :: WavData

definition decoded :: "'a option list \<Rightarrow> 'a list" where
  "decoded xs = map the (filter (\<lambda>x. x \<noteq> None) xs)"

definition decode_audio_file :: "WavFile option \<Rightarrow> (f32 list \<times> usize \<times> u32) option" where
  "decode_audio_file file =
     (case file of
        None \<Rightarrow> None
      | Some w \<Rightarrow>
          let samples = (case wv_data w of
                 FloatData xs \<Rightarrow> decoded xs
               | IntData xs \<Rightarrow>
                   let max_val = (if wv_bits w \<le> 16 then f32_of_int 32767 else f32_of_int (shl_i32 (wv_bits w - 1)))
                   in map (\<lambda>x. fdiv F32 (f32_of_int x) max_val) (decoded xs))
          in if samples = [] then None else Some (samples, ucast (wv_channels w), wv_sample_rate w))"

definition event_payload :: "AudioEvent \<Rightarrow> EngineEventData" where
  "event_payload e = \<lparr> ed_id = av_id e, ed_samples = window_samples e, ed_channels = av_channels e,
     ed_clip_start_secs = to_f32 (av_start_secs e), ed_sample_rate = av_sample_rate e, ed_gain = av_gain e,
     ed_fade_in_secs = to_f32 (av_fade_in_secs e), ed_fade_out_secs = to_f32 (av_fade_out_secs e) \<rparr>"

definition sync_audio_events_to_engine :: "MatrixClip \<Rightarrow> usize \<Rightarrow> usize \<Rightarrow> GuiCommand list" where
  "sync_audio_events_to_engine clip t sc =
     (case xc_content clip of
        Audio events _ _ _ \<Rightarrow> [SetClipEvents t sc (map event_payload events)]
      | Midi _ \<Rightarrow> [])"

definition stem_name :: "path \<Rightarrow> string" where
  "stem_name p = (case file_stem p of Some n \<Rightarrow> n | None \<Rightarrow> [])"

definition append_sample_as_event ::
    "(path \<Rightarrow> WavFile option) \<Rightarrow> (string \<Rightarrow> usize \<Rightarrow> f32 list) \<Rightarrow> usize \<Rightarrow> usize \<Rightarrow> path \<Rightarrow> MatrixClip \<Rightarrow> MatrixClip \<times> GuiCommand list" where
  "append_sample_as_event wav peaks t sc p clip =
     (case decode_audio_file (wav p) of
        Some (samples, channels, sr) \<Rightarrow>
          let start = audio_total_secs clip;
              (i, clip) = alloc_event_id clip;
              ev = (new_full i (stem_name p) samples channels sr start)\<lparr>av_source_path := Some p\<rparr>;
              clip = set_audio_events (audio_events clip @ [ev]) clip;
              clip = (refresh_preview clip)\<lparr>xc_peaks := peaks (show_path p) PEAK_BINS\<rparr>
          in (clip, sync_audio_events_to_engine clip t sc)
      | None \<Rightarrow> (clip, [LoadClip (xc_id clip) (show_path p) (Num 0) (Num 0) (Num 0) t sc]))"

definition is_midi_file :: "(string \<Rightarrow> string) \<Rightarrow> path \<Rightarrow> bool" where
  "is_midi_file lower p = (case extension p of Some e \<Rightarrow> lower e \<in> {''mid'', ''midi''} | None \<Rightarrow> False)"

definition is_audio_file :: "(string \<Rightarrow> string) \<Rightarrow> path \<Rightarrow> bool" where
  "is_audio_file lower p = (case extension p of
       Some e \<Rightarrow> lower e \<in> {''wav'', ''flac'', ''ogg'', ''mp3'', ''aiff'', ''synth''} | None \<Rightarrow> False)"

definition wav_length :: "WavFile option \<Rightarrow> f64 \<times> u64" where
  "wav_length file = (case file of
       None \<Rightarrow> (Num 0, 0)
     | Some w \<Rightarrow> (if 0 < wv_sample_rate w then fdiv F64 (of_u64 F64 (wv_duration w)) (of_u64 F64 (wv_sample_rate w)) else Num 0,
                  ucast (wv_duration w)))"

definition fresh_clip :: "usize \<Rightarrow> path \<Rightarrow> bool \<Rightarrow> f64 \<times> u64 \<Rightarrow> f32 list \<Rightarrow> f32 \<Rightarrow> MatrixClip" where
  "fresh_clip i p midi len peaks zoom =
     \<lparr> xc_id = i, xc_name = stem_name p, xc_path = p, xc_duration_secs = fst len,
       xc_content = (if midi then Midi [] else Audio [] 1 [] 44100),
       xc_local_state = playlist_default\<lparr>pl_zoom_x := zoom\<rparr>, xc_local_track = track_new 0 (stem_name p) False,
       xc_local_bar = Num 1, xc_loop_start = 0, xc_loop_end = snd len, xc_loop_enabled = True,
       xc_has_time_selection = True, xc_peaks = peaks \<rparr>"

definition load_clip_into_slot ::
    "(string \<Rightarrow> string) \<Rightarrow> (path \<Rightarrow> WavFile option) \<Rightarrow> (string \<Rightarrow> usize \<Rightarrow> f32 list) \<Rightarrow> usize \<Rightarrow> usize \<Rightarrow> path
      \<Rightarrow> SessionMatrixState \<Rightarrow> (SessionMatrixState \<times> GuiCommand list) option" where
  "load_clip_into_slot lower wav peaks t sc p s =
     (let new_id = sm_next_clip_id s;
          s = s\<lparr>sm_next_clip_id := new_id + 1\<rparr>;
          midi = is_midi_file lower p
      in case get_slot s t sc of
           None \<Rightarrow> None
         | Some slot \<Rightarrow>
             (case (if midi \<or> is_midi_slot slot then None else sl_clip slot) of
                Some existing \<Rightarrow>
                  let (clip, cmds) = append_sample_as_event wav peaks t sc p existing
                  in Some (put_slot t sc (slot\<lparr>sl_clip := Some clip\<rparr>) s, cmds)
              | None \<Rightarrow>
                  let clip = fresh_clip new_id p midi (if midi then (Num 0, 0) else wav_length (wav p))
                               (if midi then [] else peaks (show_path p) PEAK_BINS) (sm_editor_zoom_x s);
                      s = put_slot t sc \<lparr> sl_state = SlotStopped, sl_clip = Some clip \<rparr> s
                  in Some (s, if midi then sync_midi_clip s t sc
                              else [LoadClip new_id (show_path p) (Num 0) (Num 0) (Num 0) t sc])))"

end
