(* ===== verification/CommandLoop.thy ===== *)
theory CommandLoop
  imports EngineSafety GuiMatrix
begin

text \<open>
  Where interface and engine meet (crates/hikaru_gui/src/main.rs): the thread that receives the
  commands and applies them to the engine behind a mutex, the reading and resampling of sample
  files, the preview threads and the audio callback.  The WAV reader (hound), the plugin loaders
  and the plugin instances are parameters, collected in the record \<open>world\<close>.  A panic of the
  command thread is a value: it says whether the engine's mutex was held, which poisons it.
\<close>

section \<open>Sample files\<close>

definition raw_samples :: "WavFile \<Rightarrow> f32 list" where
  "raw_samples w = (case wv_data w of
     FloatData xs \<Rightarrow> decoded xs
   | IntData xs \<Rightarrow>
       let max_val = f32_of_int (shl_i32 (wv_bits w - 1))
       in map (\<lambda>x. fdiv F32 (f32_of_int x) max_val) (decoded xs))"

definition file_sr :: "WavFile \<Rightarrow> f32" where
  "file_sr w = of_u64 F32 (wv_sample_rate w)"

definition file_channels :: "WavFile \<Rightarrow> usize" where
  "file_channels w = ucast (wv_channels w)"

text \<open>
  \<open>resample_linear\<close>: \<open>None\<close> where \<open>Vec::with_capacity\<close> refuses the size (more than
  \<open>isize::MAX\<close> bytes) or a sample index is out of range.
\<close>

definition resample_frame :: "f32 list \<Rightarrow> usize \<Rightarrow> usize \<Rightarrow> f32 \<Rightarrow> nat \<Rightarrow> f32 list option" where
  "resample_frame samples channels input_frames ratio frame =
     (let input_pos = fmul F32 (of_u64 F32 (word_of_nat frame :: usize)) ratio;
          idx0 = to_word (ffloor input_pos);
          idx1 = min (idx0 + 1) (sat_sub input_frames 1);
          t = fsub F32 input_pos (of_u64 F32 idx0)
      in those (map (\<lambda>ch.
           case (nth_opt samples (unat (idx0 * channels + word_of_nat ch)),
                 nth_opt samples (unat (idx1 * channels + word_of_nat ch))) of
             (Some s0, Some s1) \<Rightarrow> Some (fadd F32 s0 (fmul F32 t (fsub F32 s1 s0)))
           | _ \<Rightarrow> None) [0..<unat channels]))"

definition output_frames :: "usize \<Rightarrow> f32 \<Rightarrow> usize" where
  "output_frames input_frames ratio = to_word (fdiv F32 (of_u64 F32 input_frames) ratio)"

definition resample_linear :: "f32 list \<Rightarrow> usize \<Rightarrow> f32 \<Rightarrow> f32 \<Rightarrow> f32 list option" where
  "resample_linear samples channels from_sr to_sr =
     (if samples = [] \<or> channels = 0 then Some []
      else let input_frames = vlen samples div channels;
               ratio = fdiv F32 from_sr to_sr;
               out = output_frames input_frames ratio
           in if 2 ^ 61 \<le> unat (out * channels) then None
              else map_option concat
                     (those (map (resample_frame samples channels input_frames ratio) [0..<unat out])))"

definition at_rate :: "f32 list \<Rightarrow> usize \<Rightarrow> f32 \<Rightarrow> f32 \<Rightarrow> f32 list option" where
  "at_rate samples channels sr target_sr =
     (if lt (Num 1) (fabs (fsub F32 sr target_sr)) then resample_linear samples channels sr target_sr
      else Some samples)"

definition load_at :: "f32 \<Rightarrow> WavFile \<Rightarrow> f32 list option" where
  "load_at target_sr w = at_rate (raw_samples w) (file_channels w) (file_sr w) target_sr"

section \<open>Commands\<close>

record 'i world =
  wd_wav :: "string \<Rightarrow> WavFile option"
  wd_load :: "PluginFormat \<Rightarrow> path \<Rightarrow> string + 'i"
  wd_set_sr :: "f32 \<Rightarrow> 'i \<Rightarrow> 'i"
  wd_set_param :: "'i \<Rightarrow> u32 \<Rightarrow> f32 \<Rightarrow> bool \<times> 'i"

text \<open>The outcome of a command: the new engine, or a panic with or without the lock.\<close>

datatype 'i outcome = Served "'i AudioEngine" | Panicked (holding_lock: bool)

definition locked :: "'a option \<Rightarrow> ('a \<Rightarrow> 'i AudioEngine) \<Rightarrow> 'i outcome" where
  "locked x f = (case x of None \<Rightarrow> Panicked True | Some y \<Rightarrow> Served (f y))"

text \<open>\<open>SyncPlaylistClips\<close> decodes the clips before it takes the lock.\<close>

fun decode_clips :: "(string \<Rightarrow> WavFile option) \<Rightarrow> f32 \<Rightarrow> AudioClipData list
    \<Rightarrow> (AudioClipData \<times> f32 list \<times> usize) list option" where
  "decode_clips wav sr [] = Some []"
| "decode_clips wav sr (c # cs) =
     (case wav (ac_path c) of
        None \<Rightarrow> decode_clips wav sr cs
      | Some w \<Rightarrow>
          (case load_at sr w of
             None \<Rightarrow> None
           | Some xs \<Rightarrow> map_option ((#) (c, xs, file_channels w)) (decode_clips wav sr cs)))"

definition sync_playlist :: "(AudioClipData \<times> f32 list \<times> usize) list \<Rightarrow> 'i AudioEngine \<Rightarrow> 'i AudioEngine" where
  "sync_playlist ds e =
     fold (\<lambda>(c, xs, ch) e. add_clip e (ac_clip_id c) (ac_track_index c) 0 xs (ac_start_secs c)
             (ac_duration_secs c) (ac_offset_secs c) ch False)
       ds (e\<lparr>en_clips := filter ai_is_matrix_clip (en_clips e)\<rparr>)"

text \<open>One event of \<open>SetClipEvents\<close>; a negative start drops the frames before zero.\<close>

definition engine_event :: "f32 \<Rightarrow> EngineEventData \<Rightarrow> EngineAudioEvent option" where
  "engine_event target_sr ev =
     (case (if 0 < ed_sample_rate ev
              \<and> lt (Num 1) (fabs (fsub F32 (of_u64 F32 (ed_sample_rate ev)) target_sr))
            then resample_linear (ed_samples ev) (ed_channels ev) (of_u64 F32 (ed_sample_rate ev)) target_sr
            else Some (ed_samples ev)) of
        None \<Rightarrow> None
      | Some samples \<Rightarrow>
          let dropped = to_word (fround (fmul F32 (fneg (ed_clip_start_secs ev)) target_sr));
              off = min (dropped * max (ed_channels ev) 1) (vlen samples);
              samples = (if lt (ed_clip_start_secs ev) (Num 0) then drop (unat off) samples else samples)
          in Some \<lparr> ee_id = ed_id ev, ee_samples = samples, ee_channels = ed_channels ev,
               ee_clip_start = to_word (fmul F32 (fmax (ed_clip_start_secs ev) (Num 0)) target_sr),
               ee_gain = ed_gain ev,
               ee_fade_in = to_word (fmul F32 (fmax (ed_fade_in_secs ev) (Num 0)) target_sr),
               ee_fade_out = to_word (fmul F32 (fmax (ed_fade_out_secs ev) (Num 0)) target_sr) \<rparr>)"

definition adsr_rate :: "f32 \<Rightarrow> f32 \<Rightarrow> f32 \<Rightarrow> f32" where
  "adsr_rate sr amount ms =
     (if lt (Num 0) ms then fdiv F32 amount (fmul F32 (fmul F32 ms (lit F32 (1 / 1000))) sr) else sr)"

definition adsr_params :: "f32 \<Rightarrow> f32 \<Rightarrow> f32 \<Rightarrow> f32 \<Rightarrow> f32 \<Rightarrow> DmsAdsrParams" where
  "adsr_params sr attack_ms decay_ms sustain release_ms = \<lparr>
     ad_attack_rate = adsr_rate sr (Num 1) attack_ms,
     ad_decay_rate = adsr_rate sr (fsub F32 (Num 1) sustain) decay_ms,
     ad_sustain_level = fclamp sustain (Num 0) (Num 1),
     ad_release_rate = adsr_rate sr sustain release_ms \<rparr>"

definition on_chains :: "('i ChainState \<Rightarrow> 'i ChainState) \<Rightarrow> 'i AudioEngine \<Rightarrow> 'i AudioEngine" where
  "on_chains f e = e\<lparr>en_chains := f (en_chains e)\<rparr>"

definition on_preview :: "(PreviewPlayer \<Rightarrow> PreviewPlayer) \<Rightarrow> 'i AudioEngine \<Rightarrow> 'i AudioEngine" where
  "on_preview f e = e\<lparr>en_preview := f (en_preview e)\<rparr>"

definition midi_note :: "u64 \<times> u8 \<times> u8 \<times> u32 \<Rightarrow> MidiNoteInstance" where
  "midi_note = (\<lambda>(start, pitch, velocity, duration). \<lparr> mn_start_tick = start, mn_pitch = pitch,
     mn_velocity = velocity, mn_duration_ticks = duration \<rparr>)"

text \<open>
  The arms of the dispatcher.  \<open>busy\<close> says whether the engine is locked by the audio callback
  at that moment: the commands that use \<open>try_lock\<close> see it, the others wait.  A preview also
  starts a thread (\<open>preview_jobs\<close>); the constructors of the last arm are not handled.
\<close>

fun handle_command :: "'i world \<Rightarrow> bool \<Rightarrow> GuiCommand \<Rightarrow> 'i AudioEngine \<Rightarrow> 'i outcome" where
  "handle_command w busy (SetAppMode is_studio) e = Served (set_mode e (if is_studio then OpenStudio else OpenLive))"
| "handle_command w busy Play e = Served (play e)"
| "handle_command w busy Pause e = Served (pause e)"
| "handle_command w busy Stop e = Served (stop e)"
| "handle_command w busy (Seek sample_count) e =
     Served (seek e (fdiv F32 (of_u64 F32 sample_count) (en_sample_rate e)))"
| "handle_command w busy (UpdateClipBounds i t s position dur offset) e =
     Served (update_clip_bounds e i t s position dur offset)"
| "handle_command w busy (LoadClip i file position duration offset t s) e =
     (case wd_wav w file of
        None \<Rightarrow> Served e
      | Some wav \<Rightarrow> locked (load_at (en_sample_rate e) wav)
          (\<lambda>xs. add_clip e i t s xs position duration offset (file_channels wav) True))"
| "handle_command w busy (PreviewSample file volume speed) e =
     Served (on_preview (\<lambda>p. preview_set_volume (preview_player_stop p) volume) e)"
| "handle_command w busy StopPreview e = Served (on_preview preview_player_stop e)"
| "handle_command w busy (SetPreviewVolume vol) e = Served (on_preview (\<lambda>p. preview_set_volume p vol) e)"
| "handle_command w busy (SyncPlaylistClips clips) e =
     (case decode_clips (wd_wav w) (if busy then Num 44100 else en_sample_rate e) clips of
        None \<Rightarrow> Panicked False
      | Some ds \<Rightarrow> Served (sync_playlist ds e))"
| "handle_command w busy (TriggerClip t s) e = Served (trigger_clip e t s)"
| "handle_command w busy (StopTrack t) e = Served (stop_track e t)"
| "handle_command w busy (SetClipLoop t s a b enabled) e =
     Served (set_clip_loop e t s a b enabled)"
| "handle_command w busy (SetClipEvents t s events) e =
     locked (those (map (engine_event (en_sample_rate e)) events)) (set_clip_events e t s)"
| "handle_command w busy (SetGlobalLoop start_samples end_samples enabled) e =
     Served (set_global_loop e start_samples end_samples enabled)"
| "handle_command w busy (TriggerScene s) e = Served (trigger_scene e s)"
| "handle_command w busy (SetBpm bpm) e = Served (e\<lparr>en_transport := set_bpm (en_transport e) bpm\<rparr>)"
| "handle_command w busy (SetTrackVolume t db) e = Served (if busy then e else set_track_volume e t db)"
| "handle_command w busy (SetTrackPan t pan) e = Served (if busy then e else set_track_pan e t pan)"
| "handle_command w busy (SetTrackMute t mute) e = Served (if busy then e else set_track_mute e t mute)"
| "handle_command w busy (SetTrackSolo t solo) e = Served (if busy then e else set_track_solo e t solo)"
| "handle_command w busy (SetMasterVolume db) e = Served (if busy then e else set_master_gain e db)"
| "handle_command w busy (UpdateMidiClipNotes t s notes) e =
     Served (update_midi_clip e t s (map midi_note notes))"
| "handle_command w busy (LoadDmsSample pad file) e =
     (case wd_wav w file of
        None \<Rightarrow> Served e
      | Some wav \<Rightarrow> locked (load_at (en_sample_rate e) wav)
          (\<lambda>xs. load_dms_sample e pad xs (file_channels wav)))"
| "handle_command w busy (DmsNoteOn pad gain pan velocity play_speed attack_ms decay_ms sustain release_ms) e =
     Served (trigger_dms_note e pad gain pan velocity play_speed
       (adsr_params (en_sample_rate e) attack_ms decay_ms sustain release_ms) 0)"
| "handle_command w busy (DmsNoteOff pad) e = Served (release_dms_note e pad)"
| "handle_command w busy (LoadExternalPlugin t s desc) e =
     Served (on_chains (\<lambda>cs. snd (load_external_plugin (wd_load w) (wd_set_sr w) cs t s desc)) e)"
| "handle_command w busy (RemoveExternalPlugin t s) e =
     Served (on_chains (\<lambda>cs. remove_external_plugin cs t s) e)"
| "handle_command w busy (MoveExternalPlugin from_track from_slot to_track to_slot) e =
     Served (on_chains (\<lambda>cs. snd (move_external_plugin cs from_track from_slot to_track to_slot)) e)"
| "handle_command w busy (SetExternalPluginParam t s param value) e =
     Served (on_chains (\<lambda>cs. set_external_plugin_param (wd_set_param w) cs t s param value) e)"
| "handle_command w busy (SyncExternalPluginParams t s params) e =
     Served (on_chains (\<lambda>cs. sync_external_plugin_params (wd_set_param w) cs t s params) e)"
| "handle_command w busy (LoadMidiClip i t s notes) e = Served e"
| "handle_command w busy ToggleRecord e = Served e"
| "handle_command w busy AddTrack e = Served e"
| "handle_command w busy AddScene e = Served e"
| "handle_command w busy (RemoveScene s) e = Served e"
| "handle_command w busy (RemoveTrack t) e = Served e"

text \<open>The commands of a list in order, while the engine stays unlocked by others.\<close>

fun serve :: "'i world \<Rightarrow> GuiCommand list \<Rightarrow> 'i AudioEngine \<Rightarrow> 'i outcome" where
  "serve w [] e = Served e"
| "serve w (c # cs) e =
     (case handle_command w False c e of Served e \<Rightarrow> serve w cs e | Panicked l \<Rightarrow> Panicked l)"

section \<open>Threads\<close>

text \<open>
  The threads around the engine: the channel, the command thread (alive or gone), the preview
  threads that are still decoding, and the mutex (poisoned or not).
\<close>

record 'i threads =
  th_engine :: "'i AudioEngine"
  th_queue :: "GuiCommand list"
  th_previews :: "string list"
  th_gone :: bool
  th_poisoned :: bool

fun preview_jobs :: "GuiCommand \<Rightarrow> string list" where
  "preview_jobs (PreviewSample file volume speed) = [file]"
| "preview_jobs _ = []"

text \<open>What a preview thread does once its file is decoded; it panics without the lock.\<close>

definition preview_thread :: "'i world \<Rightarrow> string \<Rightarrow> 'i threads \<Rightarrow> 'i threads" where
  "preview_thread w file th =
     (case wd_wav w file of
        None \<Rightarrow> th
      | Some wav \<Rightarrow>
          (case load_at (if th_poisoned th then Num 44100 else en_sample_rate (th_engine th)) wav of
             None \<Rightarrow> th
           | Some xs \<Rightarrow>
               if th_poisoned th then th
               else th\<lparr>th_engine := on_preview (\<lambda>p. preview_play p xs (file_channels wav)) (th_engine th)\<rparr>))"

text \<open>
  The audio callback: silence when the lock is taken or poisoned, else a block of the engine.
\<close>

definition audio_callback :: "(f32 \<Rightarrow> f32) \<Rightarrow> ('i \<Rightarrow> f32 list \<Rightarrow> f32 list \<times> 'i) \<Rightarrow> bool \<Rightarrow> nat \<Rightarrow> 'i threads
    \<Rightarrow> ('i threads \<times> f32 list) option" where
  "audio_callback ftanh run busy len th =
     (if busy \<or> th_poisoned th then Some (th, replicate len (Num 0))
      else map_option (\<lambda>(e, out). (th\<lparr>th_engine := e\<rparr>, out)) (process ftanh run (th_engine th) len))"

definition command_thread :: "'i world \<Rightarrow> bool \<Rightarrow> 'i threads \<Rightarrow> 'i threads" where
  "command_thread w busy th =
     (case th_queue th of
        [] \<Rightarrow> th
      | c # cs \<Rightarrow>
          (case handle_command w busy c (th_engine th) of
             Served e \<Rightarrow> th\<lparr>th_engine := e, th_queue := cs, th_previews := th_previews th @ preview_jobs c\<rparr>
           | Panicked l \<Rightarrow> th\<lparr>th_queue := [], th_gone := True, th_poisoned := l\<rparr>))"

inductive thread_step :: "(f32 \<Rightarrow> f32) \<Rightarrow> ('i \<Rightarrow> f32 list \<Rightarrow> f32 list \<times> 'i) \<Rightarrow> 'i world \<Rightarrow> 'i threads \<Rightarrow> 'i threads \<Rightarrow> bool"
  for ftanh run w where
  send: "thread_step ftanh run w th
     (if th_gone th then th else th\<lparr>th_queue := th_queue th @ [c]\<rparr>)"
| receive: "\<not> th_gone th \<Longrightarrow> \<not> th_poisoned th \<Longrightarrow> thread_step ftanh run w th (command_thread w busy th)"
| preview: "th_previews th = fs @ f # gs \<Longrightarrow>
     thread_step ftanh run w th (preview_thread w f (th\<lparr>th_previews := fs @ gs\<rparr>))"
| audio: "audio_callback ftanh run busy len th = Some (th', out) \<Longrightarrow> thread_step ftanh run w th th'"

inductive_cases thread_stepE: "thread_step ftanh run w th th'"

end
