(* ===== verification/SampleLoading.thy ===== *)
theory SampleLoading
  imports CommandLoop
begin

text \<open>
  What loading a file does to the program (crates/hikaru_gui/src/main.rs): resampling stays within
  the file while the output has at most \<open>2 ^ 22\<close> frames, and not for longer files, where the panic
  of the command thread takes the engine's mutex with it; previews finish in any order; which
  commands are lost while the callback holds the engine.
\<close>

section \<open>Resampling stays within the file\<close>

text \<open>The position the last output frame reads is before the end of the file.\<close>

lemma resample_pos:
  assumes n: "unat n \<le> 2 ^ 24" "of_nat (unat n) \<le> r * 2 ^ 22" and r: "0 < r" "ratio = Num r" "r \<le> 2 ^ 20"
    and f: "f < unat (output_frames n ratio)"
  shows "f < 2 ^ 23 \<and> unat (to_word (ffloor (fmul F32 (of_u64 F32 (word_of_nat f :: usize)) ratio)) :: usize) < unat n"
proof (cases "unat n = 0")
  case True
  then have "n = 0" by (simp add: unat_eq_0)
  with f r show ?thesis by (simp add: output_frames_def of_u64_def fdiv_def mk_def)
next
  case False
  let ?n = "of_nat (unat n) :: rat"
  have n1: "1 \<le> ?n"
  proof -
    have "1 \<le> unat n" using False by linarith
    then have "of_nat 1 \<le> ?n" by (simp only: of_nat_le_iff)
    then show ?thesis by simp
  qed
  have rlo: "1 / 2 ^ 22 \<le> r" using n1 n(2) by simp
  have q: "?n / r \<le> 2 ^ 22" "0 < ?n / r" "1 / 2 ^ 100 \<le> ?n / r"
  proof -
    show "?n / r \<le> 2 ^ 22" using n(2) r(1) by (simp add: pos_divide_le_eq mult.commute)
    show "0 < ?n / r" using n1 r(1) by simp
    have "r \<le> 2 ^ 100 * ?n" using r(3) n1 by simp
    then show "1 / 2 ^ 100 \<le> ?n / r" using r(1) by (simp add: field_simps)
  qed
  obtain Q where Q: "mk F32 False (?n / r) = Num Q" "\<bar>Q - ?n / r\<bar> \<le> ?n / r / 2 ^ 24"
    using mk_pos [of "?n / r" False] q by fastforce
  have Qb: "0 \<le> Q" "Q \<le> 2 ^ 22 + 1" "Q \<le> ?n / r * (1 + 1 / 2 ^ 24)"
    using Q(2) q by (auto simp: abs_le_iff field_simps)
  have out: "output_frames n ratio = to_word (Num Q)"
    using r Q(1) n1 unfolding output_frames_def of_u64_small [OF n(1)]
    by (simp add: fdiv_def del: of_nat_unat)
  then have "unat (output_frames n ratio) = nat \<lfloor>Q\<rfloor>"
    using unat_to_word_num [of Q] Qb(1,2) by (simp del: to_word.simps)
  with f have fQ: "of_nat f + 1 \<le> Q" using Qb(1) by (simp add: floor_le_iff zless_nat_eq_int_zless) linarith
  then have f22: "f \<le> 2 ^ 22"
  proof -
    have "(of_nat f :: rat) \<le> of_nat (2 ^ 22)" using fQ Qb(2) by simp
    then show ?thesis by (simp only: of_nat_le_iff)
  qed
  have uf: "unat (word_of_nat f :: usize) = f" using f22 by (simp add: unsigned_of_nat take_bit_nat_eq_self)
  have of_f: "of_u64 F32 (word_of_nat f :: usize) = Num (of_nat f)"
    using of_u64_small [of "word_of_nat f :: usize"] f22 uf by simp
  show ?thesis
  proof (cases "f = 0")
    case True
    show ?thesis unfolding of_f using True r False f22 by (simp add: fmul_def mk_def)
  next
    case f0: False
    let ?x = "of_nat f * r"
    have f1: "(1::rat) \<le> of_nat f" using f0 by (simp add: Suc_leI)
    have x: "0 < ?x" "?x \<le> 2 ^ 60" "1 / 2 ^ 100 \<le> ?x"
    proof -
      show "0 < ?x" using f1 r by simp
      have "?x \<le> 2 ^ 23 * 2 ^ 20" using fQ Qb(2) r by (intro mult_mono) simp_all
      then show "?x \<le> 2 ^ 60" by simp
      have "1 * r \<le> ?x" using f1 r by (intro mult_right_mono) simp_all
      moreover have "1 / 2 ^ 100 \<le> (1 / 2 ^ 22 :: rat)" by simp
      ultimately show "1 / 2 ^ 100 \<le> ?x" using rlo by linarith
    qed
    obtain P where P: "mk F32 False ?x = Num P" "\<bar>P - ?x\<bar> \<le> ?x / 2 ^ 24"
      using mk_pos [of ?x False] x by fastforce
    have xx: "?x / 2 ^ 24 \<le> ?x" by (rule small_part [OF x(1)])
    have P0: "0 \<le> P" using P(2) xx by linarith
    have "?x \<le> (Q - 1) * r" using fQ r by (intro mult_right_mono) simp_all
    also have "\<dots> \<le> (?n / r * (1 + 1 / 2 ^ 24) - 1) * r" using Qb(3) r by (intro mult_right_mono) simp_all
    also have "\<dots> = ?n * (1 + 1 / 2 ^ 24) - r" using r by (simp add: field_simps)
    finally have xb: "?x \<le> ?n * (1 + 1 / 2 ^ 24) - r" .
    have "P \<le> ?x + ?x / 2 ^ 24" using P(2) by linarith
    also have "\<dots> = ?x * (1 + 1 / 2 ^ 24)" by (simp add: field_simps)
    finally have "P \<le> ?x * (1 + 1 / 2 ^ 24)" .
    also have "\<dots> \<le> (?n * (1 + 1 / 2 ^ 24) - r) * (1 + 1 / 2 ^ 24)" using xb by (intro mult_right_mono) simp_all
    also have "\<dots> < ?n" using n(2) r(1) by (simp add: field_simps)
    finally have Pn: "P < ?n" .
    have Pbig: "P < 2 ^ 63"
    proof -
      have "?n \<le> of_nat (2 ^ 24)" using n(1) by (simp only: of_nat_le_iff)
      then show ?thesis using Pn by simp
    qed
    have "fmul F32 (Num (of_nat f)) ratio = Num P" using P(1) r by (simp add: fmul_def)
    moreover have "unat (to_word (ffloor (Num P)) :: usize) < unat n"
    proof -
      have "P < of_int (int (unat n))" using Pn by simp
      then have fl: "\<lfloor>P\<rfloor> < int (unat n)" by (simp only: floor_less_iff)
      have "(of_int \<lfloor>P\<rfloor> :: rat) \<le> P" by simp
      then have "(of_int \<lfloor>P\<rfloor> :: rat) < 2 ^ 63" using Pbig by linarith
      moreover have "0 \<le> (of_int \<lfloor>P\<rfloor> :: rat)" using P0 by simp
      ultimately have "unat (to_word (ffloor (Num P)) :: usize) = nat \<lfloor>P\<rfloor>"
        using unat_to_word_num [of "of_int \<lfloor>P\<rfloor>"] by (simp del: to_word.simps)
      moreover have "nat \<lfloor>P\<rfloor> < unat n" using fl P0 by (simp add: nat_less_iff)
      ultimately show ?thesis by simp
    qed
    ultimately show ?thesis unfolding of_f using f22 by simp
  qed
qed

lemma those_map_ex:
  assumes "\<And>x. x \<in> set xs \<Longrightarrow> \<exists>y. f x = Some y \<and> P y"
  shows "\<exists>ys. those (map f xs) = Some ys \<and> length ys = length xs \<and> list_all P ys"
  using assms by (induction xs) fastforce+

lemma resample_frame_total:
  assumes n: "n = vlen xs div ch" "0 < unat ch" "unat ch < 2 ^ 16" and xs: "vec_ok xs"
    and i: "unat (to_word (ffloor (fmul F32 (of_u64 F32 (word_of_nat f :: usize)) ratio)) :: usize) < unat n"
  shows "\<exists>ys. resample_frame xs ch n ratio f = Some ys \<and> length ys = unat ch"
proof -
  let ?p = "fmul F32 (of_u64 F32 (word_of_nat f :: usize)) ratio"
  define i0 where "i0 = (to_word (ffloor ?p) :: usize)"
  define i1 where "i1 = min (i0 + 1) (sat_sub n 1)"
  have len: "length xs < 2 ^ 62" using xs by (simp add: vec_ok_def)
  have un: "unat n = length xs div unat ch" using n len by (simp add: unat_div vlen_def unat_of_nat)
  have nc: "unat n * unat ch \<le> length xs" unfolding un by (simp add: div_times_less_eq_dividend)
  have i0: "unat i0 < unat n" using i by (simp add: i0_def)
  have i1: "unat i1 < unat n" using i0 by (simp add: i1_def unat_min unat_sat_sub)
  have idx: "unat (k * ch + word_of_nat c) = unat k * unat ch + c \<and> unat k * unat ch + c < length xs"
    if k: "unat k < unat n" and c: "c < unat ch" for k :: usize and c
  proof -
    have "Suc (unat k) * unat ch \<le> unat n * unat ch" using k by (intro mult_right_mono) simp_all
    then have lt: "unat k * unat ch + c < length xs" using nc c by simp
    have a: "unat k * unat ch + c < 2 ^ 64" by (rule less_trans [OF less_trans [OF lt len]]) simp
    have "unat k * unat ch < 2 ^ 64" by (rule le_less_trans [OF le_add1 a])
    with a have "unat k * unat ch < 2 ^ 64" "unat k * unat ch + c < 2 ^ 64" by blast+
    moreover have "unat (word_of_nat c :: usize) = c" using c n(3) by (simp add: unat_of_nat)
    ultimately have "unat (k * ch + word_of_nat c) = unat k * unat ch + c"
      by (simp add: unat_word_ariths)
    with lt show ?thesis by blast
  qed
  have "\<exists>ys. those (map (\<lambda>c. case (nth_opt xs (unat (i0 * ch + word_of_nat c)), nth_opt xs (unat (i1 * ch + word_of_nat c))) of
      (Some s0, Some s1) \<Rightarrow> Some (fadd F32 s0 (fmul F32 (fsub F32 ?p (of_u64 F32 i0)) (fsub F32 s1 s0)))
    | _ \<Rightarrow> None) [0..<unat ch]) = Some ys \<and> length ys = length [0..<unat ch] \<and> list_all (\<lambda>_. True) ys"
  proof (rule those_map_ex)
    fix c assume "c \<in> set [0..<unat ch]"
    then have "c < unat ch" by simp
    then show "\<exists>y. (case (nth_opt xs (unat (i0 * ch + word_of_nat c)), nth_opt xs (unat (i1 * ch + word_of_nat c))) of
      (Some s0, Some s1) \<Rightarrow> Some (fadd F32 s0 (fmul F32 (fsub F32 ?p (of_u64 F32 i0)) (fsub F32 s1 s0)))
    | _ \<Rightarrow> None) = Some y \<and> True"
      using idx [OF i0] idx [OF i1] by (simp add: nth_opt_def)
  qed
  then show ?thesis unfolding resample_frame_def Let_def i0_def i1_def by auto
qed

text \<open>
  C24. \<open>resample_linear\<close> stays within the file: for a rate ratio \<open>r\<close> and at most \<open>r * 2 ^ 22\<close> frames
  (so at most about \<open>2 ^ 22\<close> frames of output) it returns, and the output has the frames announced.
\<close>

theorem resample_in_bounds:
  assumes xs: "vec_ok xs" and ch: "unat channels < 2 ^ 16"
    and ratio: "fdiv F32 from_sr to_sr = Num r" "0 < r" "r \<le> 2 ^ 20"
    and n: "n = vlen xs div channels" "unat n \<le> 2 ^ 24" "of_nat (unat n) \<le> r * 2 ^ 22"
  shows "\<exists>ys. resample_linear xs channels from_sr to_sr = Some ys
    \<and> length ys = (if xs = [] \<or> channels = 0 then 0 else unat (output_frames n (Num r)) * unat channels)"
proof (cases "xs = [] \<or> channels = 0")
  case False
  let ?out = "output_frames n (Num r)"
  have c0: "0 < unat channels" using False by (simp add: unat_gt_0)
  have out: "unat ?out \<le> 2 ^ 23"
    using resample_pos [OF n(2,3) ratio(2) refl ratio(3), of "unat ?out - 1"] by (cases "unat ?out") auto
  then have "unat ?out * unat channels \<le> 2 ^ 23 * 2 ^ 16" using ch by (intro mult_mono) simp_all
  then have cap: "unat (?out * channels) < 2 ^ 61" by (simp add: unat_word_ariths)
  have "\<exists>ys. those (map (resample_frame xs channels n (Num r)) [0..<unat ?out]) = Some ys
      \<and> length ys = length [0..<unat ?out] \<and> list_all (\<lambda>y. length y = unat channels) ys"
  proof (rule those_map_ex)
    fix f assume "f \<in> set [0..<unat ?out]"
    then have "f < unat ?out" by simp
    from resample_pos [OF n(2,3) ratio(2) refl ratio(3) this]
    show "\<exists>y. resample_frame xs channels n (Num r) f = Some y \<and> length y = unat channels"
      by (intro resample_frame_total [OF n(1) c0 ch xs]) blast
  qed
  then obtain ys where ys: "those (map (resample_frame xs channels n (Num r)) [0..<unat ?out]) = Some ys"
    "length ys = unat ?out" "list_all (\<lambda>y. length y = unat channels) ys" by auto
  have "length (concat ys) = length ys * unat channels" using ys(3) by (induction ys) auto
  then show ?thesis using False ys cap ratio(1) n(1)
    by (simp add: resample_linear_def Let_def not_le)
qed (simp add: resample_linear_def)

theorem resample_in_bounds_witness:
  "\<exists>ys. resample_linear (replicate 6 (Num 1)) 2 (Num 24000) (Num 48000) = Some ys \<and> length ys = 12"
proof -
  have r: "fdiv F32 (Num 24000) (Num 48000) = Num (1 / 2)" by code_simp
  have o: "unat (output_frames (vlen (replicate 6 (Num 1 :: fp)) div 2) (Num (1 / 2))) = 6" by code_simp
  show ?thesis
    using resample_in_bounds [of "replicate 6 (Num 1)" 2, OF _ _ r _ _ refl] o
    by (simp add: vec_ok_def vlen_def)
qed

section \<open>A file of three minutes stops the sound\<close>

lemma those_None: "x \<in> set xs \<Longrightarrow> f x = None \<Longrightarrow> those (map f xs) = None"
  by (induction xs) (auto split: option.splits)

lemma long_file_last_frame:
  assumes "length xs = 8388616"
  shows "resample_linear xs 1 (Num 44100) (Num 48000) = None"
proof -
  have n: "vlen xs div 1 = (8388616 :: usize)" using assms by (simp add: vlen_def)
  have r: "fdiv F32 (Num 44100) (Num 48000) = Num (15414067 / 16777216)" by code_simp
  have i: "of_u64 F32 (8388616 :: usize) = Num 8388616" "of_u64 F32 (9130466 :: usize) = Num 9130466"
    using of_u64_small [of "8388616 :: usize"] of_u64_small [of "9130466 :: usize"] by simp_all
  have q: "fdiv F32 (Num 8388616) (Num (15414067 / 16777216)) = Num 9130467" by code_simp
  have o: "output_frames (vlen xs div 1) (fdiv F32 (Num 44100) (Num 48000)) = 9130467"
    unfolding n r output_frames_def i q by simp
  have p: "fmul F32 (Num 9130466) (Num (15414067 / 16777216)) = Num 8388616" by code_simp
  have "resample_frame xs 1 8388616 (Num (15414067 / 16777216)) 9130466 = None"
    using assms i(2) p by (simp add: resample_frame_def nth_opt_def)
  then have "those (map (resample_frame xs 1 (vlen xs div 1) (fdiv F32 (Num 44100) (Num 48000)))
      [0..<unat (9130467 :: usize)]) = None"
    unfolding n r by (rule those_None [rotated]) simp
  moreover have "xs \<noteq> []" using assms by auto
  ultimately show ?thesis
    unfolding resample_linear_def Let_def o by simp
qed

lemma poisoned_step:
  "thread_step ftanh run w th th' \<Longrightarrow> th_poisoned th \<Longrightarrow> th_gone th \<Longrightarrow>
   th_poisoned th' \<and> th_gone th' \<and> th_engine th' = th_engine th"
  by (induction rule: thread_step.induct)
     (auto simp: preview_thread_def audio_callback_def split: option.splits)

lemma poisoned_steps:
  assumes "(thread_step ftanh run w)\<^sup>*\<^sup>* th th'" "th_poisoned th" "th_gone th"
  shows "th_poisoned th' \<and> th_gone th' \<and> th_engine th' = th_engine th"
  using assms by (induction rule: rtranclp_induct) (use poisoned_step in fastforce)+

text \<open>
  C25. Beyond that it may read behind the last frame.  A mono file at 44100 frames a second of
  8388616 frames, a little more than three minutes, loaded as a clip into an engine at 48000 does
  so while the engine is locked: the command thread is gone and the mutex poisoned, whatever
  happens later the engine stays as it was, and every block of the callback is silence.
\<close>

theorem long_file_silences:
  assumes wav: "wd_wav w name = Some wav" "wv_channels wav = 1" "wv_sample_rate wav = 44100"
      "length (raw_samples wav) = 8388616"
    and sr: "en_sample_rate (th_engine th) = Num 48000"
    and cmd: "th_queue th = LoadClip i name position duration offset t s # cs"
    and later: "(thread_step ftanh run w)\<^sup>*\<^sup>* (command_thread w busy th) th'"
  shows "th_gone th' \<and> th_poisoned th' \<and> th_engine th' = th_engine th
    \<and> audio_callback ftanh run locked_now len th' = Some (th', replicate len (Num 0))"
proof -
  have sr': "file_sr wav = Num 44100" using wav(3) of_u64_small [of "44100 :: u32"]
    by (simp add: file_sr_def)
  have d: "lt (Num 1) (fabs (fsub F32 (Num 44100) (Num 48000)))" by code_simp
  have "load_at (Num 48000) wav = None"
    using long_file_last_frame [OF wav(4)] wav(2) d
    by (simp add: load_at_def at_rate_def sr' file_channels_def)
  then have "command_thread w busy th = th\<lparr>th_queue := [], th_gone := True, th_poisoned := True\<rparr>"
    using wav(1) sr cmd by (simp add: command_thread_def locked_def)
  with poisoned_steps [OF later] show ?thesis by (simp add: audio_callback_def)
qed

definition demo_world :: "WavFile \<Rightarrow> unit world" where
  "demo_world wav = \<lparr> wd_wav = (\<lambda>_. Some wav), wd_load = (\<lambda>_ _. Inl ''none''), wd_set_sr = (\<lambda>_ i. i),
     wd_set_param = (\<lambda>i _ _. (False, i)) \<rparr>"

definition demo_threads :: "f32 \<Rightarrow> GuiCommand list \<Rightarrow> unit threads" where
  "demo_threads sr cs = \<lparr> th_engine = engine_with_clocks sr 0 0, th_queue = cs, th_previews = [],
     th_gone = False, th_poisoned = False \<rparr>"

lemma decoded_replicate: "decoded (replicate n (Some x)) = replicate n x"
  by (simp add: decoded_def)

definition demo_song :: WavFile where
  "demo_song = \<lparr> wv_channels = 1, wv_sample_rate = 44100, wv_bits = 32, wv_duration = 8388616,
     wv_data = FloatData (replicate 8388616 (Some (Num 1))) \<rparr>"

definition demo_load :: "unit threads" where
  "demo_load = demo_threads (Num 48000) [LoadClip 1 ''song.wav'' (Num 0) (Num 0) (Num 0) 0 0, Play]"

theorem long_file_silences_witness:
  "th_poisoned (command_thread (demo_world demo_song) False demo_load)"
proof -
  have "length (raw_samples demo_song) = 8388616"
    by (simp add: raw_samples_def demo_song_def decoded_replicate)
  then show ?thesis
    using long_file_silences [of "demo_world demo_song" "''song.wav''" demo_song demo_load 1 "Num 0" "Num 0"
        "Num 0" 0 0 "[Play]" "\<lambda>x. x" "\<lambda>i xs. (xs, i)" False
        "command_thread (demo_world demo_song) False demo_load" False 1024]
    by (simp add: demo_load_def demo_world_def demo_threads_def engine_with_clocks_def)
       (simp add: demo_song_def)
qed

section \<open>Previews and busy engines\<close>

text \<open>
  Of two samples clicked one after the other, the first one may be what is heard: each is decoded
  by its own thread, and the generation counter of the player does not know the order of the clicks.
\<close>

lemma previews_finish_in_any_order:
  assumes "th_previews th = [f, g]" "\<not> th_poisoned th"
    and "wd_wav w f = Some w1" "load_at (en_sample_rate (th_engine th)) w1 = Some xf"
    and "wd_wav w g = Some w2" "load_at (en_sample_rate (th_engine th)) w2 = Some xg"
  shows "\<exists>th'. (thread_step ftanh run w)\<^sup>*\<^sup>* th th' \<and> th_previews th' = []
    \<and> pb_data (pp_shared (en_preview (th_engine th'))) = xf"
proof -
  let ?a = "preview_thread w g (th\<lparr>th_previews := [f]\<rparr>)"
  let ?b = "preview_thread w f (?a\<lparr>th_previews := []\<rparr>)"
  have a: "thread_step ftanh run w th ?a"
    using thread_step.preview [of th "[f]" g "[]" ftanh run w] assms(1) by simp
  have pa: "th_previews ?a = [f]" using assms by (simp add: preview_thread_def)
  have "thread_step ftanh run w ?a ?b"
    using thread_step.preview [of ?a "[]" f "[]" ftanh run w] pa by simp
  with a have "(thread_step ftanh run w)\<^sup>*\<^sup>* th ?b" by (meson converse_rtranclp_into_rtranclp r_into_rtranclp)
  moreover have "th_previews ?b = [] \<and> pb_data (pp_shared (en_preview (th_engine ?b))) = xf"
    using assms by (simp add: preview_thread_def on_preview_def preview_play_def preview_start_def Let_def)
  ultimately show ?thesis by blast
qed

text \<open>The mixer commands are dropped while the engine is busy; no other command but the
  synchronisation of the timeline (which then assumes 44100 frames a second) notices.\<close>

definition mixer_command :: "GuiCommand \<Rightarrow> bool" where
  "mixer_command c = (case c of
     SetTrackVolume _ _ \<Rightarrow> True | SetTrackPan _ _ \<Rightarrow> True | SetTrackMute _ _ \<Rightarrow> True
   | SetTrackSolo _ _ \<Rightarrow> True | SetMasterVolume _ \<Rightarrow> True | _ \<Rightarrow> False)"

lemma busy_drops_mixer_commands:
  "if mixer_command c then handle_command w True c e = Served e
   else (\<forall>clips. c \<noteq> SyncPlaylistClips clips) \<longrightarrow> handle_command w True c e = handle_command w False c e"
  by (cases c) (simp_all add: mixer_command_def)

end
