(* ===== verification/MatrixEdit.thy ===== *)
theory MatrixEdit
  imports GuiMatrix
begin

text \<open>
  What the session grid of the interface promises (crates/hikaru_gui/src/views/matrix.rs): no edit
  panics, the grid stays rectangular with one identifier per clip, a split keeps the samples; and
  where loading samples does something else than it means to.
\<close>

section \<open>The grid stays rectangular\<close>

text \<open>A row per track and a slot per scene.\<close>

definition grid_ok :: "SessionMatrixState \<Rightarrow> bool" where
  "grid_ok s \<longleftrightarrow> length (sm_grid s) = length (sm_tracks s)
     \<and> (\<forall>row \<in> set (sm_grid s). length row = length (sm_scenes s))
     \<and> length (sm_tracks s) < 2 ^ 62 \<and> length (sm_scenes s) < 2 ^ 62 \<and> sm_scenes s \<noteq> []"

lemma get_slot_Some:
  "get_slot s t sc = Some slot \<longleftrightarrow> unat t < length (sm_grid s) \<and> unat sc < length (sm_grid s ! unat t)
     \<and> slot = sm_grid s ! unat t ! unat sc"
  by (auto simp: get_slot_def nth_opt_def split: if_splits)

lemma get_slot_None:
  "get_slot s t sc = None \<longleftrightarrow> \<not> (unat t < length (sm_grid s) \<and> unat sc < length (sm_grid s ! unat t))"
  by (auto simp: get_slot_def nth_opt_def split: if_splits)

lemma grid_okD:
  assumes "grid_ok s"
  shows "length (sm_grid s) = length (sm_tracks s)"
    "t < length (sm_tracks s) \<Longrightarrow> length (sm_grid s ! t) = length (sm_scenes s)"
  using assms by (auto simp: grid_ok_def)

lemma get_slot_range:
  assumes "grid_ok s"
  shows "get_slot s t sc = None \<longleftrightarrow> \<not> (unat t < length (sm_tracks s) \<and> unat sc < length (sm_scenes s))"
  using grid_okD[OF assms] by (auto simp: get_slot_None)

lemma put_slot_fields [simp]:
  "sm_tracks (put_slot t sc slot s) = sm_tracks s" "sm_scenes (put_slot t sc slot s) = sm_scenes s"
  "sm_next_clip_id (put_slot t sc slot s) = sm_next_clip_id s" "sm_selected_slot (put_slot t sc slot s) = sm_selected_slot s"
  by (simp_all add: put_slot_def)

lemma put_slot_ok: "grid_ok s \<Longrightarrow> grid_ok (put_slot t sc slot s)"
  by (cases "unat t < length (sm_grid s)")
    (auto simp: grid_ok_def put_slot_def list_update_beyond dest: set_update_subset_insert[THEN subsetD])

lemma get_put_slot:
  "get_slot s t sc \<noteq> None \<Longrightarrow> get_slot (put_slot t sc slot s) t' sc' = (if t' = t \<and> sc' = sc then Some slot else get_slot s t' sc')"
  by (auto simp: get_slot_def put_slot_def nth_opt_def nth_list_update word_eq_nat split: if_splits)

lemma stop_others_length: "stop_others n sc row = Some row' \<Longrightarrow> length row' = length row"
  by (auto simp: stop_others_def split: if_splits)

lemma stop_others_total: "length row = n \<Longrightarrow> stop_others n sc row \<noteq> None"
  by (auto simp: stop_others_def)

lemma stop_others_nth:
  "stop_others n sc row = Some row' \<Longrightarrow> i < length row \<Longrightarrow>
   row' ! i = (if i < n \<and> i \<noteq> sc \<and> sl_state (row ! i) = SlotPlaying then (row ! i)\<lparr>sl_state := SlotStopped\<rparr> else row ! i)"
  by (auto simp: stop_others_def nth_enumerate_eq split: if_splits)

lemma replace_row_ok:
  "grid_ok s \<Longrightarrow> length row = length (sm_scenes s) \<Longrightarrow> grid_ok (s\<lparr>sm_grid := (sm_grid s)[t := row]\<rparr>)"
  by (auto simp: grid_ok_def dest: set_update_subset_insert[THEN subsetD])

lemma place_copy_ok:
  assumes "grid_ok s" "unat t < length (sm_tracks s)" "unat sc < length (sm_scenes s)"
  shows "\<exists>s' cmds. place_copy t sc slot s = Some (s', cmds) \<and> grid_ok s'
     \<and> sm_next_clip_id s' = sm_next_clip_id s + 1
     \<and> get_slot s' t sc = Some (slot\<lparr>sl_clip := map_option (\<lambda>c. c\<lparr>xc_id := sm_next_clip_id s\<rparr>) (sl_clip slot)\<rparr>)"
proof -
  let ?s = "s\<lparr>sm_next_clip_id := sm_next_clip_id s + 1\<rparr>"
  have ok: "grid_ok ?s" using assms(1) by (simp add: grid_ok_def)
  have get: "get_slot ?s t sc \<noteq> None"
    using get_slot_range[OF ok, of t sc] assms by simp
  then show ?thesis
    using get_put_slot[OF get] put_slot_ok[OF ok] by (simp add: place_copy_def Let_def)
qed

lemma launch_row_ok:
  assumes "grid_ok s" "t < length (sm_tracks s)" "unat sc < length (sm_scenes s)"
  shows "\<exists>s' cmds. launch_row sc t s = Some (s', cmds) \<and> grid_ok s' \<and> sm_tracks s' = sm_tracks s \<and> sm_scenes s' = sm_scenes s"
proof -
  note len = grid_okD[OF assms(1)]
  obtain row' where row': "stop_others (length (sm_scenes s)) (unat sc) (sm_grid s ! t) = Some row'"
    using stop_others_total[OF len(2)[OF assms(2)]] by blast
  have "length row' = length (sm_scenes s)"
    using stop_others_length[OF row'] len(2)[OF assms(2)] by simp
  then show ?thesis
    using assms len row' by (auto simp: launch_row_def nth_opt_def Let_def replace_row_ok)
qed

lemma launch_rows_ok:
  assumes "grid_ok s" "\<forall>t \<in> set ts. t < length (sm_tracks s)" "unat sc < length (sm_scenes s)"
  shows "\<exists>s' cmds. launch_rows sc ts s = Some (s', cmds) \<and> grid_ok s' \<and> sm_tracks s' = sm_tracks s \<and> sm_scenes s' = sm_scenes s"
  using assms
proof (induction ts arbitrary: s)
  case (Cons t ts)
  obtain s1 c1 where s1: "launch_row sc t s = Some (s1, c1)" "grid_ok s1" "sm_tracks s1 = sm_tracks s" "sm_scenes s1 = sm_scenes s"
    using launch_row_ok[of s t sc] Cons.prems by auto
  obtain s2 c2 where "launch_rows sc ts s1 = Some (s2, c2)" "grid_ok s2" "sm_tracks s2 = sm_tracks s1" "sm_scenes s2 = sm_scenes s1"
    using Cons.IH[OF s1(2)] Cons.prems s1 by auto
  with s1 show ?case by simp
qed simp

section \<open>Identifiers of clips\<close>

definition id_at :: "SessionMatrixState \<Rightarrow> nat \<times> nat \<Rightarrow> usize option" where
  "id_at s = (\<lambda>(t, sc). case nth_opt (sm_grid s) t of None \<Rightarrow> None
     | Some row \<Rightarrow> (case nth_opt row sc of None \<Rightarrow> None | Some slot \<Rightarrow> map_option xc_id (sl_clip slot)))"

definition ids_ok :: "nat \<Rightarrow> ('k \<rightharpoonup> usize) \<Rightarrow> bool" where
  "ids_ok n f \<longleftrightarrow> (\<forall>k i. f k = Some i \<longrightarrow> unat i < n) \<and> inj_on f (dom f)"

lemma ids_ok_le: "ids_ok n f \<Longrightarrow> f' \<subseteq>\<^sub>m f \<Longrightarrow> n \<le> m \<Longrightarrow> ids_ok m f'"
proof -
  assume ok: "ids_ok n f" and le: "f' \<subseteq>\<^sub>m f" and m: "n \<le> m"
  have "f' k = f k" if "k \<in> dom f'" for k using le that by (simp add: map_le_def)
  moreover have "dom f' \<subseteq> dom f" by (rule map_le_implies_dom_le[OF le])
  ultimately have "inj_on f' (dom f')"
    using ok by (metis ids_ok_def inj_on_cong inj_on_subset)
  moreover have "unat i < m" if "f' k = Some i" for k i
  proof -
    from that le have "f k = Some i" by (force simp: map_le_def)
    then show ?thesis using ok m unfolding ids_ok_def by (meson less_le_trans)
  qed
  ultimately show ?thesis by (simp add: ids_ok_def)
qed

lemma ids_ok_upd:
  assumes "ids_ok n f" "unat i = n"
  shows "ids_ok (n + 1) (f(k \<mapsto> i))"
proof -
  have "f k' \<noteq> Some i" for k' using assms by (auto simp: ids_ok_def)
  then have "inj_on (f(k \<mapsto> i)) (dom (f(k \<mapsto> i)))"
    using assms(1) by (auto simp: ids_ok_def inj_on_def)
  then show ?thesis using assms by (auto simp: ids_ok_def less_Suc_eq)
qed

definition matrix_ok :: "SessionMatrixState \<Rightarrow> bool" where
  "matrix_ok s \<longleftrightarrow> grid_ok s \<and> ids_ok (unat (sm_next_clip_id s)) (id_at s)"

lemma id_at_slot: "id_at s (unat t, unat sc) = (case get_slot s t sc of None \<Rightarrow> None | Some slot \<Rightarrow> map_option xc_id (sl_clip slot))"
  by (simp add: id_at_def get_slot_def split: option.split)

lemma id_at_put:
  assumes "get_slot s t sc \<noteq> None"
  shows "id_at (put_slot t sc slot s) = (id_at s)((unat t, unat sc) := map_option xc_id (sl_clip slot))"
proof (rule ext)
  fix k :: "nat \<times> nat"
  obtain a b where k: "k = (a, b)" by force
  show "id_at (put_slot t sc slot s) k = ((id_at s)((unat t, unat sc) := map_option xc_id (sl_clip slot))) k"
    using assms unfolding k
    by (auto simp: id_at_def put_slot_def nth_opt_def get_slot_def nth_list_update split: if_splits)
qed

lemma id_at_update [simp]: "id_at (s\<lparr>sm_next_clip_id := n\<rparr>) = id_at s" "id_at (s\<lparr>sm_selected_slot := x\<rparr>) = id_at s"
  by (simp_all add: id_at_def fun_eq_iff)

lemma id_at_row:
  assumes "t < length (sm_grid s)" "length row = length (sm_grid s ! t)"
    "\<And>i. i < length row \<Longrightarrow> map_option xc_id (sl_clip (row ! i)) = map_option xc_id (sl_clip (sm_grid s ! t ! i))"
  shows "id_at (s\<lparr>sm_grid := (sm_grid s)[t := row]\<rparr>) = id_at s"
proof (rule ext)
  fix k :: "nat \<times> nat"
  obtain a b where k: "k = (a, b)" by force
  show "id_at (s\<lparr>sm_grid := (sm_grid s)[t := row]\<rparr>) k = id_at s k"
    using assms unfolding k by (auto simp: id_at_def nth_opt_def nth_list_update)
qed

lemma start_slot_id [simp]: "map_option xc_id (sl_clip (start_slot slot)) = map_option xc_id (sl_clip slot)"
  by (simp add: start_slot_def map_option.compositionality comp_def)

lemma stop_others_id:
  "stop_others n sc row = Some row' \<Longrightarrow> i < length row \<Longrightarrow> sl_clip (row' ! i) = sl_clip (row ! i)"
  by (simp add: stop_others_nth)

lemma launch_row_id: "launch_row sc t s = Some (s', cmds) \<Longrightarrow> id_at s' = id_at s \<and> sm_next_clip_id s' = sm_next_clip_id s"
proof -
  assume l: "launch_row sc t s = Some (s', cmds)"
  then obtain row slot where row: "nth_opt (sm_grid s) t = Some row" "nth_opt row (unat sc) = Some slot"
    by (auto simp: launch_row_def split: option.splits)
  show ?thesis
  proof (cases "sl_clip slot = None")
    case True
    then show ?thesis using l row by (simp add: launch_row_def)
  next
    case False
    then obtain row' where row': "stop_others (length (sm_scenes s)) (unat sc) row = Some row'"
      and s': "s' = s\<lparr>sm_grid := (sm_grid s)[t := row'[unat sc := start_slot slot]]\<rparr>"
      using l row by (auto simp: launch_row_def Let_def split: option.splits)
    have "id_at s' = id_at s"
      unfolding s' using row stop_others_id[OF row'] stop_others_length[OF row']
      by (intro id_at_row) (auto simp: nth_opt_Some nth_list_update)
    then show ?thesis using s' by simp
  qed
qed

lemma launch_rows_id:
  "launch_rows sc ts s = Some (s', cmds) \<Longrightarrow> id_at s' = id_at s \<and> sm_next_clip_id s' = sm_next_clip_id s"
  by (induction ts arbitrary: s s' cmds) (auto split: option.splits dest!: launch_row_id)

section \<open>Every edit of the grid\<close>

datatype grid_event =
    NewTrack | DropTrack | NewScene | DropScene
  | Copy usize usize | Cut usize usize | Paste usize usize | Duplicate usize usize | Delete usize usize
  | Pad usize usize | Scene usize | Load usize usize path | Poll "usize \<Rightarrow> usize \<Rightarrow> bool"

type_synonym grid_env = "(string \<Rightarrow> string) \<times> (path \<Rightarrow> WavFile option) \<times> (string \<Rightarrow> usize \<Rightarrow> f32 list)"

fun grid_step :: "grid_env \<Rightarrow> grid_event \<Rightarrow> SessionMatrixState \<times> MatrixClipboard
    \<Rightarrow> ((SessionMatrixState \<times> MatrixClipboard) \<times> GuiCommand list) option" where
  "grid_step env NewTrack (s, cb) = Some ((add_track s, cb), [])"
| "grid_step env DropTrack (s, cb) = Some ((remove_track s, cb), [])"
| "grid_step env NewScene (s, cb) = Some ((add_scene s, cb), [])"
| "grid_step env DropScene (s, cb) = Some ((remove_scene s, cb), [])"
| "grid_step env (Copy t sc) (s, cb) = Some ((s, copy_slot t sc s cb), [])"
| "grid_step env (Cut t sc) (s, cb) = (let (s, cb, cmds) = cut_slot t sc s cb in Some ((s, cb), cmds))"
| "grid_step env (Paste t sc) (s, cb) = map_option (\<lambda>(s, cmds). ((s, cb), cmds)) (paste_slot t sc cb s)"
| "grid_step env (Duplicate t sc) (s, cb) = map_option (\<lambda>(s, cmds). ((s, cb), cmds)) (duplicate_slot t sc s)"
| "grid_step env (Delete t sc) (s, cb) = (let (s, cmds) = delete_slot t sc s in Some ((s, cb), cmds))"
| "grid_step env (Pad t sc) (s, cb) = map_option (\<lambda>(s, cmds). ((s, cb), cmds)) (trigger_pad t sc s)"
| "grid_step env (Scene sc) (s, cb) = map_option (\<lambda>(s, cmds). ((s, cb), cmds)) (matrix_launch_scene sc s)"
| "grid_step (lower, wav, peaks) (Load t sc p) (s, cb) =
     map_option (\<lambda>(s, cmds). ((s, cb), cmds)) (load_clip_into_slot lower wav peaks t sc p s)"
| "grid_step env (Poll f) (s, cb) = map_option (\<lambda>(_, s). ((s, cb), [])) (poll_finished_pads f s)"

text \<open>The interface acts on pads and scenes it shows; there is room for one more row and column.\<close>

fun on_screen :: "SessionMatrixState \<Rightarrow> grid_event \<Rightarrow> bool" where
  "on_screen s (Scene sc) \<longleftrightarrow> unat sc < length (sm_scenes s)"
| "on_screen s (Paste t sc) \<longleftrightarrow> unat t < length (sm_tracks s) \<and> unat sc < length (sm_scenes s)"
| "on_screen s (Duplicate t sc) \<longleftrightarrow> unat t < length (sm_tracks s) \<and> unat sc < length (sm_scenes s)"
| "on_screen s (Load t sc p) \<longleftrightarrow> unat t < length (sm_tracks s) \<and> unat sc < length (sm_scenes s)"
| "on_screen s NewTrack \<longleftrightarrow> length (sm_tracks s) + 1 < 2 ^ 62"
| "on_screen s NewScene \<longleftrightarrow> length (sm_scenes s) + 1 < 2 ^ 62"
| "on_screen s _ \<longleftrightarrow> True"

text \<open>How an operation may change the identifiers: drop some, and put the next one somewhere.\<close>

lemma matrix_ok_keep:
  "matrix_ok s \<Longrightarrow> grid_ok s' \<Longrightarrow> id_at s' \<subseteq>\<^sub>m id_at s \<Longrightarrow> sm_next_clip_id s' = sm_next_clip_id s \<Longrightarrow> matrix_ok s'"
  unfolding matrix_ok_def by (auto intro: ids_ok_le)

lemma matrix_ok_new:
  assumes "matrix_ok s" "grid_ok s'" "id_at s' \<subseteq>\<^sub>m (id_at s)(k \<mapsto> sm_next_clip_id s)"
    "sm_next_clip_id s' = sm_next_clip_id s + 1" "sm_next_clip_id s \<noteq> - 1"
  shows "matrix_ok s'"
proof -
  have "unat (sm_next_clip_id s') = unat (sm_next_clip_id s) + 1"
    using unat_inc[OF assms(5)] by (simp add: assms(4) unat_word_ariths)
  moreover have "ids_ok (unat (sm_next_clip_id s) + 1) ((id_at s)(k \<mapsto> sm_next_clip_id s))"
    using assms(1) by (intro ids_ok_upd) (simp_all add: matrix_ok_def)
  ultimately show ?thesis
    using assms(2,3) by (auto simp: matrix_ok_def intro: ids_ok_le)
qed

lemma map_le_upd_None: "f \<subseteq>\<^sub>m g \<Longrightarrow> f(k := None) \<subseteq>\<^sub>m g(k \<mapsto> v)"
  by (auto simp: map_le_def)

lemma map_le_upd_opt: "x = None \<or> x = Some v \<Longrightarrow> f(k := x) \<subseteq>\<^sub>m f(k \<mapsto> v)"
  by (auto simp: map_le_def)

lemma add_track_ok: "matrix_ok s \<Longrightarrow> length (sm_tracks s) + 1 < 2 ^ 62 \<Longrightarrow> matrix_ok (add_track s)"
proof (rule matrix_ok_keep, assumption)
  assume "matrix_ok s" "length (sm_tracks s) + 1 < 2 ^ 62"
  then show "grid_ok (add_track s)" by (auto simp: matrix_ok_def grid_ok_def add_track_def)
  show "id_at (add_track s) \<subseteq>\<^sub>m id_at s"
    by (auto simp: map_le_def id_at_def add_track_def nth_opt_def nth_append slot_default_def split: if_splits)
qed (simp add: add_track_def)

lemma add_scene_ok: "matrix_ok s \<Longrightarrow> length (sm_scenes s) + 1 < 2 ^ 62 \<Longrightarrow> matrix_ok (add_scene s)"
proof (rule matrix_ok_keep, assumption)
  assume "matrix_ok s" "length (sm_scenes s) + 1 < 2 ^ 62"
  then show "grid_ok (add_scene s)" by (auto simp: matrix_ok_def grid_ok_def add_scene_def)
  show "id_at (add_scene s) \<subseteq>\<^sub>m id_at s"
    by (auto simp: map_le_def id_at_def add_scene_def nth_opt_def nth_append slot_default_def split: if_splits)
qed (simp add: add_scene_def)

lemma remove_track_ok: "matrix_ok s \<Longrightarrow> matrix_ok (remove_track s)"
proof (rule matrix_ok_keep, assumption)
  assume "matrix_ok s"
  then show "grid_ok (remove_track s)"
    by (auto simp: matrix_ok_def grid_ok_def remove_track_def Let_def dest: in_set_butlastD split: option.split)
  show "id_at (remove_track s) \<subseteq>\<^sub>m id_at s"
    by (auto simp: map_le_def id_at_def remove_track_def Let_def nth_opt_def nth_butlast split: option.splits if_splits)
qed (auto simp: remove_track_def Let_def split: option.split)

lemma remove_scene_ok: "matrix_ok s \<Longrightarrow> matrix_ok (remove_scene s)"
proof (rule matrix_ok_keep, assumption)
  assume "matrix_ok s"
  moreover have "1 < length (sm_scenes s) \<Longrightarrow> butlast (sm_scenes s) \<noteq> []"
    by (cases "sm_scenes s" rule: rev_cases) auto
  ultimately show "grid_ok (remove_scene s)"
    by (auto simp: matrix_ok_def grid_ok_def remove_scene_def Let_def split: option.split)
  show "id_at (remove_scene s) \<subseteq>\<^sub>m id_at s"
    by (auto simp: map_le_def id_at_def remove_scene_def Let_def nth_opt_def nth_butlast split: option.splits if_splits)
qed (auto simp: remove_scene_def Let_def split: option.split)

lemma put_slot_keep:
  assumes "matrix_ok s" "get_slot s t sc \<noteq> None"
    "map_option xc_id (sl_clip slot) \<in> {None, id_at s (unat t, unat sc)}"
  shows "matrix_ok (put_slot t sc slot s)"
proof (rule matrix_ok_keep[OF assms(1)])
  show "grid_ok (put_slot t sc slot s)" using assms(1) by (simp add: matrix_ok_def put_slot_ok)
  show "id_at (put_slot t sc slot s) \<subseteq>\<^sub>m id_at s"
    unfolding id_at_put[OF assms(2)] using assms(3) by (auto simp: map_le_def)
qed simp

lemma delete_slot_ok: "matrix_ok s \<Longrightarrow> matrix_ok (fst (delete_slot t sc s))"
  using put_slot_keep[of s t sc slot_default] by (auto simp: delete_slot_def slot_default_def split: option.split)

lemma place_copy_spec:
  assumes ok: "matrix_ok s" and r: "unat t < length (sm_tracks s)" "unat sc < length (sm_scenes s)"
    and id: "sm_next_clip_id s \<noteq> - 1"
  shows "\<exists>s' cmds. place_copy t sc slot s = Some (s', cmds) \<and> matrix_ok s'"
proof -
  let ?s = "s\<lparr>sm_next_clip_id := sm_next_clip_id s + 1\<rparr>"
  let ?slot = "slot\<lparr>sl_clip := map_option (\<lambda>c. c\<lparr>xc_id := sm_next_clip_id s\<rparr>) (sl_clip slot)\<rparr>"
  have g: "grid_ok s" using ok by (simp add: matrix_ok_def)
  then have g': "grid_ok ?s" by (simp add: grid_ok_def)
  have get: "get_slot ?s t sc \<noteq> None" using get_slot_range[OF g', of t sc] r by simp
  have "matrix_ok (put_slot t sc ?slot ?s)"
  proof (rule matrix_ok_new[OF ok _ _ _ id])
    show "id_at (put_slot t sc ?slot ?s) \<subseteq>\<^sub>m (id_at s)((unat t, unat sc) \<mapsto> sm_next_clip_id s)"
      unfolding id_at_put[OF get] id_at_update by (rule map_le_upd_opt) (cases "sl_clip slot"; simp)
  qed (simp_all add: put_slot_ok[OF g'])
  then show ?thesis using get by (simp add: place_copy_def Let_def)
qed

lemma trigger_pad_ok:
  assumes "matrix_ok s"
  shows "\<exists>s' cmds. trigger_pad t sc s = Some (s', cmds) \<and> matrix_ok s'"
proof (cases "get_slot s t sc")
  case None
  then show ?thesis using assms by (simp add: trigger_pad_def)
next
  case (Some slot)
  have g: "grid_ok s" using assms by (simp add: matrix_ok_def)
  have id: "id_at s (unat t, unat sc) = map_option xc_id (sl_clip slot)" using Some by (simp add: id_at_slot)
  have stop: "matrix_ok (put_slot t sc (slot\<lparr>sl_state := SlotStopped\<rparr>) s)"
    using assms Some id by (intro put_slot_keep) auto
  have t: "unat t < length (sm_grid s)" "unat sc < length (sm_grid s ! unat t)" using Some by (simp_all add: get_slot_Some)
  obtain row where row: "stop_others (length (sm_scenes s)) (unat sc) (sm_grid s ! unat t) = Some row"
    using stop_others_total[of "sm_grid s ! unat t"] grid_okD[OF g] t by fastforce
  note len = stop_others_length[OF row]
  let ?s = "s\<lparr>sm_grid := (sm_grid s)[unat t := row]\<rparr>"
  have ids: "id_at ?s = id_at s"
    using t len stop_others_id[OF row] by (intro id_at_row) simp_all
  have "grid_ok ?s" using g t len grid_okD[OF g] by (intro replace_row_ok) simp_all
  then have ok': "matrix_ok ?s" using assms ids by (simp add: matrix_ok_def)
  have "get_slot ?s t sc \<noteq> None" using t len by (auto simp: get_slot_None)
  then have "matrix_ok (put_slot t sc (start_slot slot) ?s)"
    using ok' ids id by (intro put_slot_keep) simp_all
  then show ?thesis
    using Some row stop assms by (auto simp: trigger_pad_def Let_def split: SlotState.split)
qed

lemma matrix_launch_scene_ok:
  assumes "matrix_ok s" "unat sc < length (sm_scenes s)"
  shows "\<exists>s' cmds. matrix_launch_scene sc s = Some (s', cmds) \<and> matrix_ok s'"
proof -
  have g: "grid_ok s" using assms by (simp add: matrix_ok_def)
  obtain s' cmds where s': "launch_rows sc [0..<length (sm_tracks s)] s = Some (s', cmds)" "grid_ok s'"
    using launch_rows_ok[OF g _ assms(2), of "[0..<length (sm_tracks s)]"] by auto
  with launch_rows_id[OF s'(1)] show ?thesis
    using assms(1) by (simp add: matrix_launch_scene_def matrix_ok_def)
qed

lemma poll_finished_pads_ok:
  assumes "matrix_ok s"
  shows "\<exists>n s'. poll_finished_pads f s = Some (n, s') \<and> matrix_ok s'"
proof -
  have g: "grid_ok s" using assms by (simp add: matrix_ok_def)
  define g' where "g' = map (\<lambda>(t, row). if t < length (sm_tracks s)
       then map (\<lambda>(sc, slot). if sc < length (sm_scenes s) \<and> finished_pad f t sc slot then slot\<lparr>sl_state := SlotStopped\<rparr> else slot) (enumerate 0 row)
       else row) (enumerate 0 (sm_grid s))"
  have ids: "id_at (s\<lparr>sm_grid := g'\<rparr>) = id_at s"
    by (auto simp: id_at_def fun_eq_iff g'_def nth_opt_def nth_enumerate_eq)
  have "grid_ok (s\<lparr>sm_grid := g'\<rparr>)"
    using g by (auto simp: grid_ok_def g'_def in_set_enumerate_eq)
  then have ok: "matrix_ok (s\<lparr>sm_grid := g'\<rparr>)" using ids assms by (simp add: matrix_ok_def)
  have "\<not> length (sm_grid s) < length (sm_tracks s)"
    "\<forall>row \<in> set (take (length (sm_tracks s)) (sm_grid s)). \<not> length row < length (sm_scenes s)"
    using g by (auto simp: grid_ok_def)
  then show ?thesis
    using ok by (auto simp: poll_finished_pads_def Let_def g'_def[symmetric] grid_ok_def assms)
qed

lemma alloc_event_id_clip_id [simp]: "xc_id (snd (alloc_event_id c)) = xc_id c"
  by (simp add: alloc_event_id_def Let_def split: ClipData.split)

lemma set_audio_events_id [simp]: "xc_id (set_audio_events es c) = xc_id c"
  by (simp add: set_audio_events_def split: ClipData.split)

lemma refresh_preview_id [simp]: "xc_id (refresh_preview c) = xc_id c"
  by (simp add: refresh_preview_def Let_def split: ClipData.split)

lemma append_sample_id [simp]: "xc_id (fst (append_sample_as_event wav peaks t sc p c)) = xc_id c"
proof -
  obtain i d where a: "alloc_event_id c = (i, d)" by force
  then have "xc_id d = xc_id c" using alloc_event_id_clip_id[of c] by simp
  then show ?thesis using a by (simp add: append_sample_as_event_def Let_def split: option.split prod.split)
qed

lemma matrix_ok_skip:
  assumes "matrix_ok s" "grid_ok s'" "id_at s' \<subseteq>\<^sub>m id_at s"
    "sm_next_clip_id s' = sm_next_clip_id s + 1" "sm_next_clip_id s \<noteq> - 1"
  shows "matrix_ok s'"
proof -
  have "unat (sm_next_clip_id s') = unat (sm_next_clip_id s) + 1"
    using unat_inc[OF assms(5)] by (simp add: assms(4) unat_word_ariths)
  with assms(1-3) show ?thesis by (auto simp: matrix_ok_def intro: ids_ok_le)
qed

lemma load_clip_into_slot_ok:
  assumes ok: "matrix_ok s" and r: "unat t < length (sm_tracks s)" "unat sc < length (sm_scenes s)"
    and id: "sm_next_clip_id s \<noteq> - 1"
  shows "\<exists>s' cmds. load_clip_into_slot lower wav peaks t sc p s = Some (s', cmds) \<and> matrix_ok s'"
proof -
  let ?s = "s\<lparr>sm_next_clip_id := sm_next_clip_id s + 1\<rparr>"
  have g': "grid_ok ?s" using ok by (simp add: matrix_ok_def grid_ok_def)
  obtain slot where slot: "get_slot ?s t sc = Some slot" using get_slot_range[OF g', of t sc] r by fastforce
  have at: "id_at s (unat t, unat sc) = map_option xc_id (sl_clip slot)"
    using slot id_at_slot[of ?s t sc] by simp
  have put: "id_at (put_slot t sc x ?s) = (id_at s)((unat t, unat sc) := map_option xc_id (sl_clip x))" for x
    using slot by (simp add: id_at_put)
  have kept: "matrix_ok (put_slot t sc x ?s)" if "map_option xc_id (sl_clip x) = map_option xc_id (sl_clip slot)" for x
    using that at by (intro matrix_ok_skip[OF ok _ _ _ id]) (auto simp: put put_slot_ok[OF g'] map_le_def)
  have new: "matrix_ok (put_slot t sc x ?s)" if "map_option xc_id (sl_clip x) = Some (sm_next_clip_id s)" for x
    using that by (intro matrix_ok_new[OF ok _ _ _ id]) (auto simp: put put_slot_ok[OF g'] map_le_def)
  have app: "matrix_ok (put_slot t sc (slot\<lparr>sl_clip := Some c'\<rparr>) ?s)"
    if "append_sample_as_event wav peaks t sc p c = (c', cmds)" "sl_clip slot = Some c" for c c' cmds
    using that append_sample_id[of wav peaks t sc p c] by (intro kept) simp
  show ?thesis
    using slot by (auto simp: load_clip_into_slot_def Let_def fresh_clip_def intro: new app
        split: option.splits prod.splits)
qed

lemma grid_step_ok:
  assumes "matrix_ok s" "on_screen s ev" "sm_next_clip_id s \<noteq> - 1"
  shows "\<exists>s' cb' cmds. grid_step env ev (s, cb) = Some ((s', cb'), cmds) \<and> matrix_ok s'"
proof (cases ev)
  case (Cut t sc)
  with delete_slot_ok[OF assms(1), of t sc] show ?thesis by (simp add: cut_slot_def Let_def split_beta)
next
  case (Paste t sc)
  then show ?thesis
    using assms place_copy_spec[OF assms(1), of t sc] by (fastforce simp: paste_slot_def split: option.split)
next
  case (Duplicate t sc)
  let ?target = "min (sc + 1) (vlen (sm_scenes s) - 1)"
  have g: "grid_ok s" using assms(1) by (simp add: matrix_ok_def)
  then have n: "unat (vlen (sm_scenes s)) = length (sm_scenes s)" "0 < length (sm_scenes s)"
    by (auto simp: grid_ok_def unat_vlen)
  then have "unat (vlen (sm_scenes s) - 1) = length (sm_scenes s) - 1"
    by (subst unat_sub_le) (auto simp: word_le_nat_alt Suc_le_eq)
  then have "unat ?target < length (sm_scenes s)" using n by (simp add: unat_min min_less_iff_disj)
  moreover obtain slot where "get_slot s t sc = Some slot"
    using get_slot_range[OF g, of t sc] assms(2) Duplicate by fastforce
  ultimately show ?thesis
    using assms Duplicate place_copy_spec[OF assms(1), of t ?target slot] by (auto simp: duplicate_slot_def Let_def)
next
  case (Delete t sc)
  with delete_slot_ok[OF assms(1), of t sc] show ?thesis by (simp add: split_beta)
next
  case (Pad t sc)
  with trigger_pad_ok[OF assms(1), of t sc] show ?thesis by auto
next
  case (Scene sc)
  with matrix_launch_scene_ok[OF assms(1), of sc] assms(2) show ?thesis by auto
next
  case (Load t sc p)
  obtain lower wav peaks where "env = (lower, wav, peaks)" by (cases env)
  with Load load_clip_into_slot_ok[OF assms(1) _ _ assms(3), of t sc lower wav peaks p] assms(2) show ?thesis by auto
next
  case (Poll f)
  with poll_finished_pads_ok[OF assms(1), of f] show ?thesis by auto
qed (use assms add_track_ok add_scene_ok remove_track_ok remove_scene_ok in auto)


text \<open>The states the interface reaches from a fresh session.\<close>

inductive grid_reach :: "grid_env \<Rightarrow> SessionMatrixState \<Rightarrow> MatrixClipboard \<Rightarrow> bool" for env where
  fresh: "length tracks < 2 ^ 62 \<Longrightarrow> length scenes < 2 ^ 62 \<Longrightarrow> scenes \<noteq> [] \<Longrightarrow>
    grid_reach env (session_default tracks scenes) clipboard_new"
| edit: "grid_reach env s cb \<Longrightarrow> on_screen s ev \<Longrightarrow> sm_next_clip_id s \<noteq> - 1 \<Longrightarrow>
    grid_step env ev (s, cb) = Some ((s', cb'), cmds) \<Longrightarrow> grid_reach env s' cb'"

inductive_cases grid_reachE: "grid_reach env s cb"

lemma session_default_ok:
  assumes "length tracks < 2 ^ 62" "length scenes < 2 ^ 62" "scenes \<noteq> []"
  shows "matrix_ok (session_default tracks scenes)"
  using assms
  by (auto simp: matrix_ok_def grid_ok_def session_default_def ids_ok_def id_at_def nth_opt_def slot_default_def
      intro!: inj_onI split: if_splits)

text \<open>
  C19. No edit of the session grid panics on the pads the interface shows, whatever was done before:
  the grid stays rectangular, and every clip keeps an identifier of its own below the next one.
\<close>

theorem grid_never_panics:
  assumes "grid_reach env s cb"
  shows "matrix_ok s \<and> (\<forall>ev. on_screen s ev \<and> sm_next_clip_id s \<noteq> - 1 \<longrightarrow> grid_step env ev (s, cb) \<noteq> None)"
proof -
  from assms have "matrix_ok s"
  proof (induction rule: grid_reach.induct)
    case (edit s cb ev s' cb' cmds)
    from grid_step_ok[OF edit.IH edit.hyps(2,3), of env cb] edit.hyps(4) show ?case by auto
  qed (rule session_default_ok)
  with grid_step_ok[OF this] show ?thesis by fastforce
qed

theorem grid_never_panics_witness:
  "grid_step (id, \<lambda>_. None, \<lambda>_ _. []) (Load 0 1 [''a.wav'']) (session_default [demo_meta] [''A'', ''B''], clipboard_new) \<noteq> None"
proof -
  have "grid_reach (id, \<lambda>_. None, \<lambda>_ _. []) (session_default [demo_meta] [''A'', ''B'']) clipboard_new"
    by (rule grid_reach.fresh) simp_all
  from grid_never_panics[OF this, THEN conjunct2, rule_format, of "Load 0 1 [''a.wav'']"]
  show ?thesis by (simp only: on_screen.simps) (simp add: session_default_def)
qed

section \<open>Samples on a pad\<close>

definition chs :: "AudioEvent \<Rightarrow> nat" where
  "chs e = unat (max (av_channels e) 1)"

lemma chs_pos: "0 < chs e"
  by (simp add: chs_def unat_max)

lemma unat_total_frames: "vec_ok (av_samples e) \<Longrightarrow> unat (av_total_frames e) = length (av_samples e) div chs e"
  by (simp add: av_total_frames_def unat_div unat_vlen_ok chs_def)

lemma unat_frames:
  "vec_ok (av_samples e) \<Longrightarrow>
   unat (av_frames e) = min (length (av_samples e) div chs e - unat (av_trim_left_frames e)) (unat (av_visible_frames e))"
  by (simp add: av_frames_def unat_min unat_sat_sub unat_total_frames)

lemma window_samples_eq:
  assumes v: "vec_ok (av_samples e)" and f: "0 < unat (av_frames e)"
  shows "window_samples e = take (unat (av_frames e) * chs e) (drop (unat (av_trim_left_frames e) * chs e) (av_samples e))"
proof -
  let ?n = "length (av_samples e)" and ?T = "unat (av_trim_left_frames e)" and ?F = "unat (av_frames e)" and ?c = "chs e"
  have le: "?T + ?F \<le> ?n div ?c" using f unfolding unat_frames[OF v] by linarith
  have "(?T + ?F) * ?c \<le> ?n" using mult_le_mono1[OF le, of ?c] by (meson div_times_less_eq_dividend le_trans)
  then have sum: "?T * ?c + ?F * ?c \<le> ?n" by (simp add: add_mult_distrib)
  have n: "?n < 2 ^ 62" using v by (simp add: vec_ok_def)
  have T: "unat (av_trim_left_frames e * max (av_channels e) 1) = ?T * ?c"
    using sum n by (simp add: unat_word_ariths chs_def)
  have F: "unat (av_frames e * max (av_channels e) 1) = ?F * ?c"
    using sum n by (simp add: unat_word_ariths chs_def)
  have start: "unat (min (av_trim_left_frames e * max (av_channels e) 1) (vlen (av_samples e))) = ?T * ?c"
    using sum by (simp add: unat_min T unat_vlen_ok[OF v])
  then have st: "min (av_trim_left_frames e * max (av_channels e) 1) (vlen (av_samples e)) = av_trim_left_frames e * max (av_channels e) 1"
    by (simp add: word_eq_nat T)
  have "unat (av_trim_left_frames e * max (av_channels e) 1 + av_frames e * max (av_channels e) 1) = ?T * ?c + ?F * ?c"
    using sum n by (subst unat_add_small) (simp_all add: T F)
  then have "unat (min (av_trim_left_frames e * max (av_channels e) 1 + av_frames e * max (av_channels e) 1) (vlen (av_samples e))) = ?T * ?c + ?F * ?c"
    using sum by (simp add: unat_min unat_vlen_ok[OF v])
  then show ?thesis by (simp add: window_samples_def Let_def st T)
qed

text \<open>
  C20. A split keeps the samples: what the two parts play, one after the other, is what the event
  played, and the right part starts where the left one ends in the file.
\<close>

theorem split_keeps_samples:
  assumes split: "av_split_at at_secs i name e = (l, Some r)"
    and v: "vec_ok (av_samples e)"
  shows "window_samples l @ window_samples r = window_samples e
    \<and> av_trim_left_frames r = av_trim_left_frames l + av_frames l \<and> av_frames l + av_frames r = av_frames e"
proof -
  obtain cut where cut: "cut \<noteq> 0" "cut < av_frames e"
    and l: "l = e\<lparr>av_visible_frames := cut, av_fade_out_secs := Num 0\<rparr>"
    and r: "r = e\<lparr>av_id := i, av_name := name, av_start_secs := at_secs,
        av_trim_left_frames := av_trim_left_frames e + cut, av_visible_frames := av_frames e - cut, av_fade_in_secs := Num 0\<rparr>"
    using split by (auto simp: av_split_at_def Let_def not_le split: if_splits)
  let ?n = "length (av_samples e)" and ?T = "unat (av_trim_left_frames e)" and ?F = "unat (av_frames e)" and ?c = "chs e"
  have c: "chs l = ?c" "chs r = ?c" by (simp_all add: chs_def l r)
  have vs: "vec_ok (av_samples l)" "vec_ok (av_samples r)" using v by (simp_all add: l r)
  have k: "0 < unat cut" "unat cut < ?F" using cut by (simp_all add: unat_gt_0 word_less_nat_alt)
  have F: "?F \<le> ?n div ?c - ?T" unfolding unat_frames[OF v] by simp
  have "?n div ?c \<le> ?n" by (rule div_le_dividend)
  then have small: "?T + unat cut < 2 ^ 62" using k F v unfolding vec_ok_def by linarith
  then have T: "unat (av_trim_left_frames e + cut) = ?T + unat cut" by (subst unat_add_small) simp_all
  have D: "unat (av_frames e - cut) = ?F - unat cut" using k by (simp add: unat_sub_le word_le_nat_alt)
  have fl: "unat (av_frames l) = unat cut" unfolding unat_frames[OF vs(1)] c using k F by (simp add: l)
  have fr: "unat (av_frames r) = ?F - unat cut" unfolding unat_frames[OF vs(2)] c using k F by (simp add: r T D)
  have wl: "window_samples l = take (unat cut * ?c) (drop (?T * ?c) (av_samples e))"
    using window_samples_eq[OF vs(1)] k unfolding fl c by (simp add: l)
  have wr: "window_samples r = take ((?F - unat cut) * ?c) (drop ((?T + unat cut) * ?c) (av_samples e))"
    using window_samples_eq[OF vs(2)] k unfolding fr c by (simp add: r T)
  have we: "window_samples e = take (?F * ?c) (drop (?T * ?c) (av_samples e))"
    using window_samples_eq[OF v] k by simp
  have "?F * ?c = unat cut * ?c + (?F - unat cut) * ?c" using k by (simp flip: add_mult_distrib)
  then have "window_samples l @ window_samples r = window_samples e"
    unfolding wl wr we by (simp add: take_add add_mult_distrib add.commute)
  moreover have "av_frames l = cut" using fl by (simp add: word_eq_nat)
  moreover have "av_frames r = av_frames e - cut" using fr D by (simp add: word_eq_nat)
  ultimately show ?thesis by (simp add: l r)
qed

definition demo_event :: AudioEvent where
  "demo_event = new_full 1 ''a'' [Num 1, Num 2, Num 3, Num 4] 1 1 (Num 0)"

lemma demo_floats:
  "of_u64 F64 (4 :: 64 word) = Num 4" "of_u64 F64 (1 :: 32 word) = Num 1" "fdiv F64 (Num 4) (Num 1) = Num 4"
  "fadd F64 (Num 0) (Num 4) = Num 4" "fsub F64 (Num 3) (Num 0) = Num 3" "fmul F64 (Num 3) (Num 1) = Num 3"
  "fround (Num 3) = Num 3"
  using mk_small[of 3 F64] mk_small[of 4 F64] of_u64_exact[of "4 :: 64 word"] of_u64_exact[of "1 :: 32 word"]
  by (simp_all add: fdiv_def fadd_def fsub_def fmul_def floor_eq_iff)

lemma demo_event_split:
  "case av_split_at (Num 3) 2 ''b'' demo_event of (l, None) \<Rightarrow> False | (l, Some r) \<Rightarrow> window_samples r = [Num 4]"
  by (simp add: av_split_at_def demo_event_def new_full_def end_secs_def duration_secs_def av_frames_def av_total_frames_def
      vlen_def sat_sub_def demo_floats le_def feq_def window_samples_def Let_def del: fround.simps)

theorem split_keeps_samples_witness:
  "\<exists>l r. av_split_at (Num 3) 2 ''b'' demo_event = (l, Some r) \<and> window_samples l @ [Num 4] = window_samples demo_event"
proof -
  obtain l r where s: "av_split_at (Num 3) 2 ''b'' demo_event = (l, Some r)" "window_samples r = [Num 4]"
    using demo_event_split by (auto split: prod.splits option.splits)
  have "vec_ok (av_samples demo_event)" by (simp add: vec_ok_def demo_event_def new_full_def)
  from split_keeps_samples[OF s(1) this] s show ?thesis by auto
qed

text \<open>
  A sample dropped on an empty pad is loaded by its file and makes no event; the next sample
  dropped there becomes the only event of the pad, at its beginning, and the engine is told to
  play just that one.  The pad was meant to be extended by the second sample.
\<close>

lemma second_sample_replaces_first:
  assumes empty: "get_slot s t sc = Some slot" "sl_clip slot = None"
    and wavs: "\<not> is_midi_file lower p" "\<not> is_midi_file lower q" "decode_audio_file (wav q) = Some (samples, channels, sr)"
    and first: "load_clip_into_slot lower wav peaks t sc p s = Some (s1, cmds1)"
    and second: "load_clip_into_slot lower wav peaks t sc q s1 = Some (s2, cmds2)"
  shows "\<exists>slot2 clip ev. get_slot s2 t sc = Some slot2 \<and> sl_clip slot2 = Some clip \<and> audio_events clip = [ev]
    \<and> av_source_path ev = Some q \<and> av_samples ev = samples \<and> av_start_secs ev = Num 0
    \<and> cmds2 = [SetClipEvents t sc [event_payload ev]]"
proof -
  let ?c = "fresh_clip (sm_next_clip_id s) p False (wav_length (wav p)) (peaks (show_path p) PEAK_BINS) (sm_editor_zoom_x s)"
  let ?slot1 = "\<lparr> sl_state = SlotStopped, sl_clip = Some ?c \<rparr>"
  let ?s0 = "s\<lparr>sm_next_clip_id := sm_next_clip_id s + 1\<rparr>"
  have get0: "get_slot ?s0 t sc = Some slot" using empty(1) by (simp add: get_slot_def)
  have s1: "s1 = put_slot t sc ?slot1 ?s0"
    using first empty wavs(1) get0 by (auto simp: load_clip_into_slot_def Let_def split: if_splits)
  let ?s1 = "s1\<lparr>sm_next_clip_id := sm_next_clip_id s1 + 1\<rparr>"
  have "get_slot s1 t sc = Some ?slot1"
    unfolding s1 using get0 by (subst get_put_slot) simp_all
  then have get1: "get_slot ?s1 t sc = Some ?slot1" by (simp add: get_slot_def)
  define ev where "ev = (new_full 1 (stem_name q) samples channels sr (Num 0))\<lparr>av_source_path := Some q\<rparr>"
  obtain c2 where c2: "append_sample_as_event wav peaks t sc q ?c = (c2, cmds2)" "s2 = put_slot t sc (?slot1\<lparr>sl_clip := Some c2\<rparr>) ?s1"
    using second wavs(2) get1 by (auto simp: load_clip_into_slot_def Let_def is_midi_slot_def fresh_clip_def split: prod.splits)
  have "audio_events c2 = [ev] \<and> cmds2 = [SetClipEvents t sc [event_payload ev]]"
    using c2(1) wavs(3)
    by (auto simp: append_sample_as_event_def Let_def fresh_clip_def alloc_event_id_def set_audio_events_def audio_events_def
        audio_total_secs_def refresh_preview_def sync_audio_events_to_engine_def ev_def)
  moreover have "get_slot s2 t sc = Some (?slot1\<lparr>sl_clip := Some c2\<rparr>)"
    unfolding c2(2) using get1 by (subst get_put_slot) simp_all
  ultimately show ?thesis by (simp add: ev_def new_full_def)
qed

definition demo_wav :: "path \<Rightarrow> WavFile option" where
  "demo_wav p = Some \<lparr> wv_channels = 1, wv_sample_rate = 44100, wv_bits = 32, wv_duration = 1, wv_data = FloatData [Some (Num 1)] \<rparr>"

lemma second_sample_replaces_first_witness:
  "\<exists>s1 c1 s2 ev. load_clip_into_slot id demo_wav (\<lambda>_ _. []) 0 0 [''a.wav''] (session_default [demo_meta] [''A'']) = Some (s1, c1)
    \<and> load_clip_into_slot id demo_wav (\<lambda>_ _. []) 0 0 [''b.wav''] s1 = Some (s2, [SetClipEvents 0 0 [ev]])"
proof -
  let ?s = "session_default [demo_meta] [''A'']"
  have ok: "matrix_ok ?s" by (rule session_default_ok) simp_all
  obtain s1 c1 where s1: "load_clip_into_slot id demo_wav (\<lambda>_ _. []) 0 0 [''a.wav''] ?s = Some (s1, c1)" "matrix_ok s1"
    using load_clip_into_slot_ok[OF ok, of 0 0 id demo_wav "\<lambda>_ _. []" "[''a.wav'']"] by (auto simp: session_default_def)
  have get: "get_slot ?s 0 0 = Some slot_default" by (simp add: get_slot_def session_default_def nth_opt_def)
  have f: "sm_tracks s1 = [demo_meta]" "sm_scenes s1 = [''A'']" "sm_next_clip_id s1 = 2"
    using s1(1) by (auto simp: load_clip_into_slot_def Let_def session_default_def sync_midi_clip_def slot_default_def
        get_slot_def nth_opt_def split: if_splits)
  obtain s2 c2 where s2: "load_clip_into_slot id demo_wav (\<lambda>_ _. []) 0 0 [''b.wav''] s1 = Some (s2, c2)"
    using load_clip_into_slot_ok[OF s1(2), of 0 0 id demo_wav "\<lambda>_ _. []" "[''b.wav'']"] by (auto simp: f)
  have "decode_audio_file (demo_wav [''b.wav'']) = Some ([Num 1], 1, 44100)"
    by (simp add: decode_audio_file_def demo_wav_def decoded_def)
  then show ?thesis
    using second_sample_replaces_first[OF get _ _ _ _ s1(1) s2] s1(1) s2
    by (auto simp: slot_default_def is_midi_file_def extension_def split_name_def)
qed

text \<open>
  An integer WAV of 32 bits: the full scale is \<open>1 << 31\<close> computed in \<open>i32\<close>, which is negative, so
  every sample comes out with its sign turned.
\<close>

lemma shl_i32_31: "shl_i32 31 = - (2 ^ 31)"
  by (simp add: shl_i32_def)

lemma decode_int32_turns_signs:
  assumes "wv_bits w = 32" "wv_data w = IntData xs" "decoded xs \<noteq> []"
  shows "decode_audio_file (Some w)
    = Some (map (\<lambda>x. fdiv F32 (f32_of_int x) (f32_of_int (- (2 ^ 31)))) (decoded xs), ucast (wv_channels w), wv_sample_rate w)"
proof -
  have "shl_i32 (wv_bits w - 1) = - (2 ^ 31)" using shl_i32_31 by (simp add: assms(1))
  then show ?thesis using assms by (simp add: decode_audio_file_def Let_def)
qed

end
