(* ===== verification/SessionLink.thy ===== *)
theory SessionLink
  imports SampleLoading MatrixEdit
begin

text \<open>
  The session grid of the interface (views/matrix.rs) and the clips of the engine, joined by the
  commands the grid sends and the thread that applies them (main.rs): launching pads and scenes
  keeps what is shown and what sounds in agreement, with the cases in which it does not.
\<close>

section \<open>The grid and the pads of the engine\<close>

text \<open>
  At most one pad of a track is shown playing, and none is queued (no operation queues one).
\<close>

definition session_ok :: "SessionMatrixState \<Rightarrow> bool" where
  "session_ok s \<longleftrightarrow> grid_ok s
     \<and> (\<forall>t sc slot. get_slot s t sc = Some slot \<longrightarrow> sl_state slot \<notin> {QueuedToPlay, QueuedToStop})
     \<and> (\<forall>t i j x y. get_slot s t i = Some x \<and> get_slot s t j = Some y
          \<and> sl_state x = SlotPlaying \<and> sl_state y = SlotPlaying \<longrightarrow> i = j)"

text \<open>What sounds is what is shown: a clip of the engine plays when its slot is shown playing.\<close>

definition pads_agree :: "SessionMatrixState \<Rightarrow> 'i AudioEngine \<Rightarrow> bool" where
  "pads_agree s e \<longleftrightarrow> (\<forall>c \<in> set (en_clips e).
     case get_slot s (ai_track_index c) (ai_scene_index c) of
       None \<Rightarrow> True
     | Some slot \<Rightarrow> ai_is_playing c \<longleftrightarrow> sl_state slot = SlotPlaying)"

definition quiet :: "MatrixSlot \<Rightarrow> MatrixSlot" where
  "quiet x = (if sl_state x = SlotPlaying then x\<lparr>sl_state := SlotStopped\<rparr> else x)"

lemma quiet_state: "sl_state (quiet x) \<noteq> SlotPlaying" "sl_state (quiet x) \<in> {sl_state x, SlotStopped}"
  by (simp_all add: quiet_def)

lemma start_slot_state [simp]: "sl_state (start_slot x) = SlotPlaying"
  by (simp add: start_slot_def)

lemma pads_agreeD:
  "pads_agree s e \<Longrightarrow> c \<in> set (en_clips e) \<Longrightarrow> get_slot s (ai_track_index c) (ai_scene_index c) = Some slot \<Longrightarrow>
   ai_is_playing c \<longleftrightarrow> sl_state slot = SlotPlaying"
  by (fastforce simp: pads_agree_def)

lemma session_okD:
  assumes "session_ok s"
  shows "grid_ok s"
    "get_slot s t sc = Some slot \<Longrightarrow> sl_state slot \<notin> {QueuedToPlay, QueuedToStop}"
    "get_slot s t i = Some x \<Longrightarrow> get_slot s t j = Some y \<Longrightarrow> sl_state x = SlotPlaying \<Longrightarrow>
     sl_state y = SlotPlaying \<Longrightarrow> i = j"
  using assms unfolding session_ok_def by blast+

text \<open>
  An edit of the states of some rows: a row with a new pad has it playing and the rest quiet.
\<close>

definition row_edit :: "SessionMatrixState \<Rightarrow> (usize \<Rightarrow> usize option) \<Rightarrow> SessionMatrixState \<Rightarrow> bool" where
  "row_edit s f s' \<longleftrightarrow> (\<forall>t sc. map_option sl_state (get_slot s' t sc) =
     map_option (\<lambda>x. case f t of None \<Rightarrow> sl_state x
        | Some p \<Rightarrow> if sc = p then SlotPlaying else sl_state (quiet x)) (get_slot s t sc))"

lemma row_edit_cases:
  assumes "row_edit s f s'" "get_slot s' t sc = Some y"
  obtains x where "get_slot s t sc = Some x"
    "sl_state y = (case f t of None \<Rightarrow> sl_state x | Some p \<Rightarrow> if sc = p then SlotPlaying else sl_state (quiet x))"
proof -
  have "map_option sl_state (get_slot s' t sc) =
     map_option (\<lambda>x. case f t of None \<Rightarrow> sl_state x
        | Some p \<Rightarrow> if sc = p then SlotPlaying else sl_state (quiet x)) (get_slot s t sc)"
    using assms(1) unfolding row_edit_def by blast
  then show ?thesis using assms(2) that by (cases "get_slot s t sc") auto
qed

lemma row_edit_ok:
  assumes ok: "session_ok s" and e: "row_edit s f s'" and g: "grid_ok s'"
  shows "session_ok s'"
  unfolding session_ok_def
proof (intro conjI allI impI)
  fix t sc y assume "get_slot s' t sc = Some y"
  from row_edit_cases [OF e this] obtain x where x: "get_slot s t sc = Some x"
    "sl_state y = (case f t of None \<Rightarrow> sl_state x | Some p \<Rightarrow> if sc = p then SlotPlaying else sl_state (quiet x))" .
  show "sl_state y \<notin> {QueuedToPlay, QueuedToStop}"
    using session_okD(2) [OF ok x(1)] quiet_state(2) [of x] x(2) by (auto split: option.splits if_splits)
next
  fix t i j y z
  assume a: "get_slot s' t i = Some y \<and> get_slot s' t j = Some z \<and> sl_state y = SlotPlaying \<and> sl_state z = SlotPlaying"
  then have y: "get_slot s' t i = Some y" and z: "get_slot s' t j = Some z" by simp_all
  from row_edit_cases [OF e y] obtain x where x: "get_slot s t i = Some x"
    "sl_state y = (case f t of None \<Rightarrow> sl_state x | Some p \<Rightarrow> if i = p then SlotPlaying else sl_state (quiet x))" .
  from row_edit_cases [OF e z] obtain w where w: "get_slot s t j = Some w"
    "sl_state z = (case f t of None \<Rightarrow> sl_state w | Some p \<Rightarrow> if j = p then SlotPlaying else sl_state (quiet w))" .
  show "i = j"
    using session_okD(3) [OF ok x(1) w(1)] a x(2) w(2) quiet_state(1) by (auto split: option.splits if_splits)
qed (rule g)

lemma get_slot_row:
  "unat t < length (sm_grid s) \<Longrightarrow>
   get_slot (s\<lparr>sm_grid := (sm_grid s)[unat t := row]\<rparr>) t' sc
     = (if t' = t then nth_opt row (unat sc) else get_slot s t' sc)"
  by (auto simp: get_slot_def nth_opt_def nth_list_update word_eq_nat)

lemma stop_others_quiet:
  "stop_others n sc row = Some row' \<Longrightarrow> length row = n \<Longrightarrow> i \<noteq> sc \<Longrightarrow>
   nth_opt row' i = map_option quiet (nth_opt row i)"
  by (auto simp: nth_opt_def stop_others_length stop_others_nth quiet_def)

text \<open>The row of a launched pad, in a click or in a scene.\<close>

lemma launch_edit:
  assumes ok: "grid_ok s" and slot: "get_slot s t sc = Some slot"
    and row: "stop_others (length (sm_scenes s)) (unat sc) (sm_grid s ! unat t) = Some row"
  shows "row_edit s ((\<lambda>_. None)(t := Some sc))
      (s\<lparr>sm_grid := (sm_grid s)[unat t := row[unat sc := start_slot slot]]\<rparr>)"
  unfolding row_edit_def
proof (intro allI)
  fix t' sc'
  have len: "unat t < length (sm_grid s)" "unat sc < length (sm_grid s ! unat t)"
    using slot by (simp_all add: get_slot_Some)
  have ln: "length (sm_grid s ! unat t) = length (sm_scenes s)"
    using ok len(1) by (simp add: grid_ok_def)
  have q: "nth_opt row (unat sc') = map_option quiet (nth_opt (sm_grid s ! unat t) (unat sc'))" if "sc' \<noteq> sc"
    using stop_others_quiet [OF row ln, of "unat sc'"] that by (simp add: word_eq_nat)
  have g: "get_slot s t sc' = nth_opt (sm_grid s ! unat t) (unat sc')"
    using len(1) by (simp add: get_slot_def nth_opt_def)
  have g0: "nth_opt (sm_grid s ! unat t) (unat sc) = Some slot"
    using slot len(1) by (simp add: get_slot_def nth_opt_def)
  have l: "length row = length (sm_grid s ! unat t)" by (rule stop_others_length [OF row])
  have u: "nth_opt (row[unat sc := start_slot slot]) (unat k) =
      (if k = sc then Some (start_slot slot) else nth_opt row (unat k))" for k
    using len(2) l by (auto simp: nth_opt_def word_eq_nat)
  show "map_option sl_state (get_slot (s\<lparr>sm_grid := (sm_grid s)[unat t := row[unat sc := start_slot slot]]\<rparr>) t' sc')
    = map_option (\<lambda>x. case ((\<lambda>_. None)(t := Some sc)) t' of None \<Rightarrow> sl_state x
        | Some p \<Rightarrow> if sc' = p then SlotPlaying else sl_state (quiet x)) (get_slot s t' sc')"
    using slot q g by (cases "sc' = sc") (simp_all add: get_slot_row [OF len(1)] u g0 option.map_comp comp_def)
qed


lemma update_midi_clips [simp]: "en_clips (update_midi_clip e t s notes) = en_clips e"
  by (simp add: update_midi_clip_def Let_def)

lemma notes_clips:
  "\<exists>e'. (\<forall>cs. serve w (sync_midi_clip s t sc @ cs) e = serve w cs e') \<and> en_clips e' = en_clips e
     \<and> en_transport e' = en_transport e \<and> en_absolute_frame e' = en_absolute_frame e"
  by (auto simp: sync_midi_clip_def update_midi_clip_def Let_def split: option.split ClipData.split)

lemma target_playing_agree:
  assumes ag: "pads_agree s e" and slot: "get_slot s t sc = Some slot"
  shows "target_playing e t sc \<longleftrightarrow> sl_state slot = SlotPlaying \<and> (\<exists>c \<in> set (en_clips e). at_slot t sc c)"
proof (cases "find (at_slot t sc) (en_clips e)")
  case None
  then have "\<not> (\<exists>c \<in> set (en_clips e). at_slot t sc c)" by (auto simp: find_None_iff)
  then show ?thesis using None by (simp add: target_playing_def)
next
  case (Some c)
  then have c: "c \<in> set (en_clips e)" "at_slot t sc c"
    using Some by (auto simp: find_Some_iff)
  then show ?thesis
    using pads_agreeD [OF ag c(1)] slot Some by (auto simp: target_playing_def at_slot_def)
qed

text \<open>One launched pad in a row of the grid is one launched clip in a track of the engine.\<close>

lemma launch_agree:
  assumes ok: "session_ok s" and ag: "pads_agree s e" and e: "row_edit s f s'"
    and clips: "\<And>c. c \<in> set (en_clips e') \<Longrightarrow> get_slot s' (ai_track_index c) (ai_scene_index c) \<noteq> None \<Longrightarrow> \<exists>d \<in> set (en_clips e).
        ai_track_index c = ai_track_index d \<and> ai_scene_index c = ai_scene_index d
        \<and> ai_is_playing c = (case f (ai_track_index d) of None \<Rightarrow> ai_is_playing d
            | Some p \<Rightarrow> ai_scene_index d = p)"
  shows "pads_agree s' e'"
  unfolding pads_agree_def
proof
  fix c assume c: "c \<in> set (en_clips e')"
  show "case get_slot s' (ai_track_index c) (ai_scene_index c) of None \<Rightarrow> True
      | Some slot \<Rightarrow> ai_is_playing c \<longleftrightarrow> sl_state slot = SlotPlaying"
  proof (cases "get_slot s' (ai_track_index c) (ai_scene_index c)")
    case (Some y)
    from clips [OF c] Some obtain d where d: "d \<in> set (en_clips e)"
      "ai_track_index c = ai_track_index d" "ai_scene_index c = ai_scene_index d"
      "ai_is_playing c = (case f (ai_track_index d) of None \<Rightarrow> ai_is_playing d | Some p \<Rightarrow> ai_scene_index d = p)"
      by blast
    from row_edit_cases [OF e Some] obtain x where x: "get_slot s (ai_track_index d) (ai_scene_index d) = Some x"
      "sl_state y = (case f (ai_track_index d) of None \<Rightarrow> sl_state x
         | Some p \<Rightarrow> if ai_scene_index d = p then SlotPlaying else sl_state (quiet x))"
      using d(2,3) by metis
    show ?thesis
      using pads_agreeD [OF ag d(1) x(1)] d(4) x(2) Some quiet_state(1) [of x]
      by (cases "f (ai_track_index d)") auto
  qed simp
qed

text \<open>
  C21. Clicking a pad of the session grid changes what sounds the way it changes what is shown:
  if every clip of the engine in a slot of the grid plays exactly when the slot is shown playing,
  this holds again after the click's commands are applied, whether the click launches a pad,
  replaces the one that plays in its track or stops it.
\<close>

theorem pad_click_agrees:
  assumes ok: "session_ok s" and ag: "pads_agree s e" and click: "trigger_pad t sc s = Some (s', cmds)"
  shows "\<exists>e'. serve w cmds e = Served e' \<and> session_ok s' \<and> pads_agree s' e'"
proof -
  note g = session_okD(1) [OF ok]
  show ?thesis
  proof (cases "get_slot s t sc")
    case None
    then show ?thesis using ok ag click by (simp add: trigger_pad_def)
  next
    case slot: (Some slot)
    consider (idle) "sl_clip slot = None \<or> sl_state slot = SlotEmpty"
      | (start) "sl_clip slot \<noteq> None" "sl_state slot = SlotStopped"
      | (halt) "sl_clip slot \<noteq> None" "sl_state slot = SlotPlaying"
      using session_okD(2) [OF ok slot] by (cases "sl_state slot") auto
    then show ?thesis
    proof cases
      case idle
      then show ?thesis using ok ag click slot by (auto simp: trigger_pad_def split: if_splits)
    next
      case start
      obtain row where row: "stop_others (length (sm_scenes s)) (unat sc) (sm_grid s ! unat t) = Some row"
        using click slot start by (auto simp: trigger_pad_def Let_def split: option.splits)
      let ?s = "s\<lparr>sm_grid := (sm_grid s)[unat t := row]\<rparr>"
      have tl: "unat t < length (sm_grid s)" using slot by (simp add: get_slot_Some)
      have s': "s' = s\<lparr>sm_grid := (sm_grid s)[unat t := row[unat sc := start_slot slot]]\<rparr>"
        and cmds: "cmds = sync_midi_clip ?s t sc @ [TriggerClip t sc]"
        using click slot start row tl by (simp_all add: trigger_pad_def Let_def put_slot_def)
      have e: "row_edit s ((\<lambda>_. None)(t := Some sc)) s'" unfolding s' by (rule launch_edit [OF g slot row])
      have "length row = length (sm_scenes s)"
        using stop_others_length [OF row] g tl by (simp add: grid_ok_def)
      then have g': "grid_ok s'" unfolding s' by (intro replace_row_ok [OF g]) simp
      obtain e1 where e1: "\<And>cs. serve w (sync_midi_clip ?s t sc @ cs) e = serve w cs e1" "en_clips e1 = en_clips e"
        using notes_clips [of w ?s t sc e] by blast
      have ag1: "pads_agree s e1" using ag e1(2) by (simp add: pads_agree_def)
      have np: "\<not> target_playing e1 t sc" using target_playing_agree [OF ag1 slot] start by simp
      have "pads_agree s' (trigger_clip e1 t sc)"
      proof (rule launch_agree [OF ok ag1 e])
        fix c assume "c \<in> set (en_clips (trigger_clip e1 t sc))"
        then obtain d where "d \<in> set (en_clips e1)" "c = launched e1 t sc d" by (auto simp: trigger_clip_map)
        then show "\<exists>d \<in> set (en_clips e1). ai_track_index c = ai_track_index d \<and> ai_scene_index c = ai_scene_index d
          \<and> ai_is_playing c = (case ((\<lambda>_. None)(t := Some sc)) (ai_track_index d) of None \<Rightarrow> ai_is_playing d
            | Some p \<Rightarrow> ai_scene_index d = p)"
          using np by (intro bexI [of _ d]) auto
      qed
      then show ?thesis using row_edit_ok [OF ok e g'] e1(1) cmds by simp
    next
      case halt
      have s': "s' = put_slot t sc (slot\<lparr>sl_state := SlotStopped\<rparr>) s" and cmds: "cmds = [TriggerClip t sc]"
        using click slot halt by (auto simp: trigger_pad_def split: option.splits)
      have get: "get_slot s' t' sc' = (if t' = t \<and> sc' = sc then Some (slot\<lparr>sl_state := SlotStopped\<rparr>) else get_slot s t' sc')" for t' sc'
        unfolding s' using get_put_slot [of s t sc] slot by simp
      have "session_ok s'"
        unfolding session_ok_def
      proof (intro conjI allI impI)
        show "grid_ok s'" unfolding s' by (rule put_slot_ok [OF g])
      next
        fix t sc slot assume "get_slot s' t sc = Some slot"
        then show "sl_state slot \<notin> {QueuedToPlay, QueuedToStop}"
          using session_okD(2) [OF ok] unfolding get by (auto split: if_splits)
      next
        fix t i j x y
        assume "get_slot s' t i = Some x \<and> get_slot s' t j = Some y \<and> sl_state x = SlotPlaying \<and> sl_state y = SlotPlaying"
        then show "i = j" using session_okD(3) [OF ok] unfolding get by (auto split: if_splits)
      qed
      moreover have "pads_agree s' (trigger_clip e t sc)"
        unfolding pads_agree_def
      proof
        fix c assume "c \<in> set (en_clips (trigger_clip e t sc))"
        then obtain d where d: "d \<in> set (en_clips e)" "c = launched e t sc d" by (auto simp: trigger_clip_map)
        have quiet_track: "sl_state x \<noteq> SlotPlaying" if "get_slot s t i = Some x" "i \<noteq> sc" for i x
          using session_okD(3) [OF ok that(1) slot] halt(2) that(2) by blast
        have off: "\<not> ai_is_playing c" if "ai_track_index d = t"
          using that d target_playing_agree [OF ag slot] halt(2) by (auto simp: at_slot_def)
        show "case get_slot s' (ai_track_index c) (ai_scene_index c) of None \<Rightarrow> True
          | Some slot \<Rightarrow> ai_is_playing c \<longleftrightarrow> sl_state slot = SlotPlaying"
        proof (cases "ai_track_index d = t")
          case True
          then show ?thesis using off d quiet_track unfolding get
            by (auto split: option.split)
        next
          case False
          then show ?thesis using d ag unfolding get
            by (auto simp: pads_agree_def split: option.split)
        qed
      qed
      ultimately show ?thesis using cmds by simp
    qed
  qed
qed


lemma row_edit_id: "row_edit s (\<lambda>_. None) s"
  by (simp add: row_edit_def)

lemma row_edit_comp:
  assumes "row_edit s f s1" "row_edit s1 g s2" "\<And>t. f t = None \<or> g t = None"
  shows "row_edit s (\<lambda>t. case g t of None \<Rightarrow> f t | Some p \<Rightarrow> Some p) s2"
  unfolding row_edit_def
proof (intro allI)
  fix t sc
  have 1: "map_option sl_state (get_slot s1 t sc) = map_option (\<lambda>x. case f t of None \<Rightarrow> sl_state x
        | Some p \<Rightarrow> if sc = p then SlotPlaying else sl_state (quiet x)) (get_slot s t sc)"
    and 2: "map_option sl_state (get_slot s2 t sc) = map_option (\<lambda>x. case g t of None \<Rightarrow> sl_state x
        | Some p \<Rightarrow> if sc = p then SlotPlaying else sl_state (quiet x)) (get_slot s1 t sc)"
    using assms(1,2) unfolding row_edit_def by blast+
  show "map_option sl_state (get_slot s2 t sc) = map_option (\<lambda>x. case (case g t of None \<Rightarrow> f t | Some p \<Rightarrow> Some p) of
        None \<Rightarrow> sl_state x | Some p \<Rightarrow> if sc = p then SlotPlaying else sl_state (quiet x)) (get_slot s t sc)"
    using 1 2 assms(3) [of t]
    by (cases "get_slot s t sc"; cases "get_slot s1 t sc"; cases "get_slot s2 t sc"; cases "f t"; cases "g t")
       (auto simp: quiet_def split: if_splits)
qed

text \<open>The tracks whose row a scene launch touches.\<close>

definition scene_rows :: "SessionMatrixState \<Rightarrow> usize \<Rightarrow> nat set \<Rightarrow> usize \<Rightarrow> usize option" where
  "scene_rows s sc ts t = (if unat t \<in> ts \<and> (\<exists>slot. get_slot s t sc = Some slot \<and> sl_clip slot \<noteq> None)
     then Some sc else None)"

lemma launch_row_edit:
  assumes ok: "grid_ok s" and t: "t < length (sm_tracks s)" and l: "launch_row sc t s = Some (s', cmds)"
  shows "row_edit s (scene_rows s sc {t}) s' \<and> (\<forall>t' i. unat t' \<noteq> t \<longrightarrow> get_slot s' t' i = get_slot s t' i)
    \<and> (cmds = [] \<or> cmds = sync_midi_clip s' (word_of_nat t) sc)"
proof -
  have tl: "t < length (sm_grid s)" "t < 2 ^ 62" using ok t by (auto simp: grid_ok_def)
  have ut: "unat (word_of_nat t :: usize) = t" using tl(2) by (simp add: unat_of_nat)
  obtain slot where slot: "nth_opt (sm_grid s ! t) (unat sc) = Some slot"
    using l tl by (auto simp: launch_row_def nth_opt_def split: if_splits)
  then have gs: "get_slot s (word_of_nat t) sc = Some slot"
    using tl ut by (simp add: get_slot_def nth_opt_def)
  show ?thesis
  proof (cases "sl_clip slot = None")
    case True
    have "scene_rows s sc {t} = (\<lambda>_. None)"
      using True gs ut by (auto simp: scene_rows_def fun_eq_iff)
    moreover have "s' = s \<and> cmds = []" using l slot True tl by (simp add: launch_row_def nth_opt_def)
    ultimately show ?thesis using row_edit_id by simp
  next
    case False
    obtain row where row: "stop_others (length (sm_scenes s)) (unat sc) (sm_grid s ! t) = Some row"
      and s': "s' = s\<lparr>sm_grid := (sm_grid s)[t := row[unat sc := start_slot slot]]\<rparr>"
      and cmds: "cmds = sync_midi_clip s' (word_of_nat t) sc"
      using l slot False tl by (auto simp: launch_row_def nth_opt_def Let_def split: option.splits if_splits)
    have "scene_rows s sc {t} = (\<lambda>_. None)(word_of_nat t := Some sc)"
      using False gs ut by (auto simp: scene_rows_def fun_eq_iff word_eq_nat)
    moreover have "row_edit s ((\<lambda>_. None)(word_of_nat t := Some sc)) s'"
      using launch_edit [OF ok gs] row unfolding ut s' by blast
    moreover have "get_slot s' t' i = get_slot s t' i" if "unat t' \<noteq> t" for t' i
      using that by (simp add: s' get_slot_def nth_opt_def)
    ultimately show ?thesis using cmds by simp
  qed
qed

lemma launch_rows_edit:
  assumes "grid_ok s" "\<forall>t \<in> set ts. t < length (sm_tracks s)" "distinct ts" "unat sc < length (sm_scenes s)"
    and "launch_rows sc ts s = Some (s', cmds)"
  shows "row_edit s (scene_rows s sc (set ts)) s' \<and> grid_ok s'
    \<and> (\<forall>e. \<exists>e'. (\<forall>cs. serve w (cmds @ cs) e = serve w cs e') \<and> en_clips e' = en_clips e)"
  using assms
proof (induction ts arbitrary: s cmds)
  case Nil
  then show ?case by (auto simp: scene_rows_def row_edit_def)
next
  case (Cons t ts)
  have t: "t < length (sm_tracks s)" using Cons.prems by simp
  obtain s1 c1 where l: "launch_row sc t s = Some (s1, c1)" and g1: "grid_ok s1"
    and h: "sm_tracks s1 = sm_tracks s" "sm_scenes s1 = sm_scenes s"
    using launch_row_ok [OF Cons.prems(1) t Cons.prems(4)] by blast
  obtain c2 where l2: "launch_rows sc ts s1 = Some (s', c2)" and c: "cmds = c1 @ c2"
    using Cons.prems(5) l by auto
  note r1 = launch_row_edit [OF Cons.prems(1) t l]
  have r2: "row_edit s1 (scene_rows s1 sc (set ts)) s' \<and> grid_ok s'
    \<and> (\<forall>e. \<exists>e'. (\<forall>cs. serve w (c2 @ cs) e = serve w cs e') \<and> en_clips e' = en_clips e)"
    by (rule Cons.IH [OF g1 _ _ _ l2]) (use Cons.prems h in auto)
  have same: "get_slot s1 t' sc = get_slot s t' sc" if "unat t' \<in> set ts" for t'
    using r1 that Cons.prems(3) by auto
  have "row_edit s (\<lambda>t'. case scene_rows s1 sc (set ts) t' of None \<Rightarrow> scene_rows s sc {t} t' | Some p \<Rightarrow> Some p) s'"
  proof (rule row_edit_comp)
    show "row_edit s (scene_rows s sc {t}) s1" "row_edit s1 (scene_rows s1 sc (set ts)) s'"
      using r1 r2 by blast+
    show "scene_rows s sc {t} t' = None \<or> scene_rows s1 sc (set ts) t' = None" for t'
      using Cons.prems(3) by (simp add: scene_rows_def)
  qed
  moreover have "(\<lambda>t'. case scene_rows s1 sc (set ts) t' of None \<Rightarrow> scene_rows s sc {t} t' | Some p \<Rightarrow> Some p)
      = scene_rows s sc (set (t # ts))"
    by (auto simp: scene_rows_def fun_eq_iff same)
  moreover have "\<exists>e'. (\<forall>cs. serve w (cmds @ cs) e = serve w cs e') \<and> en_clips e' = en_clips e" for e
  proof -
    obtain e1 where e1: "\<And>cs. serve w (c1 @ cs) e = serve w cs e1" "en_clips e1 = en_clips e"
    proof (cases "c1 = []")
      case False
      with r1 have "c1 = sync_midi_clip s1 (word_of_nat t) sc" by blast
      then show ?thesis using notes_clips [of w s1 "word_of_nat t" sc e] that by auto
    qed (use that in simp)
    obtain e2 where "\<And>cs. serve w (c2 @ cs) e1 = serve w cs e2" "en_clips e2 = en_clips e1"
      using r2 by blast
    then show ?thesis using e1 unfolding c by (intro exI [of _ e2]) simp
  qed
  ultimately show ?case using r2 by simp
qed

text \<open>
  C22. Launching a scene, too, changes what sounds the way it changes what is shown, when the
  engine holds a clip for exactly the slots of that scene that hold one.  The engine looks for
  the clips of the scene among its own, the interface among its slots: the hypothesis is what
  \<open>midi_scene_leaves_audio\<close> shows to be needed.
\<close>

theorem scene_launch_agrees:
  assumes ok: "session_ok s" and ag: "pads_agree s e" and sc: "unat sc < length (sm_scenes s)"
    and backed: "\<forall>t slot. get_slot s t sc = Some slot \<longrightarrow>
      (sl_clip slot \<noteq> None \<longleftrightarrow> (\<exists>c \<in> set (en_clips e). at_slot t sc c))"
  shows "\<exists>s' cmds e'. matrix_launch_scene sc s = Some (s', cmds) \<and> serve w cmds e = Served e'
    \<and> session_ok s' \<and> pads_agree s' e'"
proof -
  note g = session_okD(1) [OF ok]
  let ?ts = "[0..<length (sm_tracks s)]"
  obtain s' cmds where l: "launch_rows sc ?ts s = Some (s', cmds)"
    using launch_rows_ok [OF g _ sc, of ?ts] by auto
  have e: "row_edit s (scene_rows s sc (set ?ts)) s'" and g': "grid_ok s'"
    and ex: "\<exists>e'. (\<forall>cs. serve w (cmds @ cs) e = serve w cs e') \<and> en_clips e' = en_clips e"
    using launch_rows_edit [OF g _ _ sc l, of w] by auto
  obtain e1 where e1: "\<And>cs. serve w (cmds @ cs) e = serve w cs e1" "en_clips e1 = en_clips e"
    using ex by blast
  have ag1: "pads_agree s e1" using ag e1(2) by (simp add: pads_agree_def)
  have "pads_agree s' (trigger_scene e1 sc)"
  proof (rule launch_agree [OF ok ag1 e])
    fix c assume c: "c \<in> set (en_clips (trigger_scene e1 sc))"
      and shown: "get_slot s' (ai_track_index c) (ai_scene_index c) \<noteq> None"
    let ?tracks = "ai_track_index ` {d \<in> set (en_clips e1). ai_scene_index d = sc}"
    obtain d where d: "d \<in> set (en_clips e1)" "ai_track_index c = ai_track_index d"
      "ai_scene_index c = ai_scene_index d"
      "ai_is_playing c = (ai_scene_index d = sc \<or> ai_track_index d \<notin> ?tracks \<and> ai_is_playing d)"
      using c by (auto simp: trigger_scene_def Let_def)
    from shown obtain y where y: "get_slot s' (ai_track_index d) (ai_scene_index d) = Some y" using d by auto
    from row_edit_cases [OF e y] obtain x where "get_slot s (ai_track_index d) (ai_scene_index d) = Some x" .
    then have td: "unat (ai_track_index d) < length (sm_tracks s)"
      using get_slot_range [OF g, of "ai_track_index d" "ai_scene_index d"] by auto
    then obtain z where z: "get_slot s (ai_track_index d) sc = Some z"
      using get_slot_range [OF g, of "ai_track_index d" sc] sc by auto
    have "sl_clip z \<noteq> None \<longleftrightarrow> ai_track_index d \<in> ?tracks"
      using backed z e1(2) by (auto simp: at_slot_def image_iff)
    then have "scene_rows s sc (set ?ts) (ai_track_index d) = (if ai_track_index d \<in> ?tracks then Some sc else None)"
      using z td by (simp add: scene_rows_def)
    then show "\<exists>d \<in> set (en_clips e1). ai_track_index c = ai_track_index d \<and> ai_scene_index c = ai_scene_index d
        \<and> ai_is_playing c = (case scene_rows s sc (set ?ts) (ai_track_index d) of None \<Rightarrow> ai_is_playing d
            | Some p \<Rightarrow> ai_scene_index d = p)"
      using d by (intro bexI [of _ d]) auto
  qed
  then show ?thesis
    using l e1(1) row_edit_ok [OF ok e g'] by (auto simp: matrix_launch_scene_def)
qed

section \<open>Where they part\<close>

lemma session_range:
  "session_ok s \<Longrightarrow> get_slot s t sc = Some x \<Longrightarrow> unat t < length (sm_tracks s) \<and> unat sc < length (sm_scenes s)"
  using get_slot_range [OF session_okD(1), of s t sc] by auto

lemma launch_scene_spec:
  assumes ok: "session_ok s" and sc: "unat sc < length (sm_scenes s)"
  shows "\<exists>s' cmds e1. matrix_launch_scene sc s = Some (s', cmds) \<and> serve w cmds e = Served (trigger_scene e1 sc)
    \<and> en_clips e1 = en_clips e \<and> session_ok s' \<and> row_edit s (scene_rows s sc {..<length (sm_tracks s)}) s'"
proof -
  note g = session_okD(1) [OF ok]
  let ?ts = "[0..<length (sm_tracks s)]"
  obtain s' cmds where l: "launch_rows sc ?ts s = Some (s', cmds)"
    using launch_rows_ok [OF g _ sc, of ?ts] by auto
  have e: "row_edit s (scene_rows s sc (set ?ts)) s'" and g': "grid_ok s'"
    and ex: "\<exists>e'. (\<forall>cs. serve w (cmds @ cs) e = serve w cs e') \<and> en_clips e' = en_clips e"
    using launch_rows_edit [OF g _ _ sc l, of w] by auto
  from ex obtain e1 where "\<And>cs. serve w (cmds @ cs) e = serve w cs e1" "en_clips e1 = en_clips e" by blast
  then show ?thesis
    using l row_edit_ok [OF ok e g'] e by (auto simp: matrix_launch_scene_def atLeast0LessThan)
qed

lemma row_edit_shown:
  assumes "row_edit s f s'" "get_slot s t i = Some x"
  obtains y where "get_slot s' t i = Some y"
    "sl_state y = (case f t of None \<Rightarrow> sl_state x | Some p \<Rightarrow> if i = p then SlotPlaying else sl_state (quiet x))"
proof -
  have "map_option sl_state (get_slot s' t i) =
     map_option (\<lambda>x. case f t of None \<Rightarrow> sl_state x
        | Some p \<Rightarrow> if i = p then SlotPlaying else sl_state (quiet x)) (get_slot s t i)"
    using assms(1) unfolding row_edit_def by blast
  then show ?thesis using assms(2) that by (cases "get_slot s' t i") auto
qed

lemma trigger_scene_keeps:
  assumes "c \<in> set (en_clips e)" "ai_scene_index c \<noteq> s" "\<not> (\<exists>d \<in> set (en_clips e). at_slot (ai_track_index c) s d)"
  shows "c \<in> set (en_clips (trigger_scene e s))"
proof -
  have "ai_track_index c \<notin> ai_track_index ` {d \<in> set (en_clips e). ai_scene_index d = s}"
    using assms(3) by (auto simp: at_slot_def)
  then show ?thesis
    using assms(1,2) unfolding trigger_scene_def Let_def by simp
qed

lemma trigger_scene_starts:
  assumes "c \<in> set (en_clips e)" "ai_scene_index c = s"
  shows "reset_voice (tp_sample_count (en_transport e)) (en_absolute_frame e) c \<in> set (en_clips (trigger_scene e s))"
  unfolding trigger_scene_def Let_def by simp (rule disjI1, rule imageI, use assms in simp)

text \<open>
  A pad without a clip in the engine (every MIDI pad) launched in a scene stops the audio pad
  of its track on the screen only: the engine, which has no clip of that scene in the track, goes
  on playing the old one.
\<close>

lemma midi_scene_leaves_audio:
  assumes ok: "session_ok s"
    and pad: "get_slot s t sc = Some pad" "sl_clip pad \<noteq> None" "\<not> (\<exists>d \<in> set (en_clips e). at_slot t sc d)"
    and old: "get_slot s t old = Some shown" "old \<noteq> sc" "c \<in> set (en_clips e)" "at_slot t old c" "ai_is_playing c"
  shows "\<exists>s' cmds e' y. matrix_launch_scene sc s = Some (s', cmds) \<and> serve w cmds e = Served e'
    \<and> get_slot s' t old = Some y \<and> sl_state y \<noteq> SlotPlaying \<and> c \<in> set (en_clips e')"
proof -
  obtain s' cmds e1 where l: "matrix_launch_scene sc s = Some (s', cmds)" "serve w cmds e = Served (trigger_scene e1 sc)"
    "en_clips e1 = en_clips e" "row_edit s (scene_rows s sc {..<length (sm_tracks s)}) s'"
    using launch_scene_spec [OF ok, of sc w e] session_range [OF ok pad(1)] by blast
  have f: "scene_rows s sc {..<length (sm_tracks s)} t = Some sc"
    using pad session_range [OF ok pad(1)] by (simp add: scene_rows_def)
  obtain y where y: "get_slot s' t old = Some y" "sl_state y \<noteq> SlotPlaying"
    using quiet_state(1) [of shown] by (rule_tac row_edit_shown [OF l(4) old(1)]) (simp add: f old(2))
  have "c \<in> set (en_clips (trigger_scene e1 sc))"
    using old pad(3) l(3) by (intro trigger_scene_keeps) (auto simp: at_slot_def)
  then show ?thesis using l y by blast
qed

text \<open>
  C23. A deleted pad is gone from the grid but not from the engine, which no command tells to drop
  the clip: the next launch of its scene plays it, from a slot that is shown empty.
\<close>

theorem deleted_pad_still_launches:
  assumes ok: "session_ok s" and ag: "pads_agree s e"
    and pad: "get_slot s t sc = Some pad" "c \<in> set (en_clips e)" "at_slot t sc c"
  shows "\<exists>s1 cmds1 e1 s2 cmds2 e2 d. delete_slot t sc s = (s1, cmds1) \<and> serve w cmds1 e = Served e1
    \<and> matrix_launch_scene sc s1 = Some (s2, cmds2) \<and> serve w cmds2 e1 = Served e2
    \<and> get_slot s1 t sc = Some slot_default \<and> d \<in> set (en_clips e2) \<and> at_slot t sc d \<and> ai_is_playing d"
proof -
  let ?s1 = "put_slot t sc slot_default s"
  have get: "get_slot ?s1 t' i = (if t' = t \<and> i = sc then Some slot_default else get_slot s t' i)" for t' i
    using get_put_slot [of s t sc] pad(1) by simp
  obtain cmds1 where d1: "delete_slot t sc s = (?s1, cmds1)" and
    c1: "cmds1 = [] \<or> cmds1 = [TriggerClip t sc]"
    using pad(1) by (auto simp: delete_slot_def)
  have ok1: "session_ok ?s1"
    unfolding session_ok_def
  proof (intro conjI allI impI)
    show "grid_ok ?s1" by (rule put_slot_ok [OF session_okD(1) [OF ok]])
  next
    fix t sc slot assume "get_slot ?s1 t sc = Some slot"
    then show "sl_state slot \<notin> {QueuedToPlay, QueuedToStop}"
      using session_okD(2) [OF ok] unfolding get by (auto simp: slot_default_def split: if_splits)
  next
    fix t i j x y
    assume "get_slot ?s1 t i = Some x \<and> get_slot ?s1 t j = Some y \<and> sl_state x = SlotPlaying \<and> sl_state y = SlotPlaying"
    then show "i = j" using session_okD(3) [OF ok] unfolding get by (auto simp: slot_default_def split: if_splits)
  qed
  obtain e1 c' where e1: "serve w cmds1 e = Served e1" "c' \<in> set (en_clips e1)" "at_slot t sc c'"
  proof (cases "cmds1 = []")
    case False
    then have "serve w cmds1 e = Served (trigger_clip e t sc)" using c1 by auto
    moreover have "launched e t sc c \<in> set (en_clips (trigger_clip e t sc))" using pad(2) by (simp add: trigger_clip_map)
    moreover have "at_slot t sc (launched e t sc c)" using pad(3) by (simp add: at_slot_def)
    ultimately show ?thesis using that by blast
  qed (use that pad in simp)
  have "unat sc < length (sm_scenes ?s1)" using session_range [OF ok pad(1)] by simp
  from launch_scene_spec [OF ok1 this, of w e1]
  obtain s2 cmds2 e2 where l: "matrix_launch_scene sc ?s1 = Some (s2, cmds2)"
    "serve w cmds2 e1 = Served (trigger_scene e2 sc)" "en_clips e2 = en_clips e1" by blast
  have "reset_voice (tp_sample_count (en_transport e2)) (en_absolute_frame e2) c' \<in> set (en_clips (trigger_scene e2 sc))"
    using e1(2,3) l(3) by (intro trigger_scene_starts) (auto simp: at_slot_def)
  moreover have "at_slot t sc (reset_voice f a c')" for f a using e1(3) by (simp add: at_slot_def)
  ultimately show ?thesis using d1 e1(1) l(1,2) get by fastforce
qed

section \<open>One numbering for two kinds of clips\<close>

text \<open>
  The session grid and the timeline number their clips from one each, and the engine keeps
  them in one list: in OpenStudio a file dropped on the timeline takes the place of the pad with
  its number, which is gone from the engine, and sounds as a looped pad itself.
\<close>

lemma timeline_drop_erases_pad:
  assumes mode: "en_mode e = OpenStudio" "clips_distinct OpenStudio (en_clips e)"
    and pad: "c \<in> set (en_clips e)" "at_slot tp sp c" "\<forall>d \<in> set (en_clips e). at_slot tp sp d \<longrightarrow> d = c"
    and wav: "wd_wav w name = Some wav" "load_at (en_sample_rate e) wav = Some xs"
    and elsewhere: "(t, s) \<noteq> (tp, sp)"
  shows "\<exists>e'. handle_command w busy (LoadClip (ai_id c) name position duration offset t s) e = Served e'
    \<and> \<not> (\<exists>d \<in> set (en_clips e'). at_slot tp sp d)
    \<and> (\<exists>d \<in> set (en_clips e'). at_slot t s d \<and> ai_id d = ai_id c \<and> ai_is_matrix_clip d)"
proof -
  let ?d = "clip_instance (en_sample_rate e) (ai_id c) t s xs position duration offset (file_channels wav) True"
  let ?e = "add_clip e (ai_id c) t s xs position duration offset (file_channels wav) True"
  have p: "same_clip OpenStudio (ai_id c) t s = (\<lambda>d. ai_id d = ai_id c)"
    by (simp add: same_clip_def fun_eq_iff)
  have "list_ex (\<lambda>d. ai_id d = ai_id c) (en_clips e)" using pad(1) by (auto simp: list_ex_iff)
  then have "en_clips ?e = map_first (\<lambda>d. ai_id d = ai_id c) (\<lambda>_. ?d) (en_clips e)"
    by (simp add: add_clip_def Let_def mode(1) p)
  moreover have "set (map_first (\<lambda>d. ai_id d = ai_id c) (\<lambda>_. ?d) (en_clips e))
      = insert ?d {x \<in> set (en_clips e). ai_id x \<noteq> ai_id c}"
  proof (rule map_first_const_spec)
    show "\<exists>x \<in> set (en_clips e). ai_id x = ai_id c" using pad(1) by blast
    show "distinct (en_clips e)" using mode(2) by (auto simp: clips_distinct_def distinct_map)
    show "\<And>x y. x \<in> set (en_clips e) \<Longrightarrow> y \<in> set (en_clips e) \<Longrightarrow> ai_id x = ai_id c \<Longrightarrow> ai_id y = ai_id c \<Longrightarrow> x = y"
      using mode(2) by (auto simp: clips_distinct_def distinct_map inj_on_def)
  qed
  ultimately have new: "set (en_clips ?e) = insert ?d {x \<in> set (en_clips e). ai_id x \<noteq> ai_id c}" by simp
  have h: "handle_command w busy (LoadClip (ai_id c) name position duration offset t s) e = Served ?e"
    using wav by (simp add: locked_def)
  have "\<not> at_slot tp sp ?d" using elsewhere by (auto simp: at_slot_def)
  moreover have "ai_id ?d = ai_id c \<and> ai_is_matrix_clip ?d \<and> at_slot t s ?d"
    by (simp add: clip_instance_def at_slot_def Let_def split: prod.split)
  ultimately show ?thesis using h new pad(3) by auto
qed

section \<open>Witnesses\<close>

text \<open>A track with two pads; the second one plays.  The engine has that one, or both.\<close>

definition demo_pad :: "SlotState \<Rightarrow> bool \<Rightarrow> MatrixSlot" where
  "demo_pad st midi = \<lparr> sl_state = st, sl_clip = Some (fresh_clip 1 [''a.wav''] midi (Num 1, 1) [] (Num 1)) \<rparr>"

definition demo_session :: "bool \<Rightarrow> SessionMatrixState" where
  "demo_session midi = (session_default [demo_meta] [''A'', ''B''])
     \<lparr>sm_grid := [[demo_pad SlotStopped midi, demo_pad SlotPlaying False]]\<rparr>"

definition demo_voice :: "usize \<Rightarrow> usize \<Rightarrow> AudioClipInstance" where
  "demo_voice i sc = clip_instance (Num 48000) i 0 sc (replicate 4 (Num 1)) (Num 0) (Num 0) (Num 0) 1 True"

definition demo_sound :: "bool \<Rightarrow> unit AudioEngine" where
  "demo_sound both = demo_engine\<lparr>en_clips :=
     (if both then [demo_voice 1 0] else []) @ [(demo_voice 2 1)\<lparr>ai_is_playing := True\<rparr>]\<rparr>"

lemma demo_get:
  "get_slot (demo_session midi) t sc = (if t = 0 \<and> sc = 0 then Some (demo_pad SlotStopped midi)
     else if t = 0 \<and> sc = 1 then Some (demo_pad SlotPlaying False) else None)"
proof -
  have "unat sc = 1 \<longleftrightarrow> sc = 1" using word_eq_nat [of sc 1] by simp
  moreover have "unat t = 0 \<longleftrightarrow> t = 0" "unat sc = 0 \<longleftrightarrow> sc = 0" by (simp_all add: unat_eq_0)
  ultimately show ?thesis
    by (auto simp: get_slot_def demo_session_def nth_opt_def less_Suc_eq numeral_2_eq_2)
qed

lemma demo_session_ok: "session_ok (demo_session midi)"
  unfolding session_ok_def demo_get
  by (auto simp: grid_ok_def demo_session_def session_default_def demo_pad_def split: if_splits)

lemma demo_voice_fields [simp]:
  "ai_track_index (demo_voice i sc) = 0" "ai_scene_index (demo_voice i sc) = sc" "\<not> ai_is_playing (demo_voice i sc)"
  "ai_id (demo_voice i sc) = i"
  by (simp_all add: demo_voice_def clip_instance_def Let_def split: prod.split)

lemma demo_agree: "pads_agree (demo_session midi) (demo_sound both)"
  by (auto simp: pads_agree_def demo_get demo_sound_def demo_pad_def)

theorem pad_click_agrees_witness:
  "\<exists>s' cmds e'. trigger_pad 0 0 (demo_session False) = Some (s', cmds)
    \<and> serve (demo_world demo_song) cmds (demo_sound True) = Served e' \<and> pads_agree s' e'"
proof -
  have "trigger_pad 0 0 (demo_session False) \<noteq> None"
    unfolding trigger_pad_def demo_get by (simp add: demo_pad_def Let_def)
      (simp add: demo_session_def session_default_def stop_others_def Let_def)
  then obtain s' cmds where c: "trigger_pad 0 0 (demo_session False) = Some (s', cmds)" by auto
  show ?thesis using pad_click_agrees [OF demo_session_ok demo_agree c, of "demo_world demo_song" True] c by blast
qed

theorem scene_launch_agrees_witness:
  "\<exists>s' cmds e'. matrix_launch_scene 0 (demo_session False) = Some (s', cmds)
    \<and> serve (demo_world demo_song) cmds (demo_sound True) = Served e' \<and> pads_agree s' e'"
proof -
  have "unat (0 :: usize) < length (sm_scenes (demo_session False))"
    by (simp add: demo_session_def session_default_def)
  from scene_launch_agrees [OF demo_session_ok demo_agree [of _ True] this, of "demo_world demo_song"] show ?thesis
    by (fastforce simp: demo_get demo_sound_def demo_pad_def at_slot_def)
qed

lemma midi_scene_leaves_audio_witness:
  "\<exists>s' cmds e' y. matrix_launch_scene 0 (demo_session True) = Some (s', cmds)
    \<and> serve (demo_world demo_song) cmds (demo_sound False) = Served e'
    \<and> get_slot s' 0 1 = Some y \<and> sl_state y \<noteq> SlotPlaying \<and> list_ex ai_is_playing (en_clips e')"
proof -
  let ?c = "(demo_voice 2 1)\<lparr>ai_is_playing := True\<rparr>"
  have "get_slot (demo_session True) 0 0 = Some (demo_pad SlotStopped True)"
    "get_slot (demo_session True) 0 1 = Some (demo_pad SlotPlaying False)" "sl_clip (demo_pad SlotStopped True) \<noteq> None"
    by (simp_all add: demo_get demo_pad_def)
  note pads = this
  have "\<not> (\<exists>d \<in> set (en_clips (demo_sound False)). at_slot 0 0 d)" "?c \<in> set (en_clips (demo_sound False))"
    "at_slot 0 1 ?c" "ai_is_playing ?c" "(1 :: usize) \<noteq> 0"
    by (simp_all add: demo_sound_def at_slot_def)
  note voice = this
  obtain s' cmds e' y where r: "matrix_launch_scene 0 (demo_session True) = Some (s', cmds)"
    "serve (demo_world demo_song) cmds (demo_sound False) = Served e'"
    "get_slot s' 0 1 = Some y" "sl_state y \<noteq> SlotPlaying" "?c \<in> set (en_clips e')"
    using midi_scene_leaves_audio [OF demo_session_ok pads(1,3) voice(1) pads(2) voice(5,2,3,4), of "demo_world demo_song"]
    by blast
  have "list_ex ai_is_playing (en_clips e')" unfolding list_ex_iff using voice(4) r(5) by blast
  with r show ?thesis by blast
qed

theorem deleted_pad_still_launches_witness:
  "\<exists>s1 cmds1 e1 s2 cmds2 e2. delete_slot 0 0 (demo_session False) = (s1, cmds1)
    \<and> serve (demo_world demo_song) cmds1 (demo_sound True) = Served e1
    \<and> matrix_launch_scene 0 s1 = Some (s2, cmds2) \<and> serve (demo_world demo_song) cmds2 e1 = Served e2
    \<and> get_slot s1 0 0 = Some slot_default \<and> list_ex (\<lambda>d. at_slot 0 0 d \<and> ai_is_playing d) (en_clips e2)"
proof -
  have "get_slot (demo_session False) 0 0 = Some (demo_pad SlotStopped False)"
    "demo_voice 1 0 \<in> set (en_clips (demo_sound True))" "at_slot 0 0 (demo_voice 1 0)"
    by (simp_all add: demo_get demo_sound_def at_slot_def)
  from deleted_pad_still_launches [OF demo_session_ok demo_agree this, of "demo_world demo_song"]
  show ?thesis unfolding list_ex_iff by blast
qed

lemma timeline_drop_erases_pad_witness:
  "\<exists>e'. handle_command (demo_world (demo_song\<lparr>wv_data := FloatData [Some (Num 1)], wv_sample_rate := 48000\<rparr>)) False
      (LoadClip 1 ''b.wav'' (Num 0) (Num 0) (Num 0) 3 0) (demo_sound True) = Served e'
    \<and> \<not> list_ex (at_slot 0 0) (en_clips e')"
proof -
  let ?wav = "demo_song\<lparr>wv_data := FloatData [Some (Num 1)], wv_sample_rate := 48000\<rparr>"
  have sr: "file_sr ?wav = Num 48000" using of_u64_small [of "48000 :: u32"] by (simp add: file_sr_def)
  have "lt (Num 1) (fabs (fsub F32 (Num 48000) (Num 48000))) = False" by code_simp
  then have l: "load_at (en_sample_rate (demo_sound True)) ?wav = Some (raw_samples ?wav)"
    by (simp add: load_at_def at_rate_def sr demo_sound_def demo_engine_def engine_with_clocks_def)
  have m: "en_mode (demo_sound True) = OpenStudio" "clips_distinct OpenStudio (en_clips (demo_sound True))"
    by (simp_all add: demo_sound_def demo_engine_def engine_with_clocks_def clips_distinct_def)
  have c: "demo_voice 1 0 \<in> set (en_clips (demo_sound True))" "at_slot 0 0 (demo_voice 1 0)"
    "\<forall>d \<in> set (en_clips (demo_sound True)). at_slot 0 0 d \<longrightarrow> d = demo_voice 1 0"
    by (simp_all add: demo_sound_def at_slot_def)
  have w: "wd_wav (demo_world ?wav) ''b.wav'' = Some ?wav" by (simp add: demo_world_def)
  have ne: "(3 :: usize, 0 :: usize) \<noteq> (0, 0)" by simp
  from timeline_drop_erases_pad [OF m c w l ne, of False "Num 0" "Num 0" "Num 0"] show ?thesis
    unfolding list_ex_iff demo_voice_fields by blast
qed

end
