(* ===== verification/PianoRoll.thy ===== *)
theory PianoRoll
  imports MatrixEdit Transport
begin

text \<open>
  The piano roll of the interface (crates/hikaru_gui/src/views/piano_roll.rs): moving, resizing,
  selecting, removing and duplicating notes, hit tests, the part of the grid that is drawn, the
  notes the playhead triggers, and the frame of the application (\<open>sync_frame\<close>, app.rs) that moves
  notes between the selected pad and the roll.  The pads of the sampler (open_dms.rs) are the ones
  it plays.  Drawing is left out; what a scroll handle holds is two fields.
\<close>

section \<open>The sampler\<close>

record AdsrEnvelope =
  env_attack :: f32
  env_decay :: f32
  env_sustain :: f32
  env_release :: f32

record DmsPad =
  pad_id :: usize
  pad_midi_note :: u8
  pad_name :: string
  pad_sample_path :: "string option"
  pad_volume :: f32
  pad_pan :: f32
  pad_pitch :: f32
  pad_mute :: bool
  pad_solo :: bool
  pad_peaks :: "f32 list"
  pad_cached_path :: "string option"

record OpenDms =
  dms_pads :: "DmsPad list"
  dms_selected_pad :: usize
  dms_pad_count :: usize
  dms_adsr :: AdsrEnvelope

definition adsr_default :: AdsrEnvelope where
  "adsr_default = \<lparr> env_attack = Num 0, env_decay = Num 100, env_sustain = Num 1, env_release = Num 50 \<rparr>"

text \<open>\<open>format!("Pad {:02}", id + 1)\<close>\<close>

definition two_digits :: "nat \<Rightarrow> string" where
  "two_digits n = (if n < 10 then ''0'' @ show_nat n else show_nat n)"

definition dms_pad_new :: "usize \<Rightarrow> u8 \<Rightarrow> DmsPad" where
  "dms_pad_new i note = \<lparr> pad_id = i, pad_midi_note = note, pad_name = ''Pad '' @ two_digits (unat (i + 1)),
     pad_sample_path = None, pad_volume = Num 1, pad_pan = Num 0, pad_pitch = Num 0, pad_mute = False,
     pad_solo = False, pad_peaks = [], pad_cached_path = None \<rparr>"

definition load_sample :: "(string \<Rightarrow> usize \<Rightarrow> f32 list) \<Rightarrow> string \<Rightarrow> DmsPad \<Rightarrow> DmsPad" where
  "load_sample peaks p pad =
     (if pad_cached_path pad = Some p then pad
      else pad\<lparr>pad_peaks := peaks p 512, pad_cached_path := Some p, pad_sample_path := Some p\<rparr>)"

definition open_dms_default :: OpenDms where
  "open_dms_default = \<lparr> dms_pads = map (\<lambda>i. dms_pad_new (word_of_nat i) (36 + word_of_nat i)) [0..<64],
     dms_selected_pad = 0, dms_pad_count = 16, dms_adsr = adsr_default \<rparr>"

text \<open>\<open>file_name\<close> stands for \<open>Path::file_name\<close>.\<close>

definition display_filename :: "(string \<Rightarrow> string option) \<Rightarrow> DmsPad \<Rightarrow> string" where
  "display_filename file_name pad = (case pad_sample_path pad of
     Some p \<Rightarrow> (case file_name p of Some n \<Rightarrow> n | None \<Rightarrow> ''Unknown'')
   | None \<Rightarrow> ''No Sample Loaded'')"

definition pad_entry :: "(string \<Rightarrow> string option) \<Rightarrow> DmsPad \<Rightarrow> u8 \<times> string" where
  "pad_entry file_name pad = (pad_midi_note pad,
     if pad_sample_path pad \<noteq> None then pad_name pad @ '': '' @ display_filename file_name pad else pad_name pad)"

definition sync_drum_map_from_opendms :: "(string \<Rightarrow> string option) \<Rightarrow> OpenDms \<Rightarrow> (u8 \<rightharpoonup> string)" where
  "sync_drum_map_from_opendms file_name dms =
     fold (\<lambda>(p, n) m. m(p \<mapsto> n)) (map (pad_entry file_name) (dms_pads dms)) (\<lambda>_. None)"

section \<open>State\<close>

datatype SelectionDragHandle = NoHandle | LeftHandle | RightHandle
datatype PianoRollMode = Keys | Drums

record MidiNote =
  nt_pitch :: u8
  nt_start :: u64
  nt_duration :: u64
  nt_velocity :: u8

text \<open>Signed quantities are mathematical integers, reduced where the code converts or saturates.\<close>

record PianoRollState =
  pr_mode :: PianoRollMode
  pr_zoom_x :: f32
  pr_key_height :: f32
  pr_scroll :: "f32 \<times> f32"
  pr_layout_initialized :: bool
  pr_layout_wait :: u8
  pr_notes :: "MidiNote list"
  pr_drum_map :: "u8 \<rightharpoonup> string"
  pr_playhead :: u64
  pr_prev_playhead :: u64
  pr_sel_start :: u64
  pr_sel_end :: u64
  pr_sel_active :: bool
  pr_sel_dragging :: bool
  pr_sel_preview :: "(u64 \<times> u64) option"
  pr_sel_handle :: SelectionDragHandle
  pr_loop_enabled :: bool
  pr_loop_transport_start :: u64
  pr_loop_running :: bool
  pr_resize_active :: bool
  pr_resize_handle :: SelectionDragHandle
  pr_resize_index :: "usize option"
  pr_resize_targets :: "(nat \<times> u64 \<times> u64) list"
  pr_resize_delta_start :: int
  pr_resize_delta_duration :: int
  pr_selected :: "nat set"
  pr_marquee_active :: bool
  pr_marquee_start :: "(f32 \<times> f32) option"
  pr_marquee_current :: "(f32 \<times> f32) option"
  pr_marquee_additive :: bool
  pr_source_slot :: "(usize \<times> usize) option"
  pr_move_active :: bool
  pr_move_grab :: "nat option"
  pr_move_orig :: "(nat \<times> u64 \<times> u8) list"
  pr_move_delta_ticks :: int
  pr_move_delta_rows :: int
  pr_move_origin :: "(f32 \<times> f32) option"

definition clear_selection :: "PianoRollState \<Rightarrow> PianoRollState" where
  "clear_selection s = s\<lparr>pr_sel_start := 0, pr_sel_end := 0, pr_sel_active := False, pr_sel_dragging := False,
     pr_sel_preview := None, pr_sel_handle := NoHandle, pr_loop_enabled := False, pr_loop_transport_start := 0,
     pr_loop_running := False, pr_resize_active := False, pr_resize_handle := NoHandle, pr_resize_index := None,
     pr_resize_targets := [], pr_resize_delta_start := 0, pr_resize_delta_duration := 0, pr_move_active := False,
     pr_move_grab := None, pr_move_orig := [], pr_move_delta_ticks := 0, pr_move_delta_rows := 0,
     pr_move_origin := None\<rparr>"

definition clear_note_selection :: "PianoRollState \<Rightarrow> PianoRollState" where
  "clear_note_selection s = s\<lparr>pr_selected := {}, pr_marquee_active := False, pr_marquee_start := None,
     pr_marquee_current := None, pr_marquee_additive := False, pr_move_active := False, pr_move_grab := None,
     pr_move_orig := [], pr_move_delta_ticks := 0, pr_move_delta_rows := 0, pr_move_origin := None\<rparr>"

section \<open>Ticks\<close>

definition QUANTIZE_TICKS :: u64 where "QUANTIZE_TICKS = 240"
definition TICKS_PER_BAR :: u64 where "TICKS_PER_BAR = 3840"
definition MIN_NOTE_DURATION_TICKS :: u64 where "MIN_NOTE_DURATION_TICKS = QUANTIZE_TICKS"

definition quantize_tick :: "u64 \<Rightarrow> u64 \<Rightarrow> u64" where
  "quantize_tick tick step = (if step = 0 then tick else (tick div step) * step)"

text \<open>\<open>i64::saturating_add\<close>, \<open>as i64\<close> and \<open>as u64\<close>.\<close>

definition sat_i64 :: "int \<Rightarrow> int" where
  "sat_i64 x = max (- (2 ^ 63)) (min (2 ^ 63 - 1) x)"

definition as_i64 :: "u64 \<Rightarrow> int" where
  "as_i64 w = sint w"

definition as_u64 :: "int \<Rightarrow> u64" where
  "as_u64 x = word_of_int x"

definition sub_i64 :: "int \<Rightarrow> int \<Rightarrow> int" where
  "sub_i64 x y = sint (word_of_int (x - y) :: u64)"

definition resize_note_left :: "u64 \<Rightarrow> u64 \<Rightarrow> u64 \<Rightarrow> u64 \<times> u64" where
  "resize_note_left orig_start orig_duration pointer_tick =
     (let end = sat_add orig_start orig_duration; min_dur = MIN_NOTE_DURATION_TICKS
      in if end \<le> min_dur then (0, max end min_dur)
         else let new_start = min (quantize_tick pointer_tick QUANTIZE_TICKS) (end - min_dur)
              in (new_start, end - new_start))"

definition resize_note_right :: "u64 \<Rightarrow> u64 \<Rightarrow> u64 \<Rightarrow> u64 \<times> u64" where
  "resize_note_right orig_start orig_duration pointer_tick =
     (let new_end = max (quantize_tick pointer_tick QUANTIZE_TICKS) (orig_start + MIN_NOTE_DURATION_TICKS)
      in (orig_start, new_end - orig_start))"

definition apply_resize_left_delta :: "u64 \<Rightarrow> u64 \<Rightarrow> int \<Rightarrow> u64 \<times> u64" where
  "apply_resize_left_delta orig_start orig_duration delta_start =
     (let end = sat_add orig_start orig_duration;
          min_end = sat_add orig_start MIN_NOTE_DURATION_TICKS;
          new_end = max end min_end;
          raw_start = sat_i64 (as_i64 orig_start + delta_start);
          new_start = min (as_u64 (max raw_start 0)) (sat_sub new_end MIN_NOTE_DURATION_TICKS)
      in (new_start, sat_sub new_end new_start))"

definition apply_resize_right_delta :: "u64 \<Rightarrow> u64 \<Rightarrow> int \<Rightarrow> u64 \<times> u64" where
  "apply_resize_right_delta orig_start orig_duration delta_duration =
     (let raw_dur = sat_i64 (as_i64 orig_duration + delta_duration);
          new_dur = max (as_u64 (max raw_dur (as_i64 MIN_NOTE_DURATION_TICKS))) MIN_NOTE_DURATION_TICKS
      in (orig_start, new_dur))"

definition compute_resize_left_delta :: "(nat \<times> u64 \<times> u64) list \<Rightarrow> nat \<Rightarrow> u64 \<Rightarrow> int" where
  "compute_resize_left_delta targets grab pointer_tick =
     (case find (\<lambda>(i, _, _). i = grab) targets of
        None \<Rightarrow> 0
      | Some (_, start, dur) \<Rightarrow>
          sub_i64 (as_i64 (fst (resize_note_left start dur pointer_tick))) (as_i64 start))"

definition compute_resize_right_delta :: "(nat \<times> u64 \<times> u64) list \<Rightarrow> nat \<Rightarrow> u64 \<Rightarrow> int" where
  "compute_resize_right_delta targets grab pointer_tick =
     (case find (\<lambda>(i, _, _). i = grab) targets of
        None \<Rightarrow> 0
      | Some (_, start, dur) \<Rightarrow>
          sub_i64 (as_i64 (snd (resize_note_right start dur pointer_tick))) (as_i64 dur))"

text \<open>The notes a resize works on, in the order of their indices.\<close>

definition build_resize_targets :: "MidiNote list \<Rightarrow> nat \<Rightarrow> nat set \<Rightarrow> (nat \<times> u64 \<times> u64) list" where
  "build_resize_targets notes grab selected =
     (let idxs = (if grab \<in> selected \<and> 1 < card selected then {i \<in> selected. i < length notes} else {grab});
          idxs = (if grab < length notes then insert grab idxs else idxs)
      in map (\<lambda>i. (i, nt_start (notes ! i), nt_duration (notes ! i)))
           (filter (\<lambda>i. i < length notes) (sorted_list_of_set idxs)))"

definition apply_move_delta :: "u64 \<Rightarrow> u8 \<Rightarrow> int \<Rightarrow> int \<Rightarrow> u64 \<times> u8" where
  "apply_move_delta start_tick pitch delta_ticks delta_rows =
     (let new_start = (if 0 \<le> delta_ticks then sat_add start_tick (as_u64 delta_ticks)
                       else sat_sub start_tick (as_u64 (- delta_ticks)));
          new_pitch = word_of_int (max 0 (min 127 (uint pitch - delta_rows)))
      in (new_start, new_pitch))"

definition compute_note_move_deltas :: "(nat \<times> u64 \<times> u8) list \<Rightarrow> nat \<Rightarrow> int \<Rightarrow> int \<Rightarrow> int \<times> int" where
  "compute_note_move_deltas orig grab raw_delta_ticks raw_delta_rows =
     (case find (\<lambda>(i, _, _). i = grab) orig of
        None \<Rightarrow> (0, 0)
      | Some (_, grab_start, _) \<Rightarrow>
          let target = max (sat_i64 (as_i64 grab_start + raw_delta_ticks)) 0;
              snapped = as_i64 (quantize_tick (as_u64 target) QUANTIZE_TICKS);
              delta_ticks = sub_i64 snapped (as_i64 grab_start);
              min_start = Min ((\<lambda>(_, s, _). s) ` set orig);
              delta_ticks = (if delta_ticks < 0 then max delta_ticks (- as_i64 min_start) else delta_ticks);
              pitches = (\<lambda>(_, _, p). uint p) ` set orig
          in (delta_ticks, max (Max pitches - 127) (min (Min pitches) raw_delta_rows)))"

section \<open>Selecting and editing\<close>

definition select_note_set :: "nat \<Rightarrow> bool \<Rightarrow> nat set \<Rightarrow> nat set" where
  "select_note_set i add selected =
     (if add then insert i selected else if i \<notin> selected then {i} else selected)"

definition remove_selected_notes :: "MidiNote list \<Rightarrow> nat set \<Rightarrow> nat \<times> MidiNote list \<times> nat set" where
  "remove_selected_notes notes selected =
     (let kept = map snd (filter (\<lambda>(i, _). i \<notin> selected) (enumerate 0 notes))
      in (length notes - length kept, kept, {}))"

definition duplicate_selected_notes :: "MidiNote list \<Rightarrow> nat set \<Rightarrow> nat list \<times> MidiNote list" where
  "duplicate_selected_notes notes selected =
     (let picked = map ((!) notes) (filter (\<lambda>i. i < length notes) (sorted_list_of_set selected))
      in if picked = [] then ([], notes)
         else let min_start = Min (nt_start ` set picked);
                  max_end = Max ((\<lambda>n. nt_start n + nt_duration n) ` set picked);
                  block = sat_sub max_end min_start;
                  copies = map (\<lambda>n. n\<lparr>nt_start := sat_add (nt_start n) block\<rparr>) picked
              in ([length notes..<length notes + length copies], notes @ copies))"

section \<open>Playing under the playhead\<close>

definition note_just_crossed :: "u64 \<Rightarrow> u64 \<Rightarrow> u64 \<Rightarrow> bool" where
  "note_just_crossed prev_tick current_tick start_tick \<longleftrightarrow>
     (prev_tick < start_tick \<or> current_tick < prev_tick)
     \<and> start_tick \<le> current_tick \<and> current_tick < start_tick + 240"

text \<open>
  \<open>dms\<close> gives the sampler state of a device slot (a field of \<open>DspSlot\<close>), \<open>pow2\<close> is
  \<open>2.0_f32.powf\<close>.
\<close>

definition find_opendms_in_track :: "(DspSlot \<Rightarrow> OpenDms option) \<Rightarrow> Track \<Rightarrow> OpenDms option" where
  "find_opendms_in_track dms track =
     (let of_slot = (\<lambda>slot. if ds_name slot = ''Hikaru OpenDMS'' then dms slot else None)
      in Option.bind (find (\<lambda>slot. of_slot slot \<noteq> None) (tk_effects track)) of_slot)"

definition preview_drum_pad :: "(DspSlot \<Rightarrow> OpenDms option) \<Rightarrow> (f32 \<Rightarrow> f32) \<Rightarrow> Track list \<Rightarrow> usize \<Rightarrow> u8 \<Rightarrow> f32 \<Rightarrow> GuiCommand list" where
  "preview_drum_pad dms pow2 tracks selected pitch velocity_scale =
     (case nth_opt tracks (unat selected) of
        None \<Rightarrow> []
      | Some track \<Rightarrow>
          (case find_opendms_in_track dms track of
             None \<Rightarrow> []
           | Some d \<Rightarrow>
               (case find (\<lambda>p. pad_midi_note p = pitch) (dms_pads d) of
                  None \<Rightarrow> []
                | Some pad \<Rightarrow>
                    if pad_sample_path pad = None then []
                    else [DmsNoteOn (pad_id pad) (fmul F32 (pad_volume pad) velocity_scale) (pad_pan pad) velocity_scale
                            (pow2 (fdiv F32 (pad_pitch pad) (Num 12))) (env_attack (dms_adsr d)) (env_decay (dms_adsr d))
                            (env_sustain (dms_adsr d)) (env_release (dms_adsr d))])))"

definition trigger_playhead_notes :: "(u8 \<Rightarrow> f32 \<Rightarrow> GuiCommand list) \<Rightarrow> PianoRollState \<Rightarrow> PianoRollState \<times> GuiCommand list" where
  "trigger_playhead_notes preview s =
     (s\<lparr>pr_prev_playhead := pr_playhead s\<rparr>,
      if pr_playhead s = pr_prev_playhead s then []
      else concat (map (\<lambda>n. preview (nt_pitch n) (fdiv F32 (of_u64 F32 (nt_velocity n)) (Num 127)))
             (filter (\<lambda>n. note_just_crossed (pr_prev_playhead s) (pr_playhead s) (nt_start n)) (pr_notes s))))"

section \<open>Rectangles\<close>

text \<open>\<open>Bounds\<close> of gpui (geometry.rs) over pixels; a point is a pair.\<close>

record Bounds =
  bo_x :: f32
  bo_y :: f32
  bo_w :: f32
  bo_h :: f32

definition bo_right :: "Bounds \<Rightarrow> f32" where "bo_right b = fadd F32 (bo_x b) (bo_w b)"
definition bo_bottom :: "Bounds \<Rightarrow> f32" where "bo_bottom b = fadd F32 (bo_y b) (bo_h b)"

definition intersects :: "Bounds \<Rightarrow> Bounds \<Rightarrow> bool" where
  "intersects a b \<longleftrightarrow> lt (bo_x a) (bo_right b) \<and> lt (bo_x b) (bo_right a)
     \<and> lt (bo_y a) (bo_bottom b) \<and> lt (bo_y b) (bo_bottom a)"

definition bounds_contains :: "Bounds \<Rightarrow> f32 \<times> f32 \<Rightarrow> bool" where
  "bounds_contains b p \<longleftrightarrow> le (bo_x b) (fst p) \<and> lt (fst p) (bo_right b)
     \<and> le (bo_y b) (snd p) \<and> lt (snd p) (bo_bottom b)"

definition NOTE_EDGE_HIT_W :: f32 where "NOTE_EDGE_HIT_W = Num 8"

definition note_rect :: "Bounds \<Rightarrow> MidiNote \<Rightarrow> f32 \<Rightarrow> f32 \<Rightarrow> Bounds" where
  "note_rect grid n zoom_x key_height = \<lparr>
     bo_x = fadd F32 (bo_x grid) (fmul F32 (of_u64 F32 (nt_start n)) zoom_x),
     bo_y = fadd F32 (bo_y grid) (fmul F32 (of_u64 F32 (127 - nt_pitch n)) key_height),
     bo_w = fmax (fmul F32 (of_u64 F32 (nt_duration n)) zoom_x) (Num 4),
     bo_h = fsub F32 key_height (Num 1) \<rparr>"

text \<open>The note on top is the last one; a note no wider than its two edges hides those below.\<close>

fun hit_body :: "Bounds \<Rightarrow> f32 \<times> f32 \<Rightarrow> (nat \<times> Bounds) list \<Rightarrow> nat option" where
  "hit_body grid p [] = None"
| "hit_body grid p ((i, r) # rs) =
     (let inset = fmul F32 NOTE_EDGE_HIT_W (Num (1 / 2))
      in if \<not> intersects r grid \<or> \<not> bounds_contains r p then hit_body grid p rs
         else if le (bo_w r) NOTE_EDGE_HIT_W then None
         else if bounds_contains \<lparr> bo_x = fadd F32 (bo_x r) inset, bo_y = bo_y r,
                   bo_w = fsub F32 (bo_w r) (fmul F32 inset (Num 2)), bo_h = bo_h r \<rparr> p then Some i
         else hit_body grid p rs)"

definition note_rects :: "MidiNote list \<Rightarrow> Bounds \<Rightarrow> f32 \<Rightarrow> f32 \<Rightarrow> (nat \<times> Bounds) list" where
  "note_rects notes grid zoom_x key_height =
     enumerate 0 (map (\<lambda>n. note_rect grid n zoom_x key_height) notes)"

definition hit_test_note_body :: "MidiNote list \<Rightarrow> f32 \<times> f32 \<Rightarrow> Bounds \<Rightarrow> f32 \<Rightarrow> f32 \<Rightarrow> nat option" where
  "hit_test_note_body notes p grid zoom_x key_height =
     hit_body grid p (rev (note_rects notes grid zoom_x key_height))"

definition hit_test_note_full :: "MidiNote list \<Rightarrow> f32 \<times> f32 \<Rightarrow> Bounds \<Rightarrow> f32 \<Rightarrow> f32 \<Rightarrow> nat option" where
  "hit_test_note_full notes p grid zoom_x key_height =
     map_option fst (find (\<lambda>(i, r). intersects r grid \<and> bounds_contains r p)
       (rev (note_rects notes grid zoom_x key_height)))"

definition notes_in_marquee :: "MidiNote list \<Rightarrow> Bounds \<Rightarrow> Bounds \<Rightarrow> f32 \<Rightarrow> f32 \<Rightarrow> nat set" where
  "notes_in_marquee notes marquee grid zoom_x key_height =
     set (map fst (filter (\<lambda>(i, r). intersects r marquee) (note_rects notes grid zoom_x key_height)))"

section \<open>What is drawn\<close>

definition MIDI_KEY_COUNT :: int where "MIDI_KEY_COUNT = 128"
definition SIDEBAR_WIDTH :: f32 where "SIDEBAR_WIDTH = Num 140"
definition RULER_HEIGHT :: f32 where "RULER_HEIGHT = Num 24"
definition DEFAULT_KEY_HEIGHT :: f32 where "DEFAULT_KEY_HEIGHT = Num 16"
definition DEFAULT_ZOOM_X :: f32 where "DEFAULT_ZOOM_X = lit F32 (6 / 100)"
definition MIN_ZOOM_X :: f32 where "MIN_ZOOM_X = lit F32 (8 / 1000)"
definition MAX_ZOOM_X :: f32 where "MAX_ZOOM_X = Num (1 / 2)"
definition ROW_OVERSCAN :: int where "ROW_OVERSCAN = 4"
definition MIN_VIEWPORT_W :: f32 where "MIN_VIEWPORT_W = Num 480"
definition MIN_VIEWPORT_H :: f32 where "MIN_VIEWPORT_H = Num 180"
definition LAYOUT_WAIT_FRAMES :: u8 where "LAYOUT_WAIT_FRAMES = 8"
definition FOCUS_PITCH :: u8 where "FOCUS_PITCH = 60"
definition BARS_FIT_TO_PANEL :: f32 where "BARS_FIT_TO_PANEL = Num 4"

record GridViewport =
  gv_scroll_x :: f32
  gv_scroll_y :: f32
  gv_width :: f32
  gv_height :: f32
  gv_row_start :: int
  gv_row_end :: int
  gv_tick_start :: int
  gv_tick_end :: int

text \<open>\<open>as i64\<close> of a float, and wrapping \<open>i64\<close> addition.\<close>

definition f_i64 :: "fp \<Rightarrow> int" where "f_i64 x = sint (to_i64 x)"
definition add_i64 :: "int \<Rightarrow> int \<Rightarrow> int" where "add_i64 x y = sint (word_of_int (x + y) :: u64)"

definition clamp_int :: "int \<Rightarrow> int \<Rightarrow> int \<Rightarrow> int" where
  "clamp_int lo hi x = max lo (min hi x)"

definition compute_grid_viewport :: "f32 \<times> f32 \<Rightarrow> f32 \<times> f32 \<Rightarrow> f32 \<Rightarrow> f32 \<Rightarrow> GridViewport" where
  "compute_grid_viewport offset viewport key_height zoom_x =
     (let kh = (if lt (Num (1 / 2)) key_height then key_height else DEFAULT_KEY_HEIGHT);
          zx = (if lt F32_EPSILON zoom_x then zoom_x else MIN_ZOOM_X);
          width = fmax (fst viewport) MIN_VIEWPORT_W;
          height = fmax (snd viewport) MIN_VIEWPORT_H;
          scroll_x = fmax (fneg (fst offset)) (Num 0);
          scroll_y = fmax (fneg (snd offset)) (Num 0);
          rows_top = fsub F32 scroll_y RULER_HEIGHT;
          rows_bottom = fsub F32 (fadd F32 scroll_y height) RULER_HEIGHT;
          row_start = clamp_int 0 (MIDI_KEY_COUNT - 1) (sub_i64 (f_i64 (ffloor (fdiv F32 rows_top kh))) ROW_OVERSCAN);
          row_end = min (max (clamp_int 0 MIDI_KEY_COUNT (add_i64 (f_i64 (fceil (fdiv F32 rows_bottom kh))) ROW_OVERSCAN))
                           (row_start + 1)) MIDI_KEY_COUNT;
          ticks_left = fsub F32 scroll_x SIDEBAR_WIDTH;
          ticks_right = fsub F32 (fadd F32 scroll_x width) SIDEBAR_WIDTH;
          tick_start = max (sub_i64 (f_i64 (ffloor (fdiv F32 ticks_left zx))) (as_i64 TICKS_PER_BAR)) 0;
          tick_end = max (max (add_i64 (f_i64 (fceil (fdiv F32 ticks_right zx))) (as_i64 TICKS_PER_BAR)) 0) tick_start
      in \<lparr> gv_scroll_x = scroll_x, gv_scroll_y = scroll_y, gv_width = width, gv_height = height,
           gv_row_start = row_start, gv_row_end = row_end, gv_tick_start = tick_start, gv_tick_end = tick_end \<rparr>)"

definition note_visible_in :: "u64 \<Rightarrow> u64 \<Rightarrow> u8 \<Rightarrow> GridViewport \<Rightarrow> bool" where
  "note_visible_in start_tick duration_ticks pitch vp =
     (let row = MIDI_KEY_COUNT - 1 - uint pitch
      in if row < gv_row_start vp \<or> gv_row_end vp \<le> row then False
         else gv_tick_start vp \<le> uint (sat_add start_tick duration_ticks) \<and> uint start_tick \<le> gv_tick_end vp)"

definition fit_zoom_x :: "f32 \<Rightarrow> f32 \<Rightarrow> f32" where
  "fit_zoom_x viewport_width bars =
     (let usable = fmax (fsub F32 (fsub F32 viewport_width SIDEBAR_WIDTH) (Num 16)) (Num 120)
      in fclamp (fdiv F32 usable (fmul F32 (fmax bars (Num 1)) (of_u64 F32 TICKS_PER_BAR))) MIN_ZOOM_X MAX_ZOOM_X)"

definition focus_scroll_y :: "f32 \<Rightarrow> f32 \<Rightarrow> u8 \<Rightarrow> f32" where
  "focus_scroll_y viewport_height key_height pitch =
     (let kh = (if lt (Num (1 / 2)) key_height then key_height else DEFAULT_KEY_HEIGHT);
          row = fsub F32 (Num 127) (of_u64 F32 pitch);
          center = fadd F32 RULER_HEIGHT (fmul F32 (fadd F32 row (Num (1 / 2))) kh)
      in fmax (fsub F32 center (fmul F32 viewport_height (Num (1 / 2)))) (Num 0))"

definition total_ticks_for :: "u64 \<Rightarrow> u64 \<Rightarrow> u64" where
  "total_ticks_for max_note_tick playhead_tick =
     max (TICKS_PER_BAR * 32) (sat_add (max max_note_tick playhead_tick) (TICKS_PER_BAR * 2))"

definition is_black_key :: "u8 \<Rightarrow> bool" where
  "is_black_key pitch \<longleftrightarrow> pitch mod 12 \<in> {1, 3, 6, 8, 10}"

definition PITCH_CLASS_NAMES :: "string list" where
  "PITCH_CLASS_NAMES = [''C'', ''C#'', ''D'', ''D#'', ''E'', ''F'', ''F#'', ''G'', ''G#'', ''A'', ''A#'', ''B'']"

definition show_int :: "int \<Rightarrow> string" where
  "show_int n = (if n < 0 then ''-'' @ show_nat (nat (- n)) else show_nat (nat n))"

definition pitch_name :: "u8 \<Rightarrow> string" where
  "pitch_name pitch = PITCH_CLASS_NAMES ! unat (pitch mod 12) @ show_int (uint (pitch div 12) - 1)"

definition key_label :: "PianoRollState \<Rightarrow> nat \<Rightarrow> string option" where
  "key_label s row =
     (let pitch = word_of_nat (127 - min row 127) :: u8
      in case pr_mode s of
           Keys \<Rightarrow> if row < 128 then Some (pitch_name (word_of_nat (127 - row))) else None
         | Drums \<Rightarrow> Some (case pr_drum_map s pitch of
               Some name \<Rightarrow> name @ '' ('' @ show_nat (unat pitch) @ '')''
             | None \<Rightarrow> ''Pad '' @ show_nat (unat pitch)))"

text \<open>A note with the preview of a drag applied: the tables of the drag, by note.\<close>

definition drag_lookup_maps :: "PianoRollState \<Rightarrow> (nat \<rightharpoonup> u64 \<times> u8) \<times> (nat \<rightharpoonup> u64 \<times> u64)" where
  "drag_lookup_maps s =
     (if pr_move_active s then map_of (rev (pr_move_orig s)) else (\<lambda>_. None),
      if pr_resize_active s then map_of (rev (pr_resize_targets s)) else (\<lambda>_. None))"

definition effective_note_geometry ::
    "PianoRollState \<Rightarrow> nat \<Rightarrow> (nat \<rightharpoonup> u64 \<times> u8) \<Rightarrow> (nat \<rightharpoonup> u64 \<times> u64) \<Rightarrow> (u64 \<times> u64 \<times> u8) option" where
  "effective_note_geometry s i move_map resize_map =
     (case nth_opt (pr_notes s) i of
        None \<Rightarrow> None
      | Some n \<Rightarrow>
          let (start, pitch) = (case move_map i of
                 Some (s0, p0) \<Rightarrow> apply_move_delta s0 p0 (pr_move_delta_ticks s) (pr_move_delta_rows s)
               | None \<Rightarrow> (nt_start n, nt_pitch n));
              (start, dur) = (case resize_map i of
                 Some (s0, d0) \<Rightarrow>
                   (case pr_resize_handle s of
                      LeftHandle \<Rightarrow> apply_resize_left_delta s0 d0 (pr_resize_delta_start s)
                    | RightHandle \<Rightarrow> (start, snd (apply_resize_right_delta s0 d0 (pr_resize_delta_duration s)))
                    | NoHandle \<Rightarrow> (start, nt_duration n))
               | None \<Rightarrow> (start, nt_duration n))
          in Some (start, dur, pitch))"

text \<open>The first layout; \<open>area\<close> is what the scroll handle publishes.  True asks for another frame.\<close>

definition roll_sync_frame :: "f32 \<times> f32 \<Rightarrow> PianoRollState \<Rightarrow> bool \<times> PianoRollState" where
  "roll_sync_frame area s =
     (if le (fst area) (Num 1) \<or> le (snd area) (Num 1)
      then if pr_layout_initialized s then (False, s)
           else let w = (if pr_layout_wait s = 0 then LAYOUT_WAIT_FRAMES else pr_layout_wait s)
                in (True, s\<lparr>pr_layout_wait := w - 1\<rparr>)
      else if \<not> pr_layout_initialized s
      then let content_h = fadd F32 RULER_HEIGHT (fmul F32 (Num 128) (pr_key_height s));
               max_scroll = fmax (fsub F32 content_h (snd area)) (Num 0);
               top = fclamp (focus_scroll_y (snd area) (pr_key_height s) FOCUS_PITCH) (Num 0) max_scroll
           in (True, s\<lparr>pr_zoom_x := fit_zoom_x (fst area) BARS_FIT_TO_PANEL, pr_scroll := (Num 0, fneg top),
                        pr_layout_initialized := True\<rparr>)
      else (False, s))"

section \<open>A click on the grid and a frame of the application\<close>

definition click_grid :: "(u8 \<Rightarrow> f32 \<Rightarrow> GuiCommand list) \<Rightarrow> f32 \<times> f32 \<Rightarrow> PianoRollState \<Rightarrow> PianoRollState \<times> GuiCommand list" where
  "click_grid preview pos s =
     (let local_x = fsub F32 (fsub F32 (fst pos) (fst (pr_scroll s))) SIDEBAR_WIDTH;
          local_y = fsub F32 (fsub F32 (snd pos) (snd (pr_scroll s))) RULER_HEIGHT
      in if lt local_x (Num 0) \<or> lt local_y (Num 0) then (s, [])
         else let raw_tick = to_word (fmax (fdiv F32 local_x (pr_zoom_x s)) (Num 0));
                  q_tick = quantize_tick raw_tick QUANTIZE_TICKS;
                  row = clamp_int (- (2 ^ 31)) (2 ^ 31 - 1) (f_i64 (fmax (fdiv F32 local_y (pr_key_height s)) (Num 0)));
                  pitch = word_of_int (clamp_int 0 127 (sint (word_of_int (127 - row) :: u32)))
              in if \<exists>n \<in> set (pr_notes s). nt_pitch n = pitch \<and> nt_start n \<le> q_tick
                      \<and> q_tick < sat_add (nt_start n) (nt_duration n)
                 then (s, [])
                 else (s\<lparr>pr_notes := pr_notes s @ [\<lparr> nt_pitch = pitch, nt_start = q_tick,
                             nt_duration = QUANTIZE_TICKS, nt_velocity = 100 \<rparr>]\<rparr>,
                       if pr_mode s = Drums then preview pitch (Num 1) else []))"

definition note_of_tuple :: "u64 \<times> u8 \<times> u8 \<times> u32 \<Rightarrow> MidiNote" where
  "note_of_tuple = (\<lambda>(start, pitch, velocity, dur). \<lparr> nt_pitch = pitch, nt_start = start,
     nt_duration = ucast dur, nt_velocity = velocity \<rparr>)"

definition tuple_of_note :: "MidiNote \<Rightarrow> u64 \<times> u8 \<times> u8 \<times> u32" where
  "tuple_of_note n = (nt_start n, nt_pitch n, nt_velocity n, ucast (nt_duration n))"

definition selected_midi :: "SessionMatrixState \<Rightarrow> ((usize \<times> usize) \<times> MatrixSlot \<times> MatrixClip \<times> (u64 \<times> u8 \<times> u8 \<times> u32) list) option" where
  "selected_midi m =
     (case sm_selected_slot m of
        None \<Rightarrow> None
      | Some (t, sc) \<Rightarrow>
          (case get_slot m t sc of
             None \<Rightarrow> None
           | Some slot \<Rightarrow>
               (case sl_clip slot of
                  None \<Rightarrow> None
                | Some clip \<Rightarrow>
                    (case xc_content clip of
                       Midi notes \<Rightarrow> Some ((t, sc), slot, clip, notes)
                     | Audio _ _ _ _ \<Rightarrow> None))))"

text \<open>The notes of the selected pad become the notes of the roll.\<close>

definition roll_from_slot :: "SessionMatrixState \<Rightarrow> PianoRollState \<Rightarrow> PianoRollState" where
  "roll_from_slot m s =
     (case selected_midi m of
        None \<Rightarrow> (clear_note_selection (s\<lparr>pr_notes := []\<rparr>))\<lparr>pr_source_slot := None\<rparr>
      | Some (pos, _, _, notes) \<Rightarrow>
          let s = (if pr_source_slot s \<noteq> Some pos then (clear_note_selection s)\<lparr>pr_source_slot := Some pos\<rparr> else s)
          in s\<lparr>pr_notes := map note_of_tuple notes\<rparr>)"

text \<open>
  The playhead of the roll; \<open>now\<close> is the transport's tick, \<open>elapsed\<close> the ticks since the loop of
  the roll started.
\<close>

definition roll_playhead :: "bool \<Rightarrow> u64 \<Rightarrow> u64 \<Rightarrow> PianoRollState \<Rightarrow> PianoRollState" where
  "roll_playhead playing now elapsed s =
     (if \<not> playing then s\<lparr>pr_loop_running := False\<rparr>
      else if pr_loop_enabled s \<and> pr_sel_active s \<and> pr_sel_start s < pr_sel_end s
      then let loop_len = pr_sel_end s - pr_sel_start s;
               s' = (if \<not> pr_loop_running s then s\<lparr>pr_loop_transport_start := now, pr_loop_running := True\<rparr> else s);
               elapsed = (if pr_loop_running s then elapsed else 0)
           in s'\<lparr>pr_playhead := pr_sel_start s + elapsed mod loop_len\<rparr>
      else s\<lparr>pr_playhead := now, pr_loop_running := False\<rparr>)"

text \<open>The notes of the roll go back to the selected pad, when the roll is shown.\<close>

definition slot_from_roll :: "bool \<Rightarrow> PianoRollState \<Rightarrow> SessionMatrixState \<Rightarrow> SessionMatrixState" where
  "slot_from_roll shown s m =
     (if \<not> shown then m
      else case selected_midi m of
             None \<Rightarrow> m
           | Some ((t, sc), slot, clip, _) \<Rightarrow>
               put_slot t sc (slot\<lparr>sl_clip := Some (clip\<lparr>xc_content := Midi (map tuple_of_note (pr_notes s))\<rparr>)\<rparr>) m)"

definition roll_frame ::
    "(u8 \<Rightarrow> f32 \<Rightarrow> GuiCommand list) \<Rightarrow> bool \<Rightarrow> bool \<Rightarrow> u64 \<Rightarrow> u64 \<Rightarrow> f32 \<times> f32 \<Rightarrow> SessionMatrixState \<Rightarrow> PianoRollState
      \<Rightarrow> (SessionMatrixState \<times> PianoRollState) \<times> GuiCommand list" where
  "roll_frame preview shown playing now elapsed area m s =
     (let s = roll_playhead playing now elapsed (roll_from_slot m s);
          m = slot_from_roll shown s m;
          (s, cmds) = trigger_playhead_notes preview s
      in ((m, if shown then snd (roll_sync_frame area s) else s), cmds))"

end
