(* ===== verification/RollEdit.thy ===== *)
theory RollEdit
  imports PianoRoll
begin

text \<open>
  What the piano roll promises (crates/hikaru_gui/src/views/piano_roll.rs): groups of notes move
  rigidly, resizing keeps the other end, the playhead triggers each note once, duplicates can be
  removed; and that the frame of the application (app.rs) forgets what was drawn.
\<close>

section \<open>Signed ticks\<close>

lemma as_i64_small: "uint w < 2 ^ 63 \<Longrightarrow> as_i64 w = uint w"
proof -
  have "- (2 ^ 63) \<le> (0 :: int)" by simp
  then have "- (2 ^ 63) \<le> uint w" by (rule order_trans) simp
  then show "uint w < 2 ^ 63 \<Longrightarrow> as_i64 w = uint w"
    unfolding as_i64_def sint_uint by (intro signed_take_bit_int_eq_self) simp_all
qed

lemma sint_of_int: "- (2 ^ 63) \<le> x \<Longrightarrow> x < 2 ^ 63 \<Longrightarrow> sint (word_of_int x :: u64) = x"
  by (simp add: signed_of_int signed_take_bit_int_eq_self)

lemma sub_i64_exact: "- (2 ^ 63) \<le> x - y \<Longrightarrow> x - y < 2 ^ 63 \<Longrightarrow> sub_i64 x y = x - y"
  unfolding sub_i64_def by (rule sint_of_int)

lemma uint_as_u64: "0 \<le> x \<Longrightarrow> x < 2 ^ 64 \<Longrightarrow> uint (as_u64 x) = x"
  by (simp add: as_u64_def uint_word_of_int_eq take_bit_int_eq_self)

lemma uint_sat_add: "uint a + uint b < 2 ^ 64 \<Longrightarrow> uint (sat_add a b :: u64) = uint a + uint b"
  using unat_sat_add [of a b] by (simp add: uint_nat del: of_nat_unat flip: of_nat_add)

lemma uint_sat_sub: "uint b \<le> uint a \<Longrightarrow> uint (sat_sub a b :: u64) = uint a - uint b"
  by (simp add: sat_sub_def word_le_def uint_sub_if')

lemma uint_quantize:
  "0 < uint step \<Longrightarrow> uint (quantize_tick t step) = uint t - uint t mod uint step"
proof -
  assume s: "0 < uint step"
  have "uint t div uint step * uint step \<le> uint t" using s by (simp add: div_mult_mod_eq [symmetric] minus_mod_eq_div_mult [symmetric])
  then have "uint ((t div step) * step) = uint t div uint step * uint step"
    using uint_lt2p [of t] uint_mult_lem [of "t div step" step] by (simp add: uint_div_distrib)
  moreover have "step \<noteq> 0" using s by auto
  ultimately show ?thesis by (simp add: quantize_tick_def minus_mod_eq_div_mult)
qed

lemma uint_min: "uint (min a b) = min (uint a) (uint b)"
  by (simp add: min_def word_le_def)

lemma clip_start: "0 \<le> a \<Longrightarrow> 240 \<le> b \<Longrightarrow> min (max (a + d) 0) (a + b - 240) = max 0 (min (a + d) (a + b - 240))"
  for a b d :: int
  by (auto simp: min_def max_def)

lemma clip_le: "0 \<le> a \<Longrightarrow> 240 \<le> b \<Longrightarrow> max 0 (min (a + d) (a + b - 240)) \<le> a + b - 240"
  for a b d :: int
  by (auto simp: min_def max_def)

lemma uint_of_small: "0 \<le> x \<Longrightarrow> x \<le> 127 \<Longrightarrow> uint (word_of_int x :: u8) = x"
  by (simp add: uint_word_of_int_eq take_bit_int_eq_self)

section \<open>Moving and resizing\<close>

text \<open>
  Moving a group of notes moves them rigidly: with the deltas \<open>compute_note_move_deltas\<close> gives
  for the grabbed note, \<open>apply_move_delta\<close> shifts every note of the group by the same ticks and
  rows, and none is clamped at an edge of the grid.
\<close>

lemma group_move_rigid:
  assumes grab: "(g, gs, gp) \<in> set orig" "\<forall>(i, s, p) \<in> set orig. uint s < 2 ^ 62 \<and> uint p \<le> 127"
    and raw: "\<bar>raw_ticks\<bar> < 2 ^ 62"
    and d: "compute_note_move_deltas orig g raw_ticks raw_rows = (dt, dr)"
    and n: "(i, s, p) \<in> set orig"
  shows "uint (fst (apply_move_delta s p dt dr)) = uint s + dt
    \<and> uint (snd (apply_move_delta s p dt dr)) = uint p - dr"
proof -
  obtain gi g0 p0 where f: "find (\<lambda>(i, _, _). i = g) orig = Some (gi, g0, p0)" and g0: "(gi, g0, p0) \<in> set orig"
  proof (cases "find (\<lambda>(i, _, _). i = g) orig")
    case None
    then show ?thesis using grab(1) by (auto simp: find_None_iff)
  next
    case (Some x)
    then have "x \<in> set orig" by (metis find_Some_iff nth_mem)
    with Some show ?thesis using that by (cases x) simp
  qed
  have gb: "uint g0 < 2 ^ 62" using g0 grab(2) by auto
  have sb: "uint s < 2 ^ 62" "uint p \<le> 127" using n grab(2) by auto
  let ?target = "max (sat_i64 (as_i64 g0 + raw_ticks)) 0"
  have t: "0 \<le> ?target" "?target < 2 ^ 63"
    using gb raw by (auto simp: sat_i64_def as_i64_small)
  let ?q = "quantize_tick (as_u64 ?target) QUANTIZE_TICKS"
  have "uint ?q = ?target - ?target mod 240"
    using uint_quantize [of QUANTIZE_TICKS "as_u64 ?target"] t by (simp add: uint_as_u64 QUANTIZE_TICKS_def)
  moreover have "0 \<le> ?target mod 240" by simp
  ultimately have q: "uint ?q \<le> ?target" "0 \<le> uint ?q" by linarith simp
  then have sn: "as_i64 ?q = uint ?q" "uint ?q < 2 ^ 63" using t by (simp_all add: as_i64_small)
  let ?d0 = "sub_i64 (as_i64 ?q) (as_i64 g0)"
  have d0: "?d0 = uint ?q - uint g0"
  proof -
    have g: "uint g0 < 4611686018427387904" "uint ?q < 9223372036854775808" using gb sn(2) by simp_all
    have "- 9223372036854775808 \<le> uint ?q - uint g0" "uint ?q - uint g0 < 9223372036854775808"
      using g q(2) uint_ge_0 [of g0] by linarith+
    then have "sub_i64 (uint ?q) (uint g0) = uint ?q - uint g0" by (intro sub_i64_exact) simp_all
    moreover have "as_i64 g0 = uint g0" using gb by (intro as_i64_small) simp
    ultimately show ?thesis unfolding sn(1) by simp
  qed
  let ?starts = "(\<lambda>(_, s, _). s) ` set orig"
  have fin: "finite ?starts" "s \<in> ?starts" using n by (auto intro: rev_image_eqI)
  have ms: "uint (Min ?starts) \<le> uint s" using Min_le [OF fin] by (simp add: word_le_def)
  then have mi: "as_i64 (Min ?starts) = uint (Min ?starts)" using sb(1) by (intro as_i64_small) simp
  have dt: "dt = (if ?d0 < 0 then max ?d0 (- as_i64 (Min ?starts)) else ?d0)"
    using d f by (simp add: compute_note_move_deltas_def Let_def)
  let ?pitches = "(\<lambda>(_, _, p). uint p) ` set orig"
  have dr: "dr = max (Max ?pitches - 127) (min (Min ?pitches) raw_rows)"
    using d f by (simp add: compute_note_move_deltas_def Let_def)
  have pin: "finite ?pitches" "uint p \<in> ?pitches" using n by (auto intro: rev_image_eqI)
  have pb: "Min ?pitches \<le> uint p" "uint p \<le> Max ?pitches" using pin by (auto intro: Min_le Max_ge)
  have "?pitches \<noteq> {}" using pin by auto
  then have "Max ?pitches \<in> ?pitches" "Min ?pitches \<in> ?pitches" using pin(1) by simp_all
  then have mx: "Max ?pitches \<le> 127" "0 \<le> Min ?pitches" using grab(2) by auto
  have row: "0 \<le> uint p - dr" "uint p - dr \<le> 127" using pb mx dr by auto
  have lo: "0 \<le> uint s + dt" using dt ms mi d0 by (auto simp: max_def)
  have "?d0 < 2 ^ 63" unfolding d0 using sn(2) uint_ge_0 [of g0] by linarith
  moreover have "- as_i64 (Min ?starts) < 2 ^ 63"
    unfolding mi using uint_ge_0 [of "Min ?starts"] by (rule_tac le_less_trans [of _ 0]) simp_all
  ultimately have hi: "dt < 2 ^ 63" unfolding dt by (auto simp only: max_less_iff_conj split: if_split)
  have "uint (fst (apply_move_delta s p dt dr)) = uint s + dt"
  proof (cases "0 \<le> dt")
    case True
    then have "uint (as_u64 dt) = dt" using hi by (intro uint_as_u64) simp_all
    then show ?thesis using True sb(1) hi by (simp add: apply_move_delta_def uint_sat_add)
  next
    case False
    then have "uint (as_u64 (- dt)) = - dt" using lo sb(1) by (intro uint_as_u64) simp_all
    then show ?thesis using False lo by (simp add: apply_move_delta_def uint_sat_sub)
  qed
  moreover have "uint (snd (apply_move_delta s p dt dr)) = uint p - dr"
  proof -
    have "max 0 (min 127 (uint p - dr)) = uint p - dr" using row by simp
    then show ?thesis using uint_of_small [OF row] by (simp only: apply_move_delta_def Let_def snd_conv)
  qed
  ultimately show ?thesis by blast
qed

lemma group_move_rigid_witness:
  "uint (fst (apply_move_delta 960 60 (- 480) 3)) = 480 \<and> uint (snd (apply_move_delta 960 60 (- 480) 3)) = 57"
proof -
  have "compute_note_move_deltas [(0, 480, 64), (1, 960, 60)] 1 (- 700) 3 = (- 480, 3)" by code_simp
  from group_move_rigid [where gs = 960 and gp = 60 and i = 1 and s = 960 and p = 60, OF _ _ _ this]
  show ?thesis by simp
qed

text \<open>
  Dragging the left edge of a note keeps its end where it is and never makes it shorter than
  the grid step: the start follows the delta between zero and a step before the end.
\<close>

lemma resize_left_keeps_end:
  assumes "uint start + uint dur < 2 ^ 62" "240 \<le> uint dur" "\<bar>delta\<bar> < 2 ^ 62"
  shows "case apply_resize_left_delta start dur delta of (s, d) \<Rightarrow>
    uint s + uint d = uint start + uint dur \<and> 240 \<le> uint d
    \<and> uint s = max 0 (min (uint start + delta) (uint start + uint dur - 240))"
proof -
  have m: "uint MIN_NOTE_DURATION_TICKS = 240" by (simp add: MIN_NOTE_DURATION_TICKS_def QUANTIZE_TICKS_def)
  have nn: "0 \<le> uint start" "0 \<le> uint dur" by simp_all
  have e: "uint (sat_add start dur) = uint start + uint dur" using assms by (intro uint_sat_add) simp
  have me: "uint (sat_add start MIN_NOTE_DURATION_TICKS) = uint start + 240"
    unfolding m [symmetric] using assms nn m by (intro uint_sat_add) simp
  have "sat_add start MIN_NOTE_DURATION_TICKS \<le> sat_add start dur" using e me assms by (simp add: word_le_def)
  then have ne: "max (sat_add start dur) (sat_add start MIN_NOTE_DURATION_TICKS) = sat_add start dur" by (rule max_absorb1)
  have cap: "uint (sat_sub (sat_add start dur) MIN_NOTE_DURATION_TICKS) = uint start + uint dur - 240"
    unfolding m [symmetric] e [symmetric] using e m assms nn by (intro uint_sat_sub) linarith
  have raw: "max (sat_i64 (as_i64 start + delta)) 0 = max (uint start + delta) 0"
    using assms nn by (auto simp: sat_i64_def as_i64_small)
  have rawb: "uint (as_u64 (max (uint start + delta) 0)) = max (uint start + delta) 0"
    using assms nn by (intro uint_as_u64) auto
  let ?s = "min (as_u64 (max (uint start + delta) 0)) (sat_sub (sat_add start dur) MIN_NOTE_DURATION_TICKS)"
  have s: "uint ?s = max 0 (min (uint start + delta) (uint start + uint dur - 240))"
    unfolding uint_min rawb cap by (rule clip_start) (use assms in simp_all)
  have c: "uint ?s \<le> uint start + uint dur - 240" unfolding s by (rule clip_le) (use assms in simp_all)
  then have d: "uint (sat_sub (sat_add start dur) ?s) = uint start + uint dur - uint ?s"
    unfolding e [symmetric] using e by (intro uint_sat_sub) linarith
  have "240 \<le> uint start + uint dur - uint ?s" using c by linarith
  then show ?thesis
    unfolding apply_resize_left_delta_def Let_def ne raw prod.case d s by linarith
qed

lemma resize_left_keeps_end_witness:
  "case apply_resize_left_delta 960 480 1000 of (s, d) \<Rightarrow> uint s + uint d = 1440"
  using resize_left_keeps_end [of 960 480 1000] by (auto split: prod.splits)

section \<open>A frame forgets the edits\<close>

lemma put_same: "get_slot m t sc = Some slot \<Longrightarrow> put_slot t sc slot m = m"
  by (auto simp: get_slot_Some put_slot_def)

lemma narrow_again: "ucast (ucast (w :: u32) :: u64) = w"
  by transfer simp

lemma note_tuple_id [simp]: "tuple_of_note (note_of_tuple x) = x"
  by (cases x) (simp add: tuple_of_note_def note_of_tuple_def narrow_again)

lemma roll_playhead_notes [simp]: "pr_notes (roll_playhead playing now elapsed s) = pr_notes s"
  by (simp add: roll_playhead_def Let_def)

lemma trigger_notes [simp]: "pr_notes (fst (trigger_playhead_notes preview s)) = pr_notes s"
  by (simp add: trigger_playhead_notes_def)

lemma roll_sync_notes [simp]: "pr_notes (snd (roll_sync_frame area s)) = pr_notes s"
  by (simp add: roll_sync_frame_def Let_def)

lemma selected_midi_slot:
  "selected_midi m = Some ((t, sc), slot, clip, notes) \<Longrightarrow>
   get_slot m t sc = Some slot \<and> sl_clip slot = Some clip \<and> xc_content clip = Midi notes"
  by (auto simp: selected_midi_def split: option.splits ClipData.splits prod.splits)

text \<open>
  C26. What is drawn in the piano roll is never kept: each frame of the application first fills the
  roll from the selected pad and then writes the roll back to the pad, so a note a click has added
  is gone, from the roll and from the pad, after the next frame.
\<close>

theorem frame_discards_roll_edits:
  assumes "selected_midi m = Some (pos, slot, clip, notes)"
    and "click_grid preview p s = (s1, cmds1)"
    and "roll_frame preview shown playing now elapsed area m s1 = ((m', s'), cmds)"
  shows "m' = m \<and> pr_notes s' = map note_of_tuple notes"
proof -
  obtain t sc where pos: "pos = (t, sc)" by (cases pos)
  note sel = selected_midi_slot [OF assms(1) [unfolded pos]]
  have n: "pr_notes (roll_from_slot m s1) = map note_of_tuple notes"
    using assms(1) by (simp add: roll_from_slot_def Let_def)
  have ce: "clip\<lparr>xc_content := Midi notes\<rparr> = clip" and se: "slot\<lparr>sl_clip := Some clip\<rparr> = slot" using sel by simp_all
  have "slot_from_roll shown (roll_playhead playing now elapsed (roll_from_slot m s1)) m = m"
    using assms(1) sel put_same [of m t sc slot] by (simp add: slot_from_roll_def pos n comp_def ce se)
  then show ?thesis
    using assms(3) n trigger_notes [of preview "roll_playhead playing now elapsed (roll_from_slot m s1)"]
    by (auto simp: roll_frame_def Let_def split: prod.splits if_splits simp del: trigger_notes)
qed

text \<open>A roll as it opens, with the pad \<open>(0, 0)\<close> selected.\<close>

definition demo_roll :: PianoRollState where
  "demo_roll = \<lparr> pr_mode = Keys, pr_zoom_x = Num 1, pr_key_height = Num 16, pr_scroll = (Num 0, Num 0),
     pr_layout_initialized = True, pr_layout_wait = 0, pr_notes = [], pr_drum_map = (\<lambda>_. None), pr_playhead = 0,
     pr_prev_playhead = 0, pr_sel_start = 0, pr_sel_end = 0, pr_sel_active = False, pr_sel_dragging = False,
     pr_sel_preview = None, pr_sel_handle = NoHandle, pr_loop_enabled = False, pr_loop_transport_start = 0,
     pr_loop_running = False, pr_resize_active = False, pr_resize_handle = NoHandle, pr_resize_index = None,
     pr_resize_targets = [], pr_resize_delta_start = 0, pr_resize_delta_duration = 0, pr_selected = {},
     pr_marquee_active = False, pr_marquee_start = None, pr_marquee_current = None, pr_marquee_additive = False,
     pr_source_slot = None, pr_move_active = False, pr_move_grab = None, pr_move_orig = [], pr_move_delta_ticks = 0,
     pr_move_delta_rows = 0, pr_move_origin = None \<rparr>"

definition demo_midi :: SessionMatrixState where
  "demo_midi = (session_default [demo_meta] [''A''])\<lparr>sm_selected_slot := Some (0, 0), sm_grid :=
     [[\<lparr> sl_state = SlotStopped, sl_clip = Some (fresh_clip 1 [''a.mid''] True (Num 0, 0) [] (Num 1)) \<rparr>]]\<rparr>"

theorem frame_discards_roll_edits_witness:
  "\<exists>s1 cmds1 m' s' cmds. click_grid (\<lambda>_ _. []) (Num 140, Num 24) demo_roll = (s1, cmds1) \<and> length (pr_notes s1) = 1
    \<and> roll_frame (\<lambda>_ _. []) True False 0 0 (Num 800, Num 600) demo_midi s1 = ((m', s'), cmds)
    \<and> m' = demo_midi \<and> pr_notes s' = []"
proof -
  obtain s1 cmds1 where c: "click_grid (\<lambda>_ _. []) (Num 140, Num 24) demo_roll = (s1, cmds1)" by force
  obtain m' s' cmds where f: "roll_frame (\<lambda>_ _. []) True False 0 0 (Num 800, Num 600) demo_midi s1 = ((m', s'), cmds)"
    by (metis surj_pair)
  have sel: "selected_midi demo_midi = Some ((0, 0), sm_grid demo_midi ! 0 ! 0, the (sl_clip (sm_grid demo_midi ! 0 ! 0)), [])"
    by (simp add: selected_midi_def demo_midi_def get_slot_def nth_opt_def fresh_clip_def)
  have "length (pr_notes (fst (click_grid (\<lambda>_ _. []) (Num 140, Num 24) demo_roll))) = 1" by code_simp
  then have "length (pr_notes s1) = 1" by (simp only: c fst_conv)
  with frame_discards_roll_edits [OF sel c f] c f show ?thesis by auto
qed

section \<open>Each note once\<close>

text \<open>The commands of a run of frames, given where the playhead is at each of them.\<close>

fun roll_run :: "(u8 \<Rightarrow> f32 \<Rightarrow> GuiCommand list) \<Rightarrow> u64 list \<Rightarrow> PianoRollState \<Rightarrow> GuiCommand list" where
  "roll_run preview [] s = []"
| "roll_run preview (q # qs) s =
     (let (s, cmds) = trigger_playhead_notes preview (s\<lparr>pr_playhead := q\<rparr>) in cmds @ roll_run preview qs s)"

text \<open>The playhead advances by at most 240 ticks a frame.\<close>

fun steady :: "u64 \<Rightarrow> u64 list \<Rightarrow> bool" where
  "steady p [] \<longleftrightarrow> True"
| "steady p (q # qs) \<longleftrightarrow> p \<le> q \<and> unat q \<le> unat p + 240 \<and> steady q qs"

definition note_commands :: "(u8 \<Rightarrow> f32 \<Rightarrow> GuiCommand list) \<Rightarrow> MidiNote \<Rightarrow> GuiCommand list" where
  "note_commands preview n = preview (nt_pitch n) (fdiv F32 (of_u64 F32 (nt_velocity n)) (Num 127))"

lemma steady_last: "steady p qs \<Longrightarrow> p \<le> last (p # qs)"
  by (induction qs arbitrary: p) (auto split: if_splits intro: order_trans)

lemma crossed_step:
  assumes "p \<le> q" "unat q \<le> unat p + 240" "unat s + 240 < 2 ^ 64"
  shows "note_just_crossed p q s \<longleftrightarrow> p < s \<and> s \<le> q"
proof -
  have "unat (s + 240) = unat s + 240" using assms(3) by (simp add: unat_add_small)
  then show ?thesis using assms unfolding note_just_crossed_def by (auto simp: word_less_nat_alt word_le_nat_alt)
qed

lemma nothing_between: "(\<Sum>n \<in># M. if p < f n \<and> f n \<le> (p :: u64) then g n else {#}) = {#}"
  by (induction M) auto

text \<open>
  C27. Playing the roll triggers every note the playhead passes exactly once, and no other: the
  commands of a run of frames are those of the notes that start behind where the playhead was and
  not behind where it ends, provided it advances by at most 240 ticks a frame.
\<close>

theorem playhead_triggers_once:
  assumes "steady (pr_prev_playhead s) ps"
    and "\<forall>n \<in> set (pr_notes s). unat (nt_start n) + 240 < 2 ^ 64"
  shows "mset (roll_run preview ps s)
    = (\<Sum>n \<in># mset (pr_notes s). if pr_prev_playhead s < nt_start n \<and> nt_start n \<le> last (pr_prev_playhead s # ps)
         then mset (note_commands preview n) else {#})"
  using assms
proof (induction ps arbitrary: s)
  case Nil
  then show ?case by (simp add: nothing_between)
next
  case (Cons q ps)
  let ?p = "pr_prev_playhead s"
  let ?s = "s\<lparr>pr_playhead := q, pr_prev_playhead := q\<rparr>"
  have st: "?p \<le> q" "unat q \<le> unat ?p + 240" "steady q ps" using Cons.prems(1) by simp_all
  have step: "mset (snd (trigger_playhead_notes preview (s\<lparr>pr_playhead := q\<rparr>)))
      = (\<Sum>n \<in># mset (pr_notes s). if ?p < nt_start n \<and> nt_start n \<le> q then mset (note_commands preview n) else {#})"
  proof -
    have "filter (\<lambda>n. note_just_crossed ?p q (nt_start n)) (pr_notes s) = filter (\<lambda>n. ?p < nt_start n \<and> nt_start n \<le> q) (pr_notes s)"
      using crossed_step [OF st(1,2)] Cons.prems(2) by (intro filter_cong) auto
    moreover have "mset (concat (map (note_commands preview) (filter P ns)))
        = (\<Sum>n \<in># mset ns. if P n then mset (note_commands preview n) else {#})" for P ns
      by (induction ns) auto
    ultimately show ?thesis
      by (cases "q = ?p") (simp_all add: trigger_playhead_notes_def nothing_between flip: note_commands_def)
  qed
  have IH: "mset (roll_run preview ps ?s)
      = (\<Sum>n \<in># mset (pr_notes s). if q < nt_start n \<and> nt_start n \<le> last (q # ps) then mset (note_commands preview n) else {#})"
    using Cons.IH [of ?s] st(3) Cons.prems(2) by simp
  have l: "q \<le> last (q # ps)" by (rule steady_last [OF st(3)])
  have split: "(if ?p < x \<and> x \<le> q then c else {#}) + (if q < x \<and> x \<le> last (q # ps) then c else {#})
      = (if ?p < x \<and> x \<le> last (q # ps) then c else {#})" for x and c :: "GuiCommand multiset"
    using st(1) l by auto
  have "roll_run preview (q # ps) s = snd (trigger_playhead_notes preview (s\<lparr>pr_playhead := q\<rparr>)) @ roll_run preview ps ?s"
    by (simp add: trigger_playhead_notes_def)
  then show ?case
    by (simp only: mset_append step IH sum_mset.distrib [symmetric] split) simp
qed

theorem playhead_triggers_once_witness:
  "mset (roll_run (\<lambda>p _. [DmsNoteOff (ucast p)]) [100, 300, 500]
     (demo_roll\<lparr>pr_notes := [note_of_tuple (120, 60, 100, 240), note_of_tuple (960, 62, 100, 240)]\<rparr>)) = {#DmsNoteOff 60#}"
proof -
  let ?s = "demo_roll\<lparr>pr_notes := [note_of_tuple (120, 60, 100, 240), note_of_tuple (960, 62, 100, 240)]\<rparr>"
  have "steady (pr_prev_playhead ?s) [100, 300, 500]" by (simp add: demo_roll_def word_le_nat_alt)
  moreover have "\<forall>n \<in> set (pr_notes ?s). unat (nt_start n) + 240 < 2 ^ 64" by (simp add: note_of_tuple_def)
  ultimately show ?thesis
    using playhead_triggers_once [of ?s "[100, 300, 500]" "\<lambda>p _. [DmsNoteOff (ucast p)]"]
    by (simp add: demo_roll_def note_of_tuple_def note_commands_def)
qed

text \<open>A frame that takes longer than 240 ticks of music skips the notes it passed.\<close>

lemma late_frame_skips_note:
  "unat s + 240 < 2 ^ 64 \<Longrightarrow> p < s \<Longrightarrow> unat s + 240 \<le> unat q \<Longrightarrow> \<not> note_just_crossed p q s"
  using unat_add_small [of s 240] by (auto simp: note_just_crossed_def word_less_nat_alt)

section \<open>Removing and duplicating\<close>

lemma remove_from:
  "map snd (filter (\<lambda>(i, _). i \<notin> {n..<n + length ys}) (enumerate n ys)) = []"
  by (auto simp: filter_empty_conv in_set_enumerate_eq)

text \<open>
  Duplicating the selected notes appends one copy of each, in the order of the notes, behind
  all the others and shifted by the length of the selected block; removing the copies restores
  the notes.
\<close>

lemma duplicate_then_remove:
  assumes "duplicate_selected_notes notes selected = (new, notes')" "finite selected"
  shows "take (length notes) notes' = notes \<and> new = [length notes..<length notes']
    \<and> length new = card {i \<in> selected. i < length notes}
    \<and> snd (remove_selected_notes notes' (set new)) = (notes, {})"
proof -
  let ?picked = "map ((!) notes) (filter (\<lambda>i. i < length notes) (sorted_list_of_set selected))"
  have c: "length ?picked = card {i \<in> selected. i < length notes}"
    using assms(2) distinct_card [of "filter (\<lambda>i. i < length notes) (sorted_list_of_set selected)"] by simp
  obtain ys where ys: "notes' = notes @ ys" "new = [length notes..<length notes + length ys]" "length ys = length ?picked"
    using assms(1) that [of "[]"] by (auto simp: duplicate_selected_notes_def Let_def split: if_splits)
  have "enumerate 0 notes' = enumerate 0 notes @ enumerate (length notes) ys"
    unfolding ys(1) by (simp add: enumerate_append_eq)
  moreover have "filter (\<lambda>(i, _). i \<notin> {length notes..<length notes + length ys}) (enumerate 0 notes) = enumerate 0 notes"
    by (auto simp: filter_id_conv in_set_enumerate_eq)
  ultimately have "snd (remove_selected_notes notes' (set new)) = (notes, {})"
    using remove_from [of "length notes" ys] by (simp add: remove_selected_notes_def Let_def ys(2))
  then show ?thesis using ys c by simp
qed

lemma duplicate_then_remove_witness:
  "snd (remove_selected_notes (snd (duplicate_selected_notes [note_of_tuple (0, 60, 100, 240)] {0}))
     (set (fst (duplicate_selected_notes [note_of_tuple (0, 60, 100, 240)] {0}))))
   = ([note_of_tuple (0, 60, 100, 240)], {})"
proof -
  let ?d = "duplicate_selected_notes [note_of_tuple (0, 60, 100, 240)] {0}"
  have d: "?d = (fst ?d, snd ?d)" and f: "finite {0 :: nat}" by simp_all
  from duplicate_then_remove [OF d f] show ?thesis by blast
qed

end
