(* ===== verification/ProjectFile.thy ===== *)
theory ProjectFile
  imports Ieee PluginScan
begin

text \<open>
  The project files: crates/hikaru_project_file (what the two formats share), hikaru_openlive_file
  (the session, .oplf) and hikaru_openstudio_file (the timeline, .opsf) with their templates, and
  the choice of format and file name in gui/src/project/mod.rs.  Strings are UTF-8 bytes.  The
  tag \<open>engine_mode\<close> has one value in each format and is left out.  serde is a parameter: a printer,
  a probe for the version and a parser of the body; the file system is a map from paths to text.
\<close>

section \<open>What the formats share\<close>

definition FORMAT_VERSION :: u32 where "FORMAT_VERSION = 1"

datatype ProjectError =
    IoError
  | ParseError
  | UnsupportedVersion u32 u32
  | NotAProject path

record FileSend =
  fn_target_id :: usize
  fn_amount :: f32

record FileSlot =
  fs_id :: usize
  fs_name :: string
  fs_active :: bool
  fs_wavetable_path :: "string option"
  fs_plugin_path :: "string option"
  fs_plugin_format :: "string option"

record FileTrack =
  ft_id :: usize
  ft_name :: string
  ft_volume :: f32
  ft_pan :: f32
  ft_pan_mode :: u8
  ft_mute :: bool
  ft_solo :: bool
  ft_arm :: bool
  ft_is_master :: bool
  ft_route_destination_id :: usize
  ft_sends :: "FileSend list"
  ft_effects :: "FileSlot list"
  ft_matrix_idx :: "usize option"

record FileColor =
  fl_h :: f32
  fl_s :: f32
  fl_l :: f32
  fl_a :: f32

type_synonym disk = "path \<rightharpoonup> string"

text \<open>
  \<open>can_write\<close> tells whether the directories of a path can be made and the file written.  A
  printer that fails gives None; serde_json prints an infinity or a NaN as null and does not fail on it.
\<close>

definition write_json :: "('a \<Rightarrow> string option) \<Rightarrow> (path \<Rightarrow> bool) \<Rightarrow> path \<Rightarrow> 'a \<Rightarrow> disk \<Rightarrow> (ProjectError + path) \<times> disk" where
  "write_json print can_write p v d =
     (case print v of
        None \<Rightarrow> (Inl ParseError, d)
      | Some json \<Rightarrow> if can_write p then (Inr p, d(p \<mapsto> json)) else (Inl IoError, d))"

text \<open>\<open>probe\<close> is None when the text is no object with a version field that is a u32 or missing.\<close>

definition parse_with_probe :: "(string \<Rightarrow> u32 option option) \<Rightarrow> (string \<Rightarrow> 'a option) \<Rightarrow> path \<Rightarrow> disk \<Rightarrow> ProjectError + 'a" where
  "parse_with_probe probe body p d =
     (case d p of
        None \<Rightarrow> Inl IoError
      | Some text \<Rightarrow>
          (case probe text of
             None \<Rightarrow> Inl (NotAProject p)
           | Some None \<Rightarrow> Inl (NotAProject p)
           | Some (Some version) \<Rightarrow>
               if FORMAT_VERSION < version then Inl (UnsupportedVersion version FORMAT_VERSION)
               else case body text of None \<Rightarrow> Inl ParseError | Some v \<Rightarrow> Inr v))"

section \<open>Numbers in text\<close>

text \<open>The white space of Unicode, as \<open>str::trim\<close> sees it.\<close>

definition white_space :: "string list" where
  "white_space = map (map (char_of :: nat \<Rightarrow> char))
     ([[9], [10], [11], [12], [13], [32], [194, 133], [194, 160], [225, 154, 128]]
      @ map (\<lambda>c. [226, 128, c]) ([128..<139] @ [168, 169, 175]) @ [[226, 129, 159], [227, 128, 128]])"

definition strip_one :: "string list \<Rightarrow> string \<Rightarrow> string" where
  "strip_one ws s = (case find (\<lambda>w. prefix w s) ws of Some w \<Rightarrow> drop (length w) s | None \<Rightarrow> s)"

definition trim_start :: "string list \<Rightarrow> string \<Rightarrow> string" where
  "trim_start ws s = (strip_one ws ^^ length s) s"

definition trim :: "string \<Rightarrow> string" where
  "trim s = rev (trim_start (map rev white_space) (rev (trim_start white_space s)))"

definition is_digit :: "char \<Rightarrow> bool" where
  "is_digit c \<longleftrightarrow> of_char c \<in> {48..<58 :: nat}"

definition digits_value :: "string \<Rightarrow> nat" where
  "digits_value ds = foldl (\<lambda>n c. 10 * n + (of_char c - 48)) 0 ds"

definition parse_u32 :: "string \<Rightarrow> u32 option" where
  "parse_u32 s =
     (let ds = (case s of [] \<Rightarrow> [] | c # cs \<Rightarrow> if c = CHR ''+'' then cs else s)
      in if ds = [] \<or> \<not> list_all is_digit ds \<or> 2 ^ 32 \<le> digits_value ds then None
         else Some (word_of_nat (digits_value ds)))"

definition after_last_slash :: "string \<Rightarrow> string" where
  "after_last_slash s = rev (takeWhile (\<lambda>c. c \<noteq> CHR ''/'') (rev s))"

section \<open>OpenLive files\<close>

record 'st Metadata =
  md_title :: string
  md_artist :: "string option"
  md_genre :: "string option"
  md_key :: "string option"
  md_stats :: 'st

record LiveStats =
  ls_total_scenes :: usize
  ls_total_tracks :: usize
  ls_audio_clips :: usize
  ls_midi_clips :: usize

record LiveTransport =
  lt_bpm :: f64
  lt_time_signature :: "u32 \<times> u32"
  lt_launch_quantization :: string
  lt_tap_tempo_enabled :: bool
  lt_loop_start_ticks :: u64
  lt_loop_end_ticks :: u64
  lt_loop_enabled :: bool

definition quantization_denominator :: "LiveTransport \<Rightarrow> u32" where
  "quantization_denominator t =
     max (case parse_u32 (trim (after_last_slash (lt_launch_quantization t))) of Some n \<Rightarrow> n | None \<Rightarrow> 1) 1"

record DspGlobal =
  dg_master_volume :: f32
  dg_master_pan :: f32
  dg_effects_rack :: "FileSlot list"

record UiState =
  ui_view :: u8
  ui_show_dsp_rack :: bool
  ui_show_explorer :: bool

record FileRow =
  fr_name :: string
  fr_muted :: bool
  fr_soloed :: bool
  fr_volume :: f32
  fr_pan :: f32

record FileEvent =
  fe_id :: u64
  fe_name :: string
  fe_source_path :: string
  fe_start_secs :: f64
  fe_trim_left_frames :: usize
  fe_visible_frames :: usize
  fe_gain :: f32
  fe_fade_in_secs :: f64
  fe_fade_out_secs :: f64

record FileNote =
  fo_start_tick :: u64
  fo_note :: u8
  fo_velocity :: u8
  fo_duration_ticks :: u32

record FileClip =
  fc_id :: usize
  fc_name :: string
  fc_path :: string
  fc_loop_start :: u64
  fc_loop_end :: u64
  fc_loop_enabled :: bool
  fc_volume :: f32
  fc_pan :: f32
  fc_mute :: bool
  fc_events :: "FileEvent list"
  fc_midi_notes :: "FileNote list"

record FileMatrix =
  mt_tracks :: "FileRow list"
  mt_scenes :: "string list"
  mt_grid :: "FileClip option list list"
  mt_next_clip_id :: usize

record OpenLiveProject =
  ol_format_version :: u32
  ol_created_by :: string
  ol_metadata :: "LiveStats Metadata"
  ol_transport :: LiveTransport
  ol_dsp_global :: DspGlobal
  ol_live_tracks :: "FileTrack list"
  ol_matrix :: FileMatrix
  ol_ui :: UiState

definition DEFAULT_TRACKS :: nat where "DEFAULT_TRACKS = 8"
definition DEFAULT_SCENES :: nat where "DEFAULT_SCENES = 8"

definition default_matrix :: FileMatrix where
  "default_matrix = \<lparr>
     mt_tracks = map (\<lambda>i. \<lparr> fr_name = ''Track '' @ show_nat (i + 1), fr_muted = False, fr_soloed = False,
                        fr_volume = Num (3 / 4), fr_pan = Num 0 \<rparr>) [0..<DEFAULT_TRACKS],
     mt_scenes = map (\<lambda>i. ''Scene '' @ show_nat (i + 1)) [0..<DEFAULT_SCENES],
     mt_grid = replicate DEFAULT_TRACKS (replicate DEFAULT_SCENES None),
     mt_next_clip_id = 1 \<rparr>"

text \<open>A channel of a template; the crates write the fields out.\<close>

definition plain_track :: "usize \<Rightarrow> string \<Rightarrow> f32 \<Rightarrow> bool \<Rightarrow> FileTrack" where
  "plain_track i name volume is_master = \<lparr> ft_id = i, ft_name = name, ft_volume = volume, ft_pan = Num 0,
     ft_pan_mode = 0, ft_mute = False, ft_solo = False, ft_arm = False, ft_is_master = is_master,
     ft_route_destination_id = 0, ft_sends = [], ft_effects = [], ft_matrix_idx = None \<rparr>"

definition template_live :: "string \<Rightarrow> OpenLiveProject" where
  "template_live created_by =
     (let matrix = default_matrix;
          master = plain_track 0 ''MASTER'' (lit F32 (7 / 10)) True;
          rows = map (\<lambda>(i, meta). (plain_track (word_of_nat (i + 1)) (fr_name meta) (fr_volume meta) False)
                   \<lparr>ft_pan := fr_pan meta, ft_mute := fr_muted meta, ft_solo := fr_soloed meta,
                    ft_matrix_idx := Some (word_of_nat i)\<rparr>) (enumerate 0 (mt_tracks matrix))
      in \<lparr> ol_format_version = FORMAT_VERSION, ol_created_by = created_by,
           ol_metadata = \<lparr> md_title = [], md_artist = None, md_genre = None, md_key = None,
             md_stats = \<lparr> ls_total_scenes = vlen (mt_scenes matrix), ls_total_tracks = vlen (mt_tracks matrix),
               ls_audio_clips = 0, ls_midi_clips = 0 \<rparr> \<rparr>,
           ol_transport = \<lparr> lt_bpm = Num 140, lt_time_signature = (4, 4), lt_launch_quantization = ''1/4'',
             lt_tap_tempo_enabled = False, lt_loop_start_ticks = 0, lt_loop_end_ticks = 0, lt_loop_enabled = False \<rparr>,
           ol_dsp_global = \<lparr> dg_master_volume = lit F32 (7 / 10), dg_master_pan = Num 0, dg_effects_rack = [] \<rparr>,
           ol_live_tracks = master # rows, ol_matrix = matrix,
           ol_ui = \<lparr> ui_view = 0, ui_show_dsp_rack = False, ui_show_explorer = False \<rparr> \<rparr>)"

definition empty_template_live :: "string \<Rightarrow> OpenLiveProject" where
  "empty_template_live created_by =
     (let p = template_live created_by
      in p\<lparr>ol_metadata := (ol_metadata p)\<lparr>md_stats := \<lparr> ls_total_scenes = 0, ls_total_tracks = 0,
              ls_audio_clips = 0, ls_midi_clips = 0 \<rparr>\<rparr>,
           ol_live_tracks := take 1 (ol_live_tracks p),
           ol_matrix := (ol_matrix p)\<lparr>mt_tracks := [], mt_scenes := [], mt_grid := []\<rparr>\<rparr>)"

section \<open>OpenStudio files\<close>

record StudioStats =
  us_total_tracks :: usize
  us_total_clips :: usize
  us_audio_clips :: usize
  us_midi_clips :: usize

record StudioTransport =
  ut_bpm :: f64
  ut_beats_per_bar :: u32
  ut_beat_division :: u32
  ut_loop_start_ticks :: u64
  ut_loop_end_ticks :: u64
  ut_loop_enabled :: bool

record FilePoint =
  fp_rel_tick :: u64
  fp_value :: f32
  fp_tension :: f32

text \<open>\<open>FileAudio sample_path sample_offset_ticks total_sample_ticks\<close>\<close>

datatype ClipKind =
    FilePattern usize
  | FileAudio string u64 u64
  | FileAutomation "FilePoint list" string

record PlaylistClipSaved =
  fx_id :: usize
  fx_name :: string
  fx_start_tick :: u64
  fx_duration_ticks :: u64
  fx_color :: FileColor
  fx_kind :: ClipKind

record FilePlaylist =
  fy_clips :: "(usize \<times> PlaylistClipSaved) list"
  fy_ppqn :: u64
  fy_next_clip_id :: usize
  fy_loop_start_ticks :: u64
  fy_loop_end_ticks :: u64
  fy_loop_region_active :: bool

record OpenStudioProject =
  ou_format_version :: u32
  ou_created_by :: string
  ou_metadata :: "StudioStats Metadata"
  ou_transport :: StudioTransport
  ou_studio_tracks :: "FileTrack list"
  ou_playlist :: FilePlaylist
  ou_ui :: UiState

definition FILE_PPQN :: u64 where "FILE_PPQN = 960"

definition template_studio :: "string \<Rightarrow> OpenStudioProject" where
  "template_studio created_by =
     (let tracks = [plain_track 0 ''MASTER'' (lit F32 (7 / 10)) True, plain_track 1 ''TRACK 01'' (lit F32 (7 / 10)) False]
      in \<lparr> ou_format_version = FORMAT_VERSION, ou_created_by = created_by,
           ou_metadata = \<lparr> md_title = [], md_artist = None, md_genre = None, md_key = None,
             md_stats = \<lparr> us_total_tracks = vlen tracks, us_total_clips = 0, us_audio_clips = 0, us_midi_clips = 0 \<rparr> \<rparr>,
           ou_transport = \<lparr> ut_bpm = Num 140, ut_beats_per_bar = 4, ut_beat_division = 4,
             ut_loop_start_ticks = 0, ut_loop_end_ticks = 0, ut_loop_enabled = False \<rparr>,
           ou_studio_tracks = tracks,
           ou_playlist = \<lparr> fy_clips = [], fy_ppqn = FILE_PPQN, fy_next_clip_id = 1, fy_loop_start_ticks = 0,
             fy_loop_end_ticks = 0, fy_loop_region_active = False \<rparr>,
           ou_ui = \<lparr> ui_view = 0, ui_show_dsp_rack = False, ui_show_explorer = False \<rparr> \<rparr>)"

definition empty_template_studio :: "string \<Rightarrow> OpenStudioProject" where
  "empty_template_studio created_by =
     (let p = template_studio created_by
      in p\<lparr>ou_metadata := (ou_metadata p)\<lparr>md_stats := \<lparr> us_total_tracks = 0, us_total_clips = 0,
              us_audio_clips = 0, us_midi_clips = 0 \<rparr>\<rparr>,
           ou_studio_tracks := take 1 (ou_studio_tracks p)\<rparr>)"

section \<open>Paths\<close>

text \<open>
  A path of a file is a string; the components of a path leave out what \<open>Path\<close> does not compare:
  repeated slashes and single dots.  \<open>cwd\<close> is the working directory.
\<close>

fun split_slash :: "string \<Rightarrow> string list" where
  "split_slash [] = [[]]"
| "split_slash (c # cs) = (if c = CHR ''/'' then [] # split_slash cs
     else case split_slash cs of [] \<Rightarrow> [[c]] | w # ws \<Rightarrow> (c # w) # ws)"

definition components :: "string \<Rightarrow> path" where
  "components s = filter (\<lambda>w. w \<noteq> [] \<and> w \<noteq> ''.'') (split_slash s)"

definition is_absolute :: "string \<Rightarrow> bool" where
  "is_absolute s \<longleftrightarrow> s \<noteq> [] \<and> hd s = CHR ''/''"

definition resolve_path :: "path \<Rightarrow> path option \<Rightarrow> string \<Rightarrow> path" where
  "resolve_path cwd base_dir raw =
     (if is_absolute raw then components raw
      else case base_dir of Some dir \<Rightarrow> dir @ components raw | None \<Rightarrow> cwd @ components raw)"

definition path_parent :: "path \<Rightarrow> path option" where
  "path_parent p = (if p = [] then None else Some (butlast p))"

text \<open>\<open>Path::with_extension\<close>\<close>

definition path_with_extension :: "path \<Rightarrow> string \<Rightarrow> path" where
  "path_with_extension p e =
     (if p = [] \<or> last p = ''..'' then p else butlast p @ [fst (split_name (last p)) @ ''.'' @ e])"

section \<open>Which format a file has\<close>

datatype GuiMode = LiveMode | StudioMode

fun extension_for :: "GuiMode \<Rightarrow> string" where
  "extension_for LiveMode = ''oplf''"
| "extension_for StudioMode = ''opsf''"

definition format_of :: "path \<Rightarrow> GuiMode option" where
  "format_of p = (case extension p of None \<Rightarrow> None
     | Some e \<Rightarrow> if e = ''oplf'' then Some LiveMode else if e = ''opsf'' then Some StudioMode else None)"

definition with_extension :: "path \<Rightarrow> string \<Rightarrow> path" where
  "with_extension p e =
     (if extension p \<noteq> None then p
      else if p = [] then [''.'' @ e] else butlast p @ [last p @ ''.'' @ e])"

definition retarget_extension :: "path \<Rightarrow> GuiMode \<Rightarrow> path" where
  "retarget_extension p mode =
     (if extension p = Some (extension_for mode) then p else path_with_extension p (extension_for mode))"

definition title_from_path :: "path \<Rightarrow> string" where
  "title_from_path p = (case file_stem p of Some s \<Rightarrow> s | None \<Rightarrow> [])"

section \<open>Numbers and paths read back\<close>

lemma digits_value_snoc: "digits_value (ds @ [c]) = 10 * digits_value ds + (of_char c - 48)"
  by (simp add: digits_value_def)

lemma show_nat_digits: "list_all is_digit (show_nat n) \<and> show_nat n \<noteq> [] \<and> digits_value (show_nat n) = n"
proof (induction n rule: show_nat.induct)
  case (1 n)
  show ?case
  proof (cases "n < 10")
    case True
    then show ?thesis by (simp add: is_digit_def digits_value_def)
  next
    case False
    have "of_char (char_of (48 + n mod 10) :: char) = (48 + n mod 10 :: nat)" by simp
    then show ?thesis using 1 False
      by (simp add: show_nat.simps [of n] is_digit_def digits_value_snoc del: show_nat.simps)
  qed
qed

lemma parse_u32_show_nat:
  assumes "n < 2 ^ 32"
  shows "parse_u32 (show_nat n) = Some (word_of_nat n)"
proof -
  obtain c cs where s: "show_nat n = c # cs" using show_nat_digits [of n] by (meson neq_Nil_conv)
  have "is_digit c" using show_nat_digits [of n] unfolding s by simp
  then have "c \<noteq> CHR ''+''" by (auto simp: is_digit_def)
  moreover have "list_all is_digit (c # cs)" "digits_value (c # cs) = n" using show_nat_digits [of n] unfolding s by simp_all
  ultimately show ?thesis using assms unfolding s by (simp add: parse_u32_def Let_def)
qed

lemma strip_one_digits:
  assumes "\<forall>w \<in> set ws. w \<noteq> [] \<and> \<not> is_digit (hd w)" "list_all is_digit s"
  shows "strip_one ws s = s"
proof -
  have "\<not> prefix w s" if w: "w \<in> set ws" for w
  proof
    assume "prefix w s"
    moreover obtain c cs where "w = c # cs" using assms(1) w by (cases w) auto
    ultimately have "c \<in> set s" by (auto simp: prefix_def)
    then show False using assms w \<open>w = c # cs\<close> by (auto simp: list_all_iff)
  qed
  then have "find (\<lambda>w. prefix w s) ws = None" by (simp add: find_None_iff)
  then show ?thesis by (simp add: strip_one_def)
qed

lemma white_space_no_digit:
  "\<forall>w \<in> set white_space. w \<noteq> [] \<and> \<not> is_digit (hd w)"
  "\<forall>w \<in> set (map rev white_space). w \<noteq> [] \<and> \<not> is_digit (hd w)"
  by (simp_all add: white_space_def is_digit_def upt_rec)

lemma trim_digits:
  assumes "list_all is_digit s"
  shows "trim s = s"
proof -
  have fix_point: "(f ^^ n) x = x" if "f x = x" for f :: "string \<Rightarrow> string" and n x
    using that by (induction n) simp_all
  have "trim_start white_space s = s"
    by (simp add: trim_start_def fix_point strip_one_digits [OF white_space_no_digit(1) assms])
  moreover have "list_all is_digit (rev s)" using assms by (simp add: list_all_iff)
  then have "trim_start (map rev white_space) (rev s) = rev s"
    by (simp add: trim_start_def fix_point strip_one_digits [OF white_space_no_digit(2)] del: set_map)
  ultimately show ?thesis by (simp add: trim_def)
qed

lemma digits_no_slash: "list_all is_digit ds \<Longrightarrow> CHR ''/'' \<notin> set ds"
  by (auto simp: list_all_iff is_digit_def)

lemma after_last_slash_one:
  assumes "CHR ''/'' \<notin> set ds"
  shows "after_last_slash (''1/'' @ ds) = ds"
proof -
  have "takeWhile (\<lambda>c. c \<noteq> CHR ''/'') (rev ds @ ''/1'') = rev ds @ takeWhile (\<lambda>c. c \<noteq> CHR ''/'') ''/1''"
    by (rule takeWhile_append2) (use assms in auto)
  then show ?thesis by (simp add: after_last_slash_def)
qed

lemma unat32_less: "unat (n :: u32) < 2 ^ 32"
  using unsigned_less [of n] by simp

lemma quantization_denominator_shown:
  assumes "lt_launch_quantization t = ''1/'' @ show_nat (unat n)"
  shows "quantization_denominator t = max n 1"
proof -
  have digits: "list_all is_digit (show_nat (unat n))" using show_nat_digits by blast
  have "after_last_slash (lt_launch_quantization t) = show_nat (unat n)"
    unfolding assms by (rule after_last_slash_one [OF digits_no_slash [OF digits]])
  moreover have "word_of_nat (unat n) = n" by simp
  then have "parse_u32 (show_nat (unat n)) = Some n"
    using parse_u32_show_nat [OF unat32_less, of n] by metis
  ultimately show ?thesis unfolding quantization_denominator_def trim_digits [OF digits]
    by (simp only: option.case trim_digits [OF digits])
qed

text \<open>A path whose names are names: none is empty, a dot or holds a slash.\<close>

definition path_ok :: "path \<Rightarrow> bool" where
  "path_ok p \<longleftrightarrow> (\<forall>w \<in> set p. w \<noteq> [] \<and> w \<noteq> ''.'' \<and> CHR ''/'' \<notin> set w)"

lemma split_slash_append:
  assumes "CHR ''/'' \<notin> set w" "split_slash r = u # us"
  shows "split_slash (w @ r) = (w @ u) # us"
  using assms by (induction w) auto

lemma split_slash_show_path: "path_ok p \<Longrightarrow> split_slash (show_path p) = [] # p"
proof (induction p)
  case Nil
  then show ?case by (simp add: show_path_def)
next
  case (Cons w p)
  have "split_slash (w @ show_path p) = (w @ []) # p"
    by (rule split_slash_append) (use Cons in \<open>simp_all add: path_ok_def\<close>)
  then show ?case by (simp add: show_path_def)
qed

lemma components_show_path: "path_ok p \<Longrightarrow> components (show_path p) = p"
  by (simp add: components_def split_slash_show_path) (simp add: path_ok_def filter_True)

lemma resolve_show_path: "path_ok p \<Longrightarrow> p \<noteq> [] \<Longrightarrow> resolve_path cwd base (show_path p) = p"
  by (cases p) (simp_all add: resolve_path_def is_absolute_def components_show_path, simp add: show_path_def)

section \<open>The name of a saved file\<close>

lemma split_name_ext:
  assumes "stem \<noteq> []" "CHR ''.'' \<notin> set e" "e \<noteq> []"
  shows "split_name (stem @ CHR ''.'' # e) = (stem, Some e)"
proof -
  have tw: "takeWhile (\<lambda>c. c \<noteq> CHR ''.'') (rev (stem @ CHR ''.'' # e)) = rev e"
  proof -
    have "takeWhile (\<lambda>c. c \<noteq> CHR ''.'') (rev e @ [CHR ''.''] @ rev stem) = rev e"
      using assms(2) by (subst takeWhile_append2) auto
    then show ?thesis by simp
  qed
  have "stem @ CHR ''.'' # e \<noteq> ''..''"
  proof
    assume eq: "stem @ CHR ''.'' # e = ''..''"
    then have "length (stem @ CHR ''.'' # e) = 2" by simp
    then have "length stem + length e = 1" by simp
    then show False using assms by (cases stem; cases e) auto
  qed
  then show ?thesis using assms unfolding split_name_def tw Let_def by simp
qed

lemma fst_split_name: "name \<noteq> [] \<Longrightarrow> fst (split_name name) \<noteq> []"
  by (auto simp: split_name_def Let_def)

lemma extension_retarget:
  assumes "p \<noteq> []" "last p \<noteq> ''..''" "last p \<noteq> []"
  shows "extension (retarget_extension p mode) = Some (extension_for mode)"
proof (cases "extension p = Some (extension_for mode)")
  case True
  then show ?thesis by (simp add: retarget_extension_def)
next
  case False
  have "split_name (fst (split_name (last p)) @ CHR ''.'' # extension_for mode)
      = (fst (split_name (last p)), Some (extension_for mode))"
    by (rule split_name_ext) (use assms fst_split_name in \<open>cases mode; simp\<close>)+
  then show ?thesis using assms False by (simp add: retarget_extension_def path_with_extension_def extension_def)
qed

text \<open>A file saved in a mode is opened in that mode.\<close>

lemma format_of_retarget:
  assumes "p \<noteq> []" "last p \<noteq> ''..''" "last p \<noteq> []"
  shows "format_of (retarget_extension p mode) = Some mode"
  using extension_retarget [OF assms, of mode] by (cases mode) (simp_all add: format_of_def)

lemma with_extension_retarget:
  assumes "p \<noteq> []" "last p \<noteq> ''..''" "last p \<noteq> []"
  shows "with_extension (retarget_extension p mode) e = retarget_extension p mode"
  using extension_retarget [OF assms, of mode] by (simp add: with_extension_def)

lemma retarget_idem:
  assumes "p \<noteq> []" "last p \<noteq> ''..''" "last p \<noteq> []"
  shows "retarget_extension (retarget_extension p mode) mode = retarget_extension p mode"
  using extension_retarget [OF assms, of mode] by (subst retarget_extension_def) simp

text \<open>Two names that differ behind their last dot are one file.\<close>

lemma dotted_names_collide:
  "retarget_extension [''home'', ''set v1.2''] LiveMode = retarget_extension [''home'', ''set v1.3''] LiveMode"
  by code_simp

end
