(* ===== verification/ProjectState.thy ===== *)
theory ProjectState
  imports ProjectFile MatrixEdit PlaylistEdit Transport
begin

text \<open>
  Saving and opening in the interface: gui/src/project/common.rs, openlive.rs, openstudio.rs and
  mod.rs, with the entries of the file menu (views/menu_bar.rs).  \<open>AppState\<close> holds the fields of the state
  (app.rs) that these files read or write.  What comes from outside is gathered in a record: the reader of
  WAV files and of peaks, lower case, the table a new wavetable editor opens with, the working directory,
  the version and serde.  The commands to the engine are a list, in order.
\<close>

section \<open>The state\<close>

datatype OpenLiveView = SessionMatrix | ArrangerView
datatype OpenStudioView = Playlist | ArrangerMixer

record AppState =
  as_mode :: GuiMode
  as_transport :: TransportPosition
  as_global_loop_synced :: "(bool \<times> u64 \<times> u64) option"
  as_show_dsp_rack :: bool
  as_show_explorer :: bool
  as_openlive_view :: OpenLiveView
  as_openstudio_view :: OpenStudioView
  as_playlist :: PlaylistState
  as_matrix :: SessionMatrixState
  as_clipboard :: MatrixClipboard
  as_dragged_sample :: "path option"
  as_live_tracks :: "Track list"
  as_studio_tracks :: "Track list"
  as_fx_tracks :: "Track list"
  as_selected_track_index :: usize
  as_selected_slot_index :: usize
  as_project_path :: "path option"
  as_project_dirty :: bool

definition app_tracks :: "AppState \<Rightarrow> Track list" where
  "app_tracks s = (case as_mode s of LiveMode \<Rightarrow> as_live_tracks s | StudioMode \<Rightarrow> as_studio_tracks s)"

record host =
  ho_wav :: "path \<Rightarrow> WavFile option"
  ho_peaks :: "string \<Rightarrow> usize \<Rightarrow> f32 list"
  ho_sample_info :: "string \<Rightarrow> u64 \<Rightarrow> f64 \<Rightarrow> u64 \<times> f32 list"
  ho_lower :: "string \<Rightarrow> string"
  ho_initial_table :: "string option"
  ho_cwd :: path
  ho_version :: string

section \<open>Channels\<close>

definition capture_slot :: "DspSlot \<Rightarrow> FileSlot" where
  "capture_slot e = \<lparr> fs_id = ds_id e, fs_name = ds_name e, fs_active = ds_active e,
     fs_wavetable_path = ds_wavetable_path e,
     fs_plugin_path = map_option (\<lambda>p. show_path (pd_path p)) (ds_external e),
     fs_plugin_format = map_option (\<lambda>p. case pd_format p of VST3 \<Rightarrow> ''VST3'' | CLAP \<Rightarrow> ''CLAP'') (ds_external e) \<rparr>"

definition capture_track :: "Track \<Rightarrow> FileTrack" where
  "capture_track t = \<lparr> ft_id = tk_id t, ft_name = tk_name t, ft_volume = tk_volume t, ft_pan = tk_pan t,
     ft_pan_mode = (case tk_pan_mode t of Stereo \<Rightarrow> 0 | MidSide \<Rightarrow> 1), ft_mute = tk_mute t, ft_solo = tk_solo t,
     ft_arm = tk_arm t, ft_is_master = tk_is_master t, ft_route_destination_id = tk_route_destination_id t,
     ft_sends = map (\<lambda>s. \<lparr> fn_target_id = sn_target_id s, fn_amount = sn_amount s \<rparr>) (tk_sends t),
     ft_effects = map capture_slot (tk_effects t), ft_matrix_idx = tk_matrix_idx t \<rparr>"

definition file_descriptor :: "host \<Rightarrow> FileSlot \<Rightarrow> string \<Rightarrow> PluginDescriptor" where
  "file_descriptor h e p =
     (let format = (if fs_plugin_format e = Some ''CLAP'' then CLAP else VST3)
      in \<lparr> pd_id = ho_lower h ((case format of VST3 \<Rightarrow> ''VST3'' | CLAP \<Rightarrow> ''CLAP'') @ '':'' @ p),
           pd_name = fs_name e, pd_vendor = [], pd_path = resolve_path (ho_cwd h) None p, pd_format = format,
           pd_kind = Effect, pd_has_gui = False, pd_input_channels = None \<rparr>)"

definition build_slot :: "host \<Rightarrow> FileSlot \<Rightarrow> DspSlot" where
  "build_slot h e = (dsp_slot_new (ho_initial_table h) (fs_id e) (fs_name e))
     \<lparr>ds_active := fs_active e,
      ds_external := (case fs_plugin_path e of
         Some p \<Rightarrow> if p \<noteq> [] then Some (file_descriptor h e p) else None
       | None \<Rightarrow> None)\<rparr>"

definition build_track :: "host \<Rightarrow> FileTrack \<Rightarrow> Track" where
  "build_track h t = (track_new (ft_id t) (ft_name t) (ft_is_master t))
     \<lparr>tk_volume := ft_volume t, tk_pan := ft_pan t,
      tk_pan_mode := (if ft_pan_mode t = 1 then MidSide else Stereo), tk_mute := ft_mute t, tk_solo := ft_solo t,
      tk_arm := ft_arm t, tk_route_destination_id := ft_route_destination_id t, tk_matrix_idx := ft_matrix_idx t,
      tk_sends := map (\<lambda>s. \<lparr> sn_target_id = fn_target_id s, sn_amount = fn_amount s \<rparr>) (ft_sends t),
      tk_effects := map (build_slot h) (ft_effects t)\<rparr>"

definition default_live_tracks :: "FileTrack list" where
  "default_live_tracks = [plain_track 0 ''MASTER'' (lit F32 (7 / 10)) True]"

definition default_studio_tracks :: "FileTrack list" where
  "default_studio_tracks = [plain_track 0 ''MASTER'' (lit F32 (7 / 10)) True,
     plain_track 1 ''TRACK 01'' (lit F32 (7 / 10)) False]"

definition tracks_or_default :: "host \<Rightarrow> FileTrack list \<Rightarrow> FileTrack list \<Rightarrow> Track list" where
  "tracks_or_default h saved fallback =
     (let out = map (build_track h) saved in if out = [] then map (build_track h) fallback else out)"

definition push_track_mix_to_engine :: "AppState \<Rightarrow> GuiCommand list" where
  "push_track_mix_to_engine s = concat (map (\<lambda>(i, t). let row = word_of_nat i in
       [SetTrackVolume row (tk_volume t), SetTrackPan row (tk_pan t), SetTrackMute row (tk_mute t),
        SetTrackSolo row (tk_solo t)]) (enumerate 0 (app_tracks s)))"

definition color_to_gpui :: "FileColor \<Rightarrow> Hsla" where
  "color_to_gpui c = (fl_h c, fl_s c, fl_l c, fl_a c)"

fun color_from_gpui :: "Hsla \<Rightarrow> FileColor" where
  "color_from_gpui (h, s, l, a) = \<lparr> fl_h = h, fl_s = s, fl_l = l, fl_a = a \<rparr>"

section \<open>The session: state to file\<close>

definition capture_event :: "AudioEvent \<Rightarrow> FileEvent option" where
  "capture_event e = map_option (\<lambda>p. \<lparr> fe_id = av_id e, fe_name = av_name e, fe_source_path = show_path p,
     fe_start_secs = av_start_secs e, fe_trim_left_frames = av_trim_left_frames e,
     fe_visible_frames = av_visible_frames e, fe_gain = av_gain e, fe_fade_in_secs = av_fade_in_secs e,
     fe_fade_out_secs = av_fade_out_secs e \<rparr>) (av_source_path e)"

definition capture_clip :: "MatrixClip \<Rightarrow> FileClip" where
  "capture_clip c =
     (let (events, notes) = (case xc_content c of
            Audio events _ _ _ \<Rightarrow> (List.map_filter capture_event events, [])
          | Midi notes \<Rightarrow> ([], map (\<lambda>(start, note, vel, dur). \<lparr> fo_start_tick = start, fo_note = note,
                              fo_velocity = vel, fo_duration_ticks = dur \<rparr>) notes))
      in \<lparr> fc_id = xc_id c, fc_name = xc_name c, fc_path = show_path (xc_path c), fc_loop_start = xc_loop_start c,
           fc_loop_end = xc_loop_end c, fc_loop_enabled = xc_loop_enabled c, fc_volume = tk_volume (xc_local_track c),
           fc_pan = tk_pan (xc_local_track c), fc_mute = tk_mute (xc_local_track c), fc_events = events,
           fc_midi_notes = notes \<rparr>)"

definition capture_row :: "TrackMeta \<Rightarrow> FileRow" where
  "capture_row t = \<lparr> fr_name = tm_name t, fr_muted = tm_muted t, fr_soloed = tm_soloed t, fr_volume = tm_volume t,
     fr_pan = tm_pan t \<rparr>"

definition capture_matrix :: "SessionMatrixState \<Rightarrow> FileMatrix" where
  "capture_matrix m = \<lparr> mt_tracks = map capture_row (sm_tracks m), mt_scenes = sm_scenes m,
     mt_grid = map (map (\<lambda>slot. map_option capture_clip (sl_clip slot))) (sm_grid m),
     mt_next_clip_id = sm_next_clip_id m \<rparr>"

definition live_metadata :: "FileMatrix \<Rightarrow> LiveStats Metadata" where
  "live_metadata m =
     (let clips = List.map_filter id (concat (mt_grid m));
          midi = filter (\<lambda>c. fc_midi_notes c \<noteq> []) clips
      in \<lparr> md_title = [], md_artist = None, md_genre = None, md_key = None,
           md_stats = \<lparr> ls_total_scenes = vlen (mt_scenes m), ls_total_tracks = vlen (mt_tracks m),
             ls_audio_clips = vlen clips - vlen midi, ls_midi_clips = vlen midi \<rparr> \<rparr>)"

definition capture_dsp_global :: "FileTrack list \<Rightarrow> DspGlobal" where
  "capture_dsp_global tracks = (case find ft_is_master tracks of
       Some m \<Rightarrow> \<lparr> dg_master_volume = ft_volume m, dg_master_pan = ft_pan m, dg_effects_rack = ft_effects m \<rparr>
     | None \<Rightarrow> \<lparr> dg_master_volume = Num 0, dg_master_pan = Num 0, dg_effects_rack = [] \<rparr>)"

definition capture_live :: "host \<Rightarrow> AppState \<Rightarrow> OpenLiveProject" where
  "capture_live h s =
     (let live_tracks = map capture_track (as_live_tracks s);
          matrix = capture_matrix (as_matrix s);
          t = as_transport s
      in \<lparr> ol_format_version = FORMAT_VERSION, ol_created_by = ''Hikaru OpenLive '' @ ho_version h,
           ol_metadata = live_metadata matrix,
           ol_transport = \<lparr> lt_bpm = tp_bpm t, lt_time_signature = (tp_beats_per_bar t, 4),
             lt_launch_quantization = ''1/'' @ show_nat (unat (tp_beat_division t)), lt_tap_tempo_enabled = False,
             lt_loop_start_ticks = samples_to_ticks t (tp_loop_start_samples t),
             lt_loop_end_ticks = samples_to_ticks t (tp_loop_end_samples t), lt_loop_enabled = tp_loop_enabled t \<rparr>,
           ol_dsp_global = capture_dsp_global live_tracks, ol_live_tracks = live_tracks, ol_matrix = matrix,
           ol_ui = \<lparr> ui_view = (case as_openlive_view s of SessionMatrix \<Rightarrow> 0 | ArrangerView \<Rightarrow> 1),
             ui_show_dsp_rack = as_show_dsp_rack s, ui_show_explorer = as_show_explorer s \<rparr> \<rparr>)"

section \<open>The session: file to state\<close>

definition next_event_id :: "FileEvent list \<Rightarrow> u64" where
  "next_event_id events = (case map (\<lambda>e. fe_id e + 1) events of [] \<Rightarrow> 1 | i # is \<Rightarrow> fold max is i)"

definition build_event :: "host \<Rightarrow> path option \<Rightarrow> FileEvent \<Rightarrow> AudioEvent option" where
  "build_event h base e =
     (let p = resolve_path (ho_cwd h) base (fe_source_path e)
      in map_option (\<lambda>(samples, channels, sr).
           (new_full (fe_id e) (fe_name e) samples channels sr (fe_start_secs e))
             \<lparr>av_source_path := Some p, av_trim_left_frames := fe_trim_left_frames e,
              av_visible_frames := fe_visible_frames e, av_gain := fe_gain e, av_fade_in_secs := fe_fade_in_secs e,
              av_fade_out_secs := fe_fade_out_secs e\<rparr>) (decode_audio_file (ho_wav h p)))"

text \<open>A pad without events gets its base sample as one.\<close>

definition base_event :: "host \<Rightarrow> MatrixClip \<Rightarrow> MatrixClip" where
  "base_event h clip =
     (if audio_events clip \<noteq> [] then clip
      else case decode_audio_file (ho_wav h (xc_path clip)) of
             None \<Rightarrow> clip
           | Some (samples, channels, sr) \<Rightarrow>
               let (i, clip) = alloc_event_id clip;
                   ev = (new_full i (stem_name (xc_path clip)) samples channels sr (Num 0))
                          \<lparr>av_source_path := Some (xc_path clip)\<rparr>
               in set_audio_events (audio_events clip @ [ev]) clip)"

definition build_clip :: "host \<Rightarrow> path option \<Rightarrow> FileClip \<Rightarrow> MatrixClip" where
  "build_clip h base saved =
     (let p = resolve_path (ho_cwd h) base (fc_path saved);
          content = (if fc_midi_notes saved \<noteq> [] \<or> is_midi_file (ho_lower h) p
             then Midi (map (\<lambda>n. (fo_start_tick n, fo_note n, fo_velocity n, fo_duration_ticks n)) (fc_midi_notes saved))
             else Audio [] (next_event_id (fc_events saved)) [] 44100);
          clip = \<lparr> xc_id = fc_id saved, xc_name = fc_name saved, xc_path = p, xc_duration_secs = Num 0,
             xc_content = content, xc_local_state = playlist_default,
             xc_local_track = (track_new 0 (fc_name saved) False)\<lparr>tk_volume := fc_volume saved, tk_pan := fc_pan saved,
               tk_mute := fc_mute saved\<rparr>,
             xc_local_bar = Num 1, xc_loop_start = fc_loop_start saved, xc_loop_end = fc_loop_end saved,
             xc_loop_enabled = fc_loop_enabled saved, xc_has_time_selection = True, xc_peaks = [] \<rparr>;
          clip = set_audio_events (List.map_filter (build_event h base) (fc_events saved)) clip;
          clip = refresh_preview (base_event h clip)
      in clip\<lparr>xc_peaks := ho_peaks h (show_path p) PEAK_BINS\<rparr>)"

text \<open>What a pad sends when it is opened: the clip first, then its events or notes, then its loop.\<close>

definition pad_commands :: "u64 \<Rightarrow> f64 \<Rightarrow> usize \<Rightarrow> usize \<Rightarrow> MatrixClip \<Rightarrow> GuiCommand list" where
  "pad_commands ppqn bpm t sc clip =
     (case xc_content clip of
        Audio events _ _ _ \<Rightarrow> LoadClip (xc_id clip) (show_path (xc_path clip)) (Num 0) (Num 0) (Num 0) t sc
          # (if events \<noteq> [] then sync_audio_events_to_engine clip t sc else [])
      | Midi notes \<Rightarrow> [UpdateMidiClipNotes t sc notes])
     @ [SetClipLoop t sc (ticks_to_secs_precise (xc_loop_start clip) ppqn bpm)
          (ticks_to_secs_precise (xc_loop_end clip) ppqn bpm) (xc_loop_enabled clip)]"

definition grid_commands :: "u64 \<Rightarrow> f64 \<Rightarrow> MatrixSlot list list \<Rightarrow> GuiCommand list" where
  "grid_commands ppqn bpm grid = concat (map (\<lambda>(t, row). concat (map (\<lambda>(sc, slot).
       case sl_clip slot of None \<Rightarrow> [] | Some clip \<Rightarrow> pad_commands ppqn bpm (word_of_nat t) (word_of_nat sc) clip)
     (enumerate 0 row))) (enumerate 0 grid))"

definition build_pad :: "host \<Rightarrow> path option \<Rightarrow> FileClip option \<Rightarrow> MatrixSlot" where
  "build_pad h base slot = \<lparr> sl_state = (case slot of Some _ \<Rightarrow> SlotStopped | None \<Rightarrow> SlotEmpty),
     sl_clip = map_option (build_clip h base) slot \<rparr>"

definition build_meta :: "FileRow \<Rightarrow> TrackMeta" where
  "build_meta t = \<lparr> tm_name = fr_name t, tm_muted = fr_muted t, tm_soloed = fr_soloed t, tm_volume = fr_volume t,
     tm_pan = fr_pan t \<rparr>"

text \<open>
  The grid of the template when the file has no rows or no scenes; the rows behind the tracks go, and the
  first row loses what is behind the scenes.
\<close>

definition opened_grid :: "host \<Rightarrow> path option \<Rightarrow> FileMatrix \<Rightarrow> MatrixSlot list list" where
  "opened_grid h base saved =
     (let grid = (if mt_tracks saved \<noteq> [] \<and> mt_scenes saved \<noteq> []
                  then map (map (build_pad h base)) (mt_grid saved)
                  else replicate DEFAULT_TRACKS (replicate DEFAULT_SCENES slot_default));
          grid = take (length (mt_tracks saved)) grid
      in case grid of [] \<Rightarrow> [] | first # rest \<Rightarrow> take (length (mt_scenes saved)) first # rest)"

definition apply_matrix :: "host \<Rightarrow> FileMatrix \<Rightarrow> path option \<Rightarrow> AppState \<Rightarrow> AppState \<times> GuiCommand list" where
  "apply_matrix h saved base s =
     (let blank = session_default (map build_meta (mt_tracks default_matrix)) (mt_scenes default_matrix);
          next = blank\<lparr>sm_next_clip_id := max (mt_next_clip_id saved) 1, sm_tracks := map build_meta (mt_tracks saved),
             sm_scenes := mt_scenes saved, sm_grid := opened_grid h base saved\<rparr>
      in (s\<lparr>as_matrix := next, as_clipboard := clipboard_new\<rparr>,
          grid_commands Transport.DEFAULT_PPQN (tp_bpm (as_transport s)) (sm_grid next)))"

definition BPM_MIN :: f64 where "BPM_MIN = Num 40"
definition BPM_MAX :: f64 where "BPM_MAX = Num 300"

definition on_transport :: "(TransportPosition \<Rightarrow> TransportPosition) \<Rightarrow> AppState \<Rightarrow> AppState" where
  "on_transport f s = s\<lparr>as_transport := f (as_transport s)\<rparr>"

definition clamp_selected_track :: "AppState \<Rightarrow> AppState" where
  "clamp_selected_track s = s\<lparr>as_selected_track_index :=
     min (as_selected_track_index s) (sat_sub (vlen (app_tracks s)) 1)\<rparr>"

text \<open>The loop of the file, in samples of the running tempo; the last step of both formats.\<close>

definition apply_loop :: "u64 \<Rightarrow> u64 \<Rightarrow> bool \<Rightarrow> AppState \<Rightarrow> AppState \<times> GuiCommand list" where
  "apply_loop start_ticks end_ticks enabled s =
     (let a = ticks_to_samples (as_transport s) start_ticks;
          b = ticks_to_samples (as_transport s) end_ticks
      in ((on_transport (\<lambda>t. t\<lparr>tp_loop_enabled := enabled, tp_loop_start_samples := a, tp_loop_end_samples := b\<rparr>) s)
            \<lparr>as_global_loop_synced := None\<rparr>,
          [SetGlobalLoop a b enabled]))"

definition apply_live :: "host \<Rightarrow> OpenLiveProject \<Rightarrow> path option \<Rightarrow> AppState \<Rightarrow> AppState \<times> GuiCommand list" where
  "apply_live h p base s =
     (let t = ol_transport p;
          bpm = fclamp (lt_bpm t) BPM_MIN BPM_MAX;
          s = on_transport (\<lambda>tp. tp\<lparr>tp_bpm := bpm, tp_beats_per_bar := max (fst (lt_time_signature t)) 1,
                tp_beat_division := quantization_denominator t\<rparr>) s;
          live = map_first tk_is_master (\<lambda>m. m\<lparr>tk_volume := dg_master_volume (ol_dsp_global p),
                   tk_pan := dg_master_pan (ol_dsp_global p)\<rparr>) (tracks_or_default h (ol_live_tracks p) default_live_tracks);
          s = clamp_selected_track (s\<lparr>as_live_tracks := live\<rparr>);
          (s, pads) = apply_matrix h (ol_matrix p) base s;
          (live, metas, mix) = sync_matrix_mixer_bidirectional (as_live_tracks s) (sm_tracks (as_matrix s)) [] [];
          s = s\<lparr>as_live_tracks := live, as_matrix := (as_matrix s)\<lparr>sm_tracks := metas\<rparr>\<rparr>;
          push = push_track_mix_to_engine s;
          s = s\<lparr>as_mode := LiveMode,
                as_openlive_view := (if ui_view (ol_ui p) = 1 then ArrangerView else SessionMatrix),
                as_show_dsp_rack := ui_show_dsp_rack (ol_ui p), as_show_explorer := ui_show_explorer (ol_ui p)\<rparr>;
          (s, loop) = apply_loop (lt_loop_start_ticks t) (lt_loop_end_ticks t) (lt_loop_enabled t) s
      in (s, SetBpm (to_f32 bpm) # pads @ mix @ push @ loop))"

section \<open>The timeline\<close>

definition capture_playlist_clip :: "PlaylistClip \<Rightarrow> PlaylistClipSaved" where
  "capture_playlist_clip c = \<lparr> fx_id = pc_id c, fx_name = pc_name c, fx_start_tick = pc_start_tick c,
     fx_duration_ticks = pc_duration_ticks c, fx_color = color_from_gpui (pc_color c),
     fx_kind = (case pc_clip_type c of
        Pattern i \<Rightarrow> FilePattern i
      | AudioClip p _ offset total_ticks \<Rightarrow> FileAudio p offset total_ticks
      | Automation points target \<Rightarrow> FileAutomation (map (\<lambda>q. \<lparr> fp_rel_tick = cp_rel_tick q, fp_value = cp_value q,
            fp_tension = cp_tension q \<rparr>) points) target) \<rparr>"

definition capture_playlist :: "PlaylistState \<Rightarrow> FilePlaylist" where
  "capture_playlist s = \<lparr> fy_clips = map (\<lambda>(t, c). (t, capture_playlist_clip c)) (pl_clips s), fy_ppqn = pl_ppqn s,
     fy_next_clip_id = pl_next_clip_id s, fy_loop_start_ticks = pl_loop_start_ticks s,
     fy_loop_end_ticks = pl_loop_end_ticks s, fy_loop_region_active = pl_loop_region_active s \<rparr>"

fun is_audio_kind :: "ClipKind \<Rightarrow> bool" where
  "is_audio_kind (FileAudio _ _ _) = True"
| "is_audio_kind _ = False"

definition studio_metadata :: "FileTrack list \<Rightarrow> FilePlaylist \<Rightarrow> StudioStats Metadata" where
  "studio_metadata tracks p = \<lparr> md_title = [], md_artist = None, md_genre = None, md_key = None,
     md_stats = \<lparr> us_total_tracks = vlen tracks, us_total_clips = vlen (fy_clips p),
       us_audio_clips = vlen (filter (\<lambda>(t, c). is_audio_kind (fx_kind c)) (fy_clips p)),
       us_midi_clips = vlen (filter (\<lambda>(t, c). \<not> is_audio_kind (fx_kind c)) (fy_clips p)) \<rparr> \<rparr>"

definition capture_studio :: "host \<Rightarrow> AppState \<Rightarrow> OpenStudioProject" where
  "capture_studio h s =
     (let tracks = map capture_track (as_studio_tracks s);
          playlist = capture_playlist (as_playlist s);
          t = as_transport s
      in \<lparr> ou_format_version = FORMAT_VERSION, ou_created_by = ''Hikaru OpenStudio '' @ ho_version h,
           ou_metadata = studio_metadata tracks playlist,
           ou_transport = \<lparr> ut_bpm = tp_bpm t, ut_beats_per_bar = tp_beats_per_bar t,
             ut_beat_division = tp_beat_division t,
             ut_loop_start_ticks = samples_to_ticks t (tp_loop_start_samples t),
             ut_loop_end_ticks = samples_to_ticks t (tp_loop_end_samples t), ut_loop_enabled = tp_loop_enabled t \<rparr>,
           ou_studio_tracks = tracks, ou_playlist = playlist,
           ou_ui = \<lparr> ui_view = (case as_openstudio_view s of Playlist \<Rightarrow> 0 | ArrangerMixer \<Rightarrow> 1),
             ui_show_dsp_rack = as_show_dsp_rack s, ui_show_explorer = as_show_explorer s \<rparr> \<rparr>)"

definition build_playlist_clip :: "host \<Rightarrow> path option \<Rightarrow> u64 \<Rightarrow> f64 \<Rightarrow> PlaylistClipSaved \<Rightarrow> PlaylistClip" where
  "build_playlist_clip h base ppqn bpm saved =
     \<lparr> pc_id = fx_id saved, pc_name = fx_name saved, pc_start_tick = fx_start_tick saved,
       pc_duration_ticks = max (fx_duration_ticks saved) 1,
       pc_clip_type = (case fx_kind saved of
          FilePattern i \<Rightarrow> Pattern i
        | FileAudio raw offset total_ticks \<Rightarrow>
            let p = show_path (resolve_path (ho_cwd h) base raw);
                (file_ticks, peaks) = ho_sample_info h p ppqn bpm;
                duration = (if 0 < file_ticks then fx_duration_ticks saved else max file_ticks 1)
            in AudioClip p peaks offset (if 0 < total_ticks then total_ticks else duration)
        | FileAutomation points target \<Rightarrow> Automation (map (\<lambda>q. \<lparr> cp_rel_tick = fp_rel_tick q, cp_value = fp_value q,
              cp_tension = fp_tension q \<rparr>) points) target),
       pc_color = color_to_gpui (fx_color saved) \<rparr>"

definition apply_playlist :: "host \<Rightarrow> FilePlaylist \<Rightarrow> path option \<Rightarrow> AppState \<Rightarrow> AppState" where
  "apply_playlist h saved base s =
     (let ppqn = max (fy_ppqn saved) 1;
          clips = map (\<lambda>(t, c). (t, build_playlist_clip h base ppqn (tp_bpm (as_transport s)) c))
                    (filter (\<lambda>(t, c). t < vlen (app_tracks s)) (fy_clips saved));
          next = playlist_default\<lparr>pl_ppqn := ppqn, pl_next_clip_id := max (fy_next_clip_id saved) 1,
             pl_loop_start_ticks := fy_loop_start_ticks saved, pl_loop_end_ticks := fy_loop_end_ticks saved,
             pl_loop_region_active := fy_loop_region_active saved, pl_clips := clips, pl_needs_full_sync := clips \<noteq> []\<rparr>
      in s\<lparr>as_playlist := next, as_dragged_sample := None\<rparr>)"

definition apply_studio :: "host \<Rightarrow> OpenStudioProject \<Rightarrow> path option \<Rightarrow> AppState \<Rightarrow> AppState \<times> GuiCommand list" where
  "apply_studio h p base s =
     (let t = ou_transport p;
          bpm = fclamp (ut_bpm t) BPM_MIN BPM_MAX;
          s = on_transport (\<lambda>tp. tp\<lparr>tp_bpm := bpm, tp_beats_per_bar := max (ut_beats_per_bar t) 1,
                tp_beat_division := max (ut_beat_division t) 1\<rparr>) s;
          s = clamp_selected_track (s\<lparr>as_studio_tracks := tracks_or_default h (ou_studio_tracks p) default_studio_tracks\<rparr>);
          s = apply_playlist h (ou_playlist p) base s;
          push = push_track_mix_to_engine s;
          s = s\<lparr>as_mode := StudioMode,
                as_openstudio_view := (if ui_view (ou_ui p) = 1 then ArrangerMixer else Playlist),
                as_show_dsp_rack := ui_show_dsp_rack (ou_ui p), as_show_explorer := ui_show_explorer (ou_ui p)\<rparr>;
          (s, loop) = apply_loop (ut_loop_start_ticks t) (ut_loop_end_ticks t) (ut_loop_enabled t) s
      in (s, SetBpm (to_f32 bpm) # push @ loop))"

section \<open>Files\<close>

text \<open>serde, for both formats, and the file system's permission to write.\<close>

record codec =
  co_print_live :: "OpenLiveProject \<Rightarrow> string option"
  co_print_studio :: "OpenStudioProject \<Rightarrow> string option"
  co_probe :: "string \<Rightarrow> u32 option option"
  co_body_live :: "string \<Rightarrow> OpenLiveProject option"
  co_body_studio :: "string \<Rightarrow> OpenStudioProject option"
  co_can_write :: "path \<Rightarrow> bool"

definition save_live :: "host \<Rightarrow> codec \<Rightarrow> AppState \<Rightarrow> path \<Rightarrow> disk \<Rightarrow> (ProjectError + path) \<times> disk" where
  "save_live h co s p d =
     (let p = with_extension p ''oplf''; project = capture_live h s;
          project = project\<lparr>ol_metadata := (ol_metadata project)\<lparr>md_title := title_from_path p\<rparr>\<rparr>
      in write_json (co_print_live co) (co_can_write co) p project d)"

definition save_studio :: "host \<Rightarrow> codec \<Rightarrow> AppState \<Rightarrow> path \<Rightarrow> disk \<Rightarrow> (ProjectError + path) \<times> disk" where
  "save_studio h co s p d =
     (let p = with_extension p ''opsf''; project = capture_studio h s;
          project = project\<lparr>ou_metadata := (ou_metadata project)\<lparr>md_title := title_from_path p\<rparr>\<rparr>
      in write_json (co_print_studio co) (co_can_write co) p project d)"

definition save_as :: "host \<Rightarrow> codec \<Rightarrow> AppState \<Rightarrow> GuiMode \<Rightarrow> path \<Rightarrow> disk \<Rightarrow> (ProjectError + path) \<times> disk" where
  "save_as h co s mode p d =
     (let p = retarget_extension p mode
      in case mode of LiveMode \<Rightarrow> save_live h co s p d | StudioMode \<Rightarrow> save_studio h co s p d)"

definition save :: "host \<Rightarrow> codec \<Rightarrow> AppState \<Rightarrow> path \<Rightarrow> disk \<Rightarrow> (ProjectError + path) \<times> disk" where
  "save h co s p d =
     (let p = retarget_extension p (as_mode s)
      in case as_mode s of LiveMode \<Rightarrow> save_live h co s p d | StudioMode \<Rightarrow> save_studio h co s p d)"

definition load :: "host \<Rightarrow> codec \<Rightarrow> path \<Rightarrow> disk \<Rightarrow> AppState \<Rightarrow> ProjectError + (AppState \<times> GuiCommand list)" where
  "load h co p d s =
     (let base = path_parent p
      in case format_of p of
           Some LiveMode \<Rightarrow> (case parse_with_probe (co_probe co) (co_body_live co) p d of
               Inl e \<Rightarrow> Inl e | Inr project \<Rightarrow> Inr (apply_live h project base s))
         | Some StudioMode \<Rightarrow> (case parse_with_probe (co_probe co) (co_body_studio co) p d of
               Inl e \<Rightarrow> Inl e | Inr project \<Rightarrow> Inr (apply_studio h project base s))
         | None \<Rightarrow> Inl (NotAProject p))"

definition blank_live :: "host \<Rightarrow> OpenLiveProject" where
  "blank_live h = template_live (''Hikaru OpenLive '' @ ho_version h)"

definition blank_studio :: "host \<Rightarrow> OpenStudioProject" where
  "blank_studio h = template_studio (''Hikaru OpenStudio '' @ ho_version h)"

definition project_reset :: "host \<Rightarrow> AppState \<Rightarrow> AppState \<times> GuiCommand list" where
  "project_reset h s =
     (let s = on_transport (\<lambda>t. t\<lparr>tp_sample_count := 0, tp_playback_state := Stopped\<rparr>) s;
          (s, cmds) = (case as_mode s of
             LiveMode \<Rightarrow> apply_live h (blank_live h) None s
           | StudioMode \<Rightarrow> apply_studio h (blank_studio h) None s)
      in (s\<lparr>as_playlist := (as_playlist s)\<lparr>pl_needs_full_sync := False\<rparr>, as_selected_track_index := 1,
            as_selected_slot_index := 0\<rparr>, cmds))"

text \<open>The entries of the file menu; \<open>asked\<close> is what a dialog answered.\<close>

definition new_project :: "host \<Rightarrow> bool \<Rightarrow> AppState \<Rightarrow> AppState \<times> GuiCommand list" where
  "new_project h confirmed s =
     (if as_project_dirty s \<and> \<not> confirmed then (s, [])
      else let (s, cmds) = project_reset h s in (s\<lparr>as_project_path := None, as_project_dirty := False\<rparr>, cmds))"

definition open_project :: "host \<Rightarrow> codec \<Rightarrow> path option \<Rightarrow> disk \<Rightarrow> AppState \<Rightarrow> AppState \<times> GuiCommand list" where
  "open_project h co asked d s =
     (case asked of
        None \<Rightarrow> (s, [])
      | Some p \<Rightarrow> (case load h co p d s of
            Inl _ \<Rightarrow> (s, [])
          | Inr (s, cmds) \<Rightarrow> (s\<lparr>as_project_path := Some p, as_project_dirty := False\<rparr>, cmds)))"

definition save_project :: "host \<Rightarrow> codec \<Rightarrow> bool \<Rightarrow> path option \<Rightarrow> AppState \<Rightarrow> disk \<Rightarrow> AppState \<times> disk" where
  "save_project h co force_dialog asked s d =
     (let target = (case as_project_path s of Some p \<Rightarrow> if force_dialog then asked else Some p | None \<Rightarrow> asked)
      in case target of
           None \<Rightarrow> (s, d)
         | Some p \<Rightarrow> (case save h co s p d of
               (Inl _, d) \<Rightarrow> (s, d)
             | (Inr saved, d) \<Rightarrow> (s\<lparr>as_project_path := Some saved, as_project_dirty := False\<rparr>, d)))"

end
