(* ===== verification/PluginWindows.thy ===== *)
theory PluginWindows
  imports PluginScan TapRegistry Ieee
begin

text \<open>
  The panel of external plugins (gui/src/views/external_plugins_settings.rs): the scan that runs in a
  thread and reports through a channel, the native windows, each with a thread of its own that receives
  commands and reports its end and the parameters the user moves in it, and the two channels back.  A
  window is known by the NAME of its plugin.  \<open>panel_step\<close> interleaves the main thread, the scanning thread
  and the threads of the windows; what a window does on the screen is foreign, so it may end at any time.
\<close>

section \<open>State\<close>

datatype ScanMessage = Progress string | Found PluginDescriptor | Finished nat "string list"

datatype PluginWindowCommand = SetWindowParam u32 f32 | RaiseWindow | CloseWindow

datatype FeedbackOrigin = FromEditor | FromHost

record ParamFeedbackEvent =
  fb_descriptor_id :: string
  fb_changes :: "(u32 \<times> f32) list"
  fb_origin :: FeedbackOrigin

text \<open>A window's thread, with the channel of its commands.\<close>

record PluginWindow =
  wi_name :: string
  wi_descriptor_id :: string
  wi_tap_key :: TapKey
  wi_commands :: "PluginWindowCommand list"
  wi_alive :: bool

text \<open>
  The join handles and the senders are numbers of windows.  \<open>pw_scanned\<close> holds the paths the last
  scanning thread took with it, \<open>pw_unsent\<close> the messages it has still to send.
\<close>

record PluginSettings =
  pw_is_open :: bool
  pw_custom_paths :: "path list"
  pw_status :: string
  pw_is_scanning :: bool
  pw_discovered :: "PluginDescriptor list"
  pw_scan_errors :: "string list"
  pw_scan_queue :: "ScanMessage list"
  pw_scanned :: "path list option"
  pw_unsent :: "ScanMessage list"
  pw_open :: "string \<rightharpoonup> nat"
  pw_close_queue :: "(string \<times> string option) list"
  pw_gui_errors :: "string \<rightharpoonup> string"
  pw_opening :: "string set"
  pw_cmd_tx :: "string \<rightharpoonup> nat"
  pw_param_queue :: "ParamFeedbackEvent list"
  pw_pending_feedback :: "ParamFeedbackEvent list"
  pw_windows :: "PluginWindow list"

definition panel_default :: "path list \<Rightarrow> PluginSettings" where
  "panel_default standard = \<lparr> pw_is_open = False, pw_custom_paths = standard, pw_status = ''Listo para escanear.'',
     pw_is_scanning = False, pw_discovered = [], pw_scan_errors = [], pw_scan_queue = [], pw_scanned = None,
     pw_unsent = [], pw_open = (\<lambda>_. None), pw_close_queue = [], pw_gui_errors = (\<lambda>_. None), pw_opening = {},
     pw_cmd_tx = (\<lambda>_. None), pw_param_queue = [], pw_pending_feedback = [], pw_windows = [] \<rparr>"

section \<open>The scan\<close>

text \<open>What the scanning thread sends: \<open>report\<close> is the result of \<open>scan_paths\<close>, \<open>shown\<close> prints an error.\<close>

definition scan_messages :: "(PluginScanError \<Rightarrow> string) \<Rightarrow> ScanReport \<Rightarrow> ScanMessage list" where
  "scan_messages shown report =
     map Found (sr_plugins report) @ [Finished (length (sr_plugins report)) (map shown (take 20 (sr_errors report)))]"

definition start_scan ::
    "(PluginScanError \<Rightarrow> string) \<Rightarrow> (path list \<Rightarrow> ScanReport) \<Rightarrow> PluginSettings \<Rightarrow> PluginSettings" where
  "start_scan shown scan s =
     (if pw_is_scanning s then s
      else s\<lparr>pw_is_scanning := True, pw_discovered := [], pw_scan_errors := [],
             pw_status := ''Iniciando escaneo de plugins...'',
             pw_scanned := Some (pw_custom_paths s),
             pw_unsent := scan_messages shown (scan (pw_custom_paths s))\<rparr>)"

fun receive_scan :: "ScanMessage \<Rightarrow> PluginSettings \<Rightarrow> PluginSettings" where
  "receive_scan (Progress file) s = s\<lparr>pw_status := ''Escaneando: '' @ file\<rparr>"
| "receive_scan (Found p) s =
     (if pd_id p \<in> pd_id ` set (pw_discovered s) then s else s\<lparr>pw_discovered := pw_discovered s @ [p]\<rparr>)"
| "receive_scan (Finished found errors) s = s\<lparr>pw_is_scanning := False, pw_scan_errors := errors,
     pw_status := (if found = 0 then ''Escaneo finalizado. No se encontraron plugins.''
                   else ''Escaneo finalizado. '' @ show_nat found @ '' plugins listos.'')\<rparr>"

definition receive_close :: "string \<times> string option \<Rightarrow> PluginSettings \<Rightarrow> PluginSettings" where
  "receive_close n s =
     (let s = s\<lparr>pw_open := (pw_open s)(fst n := None), pw_cmd_tx := (pw_cmd_tx s)(fst n := None),
                pw_opening := pw_opening s - {fst n}\<rparr>
      in case snd n of
           Some message \<Rightarrow> s\<lparr>pw_gui_errors := (pw_gui_errors s)(fst n \<mapsto> message)\<rparr>
         | None \<Rightarrow> s)"

definition poll_updates :: "PluginSettings \<Rightarrow> PluginSettings" where
  "poll_updates s =
     (let s = fold receive_scan (pw_scan_queue s) (s\<lparr>pw_scan_queue := []\<rparr>);
          s = fold receive_close (pw_close_queue s) (s\<lparr>pw_close_queue := []\<rparr>)
      in s\<lparr>pw_pending_feedback := pw_pending_feedback s @ pw_param_queue s, pw_param_queue := []\<rparr>)"

definition take_param_feedback :: "PluginSettings \<Rightarrow> ParamFeedbackEvent list \<times> PluginSettings" where
  "take_param_feedback s = (pw_pending_feedback s, s\<lparr>pw_pending_feedback := []\<rparr>)"

definition remove_search_path :: "nat \<Rightarrow> PluginSettings \<Rightarrow> PluginSettings option" where
  "remove_search_path i s =
     (if i < length (pw_custom_paths s) then Some (s\<lparr>pw_custom_paths := remove_at i (pw_custom_paths s)\<rparr>) else None)"

definition add_search_path :: "path option \<Rightarrow> PluginSettings \<Rightarrow> PluginSettings" where
  "add_search_path folder s =
     (case folder of Some p \<Rightarrow> s\<lparr>pw_custom_paths := pw_custom_paths s @ [p]\<rparr> | None \<Rightarrow> s)"

section \<open>The windows\<close>

definition is_plugin_open :: "string \<Rightarrow> PluginSettings \<Rightarrow> bool" where
  "is_plugin_open name s \<longleftrightarrow> pw_open s name \<noteq> None"

definition any_plugin_open :: "PluginSettings \<Rightarrow> bool" where
  "any_plugin_open s \<longleftrightarrow> dom (pw_open s) \<noteq> {}"

definition is_plugin_opening :: "string \<Rightarrow> PluginSettings \<Rightarrow> bool" where
  "is_plugin_opening name s \<longleftrightarrow> name \<in> pw_opening s"

definition gui_error_for :: "string \<Rightarrow> PluginSettings \<Rightarrow> string option" where
  "gui_error_for name s = pw_gui_errors s name"

definition clear_gui_error :: "string \<Rightarrow> PluginSettings \<Rightarrow> PluginSettings" where
  "clear_gui_error name s = s\<lparr>pw_gui_errors := (pw_gui_errors s)(name := None)\<rparr>"

text \<open>Sending to a thread that has ended is an error the code ignores.\<close>

definition send_window :: "PluginWindowCommand \<Rightarrow> nat \<Rightarrow> PluginWindow list \<Rightarrow> PluginWindow list" where
  "send_window c i ws = (if i < length ws \<and> wi_alive (ws ! i)
     then ws[i := (ws ! i)\<lparr>wi_commands := wi_commands (ws ! i) @ [c]\<rparr>] else ws)"

definition send_param_to_open_plugin :: "string \<Rightarrow> u32 \<Rightarrow> f32 \<Rightarrow> PluginSettings \<Rightarrow> PluginSettings" where
  "send_param_to_open_plugin name i v s =
     (case pw_cmd_tx s name of
        Some w \<Rightarrow> s\<lparr>pw_windows := send_window (SetWindowParam i v) w (pw_windows s)\<rparr>
      | None \<Rightarrow> s)"

definition open_plugin :: "PluginDescriptor \<Rightarrow> TapKey \<Rightarrow> PluginSettings \<Rightarrow> PluginSettings" where
  "open_plugin p tap s =
     (if is_plugin_open (pd_name p) s \<or> is_plugin_opening (pd_name p) s then s
      else let w = length (pw_windows s)
           in s\<lparr>pw_gui_errors := (pw_gui_errors s)(pd_name p := None),
                pw_opening := insert (pd_name p) (pw_opening s),
                pw_cmd_tx := (pw_cmd_tx s)(pd_name p \<mapsto> w),
                pw_windows := pw_windows s @ [\<lparr> wi_name = pd_name p, wi_descriptor_id = pd_id p, wi_tap_key = tap,
                                               wi_commands = [], wi_alive = True \<rparr>],
                pw_open := (pw_open s)(pd_name p \<mapsto> w)\<rparr>)"

text \<open>Every window whose sender is kept; a sender belongs to one name.\<close>

definition raise_open_plugins :: "PluginSettings \<Rightarrow> PluginSettings" where
  "raise_open_plugins s = s\<lparr>pw_windows := map (\<lambda>(i, w).
     if i \<in> ran (pw_cmd_tx s) \<and> wi_alive w then w\<lparr>wi_commands := wi_commands w @ [RaiseWindow]\<rparr> else w)
       (enumerate 0 (pw_windows s))\<rparr>"

definition close_plugin :: "string \<Rightarrow> PluginSettings \<Rightarrow> PluginSettings" where
  "close_plugin name s =
     (let s = (case pw_cmd_tx s name of
                 Some w \<Rightarrow> s\<lparr>pw_windows := send_window CloseWindow w (pw_windows s)\<rparr> | None \<Rightarrow> s)
      in s\<lparr>pw_cmd_tx := (pw_cmd_tx s)(name := None), pw_opening := pw_opening s - {name},
           pw_open := (pw_open s)(name := None)\<rparr>)"

text \<open>
  The end of \<open>run_plugin_window\<close>, whatever ended it, and the forwarding of what the editor changed.
\<close>

definition window_ends :: "nat \<Rightarrow> string option \<Rightarrow> PluginSettings \<Rightarrow> PluginSettings" where
  "window_ends w error s = s\<lparr>pw_windows := (pw_windows s)[w := (pw_windows s ! w)\<lparr>wi_alive := False, wi_commands := []\<rparr>],
     pw_close_queue := pw_close_queue s @ [(wi_name (pw_windows s ! w), error)]\<rparr>"

definition window_feedback :: "nat \<Rightarrow> (u32 \<times> f32) list \<Rightarrow> FeedbackOrigin \<Rightarrow> PluginSettings \<Rightarrow> PluginSettings" where
  "window_feedback w changes origin s =
     (if changes = [] then s
      else s\<lparr>pw_param_queue := pw_param_queue s @
        [\<lparr> fb_descriptor_id = wi_descriptor_id (pw_windows s ! w), fb_changes = changes, fb_origin = origin \<rparr>]\<rparr>)"

definition window_reads :: "nat \<Rightarrow> PluginSettings \<Rightarrow> PluginSettings" where
  "window_reads w s = s\<lparr>pw_windows := (pw_windows s)[w := (pw_windows s ! w)\<lparr>wi_commands := tl (wi_commands (pw_windows s ! w))\<rparr>]\<rparr>"

section \<open>The threads together\<close>

inductive panel_step :: "(path list \<Rightarrow> ScanReport) \<Rightarrow> PluginSettings \<Rightarrow> PluginSettings \<Rightarrow> bool"
  for scan :: "path list \<Rightarrow> ScanReport" where
  scan_starts: "panel_step scan s (start_scan shown scan s)"
| scan_sends: "pw_unsent s = m # ms \<Longrightarrow>
    panel_step scan s (s\<lparr>pw_unsent := ms, pw_scan_queue := pw_scan_queue s @ [m]\<rparr>)"
| frame_polls: "panel_step scan s (poll_updates s)"
| frame_takes: "panel_step scan s (snd (take_param_feedback s))"
| path_added: "panel_step scan s (add_search_path folder s)"
| path_removed: "remove_search_path i s = Some s' \<Longrightarrow> panel_step scan s s'"
| window_opens: "panel_step scan s (open_plugin p tap s)"
| window_closes: "panel_step scan s (close_plugin name s)"
| windows_raised: "panel_step scan s (raise_open_plugins s)"
| param_sent: "panel_step scan s (send_param_to_open_plugin name i v s)"
| error_cleared: "panel_step scan s (clear_gui_error name s)"
| window_ended: "w < length (pw_windows s) \<Longrightarrow> wi_alive (pw_windows s ! w) \<Longrightarrow>
    panel_step scan s (window_ends w error s)"
| window_reports: "w < length (pw_windows s) \<Longrightarrow> wi_alive (pw_windows s ! w) \<Longrightarrow>
    panel_step scan s (window_feedback w changes origin s)"
| window_read: "w < length (pw_windows s) \<Longrightarrow> wi_alive (pw_windows s ! w) \<Longrightarrow>
    panel_step scan s (window_reads w s)"

inductive panel_reach :: "(path list \<Rightarrow> ScanReport) \<Rightarrow> PluginSettings \<Rightarrow> bool"
  for scan :: "path list \<Rightarrow> ScanReport" where
  reach_start: "panel_reach scan (panel_default standard)"
| reach_step: "panel_reach scan s \<Longrightarrow> panel_step scan s s' \<Longrightarrow> panel_reach scan s'"

section \<open>A scan reaches the browser whole\<close>

definition plugins_of :: "ScanMessage list \<Rightarrow> PluginDescriptor list" where
  "plugins_of ms = concat (map (\<lambda>m. case m of Found p \<Rightarrow> [p] | _ \<Rightarrow> []) ms)"

definition is_finish :: "ScanMessage \<Rightarrow> bool" where
  "is_finish m \<longleftrightarrow> (case m of Finished _ _ \<Rightarrow> True | _ \<Rightarrow> False)"

text \<open>
  What has been shown and what is on its way is the report of the last scan; the message that ends the
  scan is the last one on its way while the scan runs, and nothing is on its way afterwards.
\<close>

definition scan_ok :: "(path list \<Rightarrow> ScanReport) \<Rightarrow> PluginSettings \<Rightarrow> bool" where
  "scan_ok scan s \<longleftrightarrow>
     (let way = pw_scan_queue s @ pw_unsent s
      in pw_discovered s @ plugins_of way = (case pw_scanned s of Some ps \<Rightarrow> sr_plugins (scan ps) | None \<Rightarrow> [])
         \<and> (if pw_is_scanning s then way \<noteq> [] \<and> is_finish (last way) \<and> list_all (Not \<circ> is_finish) (butlast way)
            else way = []))"


lemma scan_ids_distinct: "distinct (map pd_id (sr_plugins (scan_paths fs canon lower roots)))"
proof -
  let ?r0 = "\<lparr> sr_plugins = [], sr_errors = [] \<rparr> :: ScanReport"
  obtain seen r where s: "scan_roots fs canon roots [] ?r0 = (seen, r)" by fastforce
  have "ids_ok [] ?r0" by (simp add: ids_ok_def)
  from scan_roots_ids(1) [OF this s] show ?thesis
    by (simp add: scan_paths_def s ids_ok_def distinct_map)
qed

lemma plugins_of_simps [simp]:
  "plugins_of [] = []" "plugins_of (Found p # ms) = p # plugins_of ms"
  "plugins_of (Finished n es # ms) = plugins_of ms" "plugins_of (Progress f # ms) = plugins_of ms"
  "plugins_of (xs @ ys) = plugins_of xs @ plugins_of ys" "plugins_of (map Found ps) = ps"
  by (simp_all add: plugins_of_def) (induction ps; simp)

lemma is_finish_simps [simp]:
  "is_finish (Finished n es)" "\<not> is_finish (Found p)" "\<not> is_finish (Progress f)"
  by (simp_all add: is_finish_def)

lemma scan_messages_shape:
  "plugins_of (scan_messages shown r) = sr_plugins r \<and> scan_messages shown r \<noteq> []
   \<and> is_finish (last (scan_messages shown r)) \<and> list_all (Not \<circ> is_finish) (butlast (scan_messages shown r))"
  by (simp add: scan_messages_def butlast_append list_all_iff)

text \<open>The main thread receives what is queued, in order.\<close>

lemma receive_scans:
  "distinct (map pd_id (pw_discovered s @ plugins_of ms)) \<Longrightarrow>
   pw_discovered (fold receive_scan ms s) = pw_discovered s @ plugins_of ms
   \<and> pw_is_scanning (fold receive_scan ms s) = (pw_is_scanning s \<and> \<not> list_ex is_finish ms)"
proof (induction ms arbitrary: s)
  case (Cons m ms)
  then show ?case
  proof (cases m)
    case (Found p)
    have "pd_id p \<notin> pd_id ` set (pw_discovered s)" using Cons.prems by (auto simp: Found)
    then show ?thesis using Cons.IH [of "s\<lparr>pw_discovered := pw_discovered s @ [p]\<rparr>"] Cons.prems
      by (simp add: Found)
  qed (simp_all add: Cons.IH)
qed simp

lemma receive_scan_frame:
  "pw_scan_queue (fold receive_scan ms s) = pw_scan_queue s \<and> pw_unsent (fold receive_scan ms s) = pw_unsent s
   \<and> pw_scanned (fold receive_scan ms s) = pw_scanned s \<and> pw_open (fold receive_scan ms s) = pw_open s
   \<and> pw_opening (fold receive_scan ms s) = pw_opening s \<and> pw_cmd_tx (fold receive_scan ms s) = pw_cmd_tx s
   \<and> pw_windows (fold receive_scan ms s) = pw_windows s \<and> pw_close_queue (fold receive_scan ms s) = pw_close_queue s"
proof (induction ms arbitrary: s)
  case (Cons m ms) then show ?case by (cases m) simp_all
qed simp

text \<open>The fields of the scan; all other operations leave them alone.\<close>

definition scan_view :: "PluginSettings \<Rightarrow> PluginDescriptor list \<times> ScanMessage list \<times> ScanMessage list \<times> path list option \<times> bool" where
  "scan_view s = (pw_discovered s, pw_scan_queue s, pw_unsent s, pw_scanned s, pw_is_scanning s)"

lemma receive_close_sel:
  "pw_open (receive_close n s) = (pw_open s) |` (- {fst n})" "pw_cmd_tx (receive_close n s) = (pw_cmd_tx s) |` (- {fst n})"
  "pw_opening (receive_close n s) = pw_opening s - {fst n}" "scan_view (receive_close n s) = scan_view s"
  "pw_windows (receive_close n s) = pw_windows s"
  by (auto simp: receive_close_def scan_view_def Let_def restrict_map_def fun_eq_iff split: option.split)

lemma receive_close_frame:
  "scan_view (fold receive_close ns s) = scan_view s \<and> pw_windows (fold receive_close ns s) = pw_windows s"
  by (induction ns arbitrary: s) (simp_all add: receive_close_sel)

lemma receive_close_names:
  "pw_open (fold receive_close ns s) = pw_open s |` (- fst ` set ns)
   \<and> pw_cmd_tx (fold receive_close ns s) = pw_cmd_tx s |` (- fst ` set ns)
   \<and> pw_opening (fold receive_close ns s) = pw_opening s - fst ` set ns"
proof (induction ns arbitrary: s)
  case (Cons n ns)
  have "- {fst n} \<inter> - fst ` set ns = - fst ` set (n # ns)" by auto
  then show ?case by (auto simp: Cons.IH receive_close_sel)
qed (simp add: restrict_map_def)

lemma poll_scan:
  "pw_scan_queue (poll_updates s) = [] \<and> pw_unsent (poll_updates s) = pw_unsent s
   \<and> pw_scanned (poll_updates s) = pw_scanned s
   \<and> pw_discovered (poll_updates s) = pw_discovered (fold receive_scan (pw_scan_queue s) (s\<lparr>pw_scan_queue := []\<rparr>))
   \<and> pw_is_scanning (poll_updates s) = pw_is_scanning (fold receive_scan (pw_scan_queue s) (s\<lparr>pw_scan_queue := []\<rparr>))"
  using receive_close_frame [of "pw_close_queue s" "(fold receive_scan (pw_scan_queue s) (s\<lparr>pw_scan_queue := []\<rparr>))\<lparr>pw_close_queue := []\<rparr>"]
  by (simp add: poll_updates_def Let_def scan_view_def receive_scan_frame)

lemma poll_names:
  "pw_open (poll_updates s) = pw_open s |` (- fst ` set (pw_close_queue s))
   \<and> pw_cmd_tx (poll_updates s) = pw_cmd_tx s |` (- fst ` set (pw_close_queue s))
   \<and> pw_opening (poll_updates s) = pw_opening s - fst ` set (pw_close_queue s)
   \<and> pw_windows (poll_updates s) = pw_windows s"
  by (simp add: poll_updates_def Let_def receive_close_frame receive_close_names receive_scan_frame)

lemma scan_ok_keep: "scan_ok scan s \<Longrightarrow> scan_view s' = scan_view s \<Longrightarrow> scan_ok scan s'"
  by (simp add: scan_view_def scan_ok_def)

lemma scan_view_take_param_feedback: "scan_view (snd (take_param_feedback s)) = scan_view s"
  by (simp add: scan_view_def take_param_feedback_def split: option.split)

lemma scan_view_add_search_path: "scan_view (add_search_path folder s) = scan_view s"
  by (simp add: scan_view_def add_search_path_def split: option.split)

lemma scan_view_open_plugin: "scan_view (open_plugin p tap s) = scan_view s"
  by (simp add: scan_view_def open_plugin_def Let_def split: option.split)

lemma scan_view_close_plugin: "scan_view (close_plugin name s) = scan_view s"
  by (simp add: scan_view_def close_plugin_def Let_def split: option.split)

lemma scan_view_raise_open_plugins: "scan_view (raise_open_plugins s) = scan_view s"
  by (simp add: scan_view_def raise_open_plugins_def split: option.split)

lemma scan_view_send_param_to_open_plugin: "scan_view (send_param_to_open_plugin name i v s) = scan_view s"
  by (simp add: scan_view_def send_param_to_open_plugin_def split: option.split)

lemma scan_view_clear_gui_error: "scan_view (clear_gui_error name s) = scan_view s"
  by (simp add: scan_view_def clear_gui_error_def split: option.split)

lemma scan_view_window_ends: "scan_view (window_ends w error s) = scan_view s"
  by (simp add: scan_view_def window_ends_def split: option.split)

lemma scan_view_window_feedback: "scan_view (window_feedback w changes origin s) = scan_view s"
  by (simp add: scan_view_def window_feedback_def split: option.split)

lemma scan_view_window_reads: "scan_view (window_reads w s) = scan_view s"
  by (simp add: scan_view_def window_reads_def split: option.split)

lemmas scan_view_frame = scan_view_take_param_feedback scan_view_add_search_path scan_view_open_plugin scan_view_close_plugin scan_view_raise_open_plugins scan_view_send_param_to_open_plugin scan_view_clear_gui_error scan_view_window_ends scan_view_window_feedback scan_view_window_reads

lemma scan_view_remove: "remove_search_path i s = Some s' \<Longrightarrow> scan_view s' = scan_view s"
  by (auto simp: scan_view_def remove_search_path_def split: if_splits)

lemma list_all_not_ex: "list_all (Not \<circ> P) xs \<longleftrightarrow> \<not> list_ex P xs"
  by (induction xs) simp_all

lemma scan_ok_poll:
  assumes ok: "scan_ok scan s" and ids: "\<And>ps. distinct (map pd_id (sr_plugins (scan ps)))"
  shows "scan_ok scan (poll_updates s)
    \<and> (pw_unsent s = [] \<longrightarrow> \<not> pw_is_scanning (poll_updates s))"
proof -
  let ?q = "pw_scan_queue s" and ?u = "pw_unsent s" and ?r = "case pw_scanned s of Some ps \<Rightarrow> sr_plugins (scan ps) | None \<Rightarrow> []"
  have all: "pw_discovered s @ plugins_of (?q @ ?u) = ?r" using ok by (simp add: scan_ok_def Let_def)
  have "distinct (map pd_id ?r)" using ids by (simp split: option.split)
  then have "distinct (map pd_id (pw_discovered s @ plugins_of (?q @ ?u)))" by (simp only: all)
  then have "distinct (map pd_id (pw_discovered (s\<lparr>pw_scan_queue := []\<rparr>) @ plugins_of ?q))" by auto
  note r = receive_scans [OF this]
  show ?thesis
  proof (cases "pw_is_scanning s")
    case False
    then have "?q = []" "?u = []" using ok by (simp_all add: scan_ok_def Let_def)
    then show ?thesis using False r all by (simp add: scan_ok_def poll_scan Let_def)
  next
    case True
    then have w: "?q @ ?u \<noteq> []" "is_finish (last (?q @ ?u))" "\<not> list_ex is_finish (butlast (?q @ ?u))"
      using ok by (simp_all add: scan_ok_def Let_def list_all_not_ex)
    show ?thesis
    proof (cases "?u = []")
      case True
      then have "list_ex is_finish ?q" using w by (simp add: list_ex_iff) (metis last_in_set)
      then show ?thesis using True r all by (simp add: scan_ok_def poll_scan Let_def)
    next
      case False
      then have b: "butlast (?q @ ?u) = ?q @ butlast ?u" by (simp add: butlast_append)
      then have "\<not> list_ex is_finish ?q" "\<not> list_ex is_finish (butlast ?u)" using w(3) by simp_all
      then show ?thesis using False r all w(2) \<open>pw_is_scanning s\<close>
        by (simp add: scan_ok_def poll_scan Let_def list_all_not_ex)
    qed
  qed
qed

lemma scan_ok_start: "scan_ok scan s \<Longrightarrow> scan_ok scan (start_scan shown scan s)"
  using scan_messages_shape [of shown "scan (pw_custom_paths s)"]
  by (auto simp: scan_ok_def start_scan_def Let_def)

lemma scan_ok_send:
  "scan_ok scan s \<Longrightarrow> pw_unsent s = m # ms \<Longrightarrow>
   scan_ok scan (s\<lparr>pw_unsent := ms, pw_scan_queue := pw_scan_queue s @ [m]\<rparr>)"
  by (auto simp: scan_ok_def Let_def butlast_append split: if_splits)

lemma panel_reach_scan_ok:
  assumes "panel_reach scan s" and ids: "\<And>ps. distinct (map pd_id (sr_plugins (scan ps)))"
  shows "scan_ok scan s"
  using assms(1)
proof (induction rule: panel_reach.induct)
  case (reach_start standard)
  show ?case by (simp add: scan_ok_def panel_default_def)
next
  case (reach_step s s')
  from reach_step.hyps(2) reach_step.IH show ?case
  proof (cases rule: panel_step.cases)
    case frame_polls
    then show ?thesis using scan_ok_poll [OF reach_step.IH ids] by simp
  qed (auto intro: scan_ok_start scan_ok_send scan_ok_keep scan_view_frame scan_view_remove)
qed

text \<open>The scanning thread can always finish what it has to send.\<close>

lemma send_all:
  "(panel_step scan)\<^sup>*\<^sup>* s (s\<lparr>pw_unsent := [], pw_scan_queue := pw_scan_queue s @ pw_unsent s\<rparr>)"
proof (induction "pw_unsent s" arbitrary: s)
  case Nil
  have "s\<lparr>pw_unsent := [], pw_scan_queue := pw_scan_queue s @ pw_unsent s\<rparr> = s" using Nil by simp
  then show ?case by simp
next
  case (Cons m ms)
  let ?s = "s\<lparr>pw_unsent := ms, pw_scan_queue := pw_scan_queue s @ [m]\<rparr>"
  have "panel_step scan s ?s" using Cons.hyps(2) by (intro scan_sends) simp
  moreover have "(panel_step scan)\<^sup>*\<^sup>* ?s (?s\<lparr>pw_unsent := [], pw_scan_queue := pw_scan_queue ?s @ pw_unsent ?s\<rparr>)"
    by (rule Cons.hyps(1)) simp
  ultimately show ?case using Cons.hyps(2) [symmetric] by (simp add: converse_rtranclp_into_rtranclp)
qed

lemma panel_reach_steps: "(panel_step scan)\<^sup>*\<^sup>* s s' \<Longrightarrow> panel_reach scan s \<Longrightarrow> panel_reach scan s'"
  by (induction rule: rtranclp_induct) (auto intro: reach_step)

definition scan_done :: "PluginSettings \<Rightarrow> PluginSettings" where
  "scan_done s = poll_updates (s\<lparr>pw_unsent := [], pw_scan_queue := pw_scan_queue s @ pw_unsent s\<rparr>)"

lemma scan_done_reached:
  assumes "panel_reach scan s" and ids: "\<And>ps. distinct (map pd_id (sr_plugins (scan ps)))"
  shows "(panel_step scan)\<^sup>*\<^sup>* s (scan_done s) \<and> \<not> pw_is_scanning (scan_done s) \<and> pw_scanned (scan_done s) = pw_scanned s"
proof -
  let ?s = "s\<lparr>pw_unsent := [], pw_scan_queue := pw_scan_queue s @ pw_unsent s\<rparr>"
  have run: "(panel_step scan)\<^sup>*\<^sup>* s ?s" by (rule send_all)
  then have "scan_ok scan ?s" using panel_reach_steps [OF run assms(1)] panel_reach_scan_ok ids by blast
  then have "\<not> pw_is_scanning (poll_updates ?s)" using scan_ok_poll [OF _ ids] by simp
  moreover have "(panel_step scan)\<^sup>*\<^sup>* s (poll_updates ?s)" using run frame_polls by (rule rtranclp.rtrancl_into_rtrancl)
  ultimately show ?thesis by (simp add: scan_done_def poll_scan)
qed

text \<open>
  C33. Whatever the threads do between, a scan fills the browser with exactly the plugins that the walk of
  the disk reports for the paths it started with, in that order: no result is lost, repeated or left over
  from an earlier scan when the list of paths changes or the scan is asked for again while it runs, and
  from every state the scan can come to its end.
\<close>

theorem scan_reaches_browser:
  assumes "panel_reach (scan_paths fs canon lower) s" "pw_scanned s = Some roots"
  shows "(\<not> pw_is_scanning s \<longrightarrow> pw_discovered s = sr_plugins (scan_paths fs canon lower roots))
    \<and> (\<exists>s'. (panel_step (scan_paths fs canon lower))\<^sup>*\<^sup>* s s' \<and> \<not> pw_is_scanning s'
         \<and> pw_discovered s' = sr_plugins (scan_paths fs canon lower roots))"
proof -
  have shown: "pw_discovered t = sr_plugins (scan_paths fs canon lower roots)"
    if "panel_reach (scan_paths fs canon lower) t" "pw_scanned t = Some roots" "\<not> pw_is_scanning t" for t
    using panel_reach_scan_ok [OF that(1) scan_ids_distinct] that(2,3) by (auto simp: scan_ok_def Let_def)
  have r: "(panel_step (scan_paths fs canon lower))\<^sup>*\<^sup>* s (scan_done s)" "\<not> pw_is_scanning (scan_done s)"
    "pw_scanned (scan_done s) = Some roots"
    using scan_done_reached [OF assms(1) scan_ids_distinct] assms(2) by simp_all
  then show ?thesis using shown [OF assms] shown [OF panel_reach_steps [OF r(1) assms(1)] r(3,2)] by blast
qed

definition demo_scan :: PluginSettings where
  "demo_scan = start_scan (\<lambda>_. []) (scan_paths demo_fs id id) (panel_default (standard_search_paths (Some [''u''])))"

theorem scan_reaches_browser_witness:
  "\<exists>s. panel_reach (scan_paths demo_fs id id) s \<and> \<not> pw_is_scanning s
     \<and> pw_discovered s = sr_plugins (scan_paths demo_fs id id (standard_search_paths (Some [''u''])))"
proof -
  have r: "panel_reach (scan_paths demo_fs id id) demo_scan" unfolding demo_scan_def
    by (rule reach_step [OF reach_start scan_starts])
  have p: "pw_scanned demo_scan = Some (standard_search_paths (Some [''u'']))"
    by (simp add: demo_scan_def start_scan_def panel_default_def)
  show ?thesis using scan_reaches_browser [OF r p] panel_reach_steps [OF _ r] by blast
qed

section \<open>The windows and their names\<close>

text \<open>
  The two tables of windows always agree, a window is entered under its own name, and a window that is
  being opened is already listed as open.
\<close>

definition names_ok :: "PluginSettings \<Rightarrow> bool" where
  "names_ok s \<longleftrightarrow> pw_cmd_tx s = pw_open s \<and> pw_opening s \<subseteq> dom (pw_open s)
     \<and> (\<forall>n w. pw_open s n = Some w \<longrightarrow> w < length (pw_windows s) \<and> wi_name (pw_windows s ! w) = n)"

definition name_view :: "PluginSettings \<Rightarrow> (string \<rightharpoonup> nat) \<times> (string \<rightharpoonup> nat) \<times> string set \<times> string list" where
  "name_view s = (pw_cmd_tx s, pw_open s, pw_opening s, map wi_name (pw_windows s))"

lemma names_ok_keep:
  assumes "names_ok s" "name_view s' = name_view s"
  shows "names_ok s'"
proof -
  have l: "length (pw_windows s') = length (pw_windows s)"
    using assms(2) unfolding name_view_def by (metis length_map prod.inject)
  have n: "wi_name (pw_windows s' ! w) = wi_name (pw_windows s ! w)" if "w < length (pw_windows s)" for w
    using assms(2) l that unfolding name_view_def by (metis nth_map prod.inject)
  show ?thesis using assms l n by (auto simp: names_ok_def name_view_def)
qed

lemma map_names_update: "map wi_name (ws[w := f (ws ! w)]) = map wi_name ws" if "\<And>x. wi_name (f x) = wi_name x"
proof (cases "w < length ws")
  case True
  then have "(map wi_name ws)[w := wi_name (ws ! w)] = map wi_name ws" using list_update_id [of "map wi_name ws" w] by simp
  then show ?thesis by (simp add: map_update that)
qed (simp add: list_update_beyond)

lemma send_window_names: "map wi_name (send_window c i ws) = map wi_name ws"
  by (simp add: send_window_def map_names_update [of "\<lambda>x. x\<lparr>wi_commands := wi_commands x @ [c]\<rparr>"])

lemma name_view_take: "name_view (snd (take_param_feedback s)) = name_view s"
  by (simp add: name_view_def take_param_feedback_def)

lemma name_view_start: "name_view (start_scan shown scan s) = name_view s"
  by (simp add: name_view_def start_scan_def)

lemma name_view_add: "name_view (add_search_path folder s) = name_view s"
  by (simp add: name_view_def add_search_path_def split: option.split)

lemma name_view_remove: "remove_search_path i s = Some s' \<Longrightarrow> name_view s' = name_view s"
  by (auto simp: name_view_def remove_search_path_def split: if_splits)

lemma name_view_raise: "name_view (raise_open_plugins s) = name_view s"
proof -
  have "map wi_name (map (\<lambda>(i, w). if i \<in> ran (pw_cmd_tx s) \<and> wi_alive w
      then w\<lparr>wi_commands := wi_commands w @ [RaiseWindow]\<rparr> else w) (enumerate 0 ws)) = map wi_name ws" for ws
    by (rule nth_equalityI) (simp_all add: nth_enumerate_eq)
  then show ?thesis by (simp add: name_view_def raise_open_plugins_def del: map_map)
qed

lemma name_view_param: "name_view (send_param_to_open_plugin name i v s) = name_view s"
  by (simp add: name_view_def send_param_to_open_plugin_def send_window_names split: option.split)

lemma name_view_clear: "name_view (clear_gui_error name s) = name_view s"
  by (simp add: name_view_def clear_gui_error_def)

lemma name_view_ends: "name_view (window_ends w error s) = name_view s"
  by (simp add: name_view_def window_ends_def map_names_update [of "\<lambda>x. x\<lparr>wi_alive := False, wi_commands := []\<rparr>"])

lemma name_view_feedback: "name_view (window_feedback w changes origin s) = name_view s"
  by (simp add: name_view_def window_feedback_def)

lemma name_view_reads: "name_view (window_reads w s) = name_view s"
  by (simp add: name_view_def window_reads_def map_names_update [of "\<lambda>x. x\<lparr>wi_commands := tl (wi_commands x)\<rparr>"])

lemmas name_view_frame = name_view_take name_view_start name_view_add name_view_remove name_view_raise
  name_view_param name_view_clear name_view_ends name_view_feedback name_view_reads

lemma names_ok_open: "names_ok s \<Longrightarrow> names_ok (open_plugin p tap s)"
  by (auto simp: names_ok_def open_plugin_def Let_def nth_append is_plugin_open_def is_plugin_opening_def less_Suc_eq
      split: if_splits)

lemma names_ok_close:
  assumes "names_ok s" shows "names_ok (close_plugin name s)"
proof -
  let ?ws = "case pw_cmd_tx s name of Some w \<Rightarrow> send_window CloseWindow w (pw_windows s) | None \<Rightarrow> pw_windows s"
  have c: "close_plugin name s = s\<lparr>pw_windows := ?ws, pw_cmd_tx := (pw_cmd_tx s)(name := None),
      pw_opening := pw_opening s - {name}, pw_open := (pw_open s)(name := None)\<rparr>"
    by (simp add: close_plugin_def Let_def split: option.split)
  have "map wi_name ?ws = map wi_name (pw_windows s)" by (simp add: send_window_names split: option.split)
  then have "length ?ws = length (pw_windows s)"
    "\<And>w. w < length (pw_windows s) \<Longrightarrow> wi_name (?ws ! w) = wi_name (pw_windows s ! w)"
    by (metis length_map, metis length_map nth_map)
  then show ?thesis using assms unfolding c by (auto simp: names_ok_def simp del: option.case_eq_if)
qed

lemma names_ok_poll: "names_ok s \<Longrightarrow> names_ok (poll_updates s)"
  by (auto simp: names_ok_def poll_names restrict_map_def split: if_splits)

lemma panel_reach_names_ok: "panel_reach scan s \<Longrightarrow> names_ok s"
proof (induction rule: panel_reach.induct)
  case (reach_start standard)
  show ?case by (simp add: names_ok_def panel_default_def)
next
  case (reach_step s s')
  from reach_step.hyps(2) reach_step.IH show ?case
  proof (cases rule: panel_step.cases)
    case scan_sends
    then show ?thesis using reach_step.IH by (simp add: names_ok_def)
  qed (auto intro: names_ok_open names_ok_close names_ok_poll names_ok_keep name_view_frame)
qed

text \<open>The card of a plugin asks first whether the window is open: it never shows that it is being opened.\<close>

lemma opening_never_shown: "panel_reach scan s \<Longrightarrow> is_plugin_opening name s \<Longrightarrow> is_plugin_open name s"
  using panel_reach_names_ok [of scan s] by (auto simp: names_ok_def is_plugin_opening_def is_plugin_open_def)

text \<open>
  A window that is closed and opened again before its first thread has reported its end is forgotten when
  that report arrives: the report carries the name only.  The second window stays on the screen, cannot be
  closed from the rack, receives no parameter, and the next click opens another one.
\<close>

lemma stale_close_forgets_window:
  fixes p :: PluginDescriptor and s :: PluginSettings and tap :: TapKey
  defines "n \<equiv> pd_name p"
  defines "s3 \<equiv> open_plugin p tap (close_plugin n (open_plugin p tap s))"
  defines "s5 \<equiv> poll_updates (window_ends (length (pw_windows s)) None s3)"
  assumes fresh: "pw_open s n = None" "n \<notin> pw_opening s"
  shows "(panel_step scan)\<^sup>*\<^sup>* s s5"
    and "\<not> is_plugin_open n s5 \<and> pw_cmd_tx s5 n = None"
    and "length (pw_windows s5) = length (pw_windows s) + 2 \<and> wi_name (last (pw_windows s5)) = n \<and> wi_alive (last (pw_windows s5))"
    and "pw_windows (close_plugin n s5) = pw_windows s5 \<and> pw_windows (send_param_to_open_plugin n i v s5) = pw_windows s5"
    and "filter (\<lambda>w. wi_alive w \<and> wi_name w = n) (drop (length (pw_windows s)) (pw_windows (open_plugin p tap s5)))
           = drop (length (pw_windows s) + 1) (pw_windows (open_plugin p tap s5))"
proof -
  let ?l = "length (pw_windows s)" and ?w = "\<lparr> wi_name = n, wi_descriptor_id = pd_id p, wi_tap_key = tap, wi_commands = [], wi_alive = True \<rparr>"
  have s1: "pw_open (open_plugin p tap s) = (pw_open s)(n \<mapsto> ?l)" "pw_cmd_tx (open_plugin p tap s) = (pw_cmd_tx s)(n \<mapsto> ?l)"
    "pw_opening (open_plugin p tap s) = insert n (pw_opening s)" "pw_windows (open_plugin p tap s) = pw_windows s @ [?w]"
    using fresh by (simp_all add: open_plugin_def is_plugin_open_def is_plugin_opening_def n_def Let_def)
  have s2: "pw_open (close_plugin n (open_plugin p tap s)) n = None" "n \<notin> pw_opening (close_plugin n (open_plugin p tap s))"
    "pw_windows (close_plugin n (open_plugin p tap s)) = pw_windows s @ [?w\<lparr>wi_commands := [CloseWindow]\<rparr>]"
    by (simp_all add: close_plugin_def s1 send_window_def Let_def)
  have s3: "pw_windows s3 = pw_windows s @ [?w\<lparr>wi_commands := [CloseWindow]\<rparr>, ?w]"
    using s2 by (simp add: s3_def open_plugin_def is_plugin_open_def is_plugin_opening_def n_def Let_def)
  have q: "(n, None) \<in> set (pw_close_queue (window_ends ?l None s3))" by (simp add: window_ends_def s3)
  then have "n \<in> fst ` set (pw_close_queue (window_ends ?l None s3))" by force
  then have names: "pw_open s5 n = None" "pw_cmd_tx s5 n = None" "n \<notin> pw_opening s5"
    by (simp_all add: s5_def poll_names restrict_map_def)
  have ws: "pw_windows s5 = pw_windows s @ [?w\<lparr>wi_alive := False\<rparr>, ?w]"
    by (simp add: s5_def poll_names window_ends_def s3)
  have "(panel_step scan)\<^sup>*\<^sup>* s s3" unfolding s3_def
    by (rule converse_rtranclp_into_rtranclp, rule window_opens, rule converse_rtranclp_into_rtranclp,
        rule window_closes, rule converse_rtranclp_into_rtranclp, rule window_opens, rule rtranclp.rtrancl_refl)
  moreover have "panel_step scan s3 (window_ends ?l None s3)" by (rule window_ended) (simp_all add: s3)
  ultimately show "(panel_step scan)\<^sup>*\<^sup>* s s5" unfolding s5_def
    using rtranclp.rtrancl_into_rtrancl rtranclp.rtrancl_into_rtrancl frame_polls by metis
  show "\<not> is_plugin_open n s5 \<and> pw_cmd_tx s5 n = None" using names by (simp add: is_plugin_open_def)
  show "length (pw_windows s5) = ?l + 2 \<and> wi_name (last (pw_windows s5)) = n \<and> wi_alive (last (pw_windows s5))"
    by (simp add: ws)
  show "pw_windows (close_plugin n s5) = pw_windows s5 \<and> pw_windows (send_param_to_open_plugin n i v s5) = pw_windows s5"
    using names by (simp add: close_plugin_def send_param_to_open_plugin_def Let_def)
  have "pw_windows (open_plugin p tap s5) = pw_windows s @ [?w\<lparr>wi_alive := False\<rparr>, ?w, ?w]"
    using names by (simp add: open_plugin_def is_plugin_open_def is_plugin_opening_def n_def ws Let_def)
  then show "filter (\<lambda>w. wi_alive w \<and> wi_name w = n) (drop ?l (pw_windows (open_plugin p tap s5)))
      = drop (?l + 1) (pw_windows (open_plugin p tap s5))" by simp
qed

end
