(* ===== verification/AppFrame.thy ===== *)
theory AppFrame
  imports ProjectState PianoRoll PluginWindows
begin

text \<open>
  The frame of the interface (gui/src/app.rs), the transport bar (views/header.rs) and the device rack
  (views/dsp_rack.rs): what happens once per frame before drawing, the text boxes of tempo and time
  signature, the buttons of the transport, dragging of parameters and of devices, the probing of a
  plugin's parameters in a thread and the way back of what its own window changes.  \<open>Frame\<close> holds the
  fields of the state that the project files do not touch.  The commands to the engine are a list.
\<close>

section \<open>The boxes of the transport bar\<close>

definition STANDARD_SIGS :: "(u32 \<times> u32) list" where
  "STANDARD_SIGS = [(2, 4), (3, 4), (4, 4), (5, 4), (6, 8), (7, 8), (12, 8)]"

definition format_sig :: "u32 \<Rightarrow> u32 \<Rightarrow> string" where
  "format_sig num den = show_nat (unat (max num 1)) @ ''/'' @ show_nat (unat (max den 1))"

text \<open>\<open>split_once\<close> at a slash.\<close>

definition split_sig :: "string \<Rightarrow> (string \<times> string) option" where
  "split_sig s = (if CHR ''/'' \<in> set s
     then Some (takeWhile (\<lambda>c. c \<noteq> CHR ''/'') s, tl (dropWhile (\<lambda>c. c \<noteq> CHR ''/'') s)) else None)"

definition parse_sig :: "string \<Rightarrow> (u32 \<times> u32) option" where
  "parse_sig text =
     (let text = trim text
      in if text = [] then None
         else let (num_txt, den_txt) = (case split_sig text of
                     Some (n, d) \<Rightarrow> (trim n, Some (trim d)) | None \<Rightarrow> (text, None))
              in case parse_u32 num_txt of
                   None \<Rightarrow> None
                 | Some num \<Rightarrow>
                     if \<not> (1 \<le> num \<and> num \<le> 16) then None
                     else (case den_txt of
                             None \<Rightarrow> Some (num, 4)
                           | Some d \<Rightarrow> (case parse_u32 d of
                               None \<Rightarrow> None
                             | Some v \<Rightarrow> if v \<notin> {2, 4, 8, 16} then None else Some (num, v))))"

text \<open>\<open>delta\<close> is an \<open>i32\<close>; the sum wraps.\<close>

definition step_sig :: "u32 \<Rightarrow> u32 \<Rightarrow> u32 \<Rightarrow> u32 \<times> u32" where
  "step_sig num den delta =
     (let idx = (case find_idx (\<lambda>(n, d). n = num \<and> d = den) STANDARD_SIGS of Some i \<Rightarrow> i | None \<Rightarrow> 2);
          next = clamp_int 0 (int (length STANDARD_SIGS) - 1) (sint (word_of_nat idx + delta))
      in STANDARD_SIGS ! nat next)"

section \<open>Dragging a parameter\<close>

definition PARAM_DRAG_RANGE_PX :: f32 where "PARAM_DRAG_RANGE_PX = Num 160"
definition PARAM_DRAG_FINE :: f32 where "PARAM_DRAG_FINE = Num (1 / 4)"
definition PARAM_DRAG_AXIS_LOCK_PX :: f32 where "PARAM_DRAG_AXIS_LOCK_PX = Num 2"

datatype ParamDragAxis = Horizontal | Vertical

record ParamDragState =
  dr_track :: usize
  dr_slot :: usize
  dr_param_id :: u32
  dr_origin_x :: f32
  dr_origin_y :: f32
  dr_start_value :: f32
  dr_axis :: "ParamDragAxis option"

definition param_drag_new :: "usize \<Rightarrow> usize \<Rightarrow> u32 \<Rightarrow> f32 \<Rightarrow> f32 \<Rightarrow> f32 \<Rightarrow> ParamDragState" where
  "param_drag_new track slot param x y start = \<lparr> dr_track = track, dr_slot = slot, dr_param_id = param,
     dr_origin_x = x, dr_origin_y = y, dr_start_value = start, dr_axis = None \<rparr>"

definition axis_for :: "f32 \<Rightarrow> f32 \<Rightarrow> ParamDragState \<Rightarrow> ParamDragAxis" where
  "axis_for x y d =
     (if le (fabs (fsub F32 y (dr_origin_y d))) (fabs (fsub F32 x (dr_origin_x d))) then Horizontal else Vertical)"

definition drag_advance :: "f32 \<Rightarrow> f32 \<Rightarrow> bool \<Rightarrow> ParamDragState \<Rightarrow> f32 option \<times> ParamDragState" where
  "drag_advance x y fine d =
     (if \<not> is_finite x \<or> \<not> is_finite y \<or> \<not> is_finite (dr_start_value d) then (None, d)
      else if dr_axis d = None
              \<and> lt (fmax (fabs (fsub F32 x (dr_origin_x d))) (fabs (fsub F32 y (dr_origin_y d)))) PARAM_DRAG_AXIS_LOCK_PX
      then (None, d)
      else let axis = (case dr_axis d of Some a \<Rightarrow> a | None \<Rightarrow> axis_for x y d);
               delta = (case axis of Horizontal \<Rightarrow> fsub F32 x (dr_origin_x d) | Vertical \<Rightarrow> fsub F32 (dr_origin_y d) y);
               gain = (if fine then PARAM_DRAG_FINE else Num 1)
           in (Some (fclamp (fadd F32 (dr_start_value d) (fmul F32 (fdiv F32 delta PARAM_DRAG_RANGE_PX) gain))
                       (Num 0) (Num 1)),
               d\<lparr>dr_axis := Some axis\<rparr>))"

section \<open>The state of a frame\<close>

datatype StripTarget = MasterStrip | LiveStrip usize | StudioStrip usize | FxStrip usize

record MixerDeviceDrag =
  md_source_target :: StripTarget
  md_source_slot :: usize
  md_device_name :: string

datatype PluginBrowserFilter = AllPlugins | NativeOnly | Vst3Only | ClapOnly

record ParamProbeResult =
  pp_descriptor_id :: string
  pp_params :: "(PluginParamInfo \<times> f32) list"
  pp_error :: "string option"
  pp_has_gui :: bool

record Frame =
  af_app :: AppState
  af_bpm_synced :: f64
  af_is_recording :: bool
  af_is_looping :: bool
  af_param_drag :: "ParamDragState option"
  af_param_probing :: "string set"
  af_probe_results :: "ParamProbeResult list"
  af_dragging_device :: "MixerDeviceDrag option"
  af_add_slot_menu_open :: bool
  af_browser_filter :: PluginBrowserFilter
  af_browser_query :: string
  af_track_peaks :: "f32 list"
  af_master_peak :: f32
  af_arranger_track_width :: f32
  af_roll :: PianoRollState
  af_show_piano_roll :: bool
  af_previewing :: bool
  af_preview_position :: f32
  af_plugins :: PluginSettings

definition on_app :: "(AppState \<Rightarrow> AppState) \<Rightarrow> Frame \<Rightarrow> Frame" where
  "on_app g f = f\<lparr>af_app := g (af_app f)\<rparr>"

definition on_tracks :: "(Track list \<Rightarrow> Track list) \<Rightarrow> AppState \<Rightarrow> AppState" where
  "on_tracks g s = (case as_mode s of
     LiveMode \<Rightarrow> s\<lparr>as_live_tracks := g (as_live_tracks s)\<rparr>
   | StudioMode \<Rightarrow> s\<lparr>as_studio_tracks := g (as_studio_tracks s)\<rparr>)"

section \<open>Tracks and slots\<close>

definition safe_track_index :: "AppState \<Rightarrow> usize" where
  "safe_track_index s = min (as_selected_track_index s) (sat_sub (vlen (app_tracks s)) 1)"

definition engine_track_index :: "AppState \<Rightarrow> usize option" where
  "engine_track_index s = (let i = safe_track_index s in if 1 \<le> i then Some (i - 1) else None)"

definition app_slot :: "AppState \<Rightarrow> usize \<Rightarrow> usize \<Rightarrow> DspSlot option" where
  "app_slot s track i = Option.bind (nth_opt (app_tracks s) (unat track)) (\<lambda>t. nth_opt (tk_effects t) (unat i))"

definition selected_slot :: "AppState \<Rightarrow> DspSlot option" where
  "selected_slot s = app_slot s (safe_track_index s) (as_selected_slot_index s)"

definition on_effects :: "(DspSlot list \<Rightarrow> DspSlot list) \<Rightarrow> Track \<Rightarrow> Track" where
  "on_effects g t = t\<lparr>tk_effects := g (tk_effects t)\<rparr>"

definition update_at :: "nat \<Rightarrow> ('a \<Rightarrow> 'a) \<Rightarrow> 'a list \<Rightarrow> 'a list" where
  "update_at i g xs = (if i < length xs then xs[i := g (xs ! i)] else xs)"

definition on_track_effects :: "usize \<Rightarrow> (DspSlot list \<Rightarrow> DspSlot list) \<Rightarrow> AppState \<Rightarrow> AppState" where
  "on_track_effects track g = on_tracks (update_at (unat track) (on_effects g))"

definition on_slot :: "usize \<Rightarrow> usize \<Rightarrow> (DspSlot \<Rightarrow> DspSlot) \<Rightarrow> AppState \<Rightarrow> AppState" where
  "on_slot track i g = on_track_effects track (update_at (unat i) g)"

text \<open>The strips of the arranger address three lists of tracks.\<close>

datatype TrackList = LiveList | StudioList | FxList

definition track_list :: "TrackList \<Rightarrow> AppState \<Rightarrow> Track list" where
  "track_list l s = (case l of LiveList \<Rightarrow> as_live_tracks s | StudioList \<Rightarrow> as_studio_tracks s | FxList \<Rightarrow> as_fx_tracks s)"

definition on_track_list :: "TrackList \<Rightarrow> (Track list \<Rightarrow> Track list) \<Rightarrow> AppState \<Rightarrow> AppState" where
  "on_track_list l g s = (case l of
     LiveList \<Rightarrow> s\<lparr>as_live_tracks := g (as_live_tracks s)\<rparr>
   | StudioList \<Rightarrow> s\<lparr>as_studio_tracks := g (as_studio_tracks s)\<rparr>
   | FxList \<Rightarrow> s\<lparr>as_fx_tracks := g (as_fx_tracks s)\<rparr>)"

definition strip_track :: "GuiMode \<Rightarrow> StripTarget \<Rightarrow> TrackList \<times> nat" where
  "strip_track mode t = (case t of
     MasterStrip \<Rightarrow> ((case mode of LiveMode \<Rightarrow> LiveList | StudioMode \<Rightarrow> StudioList), 0)
   | LiveStrip i \<Rightarrow> (LiveList, unat (i + 1))
   | StudioStrip i \<Rightarrow> (StudioList, unat i)
   | FxStrip i \<Rightarrow> (FxList, unat i))"

definition target_effects :: "StripTarget \<Rightarrow> AppState \<Rightarrow> DspSlot list option" where
  "target_effects t s =
     (let (l, i) = strip_track (as_mode s) t in map_option tk_effects (nth_opt (track_list l s) i))"

definition set_target_effects :: "StripTarget \<Rightarrow> DspSlot list \<Rightarrow> AppState \<Rightarrow> AppState" where
  "set_target_effects t es s =
     (let (l, i) = strip_track (as_mode s) t in on_track_list l (update_at i (on_effects (\<lambda>_. es))) s)"

definition track_width :: "StripTarget \<Rightarrow> Frame \<Rightarrow> f32" where
  "track_width t f =
     (let (l, i) = strip_track (as_mode (af_app f)) t
      in case nth_opt (track_list l (af_app f)) i of Some track \<Rightarrow> tk_width track | None \<Rightarrow> af_arranger_track_width f)"

definition set_track_width :: "StripTarget \<Rightarrow> f32 \<Rightarrow> Frame \<Rightarrow> Frame" where
  "set_track_width t width =
     on_app (\<lambda>s. let (l, i) = strip_track (as_mode s) t
       in on_track_list l (update_at i (\<lambda>track. track\<lparr>tk_width := fclamp width MIN_TRACK_WIDTH MAX_TRACK_WIDTH\<rparr>)) s)"

section \<open>Moving a device\<close>

fun mixer_index :: "StripTarget \<Rightarrow> usize" where
  "mixer_index MasterStrip = 0"
| "mixer_index (FxStrip _) = 0"
| "mixer_index (LiveStrip i) = i + 1"
| "mixer_index (StudioStrip i) = i"

fun to_engine_track :: "StripTarget \<Rightarrow> usize option" where
  "to_engine_track (LiveStrip i) = Some i"
| "to_engine_track (StudioStrip i) = (if 1 \<le> i then Some (i - 1) else None)"
| "to_engine_track (FxStrip _) = Some 15"
| "to_engine_track MasterStrip = None"

text \<open>The place a device already has, or the end of its own strip when it is the last one.\<close>

definition move_noop :: "StripTarget \<Rightarrow> usize \<Rightarrow> StripTarget \<Rightarrow> usize \<Rightarrow> usize \<Rightarrow> bool" where
  "move_noop from_target from_slot to_target to_slot len \<longleftrightarrow>
     from_target = to_target \<and> (from_slot = to_slot \<or> to_slot = - 1 \<and> len \<le> from_slot + 1)"

definition move_device :: "StripTarget \<Rightarrow> usize \<Rightarrow> StripTarget \<Rightarrow> usize \<Rightarrow> Frame \<Rightarrow> Frame \<times> GuiCommand list" where
  "move_device from_target from_slot to_target to_slot f =
     (let f = f\<lparr>af_dragging_device := None\<rparr>;
          s = af_app f;
          current_len = (case target_effects from_target s of Some es \<Rightarrow> vlen es | None \<Rightarrow> 0)
      in if move_noop from_target from_slot to_target to_slot current_len then (f, [])
         else case target_effects from_target s of
           None \<Rightarrow> (f, [])
         | Some es \<Rightarrow>
             if vlen es \<le> from_slot then (f, [])
             else let slot = es ! unat from_slot;
                      rest = remove_at (unat from_slot) es;
                      s = set_target_effects from_target rest s
                  in case target_effects to_target s of
                       None \<Rightarrow> (f\<lparr>af_app := (case target_effects from_target s of
                            Some orig \<Rightarrow> set_target_effects from_target (insert_at (unat (min from_slot (vlen orig))) slot orig) s
                          | None \<Rightarrow> s)\<rparr>, [])
                     | Some ds \<Rightarrow>
                         let dest = min to_slot (vlen ds);
                             s = set_target_effects to_target (insert_at (unat dest) slot ds) s;
                             s = (if as_selected_track_index s = mixer_index from_target \<and> as_selected_slot_index s = from_slot
                                  then s\<lparr>as_selected_track_index := mixer_index to_target, as_selected_slot_index := dest\<rparr>
                                  else s)
                         in (f\<lparr>af_app := s\<rparr>,
                             if ds_external slot = None then []
                             else (case (to_engine_track from_target, to_engine_track to_target) of
                                     (Some a, Some b) \<Rightarrow> [MoveExternalPlugin a from_slot b dest]
                                   | _ \<Rightarrow> [])))"

section \<open>Parameters of external plugins\<close>

definition holds_plugin :: "string \<Rightarrow> DspSlot \<Rightarrow> bool" where
  "holds_plugin i slot = (case ds_external slot of Some d \<Rightarrow> pd_id d = i | None \<Rightarrow> False)"

fun update_first_slot :: "(DspSlot \<Rightarrow> bool) \<Rightarrow> (DspSlot \<Rightarrow> DspSlot) \<Rightarrow> Track list \<Rightarrow> Track list" where
  "update_first_slot p g [] = []"
| "update_first_slot p g (t # ts) =
     (if list_ex p (tk_effects t) then on_effects (map_first p g) t # ts else t # update_first_slot p g ts)"

text \<open>The result says whether the thread is started.\<close>

definition request_external_params :: "PluginDescriptor \<Rightarrow> Frame \<Rightarrow> Frame \<times> bool" where
  "request_external_params d f =
     (if pd_id d \<in> af_param_probing f then (f, False)
      else if list_ex (\<lambda>t. list_ex (holds_plugin (pd_id d)) (tk_effects t)) (app_tracks (af_app f))
      then ((on_app (on_tracks (update_first_slot (holds_plugin (pd_id d)) (\<lambda>e. e\<lparr>ds_params_status := Probing\<rparr>))) f)
              \<lparr>af_param_probing := insert (pd_id d) (af_param_probing f)\<rparr>, True)
      else (f, False))"

text \<open>The thread; \<open>loader\<close> and the questions to the instance are foreign.\<close>

definition probe_external_params ::
    "(PluginFormat \<Rightarrow> path \<Rightarrow> string + 'i) \<Rightarrow> ('i \<Rightarrow> bool) \<Rightarrow> ('i \<Rightarrow> (PluginParamInfo \<times> f32) list) \<Rightarrow> ('i \<Rightarrow> bool)
      \<Rightarrow> PluginDescriptor \<Rightarrow> ParamProbeResult" where
  "probe_external_params loader params_supported snapshot gui d =
     (case loader (pd_format d) (pd_path d) of
        Inl message \<Rightarrow> \<lparr> pp_descriptor_id = pd_id d, pp_params = [],
          pp_error = Some (''No se pudo instanciar: '' @ message), pp_has_gui = False \<rparr>
      | Inr inst \<Rightarrow>
          if \<not> params_supported inst
          then \<lparr> pp_descriptor_id = pd_id d, pp_params = [], pp_error = Some (''El plugin no expone par'' @ map char_of [195 :: nat, 161] @ ''metros.''),
                 pp_has_gui = gui inst \<rparr>
          else \<lparr> pp_descriptor_id = pd_id d, pp_params = snapshot inst, pp_error = None, pp_has_gui = gui inst \<rparr>)"

definition receive_probe :: "ParamProbeResult \<Rightarrow> DspSlot \<Rightarrow> DspSlot" where
  "receive_probe r slot =
     (let slot = slot\<lparr>ds_has_gui := Some (pp_has_gui r)\<rparr>
      in case pp_error r of
           Some message \<Rightarrow> slot\<lparr>ds_params_status := ProbeFailed message\<rparr>
         | None \<Rightarrow> slot\<lparr>ds_external_params := map (\<lambda>(info, v). \<lparr> xp_info = info, xp_value = v \<rparr>) (pp_params r),
                       ds_params_status := Ready\<rparr>)"

definition on_plugin_slots :: "string \<Rightarrow> (DspSlot \<Rightarrow> DspSlot) \<Rightarrow> Track list \<Rightarrow> Track list" where
  "on_plugin_slots i g = map (on_effects (map (\<lambda>e. if holds_plugin i e then g e else e)))"

definition drain_param_probes :: "Frame \<Rightarrow> Frame" where
  "drain_param_probes f =
     fold (\<lambda>r f. (on_app (on_tracks (on_plugin_slots (pp_descriptor_id r) (receive_probe r))) f)
              \<lparr>af_param_probing := af_param_probing f - {pp_descriptor_id r}\<rparr>)
       (af_probe_results f) (f\<lparr>af_probe_results := []\<rparr>)"

text \<open>A slot receives the changes of an event; the parameter under the mouse is left alone.\<close>

definition receive_changes :: "(u32 \<Rightarrow> bool) \<Rightarrow> (u32 \<times> f32) list \<Rightarrow> DspSlot \<Rightarrow> bool \<times> DspSlot" where
  "receive_changes held changes slot =
     fold (\<lambda>(i, v) (changed, slot). if held i then (changed, slot)
             else let (shown, slot) = set_external_param i v slot
                  in (changed \<or> shown \<noteq> None, enqueue_external_param i v slot))
       changes (False, slot)"

definition drag_holds :: "ParamDragState option \<Rightarrow> nat \<Rightarrow> nat \<Rightarrow> u32 \<Rightarrow> bool" where
  "drag_holds drag t i param = (case drag of
     None \<Rightarrow> False
   | Some d \<Rightarrow> dr_param_id d = param \<and> unat (dr_track d) = t \<and> unat (dr_slot d) = i)"

definition receive_event ::
    "ParamDragState option \<Rightarrow> ParamFeedbackEvent \<Rightarrow> nat \<Rightarrow> nat \<Rightarrow> DspSlot \<Rightarrow> bool \<times> DspSlot" where
  "receive_event drag ev t i slot =
     (if holds_plugin (fb_descriptor_id ev) slot
      then receive_changes (drag_holds drag t i) (fb_changes ev) slot else (False, slot))"

definition feedback_event :: "ParamDragState option \<Rightarrow> ParamFeedbackEvent \<Rightarrow> Track list \<Rightarrow> bool \<times> Track list" where
  "feedback_event drag ev tracks =
     (let new = map (\<lambda>(t, track). map (\<lambda>(i, slot). receive_event drag ev t i slot) (enumerate 0 (tk_effects track)))
                  (enumerate 0 tracks)
      in (list_ex (list_ex fst) new,
          map (\<lambda>(track, slots). track\<lparr>tk_effects := map snd slots\<rparr>) (zip tracks new)))"

definition apply_param_feedback :: "ParamFeedbackEvent list \<Rightarrow> Frame \<Rightarrow> bool \<times> Frame" where
  "apply_param_feedback events f =
     fold (\<lambda>ev (changed, f).
         let (c, tracks) = feedback_event (af_param_drag f) ev (app_tracks (af_app f))
         in (changed \<or> c, on_app (on_tracks (\<lambda>_. tracks)) f))
       events (False, f)"

definition pending_of_slot :: "usize \<Rightarrow> nat \<Rightarrow> DspSlot \<Rightarrow> GuiCommand list" where
  "pending_of_slot engine_track i slot =
     (if ds_external slot = None then []
      else let params = fst (take_pending_external_params slot)
           in if params = [] then [] else [SyncExternalPluginParams engine_track (word_of_nat i) params])"

definition drained_slot :: "DspSlot \<Rightarrow> DspSlot" where
  "drained_slot slot = (if ds_external slot = None then slot else snd (take_pending_external_params slot))"

text \<open>The first track is the master, which the engine does not have; it keeps what is pending.\<close>

definition flush_pending_external_params :: "Frame \<Rightarrow> Frame \<times> GuiCommand list" where
  "flush_pending_external_params f =
     (on_app (on_tracks (\<lambda>ts. take 1 ts @ map (on_effects (map drained_slot)) (drop 1 ts))) f,
      concat (map (\<lambda>(t, track).
          if t = 0 then []
          else concat (map (\<lambda>(i, slot). pending_of_slot (word_of_nat t - 1) i slot) (enumerate 0 (tk_effects track))))
        (enumerate 0 (app_tracks (af_app f)))))"

section \<open>The device rack\<close>

definition matches_external :: "PluginBrowserFilter \<Rightarrow> PluginFormat \<Rightarrow> bool" where
  "matches_external tab format = (case tab of
     AllPlugins \<Rightarrow> True | NativeOnly \<Rightarrow> False | Vst3Only \<Rightarrow> format = VST3 | ClapOnly \<Rightarrow> format = CLAP)"

definition show_natives :: "PluginBrowserFilter \<Rightarrow> bool" where
  "show_natives tab \<longleftrightarrow> tab = AllPlugins \<or> tab = NativeOnly"

record PluginEntry =
  pe_category :: string
  pe_name :: string
  pe_label :: string

definition PLUGIN_CATALOG :: "PluginEntry list" where
  "PLUGIN_CATALOG =
     [\<lparr> pe_category = ''Efectos'', pe_name = ''OpenEQ3'', pe_label = ''OpenEQ3'' \<rparr>,
      \<lparr> pe_category = ''Efectos'', pe_name = ''OpenSpectral Phaser'', pe_label = ''OpenSpectral Phaser'' \<rparr>,
      \<lparr> pe_category = ''Generadores'', pe_name = ''OpenWavetable'', pe_label = ''Hikaru OpenWavetable'' \<rparr>,
      \<lparr> pe_category = ''Generadores'', pe_name = ''Hikaru OpenDMS'', pe_label = ''Hikaru OpenDMS'' \<rparr>]"

definition contains_text :: "string \<Rightarrow> string \<Rightarrow> bool" where
  "contains_text needle s \<longleftrightarrow> sublist needle s"

text \<open>The two lists of the browser: the built-in devices and the plugins of the last scan.\<close>

definition browser_rows :: "(string \<Rightarrow> string) \<Rightarrow> Frame \<Rightarrow> PluginEntry list \<times> PluginDescriptor list" where
  "browser_rows lower f =
     (let needle = lower (trim (af_browser_query f));
          found = (\<lambda>s. needle = [] \<or> contains_text needle (lower s))
      in (if show_natives (af_browser_filter f) then filter (\<lambda>e. found (pe_label e) \<or> found (pe_name e)) PLUGIN_CATALOG else [],
          filter (\<lambda>d. matches_external (af_browser_filter f) (pd_format d) \<and> (found (pd_name d) \<or> found (pd_vendor d)))
            (pw_discovered (af_plugins f))))"

definition close_browser :: "usize \<Rightarrow> Frame \<Rightarrow> Frame" where
  "close_browser track f =
     (on_app (on_track_effects track (map (\<lambda>e. e\<lparr>ds_menu_open := False\<rparr>))) f)\<lparr>af_add_slot_menu_open := False\<rparr>"

definition select_slot :: "usize \<Rightarrow> Frame \<Rightarrow> Frame" where
  "select_slot i f = (on_app (\<lambda>s. s\<lparr>as_selected_slot_index := i\<rparr>) f)\<lparr>af_add_slot_menu_open := False\<rparr>"

definition assign_plugin :: "usize \<Rightarrow> usize \<Rightarrow> string \<Rightarrow> Frame \<Rightarrow> Frame" where
  "assign_plugin track i name f =
     select_slot i (on_app (on_slot track i (\<lambda>e. e\<lparr>ds_name := name, ds_load_error := None, ds_menu_open := False,
       ds_options_open := False\<rparr>)) f)"

text \<open>
  \<open>clicked\<close> is the state when the click came, \<open>f\<close> the one when the deferred closure runs; the result
  also says whether a probing thread is started.
\<close>

definition assign_external_plugin ::
    "Frame \<Rightarrow> usize \<Rightarrow> usize \<Rightarrow> PluginDescriptor \<Rightarrow> Frame \<Rightarrow> Frame \<times> GuiCommand list \<times> bool" where
  "assign_external_plugin clicked track i d f =
     (let engine = engine_track_index (af_app clicked);
          f = on_app (on_slot track i (\<lambda>e. e\<lparr>ds_name := pd_name d, ds_external := Some d, ds_load_error := None,
                ds_external_params := [], ds_params_status := Idle, ds_menu_open := False, ds_options_open := False\<rparr>)) f;
          (f, probes) = request_external_params d f;
          f = select_slot i f;
          f = (if engine = None
               then on_app (on_slot track i (\<lambda>e. e\<lparr>ds_load_error := Some ''El master no tiene cadena de efectos''\<rparr>)) f
               else f)
      in (f, case engine of None \<Rightarrow> [] | Some t \<Rightarrow> [LoadExternalPlugin t i d], probes))"

definition open_external_editor :: "usize \<Rightarrow> usize \<Rightarrow> Frame \<Rightarrow> Frame" where
  "open_external_editor track i f =
     (case Option.bind (app_slot (af_app f) track i) ds_external of
        None \<Rightarrow> f
      | Some d \<Rightarrow> f\<lparr>af_plugins := open_plugin d
          (case engine_track_index (af_app f) of Some t \<Rightarrow> (t, i) | None \<Rightarrow> (- 1, - 1)) (af_plugins f)\<rparr>)"

definition close_external_editor :: "string \<Rightarrow> Frame \<Rightarrow> Frame" where
  "close_external_editor name f = f\<lparr>af_plugins := close_plugin name (af_plugins f)\<rparr>"

definition keep_plugin_editors_above :: "Frame \<Rightarrow> Frame" where
  "keep_plugin_editors_above f =
     (if any_plugin_open (af_plugins f) then f\<lparr>af_plugins := raise_open_plugins (af_plugins f)\<rparr> else f)"

definition commit_external_param :: "usize \<Rightarrow> usize \<Rightarrow> u32 \<Rightarrow> f32 \<Rightarrow> Frame \<Rightarrow> bool \<times> Frame" where
  "commit_external_param track i param v f =
     (case app_slot (af_app f) track i of
        None \<Rightarrow> (False, f)
      | Some slot \<Rightarrow>
          (case set_external_param param v slot of
             (None, _) \<Rightarrow> (False, f)
           | (Some applied, slot') \<Rightarrow>
               let f = on_app (on_slot track i (\<lambda>_. slot')) f
               in (True,
                   if any_plugin_open (af_plugins f)
                   then (case ds_external slot' of
                           Some d \<Rightarrow> f\<lparr>af_plugins := send_param_to_open_plugin (pd_name d) param applied (af_plugins f)\<rparr>
                         | None \<Rightarrow> f)
                   else f)))"

definition param_drag_begin :: "usize \<Rightarrow> usize \<Rightarrow> u32 \<Rightarrow> f32 \<Rightarrow> f32 \<Rightarrow> Frame \<Rightarrow> Frame" where
  "param_drag_begin track i param x y f =
     (let value = (case Option.bind (app_slot (af_app f) track i)
                          (\<lambda>slot. find (\<lambda>p. pi_id (xp_info p) = param) (ds_external_params slot)) of
                     Some p \<Rightarrow> xp_value p | None \<Rightarrow> Num 0)
      in f\<lparr>af_param_drag := Some (param_drag_new track i param x y value)\<rparr>)"

definition param_drag_move :: "f32 \<Rightarrow> f32 \<Rightarrow> bool \<Rightarrow> Frame \<Rightarrow> Frame" where
  "param_drag_move x y fine f =
     (case af_param_drag f of
        None \<Rightarrow> f
      | Some d \<Rightarrow>
          (case drag_advance x y fine d of
             (None, _) \<Rightarrow> f
           | (Some v, d) \<Rightarrow> snd (commit_external_param (dr_track d) (dr_slot d) (dr_param_id d) v
                                (f\<lparr>af_param_drag := Some d\<rparr>))))"

definition param_drag_end :: "Frame \<Rightarrow> Frame" where
  "param_drag_end f = f\<lparr>af_param_drag := None\<rparr>"

definition menu_slot :: "bool \<Rightarrow> bool \<Rightarrow> DspSlot \<Rightarrow> DspSlot" where
  "menu_slot menu options e = e\<lparr>ds_menu_open := menu, ds_options_open := options\<rparr>"

definition open_plugin_menu :: "usize \<Rightarrow> usize \<Rightarrow> Frame \<Rightarrow> Frame" where
  "open_plugin_menu track i f = select_slot i (on_app (on_track_effects track
     (\<lambda>es. map (\<lambda>(j, e). menu_slot (j = unat i) False e) (enumerate 0 es))) f)"

definition open_options_menu :: "usize \<Rightarrow> usize \<Rightarrow> Frame \<Rightarrow> Frame" where
  "open_options_menu track i f = select_slot i (on_app (on_track_effects track
     (\<lambda>es. map (\<lambda>(j, e). menu_slot False (j = unat i \<and> \<not> ds_options_open e) e) (enumerate 0 es))) f)"

definition cycle_card_menu :: "usize \<Rightarrow> usize \<Rightarrow> Frame \<Rightarrow> Frame" where
  "cycle_card_menu track i f =
     (if (case app_slot (af_app f) track i of Some e \<Rightarrow> ds_options_open e | None \<Rightarrow> False)
      then open_plugin_menu track i f else open_options_menu track i f)"

definition remove_slot_at :: "usize \<Rightarrow> usize \<Rightarrow> Frame \<Rightarrow> Frame" where
  "remove_slot_at track i =
     on_app (\<lambda>s. let s' = on_track_effects track (\<lambda>es. if i < vlen es then remove_at (unat i) es else es) s;
                   new_len = (case nth_opt (app_tracks s') (unat track) of Some t \<Rightarrow> vlen (tk_effects t) | None \<Rightarrow> 0)
               in s'\<lparr>as_selected_slot_index := (if new_len = 0 then 0 else min (as_selected_slot_index s) (new_len - 1))\<rparr>)"

definition remove_selected_slot :: "usize \<Rightarrow> Frame \<Rightarrow> Frame" where
  "remove_selected_slot track =
     on_app (\<lambda>s. case nth_opt (app_tracks s) (unat track) of
         None \<Rightarrow> s
       | Some t \<Rightarrow>
           if as_selected_slot_index s < vlen (tk_effects t)
           then let es = remove_at (unat (as_selected_slot_index s)) (tk_effects t)
                in (on_track_effects track (\<lambda>_. es) s)
                     \<lparr>as_selected_slot_index := (if es = [] then 0 else min (as_selected_slot_index s) (vlen es - 1))\<rparr>
           else s)"

definition handle_delete_key :: "Frame \<Rightarrow> Frame" where
  "handle_delete_key f = remove_selected_slot (safe_track_index (af_app f)) f"

definition add_slot :: "string option \<Rightarrow> usize \<Rightarrow> Frame \<Rightarrow> Frame" where
  "add_slot initial_table track f =
     (case nth_opt (app_tracks (af_app f)) (unat track) of
        None \<Rightarrow> f\<lparr>af_add_slot_menu_open := False\<rparr>
      | Some t \<Rightarrow>
          let new_id = vlen (tk_effects t)
          in select_slot new_id (on_app (on_track_effects track
               (\<lambda>es. es @ [(dsp_slot_new initial_table new_id EMPTY_SLOT_NAME)\<lparr>ds_menu_open := True\<rparr>])) f))"

definition toggle_active :: "usize \<Rightarrow> usize \<Rightarrow> Frame \<Rightarrow> Frame" where
  "toggle_active track i = on_app (on_slot track i (\<lambda>e. e\<lparr>ds_active := \<not> ds_active e\<rparr>))"

section \<open>The transport bar\<close>

definition bpm_typed :: "f64 option \<Rightarrow> Frame \<Rightarrow> Frame \<times> GuiCommand list" where
  "bpm_typed parsed f =
     (case parsed of
        None \<Rightarrow> (f, [])
      | Some v \<Rightarrow>
          if \<not> is_finite v then (f, [])
          else let bpm = fclamp v BPM_MIN BPM_MAX
               in if lt (Num (1 / 2 ^ 52)) (fabs (fsub F64 (tp_bpm (as_transport (af_app f))) bpm))
                  then (on_app (on_transport (\<lambda>t. t\<lparr>tp_bpm := bpm\<rparr>)) f, [SetBpm (to_f32 bpm)])
                  else (f, []))"

definition sig_typed :: "string \<Rightarrow> Frame \<Rightarrow> Frame" where
  "sig_typed text f =
     (case parse_sig text of
        None \<Rightarrow> f
      | Some (num, den) \<Rightarrow> on_app (on_transport (\<lambda>t. t\<lparr>tp_beats_per_bar := num, tp_beat_division := den\<rparr>)) f)"

definition clips_to_sync :: "AppState \<Rightarrow> AudioClipData list" where
  "clips_to_sync s =
     (let t = as_transport s; sr = fmax (tp_sample_rate t) (Num 1);
          secs = (\<lambda>samples. fdiv F32 (of_u64 F32 samples) sr)
      in concat (map (\<lambda>(track, clip). case pc_clip_type clip of
             AudioClip path _ offset _ \<Rightarrow>
               [\<lparr> ac_clip_id = pc_id clip, ac_path = path,
                  ac_start_secs = secs (ticks_to_samples t (pc_start_tick clip)),
                  ac_duration_secs = secs (clip_length_frames t (pc_duration_ticks clip)),
                  ac_offset_secs = secs (ticks_to_samples t offset), ac_track_index = track \<rparr>]
           | _ \<Rightarrow> []) (pl_clips (as_playlist s))))"

definition play_pause :: "Frame \<Rightarrow> Frame \<times> GuiCommand list" where
  "play_pause f =
     (let s = af_app f; t = as_transport s
      in if tp_playback_state t = Playing
         then (on_app (on_transport (\<lambda>t. t\<lparr>tp_playback_state := Paused\<rparr>)) f, [Pause])
         else (on_app (on_transport (\<lambda>t. t\<lparr>tp_playback_state := Playing\<rparr>)) f,
               [StopPreview, SetBpm (to_f32 (tp_bpm t)),
                (case as_mode s of StudioMode \<Rightarrow> SyncPlaylistClips (clips_to_sync s) | LiveMode \<Rightarrow> SetAppMode False),
                Seek (tp_sample_count t), Play]))"

definition stop_button :: "Frame \<Rightarrow> Frame \<times> GuiCommand list" where
  "stop_button f = (on_app (on_transport (\<lambda>t. t\<lparr>tp_playback_state := Stopped, tp_sample_count := 0\<rparr>)) f, [Stop])"

definition record_button :: "Frame \<Rightarrow> Frame" where
  "record_button f = f\<lparr>af_is_recording := \<not> af_is_recording f\<rparr>"

definition loop_button :: "Frame \<Rightarrow> Frame" where
  "loop_button f = f\<lparr>af_is_looping := \<not> af_is_looping f\<rparr>"

definition mode_button :: "GuiMode \<Rightarrow> Frame \<Rightarrow> Frame \<times> GuiCommand list" where
  "mode_button mode f =
     (if as_mode (af_app f) = mode then (f, [])
      else (on_app (\<lambda>s. on_transport (\<lambda>t. t\<lparr>tp_playback_state := Stopped, tp_sample_count := 0\<rparr>) (s\<lparr>as_mode := mode\<rparr>)) f,
            [Stop, SetAppMode (mode = StudioMode)]))"

definition sync_hardware_sample_rate :: "f32 \<Rightarrow> Frame \<Rightarrow> Frame" where
  "sync_hardware_sample_rate sr f =
     (if lt (Num 0) sr then on_app (on_transport (\<lambda>t. t\<lparr>tp_sample_rate := sr\<rparr>)) f else f)"

definition current_bar :: "Frame \<Rightarrow> f32" where
  "current_bar f =
     (let t = as_transport (af_app f); spb = samples_per_bar t
      in if le spb (Num 0) then Num 1
         else to_f32 (fadd F64 (Num 1) (fdiv F64 (of_u64 F64 (tp_sample_count t)) spb)))"

definition current_tick :: "Frame \<Rightarrow> u64" where
  "current_tick f = (let t = as_transport (af_app f) in samples_to_ticks t (tp_sample_count t))"

section \<open>One frame\<close>

definition smooth_peak :: "f32 \<Rightarrow> f32 \<Rightarrow> f32" where
  "smooth_peak previous target =
     (let prev = (if is_finite previous then previous else Num 0);
          tgt = (if is_finite target then fclamp target (Num 0) (Num 1) else Num 0);
          rate = (if lt prev tgt then lit F32 (6 / 10) else lit F32 (12 / 100))
      in fadd F32 prev (fmul F32 (fsub F32 tgt prev) rate))"

text \<open>What the frame reads from outside: the engine's clock and meters, a clock, the size of the roll.\<close>

record FrameInput =
  fi_position :: u64
  fi_master_peak :: f32
  fi_track_peaks :: "f32 list"
  fi_roll_elapsed_secs :: f64
  fi_roll_area :: "f32 \<times> f32"

definition frame_clock :: "FrameInput \<Rightarrow> Frame \<Rightarrow> Frame" where
  "frame_clock inp f =
     (let f = on_app (\<lambda>s. let s = on_transport (\<lambda>t. t\<lparr>tp_sample_count := fi_position inp\<rparr>) s
                      in s\<lparr>as_playlist := (as_playlist s)\<lparr>pl_ppqn := Transport.DEFAULT_PPQN,
                           pl_playhead_tick := samples_to_ticks (as_transport s) (fi_position inp)\<rparr>\<rparr>) f
      in f\<lparr>af_master_peak := smooth_peak (af_master_peak f) (fi_master_peak inp),
           af_track_peaks := map (\<lambda>(i, p). case nth_opt (fi_track_peaks inp) i of
               Some raw \<Rightarrow> smooth_peak p raw | None \<Rightarrow> p) (enumerate 0 (af_track_peaks f))\<rparr>)"

definition frame_tempo :: "Frame \<Rightarrow> Frame \<times> GuiCommand list" where
  "frame_tempo f =
     (let bpm = tp_bpm (as_transport (af_app f))
      in if lt (Num (1 / 2 ^ 52)) (fabs (fsub F64 bpm (af_bpm_synced f)))
         then (f\<lparr>af_bpm_synced := bpm\<rparr>, [SetBpm (to_f32 bpm)]) else (f, []))"

text \<open>While the timeline plays, a loop region that is missing or too short is replaced.\<close>

definition widened_loop :: "PlaylistState \<Rightarrow> u64 \<times> u64" where
  "widened_loop p =
     (let ppqn = max (pl_ppqn p) 1;
          start = pl_loop_start_ticks p;
          end = pl_loop_end_ticks p;
          (start, end) = (if \<not> pl_loop_region_active p \<or> end \<le> start \<or> sat_sub end start < ppqn
                          then (0, max (total_project_ticks p) (sat_mul 4 ppqn)) else (start, end));
          end = (if end \<le> start then sat_add start (sat_mul 4 ppqn) else end);
          end = (if sat_sub end start < ppqn then sat_add start ppqn else end)
      in (start, end))"

definition frame_loop_region :: "Frame \<Rightarrow> Frame" where
  "frame_loop_region f =
     (if tp_playback_state (as_transport (af_app f)) = Playing \<and> af_is_looping f \<and> as_mode (af_app f) \<noteq> LiveMode
      then let (start, end) = widened_loop (as_playlist (af_app f))
           in if start < end
              then on_app (\<lambda>s. s\<lparr>as_playlist := (as_playlist s)\<lparr>pl_loop_start_ticks := start, pl_loop_end_ticks := end,
                     pl_loop_region_active := True, pl_loop_preview_start_ticks := start,
                     pl_loop_preview_end_ticks := end\<rparr>\<rparr>) f
              else f
      else f)"

definition wanted_loop :: "Frame \<Rightarrow> bool \<times> u64 \<times> u64" where
  "wanted_loop f =
     (let p = as_playlist (af_app f); t = as_transport (af_app f); ppqn = max (pl_ppqn p) 1;
          (enabled, start, end) =
            (if af_is_looping f \<and> is_loop_region_valid p
             then let start = pl_loop_start_ticks p; end = pl_loop_end_ticks p;
                      end = (if end \<le> start then sat_add start (sat_mul 4 ppqn) else end);
                      end = (if sat_sub end start < ppqn then sat_add start ppqn else end)
                  in (start < end, start, end)
             else (False, 0, 0))
      in (enabled, ticks_to_samples t start, ticks_to_samples t end))"

definition frame_loop :: "Frame \<Rightarrow> Frame \<times> GuiCommand list" where
  "frame_loop f =
     (let (enabled, start, end) = wanted_loop f
      in if as_global_loop_synced (af_app f) = Some (enabled, start, end) then (f, [])
         else (on_app (\<lambda>s. (on_transport (\<lambda>t. set_loop_enabled (set_loop_region_samples t start end) enabled) s)
                  \<lparr>as_global_loop_synced := Some (enabled, start, end)\<rparr>) f,
               [SetGlobalLoop start end enabled]))"

definition frame_preview :: "Frame \<Rightarrow> Frame" where
  "frame_preview f =
     (if tp_playback_state (as_transport (af_app f)) = Playing \<and> af_previewing f
      then f\<lparr>af_previewing := False, af_preview_position := Num 0\<rparr> else f)"

definition frame_roll ::
    "(DspSlot \<Rightarrow> OpenDms option) \<Rightarrow> (f32 \<Rightarrow> f32) \<Rightarrow> FrameInput \<Rightarrow> Frame \<Rightarrow> Frame \<times> GuiCommand list" where
  "frame_roll dms pow2 inp f =
     (let s = af_app f; t = as_transport s;
          preview = preview_drum_pad dms pow2 (app_tracks s) (as_selected_track_index s);
          ticks_per_second = fdiv F64 (fmul F64 (tp_bpm t) (of_u64 F64 Transport.DEFAULT_PPQN)) (Num 60);
          ((m, roll), cmds) = roll_frame preview (af_show_piano_roll f) (tp_playback_state t = Playing)
             (samples_to_ticks t (tp_sample_count t)) (to_word (fmul F64 (fi_roll_elapsed_secs inp) ticks_per_second))
             (fi_roll_area inp) (as_matrix s) (af_roll f)
      in ((on_app (\<lambda>s. s\<lparr>as_matrix := m\<rparr>) f)\<lparr>af_roll := roll\<rparr>, cmds))"

definition frame_plugins :: "Frame \<Rightarrow> Frame \<times> GuiCommand list" where
  "frame_plugins f =
     (let f = f\<lparr>af_plugins := poll_updates (af_plugins f)\<rparr>;
          f = drain_param_probes f;
          (events, panel) = take_param_feedback (af_plugins f);
          (_, f) = apply_param_feedback events (f\<lparr>af_plugins := panel\<rparr>)
      in flush_pending_external_params f)"

definition sync_frame ::
    "(DspSlot \<Rightarrow> OpenDms option) \<Rightarrow> (f32 \<Rightarrow> f32) \<Rightarrow> FrameInput \<Rightarrow> Frame \<Rightarrow> Frame \<times> GuiCommand list" where
  "sync_frame dms pow2 inp f =
     (let (f, params) = frame_plugins f;
          (f, tempo) = frame_tempo (frame_clock inp f);
          (f, loop) = frame_loop (frame_loop_region (frame_preview f));
          (f, notes) = frame_roll dms pow2 inp f
      in (f, params @ tempo @ loop @ notes))"

end
