(* ===== verification/ProjectText.thy ===== *)
theory ProjectText
  imports ProjectState
begin

text \<open>
  What serde_json makes of a document: text, integers and structure are read back as they were written; a
  finite float is read back as some float, since the crates do not ask for exact parsing (the feature
  \<open>float_roundtrip\<close> is off); an infinity or NaN is printed as null, which is no float.  So the printed form of
  a document of finite floats reads as the document with its floats passed through two functions, one for
  each width, of which nothing is assumed.
\<close>

section \<open>A document with its floats changed\<close>

definition floats_send :: "(f32 \<Rightarrow> f32) \<Rightarrow> FileSend \<Rightarrow> FileSend" where
  "floats_send g s = s\<lparr>fn_amount := g (fn_amount s)\<rparr>"

definition floats_track :: "(f32 \<Rightarrow> f32) \<Rightarrow> FileTrack \<Rightarrow> FileTrack" where
  "floats_track g t = t\<lparr>ft_volume := g (ft_volume t), ft_pan := g (ft_pan t), ft_sends := map (floats_send g) (ft_sends t)\<rparr>"

definition floats_row :: "(f32 \<Rightarrow> f32) \<Rightarrow> FileRow \<Rightarrow> FileRow" where
  "floats_row g r = r\<lparr>fr_volume := g (fr_volume r), fr_pan := g (fr_pan r)\<rparr>"

definition floats_event :: "(f32 \<Rightarrow> f32) \<Rightarrow> (f64 \<Rightarrow> f64) \<Rightarrow> FileEvent \<Rightarrow> FileEvent" where
  "floats_event g k e = e\<lparr>fe_start_secs := k (fe_start_secs e), fe_gain := g (fe_gain e),
     fe_fade_in_secs := k (fe_fade_in_secs e), fe_fade_out_secs := k (fe_fade_out_secs e)\<rparr>"

definition floats_clip :: "(f32 \<Rightarrow> f32) \<Rightarrow> (f64 \<Rightarrow> f64) \<Rightarrow> FileClip \<Rightarrow> FileClip" where
  "floats_clip g k c = c\<lparr>fc_volume := g (fc_volume c), fc_pan := g (fc_pan c),
     fc_events := map (floats_event g k) (fc_events c)\<rparr>"

definition floats_matrix :: "(f32 \<Rightarrow> f32) \<Rightarrow> (f64 \<Rightarrow> f64) \<Rightarrow> FileMatrix \<Rightarrow> FileMatrix" where
  "floats_matrix g k m = m\<lparr>mt_tracks := map (floats_row g) (mt_tracks m),
     mt_grid := map (map (map_option (floats_clip g k))) (mt_grid m)\<rparr>"

definition floats_live :: "(f32 \<Rightarrow> f32) \<Rightarrow> (f64 \<Rightarrow> f64) \<Rightarrow> OpenLiveProject \<Rightarrow> OpenLiveProject" where
  "floats_live g k p = p\<lparr>ol_transport := (ol_transport p)\<lparr>lt_bpm := k (lt_bpm (ol_transport p))\<rparr>,
     ol_dsp_global := (ol_dsp_global p)\<lparr>dg_master_volume := g (dg_master_volume (ol_dsp_global p)),
       dg_master_pan := g (dg_master_pan (ol_dsp_global p))\<rparr>,
     ol_live_tracks := map (floats_track g) (ol_live_tracks p), ol_matrix := floats_matrix g k (ol_matrix p)\<rparr>"

definition floats_color :: "(f32 \<Rightarrow> f32) \<Rightarrow> FileColor \<Rightarrow> FileColor" where
  "floats_color g c = \<lparr> fl_h = g (fl_h c), fl_s = g (fl_s c), fl_l = g (fl_l c), fl_a = g (fl_a c) \<rparr>"

definition floats_point :: "(f32 \<Rightarrow> f32) \<Rightarrow> FilePoint \<Rightarrow> FilePoint" where
  "floats_point g q = q\<lparr>fp_value := g (fp_value q), fp_tension := g (fp_tension q)\<rparr>"

fun floats_kind :: "(f32 \<Rightarrow> f32) \<Rightarrow> ClipKind \<Rightarrow> ClipKind" where
  "floats_kind g (FilePattern i) = FilePattern i"
| "floats_kind g (FileAudio p a b) = FileAudio p a b"
| "floats_kind g (FileAutomation qs target) = FileAutomation (map (floats_point g) qs) target"

definition floats_placed :: "(f32 \<Rightarrow> f32) \<Rightarrow> PlaylistClipSaved \<Rightarrow> PlaylistClipSaved" where
  "floats_placed g c = c\<lparr>fx_color := floats_color g (fx_color c), fx_kind := floats_kind g (fx_kind c)\<rparr>"

definition floats_playlist :: "(f32 \<Rightarrow> f32) \<Rightarrow> FilePlaylist \<Rightarrow> FilePlaylist" where
  "floats_playlist g y = y\<lparr>fy_clips := map (\<lambda>(t, c). (t, floats_placed g c)) (fy_clips y)\<rparr>"

definition floats_studio :: "(f32 \<Rightarrow> f32) \<Rightarrow> (f64 \<Rightarrow> f64) \<Rightarrow> OpenStudioProject \<Rightarrow> OpenStudioProject" where
  "floats_studio g k p = p\<lparr>ou_transport := (ou_transport p)\<lparr>ut_bpm := k (ut_bpm (ou_transport p))\<rparr>,
     ou_studio_tracks := map (floats_track g) (ou_studio_tracks p), ou_playlist := floats_playlist g (ou_playlist p)\<rparr>"

lemma floats_id:
  "floats_send id = id" "floats_track id = id" "floats_row id = id" "floats_event id id = id" "floats_clip id id = id"
  "floats_matrix id id = id" "floats_live id id = id" "floats_color id = id" "floats_point id = id" "floats_kind id = id"
  "floats_placed id = id" "floats_playlist id = id" "floats_studio id id = id"
proof -
  show send: "floats_send id = id" and row: "floats_row id = id" and event: "floats_event id id = id"
    and color: "floats_color id = id" and point: "floats_point id = id"
    by (rule ext; simp add: floats_send_def floats_row_def floats_event_def floats_color_def floats_point_def)+
  show track: "floats_track id = id" by (rule ext) (simp add: floats_track_def send)
  show clip: "floats_clip id id = id" by (rule ext) (simp add: floats_clip_def event)
  show matrix: "floats_matrix id id = id" by (rule ext) (simp add: floats_matrix_def row clip option.map_id0)
  show "floats_live id id = id" by (rule ext) (simp add: floats_live_def track matrix)
  show kind: "floats_kind id = id"
  proof
    show "floats_kind id x = id x" for x by (cases x) (simp_all add: point)
  qed
  show placed: "floats_placed id = id" by (rule ext) (simp add: floats_placed_def color kind)
  show playlist: "floats_playlist id = id" by (rule ext) (simp add: floats_playlist_def placed)
  show "floats_studio id id = id" by (rule ext) (simp add: floats_studio_def track playlist)
qed

section \<open>serde_json\<close>

text \<open>A document is finite when replacing its infinities and NaNs changes nothing.\<close>

definition zero_bad :: "fp \<Rightarrow> fp" where
  "zero_bad x = (if is_finite x then x else Num 0)"

definition finite_live :: "OpenLiveProject \<Rightarrow> bool" where
  "finite_live p \<longleftrightarrow> floats_live zero_bad zero_bad p = p"

definition finite_studio :: "OpenStudioProject \<Rightarrow> bool" where
  "finite_studio p \<longleftrightarrow> floats_studio zero_bad zero_bad p = p"

definition serde_ok :: "(f32 \<Rightarrow> f32) \<Rightarrow> (f64 \<Rightarrow> f64) \<Rightarrow> codec \<Rightarrow> bool" where
  "serde_ok g k co \<longleftrightarrow>
     (\<forall>p text. finite_live p \<longrightarrow> co_print_live co p = Some text \<longrightarrow>
        co_probe co text = Some (Some (ol_format_version p)) \<and> co_body_live co text = Some (floats_live g k p))
   \<and> (\<forall>p text. finite_studio p \<longrightarrow> co_print_studio co p = Some text \<longrightarrow>
        co_probe co text = Some (Some (ou_format_version p)) \<and> co_body_studio co text = Some (floats_studio g k p))"

lemma write_then_parse:
  assumes "write_json print can p v d = (Inr q, d')"
    and "\<And>text. print v = Some text \<Longrightarrow> probe text = Some (Some FORMAT_VERSION) \<and> body text = Some w"
  shows "q = p \<and> parse_with_probe probe body q d' = Inr w"
  using assms by (auto simp: write_json_def parse_with_probe_def split: option.splits if_splits)

definition name_ok :: "path \<Rightarrow> bool" where
  "name_ok p \<longleftrightarrow> p \<noteq> [] \<and> last p \<noteq> ''..'' \<and> last p \<noteq> []"

text \<open>The project a save writes: what is captured, with the title of the file.\<close>

definition titled_studio :: "host \<Rightarrow> AppState \<Rightarrow> path \<Rightarrow> OpenStudioProject" where
  "titled_studio h s q = (let p = capture_studio h s in p\<lparr>ou_metadata := (ou_metadata p)\<lparr>md_title := title_from_path q\<rparr>\<rparr>)"

definition titled_live :: "host \<Rightarrow> AppState \<Rightarrow> path \<Rightarrow> OpenLiveProject" where
  "titled_live h s q = (let p = capture_live h s in p\<lparr>ol_metadata := (ol_metadata p)\<lparr>md_title := title_from_path q\<rparr>\<rparr>)"

lemma titled_floats:
  "floats_live g k (p\<lparr>ol_metadata := m\<rparr>) = (floats_live g k p)\<lparr>ol_metadata := m\<rparr>"
  "floats_studio g k (u\<lparr>ou_metadata := m'\<rparr>) = (floats_studio g k u)\<lparr>ou_metadata := m'\<rparr>"
  by (simp_all add: floats_live_def floats_studio_def)

lemma finite_titled:
  "finite_live (capture_live h s) \<Longrightarrow> finite_live (titled_live h s q)"
  "finite_studio (capture_studio h s) \<Longrightarrow> finite_studio (titled_studio h s q)"
  by (simp_all add: finite_live_def finite_studio_def titled_live_def titled_studio_def Let_def titled_floats)

lemma save_then_load:
  assumes serde: "serde_ok g k co" and p: "name_ok p" and saved: "save h co s p d = (Inr q, d')"
    and finite: "case as_mode s of LiveMode \<Rightarrow> finite_live (capture_live h s) | StudioMode \<Rightarrow> finite_studio (capture_studio h s)"
  shows "load h co q d' s0 = Inr (case as_mode s of
      LiveMode \<Rightarrow> apply_live h (floats_live g k (titled_live h s q)) (path_parent q) s0
    | StudioMode \<Rightarrow> apply_studio h (floats_studio g k (titled_studio h s q)) (path_parent q) s0)"
proof -
  have p': "p \<noteq> []" "last p \<noteq> ''..''" "last p \<noteq> []" using p by (simp_all add: name_ok_def)
  let ?q = "retarget_extension p (as_mode s)"
  have ext: "format_of ?q = Some (as_mode s)" "with_extension ?q e = ?q" for e
    using format_of_retarget [OF p'] with_extension_retarget [OF p'] by simp_all
  show ?thesis
  proof (cases "as_mode s")
    case LiveMode
    have w: "write_json (co_print_live co) (co_can_write co) ?q (titled_live h s ?q) d = (Inr q, d')"
      using saved ext(2) by (simp add: save_def save_live_def LiveMode titled_live_def Let_def)
    have v: "ol_format_version (titled_live h s ?q) = FORMAT_VERSION"
      by (simp add: titled_live_def capture_live_def Let_def)
    have "finite_live (titled_live h s ?q)" using finite finite_titled(1) by (simp add: LiveMode)
    then have "q = ?q \<and> parse_with_probe (co_probe co) (co_body_live co) q d' = Inr (floats_live g k (titled_live h s ?q))"
      by (intro write_then_parse [OF w]) (use serde v in \<open>simp add: serde_ok_def\<close>)
    then show ?thesis using ext(1) by (elim conjE) (simp add: load_def LiveMode)
  next
    case StudioMode
    have w: "write_json (co_print_studio co) (co_can_write co) ?q (titled_studio h s ?q) d = (Inr q, d')"
      using saved ext(2) by (simp add: save_def save_studio_def StudioMode titled_studio_def Let_def)
    have v: "ou_format_version (titled_studio h s ?q) = FORMAT_VERSION"
      by (simp add: titled_studio_def capture_studio_def Let_def)
    have "finite_studio (titled_studio h s ?q)" using finite finite_titled(2) by (simp add: StudioMode)
    then have "q = ?q \<and> parse_with_probe (co_probe co) (co_body_studio co) q d' = Inr (floats_studio g k (titled_studio h s ?q))"
      by (intro write_then_parse [OF w]) (use serde v in \<open>simp add: serde_ok_def\<close>)
    then show ?thesis using ext(1) by (elim conjE) (simp add: load_def StudioMode)
  qed
qed

lemma apply_titled:
  "apply_studio h (floats_studio g k (titled_studio h s q)) base s0 = apply_studio h (floats_studio g k (capture_studio h s)) base s0"
  "apply_live h (floats_live g k (titled_live h s q)) base s0 = apply_live h (floats_live g k (capture_live h s)) base s0"
  by (simp_all add: titled_studio_def titled_live_def Let_def titled_floats) (simp_all add: apply_studio_def apply_live_def Let_def)

end
