(* ===== verification/ProjectLink.thy ===== *)
theory ProjectLink
  imports ProjectText SessionLink
begin

text \<open>
  What saving and opening a timeline keep.  First what a document opens as: a document is captured again
  as it was, but for the wavetables, which are not opened.  Then through a file.
\<close>

section \<open>Channels\<close>

text \<open>Opening a slot forgets its wavetable; the plugin of a slot is at a proper path.\<close>

definition reopened_slot :: "host \<Rightarrow> FileSlot \<Rightarrow> FileSlot" where
  "reopened_slot h e = e\<lparr>fs_wavetable_path := ho_initial_table h\<rparr>"

definition reopened_track :: "host \<Rightarrow> FileTrack \<Rightarrow> FileTrack" where
  "reopened_track h t = t\<lparr>ft_effects := map (reopened_slot h) (ft_effects t)\<rparr>"

definition slot_saveable :: "DspSlot \<Rightarrow> bool" where
  "slot_saveable e \<longleftrightarrow> (case ds_external e of Some d \<Rightarrow> path_ok (pd_path d) \<and> pd_path d \<noteq> [] | None \<Rightarrow> True)"

definition track_saveable :: "Track \<Rightarrow> bool" where
  "track_saveable t \<longleftrightarrow> list_all slot_saveable (tk_effects t)"

lemma show_path_Nil [simp]: "show_path p = [] \<longleftrightarrow> p = []"
  by (cases p) (simp_all add: show_path_def)

lemma capture_build_slot:
  assumes "slot_saveable e"
  shows "capture_slot (build_slot h (capture_slot e)) = reopened_slot h (capture_slot e)"
  using assms
  by (cases "ds_external e"; cases "pd_format (the (ds_external e))")
    (simp_all add: slot_saveable_def reopened_slot_def capture_slot_def build_slot_def dsp_slot_new_def file_descriptor_def
      resolve_show_path)

lemma build_track_fields:
  "tk_volume (build_track h t) = ft_volume t" "tk_pan (build_track h t) = ft_pan t" "tk_name (build_track h t) = ft_name t"
  "tk_mute (build_track h t) = ft_mute t" "tk_solo (build_track h t) = ft_solo t" "tk_is_master (build_track h t) = ft_is_master t"
  "tk_matrix_idx (build_track h t) = ft_matrix_idx t"
  by (simp_all add: build_track_def track_new_def)

lemma capture_build_track:
  assumes "track_saveable t"
  shows "capture_track (build_track h (floats_track g (capture_track t))) = reopened_track h (floats_track g (capture_track t))"
proof -
  have "map (capture_slot \<circ> (build_slot h \<circ> capture_slot)) (tk_effects t) = map (reopened_slot h \<circ> capture_slot) (tk_effects t)"
    using assms by (auto simp: track_saveable_def list_all_iff capture_build_slot)
  then show ?thesis
    by (cases "tk_pan_mode t")
      (simp_all add: capture_track_def build_track_def track_new_def reopened_track_def floats_track_def floats_send_def comp_def)
qed

lemma capture_tracks:
  assumes "list_all track_saveable ts" "ts \<noteq> []"
  shows "map capture_track (tracks_or_default h (map (\<lambda>t. floats_track g (capture_track t)) ts) fallback)
    = map (\<lambda>t. reopened_track h (floats_track g (capture_track t))) ts"
  using assms by (simp add: tracks_or_default_def Let_def list_all_iff capture_build_track)

section \<open>The timeline\<close>

definition clip_saveable :: "PlaylistClip \<Rightarrow> bool" where
  "clip_saveable c \<longleftrightarrow> 0 < pc_duration_ticks c
     \<and> (case pc_clip_type c of
          AudioClip p _ _ len \<Rightarrow> 0 < len \<and> (\<exists>q. path_ok q \<and> q \<noteq> [] \<and> p = show_path q)
        | _ \<Rightarrow> True)"

lemma max_word_one [simp]: "0 < n \<Longrightarrow> max n 1 = n" for n :: "'a::len word"
  by (metis max.absorb1 word_gt_0 word_less_1 not_less)

lemma capture_build_playlist_clip:
  assumes "clip_saveable c"
  shows "capture_playlist_clip (build_playlist_clip h base ppqn bpm (floats_placed g (capture_playlist_clip c)))
    = floats_placed g (capture_playlist_clip c)"
  using assms
  by (cases "pc_clip_type c"; cases "pc_color c")
    (auto simp: clip_saveable_def capture_playlist_clip_def build_playlist_clip_def resolve_show_path
      floats_placed_def floats_color_def floats_point_def color_to_gpui_def comp_def split_beta Let_def)

definition transport_saveable :: "TransportPosition \<Rightarrow> bool" where
  "transport_saveable t \<longleftrightarrow> 0 < tp_beats_per_bar t \<and> 0 < tp_beat_division t"

definition studio_saveable :: "AppState \<Rightarrow> bool" where
  "studio_saveable s \<longleftrightarrow> transport_saveable (as_transport s)
     \<and> as_studio_tracks s \<noteq> [] \<and> list_all track_saveable (as_studio_tracks s)
     \<and> 0 < pl_ppqn (as_playlist s) \<and> 0 < pl_next_clip_id (as_playlist s)
     \<and> list_all (\<lambda>(t, c). t < vlen (as_studio_tracks s) \<and> clip_saveable c) (pl_clips (as_playlist s))"

text \<open>
  What a file keeps of the shared part of the state: the tempo as it is read back and within the limits, the
  metre, the panels, and the loop, which goes through ticks and the tempo of either side.
\<close>

definition reopened_setting :: "(f64 \<Rightarrow> f64) \<Rightarrow> AppState \<Rightarrow> AppState \<Rightarrow> bool" where
  "reopened_setting k s' s \<longleftrightarrow>
     (let t' = as_transport s'; t = as_transport s
      in tp_bpm t' = fclamp (k (tp_bpm t)) BPM_MIN BPM_MAX
       \<and> tp_beats_per_bar t' = tp_beats_per_bar t \<and> tp_beat_division t' = tp_beat_division t
       \<and> tp_loop_enabled t' = tp_loop_enabled t
       \<and> tp_loop_start_samples t' = ticks_to_samples t' (samples_to_ticks t (tp_loop_start_samples t))
       \<and> tp_loop_end_samples t' = ticks_to_samples t' (samples_to_ticks t (tp_loop_end_samples t))
       \<and> as_show_dsp_rack s' = as_show_dsp_rack s \<and> as_show_explorer s' = as_show_explorer s)"

text \<open>
  The clips a timeline opens with: those on the tracks of the mode the interface is in before it opens the
  file, although it changes the mode.
\<close>

lemma studio_clips_opened:
  "pl_clips (as_playlist (fst (apply_studio h p base s)))
     = map (\<lambda>(t, c). (t, build_playlist_clip h base (max (fy_ppqn (ou_playlist p)) 1)
             (fclamp (ut_bpm (ou_transport p)) BPM_MIN BPM_MAX) c))
         (filter (\<lambda>(t, c). t < (case as_mode s of
              LiveMode \<Rightarrow> vlen (as_live_tracks s)
            | StudioMode \<Rightarrow> vlen (tracks_or_default h (ou_studio_tracks p) default_studio_tracks)))
           (fy_clips (ou_playlist p)))"
  by (cases "as_mode s") (simp_all add: apply_studio_def apply_loop_def apply_playlist_def on_transport_def
      clamp_selected_track_def app_tracks_def Let_def)

lemma length_tracks_or_default: "ts \<noteq> [] \<Longrightarrow> vlen (tracks_or_default h ts fb) = vlen ts"
  by (simp add: tracks_or_default_def vlen_def)

lemma ticks_through_loop [simp]:
  "ticks_to_samples (t\<lparr>tp_loop_enabled := on, tp_loop_start_samples := a, tp_loop_end_samples := b\<rparr>) = ticks_to_samples t"
  by (rule ext) (simp add: ticks_to_samples_def seconds_per_tick_def Let_def)

lemma apply_studio_fields:
  fixes h p base s
  defines "s' \<equiv> fst (apply_studio h p base s)"
  shows "as_mode s' = StudioMode"
    "as_studio_tracks s' = tracks_or_default h (ou_studio_tracks p) default_studio_tracks"
    "as_openstudio_view s' = (if ui_view (ou_ui p) = 1 then ArrangerMixer else Playlist)"
    "as_live_tracks s' = as_live_tracks s" "as_matrix s' = as_matrix s" "as_fx_tracks s' = as_fx_tracks s"
    "pl_ppqn (as_playlist s') = max (fy_ppqn (ou_playlist p)) 1"
    "pl_next_clip_id (as_playlist s') = max (fy_next_clip_id (ou_playlist p)) 1"
    "pl_loop_start_ticks (as_playlist s') = fy_loop_start_ticks (ou_playlist p)"
    "pl_loop_end_ticks (as_playlist s') = fy_loop_end_ticks (ou_playlist p)"
    "pl_loop_region_active (as_playlist s') = fy_loop_region_active (ou_playlist p)"
    "tp_bpm (as_transport s') = fclamp (ut_bpm (ou_transport p)) BPM_MIN BPM_MAX"
    "tp_beats_per_bar (as_transport s') = max (ut_beats_per_bar (ou_transport p)) 1"
    "tp_beat_division (as_transport s') = max (ut_beat_division (ou_transport p)) 1"
    "tp_loop_enabled (as_transport s') = ut_loop_enabled (ou_transport p)"
    "tp_loop_start_samples (as_transport s') = ticks_to_samples (as_transport s') (ut_loop_start_ticks (ou_transport p))"
    "tp_loop_end_samples (as_transport s') = ticks_to_samples (as_transport s') (ut_loop_end_ticks (ou_transport p))"
    "as_show_dsp_rack s' = ui_show_dsp_rack (ou_ui p)" "as_show_explorer s' = ui_show_explorer (ou_ui p)"
  by (simp_all add: s'_def apply_studio_def apply_loop_def apply_playlist_def on_transport_def
      clamp_selected_track_def Let_def)

lemma capture_studio_sel:
  "ou_playlist (floats_studio g k (capture_studio h s)) = floats_playlist g (capture_playlist (as_playlist s))"
  "ou_studio_tracks (floats_studio g k (capture_studio h s)) = map (\<lambda>t. floats_track g (capture_track t)) (as_studio_tracks s)"
  "ut_bpm (ou_transport (floats_studio g k (capture_studio h s))) = k (tp_bpm (as_transport s))"
  "ut_beats_per_bar (ou_transport (floats_studio g k (capture_studio h s))) = tp_beats_per_bar (as_transport s)"
  "ut_beat_division (ou_transport (floats_studio g k (capture_studio h s))) = tp_beat_division (as_transport s)"
  "ut_loop_enabled (ou_transport (floats_studio g k (capture_studio h s))) = tp_loop_enabled (as_transport s)"
  "ut_loop_start_ticks (ou_transport (floats_studio g k (capture_studio h s))) = samples_to_ticks (as_transport s) (tp_loop_start_samples (as_transport s))"
  "ut_loop_end_ticks (ou_transport (floats_studio g k (capture_studio h s))) = samples_to_ticks (as_transport s) (tp_loop_end_samples (as_transport s))"
  "ui_view (ou_ui (floats_studio g k (capture_studio h s))) = (case as_openstudio_view s of Playlist \<Rightarrow> 0 | ArrangerMixer \<Rightarrow> 1)"
  "ui_show_dsp_rack (ou_ui (floats_studio g k (capture_studio h s))) = as_show_dsp_rack s"
  "ui_show_explorer (ou_ui (floats_studio g k (capture_studio h s))) = as_show_explorer s"
  by (simp_all add: floats_studio_def capture_studio_def Let_def comp_def)

text \<open>The clips of a document that are on a track of a filter come back as the document has them.\<close>

lemma opened_clips_captured:
  assumes "\<forall>(t, c) \<in> set cs. clip_saveable c"
  shows "map (\<lambda>(t, c). (t, capture_playlist_clip c)) (map (\<lambda>(t, c). (t, build_playlist_clip h base n b c))
      (filter (\<lambda>(t, c). P t) (map (\<lambda>(t, c). (t, floats_placed g c)) (map (\<lambda>(t, c). (t, capture_playlist_clip c)) cs))))
    = filter (\<lambda>(t, c). P t) (map (\<lambda>(t, c). (t, floats_placed g c)) (map (\<lambda>(t, c). (t, capture_playlist_clip c)) cs))"
  using assms by (induction cs) (auto simp: capture_build_playlist_clip)

lemma studio_playlist_kept:
  assumes ok: "studio_saveable s" and mode: "as_mode s0 = StudioMode"
  shows "capture_playlist (as_playlist (fst (apply_studio h (floats_studio g k (capture_studio h s)) base s0)))
    = floats_playlist g (capture_playlist (as_playlist s))"
proof -
  let ?p = "floats_studio g k (capture_studio h s)"
  let ?s' = "fst (apply_studio h ?p base s0)"
  have all: "t < vlen (as_studio_tracks s) \<and> clip_saveable c" if "(t, c) \<in> set (pl_clips (as_playlist s))" for t c
    using ok that by (auto simp: studio_saveable_def list_all_iff)
  have len: "vlen (tracks_or_default h (ou_studio_tracks ?p) default_studio_tracks) = vlen (as_studio_tracks s)"
    using ok unfolding capture_studio_sel by (subst length_tracks_or_default) (simp_all add: studio_saveable_def vlen_def)
  have clips: "fy_clips (ou_playlist ?p) = map (\<lambda>(t, c). (t, floats_placed g c)) (map (\<lambda>(t, c). (t, capture_playlist_clip c)) (pl_clips (as_playlist s)))"
    by (simp add: capture_studio_sel floats_playlist_def capture_playlist_def)
  have keep: "filter (\<lambda>(t, c). t < vlen (as_studio_tracks s)) (fy_clips (ou_playlist ?p)) = fy_clips (ou_playlist ?p)"
    using all unfolding clips by (intro filter_True) auto
  have "map (\<lambda>(t, c). (t, capture_playlist_clip c)) (pl_clips (as_playlist ?s')) = fy_clips (ou_playlist ?p)"
    unfolding studio_clips_opened mode GuiMode.case len
    using opened_clips_captured [of "pl_clips (as_playlist s)" h base _ _ "\<lambda>t. t < vlen (as_studio_tracks s)" g] all keep
    unfolding clips by fastforce
  then show ?thesis
    using ok by (simp add: capture_playlist_def apply_studio_fields capture_studio_sel floats_playlist_def studio_saveable_def)
qed

section \<open>Through a file\<close>

text \<open>
  C29. A timeline saved with File > Save and opened again with the interface in OpenStudio mode is the same
  timeline.  Supposed are: the floats of the document are finite; clips have a duration and audio clips a
  length and a proper path; plugins are at proper paths; there is a channel, every clip is on one, and
  resolution, metre and the next identifier are not 0.  Then clips, channels, metre, panels and loop come
  back as the document has them, with every float as serde reads it back (\<open>g\<close>, \<open>k\<close>), the tempo within its limits,
  the loop through its ticks, and the wavetables of the slots gone.  The session is not touched.
\<close>

theorem studio_project_roundtrip:
  assumes "serde_ok g k co" "name_ok p" "studio_saveable s" "finite_studio (capture_studio h s)"
    and mode: "as_mode s = StudioMode" "as_mode s0 = StudioMode"
    and saved: "save h co s p d = (Inr q, d')"
  shows "\<exists>s' cmds. load h co q d' s0 = Inr (s', cmds)
     \<and> as_mode s' = StudioMode \<and> as_openstudio_view s' = as_openstudio_view s \<and> reopened_setting k s' s
     \<and> capture_playlist (as_playlist s') = floats_playlist g (capture_playlist (as_playlist s))
     \<and> map capture_track (as_studio_tracks s') = map (\<lambda>t. reopened_track h (floats_track g (capture_track t))) (as_studio_tracks s)
     \<and> as_live_tracks s' = as_live_tracks s0 \<and> as_matrix s' = as_matrix s0"
proof -
  let ?r = "apply_studio h (floats_studio g k (capture_studio h s)) (path_parent q) s0"
  have load: "load h co q d' s0 = Inr (fst ?r, snd ?r)"
    using save_then_load [OF assms(1,2) saved, of s0] assms(4) mode by (simp add: apply_titled)
  have t: "transport_saveable (as_transport s)" and tracks: "list_all track_saveable (as_studio_tracks s)" "as_studio_tracks s \<noteq> []"
    using assms(3) by (simp_all add: studio_saveable_def)
  have "reopened_setting k (fst ?r) s"
    using t by (simp add: reopened_setting_def apply_studio_fields capture_studio_sel Let_def transport_saveable_def)
  moreover have "as_openstudio_view (fst ?r) = as_openstudio_view s"
    by (cases "as_openstudio_view s") (simp_all add: apply_studio_fields capture_studio_sel)
  moreover have "map capture_track (as_studio_tracks (fst ?r)) = map (\<lambda>t. reopened_track h (floats_track g (capture_track t))) (as_studio_tracks s)"
    using capture_tracks [OF tracks] by (simp add: apply_studio_fields capture_studio_sel)
  ultimately show ?thesis
    using studio_playlist_kept [OF assms(3) mode(2)]
    by (intro exI [of _ "fst ?r"] exI [of _ "snd ?r"] conjI load) (simp_all add: apply_studio_fields)
qed

end
