(* ===== verification/LiveLink.thy ===== *)
theory LiveLink
  imports ProjectLink
begin

text \<open>
  What saving and opening a session keep: the document of each pad, of the mixer and of the whole session
  after it is opened, and then the way through a file.
\<close>

section \<open>Pads\<close>

text \<open>
  What the document of a pad is after it is opened: the events whose files can be read; for an audio pad
  without such an event its own sample, whole, as one event at 0; and no events for a MIDI pad, which is one
  with notes or with the path of a MIDI file.
\<close>

definition readable :: "host \<Rightarrow> string \<Rightarrow> bool" where
  "readable h p \<longleftrightarrow> decode_audio_file (ho_wav h (components p)) \<noteq> None"

definition whole_sample :: "host \<Rightarrow> FileClip \<Rightarrow> FileEvent list" where
  "whole_sample h c = (case decode_audio_file (ho_wav h (components (fc_path c))) of
     None \<Rightarrow> []
   | Some (xs, channels, sr) \<Rightarrow> [\<lparr> fe_id = max (next_event_id (fc_events c)) 1, fe_name = stem_name (components (fc_path c)),
       fe_source_path = fc_path c, fe_start_secs = Num 0, fe_trim_left_frames = 0,
       fe_visible_frames = vlen xs div max channels 1, fe_gain = Num 1, fe_fade_in_secs = Num 0, fe_fade_out_secs = Num 0 \<rparr>])"

definition reopened_clip :: "host \<Rightarrow> FileClip \<Rightarrow> FileClip" where
  "reopened_clip h c =
     (let events = filter (readable h \<circ> fe_source_path) (fc_events c)
      in c\<lparr>fc_events := (if fc_midi_notes c \<noteq> [] \<or> is_midi_file (ho_lower h) (components (fc_path c)) then []
           else if events \<noteq> [] then events else whole_sample h c)\<rparr>)"

definition file_path_ok :: "string \<Rightarrow> bool" where
  "file_path_ok p \<longleftrightarrow> (\<exists>q. path_ok q \<and> q \<noteq> [] \<and> p = show_path q)"

definition clip_paths_ok :: "FileClip \<Rightarrow> bool" where
  "clip_paths_ok c \<longleftrightarrow> file_path_ok (fc_path c) \<and> list_all (file_path_ok \<circ> fe_source_path) (fc_events c)"

lemma file_path_okE:
  assumes "file_path_ok p"
  shows "resolve_path cwd base p = components p" "show_path (components p) = p"
  using assms by (auto simp: file_path_ok_def resolve_show_path components_show_path)

lemma build_event_captured:
  assumes "file_path_ok (fe_source_path f)"
  shows "case build_event h base f of None \<Rightarrow> \<not> readable h (fe_source_path f)
    | Some e \<Rightarrow> readable h (fe_source_path f) \<and> capture_event e = Some f"
  using file_path_okE [OF assms]
  by (simp add: build_event_def readable_def Let_def capture_event_def new_full_def split: option.split)

lemma build_events_captured:
  assumes "list_all (file_path_ok \<circ> fe_source_path) fs"
  shows "List.map_filter capture_event (List.map_filter (build_event h base) fs) = filter (readable h \<circ> fe_source_path) fs
    \<and> (List.map_filter (build_event h base) fs = [] \<longleftrightarrow> filter (readable h \<circ> fe_source_path) fs = [])"
  using assms
proof (induction fs)
  case (Cons f fs)
  then show ?case
    using build_event_captured [of f h base] by (auto simp: List.map_filter_simps split: option.splits)
qed (simp add: List.map_filter_simps)

lemma capture_refresh [simp]: "capture_clip (refresh_preview c) = capture_clip c"
  by (cases "xc_content c") (simp_all add: capture_clip_def refresh_preview_def Let_def)

lemma capture_peaks [simp]: "capture_clip (c\<lparr>xc_peaks := ps\<rparr>) = capture_clip c"
  by (simp add: capture_clip_def)

lemma base_event_midi: "xc_content c = Midi notes \<Longrightarrow> base_event h c = c"
  by (auto simp: base_event_def audio_events_def alloc_event_id_def set_audio_events_def Let_def split: option.splits)

lemma base_event_audio: "xc_content c = Audio es n mix sr \<Longrightarrow> es \<noteq> [] \<Longrightarrow> base_event h c = c"
  by (simp add: base_event_def audio_events_def)

lemma base_event_fresh:
  assumes "xc_content c = Audio [] (next_event_id (fc_events f)) mix sr" "show_path (xc_path c) = fc_path f"
    "components (fc_path f) = xc_path c"
  shows "capture_clip (base_event h c) = (capture_clip c)\<lparr>fc_events := whole_sample h f\<rparr>"
  using assms
  by (auto simp: base_event_def audio_events_def alloc_event_id_def set_audio_events_def capture_clip_def whole_sample_def
      Let_def List.map_filter_simps capture_event_def new_full_def split: option.split)

lemma capture_build_clip:
  assumes "clip_paths_ok c"
  shows "capture_clip (build_clip h base c) = reopened_clip h c"
proof -
  let ?p = "components (fc_path c)" and ?es = "List.map_filter (build_event h base) (fc_events c)"
  have p: "resolve_path (ho_cwd h) base (fc_path c) = ?p" "show_path ?p = fc_path c"
    using assms file_path_okE by (simp_all add: clip_paths_ok_def)
  have es: "List.map_filter capture_event ?es = filter (readable h \<circ> fe_source_path) (fc_events c)"
    "?es = [] \<longleftrightarrow> filter (readable h \<circ> fe_source_path) (fc_events c) = []"
    using assms build_events_captured [of "fc_events c" h base] by (simp_all add: clip_paths_ok_def)
  show ?thesis
  proof (cases "fc_midi_notes c \<noteq> [] \<or> is_midi_file (ho_lower h) ?p")
    case True
    have ids: "map (\<lambda>n. \<lparr> fo_start_tick = fo_start_tick n, fo_note = fo_note n, fo_velocity = fo_velocity n,
      fo_duration_ticks = fo_duration_ticks n \<rparr>) ns = ns" for ns :: "FileNote list" by (rule map_idI) simp
    have kept: "capture_clip x = c\<lparr>fc_events := []\<rparr>"
      if "xc_content x = Midi (map (\<lambda>n. (fo_start_tick n, fo_note n, fo_velocity n, fo_duration_ticks n)) (fc_midi_notes c))"
        "xc_id x = fc_id c" "xc_name x = fc_name c" "xc_path x = ?p" "xc_loop_start x = fc_loop_start c"
        "xc_loop_end x = fc_loop_end c" "xc_loop_enabled x = fc_loop_enabled c" "tk_volume (xc_local_track x) = fc_volume c"
        "tk_pan (xc_local_track x) = fc_pan c" "tk_mute (xc_local_track x) = fc_mute c" for x
      by (rule FileClip.equality) (use that in \<open>simp_all add: capture_clip_def p comp_def ids\<close>)
    show ?thesis using True
      by (simp add: build_clip_def Let_def p set_audio_events_def base_event_midi reopened_clip_def kept)
  next
    case audio: False
    show ?thesis
    proof (cases "?es = []")
      case True
      then show ?thesis using audio es
        by (simp add: build_clip_def Let_def p set_audio_events_def reopened_clip_def base_event_fresh [where f = c])
          (simp add: capture_clip_def p List.map_filter_simps)
    next
      case False
      then show ?thesis using audio es
        by (simp add: build_clip_def Let_def p set_audio_events_def base_event_audio reopened_clip_def)
          (simp add: capture_clip_def p)
    qed
  qed
qed

text \<open>The pads of a state whose documents have proper paths.\<close>

definition pad_saveable :: "MatrixClip \<Rightarrow> bool" where
  "pad_saveable c \<longleftrightarrow> clip_paths_ok (capture_clip c)"

lemma floats_clip_paths: "clip_paths_ok (floats_clip g k c) = clip_paths_ok c"
  by (simp add: clip_paths_ok_def floats_clip_def floats_event_def list.pred_map comp_def)

section \<open>The mixer\<close>

text \<open>Mixer and session show the same: the master, then one channel per row with its values.\<close>

definition row_agrees :: "nat \<Rightarrow> TrackMeta \<Rightarrow> Track \<Rightarrow> bool" where
  "row_agrees i m t \<longleftrightarrow> tk_name t = tm_name m \<and> tk_matrix_idx t = Some (word_of_nat i) \<and> tk_volume t = tm_volume m
     \<and> tk_pan t = tm_pan m \<and> tk_mute t = tm_muted m \<and> tk_solo t = tm_soloed m"

definition mixer_agrees :: "TrackMeta list \<Rightarrow> Track list \<Rightarrow> bool" where
  "mixer_agrees metas ts \<longleftrightarrow> (\<exists>m rows. ts = m # rows \<and> tk_is_master m \<and> tk_matrix_idx m = None
     \<and> length rows = length metas \<and> (\<forall>i < length metas. row_agrees i (metas ! i) (rows ! i)))"

lemma sync_float_same: "\<exists>sent. sync_float x o1 x o1 = (x, x, sent)"
  by (cases "lt F32_EPSILON (fabs (fsub F32 x o1))") (auto simp: sync_float_def Let_def)

lemma sync_bool_agree: "\<exists>sent. sync_bool x o1 x o1 = (x, x, sent)"
  by (cases "x = o1") (auto simp: sync_bool_def Let_def)

lemma sync_row_same:
  assumes "row_agrees i m t"
  shows "fst (sync_row i None None m t) = m" "fst (snd (sync_row i None None m t)) = t"
proof -
  obtain a where a: "sync_float (tm_volume m) (Num (3 / 4)) (tm_volume m) (Num (3 / 4)) = (tm_volume m, tm_volume m, a)"
    using sync_float_same by blast
  obtain b where b: "sync_float (tm_pan m) (Num 0) (tm_pan m) (Num 0) = (tm_pan m, tm_pan m, b)"
    using sync_float_same by blast
  obtain c where c: "sync_bool (tm_muted m) False (tm_muted m) False = (tm_muted m, tm_muted m, c)"
    using sync_bool_agree by blast
  obtain d where d: "sync_bool (tm_soloed m) False (tm_soloed m) False = (tm_soloed m, tm_soloed m, d)"
    using sync_bool_agree by blast
  have t: "tk_volume t = tm_volume m" "tk_pan t = tm_pan m" "tk_mute t = tm_muted m" "tk_solo t = tm_soloed m"
    "tk_name t = tm_name m" "tk_matrix_idx t = Some (word_of_nat i)"
    using assms by (simp_all add: row_agrees_def)
  have "t\<lparr>tk_name := tm_name m, tk_matrix_idx := Some (word_of_nat i), tk_volume := tm_volume m, tk_pan := tm_pan m,
      tk_mute := tm_muted m, tk_solo := tm_soloed m\<rparr> = t"
    using t by (cases t) simp
  then show "fst (sync_row i None None m t) = m" "fst (snd (sync_row i None None m t)) = t"
    using t a b c d by (simp_all add: sync_row_def Let_def)
qed

lemma sync_agreeing:
  assumes "mixer_agrees metas ts"
  shows "\<exists>cmds. sync_matrix_mixer_bidirectional ts metas [] [] = (ts, metas, cmds)"
proof -
  obtain m rows where ts: "ts = m # rows" and m: "tk_is_master m" "tk_matrix_idx m = None"
    and len: "length rows = length metas" and rows: "\<forall>i < length metas. row_agrees i (metas ! i) (rows ! i)"
    using assms by (auto simp: mixer_agrees_def)
  have "m\<lparr>tk_matrix_idx := None\<rparr> = m" using m(2) by (cases m) simp
  then have fit: "fit_tracks ts metas = ts" using m len by (simp add: fit_tracks_def ts Let_def)
  have none: "nth_opt ([] :: 'x list) i = None" for i by (simp add: nth_opt_def)
  let ?r = "\<lambda>i. sync_row i None None (metas ! i) (rows ! i)"
  have a: "map (\<lambda>i. fst (?r i)) [0..<length metas] = metas"
    by (rule nth_equalityI) (use rows in \<open>simp_all add: sync_row_same\<close>)
  have b: "map (\<lambda>i. fst (snd (?r i))) [0..<length metas] = rows"
    by (rule nth_equalityI) (use rows len in \<open>simp_all add: sync_row_same\<close>)
  show ?thesis
    using a b fit by (simp add: sync_matrix_mixer_bidirectional_def Let_def ts none comp_def)
qed

lemma build_row_agrees:
  "row_agrees i m t \<Longrightarrow> row_agrees i (build_meta (floats_row g (capture_row m))) (build_track h (floats_track g (capture_track t)))"
  by (simp add: row_agrees_def build_track_fields floats_track_def floats_row_def build_meta_def capture_row_def capture_track_def)

lemma build_mixer_agrees:
  assumes "mixer_agrees metas ts"
  shows "mixer_agrees (map (\<lambda>m. build_meta (floats_row g (capture_row m))) metas)
    (map (\<lambda>t. build_track h (floats_track g (capture_track t))) ts)"
proof -
  obtain m rows where "ts = m # rows" "tk_is_master m" "tk_matrix_idx m = None"
    "length rows = length metas" "\<forall>i < length metas. row_agrees i (metas ! i) (rows ! i)"
    using assms by (auto simp: mixer_agrees_def)
  then show ?thesis unfolding mixer_agrees_def
    by (intro exI [of _ "build_track h (floats_track g (capture_track m))"]
        exI [of _ "map (\<lambda>t. build_track h (floats_track g (capture_track t))) rows"])
      (simp add: build_row_agrees build_track_fields, simp add: floats_track_def capture_track_def)
qed

lemma capture_build_meta: "capture_row (build_meta r) = r"
  by (simp add: build_meta_def capture_row_def)

section \<open>The grid\<close>

definition rectangular :: "FileMatrix \<Rightarrow> bool" where
  "rectangular m \<longleftrightarrow> length (mt_grid m) = length (mt_tracks m)
     \<and> list_all (\<lambda>row. length row = length (mt_scenes m)) (mt_grid m)"

lemma opened_grid_shape:
  assumes "rectangular m" "mt_scenes m \<noteq> []"
  shows "opened_grid h base m = map (map (build_pad h base)) (mt_grid m)"
proof (cases "mt_grid m")
  case Nil
  then show ?thesis using assms by (simp add: opened_grid_def rectangular_def)
next
  case (Cons first rest)
  then have "mt_tracks m \<noteq> []" using assms(1) by (auto simp: rectangular_def)
  then show ?thesis using assms Cons by (simp add: opened_grid_def rectangular_def)
qed

definition reopened_matrix :: "host \<Rightarrow> FileMatrix \<Rightarrow> FileMatrix" where
  "reopened_matrix h m = m\<lparr>mt_grid := map (map (map_option (reopened_clip h))) (mt_grid m)\<rparr>"

section \<open>Through a file\<close>

definition live_saveable :: "AppState \<Rightarrow> bool" where
  "live_saveable s \<longleftrightarrow> transport_saveable (as_transport s) \<and> grid_ok (as_matrix s)
     \<and> 0 < sm_next_clip_id (as_matrix s)
     \<and> (\<forall>row \<in> set (sm_grid (as_matrix s)). \<forall>slot \<in> set row. \<forall>c. sl_clip slot = Some c \<longrightarrow> pad_saveable c)
     \<and> list_all track_saveable (as_live_tracks s)
     \<and> mixer_agrees (sm_tracks (as_matrix s)) (as_live_tracks s)"

text \<open>The steps of opening a session, with the intermediate states named.\<close>

definition opened_mixer :: "host \<Rightarrow> OpenLiveProject \<Rightarrow> Track list" where
  "opened_mixer h p = map_first tk_is_master (\<lambda>m. m\<lparr>tk_volume := dg_master_volume (ol_dsp_global p),
     tk_pan := dg_master_pan (ol_dsp_global p)\<rparr>) (tracks_or_default h (ol_live_tracks p) default_live_tracks)"

lemma apply_live_fields:
  fixes h p base s
  defines "s' \<equiv> fst (apply_live h p base s)"
  assumes sync: "sync_matrix_mixer_bidirectional (opened_mixer h p) (map build_meta (mt_tracks (ol_matrix p))) [] []
      = (live, metas, mix)"
  shows "as_mode s' = LiveMode" "as_live_tracks s' = live" "sm_tracks (as_matrix s') = metas"
    "sm_scenes (as_matrix s') = mt_scenes (ol_matrix p)" "sm_grid (as_matrix s') = opened_grid h base (ol_matrix p)"
    "sm_next_clip_id (as_matrix s') = max (mt_next_clip_id (ol_matrix p)) 1"
    "as_openlive_view s' = (if ui_view (ol_ui p) = 1 then ArrangerView else SessionMatrix)"
    "as_studio_tracks s' = as_studio_tracks s" "as_playlist s' = as_playlist s" "as_fx_tracks s' = as_fx_tracks s"
    "tp_bpm (as_transport s') = fclamp (lt_bpm (ol_transport p)) BPM_MIN BPM_MAX"
    "tp_beats_per_bar (as_transport s') = max (fst (lt_time_signature (ol_transport p))) 1"
    "tp_beat_division (as_transport s') = quantization_denominator (ol_transport p)"
    "tp_loop_enabled (as_transport s') = lt_loop_enabled (ol_transport p)"
    "tp_loop_start_samples (as_transport s') = ticks_to_samples (as_transport s') (lt_loop_start_ticks (ol_transport p))"
    "tp_loop_end_samples (as_transport s') = ticks_to_samples (as_transport s') (lt_loop_end_ticks (ol_transport p))"
    "as_show_dsp_rack s' = ui_show_dsp_rack (ol_ui p)" "as_show_explorer s' = ui_show_explorer (ol_ui p)"
  using sync by (simp_all add: s'_def apply_live_def apply_loop_def apply_matrix_def on_transport_def
      clamp_selected_track_def session_default_def opened_mixer_def [symmetric] Let_def)

text \<open>The document of a state as serde reads it back.\<close>

lemma capture_live_sel:
  fixes g k h s
  defines "p \<equiv> floats_live g k (capture_live h s)"
  shows "ol_matrix p = floats_matrix g k (capture_matrix (as_matrix s))"
    "ol_live_tracks p = map (\<lambda>t. floats_track g (capture_track t)) (as_live_tracks s)"
    "lt_bpm (ol_transport p) = k (tp_bpm (as_transport s))"
    "lt_time_signature (ol_transport p) = (tp_beats_per_bar (as_transport s), 4)"
    "lt_launch_quantization (ol_transport p) = ''1/'' @ show_nat (unat (tp_beat_division (as_transport s)))"
    "lt_loop_enabled (ol_transport p) = tp_loop_enabled (as_transport s)"
    "lt_loop_start_ticks (ol_transport p) = samples_to_ticks (as_transport s) (tp_loop_start_samples (as_transport s))"
    "lt_loop_end_ticks (ol_transport p) = samples_to_ticks (as_transport s) (tp_loop_end_samples (as_transport s))"
    "ui_view (ol_ui p) = (case as_openlive_view s of SessionMatrix \<Rightarrow> 0 | ArrangerView \<Rightarrow> 1)"
    "ui_show_dsp_rack (ol_ui p) = as_show_dsp_rack s" "ui_show_explorer (ol_ui p) = as_show_explorer s"
  by (simp_all add: p_def floats_live_def capture_live_def Let_def comp_def del: show_nat.simps)

lemma opened_mixer_captured:
  assumes "mixer_agrees metas (as_live_tracks s)"
  shows "opened_mixer h (floats_live g k (capture_live h s))
    = map (\<lambda>t. build_track h (floats_track g (capture_track t))) (as_live_tracks s)"
proof -
  obtain m rows where ts: "as_live_tracks s = m # rows" "tk_is_master m"
    using assms by (auto simp: mixer_agrees_def)
  then have dg: "dg_master_volume (ol_dsp_global (floats_live g k (capture_live h s))) = g (tk_volume m)"
    "dg_master_pan (ol_dsp_global (floats_live g k (capture_live h s))) = g (tk_pan m)"
    by (simp_all add: floats_live_def capture_live_def capture_dsp_global_def capture_track_def Let_def)
  let ?m = "build_track h (floats_track g (capture_track m))"
  have f: "tk_is_master ?m" "tk_volume ?m = g (tk_volume m)" "tk_pan ?m = g (tk_pan m)"
    using ts(2) by (simp_all add: build_track_fields) (simp_all add: floats_track_def capture_track_def)
  then have "?m\<lparr>tk_volume := g (tk_volume m), tk_pan := g (tk_pan m)\<rparr> = ?m" by (cases ?m) simp
  then show ?thesis unfolding opened_mixer_def dg capture_live_sel using ts f by (simp add: tracks_or_default_def comp_def)
qed

lemma opened_grid_captured:
  assumes "live_saveable s"
  shows "map (map (\<lambda>slot. map_option capture_clip (sl_clip slot)))
      (opened_grid h base (floats_matrix g k (capture_matrix (as_matrix s))))
    = mt_grid (reopened_matrix h (floats_matrix g k (capture_matrix (as_matrix s))))"
proof -
  let ?m = "floats_matrix g k (capture_matrix (as_matrix s))"
  have "rectangular ?m" "mt_scenes ?m \<noteq> []"
    using assms by (auto simp: live_saveable_def grid_ok_def rectangular_def floats_matrix_def capture_matrix_def list_all_iff)
  note shape = opened_grid_shape [OF this]
  have pads: "map_option capture_clip (sl_clip (build_pad h base x)) = map_option (reopened_clip h) x"
    if pad: "row \<in> set (mt_grid ?m)" "x \<in> set row" for row x
  proof (cases x)
    case (Some c)
    obtain row' slot where "row' \<in> set (sm_grid (as_matrix s))" "slot \<in> set row'"
      and x: "x = map_option (floats_clip g k) (map_option capture_clip (sl_clip slot))"
      using pad by (auto simp: floats_matrix_def capture_matrix_def)
    then have "clip_paths_ok c"
      using assms Some
      by (cases "sl_clip slot") (auto simp: live_saveable_def pad_saveable_def floats_clip_paths)
    then show ?thesis by (simp add: Some build_pad_def capture_build_clip)
  qed (simp add: build_pad_def)
  show ?thesis using pads by (simp add: shape reopened_matrix_def)
qed

text \<open>
  C28. A session saved with File > Save and opened again, in whatever mode the interface is by then, is the
  same session.  Supposed are: the floats of the document are finite; pads, events and plugins have proper
  paths; metre and the next identifier are not 0; the grid has a scene and is rectangular; the mixer shows
  what the rows show, as it does after each frame.  Then rows, scenes, pads, channels, metre, panels and
  loop come back as the document has them, with every float as serde reads it back (\<open>g\<close>, \<open>k\<close>), the tempo
  within its limits and the loop through its ticks, the wavetables of the slots gone, the events whose file
  cannot be read gone, and an audio pad without events playing its sample as one.  The timeline is not
  touched.
\<close>

theorem session_project_roundtrip:
  assumes "serde_ok g k co" "name_ok p" "live_saveable s" "finite_live (capture_live h s)" "as_mode s = LiveMode"
    and saved: "save h co s p d = (Inr q, d')"
  shows "\<exists>s' cmds. load h co q d' s0 = Inr (s', cmds)
     \<and> as_mode s' = LiveMode \<and> as_openlive_view s' = as_openlive_view s \<and> reopened_setting k s' s
     \<and> capture_matrix (as_matrix s') = reopened_matrix h (floats_matrix g k (capture_matrix (as_matrix s)))
     \<and> map capture_track (as_live_tracks s') = map (\<lambda>t. reopened_track h (floats_track g (capture_track t))) (as_live_tracks s)
     \<and> mixer_agrees (sm_tracks (as_matrix s')) (as_live_tracks s')
     \<and> as_studio_tracks s' = as_studio_tracks s0 \<and> as_playlist s' = as_playlist s0"
proof -
  let ?p = "floats_live g k (capture_live h s)"
  let ?ts = "map (\<lambda>t. build_track h (floats_track g (capture_track t))) (as_live_tracks s)"
  let ?metas = "map (\<lambda>m. build_meta (floats_row g (capture_row m))) (sm_tracks (as_matrix s))"
  let ?r = "apply_live h ?p (path_parent q) s0"
  have load: "load h co q d' s0 = Inr (fst ?r, snd ?r)"
    using save_then_load [OF assms(1,2) saved, of s0] assms(4,5) by (simp add: apply_titled)
  have ok: "transport_saveable (as_transport s)" "mixer_agrees (sm_tracks (as_matrix s)) (as_live_tracks s)"
    "list_all track_saveable (as_live_tracks s)" "0 < sm_next_clip_id (as_matrix s)"
    using assms(3) by (simp_all add: live_saveable_def)
  have metas: "map build_meta (mt_tracks (ol_matrix ?p)) = ?metas"
    by (simp add: capture_live_sel floats_matrix_def capture_matrix_def comp_def)
  have agree: "mixer_agrees ?metas ?ts" by (rule build_mixer_agrees [OF ok(2)])
  obtain mix where "sync_matrix_mixer_bidirectional (opened_mixer h ?p) (map build_meta (mt_tracks (ol_matrix ?p))) [] []
      = (?ts, ?metas, mix)"
    using sync_agreeing [OF agree] unfolding opened_mixer_captured [OF ok(2)] metas by blast
  note fields = apply_live_fields [OF this, of "path_parent q" s0]
  have "quantization_denominator (ol_transport ?p) = max (tp_beat_division (as_transport s)) 1"
    by (rule quantization_denominator_shown) (rule capture_live_sel)
  then have "reopened_setting k (fst ?r) s"
    using ok(1) by (simp add: reopened_setting_def fields capture_live_sel transport_saveable_def Let_def del: show_nat.simps)
  moreover have "as_openlive_view (fst ?r) = as_openlive_view s"
    by (cases "as_openlive_view s") (simp_all add: fields capture_live_sel del: show_nat.simps)
  moreover have "capture_matrix (as_matrix (fst ?r)) = reopened_matrix h (floats_matrix g k (capture_matrix (as_matrix s)))"
    using opened_grid_captured [OF assms(3), of h "path_parent q" g k] ok(4)
    unfolding capture_matrix_def [of "as_matrix (fst ?r)"] fields capture_live_sel
    by (simp add: capture_build_meta comp_def reopened_matrix_def)
      (simp add: floats_matrix_def capture_matrix_def)
  moreover have "map capture_track (as_live_tracks (fst ?r)) = map (\<lambda>t. reopened_track h (floats_track g (capture_track t))) (as_live_tracks s)"
    using ok(3) by (simp add: fields list_all_iff capture_build_track)
  ultimately show ?thesis using agree
    by (intro exI [of _ "fst ?r"] exI [of _ "snd ?r"] conjI load) (simp_all add: fields)
qed

end
