(* ===== verification/ProjectFaults.thy ===== *)
theory ProjectFaults
  imports LiveLink
begin

text \<open>
  Examples for the round trips of the project files, and the engine after a project is opened: what it is
  told, and what it is not.
\<close>

section \<open>Examples\<close>

definition demo_host :: host where
  "demo_host = \<lparr> ho_wav = (\<lambda>_. None), ho_peaks = (\<lambda>_ _. []), ho_sample_info = (\<lambda>_ _ _. (0, [])), ho_lower = id,
     ho_initial_table = None, ho_cwd = [''tmp''], ho_version = ''2'' \<rparr>"

definition demo_row :: TrackMeta where
  "demo_row = \<lparr> tm_name = ''Drums'', tm_muted = True, tm_soloed = False, tm_volume = Num (1 / 2), tm_pan = Num 0 \<rparr>"

definition demo_channels :: "Track list" where
  "demo_channels = [track_new 0 ''MASTER'' True, (row_track [demo_row] 0)]"

definition demo_notes :: MatrixSlot where
  "demo_notes = \<lparr> sl_state = SlotPlaying, sl_clip = Some ((fresh_clip 1 [''loops'', ''beat.mid''] True (Num 0, 0) [] (Num 1))
     \<lparr>xc_content := Midi [(0, 36, 100, 240)]\<rparr>) \<rparr>"

definition demo_line :: "(usize \<times> PlaylistClip) list" where
  "demo_line = [(1, \<lparr> pc_id = 1, pc_name = ''kick'', pc_start_tick = 960, pc_duration_ticks = 480,
     pc_clip_type = AudioClip (show_path [''s'', ''kick.wav'']) [] 0 480, pc_color = (Num 0, Num 0, Num 0, Num 1) \<rparr>)]"

definition demo_app :: "GuiMode \<Rightarrow> Track list \<Rightarrow> AppState" where
  "demo_app mode live = \<lparr> as_mode = mode, as_transport = transport_new (Num 48000) (Num 120),
     as_global_loop_synced = None, as_show_dsp_rack = True, as_show_explorer = False,
     as_openlive_view = ArrangerView, as_openstudio_view = Playlist,
     as_playlist = playlist_default\<lparr>pl_clips := demo_line\<rparr>,
     as_matrix = (session_default [demo_row] [''A''])\<lparr>sm_grid := [[demo_notes]]\<rparr>,
     as_clipboard = clipboard_new, as_dragged_sample = None, as_live_tracks = live,
     as_studio_tracks = demo_channels, as_fx_tracks = [], as_selected_track_index = 0, as_selected_slot_index = 0,
     as_project_path = None, as_project_dirty = True \<rparr>"

text \<open>A printer that can print one project of each format.\<close>

definition demo_codec :: "OpenLiveProject \<Rightarrow> OpenStudioProject \<Rightarrow> codec" where
  "demo_codec l u = \<lparr> co_print_live = (\<lambda>p. if p = l then Some ''l'' else None),
     co_print_studio = (\<lambda>p. if p = u then Some ''u'' else None), co_probe = (\<lambda>_. Some (Some 1)),
     co_body_live = (\<lambda>_. Some l), co_body_studio = (\<lambda>_. Some u), co_can_write = (\<lambda>_. True) \<rparr>"

lemma demo_serde:
  "serde_ok id id (demo_codec (titled_live h s q) (titled_studio h' s' q'))"
  by (simp add: serde_ok_def demo_codec_def floats_id titled_live_def titled_studio_def capture_live_def capture_studio_def
      FORMAT_VERSION_def Let_def del: show_nat.simps)

lemma zero_bad_simps [simp]: "zero_bad (Num x) = Num x" "zero_bad NegZero = NegZero"
  by (simp_all add: zero_bad_def)

lemma demo_studio_saveable: "studio_saveable (demo_app m live)"
proof -
  have "path_ok [''s'', ''kick.wav'']" by (simp add: path_ok_def)
  then have "clip_saveable (snd (hd demo_line))" by (auto simp: clip_saveable_def demo_line_def)
  then show ?thesis
    by (simp add: studio_saveable_def demo_app_def transport_saveable_def transport_new_def demo_channels_def
        track_saveable_def track_new_def row_track_def Let_def playlist_default_def GuiPlaylist.DEFAULT_PPQN_def
        demo_line_def vlen_def)
qed

lemma demo_channels_finite: "map (floats_track zero_bad \<circ> capture_track) demo_channels = map capture_track demo_channels"
  by (simp add: demo_channels_def demo_row_def row_track_def track_new_def capture_track_def floats_track_def Let_def)

lemma demo_studio_finite: "finite_studio (capture_studio demo_host (demo_app m live))"
proof -
  have "floats_playlist zero_bad (capture_playlist (playlist_default\<lparr>pl_clips := demo_line\<rparr>))
      = capture_playlist (playlist_default\<lparr>pl_clips := demo_line\<rparr>)"
    by (simp add: capture_playlist_def floats_playlist_def demo_line_def capture_playlist_clip_def floats_placed_def
        floats_color_def)
  moreover have "zero_bad (tp_bpm (transport_new (Num 48000) (Num 120))) = tp_bpm (transport_new (Num 48000) (Num 120))"
    by (simp add: transport_new_def)
  ultimately show ?thesis
    using demo_channels_finite by (simp add: finite_studio_def floats_studio_def capture_studio_def demo_app_def Let_def)
qed

text \<open>A session with a pad of notes and a pad that was just loaded: no events yet.\<close>

definition demo_wav :: WavFile where
  "demo_wav = \<lparr> wv_channels = 1, wv_sample_rate = 48000, wv_bits = 32, wv_duration = 2,
     wv_data = FloatData [Some (Num 1), Some (Num (1 / 2))] \<rparr>"

definition wav_host :: host where
  "wav_host = demo_host\<lparr>ho_wav := (\<lambda>p. if p = [''s'', ''kick.wav''] then Some demo_wav else None)\<rparr>"

definition fresh_pad :: MatrixClip where
  "fresh_pad = fresh_clip 2 [''s'', ''kick.wav''] False (Num 1, 960) [] (Num 1)"

definition saved_session :: "GuiMode \<Rightarrow> AppState" where
  "saved_session m = (demo_app m demo_channels)\<lparr>as_matrix := (session_default [demo_row] [''A'', ''B''])
     \<lparr>sm_grid := [[demo_notes, \<lparr> sl_state = SlotStopped, sl_clip = Some fresh_pad \<rparr>]]\<rparr>\<rparr>"

lemma demo_paths: "path_ok [''loops'', ''beat.mid'']" "path_ok [''s'', ''kick.wav'']"
  by (simp_all add: path_ok_def)

lemma demo_pad_saveable: "pad_saveable (the (sl_clip demo_notes))" "pad_saveable fresh_pad"
  using demo_paths
  by (auto simp: pad_saveable_def clip_paths_ok_def file_path_ok_def capture_clip_def demo_notes_def fresh_pad_def
      fresh_clip_def List.map_filter_simps)

lemma demo_live_saveable: "live_saveable (demo_app m demo_channels)" "live_saveable (saved_session m)"
  using demo_pad_saveable
  by (simp_all add: live_saveable_def saved_session_def demo_app_def transport_saveable_def transport_new_def grid_ok_def
      session_default_def demo_channels_def track_saveable_def track_new_def row_track_def Let_def
      mixer_agrees_def row_agrees_def demo_notes_def)

lemma demo_live_finite: "finite_live (capture_live demo_host (saved_session m))" "finite_live (capture_live wav_host (saved_session m))"
proof -
  have pads: "floats_clip zero_bad zero_bad (capture_clip c) = capture_clip c" if "c \<in> {the (sl_clip demo_notes), fresh_pad}" for c
    using that
    by (auto simp: floats_clip_def capture_clip_def demo_notes_def fresh_pad_def fresh_clip_def track_new_def List.map_filter_simps)
  have grid: "floats_matrix zero_bad zero_bad (capture_matrix (as_matrix (saved_session m))) = capture_matrix (as_matrix (saved_session m))"
    using pads by (simp add: floats_matrix_def capture_matrix_def saved_session_def session_default_def floats_row_def
        capture_row_def demo_row_def demo_notes_def)
  have master: "dg_master_volume (capture_dsp_global (map capture_track demo_channels)) = Num (3 / 4)"
    "dg_master_pan (capture_dsp_global (map capture_track demo_channels)) = Num 0"
    by (simp_all add: capture_dsp_global_def demo_channels_def capture_track_def track_new_def)
  have s: "as_live_tracks (saved_session m) = demo_channels" "as_transport (saved_session m) = transport_new (Num 48000) (Num 120)"
    by (simp_all add: saved_session_def demo_app_def)
  have bpm: "zero_bad (tp_bpm (transport_new (Num 48000) (Num 120))) = tp_bpm (transport_new (Num 48000) (Num 120))"
    by (simp add: transport_new_def)
  show "finite_live (capture_live demo_host (saved_session m))" "finite_live (capture_live wav_host (saved_session m))"
    using demo_channels_finite
    by (simp_all add: finite_live_def floats_live_def capture_live_def Let_def grid s master bpm del: show_nat.simps)
qed

text \<open>The loaded pad comes back with its sample as its one event.\<close>

lemma fresh_pad_reopened:
  "fc_events (reopened_clip wav_host (capture_clip fresh_pad)) = [\<lparr> fe_id = 1, fe_name = ''kick'',
     fe_source_path = show_path [''s'', ''kick.wav''], fe_start_secs = Num 0, fe_trim_left_frames = 0,
     fe_visible_frames = 2, fe_gain = Num 1, fe_fade_in_secs = Num 0, fe_fade_out_secs = Num 0 \<rparr>]"
proof -
  have c: "fc_path (capture_clip fresh_pad) = show_path [''s'', ''kick.wav'']" "fc_events (capture_clip fresh_pad) = []"
    "fc_midi_notes (capture_clip fresh_pad) = []"
    by (simp_all add: capture_clip_def fresh_pad_def fresh_clip_def List.map_filter_simps)
  have "\<not> is_midi_file (ho_lower wav_host) [''s'', ''kick.wav'']" "stem_name [''s'', ''kick.wav''] = ''kick''" by code_simp+
  then show ?thesis using components_show_path [OF demo_paths(2)]
    by (simp add: reopened_clip_def whole_sample_def c wav_host_def demo_wav_def decode_audio_file_def decoded_def
        next_event_id_def vlen_def Let_def)
qed

theorem session_project_roundtrip_witness:
  "\<exists>co q d' s' cmds. save wav_host co (saved_session LiveMode) [''home'', ''set''] Map.empty = (Inr q, d')
     \<and> load wav_host co q d' (demo_app StudioMode []) = Inr (s', cmds)
     \<and> capture_matrix (as_matrix s') = reopened_matrix wav_host (capture_matrix (as_matrix (saved_session LiveMode)))
     \<and> (\<exists>midi audio. mt_grid (capture_matrix (as_matrix s')) = [[Some midi, Some audio]]
          \<and> length (fc_midi_notes midi) = 1 \<and> map fe_name (fc_events audio) = [''kick''])"
proof -
  let ?s = "saved_session LiveMode" and ?q = "[''home'', ''set.oplf'']"
  let ?co = "demo_codec (titled_live wav_host ?s ?q) (titled_studio wav_host ?s ?q)"
  have name: "name_ok [''home'', ''set'']" by (simp add: name_ok_def)
  have mode: "as_mode ?s = LiveMode" by (simp add: saved_session_def demo_app_def)
  have q: "with_extension (retarget_extension [''home'', ''set''] LiveMode) ''oplf'' = ?q" by code_simp
  have saved: "save wav_host ?co ?s [''home'', ''set''] Map.empty = (Inr ?q, [?q \<mapsto> ''l''])"
    unfolding save_def mode GuiMode.case save_live_def Let_def q
    by (simp add: titled_live_def Let_def write_json_def demo_codec_def)
  obtain s' cmds where opened: "load wav_host ?co ?q [?q \<mapsto> ''l''] (demo_app StudioMode []) = Inr (s', cmds)"
    and m: "capture_matrix (as_matrix s') = reopened_matrix wav_host (capture_matrix (as_matrix ?s))"
    using session_project_roundtrip [OF demo_serde name demo_live_saveable(2) demo_live_finite(2) mode saved, of "demo_app StudioMode []"]
    by (auto simp: floats_id)
  have "mt_grid (capture_matrix (as_matrix ?s)) = [[Some (capture_clip (the (sl_clip demo_notes))), Some (capture_clip fresh_pad)]]"
    by (simp add: saved_session_def capture_matrix_def demo_notes_def)
  then have "mt_grid (capture_matrix (as_matrix s')) = [[Some (reopened_clip wav_host (capture_clip (the (sl_clip demo_notes)))),
      Some (reopened_clip wav_host (capture_clip fresh_pad))]]" by (simp add: m reopened_matrix_def)
  moreover have "length (fc_midi_notes (reopened_clip wav_host (capture_clip (the (sl_clip demo_notes))))) = 1"
    by (simp add: reopened_clip_def capture_clip_def demo_notes_def Let_def)
  ultimately show ?thesis using saved opened m fresh_pad_reopened
    by (intro exI [of _ ?co] exI [of _ ?q] exI [of _ "[?q \<mapsto> ''l'']"] exI [of _ s'] exI [of _ cmds]) auto
qed

theorem studio_project_roundtrip_witness:
  "\<exists>co q d' s' cmds. save demo_host co (demo_app StudioMode []) [''home'', ''song''] Map.empty = (Inr q, d')
     \<and> load demo_host co q d' (demo_app StudioMode []) = Inr (s', cmds)
     \<and> capture_playlist (as_playlist s') = capture_playlist (as_playlist (demo_app StudioMode []))
     \<and> length (pl_clips (as_playlist (demo_app StudioMode []))) = 1"
proof -
  let ?s = "demo_app StudioMode []" and ?q = "[''home'', ''song.opsf'']"
  let ?co = "demo_codec (titled_live demo_host ?s ?q) (titled_studio demo_host ?s ?q)"
  have name: "name_ok [''home'', ''song'']" by (simp add: name_ok_def)
  have mode: "as_mode ?s = StudioMode" by (simp add: demo_app_def)
  have q: "with_extension (retarget_extension [''home'', ''song''] StudioMode) ''opsf'' = ?q" by code_simp
  have saved: "save demo_host ?co ?s [''home'', ''song''] Map.empty = (Inr ?q, [?q \<mapsto> ''u''])"
    unfolding save_def mode GuiMode.case save_studio_def Let_def q
    by (simp add: titled_studio_def Let_def write_json_def demo_codec_def)
  have one: "length (pl_clips (as_playlist ?s)) = 1" by (simp add: demo_app_def demo_line_def)
  obtain s' cmds where "load demo_host ?co ?q [?q \<mapsto> ''u''] ?s = Inr (s', cmds)"
    and "capture_playlist (as_playlist s') = capture_playlist (as_playlist ?s)"
    using studio_project_roundtrip [OF demo_serde name demo_studio_saveable demo_studio_finite mode mode saved]
    by (auto simp: floats_id)
  then show ?thesis using saved one by blast
qed

section \<open>A timeline opened from the session\<close>

text \<open>
  C30. A timeline saved as above, with finite floats, and opened while the interface is in OpenLive mode keeps
  only the clips whose track number is below the number of session channels, and the engine is sent the mix
  of the session between tempo and loop: both are decided by the mode the interface is leaving.
\<close>

theorem timeline_opened_from_session:
  assumes "serde_ok g k co" "name_ok p" "studio_saveable s" "finite_studio (capture_studio h s)"
    and mode: "as_mode s = StudioMode" "as_mode s0 = LiveMode"
    and saved: "save h co s p d = (Inr q, d')"
  shows "\<exists>s' cmds. load h co q d' s0 = Inr (s', cmds) \<and> as_mode s' = StudioMode
     \<and> fy_clips (capture_playlist (as_playlist s'))
         = filter (\<lambda>(t, c). t < vlen (as_live_tracks s0)) (fy_clips (floats_playlist g (capture_playlist (as_playlist s))))
     \<and> (\<exists>a b on. cmds = SetBpm (to_f32 (fclamp (k (tp_bpm (as_transport s))) BPM_MIN BPM_MAX))
         # push_track_mix_to_engine s0 @ [SetGlobalLoop a b on])"
proof -
  let ?p = "floats_studio g k (capture_studio h s)"
  let ?r = "apply_studio h ?p (path_parent q) s0"
  have load: "load h co q d' s0 = Inr (fst ?r, snd ?r)"
    using save_then_load [OF assms(1,2) saved, of s0] assms(4) mode by (simp add: apply_titled)
  have all: "\<forall>(t, c) \<in> set (pl_clips (as_playlist s)). clip_saveable c"
    using assms(3) by (auto simp: studio_saveable_def list_all_iff)
  have clips: "fy_clips (ou_playlist ?p) = map (\<lambda>(t, c). (t, floats_placed g c)) (map (\<lambda>(t, c). (t, capture_playlist_clip c)) (pl_clips (as_playlist s)))"
    by (simp add: capture_studio_sel floats_playlist_def capture_playlist_def)
  have "map (\<lambda>(t, c). (t, capture_playlist_clip c)) (pl_clips (as_playlist (fst ?r)))
      = filter (\<lambda>(t, c). t < vlen (as_live_tracks s0)) (fy_clips (ou_playlist ?p))"
    unfolding studio_clips_opened mode(2) GuiMode.case clips
    using opened_clips_captured [OF all, of h "path_parent q" _ _ "\<lambda>t. t < vlen (as_live_tracks s0)" g] by fastforce
  moreover have "\<exists>a b on. snd ?r = SetBpm (to_f32 (fclamp (k (tp_bpm (as_transport s))) BPM_MIN BPM_MAX))
      # push_track_mix_to_engine s0 @ [SetGlobalLoop a b on]"
    using mode(2)
    by (simp add: apply_studio_def apply_loop_def Let_def capture_studio_sel push_track_mix_to_engine_def app_tracks_def
        clamp_selected_track_def on_transport_def apply_playlist_def)
  ultimately show ?thesis
    by (intro exI [of _ "fst ?r"] exI [of _ "snd ?r"] conjI load)
      (simp_all add: apply_studio_fields(1) capture_studio_sel(1) capture_playlist_def [of "as_playlist (fst ?r)"])
qed

theorem timeline_opened_from_session_witness:
  "\<exists>co q d' s' cmds. save demo_host co (demo_app StudioMode []) [''home'', ''song''] Map.empty = (Inr q, d')
     \<and> load demo_host co q d' (demo_app LiveMode []) = Inr (s', cmds)
     \<and> length (pl_clips (as_playlist (demo_app StudioMode []))) = 1 \<and> fy_clips (capture_playlist (as_playlist s')) = []"
proof -
  let ?s = "demo_app StudioMode []" and ?q = "[''home'', ''song.opsf'']"
  let ?co = "demo_codec (titled_live demo_host ?s ?q) (titled_studio demo_host ?s ?q)"
  have name: "name_ok [''home'', ''song'']" by (simp add: name_ok_def)
  have mode: "as_mode ?s = StudioMode" "as_mode (demo_app LiveMode []) = LiveMode" by (simp_all add: demo_app_def)
  have q: "with_extension (retarget_extension [''home'', ''song''] StudioMode) ''opsf'' = ?q" by code_simp
  have saved: "save demo_host ?co ?s [''home'', ''song''] Map.empty = (Inr ?q, [?q \<mapsto> ''u''])"
    unfolding save_def mode GuiMode.case save_studio_def Let_def q
    by (simp add: titled_studio_def Let_def write_json_def demo_codec_def)
  have none: "filter (\<lambda>(t, c). t < vlen (as_live_tracks (demo_app LiveMode []))) xs = []" for xs :: "(usize \<times> 'x) list"
    by (simp add: demo_app_def vlen_def split_beta)
  have one: "length (pl_clips (as_playlist ?s)) = 1" by (simp add: demo_app_def demo_line_def)
  obtain s' cmds where "load demo_host ?co ?q [?q \<mapsto> ''u''] (demo_app LiveMode []) = Inr (s', cmds)"
    "fy_clips (capture_playlist (as_playlist s')) = []"
    using timeline_opened_from_session [OF demo_serde name demo_studio_saveable demo_studio_finite mode saved]
    unfolding none by blast
  then show ?thesis using saved one by blast
qed

section \<open>The engine after a session is opened\<close>

text \<open>The commands of opening a project: of the pads, and of tempo, mix and loop.\<close>

fun mix_command :: "GuiCommand \<Rightarrow> bool" where
  "mix_command (SetBpm _) = True"
| "mix_command (SetGlobalLoop _ _ _) = True"
| "mix_command (SetTrackVolume _ _) = True"
| "mix_command (SetTrackPan _ _) = True"
| "mix_command (SetTrackMute _ _) = True"
| "mix_command (SetTrackSolo _ _) = True"
| "mix_command _ = False"

fun pad_command :: "GuiCommand \<Rightarrow> bool" where
  "pad_command (LoadClip _ _ _ _ _ _ _) = True"
| "pad_command (SetClipEvents _ _ _) = True"
| "pad_command (SetClipLoop _ _ _ _ _) = True"
| "pad_command (UpdateMidiClipNotes _ _ _) = True"
| "pad_command _ = False"

lemma serve_append:
  "serve w (xs @ ys) e = (case serve w xs e of Served e \<Rightarrow> serve w ys e | Panicked l \<Rightarrow> Panicked l)"
  by (induction xs arbitrary: e) (simp_all split: outcome.split)

text \<open>What a change of tempo, mix or loop leaves alone.\<close>

definition same_content :: "'i AudioEngine \<Rightarrow> 'i AudioEngine \<Rightarrow> bool" where
  "same_content e' e \<longleftrightarrow> en_clips e' = en_clips e \<and> en_midi_clips e' = en_midi_clips e \<and> en_mode e' = en_mode e
     \<and> en_chains e' = en_chains e \<and> tp_playback_state (en_transport e') = tp_playback_state (en_transport e)
     \<and> tp_sample_count (en_transport e') = tp_sample_count (en_transport e)"

lemma same_content_refl [simp]: "same_content e e"
  by (simp add: same_content_def)

lemma same_content_trans: "same_content e'' e' \<Longrightarrow> same_content e' e \<Longrightarrow> same_content e'' e"
  by (simp add: same_content_def)

lemma handle_mix_command: "mix_command c \<Longrightarrow> \<exists>e'. handle_command w False c e = Served e' \<and> same_content e' e"
  by (cases c) (simp_all add: same_content_def set_track_volume_def set_track_pan_def set_track_mute_def set_track_solo_def
      set_global_loop_def set_loop_enabled_def set_loop_region_samples_def set_bpm_def Let_def)

lemma serve_mix_commands: "list_all mix_command cs \<Longrightarrow> \<exists>e'. serve w cs e = Served e' \<and> same_content e' e"
proof (induction cs arbitrary: e)
  case (Cons c cs)
  obtain e1 where e1: "handle_command w False c e = Served e1" "same_content e1 e"
    using handle_mix_command [of c] Cons.prems by auto
  obtain e' where "serve w cs e1 = Served e'" "same_content e' e1" using Cons by fastforce
  then show ?case using e1 same_content_trans by auto
qed simp

definition gains_shape :: "'i AudioEngine \<Rightarrow> bool" where
  "gains_shape e \<longleftrightarrow> length (en_track_volumes e) = 16 \<and> length (en_track_mutes e) = 16 \<and> length (en_track_solos e) = 16"

lemma handle_open_command:
  "pad_command c \<or> mix_command c \<Longrightarrow> handle_command w False c e = Served e' \<Longrightarrow> gains_shape e \<Longrightarrow> gains_shape e'"
  by (cases c) (auto simp: gains_shape_def add_clip_def set_clip_events_def set_clip_loop_def update_midi_clip_def locked_def
      set_track_volume_def set_track_pan_def set_track_mute_def set_track_solo_def set_global_loop_def Let_def
      split: option.splits)

lemma serve_open_commands:
  "list_all (\<lambda>c. pad_command c \<or> mix_command c) cs \<Longrightarrow> serve w cs e = Served e' \<Longrightarrow> gains_shape e \<Longrightarrow> gains_shape e'"
proof (induction cs arbitrary: e)
  case (Cons c cs)
  then obtain e1 where e1: "handle_command w False c e = Served e1" "serve w cs e1 = Served e'"
    by (auto split: outcome.splits)
  have "gains_shape e1" by (rule handle_open_command [OF _ e1(1)]) (use Cons.prems in auto)
  then show ?case using Cons e1 by auto
qed simp

text \<open>One channel after the other, from engine track \<open>n\<close> on.\<close>

definition push_from :: "nat \<Rightarrow> Track list \<Rightarrow> GuiCommand list" where
  "push_from n ts = concat (map (\<lambda>(i, t). let row = word_of_nat i in
       [SetTrackVolume row (tk_volume t), SetTrackPan row (tk_pan t), SetTrackMute row (tk_mute t),
        SetTrackSolo row (tk_solo t)]) (enumerate n ts))"

lemma push_from_simps:
  "push_from n [] = []"
  "push_from n (t # ts) = [SetTrackVolume (word_of_nat n) (tk_volume t), SetTrackPan (word_of_nat n) (tk_pan t),
     SetTrackMute (word_of_nat n) (tk_mute t), SetTrackSolo (word_of_nat n) (tk_solo t)] @ push_from (Suc n) ts"
  by (simp_all add: push_from_def Let_def)

text \<open>Engine track \<open>k\<close> has the volume, mute and solo of a channel.\<close>

definition has_gains :: "'i AudioEngine \<Rightarrow> nat \<Rightarrow> Track \<Rightarrow> bool" where
  "has_gains e k t \<longleftrightarrow> en_track_volumes e ! k = fclamp (tk_volume t) (Num 0) (Num 1)
     \<and> en_track_mutes e ! k = tk_mute t \<and> en_track_solos e ! k = tk_solo t"

lemma serve_channel:
  fixes n :: nat and e :: "'i AudioEngine" and t :: Track
  assumes "n < 2 ^ 62" "gains_shape e"
  defines "cs \<equiv> [SetTrackVolume (word_of_nat n) (tk_volume t), SetTrackPan (word_of_nat n) (tk_pan t),
     SetTrackMute (word_of_nat n) (tk_mute t), SetTrackSolo (word_of_nat n) (tk_solo t)]"
  shows "\<exists>e'. serve w cs e = Served e' \<and> gains_shape e' \<and> (n < 16 \<longrightarrow> has_gains e' n t)
    \<and> (\<forall>k u. k \<noteq> n \<longrightarrow> has_gains e k u \<longrightarrow> has_gains e' k u)"
proof -
  have n: "unat (word_of_nat n :: usize) = n" using assms(1) by (simp add: unat_of_nat)
  have lt: "(word_of_nat n :: usize) < 16 \<longleftrightarrow> n < 16" by (simp add: word_less_nat_alt n)
  show ?thesis
    using assms(2) by (auto simp: cs_def set_track_volume_def set_track_pan_def set_track_mute_def set_track_solo_def
        lt n gains_shape_def has_gains_def Let_def)
qed

lemma serve_push_from:
  assumes "n + length ts < 2 ^ 62" "gains_shape e"
  shows "\<exists>e'. serve w (push_from n ts) e = Served e' \<and> gains_shape e'
    \<and> (\<forall>k u. k < n \<longrightarrow> has_gains e k u \<longrightarrow> has_gains e' k u)
    \<and> (\<forall>i < length ts. n + i < 16 \<longrightarrow> has_gains e' (n + i) (ts ! i))"
  using assms
proof (induction ts arbitrary: n e)
  case Nil
  then show ?case by (simp add: push_from_simps)
next
  case (Cons t ts)
  have "n < 2 ^ 62" using Cons.prems(1) by simp
  then obtain e1 where e1: "serve w [SetTrackVolume (word_of_nat n) (tk_volume t), SetTrackPan (word_of_nat n) (tk_pan t),
      SetTrackMute (word_of_nat n) (tk_mute t), SetTrackSolo (word_of_nat n) (tk_solo t)] e = Served e1"
    "gains_shape e1" "n < 16 \<longrightarrow> has_gains e1 n t" "\<And>k u. k \<noteq> n \<Longrightarrow> has_gains e k u \<Longrightarrow> has_gains e1 k u"
    using serve_channel [OF _ Cons.prems(2), of n w t] by blast
  obtain e' where e': "serve w (push_from (Suc n) ts) e1 = Served e'" "gains_shape e'"
    "\<And>k u. k < Suc n \<Longrightarrow> has_gains e1 k u \<Longrightarrow> has_gains e' k u"
    "\<And>i. i < length ts \<Longrightarrow> Suc n + i < 16 \<Longrightarrow> has_gains e' (Suc n + i) (ts ! i)"
    using Cons.IH [of "Suc n" e1] Cons.prems(1) e1(2) by auto
  have "has_gains e' (n + i) ((t # ts) ! i)" if "i < length (t # ts)" "n + i < 16" for i
    using that e1(3) e'(3) [of n] e'(4) [of "i - 1"] by (cases i) auto
  moreover have "has_gains e' k u" if "k < n" "has_gains e k u" for k u
    using that e1(4) [of k u] e'(3) [of k u] by simp
  moreover have "serve w (push_from n (t # ts)) e = Served e'"
    unfolding push_from_simps serve_append e1(1) by (simp add: e'(1))
  ultimately show ?case using e'(2) by blast
qed

lemma sync_row_commands: "list_all mix_command (snd (snd (sync_row i om ot m t)))"
  by (simp add: sync_row_def Let_def split: prod.splits option.splits)

lemma sync_commands:
  assumes "sync_matrix_mixer_bidirectional live metas om ot = (ts, ms, cmds)"
  shows "list_all mix_command cmds"
  using assms sync_row_commands
  by (auto simp: sync_matrix_mixer_bidirectional_def Let_def list_all_iff)

lemma push_from_kind: "list_all mix_command (push_from n ts)"
  by (auto simp: push_from_def list_all_iff Let_def)

lemma push_commands: "list_all mix_command (push_track_mix_to_engine s)"
  by (auto simp: push_track_mix_to_engine_def list_all_iff Let_def)

lemma pad_commands_kind: "list_all pad_command (pad_commands ppqn bpm t sc c)"
  by (cases "xc_content c") (simp_all add: pad_commands_def sync_audio_events_to_engine_def)

lemma grid_commands_kind: "list_all pad_command (grid_commands ppqn bpm grid)"
  using pad_commands_kind by (fastforce simp: grid_commands_def list_all_iff split: option.splits)

text \<open>The commands of opening a session, part by part.\<close>

lemma apply_live_commands:
  assumes sync: "sync_matrix_mixer_bidirectional (opened_mixer h p) (map build_meta (mt_tracks (ol_matrix p))) [] []
      = (live, metas, mix)" and mode: "as_mode s = LiveMode"
  shows "\<exists>a b on. snd (apply_live h p base s) =
     SetBpm (to_f32 (fclamp (lt_bpm (ol_transport p)) BPM_MIN BPM_MAX))
     # grid_commands Transport.DEFAULT_PPQN (fclamp (lt_bpm (ol_transport p)) BPM_MIN BPM_MAX) (opened_grid h base (ol_matrix p))
       @ mix @ push_from 0 live @ [SetGlobalLoop a b on]"
  using sync mode by (simp add: apply_live_def apply_loop_def apply_matrix_def on_transport_def
      clamp_selected_track_def session_default_def opened_mixer_def [symmetric] Let_def
      push_track_mix_to_engine_def app_tracks_def push_from_def)

text \<open>
  C31. After a session is opened while the interface already shows the session, and once the engine has served
  all the commands sent, none of them dropped because the engine was busy, each of the first 16 engine tracks
  \<open>k\<close> below the number of mixer channels has the volume, mute and solo of mixer channel \<open>k\<close>: the master's on the
  first track, and those of row \<open>k - 1\<close> on the track that plays row \<open>k\<close>.
\<close>

theorem opened_mix_is_shifted:
  fixes h p base s
  defines "s' \<equiv> fst (apply_live h p base s)"
  assumes "as_mode s = LiveMode" "gains_shape e"
    and served: "serve w (snd (apply_live h p base s)) e = Served e'"
    and few: "length (as_live_tracks s') < 2 ^ 62" and k: "k < 16" "k < length (as_live_tracks s')"
  shows "has_gains e' k (as_live_tracks s' ! k)
    \<and> (if k = 0 then tk_is_master (as_live_tracks s' ! k)
       else tk_matrix_idx (as_live_tracks s' ! k) = Some (word_of_nat (k - 1)))"
proof -
  obtain live metas mix where sync: "sync_matrix_mixer_bidirectional (opened_mixer h p)
      (map build_meta (mt_tracks (ol_matrix p))) [] [] = (live, metas, mix)" by (metis prod_cases3)
  have live: "as_live_tracks s' = live" unfolding s'_def by (rule apply_live_fields(2) [OF sync])
  have shape: "length live = length (mt_tracks (ol_matrix p)) + 1 \<and> tk_is_master (hd live)
    \<and> (\<forall>i < length (mt_tracks (ol_matrix p)). tk_matrix_idx (live ! (i + 1)) = Some (word_of_nat i))"
  proof -
    have l: "live = hd (fit_tracks (opened_mixer h p) (map build_meta (mt_tracks (ol_matrix p))))
        # map (\<lambda>i. fst (snd (sync_row i None None (map build_meta (mt_tracks (ol_matrix p)) ! i)
            (fit_tracks (opened_mixer h p) (map build_meta (mt_tracks (ol_matrix p))) ! (i + 1))))) [0..<length (mt_tracks (ol_matrix p))]"
      using sync by (simp add: sync_matrix_mixer_bidirectional_def Let_def nth_opt_def comp_def)
    have idx: "tk_matrix_idx (fst (snd (sync_row i None None m t))) = Some (word_of_nat i)" for i m t
      by (simp add: sync_row_def Let_def split: prod.splits)
    show ?thesis unfolding l using hd_fit_tracks by (simp add: idx del: fit_tracks_def)
  qed
  obtain a b on where cmds: "snd (apply_live h p base s) =
     (SetBpm (to_f32 (fclamp (lt_bpm (ol_transport p)) BPM_MIN BPM_MAX))
     # grid_commands Transport.DEFAULT_PPQN (fclamp (lt_bpm (ol_transport p)) BPM_MIN BPM_MAX) (opened_grid h base (ol_matrix p))
       @ mix) @ push_from 0 live @ [SetGlobalLoop a b on]" (is "_ = ?first @ _")
    using apply_live_commands [OF sync assms(2), of base] by auto
  obtain e1 where e1: "serve w ?first e = Served e1" "serve w (push_from 0 live @ [SetGlobalLoop a b on]) e1 = Served e'"
    using served unfolding cmds serve_append [of w ?first] by (auto split: outcome.splits)
  have "list_all (\<lambda>c. pad_command c \<or> mix_command c) ?first"
    using grid_commands_kind sync_commands [OF sync] by (auto simp: list_all_iff)
  then have "gains_shape e1" using serve_open_commands [OF _ e1(1)] assms(3) by blast
  then obtain e2 where e2: "serve w (push_from 0 live) e1 = Served e2"
    "\<And>i. i < length live \<Longrightarrow> i < 16 \<Longrightarrow> has_gains e2 i (live ! i)"
    using serve_push_from [of 0 live e1 w] few live by auto
  have "e' = set_global_loop e2 a b on" using e1(2) by (simp add: serve_append e2(1))
  then have "has_gains e' k (live ! k)"
    using e2(2) [of k] k live by (simp add: has_gains_def set_global_loop_def)
  moreover have "if k = 0 then tk_is_master (live ! k) else tk_matrix_idx (live ! k) = Some (word_of_nat (k - 1))"
    proof (cases k)
    case 0
    have "live \<noteq> []" using shape by auto
    then show ?thesis using 0 shape by (simp add: hd_conv_nth)
  next
    case (Suc i)
    then show ?thesis using shape k(2) live by simp
  qed
  ultimately show ?thesis unfolding live by blast
qed

section \<open>File > New and the engine\<close>

lemma blank_grid_silent:
  "grid_commands ppqn bpm (opened_grid h base default_matrix) = []"
  "\<forall>row \<in> set (opened_grid h base default_matrix). \<forall>slot \<in> set row. sl_clip slot = None"
proof -
  have g: "opened_grid h base default_matrix = replicate 8 (replicate 8 (build_pad h base None))"
    by (simp add: opened_grid_def default_matrix_def DEFAULT_TRACKS_def DEFAULT_SCENES_def Let_def del: show_nat.simps)
      (simp add: numeral_eq_Suc)
  have "(case sl_clip slot of None \<Rightarrow> [] | Some clip \<Rightarrow> pad_commands ppqn bpm t sc clip) = []"
    if "row \<in> set (replicate 8 (replicate 8 (build_pad h base None)))" "slot \<in> set row" for row slot t sc
    using that by (simp add: build_pad_def)
  then show "grid_commands ppqn bpm (opened_grid h base default_matrix) = []"
    unfolding g grid_commands_def by (auto simp: in_set_enumerate_eq split: option.splits)
  show "\<forall>row \<in> set (opened_grid h base default_matrix). \<forall>slot \<in> set row. sl_clip slot = None"
    unfolding g by (simp add: build_pad_def)
qed

lemma apply_live_transport:
  "tp_playback_state (as_transport (fst (apply_live h p base s))) = tp_playback_state (as_transport s)"
  "tp_sample_count (as_transport (fst (apply_live h p base s))) = tp_sample_count (as_transport s)"
  by (simp_all add: apply_live_def apply_loop_def apply_matrix_def on_transport_def clamp_selected_track_def Let_def
      split: prod.split)

lemma apply_studio_transport:
  "tp_playback_state (as_transport (fst (apply_studio h p base s))) = tp_playback_state (as_transport s)"
  "tp_sample_count (as_transport (fst (apply_studio h p base s))) = tp_sample_count (as_transport s)"
  by (simp_all add: apply_studio_def apply_loop_def apply_playlist_def on_transport_def clamp_selected_track_def Let_def)

lemma new_project_reset: "as_project_dirty s \<longrightarrow> confirmed \<Longrightarrow> new_project h confirmed s =
    ((fst (project_reset h s))\<lparr>as_project_path := None, as_project_dirty := False\<rparr>, snd (project_reset h s))"
  by (auto simp: new_project_def split_beta Let_def)

text \<open>
  C32. File > New empties the session (or the timeline) and shows a stopped transport, but no command
  reaches the clips, the plugins or the transport of the engine: what played before goes on playing.
\<close>

theorem new_project_leaves_engine:
  fixes h confirmed s
  assumes "as_project_dirty s \<longrightarrow> confirmed"
  defines "s' \<equiv> fst (new_project h confirmed s)"
  shows "\<exists>e'. serve w (snd (new_project h confirmed s)) e = Served e' \<and> same_content e' e
    \<and> tp_playback_state (as_transport s') = Stopped \<and> tp_sample_count (as_transport s') = 0
    \<and> (case as_mode s of
         LiveMode \<Rightarrow> \<forall>row \<in> set (sm_grid (as_matrix s')). \<forall>slot \<in> set row. sl_clip slot = None
       | StudioMode \<Rightarrow> pl_clips (as_playlist s') = [] \<and> \<not> pl_needs_full_sync (as_playlist s'))"
proof (cases "as_mode s")
  case LiveMode
  let ?s = "on_transport (\<lambda>t. t\<lparr>tp_sample_count := 0, tp_playback_state := Stopped\<rparr>) s"
  let ?p = "blank_live h"
  obtain live metas mix where sync: "sync_matrix_mixer_bidirectional (opened_mixer h ?p)
      (map build_meta (mt_tracks (ol_matrix ?p))) [] [] = (live, metas, mix)" by (metis prod_cases3)
  have mode: "as_mode ?s = LiveMode" by (simp add: on_transport_def LiveMode)
  have p: "ol_matrix ?p = default_matrix" by (simp add: blank_live_def template_live_def Let_def)
  have "list_all mix_command (snd (apply_live h ?p None ?s))"
    using apply_live_commands [OF sync mode, of None] sync_commands [OF sync] push_from_kind [of 0 live] by (auto simp: p blank_grid_silent)
  moreover have new: "snd (new_project h confirmed s) = snd (apply_live h ?p None ?s)"
    "as_matrix s' = as_matrix (fst (apply_live h ?p None ?s))"
    "as_transport s' = as_transport (fst (apply_live h ?p None ?s))"
    unfolding s'_def new_project_reset [OF assms(1)] by (simp_all add: project_reset_def Let_def mode split_beta)
  moreover have "\<forall>row \<in> set (sm_grid (as_matrix s')). \<forall>slot \<in> set row. sl_clip slot = None"
    unfolding new apply_live_fields(5) [OF sync] p by (rule blank_grid_silent)
  moreover have "tp_playback_state (as_transport s') = Stopped" "tp_sample_count (as_transport s') = 0"
    unfolding new apply_live_transport by (simp_all add: on_transport_def)
  ultimately show ?thesis using serve_mix_commands LiveMode by fastforce
next
  case StudioMode
  let ?s = "on_transport (\<lambda>t. t\<lparr>tp_sample_count := 0, tp_playback_state := Stopped\<rparr>) s"
  let ?p = "blank_studio h"
  have mode: "as_mode ?s = StudioMode" by (simp add: on_transport_def StudioMode)
  have "list_all mix_command (snd (apply_studio h ?p None ?s))"
    by (simp add: apply_studio_def apply_loop_def Let_def push_commands)
  moreover have new: "snd (new_project h confirmed s) = snd (apply_studio h ?p None ?s)"
    "as_playlist s' = (as_playlist (fst (apply_studio h ?p None ?s)))\<lparr>pl_needs_full_sync := False\<rparr>"
    "as_transport s' = as_transport (fst (apply_studio h ?p None ?s))"
    unfolding s'_def new_project_reset [OF assms(1)] by (simp_all add: project_reset_def Let_def mode split_beta)
  moreover have "pl_clips (as_playlist s') = []"
    unfolding new by (simp add: studio_clips_opened blank_studio_def template_studio_def Let_def)
  moreover have "tp_playback_state (as_transport s') = Stopped" "tp_sample_count (as_transport s') = 0"
    unfolding new apply_studio_transport by (simp_all add: on_transport_def)
  ultimately show ?thesis using serve_mix_commands StudioMode by fastforce
qed

theorem new_project_leaves_engine_witness:
  "\<exists>e'. serve (demo_world demo_song) (snd (new_project demo_host True (demo_app LiveMode demo_channels))) (demo_sound True)
       = Served e' \<and> en_clips e' = en_clips (demo_sound True) \<and> (\<exists>c \<in> set (en_clips e'). ai_is_playing c)"
proof -
  have ex: "\<exists>c \<in> set (en_clips (demo_sound True)). ai_is_playing c" by (simp add: demo_sound_def)
  obtain e' where "serve (demo_world demo_song) (snd (new_project demo_host True (demo_app LiveMode demo_channels))) (demo_sound True)
      = Served e'" "same_content e' (demo_sound True)"
    using new_project_leaves_engine [where s = "demo_app LiveMode demo_channels" and confirmed = True and h = demo_host
        and w = "demo_world demo_song" and e = "demo_sound True"]
    by auto
  then show ?thesis using ex by (simp add: same_content_def)
qed

theorem opened_mix_is_shifted_witness:
  "\<exists>e'. serve (demo_world demo_song) (snd (apply_live demo_host (capture_live demo_host (demo_app LiveMode demo_channels)) None
          (demo_app LiveMode demo_channels))) (demo_sound False) = Served e'
     \<and> has_gains e' 1 (as_live_tracks (fst (apply_live demo_host (capture_live demo_host (demo_app LiveMode demo_channels)) None
          (demo_app LiveMode demo_channels))) ! 1)"
proof -
  let ?s = "demo_app LiveMode demo_channels"
  let ?p = "capture_live demo_host ?s"
  have ok: "mixer_agrees (sm_tracks (as_matrix ?s)) (as_live_tracks ?s)"
    using demo_live_saveable(1) [of LiveMode] by (simp add: live_saveable_def)
  note sel = capture_live_sel [of id id demo_host ?s, unfolded floats_id id_apply]
  have metas: "map (\<lambda>m. build_meta (capture_row m)) (sm_tracks (as_matrix ?s)) = sm_tracks (as_matrix ?s)"
    by (rule map_idI) (simp add: build_meta_def capture_row_def)
  have p: "map build_meta (mt_tracks (ol_matrix ?p)) = sm_tracks (as_matrix ?s)"
    using metas by (simp add: sel capture_matrix_def comp_def)
  obtain mix where sync: "sync_matrix_mixer_bidirectional (opened_mixer demo_host ?p) (map build_meta (mt_tracks (ol_matrix ?p))) [] []
      = (map (\<lambda>t. build_track demo_host (capture_track t)) (as_live_tracks ?s), sm_tracks (as_matrix ?s), mix)"
    using sync_agreeing [OF build_mixer_agrees [OF ok, of id]] opened_mixer_captured [OF ok, of demo_host id id] p metas
    by (auto simp: floats_id)
  have len: "length (as_live_tracks (fst (apply_live demo_host ?p None ?s))) = 2"
    unfolding apply_live_fields(2) [OF sync] by (simp add: demo_app_def demo_channels_def)
  have grid: "opened_grid demo_host None (ol_matrix ?p)
      = [[build_pad demo_host None (map_option capture_clip (sl_clip demo_notes))]]"
    unfolding sel by (simp add: opened_grid_def capture_matrix_def demo_app_def session_default_def Let_def)
  have midi: "xc_content (build_clip demo_host None (capture_clip (the (sl_clip demo_notes)))) = Midi [(0, 36, 100, 240)]"
    by (simp add: demo_notes_def fresh_clip_def capture_clip_def build_clip_def Let_def base_event_def audio_events_def
        set_audio_events_def refresh_preview_def demo_host_def decode_audio_file_def)
  have "\<exists>e'. serve (demo_world demo_song) (snd (apply_live demo_host ?p None ?s)) (demo_sound False) = Served e'"
  proof -
    have served: "\<exists>e'. serve w (grid_commands n b (opened_grid demo_host None (ol_matrix ?p))) e = Served e'" for w n b and e :: "unit AudioEngine"
      unfolding grid using midi by (simp add: grid_commands_def build_pad_def demo_notes_def pad_commands_def)
    obtain a b on where cmds: "snd (apply_live demo_host ?p None ?s) =
       [SetBpm (to_f32 (fclamp (lt_bpm (ol_transport ?p)) BPM_MIN BPM_MAX))]
       @ grid_commands Transport.DEFAULT_PPQN (fclamp (lt_bpm (ol_transport ?p)) BPM_MIN BPM_MAX) (opened_grid demo_host None (ol_matrix ?p))
         @ (mix @ push_from 0 (map (\<lambda>t. build_track demo_host (capture_track t)) (as_live_tracks ?s)) @ [SetGlobalLoop a b on])"
      using apply_live_commands [OF sync, of ?s None] by (auto simp: demo_app_def)
    have rest: "\<exists>e'. serve w (mix @ push_from 0 ts @ [SetGlobalLoop a b on]) e = Served e'" for w ts and e :: "unit AudioEngine"
      using serve_mix_commands [of "mix @ push_from 0 ts @ [SetGlobalLoop a b on]" w e] sync_commands [OF sync] push_from_kind [of 0 ts]
      by auto
    obtain e1 where e1: "serve (demo_world demo_song) [SetBpm (to_f32 (fclamp (lt_bpm (ol_transport ?p)) BPM_MIN BPM_MAX))] (demo_sound False)
        = Served e1" by simp
    obtain e2 where e2: "serve (demo_world demo_song) (grid_commands Transport.DEFAULT_PPQN (fclamp (lt_bpm (ol_transport ?p)) BPM_MIN BPM_MAX)
        (opened_grid demo_host None (ol_matrix ?p))) e1 = Served e2" using served by blast
    show ?thesis unfolding cmds serve_append [of _ "[SetBpm _]"] e1 outcome.case
      unfolding serve_append [of _ "grid_commands _ _ _"] e2 outcome.case using rest by blast
  qed
  then obtain e' where e': "serve (demo_world demo_song) (snd (apply_live demo_host ?p None ?s)) (demo_sound False) = Served e'" by blast
  have "gains_shape (demo_sound False)"
    by (simp add: gains_shape_def demo_sound_def demo_engine_def engine_with_clocks_def)
  then show ?thesis
    using opened_mix_is_shifted [OF _ _ e', of 1] e' len by (simp add: demo_app_def)
qed

end
