(* ===== verification/FrameLink.thy ===== *)
theory FrameLink
  imports AppFrame ProjectFaults RollEdit
begin

text \<open>
  The frame, the project files and the engine together: the loop of the engine follows the interface, the
  loop of an opened project does not survive the first frame, and what the window of a plugin changes
  reaches the instance the engine plays.
\<close>

section \<open>The time signature\<close>

declare show_nat.simps [simp del]

lemma strip_one_head:
  assumes "\<forall>w \<in> set ws. w \<noteq> [] \<and> \<not> is_digit (hd w)" "is_digit (hd s)" "s \<noteq> []"
  shows "strip_one ws s = s"
proof -
  have "\<not> prefix w s" if w: "w \<in> set ws" for w
    using assms w by (cases w; cases s) auto
  then have "find (\<lambda>w. prefix w s) ws = None" by (simp add: find_None_iff)
  then show ?thesis by (simp add: strip_one_def)
qed

lemma trim_outer:
  assumes "s \<noteq> []" "is_digit (hd s)" "is_digit (last s)"
  shows "trim s = s"
proof -
  have fix_point: "(f ^^ n) x = x" if "f x = x" for f :: "string \<Rightarrow> string" and n x
    using that by (induction n) simp_all
  have "trim_start white_space s = s"
    by (simp add: trim_start_def fix_point strip_one_head [OF white_space_no_digit(1) assms(2,1)])
  moreover have "trim_start (map rev white_space) (rev s) = rev s"
    using assms by (simp add: trim_start_def fix_point strip_one_head [OF white_space_no_digit(2)] hd_rev del: set_map)
  ultimately show ?thesis by (simp add: trim_def)
qed

lemma split_sig_digits:
  assumes "list_all is_digit a"
  shows "split_sig (a @ CHR ''/'' # b) = Some (a, b)"
  using digits_no_slash [OF assms] by (simp add: split_sig_def takeWhile_append dropWhile_append in_set_conv_decomp)

lemma shown_digits: "list_all is_digit (show_nat n)" "show_nat n \<noteq> []"
  using show_nat_digits [of n] by (simp_all)

lemma parse_shown: "parse_u32 (show_nat (unat (n :: u32))) = Some n"
  using parse_u32_show_nat [OF unat32_less, of n] by simp

lemma parse_sig_format:
  fixes n d :: u32
  shows "parse_sig (format_sig n d) = (let n = max n 1; d = max d 1
     in if n \<le> 16 \<and> d \<in> {2, 4, 8, 16} then Some (n, d) else None)"
proof -
  let ?n = "max n 1" and ?d = "max d 1"
  let ?a = "show_nat (unat ?n)" and ?b = "show_nat (unat ?d)"
  have f: "format_sig n d = ?a @ CHR ''/'' # ?b" by (simp add: format_sig_def)
  have hd: "is_digit (hd ?a)" using shown_digits [of "unat ?n"] by (cases "show_nat (unat ?n)") (simp_all)
  have "last ?b \<in> set ?b" using shown_digits(2) by (rule last_in_set)
  then have last: "is_digit (last ?b)" using shown_digits(1) by (meson list_all_iff)
  have t: "trim (format_sig n d) = ?a @ CHR ''/'' # ?b"
    unfolding f by (rule trim_outer) (use hd last shown_digits(2) in \<open>simp_all\<close>)
  have ne: "?a @ CHR ''/'' # ?b \<noteq> []" by simp
  have "1 \<le> ?n" by simp
  then show ?thesis
    unfolding parse_sig_def t Let_def split_sig_digits [OF shown_digits(1)] option.case prod.case
      trim_digits [OF shown_digits(1)] parse_shown
    by simp
qed

lemma step_sig_standard: "step_sig num den delta \<in> set STANDARD_SIGS"
proof -
  have "nat (clamp_int 0 (int (length STANDARD_SIGS) - 1) x) < length STANDARD_SIGS" for x
    by (auto simp: clamp_int_def STANDARD_SIGS_def)
  then show ?thesis by (simp add: step_sig_def Let_def)
qed

text \<open>The buttons beside the box only reach signatures the box reads back.\<close>

lemma stepped_sig_reads_back: "step_sig num den delta = (n, d) \<Longrightarrow> parse_sig (format_sig n d) = Some (n, d)"
  using step_sig_standard [of num den delta] by (auto simp: STANDARD_SIGS_def parse_sig_format max_def word_le_nat_alt)

section \<open>The loop\<close>

definition loop_of :: "TransportPosition \<Rightarrow> bool \<times> u64 \<times> u64" where
  "loop_of t = (tp_loop_enabled t, tp_loop_start_samples t, tp_loop_end_samples t)"

text \<open>What the interface believes to have sent is what the engine and its own transport have.\<close>

definition loop_synced :: "Frame \<Rightarrow> 'i AudioEngine \<Rightarrow> bool" where
  "loop_synced f e \<longleftrightarrow> (case as_global_loop_synced (af_app f) of
     None \<Rightarrow> True
   | Some l \<Rightarrow> loop_of (as_transport (af_app f)) = l \<and> loop_of (en_transport e) = l)"

text \<open>The commands of a frame that are not about the loop.\<close>

fun loopless :: "GuiCommand \<Rightarrow> bool" where
  "loopless (SyncExternalPluginParams _ _ _) = True"
| "loopless (SetBpm _) = True"
| "loopless (DmsNoteOn _ _ _ _ _ _ _ _ _) = True"
| "loopless _ = False"

lemma handle_loopless:
  "loopless c \<Longrightarrow> \<exists>e'. handle_command w False c e = Served e' \<and> loop_of (en_transport e') = loop_of (en_transport e)"
  by (cases c) (simp_all add: loop_of_def on_chains_def set_bpm_def trigger_dms_note_def Let_def split: option.split)

lemma serve_loopless:
  "list_all loopless cs \<Longrightarrow> \<exists>e'. serve w cs e = Served e' \<and> loop_of (en_transport e') = loop_of (en_transport e)"
proof (induction cs arbitrary: e)
  case (Cons c cs)
  obtain e1 where e1: "handle_command w False c e = Served e1" "loop_of (en_transport e1) = loop_of (en_transport e)"
    using handle_loopless [of c] Cons.prems by auto
  obtain e' where "serve w cs e1 = Served e'" "loop_of (en_transport e') = loop_of (en_transport e1)"
    using Cons by fastforce
  then show ?case using e1 by auto
qed simp

lemma frame_plugins_loopless: "list_all loopless (snd (frame_plugins f))"
  by (auto simp: frame_plugins_def flush_pending_external_params_def pending_of_slot_def list_all_iff Let_def split_beta
      split: if_splits)

lemma frame_tempo_loopless: "list_all loopless (snd (frame_tempo f))"
  by (simp add: frame_tempo_def Let_def)

lemma preview_loopless: "list_all loopless (preview_drum_pad dms pow2 tracks i pitch v)"
  by (simp add: preview_drum_pad_def split: option.split)

lemma frame_roll_loopless: "list_all loopless (snd (frame_roll dms pow2 inp f))"
  using preview_loopless
  by (auto simp: frame_roll_def roll_frame_def trigger_playhead_notes_def Let_def list_all_iff split_beta)

text \<open>What the plugins' part of a frame leaves alone.\<close>

definition loop_view :: "Frame \<Rightarrow> (bool \<times> u64 \<times> u64) option \<times> TransportPosition \<times> bool \<times> GuiMode \<times> PlaylistState" where
  "loop_view f = (as_global_loop_synced (af_app f), as_transport (af_app f), af_is_looping f, as_mode (af_app f),
     as_playlist (af_app f))"

lemma fold_keeps: "(\<And>x s. v (g x s) = v s) \<Longrightarrow> v (fold g xs s) = v s"
  by (induction xs arbitrary: s) simp_all

lemma loop_view_tracks: "loop_view (on_app (on_tracks g) f) = loop_view f"
  by (simp add: loop_view_def on_app_def on_tracks_def split: GuiMode.split)

lemma loop_view_fields:
  "loop_view (f\<lparr>af_param_probing := a\<rparr>) = loop_view f" "loop_view (f\<lparr>af_plugins := b\<rparr>) = loop_view f"
  "loop_view (f\<lparr>af_probe_results := c\<rparr>) = loop_view f"
  by (simp_all add: loop_view_def)

lemma loop_view_drain: "loop_view (drain_param_probes f) = loop_view f"
  unfolding drain_param_probes_def
  by (subst fold_keeps [of loop_view]) (simp_all only: loop_view_fields loop_view_tracks)

lemma loop_view_feedback: "loop_view (snd (apply_param_feedback events f)) = loop_view f"
  unfolding apply_param_feedback_def
  by (subst fold_keeps [of "\<lambda>r. loop_view (snd r)"]) (simp_all add: Let_def split_beta loop_view_tracks)

lemma loop_view_plugins: "loop_view (fst (frame_plugins f)) = loop_view f"
  by (simp add: frame_plugins_def flush_pending_external_params_def Let_def split_beta loop_view_tracks
      loop_view_feedback loop_view_fields loop_view_drain)

lemma loop_view_roll: "loop_view (fst (frame_roll dms pow2 inp f)) = loop_view f"
  by (simp add: frame_roll_def loop_view_def on_app_def Let_def split_beta)

lemma wanted_loop_view: "loop_view f' = loop_view f \<Longrightarrow> wanted_loop f' = wanted_loop f"
  by (simp add: wanted_loop_def loop_view_def)

lemma loop_synced_view: "loop_view f' = loop_view f \<Longrightarrow> loop_synced f' e = loop_synced f e"
  by (simp add: loop_synced_def loop_view_def split: option.split)

lemma loop_synced_engine: "loop_of (en_transport e') = loop_of (en_transport e) \<Longrightarrow> loop_synced f e' = loop_synced f e"
  by (simp add: loop_synced_def split: option.split)

lemma loop_synced_middle:
  "loop_synced (frame_loop_region (frame_preview (fst (frame_tempo (frame_clock inp f))))) e = loop_synced f e"
  by (simp add: loop_synced_def frame_loop_region_def frame_preview_def frame_tempo_def frame_clock_def on_app_def
      on_transport_def loop_of_def Let_def split_beta split: option.split)

lemma ticks_to_samples_loop:
  "ticks_to_samples (t\<lparr>tp_loop_start_samples := u, tp_loop_end_samples := v, tp_loop_enabled := c\<rparr>) k = ticks_to_samples t k"
  by (simp add: ticks_to_samples_def seconds_per_tick_def Let_def)

lemma wanted_loop_sent:
  "wanted_loop (on_app (\<lambda>s. (on_transport (\<lambda>t. set_loop_enabled (set_loop_region_samples t a b) c) s)
     \<lparr>as_global_loop_synced := z\<rparr>) f) = wanted_loop f"
  by (simp add: wanted_loop_def on_app_def on_transport_def set_loop_enabled_def set_loop_region_samples_def
      ticks_to_samples_loop Let_def)

text \<open>The step that sends the loop.\<close>

lemma frame_loop_sends:
  assumes "loop_synced f e"
  shows "\<exists>e'. serve w (snd (frame_loop f)) e = Served e' \<and> loop_of (en_transport e') = wanted_loop f
    \<and> loop_of (as_transport (af_app (fst (frame_loop f)))) = wanted_loop f
    \<and> as_global_loop_synced (af_app (fst (frame_loop f))) = Some (wanted_loop f)
    \<and> wanted_loop (fst (frame_loop f)) = wanted_loop f"
proof -
  obtain b x y where l: "wanted_loop f = (b, x, y)" by (cases "wanted_loop f")
  show ?thesis
  proof (cases "as_global_loop_synced (af_app f) = Some (b, x, y)")
    case True
    then show ?thesis using assms l by (simp add: frame_loop_def loop_synced_def)
  next
    case False
    then have "wanted_loop (fst (frame_loop f)) = wanted_loop f"
      by (simp add: frame_loop_def l wanted_loop_sent [unfolded l])
    then show ?thesis using False l
      by (simp add: frame_loop_def on_app_def on_transport_def loop_of_def set_loop_enabled_def
          set_loop_region_samples_def set_global_loop_def)
  qed
qed

text \<open>One frame, from a state that is in step.\<close>

lemma sync_frame_loop:
  assumes "loop_synced f e" "sync_frame dms pow2 inp f = (f', cmds)"
  shows "\<exists>e'. serve w cmds e = Served e' \<and> loop_of (en_transport e') = wanted_loop f'
     \<and> loop_of (as_transport (af_app f')) = wanted_loop f' \<and> loop_synced f' e'"
proof -
  let ?f1 = "fst (frame_plugins f)"
  let ?f2 = "frame_loop_region (frame_preview (fst (frame_tempo (frame_clock inp ?f1))))"
  let ?f3 = "fst (frame_loop ?f2)"
  have f': "f' = fst (frame_roll dms pow2 inp ?f3)"
    and cmds: "cmds = snd (frame_plugins f) @ snd (frame_tempo (frame_clock inp ?f1)) @ snd (frame_loop ?f2)
        @ snd (frame_roll dms pow2 inp ?f3)"
    using assms(2) by (simp_all add: sync_frame_def Let_def split_beta)
  obtain e1 where e1: "serve w (snd (frame_plugins f)) e = Served e1" "loop_of (en_transport e1) = loop_of (en_transport e)"
    using serve_loopless [OF frame_plugins_loopless] by blast
  obtain e2 where e2: "serve w (snd (frame_tempo (frame_clock inp ?f1))) e1 = Served e2"
    "loop_of (en_transport e2) = loop_of (en_transport e1)"
    using serve_loopless [OF frame_tempo_loopless] by blast
  have "loop_synced ?f2 e2"
    unfolding loop_synced_middle using assms(1) e1(2) e2(2) loop_synced_engine [of e2 e] loop_synced_view [OF loop_view_plugins, of f e] by simp
  then obtain e3 where e3: "serve w (snd (frame_loop ?f2)) e2 = Served e3" "loop_of (en_transport e3) = wanted_loop ?f2"
    "loop_of (as_transport (af_app ?f3)) = wanted_loop ?f2" "as_global_loop_synced (af_app ?f3) = Some (wanted_loop ?f2)"
    "wanted_loop ?f3 = wanted_loop ?f2"
    using frame_loop_sends by blast
  obtain e4 where e4: "serve w (snd (frame_roll dms pow2 inp ?f3)) e3 = Served e4"
    "loop_of (en_transport e4) = loop_of (en_transport e3)"
    using serve_loopless [OF frame_roll_loopless] by blast
  have v: "loop_view f' = loop_view ?f3" unfolding f' by (rule loop_view_roll)
  then have "loop_of (as_transport (af_app f')) = wanted_loop f'" "as_global_loop_synced (af_app f') = Some (wanted_loop f')"
    using wanted_loop_view [OF v] e3(3-5) by (simp_all add: loop_view_def)
  moreover have "serve w cmds e = Served e4" unfolding cmds by (simp add: serve_append e1 e2 e3 e4)
  moreover have "loop_of (en_transport e4) = wanted_loop f'" using e4(2) e3(2,5) wanted_loop_view [OF v] by simp
  ultimately show ?thesis by (auto simp: loop_synced_def)
qed

text \<open>The commands of the transport bar do not touch the loop of the engine.\<close>

fun bar_command :: "GuiCommand \<Rightarrow> bool" where
  "bar_command (SetAppMode _) = True"
| "bar_command Play = True"
| "bar_command Pause = True"
| "bar_command Stop = True"
| "bar_command (Seek _) = True"
| "bar_command StopPreview = True"
| "bar_command (SetBpm _) = True"
| "bar_command (SyncPlaylistClips _) = True"
| "bar_command _ = False"

lemma sync_playlist_transport: "en_transport (sync_playlist ds e) = en_transport e"
  unfolding sync_playlist_def
  by (subst fold_keeps [of en_transport]) (simp_all add: add_clip_def Let_def split_beta)

lemma handle_bar:
  assumes "bar_command c" "handle_command w False c e = Served e'"
  shows "loop_of (en_transport e') = loop_of (en_transport e)"
  using assms
  by (cases c) (auto simp: loop_of_def set_mode_def play_def pause_def stop_def seek_def on_preview_def set_bpm_def
      sync_playlist_transport split: option.splits if_splits)

lemma serve_bar:
  "list_all bar_command cs \<Longrightarrow> serve w cs e = Served e' \<Longrightarrow> loop_of (en_transport e') = loop_of (en_transport e)"
proof (induction cs arbitrary: e)
  case (Cons c cs)
  then obtain e1 where "handle_command w False c e = Served e1" "serve w cs e1 = Served e'" by (auto split: outcome.splits)
  then show ?case using Cons handle_bar [of c w e e1] by simp
qed simp

lemma bar_commands:
  "list_all bar_command (snd (play_pause f))" "list_all bar_command (snd (stop_button f))"
  "list_all bar_command (snd (mode_button m f))" "list_all bar_command (snd (bpm_typed v f))"
  by (simp_all add: play_pause_def stop_button_def mode_button_def bpm_typed_def Let_def split: GuiMode.split option.split)

lemma opened_unsynced:
  "load h co p d s = Inr (s', cs) \<Longrightarrow> as_global_loop_synced s' = None"
  "new_project h ok s = (s', cs) \<Longrightarrow> cs \<noteq> [] \<Longrightarrow> as_global_loop_synced s' = None"
  by (auto simp: load_def new_project_def project_reset_def apply_live_def apply_studio_def apply_loop_def Let_def split_beta
      split: option.splits GuiMode.splits sum.splits if_splits)

text \<open>
  The interface and the engine together: a frame, the buttons of the transport bar, the boxes, any edit of
  the timeline, the entries of the file menu, and the callback, which moves the clock of the engine.
\<close>

inductive deck_step :: "'i world \<Rightarrow> Frame \<times> 'i AudioEngine \<Rightarrow> Frame \<times> 'i AudioEngine \<Rightarrow> bool"
  for w :: "'i world" where
  deck_frame: "sync_frame dms pow2 inp f = (f', cs) \<Longrightarrow> serve w cs e = Served e' \<Longrightarrow> deck_step w (f, e) (f', e')"
| deck_play: "play_pause f = (f', cs) \<Longrightarrow> serve w cs e = Served e' \<Longrightarrow> deck_step w (f, e) (f', e')"
| deck_stop: "stop_button f = (f', cs) \<Longrightarrow> serve w cs e = Served e' \<Longrightarrow> deck_step w (f, e) (f', e')"
| deck_mode: "mode_button m f = (f', cs) \<Longrightarrow> serve w cs e = Served e' \<Longrightarrow> deck_step w (f, e) (f', e')"
| deck_bpm: "bpm_typed v f = (f', cs) \<Longrightarrow> serve w cs e = Served e' \<Longrightarrow> deck_step w (f, e) (f', e')"
| deck_sig: "deck_step w (f, e) (sig_typed text f, e)"
| deck_loop: "deck_step w (f, e) (loop_button f, e)"
| deck_record: "deck_step w (f, e) (record_button f, e)"
| deck_edit: "deck_step w (f, e) (on_app (\<lambda>s. s\<lparr>as_playlist := p\<rparr>) f, e)"
| deck_open: "load h co p d (af_app f) = Inr (s, cs) \<Longrightarrow> serve w cs e = Served e' \<Longrightarrow> deck_step w (f, e) (f\<lparr>af_app := s\<rparr>, e')"
| deck_new: "new_project h ok (af_app f) = (s, cs) \<Longrightarrow> serve w cs e = Served e' \<Longrightarrow> deck_step w (f, e) (f\<lparr>af_app := s\<rparr>, e')"
| deck_callback: "loop_of (en_transport e') = loop_of (en_transport e) \<Longrightarrow> deck_step w (f, e) (f, e')"

inductive deck_reach :: "'i world \<Rightarrow> Frame \<times> 'i AudioEngine \<Rightarrow> bool" for w :: "'i world" where
  deck_start: "as_global_loop_synced (af_app f) = None \<Longrightarrow> deck_reach w (f, e)"
| deck_more: "deck_reach w d \<Longrightarrow> deck_step w d d' \<Longrightarrow> deck_reach w d'"

text \<open>The fields of the interface the agreement is about, and what the buttons do to them.\<close>

definition sent_view :: "Frame \<Rightarrow> (bool \<times> u64 \<times> u64) option \<times> (bool \<times> u64 \<times> u64)" where
  "sent_view f = (as_global_loop_synced (af_app f), loop_of (as_transport (af_app f)))"

lemma sent_view_buttons:
  "sent_view (fst (play_pause f)) = sent_view f" "sent_view (fst (stop_button f)) = sent_view f"
  "sent_view (fst (mode_button m f)) = sent_view f" "sent_view (fst (bpm_typed v f)) = sent_view f"
  "sent_view (sig_typed text f) = sent_view f" "sent_view (loop_button f) = sent_view f"
  "sent_view (record_button f) = sent_view f" "sent_view (on_app (\<lambda>s. s\<lparr>as_playlist := p\<rparr>) f) = sent_view f"
  by (simp_all add: sent_view_def play_pause_def stop_button_def mode_button_def bpm_typed_def sig_typed_def
      loop_button_def record_button_def on_app_def on_transport_def loop_of_def Let_def split: option.split)

lemma loop_synced_sent:
  assumes "loop_synced f e" "sent_view f' = sent_view f" "loop_of (en_transport e') = loop_of (en_transport e)"
  shows "loop_synced f' e'"
  using assms by (simp add: loop_synced_def sent_view_def split: option.splits)

lemma loop_synced_none: "as_global_loop_synced (af_app f) = None \<Longrightarrow> loop_synced f e"
  by (simp add: loop_synced_def)

lemma new_project_unasked: "new_project h ok s = (s', []) \<Longrightarrow> s' = s"
  by (auto simp: new_project_def project_reset_def apply_live_def apply_studio_def apply_loop_def Let_def split_beta
      split: GuiMode.splits if_splits)

lemma deck_step_synced: "deck_step w (f, e) (f', e') \<Longrightarrow> loop_synced f e \<Longrightarrow> loop_synced f' e'"
proof (induction "(f, e)" "(f', e')" rule: deck_step.induct)
  case (deck_frame dms pow2 inp cs)
  then show ?case using sync_frame_loop [OF deck_frame(3,1), of w] by auto
next
  case (deck_play cs)
  then show ?case using bar_commands(1) [of f] sent_view_buttons(1) [of f] serve_bar loop_synced_sent by (metis fst_conv snd_conv)
next
  case (deck_stop cs)
  then show ?case using bar_commands(2) [of f] sent_view_buttons(2) [of f] serve_bar loop_synced_sent by (metis fst_conv snd_conv)
next
  case (deck_mode m cs)
  then show ?case using bar_commands(3) [of m f] sent_view_buttons(3) [of m f] serve_bar loop_synced_sent by (metis fst_conv snd_conv)
next
  case (deck_bpm v cs)
  then show ?case using bar_commands(4) [of v f] sent_view_buttons(4) [of v f] serve_bar loop_synced_sent by (metis fst_conv snd_conv)
next
  case (deck_open h co p d s cs)
  then show ?case using opened_unsynced(1) by (auto intro: loop_synced_none)
next
  case (deck_new h ok s cs)
  then show ?case
  proof (cases "cs = []")
    case True
    then show ?thesis using deck_new new_project_unasked [of h ok "af_app f" s] by auto
  next
    case False
    then show ?thesis using deck_new opened_unsynced(2) [of h ok "af_app f" s cs] by (auto intro: loop_synced_none)
  qed
qed (auto intro: loop_synced_sent simp: sent_view_buttons)

lemma deck_reach_synced: "deck_reach w d \<Longrightarrow> loop_synced (fst d) (snd d)"
proof (induction rule: deck_reach.induct)
  case (deck_more d d')
  then show ?case using deck_step_synced [of w "fst d" "snd d" "fst d'" "snd d'"] by simp
qed (simp add: loop_synced_none)

text \<open>
  C34. Whatever happened before -- buttons, edits, files opened, the callback at work -- after a frame the
  engine and the transport of the interface have the same loop: that of the timeline while looping is on
  and its region is valid, none otherwise.
\<close>

theorem frame_syncs_loop:
  assumes "deck_reach w (f, e)" "sync_frame dms pow2 inp f = (f', cmds)"
  shows "\<exists>e'. serve w cmds e = Served e' \<and> loop_of (en_transport e') = wanted_loop f'
     \<and> loop_of (as_transport (af_app f')) = wanted_loop f'"
  using sync_frame_loop [OF _ assms(2)] deck_reach_synced [OF assms(1)] by fastforce

definition demo_frame :: "AppState \<Rightarrow> Frame" where
  "demo_frame s = \<lparr> af_app = s, af_bpm_synced = Num 120, af_is_recording = False, af_is_looping = False,
     af_param_drag = None, af_param_probing = {}, af_probe_results = [], af_dragging_device = None,
     af_add_slot_menu_open = False, af_browser_filter = AllPlugins, af_browser_query = [],
     af_track_peaks = replicate 16 (Num 0), af_master_peak = Num 0, af_arranger_track_width = Num 132,
     af_roll = demo_roll, af_show_piano_roll = False, af_previewing = False, af_preview_position = Num 0,
     af_plugins = panel_default [] \<rparr>"

definition demo_input :: FrameInput where
  "demo_input = \<lparr> fi_position = 0, fi_master_peak = Num 0, fi_track_peaks = [], fi_roll_elapsed_secs = Num 0,
     fi_roll_area = (Num 800, Num 400) \<rparr>"

theorem frame_syncs_loop_witness:
  "\<forall>(w :: unit world) (e :: unit AudioEngine). \<exists>f' cmds e'. sync_frame (\<lambda>_. None) (\<lambda>x. x) demo_input (demo_frame (demo_app StudioMode [])) = (f', cmds)
     \<and> serve w cmds e = Served e' \<and> loop_of (en_transport e') = wanted_loop f'"
proof (intro allI)
  fix w :: "unit world" and e :: "unit AudioEngine"
  have "deck_reach w (demo_frame (demo_app StudioMode []), e)"
    by (rule deck_start) (simp add: demo_frame_def demo_app_def)
  then show "\<exists>f' cmds e'. sync_frame (\<lambda>_. None) (\<lambda>x. x) demo_input (demo_frame (demo_app StudioMode [])) = (f', cmds)
     \<and> serve w cmds e = Served e' \<and> loop_of (en_transport e') = wanted_loop f'"
    using frame_syncs_loop by (metis surj_pair)
qed

section \<open>The loop of an opened project\<close>

lemma ticks_to_samples_zero: "ticks_to_samples t 0 = 0"
proof -
  have z: "to_word (fround (fmul F64 (fmul F64 (Num 0) a) b)) = (0 :: u64)" for a b
    by (cases a; cases b) (auto simp: fmul_def mk_def zero_of_def inf_of_def)
  have "of_u64 F64 (0 :: u64) = Num 0" by (simp add: of_u64_def)
  then show ?thesis using z by (simp add: ticks_to_samples_def Let_def)
qed

text \<open>
  C35. While the loop button is off, the loop of an opened project is lost with the frame that follows: opening
  does not press the button, so the frame takes the loop out of the transport again, tells the engine so, and
  saving the project once more writes a file without it.  (With the button on, a timeline whose region is
  active keeps its loop.)
\<close>

theorem opened_loop_is_lost:
  assumes "load h co p d (af_app f) = Inr (s, cs)" "\<not> af_is_looping f"
    and "sync_frame dms pow2 inp (f\<lparr>af_app := s\<rparr>) = (f', cmds)"
  shows "SetGlobalLoop 0 0 False \<in> set cmds \<and> loop_of (as_transport (af_app f')) = (False, 0, 0)
     \<and> \<not> lt_loop_enabled (ol_transport (capture_live h (af_app f'))) \<and> \<not> ut_loop_enabled (ou_transport (capture_studio h (af_app f')))"
proof -
  let ?f1 = "fst (frame_plugins (f\<lparr>af_app := s\<rparr>))"
  let ?f2 = "frame_loop_region (frame_preview (fst (frame_tempo (frame_clock inp ?f1))))"
  let ?f3 = "fst (frame_loop ?f2)"
  have f': "f' = fst (frame_roll dms pow2 inp ?f3)" and cmds: "set (snd (frame_loop ?f2)) \<subseteq> set cmds"
    using assms(3) by (auto simp: sync_frame_def Let_def split_beta)
  have v: "loop_view ?f1 = loop_view (f\<lparr>af_app := s\<rparr>)" by (rule loop_view_plugins)
  have "as_global_loop_synced (af_app ?f2) = as_global_loop_synced (af_app ?f1) \<and> af_is_looping ?f2 = af_is_looping ?f1"
    by (simp add: frame_loop_region_def frame_preview_def frame_tempo_def frame_clock_def on_app_def on_transport_def
        Let_def split_beta)
  then have n: "as_global_loop_synced (af_app ?f2) = None" "\<not> af_is_looping ?f2"
    using v opened_unsynced(1) [OF assms(1)] assms(2) by (simp_all add: loop_view_def)
  have wl: "wanted_loop ?f2 = (False, 0, 0)"
    using n(2) by (simp add: wanted_loop_def ticks_to_samples_zero Let_def)
  have sent: "snd (frame_loop ?f2) = [SetGlobalLoop 0 0 False]"
    and t: "loop_of (as_transport (af_app ?f3)) = (False, 0, 0)"
    using n(1) by (simp_all add: frame_loop_def wl on_app_def on_transport_def loop_of_def set_loop_enabled_def
        set_loop_region_samples_def)
  have "as_transport (af_app f') = as_transport (af_app ?f3)" using loop_view_roll [of dms pow2 inp ?f3]
    unfolding f' loop_view_def by simp
  with t have t': "loop_of (as_transport (af_app f')) = (False, 0, 0)" by simp
  then have "\<not> tp_loop_enabled (as_transport (af_app f'))" by (simp add: loop_of_def)
  then show ?thesis using t' cmds sent by (simp add: capture_live_def capture_studio_def Let_def)
qed

definition demo_looped :: OpenStudioProject where
  "demo_looped = (template_studio ''Hikaru'')\<lparr>ou_transport := (ou_transport (template_studio ''Hikaru''))
     \<lparr>ut_loop_enabled := True, ut_loop_end_ticks := 3840\<rparr>\<rparr>"

lemma demo_load:
  "load demo_host (demo_codec l demo_looped) [''song.opsf''] [[''song.opsf''] \<mapsto> ''u''] s
     = Inr (apply_studio demo_host demo_looped (Some []) s)"
proof -
  have "format_of [''song.opsf''] = Some StudioMode" by code_simp
  then show ?thesis by (simp add: load_def parse_with_probe_def demo_codec_def FORMAT_VERSION_def path_parent_def Let_def)
qed

theorem opened_loop_is_lost_witness:
  "ut_loop_enabled (ou_transport demo_looped)
   \<and> (\<exists>f' cmds. sync_frame (\<lambda>_. None) (\<lambda>x. x) demo_input
        (demo_frame (fst (apply_studio demo_host demo_looped (Some []) (demo_app StudioMode [])))) = (f', cmds)
      \<and> SetGlobalLoop 0 0 False \<in> set cmds)"
proof -
  let ?f = "demo_frame (demo_app StudioMode [])" and ?r = "apply_studio demo_host demo_looped (Some []) (demo_app StudioMode [])"
  have r: "load demo_host (demo_codec undefined demo_looped) [''song.opsf''] [[''song.opsf''] \<mapsto> ''u''] (af_app ?f)
      = Inr (fst ?r, snd ?r)" by (simp add: demo_load demo_frame_def)
  have f: "?f\<lparr>af_app := fst ?r\<rparr> = demo_frame (fst ?r)" by (simp add: demo_frame_def)
  have "\<not> af_is_looping ?f" by (simp add: demo_frame_def)
  moreover have "ut_loop_enabled (ou_transport demo_looped)" by (simp add: demo_looped_def)
  ultimately show ?thesis using opened_loop_is_lost [OF r] unfolding f by (metis surj_pair)
qed

end
