(* ===== verification/RackLink.thy ===== *)
theory RackLink
  imports FrameLink
begin

text \<open>
  The device rack and the effect chains of the engine: moving a device, the way of a parameter from a
  plugin's own window to the instance that is heard, and the places where rack and chain part.
\<close>

section \<open>Moving keeps the devices\<close>

definition devices :: "Track list \<Rightarrow> DspSlot multiset" where
  "devices ts = mset (concat (map tk_effects ts))"

definition all_devices :: "AppState \<Rightarrow> DspSlot multiset" where
  "all_devices s = devices (as_live_tracks s) + devices (as_studio_tracks s) + devices (as_fx_tracks s)"

lemma devices_simps: "devices [] = {#}" "devices (t # ts) = mset (tk_effects t) + devices ts"
  by (simp_all add: devices_def)

lemma devices_update:
  "i < length ts \<Longrightarrow> devices (ts[i := on_effects (\<lambda>_. es) (ts ! i)]) + mset (tk_effects (ts ! i)) = devices ts + mset es"
proof (induction ts arbitrary: i)
  case (Cons t ts)
  then show ?case by (cases i) (auto simp: devices_simps on_effects_def ac_simps)
qed simp

lemma target_effects_set:
  assumes "target_effects t s = Some es"
  shows "all_devices (set_target_effects t es' s) + mset es = all_devices s + mset es'"
    and "target_effects t (set_target_effects t es' s) = Some es'"
proof -
  obtain l i where l: "strip_track (as_mode s) t = (l, i)" by fastforce
  have i: "i < length (track_list l s)" "tk_effects (track_list l s ! i) = es"
    using assms by (auto simp: target_effects_def l nth_opt_def split: if_splits)
  have d: "devices ((track_list l s)[i := on_effects (\<lambda>_. es') (track_list l s ! i)]) + mset es = devices (track_list l s) + mset es'"
    using devices_update [OF i(1)] i(2) by simp
  have m: "as_mode (set_target_effects t es' s) = as_mode s"
    by (simp add: set_target_effects_def l on_track_list_def split: TrackList.split)
  show "all_devices (set_target_effects t es' s) + mset es = all_devices s + mset es'"
    using d i(1) by (cases l) (simp_all add: all_devices_def set_target_effects_def l on_track_list_def track_list_def update_at_def ac_simps)
  show "target_effects t (set_target_effects t es' s) = Some es'"
    using i(1) m by (cases l) (simp_all add: target_effects_def set_target_effects_def l on_track_list_def track_list_def
        update_at_def nth_opt_def on_effects_def)
qed

lemma mset_insert_at: "i \<le> length xs \<Longrightarrow> mset (insert_at i x xs) = add_mset x (mset xs)"
proof -
  have "mset (take i xs) + mset (drop i xs) = mset xs" by (metis append_take_drop_id mset_append)
  then show ?thesis by (simp add: insert_at_def)
qed

lemma unat_min_vlen: "unat (min a (vlen xs)) \<le> length xs"
proof -
  have "unat (vlen xs) \<le> length xs" by (simp add: vlen_def unat_of_nat)
  then show ?thesis using word_le_nat_alt [of "min a (vlen xs)" "vlen xs"] by simp
qed

text \<open>
  C36. Dragging a device from any strip to any other neither loses nor duplicates one: the devices of all
  channels, session, timeline and returns together, stay the same multiset -- also when the target does
  not exist, when the place behind the end is asked for and when the strip is dropped on itself.
\<close>

theorem move_device_keeps_devices:
  "all_devices (af_app (fst (move_device a i b j f))) = all_devices (af_app f)"
proof -
  let ?s = "af_app f"
  show ?thesis
  proof (cases "target_effects a ?s")
    case None
    then show ?thesis by (simp add: move_device_def Let_def)
  next
    case (Some es)
    show ?thesis
    proof (cases "i < vlen es \<and> \<not> move_noop a i b j (vlen es)")
      case False
      then show ?thesis using Some by (auto simp: move_device_def Let_def not_less)
    next
      case True
      have len: "unat i < length es"
        using True unat_min_vlen [of "vlen es" es] by (simp add: word_less_nat_alt)
      let ?rest = "remove_at (unat i) es" and ?slot = "es ! unat i"
      let ?s1 = "set_target_effects a ?rest ?s"
      note set1 = target_effects_set [OF Some, of ?rest]
      have gone: "all_devices ?s1 + {#?slot#} = all_devices ?s"
        using set1(1) mset_remove_at [OF len] by simp
      have sel: "all_devices (if p then s\<lparr>as_selected_track_index := x, as_selected_slot_index := y\<rparr> else s) = all_devices s"
        for p s x y by (simp add: all_devices_def)
      show ?thesis
      proof (cases "target_effects b ?s1")
        case None
        have "all_devices (set_target_effects a (insert_at (unat (min i (vlen ?rest))) ?slot ?rest) ?s1) = all_devices ?s1 + {#?slot#}"
          using target_effects_set(1) [OF set1(2), of "insert_at (unat (min i (vlen ?rest))) ?slot ?rest"]
          by (simp add: mset_insert_at unat_min_vlen)
        then show ?thesis using True Some None set1(2) gone by (simp add: move_device_def Let_def not_le)
      next
        case (Some ds)
        have "all_devices (set_target_effects b (insert_at (unat (min j (vlen ds))) ?slot ds) ?s1) = all_devices ?s1 + {#?slot#}"
          using target_effects_set(1) [OF Some, of "insert_at (unat (min j (vlen ds))) ?slot ds"]
          by (simp add: mset_insert_at unat_min_vlen)
        then show ?thesis using True Some \<open>target_effects a ?s = Some es\<close> gone
          by (simp add: move_device_def Let_def not_le sel)
      qed
    qed
  qed
qed

section \<open>What the user moves in the plugin's window\<close>

lemma map_of_map_first:
  "i \<in> fst ` set ps \<Longrightarrow> map_of (map_first (\<lambda>(j, _). j = i) (\<lambda>(j, _). (j, v)) ps) = (map_of ps)(i \<mapsto> v)"
proof (induction ps)
  case (Cons p ps)
  then show ?case
  proof (cases "fst p = i")
    case False
    then have "i \<in> fst ` set ps" using Cons.prems by auto
    then show ?thesis using Cons.IH False by (cases p) (auto simp: fun_eq_iff)
  qed (cases p, auto simp: fun_eq_iff)
qed simp

lemma keys_map_first: "map fst (map_first (\<lambda>(j, _). j = i) (\<lambda>(j, _). (j, v)) ps) = map fst ps"
  by (induction ps) auto

lemma enqueue_pending:
  "map_of (ds_pending (enqueue_external_param i v s)) = (map_of (ds_pending s))(i \<mapsto> v)
   \<and> (distinct (map fst (ds_pending s)) \<longrightarrow> distinct (map fst (ds_pending (enqueue_external_param i v s))))
   \<and> ds_external (enqueue_external_param i v s) = ds_external s"
proof (cases "i \<in> fst ` set (ds_pending s)")
  case True
  then show ?thesis by (simp add: enqueue_external_param_def map_of_map_first keys_map_first)
next
  case False
  then have "map_of (ds_pending s) i = None" by (simp add: map_of_eq_None_iff)
  then have "map_of (ds_pending s @ [(i, v)]) = (map_of (ds_pending s))(i \<mapsto> v)"
    by (auto simp: fun_eq_iff map_add_def split: option.split)
  then show ?thesis using False by (simp add: enqueue_external_param_def)
qed

lemma set_param_shape:
  "snd (set_external_param i u s) = s
   \<or> (\<exists>t ps. snd (set_external_param i u s) = enqueue_external_param i t (s\<lparr>ds_external_params := ps\<rparr>))"
  by (auto simp: set_external_param_def Let_def split: option.split)

lemma set_param_pending:
  "(map_of (ds_pending (snd (set_external_param i u s))))(i \<mapsto> v) = (map_of (ds_pending s))(i \<mapsto> v)
   \<and> (distinct (map fst (ds_pending s)) \<longrightarrow> distinct (map fst (ds_pending (snd (set_external_param i u s)))))
   \<and> ds_external (snd (set_external_param i u s)) = ds_external s"
  using set_param_shape [of i u s]
proof (elim disjE exE)
  fix t ps assume "snd (set_external_param i u s) = enqueue_external_param i t (s\<lparr>ds_external_params := ps\<rparr>)"
  then show ?thesis using enqueue_pending [of i t "s\<lparr>ds_external_params := ps\<rparr>"] by simp
qed simp

lemma set_param_then_enqueue:
  fixes s :: DspSlot and i :: u32 and u v :: f32
  defines "s' \<equiv> enqueue_external_param i v (snd (set_external_param i u s))"
  shows "map_of (ds_pending s') = (map_of (ds_pending s))(i \<mapsto> v)
    \<and> (distinct (map fst (ds_pending s)) \<longrightarrow> distinct (map fst (ds_pending s'))) \<and> ds_external s' = ds_external s"
  using set_param_pending [of i u s v] enqueue_pending [of i v "snd (set_external_param i u s)"] by (simp add: s'_def)

text \<open>The values that are not held by the mouse, later ones before earlier ones.\<close>

definition free_changes :: "(u32 \<Rightarrow> bool) \<Rightarrow> (u32 \<times> f32) list \<Rightarrow> (u32 \<times> f32) list" where
  "free_changes held cs = rev (filter (\<lambda>(i, _). \<not> held i) cs)"

lemma receive_changes_pending:
  "map_of (ds_pending (snd (receive_changes held cs s))) = map_of (ds_pending s) ++ map_of (free_changes held cs)
   \<and> (distinct (map fst (ds_pending s)) \<longrightarrow> distinct (map fst (ds_pending (snd (receive_changes held cs s)))))
   \<and> ds_external (snd (receive_changes held cs s)) = ds_external s"
proof -
  let ?g = "\<lambda>(i, v) (changed, slot). if held i then (changed, slot)
             else let (shown, slot) = set_external_param i v slot in (changed \<or> shown \<noteq> None, enqueue_external_param i v slot)"
  have "map_of (ds_pending (snd (fold ?g cs (b, s)))) = map_of (ds_pending s) ++ map_of (free_changes held cs)
     \<and> (distinct (map fst (ds_pending s)) \<longrightarrow> distinct (map fst (ds_pending (snd (fold ?g cs (b, s))))))
     \<and> ds_external (snd (fold ?g cs (b, s))) = ds_external s" for b
  proof (induction cs arbitrary: b s)
    case Nil
    then show ?case by (simp add: free_changes_def)
  next
    case (Cons c cs)
    obtain i v where c: "c = (i, v)" by fastforce
    show ?case
    proof (cases "held i")
      case True
      then show ?thesis using Cons.IH [of b s] by (simp add: c free_changes_def)
    next
      case False
      let ?s = "enqueue_external_param i v (snd (set_external_param i v s))"
      have f: "fold ?g (c # cs) (b, s) = fold ?g cs (b \<or> fst (set_external_param i v s) \<noteq> None, ?s)"
        using False by (simp add: c Let_def split_beta)
      have m: "m(i \<mapsto> v) ++ map_of (free_changes held cs) = m ++ map_of (free_changes held (c # cs))" for m :: "u32 \<rightharpoonup> f32"
        using False by (simp add: c free_changes_def map_add_def fun_eq_iff split: option.split)
      note ih = Cons.IH [of "b \<or> fst (set_external_param i v s) \<noteq> None" ?s] and u = set_param_then_enqueue [of i v v s]
      have "map_of (ds_pending (snd (fold ?g cs (b \<or> fst (set_external_param i v s) \<noteq> None, ?s))))
          = map_of (ds_pending s) ++ map_of (free_changes held (c # cs))" by (simp only: ih u m)
      moreover have "distinct (map fst (ds_pending s)) \<longrightarrow> distinct (map fst (ds_pending (snd (fold ?g cs (b \<or> fst (set_external_param i v s) \<noteq> None, ?s)))))"
        "ds_external (snd (fold ?g cs (b \<or> fst (set_external_param i v s) \<noteq> None, ?s))) = ds_external s"
        using ih u by simp_all
      ultimately show ?thesis unfolding f by (intro conjI)
    qed
  qed
  then show ?thesis by (simp add: receive_changes_def)
qed

text \<open>One element of a list decides.\<close>

lemma filter_concat_single:
  assumes "i < length xs" "\<And>j. j < length xs \<Longrightarrow> j \<noteq> i \<Longrightarrow> filter P (g (j, xs ! j)) = []"
  shows "filter P (concat (map g (enumerate 0 xs))) = filter P (g (i, xs ! i))"
proof -
  let ?h = "\<lambda>k. filter P (g (k, xs ! k))"
  have e: "map g (enumerate 0 xs) = map (\<lambda>k. g (k, xs ! k)) [0..<length xs]"
    by (rule nth_equalityI) (simp_all add: nth_enumerate_eq)
  have s: "[0..<length xs] = [0..<i] @ i # [Suc i..<length xs]"
  proof -
    obtain k where k: "length xs = i + Suc k" using less_natE [OF assms(1)] by auto
    have "[0..<i + Suc k] = [0..<i] @ [i..<i + Suc k]" by (rule upt_add_eq_append) simp
    then show ?thesis unfolding k by (simp add: upt_conv_Cons del: upt_Suc)
  qed
  have "filter P (concat (map (\<lambda>k. g (k, xs ! k)) [0..<i])) = []" "filter P (concat (map (\<lambda>k. g (k, xs ! k)) [Suc i..<length xs])) = []"
  proof -
    have no: "\<not> P x" if "k < length xs" "k \<noteq> i" "x \<in> set (g (k, xs ! k))" for k x
      using assms(2) [OF that(1,2)] that(3) by (simp add: filter_empty_conv)
    show "filter P (concat (map (\<lambda>k. g (k, xs ! k)) [0..<i])) = []"
      unfolding filter_empty_conv
    proof
      fix x assume "x \<in> set (concat (map (\<lambda>k. g (k, xs ! k)) [0..<i]))"
      then obtain k where "k < i" "x \<in> set (g (k, xs ! k))" by auto
      then show "\<not> P x" using no [of k x] assms(1) by simp
    qed
    show "filter P (concat (map (\<lambda>k. g (k, xs ! k)) [Suc i..<length xs])) = []"
      unfolding filter_empty_conv
    proof
      fix x assume "x \<in> set (concat (map (\<lambda>k. g (k, xs ! k)) [Suc i..<length xs]))"
      then obtain k where "i < k" "k < length xs" "x \<in> set (g (k, xs ! k))" by (auto simp: Suc_le_eq)
      then show "\<not> P x" using no [of k x] by simp
    qed
  qed
  then show ?thesis unfolding e s by simp
qed

lemma app_tracks_on: "app_tracks (on_tracks g s) = g (app_tracks s)"
  by (simp add: app_tracks_def on_tracks_def split: GuiMode.split)

lemma app_tracks_selected: "app_tracks (s\<lparr>as_selected_slot_index := i\<rparr>) = app_tracks s"
  by (simp add: app_tracks_def split: GuiMode.split)

definition slot_of :: "Frame \<Rightarrow> nat \<Rightarrow> nat \<Rightarrow> DspSlot" where
  "slot_of f t i = tk_effects (app_tracks (af_app f) ! t) ! i"

definition slot_exists :: "Frame \<Rightarrow> nat \<Rightarrow> nat \<Rightarrow> bool" where
  "slot_exists f t i \<longleftrightarrow> t < length (app_tracks (af_app f)) \<and> i < length (tk_effects (app_tracks (af_app f) ! t))"

lemma feedback_event_slot:
  assumes "t < length ts" "i < length (tk_effects (ts ! t))"
  shows "tk_effects (snd (feedback_event drag ev ts) ! t) ! i = snd (receive_event drag ev t i (tk_effects (ts ! t) ! i))
    \<and> length (snd (feedback_event drag ev ts)) = length ts
    \<and> length (tk_effects (snd (feedback_event drag ev ts) ! t)) = length (tk_effects (ts ! t))"
  using assms by (simp add: feedback_event_def Let_def nth_enumerate_eq)

lemma feedback_slot:
  assumes "slot_exists f t i"
  shows "slot_exists (snd (apply_param_feedback [ev] f)) t i
    \<and> slot_of (snd (apply_param_feedback [ev] f)) t i = snd (receive_event (af_param_drag f) ev t i (slot_of f t i))
    \<and> length (app_tracks (af_app (snd (apply_param_feedback [ev] f)))) = length (app_tracks (af_app f))"
  using assms feedback_event_slot [of t "app_tracks (af_app f)" i "af_param_drag f" ev]
  by (simp add: slot_exists_def slot_of_def apply_param_feedback_def on_app_def app_tracks_on Let_def split_beta)

lemma feedback_small:
  assumes "vec_ok (app_tracks (af_app f))" "\<forall>track \<in> set (app_tracks (af_app f)). vec_ok (tk_effects track)"
  shows "vec_ok (app_tracks (af_app (snd (apply_param_feedback [ev] f))))
    \<and> (\<forall>track \<in> set (app_tracks (af_app (snd (apply_param_feedback [ev] f)))). vec_ok (tk_effects track))"
proof -
  let ?ts = "app_tracks (af_app f)"
  let ?new = "snd (feedback_event (af_param_drag f) ev ?ts)"
  have t: "app_tracks (af_app (snd (apply_param_feedback [ev] f))) = ?new"
    by (simp add: apply_param_feedback_def on_app_def app_tracks_on Let_def split_beta)
  have l: "length ?new = length ?ts" by (simp add: feedback_event_def Let_def)
  have "length (tk_effects (?new ! k)) = length (tk_effects (?ts ! k))" if "k < length ?ts" for k
    using that by (simp add: feedback_event_def Let_def nth_enumerate_eq)
  then have "\<forall>k < length ?new. vec_ok (tk_effects (?new ! k))" using assms(2) l by (simp add: vec_ok_def)
  then show ?thesis using assms(1) l unfolding t by (simp add: vec_ok_def all_set_conv_all_nth)
qed

lemma flush_slot:
  assumes "slot_exists f t i" "0 < t"
  shows "slot_of (fst (flush_pending_external_params f)) t i = drained_slot (slot_of f t i)"
proof -
  let ?ts = "app_tracks (af_app f)"
  have "t - 1 < length (drop 1 ?ts)" "t < length ?ts" using assms unfolding slot_exists_def length_drop by linarith+
  then have "(take 1 ?ts @ map (on_effects (map drained_slot)) (drop 1 ?ts)) ! t = on_effects (map drained_slot) (?ts ! t)"
    using assms(2) nth_map [of "t - 1" "drop 1 ?ts" "on_effects (map drained_slot)"] by (simp add: nth_append)
  then show ?thesis using assms
    by (simp add: slot_of_def slot_exists_def flush_pending_external_params_def on_app_def app_tracks_on on_effects_def)
qed

text \<open>The command for one slot of the engine.\<close>

definition goes_to :: "nat \<Rightarrow> nat \<Rightarrow> GuiCommand \<Rightarrow> bool" where
  "goes_to t i c \<longleftrightarrow> (\<exists>ps. c = SyncExternalPluginParams (word_of_nat (t - 1)) (word_of_nat i) ps)"

lemma word_of_nat_eq: "i < 2 ^ 62 \<Longrightarrow> j < 2 ^ 62 \<Longrightarrow> (word_of_nat i :: usize) = word_of_nat j \<longleftrightarrow> i = j"
proof
  assume "i < 2 ^ 62" "j < 2 ^ 62" "(word_of_nat i :: usize) = word_of_nat j"
  then have "unat (word_of_nat i :: usize) = unat (word_of_nat j :: usize)" by simp
  then show "i = j" using \<open>i < 2 ^ 62\<close> \<open>j < 2 ^ 62\<close> by (simp add: unat_of_nat)
qed simp

lemma flush_commands:
  assumes ex: "slot_exists f t i" "0 < t"
    and small: "vec_ok (app_tracks (af_app f))" "\<forall>track \<in> set (app_tracks (af_app f)). vec_ok (tk_effects track)"
  shows "filter (goes_to t i) (snd (flush_pending_external_params f)) = pending_of_slot (word_of_nat (t - 1)) i (slot_of f t i)"
proof -
  let ?ts = "app_tracks (af_app f)"
  let ?slot = "\<lambda>t. \<lambda>(i, slot). pending_of_slot (word_of_nat t - 1) i slot"
  let ?g = "\<lambda>(t, track). if t = 0 then [] else concat (map (?slot t) (enumerate 0 (tk_effects track)))"
  have t: "t < length ?ts" "i < length (tk_effects (?ts ! t))" using ex by (simp_all add: slot_exists_def)
  have len: "length ?ts < 2 ^ 62" using small(1) by (simp add: vec_ok_def)
  have lens: "length (tk_effects (?ts ! k)) < 2 ^ 62" if "k < length ?ts" for k
    using small(2) that by (simp add: vec_ok_def)
  have w: "(word_of_nat k - 1 :: usize) = word_of_nat (k - 1)" if "0 < k" for k using that by (simp add: of_nat_diff)
  have other: "filter (goes_to t i) (?slot k (j, s)) = []"
    if "k < length ?ts" "0 < k" "j < length (tk_effects (?ts ! k))" "(k, j) \<noteq> (t, i)" for k j s
  proof -
    have "(word_of_nat (k - 1) :: usize) = word_of_nat (t - 1) \<longleftrightarrow> k - 1 = t - 1"
      by (rule word_of_nat_eq) (use that len t in linarith)+
    moreover have "(word_of_nat j :: usize) = word_of_nat i \<longleftrightarrow> j = i"
      by (rule word_of_nat_eq) (use that t lens [OF that(1)] lens [OF t(1)] in linarith)+
    ultimately have "\<not> (k - 1 = t - 1 \<and> j = i) \<longrightarrow> \<not> goes_to t i (SyncExternalPluginParams (word_of_nat (k - 1)) (word_of_nat j) ps)" for ps
      by (simp add: goes_to_def)
    moreover have "\<not> (k - 1 = t - 1 \<and> j = i)" using that ex(2) by auto
    ultimately show ?thesis using w [OF that(2)] by (simp add: pending_of_slot_def Let_def)
  qed
  have "filter (goes_to t i) (?g (k, ?ts ! k)) = []" if "k < length ?ts" "k \<noteq> t" for k
  proof (cases "k = 0")
    case False
    have "filter (goes_to t i) (?slot k p) = []" if "p \<in> set (enumerate 0 (tk_effects (?ts ! k)))" for p
      using that other [of k "fst p" "snd p"] \<open>k < length ?ts\<close> \<open>k \<noteq> t\<close> False by (auto simp: in_set_enumerate_eq)
    then have "\<forall>p \<in> set (enumerate 0 (tk_effects (?ts ! k))). \<forall>c \<in> set (?slot k p). \<not> goes_to t i c"
      by (simp add: filter_empty_conv)
    then show ?thesis using False by (simp add: filter_empty_conv)
  qed simp
  then have "filter (goes_to t i) (snd (flush_pending_external_params f)) = filter (goes_to t i) (?g (t, ?ts ! t))"
    unfolding flush_pending_external_params_def snd_conv by (rule filter_concat_single [OF t(1)])
  also have "\<dots> = filter (goes_to t i) (concat (map (?slot t) (enumerate 0 (tk_effects (?ts ! t)))))" using ex(2) by simp
  also have "\<dots> = filter (goes_to t i) (?slot t (i, tk_effects (?ts ! t) ! i))"
    by (rule filter_concat_single [OF t(2)]) (use other t ex(2) in blast)
  also have "\<dots> = pending_of_slot (word_of_nat (t - 1)) i (slot_of f t i)"
    using w [OF ex(2)] by (simp add: slot_of_def pending_of_slot_def goes_to_def Let_def)
  finally show ?thesis .
qed

text \<open>What the events of a frame bring for the plugin of a slot, in order.\<close>

definition changes_for :: "ParamFeedbackEvent list \<Rightarrow> DspSlot \<Rightarrow> (u32 \<times> f32) list" where
  "changes_for events slot = concat (map fb_changes (filter (\<lambda>ev. holds_plugin (fb_descriptor_id ev) slot) events))"

lemma feedback_snoc:
  "snd (apply_param_feedback (events @ [ev]) f) = snd (apply_param_feedback [ev] (snd (apply_param_feedback events f)))"
  by (simp add: apply_param_feedback_def Let_def split_beta)

lemma feedback_drag: "af_param_drag (snd (apply_param_feedback events f)) = af_param_drag f"
proof (induction events rule: rev_induct)
  case Nil
  show ?case by (simp add: apply_param_feedback_def)
next
  case (snoc ev events)
  have "af_param_drag (snd (apply_param_feedback [ev] g)) = af_param_drag g" for g
    by (simp add: apply_param_feedback_def on_app_def Let_def split_beta)
  then show ?case using snoc by (simp only: feedback_snoc)
qed

lemma free_changes_append: "map_of (free_changes held (xs @ ys)) = map_of (free_changes held xs) ++ map_of (free_changes held ys)"
  by (simp add: free_changes_def)

lemma receive_event_pending:
  fixes drag t i
  defines "held \<equiv> drag_holds drag t i"
  shows "map_of (ds_pending (snd (receive_event drag ev t i s)))
      = map_of (ds_pending s) ++ map_of (free_changes held (changes_for [ev] s))
    \<and> (distinct (map fst (ds_pending s)) \<longrightarrow> distinct (map fst (ds_pending (snd (receive_event drag ev t i s)))))
    \<and> ds_external (snd (receive_event drag ev t i s)) = ds_external s"
  using receive_changes_pending [of held "fb_changes ev" s]
  by (simp add: receive_event_def changes_for_def held_def) (simp add: free_changes_def)

lemma holds_external: "ds_external s' = ds_external s \<Longrightarrow> changes_for events s' = changes_for events s"
  by (simp add: changes_for_def holds_plugin_def)

lemma feedback_slots:
  fixes f t i events
  defines "f1 \<equiv> snd (apply_param_feedback events f)" and "held \<equiv> drag_holds (af_param_drag f) t i"
  assumes "slot_exists f t i" "distinct (map fst (ds_pending (slot_of f t i)))"
    and small: "vec_ok (app_tracks (af_app f))" "\<forall>track \<in> set (app_tracks (af_app f)). vec_ok (tk_effects track)"
  shows "slot_exists f1 t i \<and> vec_ok (app_tracks (af_app f1)) \<and> (\<forall>track \<in> set (app_tracks (af_app f1)). vec_ok (tk_effects track))
    \<and> map_of (ds_pending (slot_of f1 t i))
        = map_of (ds_pending (slot_of f t i)) ++ map_of (free_changes held (changes_for events (slot_of f t i)))
    \<and> distinct (map fst (ds_pending (slot_of f1 t i))) \<and> ds_external (slot_of f1 t i) = ds_external (slot_of f t i)"
  unfolding f1_def
proof (induction events rule: rev_induct)
  case Nil
  show ?case using assms by (simp add: apply_param_feedback_def changes_for_def free_changes_def)
next
  case (snoc ev events)
  let ?g = "snd (apply_param_feedback events f)" and ?s = "slot_of f t i"
  let ?s1 = "slot_of ?g t i"
  have g: "slot_exists ?g t i" "vec_ok (app_tracks (af_app ?g))" "\<forall>track \<in> set (app_tracks (af_app ?g)). vec_ok (tk_effects track)"
    "map_of (ds_pending ?s1) = map_of (ds_pending ?s) ++ map_of (free_changes held (changes_for events ?s))"
    "distinct (map fst (ds_pending ?s1))" "ds_external ?s1 = ds_external ?s"
    using snoc by simp_all
  note one = feedback_slot [OF g(1), of ev] and vecs = feedback_small [OF g(2,3), of ev]
  note p = receive_event_pending [of "af_param_drag ?g" ev t i ?s1]
  have held: "drag_holds (af_param_drag ?g) t i = held" by (simp add: feedback_drag held_def)
  have new: "changes_for [ev] ?s1 = changes_for [ev] ?s" by (rule holds_external [OF g(6)])
  have all: "changes_for (events @ [ev]) ?s = changes_for events ?s @ changes_for [ev] ?s" by (simp add: changes_for_def)
  have "map_of (ds_pending (snd (receive_event (af_param_drag ?g) ev t i ?s1)))
      = map_of (ds_pending ?s) ++ map_of (free_changes held (changes_for (events @ [ev]) ?s))"
    using p unfolding all free_changes_append held new g(4) by (simp add: map_add_assoc)
  then show ?case using one vecs p g(5,6) unfolding feedback_snoc by simp
qed

text \<open>
  C37. Changes the user makes in the windows of plugins reach the engine in the same frame, from every channel
  but the master: whatever events the frame collected, for the slot of a plugin with a change that is not
  under the mouse exactly one command is sent, to the engine's number of the channel and the place in the
  rack, with the last value of every parameter that is not under the mouse, over whatever was still waiting;
  and nothing waits afterwards.
\<close>

theorem feedback_reaches_engine:
  assumes "slot_exists f t i" "0 < t" "distinct (map fst (ds_pending (slot_of f t i)))"
    and small: "vec_ok (app_tracks (af_app f))" "\<forall>track \<in> set (app_tracks (af_app f)). vec_ok (tk_effects track)"
    and some: "free_changes (drag_holds (af_param_drag f) t i) (changes_for events (slot_of f t i)) \<noteq> []"
    and frame: "apply_param_feedback events f = (c, f1)" "flush_pending_external_params f1 = (f2, cmds)"
  shows "\<exists>ps. filter (goes_to t i) cmds = [SyncExternalPluginParams (word_of_nat (t - 1)) (word_of_nat i) ps]
     \<and> distinct (map fst ps)
     \<and> map_of ps = map_of (ds_pending (slot_of f t i))
         ++ map_of (free_changes (drag_holds (af_param_drag f) t i) (changes_for events (slot_of f t i)))
     \<and> ds_pending (slot_of f2 t i) = []"
proof -
  let ?new = "free_changes (drag_holds (af_param_drag f) t i) (changes_for events (slot_of f t i))"
  have f1: "slot_exists f1 t i" "vec_ok (app_tracks (af_app f1))" "\<forall>track \<in> set (app_tracks (af_app f1)). vec_ok (tk_effects track)"
    "map_of (ds_pending (slot_of f1 t i)) = map_of (ds_pending (slot_of f t i)) ++ map_of ?new"
    "distinct (map fst (ds_pending (slot_of f1 t i)))" "ds_external (slot_of f1 t i) = ds_external (slot_of f t i)"
    using feedback_slots [OF assms(1,3) small, of events] frame(1) by simp_all
  have "changes_for events (slot_of f t i) \<noteq> []" using some by (auto simp: free_changes_def)
  then have "ds_external (slot_of f t i) \<noteq> None" by (auto simp: changes_for_def holds_plugin_def filter_empty_conv split: option.splits)
  moreover have "ds_pending (slot_of f1 t i) \<noteq> []"
  proof
    assume "ds_pending (slot_of f1 t i) = []"
    then have "map_of (ds_pending (slot_of f t i)) ++ map_of ?new = Map.empty" using f1(4) by (metis map_of.simps(1))
    then show False using some by simp
  qed
  ultimately have "pending_of_slot (word_of_nat (t - 1)) i (slot_of f1 t i)
      = [SyncExternalPluginParams (word_of_nat (t - 1)) (word_of_nat i) (ds_pending (slot_of f1 t i))]"
    "ds_pending (drained_slot (slot_of f1 t i)) = []"
    by (simp_all add: f1(6) pending_of_slot_def drained_slot_def take_pending_external_params_def)
  then show ?thesis using flush_commands [OF f1(1) assms(2) f1(2,3)] flush_slot [OF f1(1) assms(2)] frame(2) f1(4,5) by auto
qed

definition demo_plugin :: PluginDescriptor where
  "demo_plugin = \<lparr> pd_id = ''clap:/p'', pd_name = ''P'', pd_vendor = [], pd_path = [''p''], pd_format = CLAP,
     pd_kind = Effect, pd_has_gui = False, pd_input_channels = None \<rparr>"

definition demo_slot :: DspSlot where
  "demo_slot = (dsp_slot_new None 0 ''P'')\<lparr>ds_external := Some demo_plugin\<rparr>"

definition demo_rack :: "DspSlot list \<Rightarrow> AppState" where
  "demo_rack es = demo_app LiveMode [track_new 0 ''MASTER'' True, (track_new 1 ''A'' False)\<lparr>tk_effects := es\<rparr>]"

lemma demo_rack_tracks:
  "app_tracks (demo_rack es) = [track_new 0 ''MASTER'' True, (track_new 1 ''A'' False)\<lparr>tk_effects := es\<rparr>]"
  by (simp add: demo_rack_def demo_app_def app_tracks_def)

lemma track_new_effects: "tk_effects (track_new i n m) = []"
  by (simp add: track_new_def)

definition moved_knob :: ParamFeedbackEvent where
  "moved_knob = \<lparr> fb_descriptor_id = ''clap:/p'', fb_changes = [(7, Num (1 / 2)), (7, Num 1)], fb_origin = FromEditor \<rparr>"

definition other_knob :: ParamFeedbackEvent where
  "other_knob = moved_knob\<lparr>fb_changes := [(8, Num 0), (7, Num (1 / 4))]\<rparr>"

theorem feedback_reaches_engine_witness:
  "\<exists>ps cmds. filter (goes_to 1 0) cmds = [SyncExternalPluginParams 0 0 ps] \<and> map_of ps = [7 \<mapsto> Num (1 / 4), 8 \<mapsto> Num 0]
     \<and> cmds = snd (flush_pending_external_params
          (snd (apply_param_feedback [moved_knob, other_knob] (demo_frame (demo_rack [demo_slot])))))"
proof -
  let ?f = "demo_frame (demo_rack [demo_slot])" and ?evs = "[moved_knob, other_knob]"
  have t: "app_tracks (af_app ?f) = [track_new 0 ''MASTER'' True, (track_new 1 ''A'' False)\<lparr>tk_effects := [demo_slot]\<rparr>]"
    by (simp add: demo_frame_def demo_rack_tracks)
  have ex: "slot_exists ?f 1 0" and slot: "slot_of ?f 1 0 = demo_slot" by (simp_all add: slot_exists_def slot_of_def t)
  have small: "vec_ok (app_tracks (af_app ?f))" "\<forall>track \<in> set (app_tracks (af_app ?f)). vec_ok (tk_effects track)"
    by (simp_all add: t vec_ok_def track_new_effects)
  have p: "ds_pending demo_slot = []" by (simp add: demo_slot_def dsp_slot_new_def)
  have "changes_for ?evs demo_slot = [(7, Num (1 / 2)), (7, Num 1), (8, Num 0), (7, Num (1 / 4))]"
    by (simp add: changes_for_def holds_plugin_def other_knob_def moved_knob_def demo_slot_def demo_plugin_def)
  then have free: "free_changes (drag_holds (af_param_drag ?f) 1 0) (changes_for ?evs (slot_of ?f 1 0))
      = [(7, Num (1 / 4)), (8, Num 0), (7, Num 1), (7, Num (1 / 2))]"
    unfolding slot by (simp add: free_changes_def drag_holds_def demo_frame_def)
  have distinct: "distinct (map fst (ds_pending (slot_of ?f 1 0)))" unfolding slot p by simp
  have some: "free_changes (drag_holds (af_param_drag ?f) 1 0) (changes_for ?evs (slot_of ?f 1 0)) \<noteq> []" unfolding free by simp
  obtain ps where ps: "filter (goes_to 1 0) (snd (flush_pending_external_params (snd (apply_param_feedback ?evs ?f))))
      = [SyncExternalPluginParams (word_of_nat (1 - 1)) (word_of_nat 0) ps]"
    "map_of ps = map_of (ds_pending (slot_of ?f 1 0))
       ++ map_of (free_changes (drag_holds (af_param_drag ?f) 1 0) (changes_for ?evs (slot_of ?f 1 0)))"
    using feedback_reaches_engine [OF ex zero_less_one distinct small some surjective_pairing surjective_pairing] by blast
  have "map_of ps = [7 \<mapsto> Num (1 / 4), 8 \<mapsto> Num 0]" unfolding ps(2) slot p free[unfolded slot] by (simp add: fun_eq_iff)
  then show ?thesis using ps(1) by (intro exI conjI) simp_all
qed

section \<open>The rack and the chains of the engine\<close>

text \<open>
  Every session channel holds external plugins only, and the chain of its engine track holds them under
  their names in the same order.
\<close>

definition rack_mirrored :: "AppState \<Rightarrow> 'i AudioEngine \<Rightarrow> bool" where
  "rack_mirrored s e \<longleftrightarrow> as_mode s = LiveMode \<and> length (cs_effects (en_chains e)) = 16
     \<and> (\<forall>k < 16. Suc k < length (as_live_tracks s) \<longrightarrow>
          map pn_name (cs_effects (en_chains e) ! k) = map ds_name (tk_effects (as_live_tracks s ! Suc k))
          \<and> (\<forall>slot \<in> set (tk_effects (as_live_tracks s ! Suc k)). ds_external slot \<noteq> None))"

lemma map_remove_at: "map g (remove_at i xs) = remove_at i (map g xs)"
  by (simp add: remove_at_def take_map drop_map)

lemma map_insert_at: "map g (insert_at i x xs) = insert_at i (g x) (map g xs)"
  by (simp add: insert_at_def take_map drop_map)

lemma live_effects:
  assumes "unat a < 16"
  shows "target_effects (LiveStrip a) s = map_option tk_effects (nth_opt (as_live_tracks s) (Suc (unat a)))"
    and "set_target_effects (LiveStrip a) es s
      = s\<lparr>as_live_tracks := update_at (Suc (unat a)) (on_effects (\<lambda>_. es)) (as_live_tracks s)\<rparr>"
proof -
  have "unat (a + 1) = Suc (unat a)" using assms by (simp add: unat_add_small)
  then show "target_effects (LiveStrip a) s = map_option tk_effects (nth_opt (as_live_tracks s) (Suc (unat a)))"
    "set_target_effects (LiveStrip a) es s
      = s\<lparr>as_live_tracks := update_at (Suc (unat a)) (on_effects (\<lambda>_. es)) (as_live_tracks s)\<rparr>"
    by (simp_all add: target_effects_def set_target_effects_def strip_track_def track_list_def on_track_list_def)
qed

text \<open>What a move does to both sides, channel by channel: \<open>X\<close> is a list of racks or of chains.\<close>

definition shifted :: "nat \<Rightarrow> nat \<Rightarrow> nat \<Rightarrow> nat \<Rightarrow> 'a list list \<Rightarrow> 'a list list" where
  "shifted a i b d X =
     (let X1 = X[a := remove_at i (X ! a)] in X1[b := insert_at d (X ! a ! i) (X1 ! b)])"

lemma length_shifted [simp]: "length (shifted a i b d X) = length X"
  by (simp add: shifted_def Let_def)

lemma shifted_agree:
  assumes "\<And>k. k < 16 \<Longrightarrow> Suc k < length G \<Longrightarrow> E ! k = G ! Suc k" "length E = 16" "a < 16" "b < 16"
    "Suc a < length G" "Suc b < length G"
  shows "k < 16 \<Longrightarrow> Suc k < length G \<Longrightarrow> shifted a i b d E ! k = shifted (Suc a) i (Suc b) d G ! Suc k"
  using assms by (simp add: shifted_def Let_def nth_list_update)

lemma map_shifted:
  assumes "a < length X" "b < length X" "i < length (X ! a)"
  shows "map (map g) (shifted a i b d X) = shifted a i b d (map (map g) X)"
  using assms by (simp add: shifted_def Let_def map_update map_remove_at map_insert_at nth_list_update)

lemma set_shifted:
  assumes "a < length X" "b < length X" "k < length X" "i < length (X ! a)"
  shows "set (shifted a i b d X ! k) \<subseteq> set (X ! k) \<union> set (X ! a)"
  using assms set_remove_at [of i "X ! a"] nth_mem [OF assms(4)]
  by (auto simp: shifted_def Let_def nth_list_update set_insert_at)

lemma engine_move:
  assumes "length (cs_effects st) = 16" "unat a < 16" "unat b < 16" "vec_ok (cs_effects st ! unat a)"
    "unat i < length (cs_effects st ! unat a)"
    "unat d \<le> length (if a = b then remove_at (unat i) (cs_effects st ! unat a) else cs_effects st ! unat b)"
    "vec_ok (cs_effects st ! unat b)"
  shows "cs_effects (snd (move_external_plugin st a i b d)) = shifted (unat a) (unat i) (unat b) (unat d) (cs_effects st)"
proof -
  let ?src = "cs_effects st ! unat a"
  have lens: "unat (vlen ?src) = length ?src" using assms(4) by (simp add: unat_vlen_ok)
  let ?X1 = "(cs_effects st)[unat a := remove_at (unat i) ?src]"
  have dst: "?X1 ! unat b = (if a = b then remove_at (unat i) ?src else cs_effects st ! unat b)"
    using assms(1-3) by (cases "a = b") (auto simp: nth_list_update word_unat_eq_iff)
  have "vec_ok (?X1 ! unat b)" unfolding dst using assms(4,5,7) by (auto simp: vec_ok_def)
  then have "unat (vlen (?X1 ! unat b)) = length (?X1 ! unat b)" by (simp add: unat_vlen_ok)
  then have m: "min d (vlen (?X1 ! unat b)) = d" using assms(6) unfolding dst [symmetric] by (simp add: min_def word_le_nat_alt)
  have "\<not> 16 \<le> a" "\<not> 16 \<le> b" "\<not> vlen ?src \<le> i" using assms lens by (simp_all add: word_le_nat_alt)
  then show ?thesis
    by (simp add: move_external_plugin_def shifted_def m Let_def)
qed

lemma move_device_moves:
  fixes f :: Frame and a b :: StripTarget and i j :: usize and es ds :: "DspSlot list"
  defines "s2 \<equiv> set_target_effects b (insert_at (unat (min j (vlen ds))) (es ! unat i) ds)
      (set_target_effects a (remove_at (unat i) es) (af_app f))"
  assumes "target_effects a (af_app f) = Some es" "i < vlen es"
    "\<not> move_noop a i b j (vlen es)"
    "target_effects b (set_target_effects a (remove_at (unat i) es) (af_app f)) = Some ds"
  shows "as_live_tracks (af_app (fst (move_device a i b j f))) = as_live_tracks s2"
    "as_mode (af_app (fst (move_device a i b j f))) = as_mode s2"
    "snd (move_device a i b j f) = (if ds_external (es ! unat i) = None then []
       else case (to_engine_track a, to_engine_track b) of
              (Some x, Some y) \<Rightarrow> [MoveExternalPlugin x i y (min j (vlen ds))] | _ \<Rightarrow> [])"
proof -
  have "\<not> vlen es \<le> i" using assms(3) by simp
  then show "as_live_tracks (af_app (fst (move_device a i b j f))) = as_live_tracks s2"
    "as_mode (af_app (fst (move_device a i b j f))) = as_mode s2"
    "snd (move_device a i b j f) = (if ds_external (es ! unat i) = None then []
       else case (to_engine_track a, to_engine_track b) of
              (Some x, Some y) \<Rightarrow> [MoveExternalPlugin x i y (min j (vlen ds))] | _ \<Rightarrow> [])"
    unfolding s2_def using assms(2,4-) by (simp_all add: move_device_def Let_def)
qed

text \<open>
  C38. While the rack of every session channel holds external plugins only and the chains of the engine
  mirror the racks, dragging a device from one session channel to another, or within one, keeps them
  mirrored: the engine moves the same plugin to the same place.  (A drop on the master is not covered; see
  \<open>drop_on_master_parts\<close>.)
\<close>

theorem chain_follows_drag:
  assumes mirror: "rack_mirrored (af_app f) e"
    and strips: "unat a < 16" "unat b < 16" "Suc (unat a) < length (as_live_tracks (af_app f))"
      "Suc (unat b) < length (as_live_tracks (af_app f))"
    and small: "\<forall>track \<in> set (as_live_tracks (af_app f)). vec_ok (tk_effects track)"
    and move: "move_device (LiveStrip a) i (LiveStrip b) j f = (f', cmds)"
  shows "\<exists>e'. serve w cmds e = Served e' \<and> rack_mirrored (af_app f') e'"
proof -
  let ?s = "af_app f" and ?A = "unat a" and ?B = "unat b" and ?st = "en_chains e"
  let ?T = "as_live_tracks ?s"
  let ?G = "map tk_effects ?T"
  let ?es = "tk_effects (?T ! Suc ?A)"
  have le: "target_effects (LiveStrip a) ?s = Some ?es"
    using strips live_effects(1) [of a ?s] by (simp add: nth_opt_def)
  have ok: "vec_ok ?es" "vec_ok (tk_effects (?T ! Suc ?B))" using small strips by simp_all
  have lens: "unat (vlen ?es) = length ?es" using ok(1) by (simp add: unat_vlen_ok)
  show ?thesis
  proof (cases "i < vlen ?es \<and> \<not> move_noop (LiveStrip a) i (LiveStrip b) j (vlen ?es)")
    case False
    then have "cmds = []" "af_app f' = ?s" using move le by (auto simp: move_device_def Let_def not_less split: if_splits)
    then show ?thesis using mirror by simp
  next
    case True
    then have i: "unat i < length ?es" using lens by (simp add: word_less_nat_alt)
    let ?slot = "?es ! unat i"
    let ?T1 = "?T[Suc ?A := on_effects (\<lambda>_. remove_at (unat i) ?es) (?T ! Suc ?A)]"
    let ?ds = "tk_effects (?T1 ! Suc ?B)"
    let ?d = "min j (vlen ?ds)"
    let ?T2 = "?T1[Suc ?B := on_effects (\<lambda>_. insert_at (unat ?d) ?slot ?ds) (?T1 ! Suc ?B)]"
    have s1: "set_target_effects (LiveStrip a) (remove_at (unat i) ?es) ?s = ?s\<lparr>as_live_tracks := ?T1\<rparr>"
      using strips live_effects(2) by (simp add: update_at_def)
    have t1: "target_effects (LiveStrip b) (?s\<lparr>as_live_tracks := ?T1\<rparr>) = Some ?ds"
      using strips live_effects(1) [of b] by (simp add: nth_opt_def)
    have s2: "set_target_effects (LiveStrip b) (insert_at (unat ?d) ?slot ?ds) (?s\<lparr>as_live_tracks := ?T1\<rparr>) = ?s\<lparr>as_live_tracks := ?T2\<rparr>"
      using strips live_effects(2) by (simp add: update_at_def)
    have "?slot \<in> set ?es" using i by simp
    then have ext: "ds_external ?slot \<noteq> None" using mirror strips by (auto simp: rack_mirrored_def)
    have moved: "i < vlen ?es" "\<not> move_noop (LiveStrip a) i (LiveStrip b) j (vlen ?es)" using True by simp_all
    have t1': "target_effects (LiveStrip b) (set_target_effects (LiveStrip a) (remove_at (unat i) ?es) ?s) = Some ?ds"
      unfolding s1 by (rule t1)
    note m = move_device_moves [OF le moved t1', unfolded s1 s2]
    have f': "as_live_tracks (af_app f') = ?T2" "as_mode (af_app f') = as_mode ?s" "cmds = [MoveExternalPlugin a i b ?d]"
      using m ext unfolding move fst_conv snd_conv by simp_all
    have g: "map tk_effects ?T2 = shifted (Suc ?A) (unat i) (Suc ?B) (unat ?d) ?G"
      using strips by (simp add: shifted_def Let_def map_update on_effects_def nth_list_update)
    have chain: "map pn_name (cs_effects ?st ! k) = map ds_name (?G ! Suc k)" if "k < 16" "Suc k < length ?T" for k
      using mirror that by (simp add: rack_mirrored_def)
    have len16: "length (cs_effects ?st) = 16" using mirror by (simp add: rack_mirrored_def)
    have clen: "length (cs_effects ?st ! k) = length (?G ! Suc k)" if "k < 16" "Suc k < length ?T" for k
      using arg_cong [OF chain [OF that], of length] by simp
    have dsl: "length ?ds = length (if a = b then remove_at (unat i) (cs_effects ?st ! ?A) else cs_effects ?st ! ?B)"
      using strips i clen by (cases "a = b") (auto simp: on_effects_def nth_list_update word_unat_eq_iff)
    have e': "cs_effects (snd (move_external_plugin ?st a i b ?d)) = shifted ?A (unat i) ?B (unat ?d) (cs_effects ?st)"
      by (rule engine_move) (use strips i clen ok dsl len16 unat_min_vlen [of j ?ds] in \<open>simp_all add: vec_ok_def\<close>)
    have names: "map pn_name (shifted ?A (unat i) ?B (unat ?d) (cs_effects ?st) ! k)
        = map ds_name (shifted (Suc ?A) (unat i) (Suc ?B) (unat ?d) ?G ! Suc k)" if "k < 16" "Suc k < length ?T" for k
    proof -
      have "map (map pn_name) (shifted ?A (unat i) ?B (unat ?d) (cs_effects ?st)) ! k
          = map (map ds_name) (shifted (Suc ?A) (unat i) (Suc ?B) (unat ?d) ?G) ! Suc k"
        using strips i clen len16 chain that by (simp only: map_shifted length_map nth_map) (rule shifted_agree; simp)
      then show ?thesis using that len16 by simp
    qed
    have exts: "\<forall>slot \<in> set (shifted (Suc ?A) (unat i) (Suc ?B) (unat ?d) ?G ! Suc k). ds_external slot \<noteq> None"
      if "k < 16" "Suc k < length ?T" for k
    proof
      fix slot assume "slot \<in> set (shifted (Suc ?A) (unat i) (Suc ?B) (unat ?d) ?G ! Suc k)"
      then have "slot \<in> set (?G ! Suc k) \<union> set (?G ! Suc ?A)"
        using set_shifted [of "Suc ?A" ?G "Suc ?B" "Suc k" "unat i"] strips i that by auto
      then show "ds_external slot \<noteq> None" using mirror strips that by (auto simp: rack_mirrored_def)
    qed
    have racks: "tk_effects (?T2 ! Suc k) = shifted (Suc ?A) (unat i) (Suc ?B) (unat ?d) ?G ! Suc k" if "Suc k < length ?T" for k
      using that nth_map [of "Suc k" ?T2 tk_effects] unfolding g by simp
    let ?e' = "on_chains (\<lambda>cs. snd (move_external_plugin cs a i b ?d)) e"
    have "cs_effects (en_chains ?e') = shifted ?A (unat i) ?B (unat ?d) (cs_effects ?st)" by (simp add: on_chains_def e')
    then have "rack_mirrored (af_app f') ?e'"
      using names exts mirror len16 unfolding rack_mirrored_def f' by (simp add: racks)
    moreover have "serve w cmds e = Served ?e'" by (simp add: f')
    ultimately show ?thesis by blast
  qed
qed

definition rack_node :: "string \<Rightarrow> unit DspPluginNode" where
  "rack_node n = node_new n ClapFx ()"

definition rack_engine :: "unit DspPluginNode list \<Rightarrow> unit AudioEngine" where
  "rack_engine chain = (engine_with_clocks (Num 48000) 0 0)\<lparr>en_chains := (chains_new (Num 48000))
     \<lparr>cs_effects := chain # replicate 15 []\<rparr>\<rparr>"

lemma demo_mirrored:
  assumes "map pn_name chain = map ds_name es" "\<forall>slot \<in> set es. ds_external slot \<noteq> None"
  shows "rack_mirrored (demo_rack es) (rack_engine chain)"
proof -
  have "as_live_tracks (demo_rack es) = [track_new 0 ''MASTER'' True, (track_new 1 ''A'' False)\<lparr>tk_effects := es\<rparr>]"
    "as_mode (demo_rack es) = LiveMode" by (simp_all add: demo_rack_def demo_app_def)
  then show ?thesis using assms by (simp add: rack_mirrored_def rack_engine_def)
qed

definition second_slot :: DspSlot where
  "second_slot = (dsp_slot_new None 1 ''Q'')\<lparr>ds_external := Some demo_plugin, ds_pending := [(7, Num 1)]\<rparr>"

lemma demo_slots: "ds_name demo_slot = ''P''" "ds_name second_slot = ''Q''" "ds_external demo_slot = Some demo_plugin"
  "ds_external second_slot = Some demo_plugin" "ds_pending second_slot = [(7, Num 1)]"
  by (simp_all add: demo_slot_def second_slot_def dsp_slot_new_def)

lemma demo_frame_app: "af_app (demo_frame s) = s"
  by (simp add: demo_frame_def)

lemma demo_live: "as_live_tracks (demo_rack es) = [track_new 0 ''MASTER'' True, (track_new 1 ''A'' False)\<lparr>tk_effects := es\<rparr>]"
  by (simp add: demo_rack_def demo_app_def)

theorem chain_follows_drag_witness:
  "\<forall>w :: unit world. \<exists>f' cmds e'. move_device (LiveStrip 0) 0 (LiveStrip 0) 1 (demo_frame (demo_rack [demo_slot, second_slot])) = (f', cmds)
     \<and> serve w cmds (rack_engine [rack_node ''P'', rack_node ''Q'']) = Served e' \<and> rack_mirrored (af_app f') e'"
proof
  fix w :: "unit world"
  let ?f = "demo_frame (demo_rack [demo_slot, second_slot])"
  have m: "rack_mirrored (af_app ?f) (rack_engine [rack_node ''P'', rack_node ''Q''])"
    unfolding demo_frame_app by (rule demo_mirrored) (simp_all add: demo_slots rack_node_def node_new_def)
  have z: "unat (0 :: usize) < 16" "Suc (unat (0 :: usize)) < length (as_live_tracks (af_app ?f))"
    by (simp_all add: demo_frame_app demo_live)
  have v: "\<forall>track \<in> set (as_live_tracks (af_app ?f)). vec_ok (tk_effects track)"
    by (simp add: demo_frame_app demo_live track_new_effects vec_ok_def)
  show "\<exists>f' cmds e'. move_device (LiveStrip 0) 0 (LiveStrip 0) 1 ?f = (f', cmds)
     \<and> serve w cmds (rack_engine [rack_node ''P'', rack_node ''Q'']) = Served e' \<and> rack_mirrored (af_app f') e'"
    using chain_follows_drag [OF m z(1) z(1) z(2) z(2) v surjective_pairing] surjective_pairing by blast
qed

section \<open>Where they part\<close>

text \<open>
  Dropped on the master strip, a plugin leaves the rack of its channel and stays in the chain: nothing is
  sent, and the chain has a plugin the rack has lost.
\<close>

lemma drop_on_master_parts:
  assumes mirror: "rack_mirrored (af_app f) e"
    and strip: "unat a < 16" "Suc (unat a) < length (as_live_tracks (af_app f))"
    and small: "vec_ok (tk_effects (as_live_tracks (af_app f) ! Suc (unat a)))"
    and i: "unat i < length (tk_effects (as_live_tracks (af_app f) ! Suc (unat a)))"
    and move: "move_device (LiveStrip a) i MasterStrip j f = (f', cmds)"
  shows "cmds = [] \<and> \<not> rack_mirrored (af_app f') e"
proof -
  let ?s = "af_app f" and ?A = "unat a"
  let ?T = "as_live_tracks ?s"
  let ?es = "tk_effects (?T ! Suc ?A)" and ?ds = "tk_effects (?T ! 0)"
  have mode: "as_mode ?s = LiveMode" and ext: "ds_external (?es ! unat i) \<noteq> None"
    and names: "map pn_name (cs_effects (en_chains e) ! ?A) = map ds_name ?es"
    using mirror strip i by (auto simp: rack_mirrored_def)
  have ne: "?T \<noteq> []" using strip(2) by auto
  have lens: "length (cs_effects (en_chains e) ! ?A) = length ?es" using arg_cong [OF names, of length] by simp
  have iv: "i < vlen ?es" using i small by (simp add: word_less_nat_alt unat_vlen_ok)
  have le: "target_effects (LiveStrip a) ?s = Some ?es"
    using strip live_effects(1) [of a ?s] by (simp add: nth_opt_def)
  have set_a: "set_target_effects (LiveStrip a) es ?s = ?s\<lparr>as_live_tracks := ?T[Suc ?A := on_effects (\<lambda>_. es) (?T ! Suc ?A)]\<rparr>" for es
    using strip live_effects(2) [of a es ?s] by (simp add: update_at_def)
  have m: "target_effects MasterStrip (?s\<lparr>as_live_tracks := ?T[Suc ?A := on_effects (\<lambda>_. es) (?T ! Suc ?A)]\<rparr>) = Some ?ds" for es
    using strip mode ne by (simp add: target_effects_def strip_track_def track_list_def nth_opt_def)
  have "\<not> move_noop (LiveStrip a) i MasterStrip j (vlen ?es)" by (simp add: move_noop_def)
  note moves = move_device_moves [OF le iv this, unfolded set_a, OF m]
  have cmds: "cmds = []" using moves(3) unfolding move by simp
  have "as_live_tracks (af_app f') ! Suc ?A = on_effects (\<lambda>_. remove_at (unat i) ?es) (?T ! Suc ?A)"
    "length (as_live_tracks (af_app f')) = length ?T"
    using moves(1) strip mode ne unfolding move
    by (simp_all add: set_target_effects_def strip_track_def on_track_list_def update_at_def)
  then have "length (tk_effects (as_live_tracks (af_app f') ! Suc ?A)) = length ?es - 1"
    "Suc ?A < length (as_live_tracks (af_app f'))" using i strip by (simp_all add: on_effects_def remove_at_def)
  then have "\<not> rack_mirrored (af_app f') e"
    using strip i lens by (auto simp: rack_mirrored_def dest!: spec [of _ ?A] arg_cong [of "map pn_name _" _ length])
  with cmds show ?thesis by simp
qed

text \<open>
  Deleting a device from a rack of external plugins that the chain mirrors tells the engine nothing: the chain
  keeps the plugin, and what was waiting for the device that moves up into its place is sent to the number of
  that place, where the chain has the plugin that was deleted.
\<close>

lemma deleted_device_takes_params:
  assumes mirror: "rack_mirrored (af_app f) e"
    and place: "0 < t" "t \<le> 16" "slot_exists f t (Suc i)" "ds_pending (slot_of f t (Suc i)) \<noteq> []"
    and small: "vec_ok (app_tracks (af_app f))" "\<forall>track \<in> set (app_tracks (af_app f)). vec_ok (tk_effects track)"
    and flush: "flush_pending_external_params (remove_slot_at (word_of_nat t) (word_of_nat i) f) = (f2, cmds)"
  shows "filter (goes_to t i) cmds
       = [SyncExternalPluginParams (word_of_nat (t - 1)) (word_of_nat i) (ds_pending (slot_of f t (Suc i)))]
     \<and> pn_name (cs_effects (en_chains e) ! (t - 1) ! i) = ds_name (slot_of f t i)"
proof -
  let ?f1 = "remove_slot_at (word_of_nat t) (word_of_nat i) f"
  let ?ts = "app_tracks (af_app f)" and ?es = "tk_effects (app_tracks (af_app f) ! t)"
  have b: "t < length ?ts" "Suc i < length ?es" using place(3) by (simp_all add: slot_exists_def)
  have "length ?ts < 2 ^ 62" "length ?es < 2 ^ 62" using small b by (simp_all add: vec_ok_def)
  then have u: "unat (word_of_nat t :: usize) = t" "unat (word_of_nat i :: usize) = i" "(word_of_nat i :: usize) < vlen ?es"
    using b by (simp_all add: unat_of_nat vlen_def word_less_nat_alt)
  have ts1: "app_tracks (af_app ?f1) = ?ts[t := on_effects (remove_at i) (?ts ! t)]"
    using b u by (simp add: remove_slot_at_def on_app_def on_track_effects_def app_tracks_on app_tracks_selected
        update_at_def on_effects_def Let_def)
  have slot: "slot_exists ?f1 t i" "slot_of ?f1 t i = slot_of f t (Suc i)"
    using b by (simp_all add: slot_exists_def slot_of_def ts1 on_effects_def nth_remove_at)
  have small1: "vec_ok (app_tracks (af_app ?f1))" "\<forall>track \<in> set (app_tracks (af_app ?f1)). vec_ok (tk_effects track)"
    using small b by (auto simp: ts1 vec_ok_def on_effects_def all_set_conv_all_nth nth_list_update)
  have live: "as_mode (af_app f) = LiveMode" using mirror by (simp add: rack_mirrored_def)
  then have names: "map pn_name (cs_effects (en_chains e) ! (t - 1)) = map ds_name ?es"
    and ext: "ds_external (slot_of f t (Suc i)) \<noteq> None"
    using mirror place b by (auto simp: rack_mirrored_def app_tracks_def slot_of_def dest!: spec [of _ "t - 1"])
  have "pn_name (cs_effects (en_chains e) ! (t - 1) ! i) = ds_name (slot_of f t i)"
    using arg_cong [OF names, of "\<lambda>xs. xs ! i"] arg_cong [OF names, of length] b by (simp add: slot_of_def)
  moreover have "pending_of_slot (word_of_nat (t - 1)) i (slot_of ?f1 t i)
      = [SyncExternalPluginParams (word_of_nat (t - 1)) (word_of_nat i) (ds_pending (slot_of f t (Suc i)))]"
    unfolding slot(2) using ext place(4) by (simp add: pending_of_slot_def take_pending_external_params_def)
  ultimately show ?thesis using flush_commands [OF slot(1) place(1) small1] unfolding flush snd_conv by simp
qed

text \<open>
  Built-in devices have a place in the rack and none in the chain: a plugin assigned behind more of them
  than the chain is long is loaded at the end of the chain, and every parameter sent to its place in the
  rack is dropped by the engine.
\<close>

lemma plugin_behind_devices_is_deaf:
  assumes "assign_external_plugin f track i d f = (f', cmds, probes)" "engine_track_index (af_app f) = Some t"
    and "t < 16" "length (cs_effects (en_chains e)) = 16" "vec_ok (cs_effects (en_chains e) ! unat t)"
    and behind: "length (cs_effects (en_chains e) ! unat t) < unat i"
  shows "serve w (cmds @ [SyncExternalPluginParams t i ps]) e = serve w cmds e"
proof -
  let ?chain = "cs_effects (en_chains e) ! unat t"
  let ?st = "snd (load_external_plugin (wd_load w) (wd_set_sr w) (en_chains e) t i d)"
  have cmds: "cmds = [LoadExternalPlugin t i d]" using assms(1,2) by (auto simp: assign_external_plugin_def Let_def split_beta)
  have lens: "unat (vlen ?chain) = length ?chain" using assms(5) by (simp add: unat_vlen_ok)
  then have "\<not> i < vlen ?chain" "min i (vlen ?chain) = vlen ?chain" using behind
    by (simp_all add: word_less_nat_alt min_def word_le_nat_alt)
  moreover have "unat t < 16" using assms(3) by (simp add: word_less_nat_alt)
  ultimately have len: "length (cs_effects ?st ! unat t) \<le> Suc (length ?chain)"
    using assms(3,4) lens by (auto simp: load_external_plugin_def Let_def not_le split: sum.split)
  then have "unat (vlen (cs_effects ?st ! unat t)) \<le> unat i"
    using behind unat_min_vlen [of "vlen (cs_effects ?st ! unat t)" "cs_effects ?st ! unat t"] by simp
  then have "\<not> i < vlen (cs_effects ?st ! unat t)" by (simp add: word_less_nat_alt)
  then have "sync_external_plugin_params (wd_set_param w) ?st t i ps = ?st"
    by (simp add: sync_external_plugin_params_def update_node_def)
  then show ?thesis by (simp add: cmds on_chains_def)
qed

lemma deleted_device_takes_params_witness:
  "\<exists>f2 cmds. flush_pending_external_params (remove_slot_at 1 0 (demo_frame (demo_rack [demo_slot, second_slot]))) = (f2, cmds)
     \<and> filter (goes_to 1 0) cmds = [SyncExternalPluginParams 0 0 [(7, Num 1)]]
     \<and> pn_name (cs_effects (en_chains (rack_engine [rack_node ''P'', rack_node ''Q''])) ! 0 ! 0) = ''P''"
proof -
  let ?f = "demo_frame (demo_rack [demo_slot, second_slot])"
  have m: "rack_mirrored (af_app ?f) (rack_engine [rack_node ''P'', rack_node ''Q''])"
    unfolding demo_frame_app by (rule demo_mirrored) (simp_all add: demo_slots rack_node_def node_new_def)
  have t: "app_tracks (af_app ?f) = [track_new 0 ''MASTER'' True, (track_new 1 ''A'' False)\<lparr>tk_effects := [demo_slot, second_slot]\<rparr>]"
    by (simp add: demo_frame_app demo_rack_tracks)
  have ex: "slot_exists ?f 1 (Suc 0)" and slots: "slot_of ?f 1 (Suc 0) = second_slot" "slot_of ?f 1 0 = demo_slot"
    by (simp_all add: slot_exists_def slot_of_def t)
  have p: "ds_pending (slot_of ?f 1 (Suc 0)) \<noteq> []" unfolding slots by (simp add: demo_slots)
  have small: "vec_ok (app_tracks (af_app ?f))" "\<forall>track \<in> set (app_tracks (af_app ?f)). vec_ok (tk_effects track)"
    by (simp_all add: t vec_ok_def track_new_effects)
  have one: "(1 :: nat) \<le> 16" by simp
  let ?r = "flush_pending_external_params (remove_slot_at (word_of_nat 1) (word_of_nat 0) ?f)"
  note d = deleted_device_takes_params [OF m zero_less_one one ex p small surjective_pairing, unfolded slots demo_slots]
  have w: "word_of_nat 1 = (1 :: usize)" "word_of_nat 0 = (0 :: usize)" "word_of_nat (1 - 1) = (0 :: usize)" by simp_all
  show ?thesis by (rule exI [of _ "fst ?r"], rule exI [of _ "snd ?r"]) (use d in \<open>simp only: w diff_self_eq_0 prod.collapse simp_thms\<close>)
qed

definition built_in :: DspSlot where
  "built_in = dsp_slot_new None 0 ''OpenEQ3''"

lemma plugin_behind_devices_is_deaf_witness:
  "\<forall>w :: unit world. \<exists>f' cmds probes.
     assign_external_plugin ((demo_frame (demo_rack [built_in, built_in]))\<lparr>af_app := (demo_rack [built_in, built_in])\<lparr>as_selected_track_index := 1\<rparr>\<rparr>) 1 1 demo_plugin
        ((demo_frame (demo_rack [built_in, built_in]))\<lparr>af_app := (demo_rack [built_in, built_in])\<lparr>as_selected_track_index := 1\<rparr>\<rparr>) = (f', cmds, probes)
     \<and> serve w (cmds @ [SyncExternalPluginParams 0 1 [(7, Num 1)]]) (rack_engine []) = serve w cmds (rack_engine [])"
proof
  fix w :: "unit world"
  let ?f = "(demo_frame (demo_rack [built_in, built_in]))\<lparr>af_app := (demo_rack [built_in, built_in])\<lparr>as_selected_track_index := 1\<rparr>\<rparr>"
  have "app_tracks ((demo_rack es)\<lparr>as_selected_track_index := 1\<rparr>) = app_tracks (demo_rack es)" for es
    by (simp add: app_tracks_def split: GuiMode.split)
  then have e: "engine_track_index (af_app ?f) = Some 0"
    by (simp add: engine_track_index_def safe_track_index_def demo_rack_tracks vlen_def sat_sub_def)
  obtain f' cmds probes where a: "assign_external_plugin ?f 1 1 demo_plugin ?f = (f', cmds, probes)" by (metis surj_pair)
  have "serve w (cmds @ [SyncExternalPluginParams 0 1 [(7, Num 1)]]) (rack_engine []) = serve w cmds (rack_engine [])"
    by (rule plugin_behind_devices_is_deaf [OF a e]) (simp_all add: rack_engine_def vec_ok_def)
  then show "\<exists>f' cmds probes. assign_external_plugin ?f 1 1 demo_plugin ?f = (f', cmds, probes)
     \<and> serve w (cmds @ [SyncExternalPluginParams 0 1 [(7, Num 1)]]) (rack_engine []) = serve w cmds (rack_engine [])"
    using a by blast
qed

end
