(* ===== verification/ProjectCheck.thy ===== *)
theory ProjectCheck
  imports ProjectFaults
begin

text \<open>
  The project commands of the console (hikaru_cli/src/project.rs): \<open>new\<close>, \<open>inspect\<close> and \<open>validate\<close>, which work
  on the files and not on the interface.  The messages of a report are constructors with the names, identifiers
  and paths they print, without the numbers of track and scene; counters are numbers.  \<open>present\<close> tells whether a path exists.  A command gives its exit code.
\<close>

section \<open>Formats and exit codes\<close>

datatype Format = OpenLiveFile | OpenStudioFile

fun format_name :: "Format \<Rightarrow> string" where
  "format_name OpenLiveFile = ''OpenLive''"
| "format_name OpenStudioFile = ''OpenStudio''"

fun format_extension :: "Format \<Rightarrow> string" where
  "format_extension OpenLiveFile = ''oplf''"
| "format_extension OpenStudioFile = ''opsf''"

definition file_format :: "path \<Rightarrow> Format option" where
  "file_format p = (case extension p of None \<Rightarrow> None
     | Some e \<Rightarrow> if e = ''oplf'' then Some OpenLiveFile else if e = ''opsf'' then Some OpenStudioFile else None)"

definition EXIT_SUCCESS :: u8 where "EXIT_SUCCESS = 0"
definition EXIT_FAILURE :: u8 where "EXIT_FAILURE = 1"
definition EXIT_USAGE :: u8 where "EXIT_USAGE = 2"

section \<open>Creating a project\<close>

datatype Template = DefaultTemplate | EmptyTemplate

record NewArgs =
  na_path :: path
  na_template :: Template
  na_empty :: bool
  na_title :: "string option"
  na_bpm :: f64
  na_force :: bool

definition sanitize_bpm :: "f64 \<Rightarrow> f64" where
  "sanitize_bpm bpm = (if is_finite bpm \<and> lt (Num 0) bpm then bpm else Num 140)"

definition titled :: "string option \<Rightarrow> 'st Metadata \<Rightarrow> 'st Metadata" where
  "titled title md = (case title of Some t \<Rightarrow> md\<lparr>md_title := t\<rparr> | None \<Rightarrow> md)"

definition new_live :: "string \<Rightarrow> Template \<Rightarrow> NewArgs \<Rightarrow> OpenLiveProject" where
  "new_live created_by template args =
     (let p = (case template of DefaultTemplate \<Rightarrow> template_live created_by
                              | EmptyTemplate \<Rightarrow> empty_template_live created_by);
          p = p\<lparr>ol_transport := (ol_transport p)\<lparr>lt_bpm := sanitize_bpm (na_bpm args)\<rparr>\<rparr>
      in p\<lparr>ol_metadata := titled (na_title args) (ol_metadata p)\<rparr>)"

definition new_studio :: "string \<Rightarrow> Template \<Rightarrow> NewArgs \<Rightarrow> OpenStudioProject" where
  "new_studio created_by template args =
     (let p = (case template of DefaultTemplate \<Rightarrow> template_studio created_by
                              | EmptyTemplate \<Rightarrow> empty_template_studio created_by);
          p = p\<lparr>ou_transport := (ou_transport p)\<lparr>ut_bpm := sanitize_bpm (na_bpm args)\<rparr>\<rparr>
      in p\<lparr>ou_metadata := titled (na_title args) (ou_metadata p)\<rparr>)"

definition cli_new :: "codec \<Rightarrow> string \<Rightarrow> (path \<Rightarrow> bool) \<Rightarrow> NewArgs \<Rightarrow> disk \<Rightarrow> u8 \<times> disk" where
  "cli_new co version present args d =
     (let p = na_path args
      in case file_format p of
           None \<Rightarrow> (EXIT_USAGE, d)
         | Some format \<Rightarrow>
             if present p \<and> \<not> na_force args then (EXIT_USAGE, d)
             else let template = (if na_empty args then EmptyTemplate else na_template args);
                      (written, d) = (case format of
                        OpenLiveFile \<Rightarrow> write_json (co_print_live co) (co_can_write co) p
                            (new_live (''Hikaru OpenLive '' @ version) template args) d
                      | OpenStudioFile \<Rightarrow> write_json (co_print_studio co) (co_can_write co) p
                            (new_studio (''Hikaru OpenStudio '' @ version) template args) d)
                  in case written of Inl _ \<Rightarrow> (EXIT_FAILURE, d) | Inr _ \<Rightarrow> (EXIT_SUCCESS, d))"

section \<open>The report\<close>

datatype Severity = SevWarning | SevError

text \<open>The messages of a finding, in the order of the code.\<close>

datatype Message =
    OtherVersion u32
  | BadBpm f64
  | NoNumerator
  | NoQuantization
  | LoopReversed u64 u64
  | NotRectangular nat nat nat
  | IdTaken usize
  | MissingClip usize string
  | MissingEvent string usize string
  | MissingPlugin string string string
  | MissingTable string string string
  | NoMaster
  | NoBeats
  | NoDivision
  | NoPpqn
  | NoTrack usize usize

datatype Check = HeaderOk u32 string | MatrixOk nat nat | SamplesOk | PluginsSeen nat | TimelineOk u64

record Finding =
  fd_severity :: Severity
  fd_message :: Message

record Report =
  rp_findings :: "Finding list"
  rp_checks :: "Check list"

definition report_empty :: Report where
  "report_empty = \<lparr> rp_findings = [], rp_checks = [] \<rparr>"

definition report_ok :: "Check \<Rightarrow> Report \<Rightarrow> Report" where
  "report_ok c r = r\<lparr>rp_checks := rp_checks r @ [c]\<rparr>"

definition report_error :: "Message \<Rightarrow> Report \<Rightarrow> Report" where
  "report_error m r = r\<lparr>rp_findings := rp_findings r @ [\<lparr> fd_severity = SevError, fd_message = m \<rparr>]\<rparr>"

definition report_warn :: "Message \<Rightarrow> Report \<Rightarrow> Report" where
  "report_warn m r = r\<lparr>rp_findings := rp_findings r @ [\<lparr> fd_severity = SevWarning, fd_message = m \<rparr>]\<rparr>"

definition report_errors :: "Report \<Rightarrow> nat" where
  "report_errors r = length (filter (\<lambda>f. fd_severity f = SevError) (rp_findings r))"

definition report_warnings :: "Report \<Rightarrow> nat" where
  "report_warnings r = length (filter (\<lambda>f. fd_severity f = SevWarning) (rp_findings r))"

section \<open>Checking a project\<close>

definition base_dir :: "path \<Rightarrow> path \<Rightarrow> path" where
  "base_dir cwd p = (case path_parent p of Some dir \<Rightarrow> dir | None \<Rightarrow> cwd)"

definition resource_exists :: "(path \<Rightarrow> bool) \<Rightarrow> path \<Rightarrow> string \<Rightarrow> bool" where
  "resource_exists present base raw =
     present (if is_absolute raw then components raw else base @ components raw)"

definition validate_header :: "u32 \<Rightarrow> string \<Rightarrow> Report \<Rightarrow> Report" where
  "validate_header version created_by r =
     (if version = FORMAT_VERSION then report_ok (HeaderOk version created_by) r
      else report_warn (OtherVersion version) r)"

definition validate_bpm :: "f64 \<Rightarrow> Report \<Rightarrow> Report" where
  "validate_bpm bpm r = (if \<not> is_finite bpm \<or> le bpm (Num 0) then report_error (BadBpm bpm) r else r)"

definition validate_loop :: "bool \<Rightarrow> u64 \<Rightarrow> u64 \<Rightarrow> Report \<Rightarrow> Report" where
  "validate_loop enabled a b r = (if enabled \<and> b < a then report_error (LoopReversed a b) r else r)"

definition validate_master :: "FileTrack list \<Rightarrow> Report \<Rightarrow> Report" where
  "validate_master tracks r = (if \<not> list_ex ft_is_master tracks then report_error NoMaster r else r)"

text \<open>The report and how many resources were missing, through one clip.\<close>

definition validate_event :: "(string \<Rightarrow> bool) \<Rightarrow> usize \<Rightarrow> FileEvent \<Rightarrow> Report \<times> nat \<Rightarrow> Report \<times> nat" where
  "validate_event there i e = (\<lambda>(r, missing).
     if fe_source_path e = [] then (r, missing)
     else if \<not> there (fe_source_path e)
     then (report_error (MissingEvent (fe_name e) i (fe_source_path e)) r, missing + 1)
     else (r, missing))"

definition validate_pad :: "(string \<Rightarrow> bool) \<Rightarrow> usize \<Rightarrow> FileClip \<Rightarrow> Report \<times> nat \<Rightarrow> Report \<times> nat" where
  "validate_pad there next_id clip = (\<lambda>(r, missing).
     let r = (if next_id \<le> fc_id clip then report_warn (IdTaken (fc_id clip)) r else r);
         (r, missing) = (if fc_path clip \<noteq> [] \<and> \<not> there (fc_path clip)
            then (report_error (MissingClip (fc_id clip) (fc_path clip)) r, missing + 1) else (r, missing))
     in fold (validate_event there (fc_id clip)) (fc_events clip) (r, missing))"

definition validate_slot :: "(string \<Rightarrow> bool) \<Rightarrow> usize \<Rightarrow> FileClip option \<Rightarrow> Report \<times> nat \<Rightarrow> Report \<times> nat" where
  "validate_slot there next_id slot = (case slot of None \<Rightarrow> id | Some clip \<Rightarrow> validate_pad there next_id clip)"

text \<open>The plugin and the table of one effect, and how many were looked at.\<close>

definition validate_effect :: "(string \<Rightarrow> bool) \<Rightarrow> string \<Rightarrow> FileSlot \<Rightarrow> Report \<times> nat \<Rightarrow> Report \<times> nat" where
  "validate_effect there track e = (\<lambda>(r, seen).
     let (r, seen) = (case fs_plugin_path e of
           Some p \<Rightarrow> if p \<noteq> [] then ((if \<not> there p then report_warn (MissingPlugin (fs_name e) track p) r else r), seen + 1)
                   else (r, seen)
         | None \<Rightarrow> (r, seen))
     in case fs_wavetable_path e of
          Some p \<Rightarrow> if p \<noteq> [] then ((if \<not> there p then report_warn (MissingTable (fs_name e) track p) r else r), seen + 1)
                  else (r, seen)
        | None \<Rightarrow> (r, seen))"

definition validate_openlive :: "(path \<Rightarrow> bool) \<Rightarrow> path \<Rightarrow> path \<Rightarrow> OpenLiveProject \<Rightarrow> Report \<Rightarrow> Report" where
  "validate_openlive present cwd p project r =
     (let t = ol_transport project; m = ol_matrix project;
          there = resource_exists present (base_dir cwd p);
          r = validate_header (ol_format_version project) (ol_created_by project) r;
          r = validate_bpm (lt_bpm t) r;
          r = (if fst (lt_time_signature t) = 0 then report_error NoNumerator r else r);
          r = (if trim (lt_launch_quantization t) = [] then report_error NoQuantization r else r);
          r = validate_loop (lt_loop_enabled t) (lt_loop_start_ticks t) (lt_loop_end_ticks t) r;
          r = (if rectangular m then report_ok (MatrixOk (length (mt_tracks m)) (length (mt_scenes m))) r
               else report_error (NotRectangular (length (mt_tracks m)) (length (mt_scenes m)) (length (mt_grid m))) r);
          (r, missing) = fold (fold (validate_slot there (mt_next_clip_id m))) (mt_grid m) (r, 0);
          r = (if missing = 0 then report_ok SamplesOk r else r);
          (r, seen) = fold (\<lambda>track. fold (validate_effect there (ft_name track)) (ft_effects track))
                        (ol_live_tracks project) (r, 0);
          r = (if 0 < seen then report_ok (PluginsSeen seen) r else r)
      in validate_master (ol_live_tracks project) r)"

definition validate_clip :: "(string \<Rightarrow> bool) \<Rightarrow> usize \<Rightarrow> usize \<Rightarrow> usize \<times> PlaylistClipSaved \<Rightarrow> Report \<times> nat \<Rightarrow> Report \<times> nat" where
  "validate_clip there next_id tracks = (\<lambda>(track, clip) (r, missing).
     let r = (if next_id \<le> fx_id clip then report_warn (IdTaken (fx_id clip)) r else r);
         r = (if tracks \<le> track then report_error (NoTrack (fx_id clip) track) r else r)
     in case fx_kind clip of
          FileAudio p _ _ \<Rightarrow>
            if p \<noteq> [] \<and> \<not> there p then (report_error (MissingClip (fx_id clip) p) r, missing + 1) else (r, missing)
        | _ \<Rightarrow> (r, missing))"

definition validate_openstudio :: "(path \<Rightarrow> bool) \<Rightarrow> path \<Rightarrow> path \<Rightarrow> OpenStudioProject \<Rightarrow> Report \<Rightarrow> Report" where
  "validate_openstudio present cwd p project r =
     (let t = ou_transport project; y = ou_playlist project;
          there = resource_exists present (base_dir cwd p);
          r = validate_header (ou_format_version project) (ou_created_by project) r;
          r = validate_bpm (ut_bpm t) r;
          r = (if ut_beats_per_bar t = 0 then report_error NoBeats r else r);
          r = (if ut_beat_division t = 0 then report_error NoDivision r else r);
          r = validate_loop (ut_loop_enabled t) (ut_loop_start_ticks t) (ut_loop_end_ticks t) r;
          r = (if fy_ppqn y = 0 then report_error NoPpqn r else report_ok (TimelineOk (fy_ppqn y)) r);
          (r, missing) = fold (validate_clip there (fy_next_clip_id y) (vlen (ou_studio_tracks project))) (fy_clips y) (r, 0);
          r = (if missing = 0 then report_ok SamplesOk r else r)
      in validate_master (ou_studio_tracks project) r)"

definition cli_validate :: "codec \<Rightarrow> (path \<Rightarrow> bool) \<Rightarrow> path \<Rightarrow> path \<Rightarrow> disk \<Rightarrow> u8 \<times> Report option" where
  "cli_validate co present cwd p d =
     (let verdict = (\<lambda>r. (if 0 < report_errors r then EXIT_FAILURE else EXIT_SUCCESS, Some r))
      in case file_format p of
           None \<Rightarrow> (EXIT_USAGE, None)
         | Some OpenLiveFile \<Rightarrow> (case parse_with_probe (co_probe co) (co_body_live co) p d of
               Inl _ \<Rightarrow> (EXIT_FAILURE, None)
             | Inr project \<Rightarrow> verdict (validate_openlive present cwd p project report_empty))
         | Some OpenStudioFile \<Rightarrow> (case parse_with_probe (co_probe co) (co_body_studio co) p d of
               Inl _ \<Rightarrow> (EXIT_FAILURE, None)
             | Inr project \<Rightarrow> verdict (validate_openstudio present cwd p project report_empty)))"

section \<open>Describing a project\<close>

text \<open>The counts of a summary are numbers.\<close>

record LiveCounts =
  lc_total_scenes :: nat
  lc_total_tracks :: nat
  lc_audio_clips :: nat
  lc_midi_clips :: nat

record StudioCounts =
  uc_total_tracks :: nat
  uc_total_clips :: nat
  uc_audio_clips :: nat
  uc_midi_clips :: nat

record TrackSummary =
  sk_id :: usize
  sk_name :: string
  sk_volume :: f32
  sk_pan :: f32
  sk_mute :: bool
  sk_solo :: bool
  sk_arm :: bool
  sk_is_master :: bool
  sk_matrix_idx :: "usize option"
  sk_effects :: nat
  sk_sends :: nat

definition track_json :: "FileTrack \<Rightarrow> TrackSummary" where
  "track_json t = \<lparr> sk_id = ft_id t, sk_name = ft_name t, sk_volume = ft_volume t, sk_pan = ft_pan t,
     sk_mute = ft_mute t, sk_solo = ft_solo t, sk_arm = ft_arm t, sk_is_master = ft_is_master t,
     sk_matrix_idx = ft_matrix_idx t, sk_effects = length (ft_effects t), sk_sends = length (ft_sends t) \<rparr>"

text \<open>
  The parts the two summaries share, over the transport and the clips of the format.  A clip of a session is
  printed with its place, its kind and all its fields.
\<close>

record ('st, 't, 'c) Summary =
  su_path :: path
  su_name :: string
  su_format :: Format
  su_format_version :: u32
  su_created_by :: string
  su_metadata :: "'st Metadata"
  su_transport :: 't
  su_tracks :: "TrackSummary list"
  su_clips :: "'c list"

datatype PadKind = PadAudio | PadMidi

type_synonym LiveSummary =
  "(LiveCounts, LiveTransport \<times> string list \<times> string list, nat \<times> nat \<times> PadKind \<times> FileClip) Summary"
type_synonym StudioSummary =
  "(StudioCounts, StudioTransport \<times> u64, usize \<times> PlaylistClipSaved \<times> string \<times> string option) Summary"

definition live_clips :: "FileClip option list list \<Rightarrow> (nat \<times> nat \<times> PadKind \<times> FileClip) list" where
  "live_clips grid = concat (map (\<lambda>(track, row). List.map_filter (\<lambda>(scene, slot). map_option (\<lambda>clip.
       (track, scene, if fc_midi_notes clip = [] then PadAudio else PadMidi, clip)) slot)
     (enumerate 0 row)) (enumerate 0 grid))"

definition summary_openlive :: "path \<Rightarrow> OpenLiveProject \<Rightarrow> LiveSummary" where
  "summary_openlive p project =
     (let clips = live_clips (mt_grid (ol_matrix project)); m = ol_matrix project; md = ol_metadata project
      in \<lparr> su_path = p, su_name = title_from_path p, su_format = OpenLiveFile,
           su_format_version = ol_format_version project, su_created_by = ol_created_by project,
           su_metadata = \<lparr> md_title = md_title md, md_artist = md_artist md, md_genre = md_genre md, md_key = md_key md,
             md_stats = \<lparr> lc_total_scenes = length (mt_scenes m), lc_total_tracks = length (mt_tracks m),
               lc_audio_clips = length (filter (\<lambda>c. fst (snd (snd c)) \<noteq> PadMidi) clips),
               lc_midi_clips = length (filter (\<lambda>c. fst (snd (snd c)) = PadMidi) clips) \<rparr> \<rparr>,
           su_transport = (ol_transport project, map fr_name (mt_tracks m), mt_scenes m),
           su_tracks = map track_json (ol_live_tracks project), su_clips = clips \<rparr>)"

definition kind_json :: "ClipKind \<Rightarrow> string \<times> string option" where
  "kind_json k = (case k of FileAudio p _ _ \<Rightarrow> (''audio'', Some p)
     | FilePattern i \<Rightarrow> (''pattern'', Some (''pattern:'' @ show_nat (unat i)))
     | FileAutomation _ target \<Rightarrow> (''automation'', Some target))"

definition summary_openstudio :: "path \<Rightarrow> OpenStudioProject \<Rightarrow> StudioSummary" where
  "summary_openstudio p project =
     (let y = ou_playlist project; md = ou_metadata project;
          clips = map (\<lambda>(track, clip). case kind_json (fx_kind clip) of (kind, sample) \<Rightarrow> (track, clip, kind, sample)) (fy_clips y)
      in \<lparr> su_path = p, su_name = title_from_path p, su_format = OpenStudioFile,
           su_format_version = ou_format_version project, su_created_by = ou_created_by project,
           su_metadata = \<lparr> md_title = md_title md, md_artist = md_artist md, md_genre = md_genre md, md_key = md_key md,
             md_stats = \<lparr> uc_total_tracks = length (ou_studio_tracks project),
               uc_total_clips = length (fy_clips y),
               uc_audio_clips = length (filter (\<lambda>c. fst (snd (snd c)) = ''audio'') clips),
               uc_midi_clips = length (filter (\<lambda>c. fst (snd (snd c)) \<noteq> ''audio'') clips) \<rparr> \<rparr>,
           su_transport = (ou_transport project, fy_ppqn y),
           su_tracks = map track_json (ou_studio_tracks project), su_clips = clips \<rparr>)"

text \<open>The exit code of \<open>inspect\<close> and the summary it prints.\<close>

definition cli_inspect :: "codec \<Rightarrow> path \<Rightarrow> disk \<Rightarrow> u8 \<times> (LiveSummary + StudioSummary) option" where
  "cli_inspect co p d = (case file_format p of
     None \<Rightarrow> (EXIT_USAGE, None)
   | Some OpenLiveFile \<Rightarrow> (case parse_with_probe (co_probe co) (co_body_live co) p d of
         Inl _ \<Rightarrow> (EXIT_FAILURE, None) | Inr project \<Rightarrow> (EXIT_SUCCESS, Some (Inl (summary_openlive p project))))
   | Some OpenStudioFile \<Rightarrow> (case parse_with_probe (co_probe co) (co_body_studio co) p d of
         Inl _ \<Rightarrow> (EXIT_FAILURE, None) | Inr project \<Rightarrow> (EXIT_SUCCESS, Some (Inr (summary_openstudio p project)))))"

end
