(* ===== verification/CheckLink.thy ===== *)
theory CheckLink
  imports ProjectCheck
begin

text \<open>
  What the commands of the console promise: a report has no error exactly for a sound project; what \<open>new\<close>
  makes is sound; what passes opens whole in the interface; and \<open>inspect\<close> counts as the interface does.
\<close>

section \<open>Reports without errors\<close>

definition clean :: "Report \<Rightarrow> bool" where
  "clean r \<longleftrightarrow> report_errors r = 0"

lemma clean_simps [simp]:
  "clean report_empty" "clean (report_ok c r) = clean r" "clean (report_warn m r) = clean r"
  "\<not> clean (report_error m r)"
  by (simp_all add: clean_def report_errors_def report_empty_def report_ok_def report_warn_def report_error_def)

lemma clean_fold:
  assumes "\<And>x acc. clean (fst (f x acc)) = (clean (fst acc) \<and> Q x)"
  shows "clean (fst (fold f xs acc)) = (clean (fst acc) \<and> list_all Q xs)"
  by (induction xs arbitrary: acc) (simp_all add: assms)

definition usable_bpm :: "f64 \<Rightarrow> bool" where
  "usable_bpm bpm \<longleftrightarrow> is_finite bpm \<and> lt (Num 0) bpm"

lemma usable_bpm_iff: "usable_bpm bpm = (\<not> (\<not> is_finite bpm \<or> le bpm (Num 0)))"
  by (cases bpm) (auto simp: usable_bpm_def le_def feq_def)

lemma sanitize_usable: "usable_bpm (sanitize_bpm bpm)"
  by (simp add: sanitize_bpm_def usable_bpm_def)

text \<open>What a sound session and a sound timeline are.\<close>

definition clip_sound :: "(string \<Rightarrow> bool) \<Rightarrow> FileClip \<Rightarrow> bool" where
  "clip_sound there clip \<longleftrightarrow> (fc_path clip = [] \<or> there (fc_path clip))
     \<and> list_all (\<lambda>e. fe_source_path e = [] \<or> there (fe_source_path e)) (fc_events clip)"

definition session_sound :: "(string \<Rightarrow> bool) \<Rightarrow> OpenLiveProject \<Rightarrow> bool" where
  "session_sound there p \<longleftrightarrow>
     (let t = ol_transport p; m = ol_matrix p
      in usable_bpm (lt_bpm t) \<and> fst (lt_time_signature t) \<noteq> 0 \<and> trim (lt_launch_quantization t) \<noteq> []
       \<and> (lt_loop_enabled t \<longrightarrow> lt_loop_start_ticks t \<le> lt_loop_end_ticks t)
       \<and> rectangular m \<and> list_all (list_all (pred_option (clip_sound there))) (mt_grid m)
       \<and> list_ex ft_is_master (ol_live_tracks p))"

definition placed_clip_sound :: "(string \<Rightarrow> bool) \<Rightarrow> usize \<Rightarrow> usize \<times> PlaylistClipSaved \<Rightarrow> bool" where
  "placed_clip_sound there tracks = (\<lambda>(track, clip). track < tracks
     \<and> (case fx_kind clip of FileAudio p _ _ \<Rightarrow> p = [] \<or> there p | _ \<Rightarrow> True))"

definition timeline_sound :: "(string \<Rightarrow> bool) \<Rightarrow> OpenStudioProject \<Rightarrow> bool" where
  "timeline_sound there p \<longleftrightarrow>
     (let t = ou_transport p; y = ou_playlist p
      in usable_bpm (ut_bpm t) \<and> ut_beats_per_bar t \<noteq> 0 \<and> ut_beat_division t \<noteq> 0
       \<and> (ut_loop_enabled t \<longrightarrow> ut_loop_start_ticks t \<le> ut_loop_end_ticks t)
       \<and> fy_ppqn y \<noteq> 0 \<and> list_all (placed_clip_sound there (vlen (ou_studio_tracks p))) (fy_clips y)
       \<and> list_ex ft_is_master (ou_studio_tracks p))"

lemma clean_parts:
  "clean (validate_header v c r) = clean r"
  "clean (validate_bpm bpm r) = (clean r \<and> usable_bpm bpm)"
  "clean (validate_loop on a b r) = (clean r \<and> (on \<longrightarrow> a \<le> b))"
  "clean (validate_master ts r) = (clean r \<and> list_ex ft_is_master ts)"
  by (auto simp: validate_header_def validate_bpm_def usable_bpm_iff validate_loop_def validate_master_def)

lemma clean_event: "clean (fst (validate_event there i e acc))
    = (clean (fst acc) \<and> (fe_source_path e = [] \<or> there (fe_source_path e)))"
  by (cases acc) (auto simp: validate_event_def)

lemma clean_pad: "clean (fst (validate_pad there n clip acc)) = (clean (fst acc) \<and> clip_sound there clip)"
  by (cases acc) (auto simp: validate_pad_def clip_sound_def Let_def clean_fold [OF clean_event])

lemma clean_slot: "clean (fst (validate_slot there n slot acc))
    = (clean (fst acc) \<and> pred_option (clip_sound there) slot)"
  by (cases slot) (simp_all add: validate_slot_def clean_pad)

lemma clean_row: "clean (fst (fold (validate_slot there n) row acc))
    = (clean (fst acc) \<and> list_all (pred_option (clip_sound there)) row)"
  by (rule clean_fold) (rule clean_slot)

lemma clean_effect: "clean (fst (validate_effect there t e acc)) = (clean (fst acc) \<and> True)"
  by (cases acc) (auto simp: validate_effect_def split: option.splits)

lemma clean_track: "clean (fst (fold (validate_effect there n) es acc)) = (clean (fst acc) \<and> True)"
  using clean_fold [of "validate_effect there n" "\<lambda>_. True", OF clean_effect] by (simp add: list_all_iff)

lemma clean_tracks: "clean (fst (fold (\<lambda>t. fold (validate_effect there (ft_name t)) (ft_effects t)) ts acc)) = clean (fst acc)"
  using clean_fold [of "\<lambda>t. fold (validate_effect there (ft_name t)) (ft_effects t)" "\<lambda>_. True"] by (simp add: clean_track list_all_iff)

lemma clean_placed: "clean (fst (validate_clip there n tracks c acc))
    = (clean (fst acc) \<and> placed_clip_sound there tracks c)"
  by (cases acc; cases c) (auto simp: validate_clip_def placed_clip_sound_def Let_def split: ClipKind.splits)

lemma clean_if: "clean (if b then r else r') = (if b then clean r else clean r')"
  by simp

lemma validate_openlive_clean:
  "clean (validate_openlive present cwd p project r)
   = (clean r \<and> session_sound (resource_exists present (base_dir cwd p)) project)"
  by (simp add: validate_openlive_def session_sound_def Let_def split_beta clean_if clean_parts clean_fold [OF clean_row] clean_tracks conj_ac)

lemma validate_openstudio_clean:
  "clean (validate_openstudio present cwd p project r)
   = (clean r \<and> timeline_sound (resource_exists present (base_dir cwd p)) project)"
  by (simp add: validate_openstudio_def timeline_sound_def Let_def split_beta clean_if clean_parts
      clean_fold [OF clean_placed] conj_ac)

section \<open>What validate tells\<close>

text \<open>A file that is read and is sound, as \<open>validate\<close> sees it.\<close>

definition file_sound :: "codec \<Rightarrow> (path \<Rightarrow> bool) \<Rightarrow> path \<Rightarrow> path \<Rightarrow> disk \<Rightarrow> bool" where
  "file_sound co present cwd p d \<longleftrightarrow>
     (let there = resource_exists present (base_dir cwd p)
      in case file_format p of
           None \<Rightarrow> False
         | Some OpenLiveFile \<Rightarrow> (case parse_with_probe (co_probe co) (co_body_live co) p d of
               Inl _ \<Rightarrow> False | Inr project \<Rightarrow> session_sound there project)
         | Some OpenStudioFile \<Rightarrow> (case parse_with_probe (co_probe co) (co_body_studio co) p d of
               Inl _ \<Rightarrow> False | Inr project \<Rightarrow> timeline_sound there project))"

lemma exit_codes [simp]: "EXIT_FAILURE \<noteq> EXIT_SUCCESS" "EXIT_USAGE \<noteq> EXIT_SUCCESS"
  by (simp_all add: EXIT_FAILURE_def EXIT_USAGE_def EXIT_SUCCESS_def)

lemma validate_passes:
  "fst (cli_validate co present cwd p d) = EXIT_SUCCESS \<longleftrightarrow> file_sound co present cwd p d"
proof (cases "file_format p")
  case None
  then show ?thesis by (simp add: cli_validate_def file_sound_def)
next
  case (Some format)
  have verdict: "(0 < report_errors r) = (\<not> clean r)" for r by (simp add: clean_def)
  show ?thesis
  proof (cases format)
    case OpenLiveFile
    show ?thesis
      by (cases "parse_with_probe (co_probe co) (co_body_live co) p d")
        (simp_all add: cli_validate_def file_sound_def Some OpenLiveFile verdict validate_openlive_clean)
  next
    case OpenStudioFile
    show ?thesis
      by (cases "parse_with_probe (co_probe co) (co_body_studio co) p d")
        (simp_all add: cli_validate_def file_sound_def Some OpenStudioFile verdict validate_openstudio_clean)
  qed
qed

text \<open>
  \<open>hikaru validate\<close> ends with code 0 exactly when the file is a project that can be read and is sound: a
  usable tempo and metre, a loop that is not reversed, a rectangular grid or clips on existing tracks,
  every sample on disk, and a master channel.  Warnings do not count.
\<close>

lemma validate_decides_soundness:
  "fst (cli_validate co present cwd p d) = EXIT_SUCCESS \<longleftrightarrow> file_sound co present cwd p d"
  by (rule validate_passes)

section \<open>What new writes\<close>

lemma fold_silent: "(\<And>x. x \<in> set xs \<Longrightarrow> f x = id) \<Longrightarrow> fold f xs = id"
  by (induction xs) simp_all

text \<open>A session of a template: no pad, no effect, a whole grid.\<close>

definition bare_session :: "OpenLiveProject \<Rightarrow> bool" where
  "bare_session p \<longleftrightarrow> ol_format_version p = FORMAT_VERSION \<and> lt_time_signature (ol_transport p) = (4, 4)
     \<and> lt_launch_quantization (ol_transport p) = ''1/4'' \<and> \<not> lt_loop_enabled (ol_transport p)
     \<and> rectangular (ol_matrix p) \<and> (\<forall>row \<in> set (mt_grid (ol_matrix p)). set row \<subseteq> {None})
     \<and> (\<forall>t \<in> set (ol_live_tracks p). ft_effects t = []) \<and> list_ex ft_is_master (ol_live_tracks p)"

lemma trim_start_digit:
  assumes "\<forall>w \<in> set ws. w \<noteq> [] \<and> \<not> is_digit (hd w)" "is_digit c"
  shows "trim_start ws (c # s) = c # s"
proof -
  have "strip_one ws (c # s) = c # s"
    using assms by (force simp: strip_one_def find_Some_iff prefix_Cons neq_Nil_conv dest: nth_mem split: option.split)
  then have "(strip_one ws ^^ n) (c # s) = c # s" for n by (induction n) simp_all
  then show ?thesis by (simp only: trim_start_def)
qed

lemma trim_between_digits: "is_digit c \<Longrightarrow> is_digit d \<Longrightarrow> trim (c # s @ [d]) = c # s @ [d]"
  using trim_start_digit [OF white_space_no_digit(1)] trim_start_digit [OF white_space_no_digit(2)] by (simp add: trim_def)

lemma bare_findings:
  assumes "bare_session p" "usable_bpm (lt_bpm (ol_transport p))"
  shows "rp_findings (validate_openlive present cwd q p r) = rp_findings r"
proof -
  have "trim ''1/4'' \<noteq> []" using trim_between_digits [of "CHR ''1''" "CHR ''4''" "''/''"] by (simp add: is_digit_def)
  moreover have "fold (fold (validate_slot there n)) (mt_grid (ol_matrix p)) = id" for there n
    using assms(1) by (intro fold_silent) (force simp: bare_session_def validate_slot_def)
  moreover have "fold (\<lambda>t. fold (validate_effect there (ft_name t)) (ft_effects t)) (ol_live_tracks p) = id" for there
    using assms(1) by (intro fold_silent) (simp add: bare_session_def)
  ultimately show ?thesis using assms
    by (simp add: validate_openlive_def bare_session_def Let_def validate_header_def validate_bpm_def usable_bpm_iff
        validate_loop_def validate_master_def report_ok_def)
qed

lemma default_matrix_bare: "rectangular default_matrix" "\<forall>row \<in> set (mt_grid default_matrix). set row \<subseteq> {None}"
  by (auto simp: rectangular_def default_matrix_def list_all_iff)

lemma template_live_bare: "bare_session (template_live c)"
  using default_matrix_bare
  by (simp add: bare_session_def template_live_def Let_def plain_track_def split_beta)

lemma empty_template_bare: "bare_session (empty_template_live c)"
  using template_live_bare [of c]
  by (simp add: bare_session_def empty_template_live_def Let_def rectangular_def)
    (simp add: template_live_def Let_def plain_track_def)

lemma new_live_bare: "bare_session (new_live c t args)" "lt_bpm (ol_transport (new_live c t args)) = sanitize_bpm (na_bpm args)"
  using template_live_bare [of c] empty_template_bare [of c]
  by (cases t; simp add: new_live_def bare_session_def Let_def)+

lemma new_studio_findings:
  "rp_findings (validate_openstudio present cwd q (new_studio c t args) r) = rp_findings r"
  using sanitize_usable [of "na_bpm args"]
  by (cases t) (simp_all add: validate_openstudio_def new_studio_def template_studio_def empty_template_studio_def Let_def
      validate_header_def validate_bpm_def usable_bpm_iff validate_loop_def validate_master_def report_ok_def
      plain_track_def FILE_PPQN_def)

lemma format_of_file: "format_of p = map_option (\<lambda>f. case f of OpenLiveFile \<Rightarrow> LiveMode | OpenStudioFile \<Rightarrow> StudioMode) (file_format p)"
  by (simp add: format_of_def file_format_def split: option.split)

text \<open>So what \<open>new\<close> makes is sound, whatever template, title and tempo were asked for.\<close>

lemma new_documents_sound:
  "session_sound (resource_exists present (base_dir cwd q)) (new_live c t args)"
  "timeline_sound (resource_exists present (base_dir cwd q)) (new_studio c t args)"
proof -
  have clean: "clean r" if "rp_findings r = []" for r using that by (simp add: clean_def report_errors_def)
  have "rp_findings (validate_openlive present cwd q (new_live c t args) report_empty) = []"
    using bare_findings [OF new_live_bare(1)] sanitize_usable by (simp add: new_live_bare(2) report_empty_def)
  from clean [OF this] show "session_sound (resource_exists present (base_dir cwd q)) (new_live c t args)"
    by (simp add: validate_openlive_clean)
  have "rp_findings (validate_openstudio present cwd q (new_studio c t args) report_empty) = []"
    by (simp add: new_studio_findings report_empty_def)
  from clean [OF this] show "timeline_sound (resource_exists present (base_dir cwd q)) (new_studio c t args)"
    by (simp add: validate_openstudio_clean)
qed

section \<open>What a checked project opens as\<close>

lemma passed_live:
  assumes "file_format p = Some OpenLiveFile" "fst (cli_validate co present cwd p d) = EXIT_SUCCESS"
  obtains project where "parse_with_probe (co_probe co) (co_body_live co) p d = Inr project"
    "session_sound (resource_exists present (base_dir cwd p)) project"
  using assms unfolding validate_passes file_sound_def Let_def by (auto split: sum.splits)

lemma sync_lengths:
  assumes "sync_matrix_mixer_bidirectional live metas om ox = (tracks, metas', cmds)"
  shows "length metas' = length metas" "length tracks = length metas + 1" "tk_is_master (hd tracks)"
  using assms hd_fit_tracks [of live metas] by (auto simp: sync_matrix_mixer_bidirectional_def Let_def)

lemma build_clip_id [simp]: "xc_id (build_clip h base c) = fc_id c"
proof -
  have "xc_id (set_audio_events es c) = xc_id c" for es c by (simp add: set_audio_events_def split: ClipData.split)
  moreover have "xc_id (snd (alloc_event_id c)) = xc_id c" for c by (simp add: alloc_event_id_def Let_def split: ClipData.split)
  moreover have "xc_id (refresh_preview c) = xc_id c" for c by (simp add: refresh_preview_def Let_def split: ClipData.split)
  ultimately show ?thesis by (simp add: build_clip_def Let_def base_event_def split_beta split: option.split)
qed

text \<open>
  C39. A session file that passes \<open>hikaru validate\<close> opens well formed, in whatever mode the interface is: if its
  session has a scene (and fewer rows and scenes than \<open>2 ^ 62\<close>), the grid of the interface has the rows and
  columns of the file with every pad in its place, and the mixer is a master and one channel per row.  Passing
  is what makes the grid rectangular; \<open>no_scenes_open_ragged\<close> shows that the scene is needed.
\<close>

theorem checked_session_opens_whole:
  assumes "file_format p = Some OpenLiveFile" "fst (cli_validate co present cwd p d) = EXIT_SUCCESS"
    and read: "parse_with_probe (co_probe co) (co_body_live co) p d = Inr project"
    and size: "mt_scenes (ol_matrix project) \<noteq> []" "vec_ok (mt_tracks (ol_matrix project))" "vec_ok (mt_scenes (ol_matrix project))"
  shows "\<exists>s' cmds. load h co p d s = Inr (s', cmds) \<and> as_mode s' = LiveMode \<and> grid_ok (as_matrix s')
     \<and> map (map (map_option xc_id \<circ> sl_clip)) (sm_grid (as_matrix s')) = map (map (map_option fc_id)) (mt_grid (ol_matrix project))
     \<and> length (as_live_tracks s') = length (mt_tracks (ol_matrix project)) + 1 \<and> tk_is_master (hd (as_live_tracks s'))"
proof -
  let ?m = "ol_matrix project" and ?r = "apply_live h project (path_parent p) s"
  have sound: "session_sound (resource_exists present (base_dir cwd p)) project"
    using passed_live [OF assms(1,2)] read by (metis sum.inject(2))
  have load: "load h co p d s = Inr (fst ?r, snd ?r)"
    using assms(1) read by (simp add: load_def format_of_file)
  obtain live metas mix where sync: "sync_matrix_mixer_bidirectional (opened_mixer h project) (map build_meta (mt_tracks ?m)) [] []
      = (live, metas, mix)" by (metis prod_cases3)
  note f = apply_live_fields [OF sync, of "path_parent p" s]
  have rect: "rectangular ?m" using sound by (simp add: session_sound_def Let_def)
  note grid = opened_grid_shape [OF rect size(1), of h "path_parent p"]
  have "grid_ok (as_matrix (fst ?r))"
    using rect size sync_lengths(1) [OF sync] by (auto simp: grid_ok_def f grid rectangular_def list_all_iff vec_ok_def)
  moreover have "map_option xc_id (sl_clip (build_pad h base x)) = map_option fc_id x" for base x
    by (cases x) (simp_all add: build_pad_def)
  ultimately show ?thesis
    using sync_lengths [OF sync]
    by (intro exI [of _ "fst ?r"] exI [of _ "snd ?r"] conjI load) (simp_all add: f grid comp_def)
qed

text \<open>The rectangle \<open>validate\<close> asks for may have no columns; then only the first row opens without.\<close>

lemma no_scenes_open_ragged:
  assumes "length (mt_tracks m) = n" "2 \<le> n" "n \<le> 8" "mt_scenes m = []" "mt_grid m = replicate n []"
  shows "rectangular m \<and> opened_grid h base m = [] # replicate (n - 1) (replicate 8 slot_default)"
proof -
  have "take n (replicate DEFAULT_TRACKS (replicate DEFAULT_SCENES slot_default))
      = replicate 8 slot_default # replicate (n - 1) (replicate 8 slot_default)"
    using assms(2,3) by (cases n) (simp_all add: DEFAULT_TRACKS_def DEFAULT_SCENES_def take_replicate min_def)
  then show ?thesis using assms by (simp add: rectangular_def opened_grid_def list_all_iff)
qed

lemma passed_studio:
  assumes "file_format p = Some OpenStudioFile" "fst (cli_validate co present cwd p d) = EXIT_SUCCESS"
  obtains project where "parse_with_probe (co_probe co) (co_body_studio co) p d = Inr project"
    "timeline_sound (resource_exists present (base_dir cwd p)) project"
  using assms unfolding validate_passes file_sound_def Let_def by (auto split: sum.splits)

text \<open>
  A timeline that passes \<open>hikaru validate\<close> loses no clip when the interface opens it in OpenStudio mode: every
  clip of the file is there, at its start and on its track, every track number is one of the mixer, and
  the mixer has a master.
\<close>

lemma checked_timeline_opens_whole:
  assumes "file_format p = Some OpenStudioFile" "fst (cli_validate co present cwd p d) = EXIT_SUCCESS"
    and mode: "as_mode s = StudioMode"
  shows "\<exists>project s' cmds. parse_with_probe (co_probe co) (co_body_studio co) p d = Inr project
     \<and> load h co p d s = Inr (s', cmds)
     \<and> map (\<lambda>(t, c). (t, pc_id c, pc_start_tick c)) (pl_clips (as_playlist s'))
       = map (\<lambda>(t, c). (t, fx_id c, fx_start_tick c)) (fy_clips (ou_playlist project))
     \<and> list_all (\<lambda>(t, c). t < vlen (as_studio_tracks s')) (pl_clips (as_playlist s'))
     \<and> list_ex tk_is_master (as_studio_tracks s')"
proof -
  obtain project where read: "parse_with_probe (co_probe co) (co_body_studio co) p d = Inr project"
    and sound: "timeline_sound (resource_exists present (base_dir cwd p)) project"
    by (rule passed_studio [OF assms(1,2)])
  let ?r = "apply_studio h project (path_parent p) s" and ?ts = "ou_studio_tracks project"
  have load: "load h co p d s = Inr (fst ?r, snd ?r)" using assms(1) read by (simp add: load_def format_of_file)
  have master: "list_ex ft_is_master ?ts"
    and clips: "list_all (\<lambda>(t, c). t < vlen ?ts) (fy_clips (ou_playlist project))"
    using sound by (auto simp: timeline_sound_def Let_def placed_clip_sound_def list_all_iff)
  then have len: "vlen (tracks_or_default h ?ts default_studio_tracks) = vlen ?ts"
    by (intro length_tracks_or_default) auto
  have keep: "filter (\<lambda>(t, c). t < vlen ?ts) (fy_clips (ou_playlist project)) = fy_clips (ou_playlist project)"
    using clips by (intro filter_True) (simp add: list_all_iff)
  note opened = studio_clips_opened [of h project "path_parent p" s, unfolded mode GuiMode.case len keep]
  have "list_ex tk_is_master (tracks_or_default h ?ts default_studio_tracks)"
    using master by (auto simp: tracks_or_default_def Let_def list_ex_iff build_track_def track_new_def)
  then show ?thesis
    using clips by (intro exI [of _ project] exI [of _ "fst ?r"] exI [of _ "snd ?r"] conjI read load)
      (simp_all add: opened apply_studio_fields len comp_def split_beta build_playlist_clip_def list_all_iff)
qed

section \<open>What inspect counts\<close>

lemma row_clips: "map (\<lambda>c. snd (snd (snd c))) (List.map_filter (\<lambda>(scene, slot). map_option (\<lambda>clip.
    (track, scene, if fc_midi_notes clip = [] then PadAudio else PadMidi, clip)) slot) (enumerate n row))
    = List.map_filter id row"
  by (induction row arbitrary: n) (simp_all add: map_filter_simps split: option.split)

lemma map_filter_append: "List.map_filter f (xs @ ys) = List.map_filter f xs @ List.map_filter f ys"
  by (simp add: map_filter_def)

lemma live_clips_from: "map (\<lambda>c. snd (snd (snd c))) (concat (map (\<lambda>(track, row). List.map_filter (\<lambda>(scene, slot).
    map_option (\<lambda>clip. (track, scene, if fc_midi_notes clip = [] then PadAudio else PadMidi, clip)) slot)
    (enumerate 0 row)) (enumerate n grid))) = List.map_filter id (concat grid)"
proof (induction grid arbitrary: n)
  case (Cons row grid)
  show ?case by (simp only: enumerate_simps list.map prod.case concat.simps map_append row_clips Cons.IH map_filter_append)
qed (simp add: map_filter_def)

lemma live_clips_clips: "map (\<lambda>c. snd (snd (snd c))) (live_clips grid) = List.map_filter id (concat grid)"
  unfolding live_clips_def by (rule live_clips_from)

lemma live_clips_kind:
  "(t, sc, kind, clip) \<in> set (live_clips grid) \<Longrightarrow> kind = (if fc_midi_notes clip = [] then PadAudio else PadMidi)"
  by (auto simp: live_clips_def map_filter_def)

lemma midi_clips_count:
  "length (filter (\<lambda>c. fst (snd (snd c)) = PadMidi) (live_clips grid))
   = length (filter (\<lambda>c. fc_midi_notes c \<noteq> []) (List.map_filter id (concat grid)))"
proof -
  have "filter (\<lambda>c. fst (snd (snd c)) = PadMidi) (live_clips grid)
      = filter (\<lambda>c. fc_midi_notes (snd (snd (snd c))) \<noteq> []) (live_clips grid)"
    by (rule filter_cong) (auto dest: live_clips_kind)
  then show ?thesis unfolding live_clips_clips [symmetric] by (simp add: filter_map comp_def split_beta)
qed

text \<open>
  \<open>hikaru inspect\<close> counts as File > Save does: for a document of either format, the totals it prints are the
  totals the interface writes into the file's own statistics.
\<close>

lemma inspect_counts_as_saved:
  "md_stats (live_metadata (ol_matrix l)) =
     (let n = md_stats (su_metadata (summary_openlive p l))
      in \<lparr> ls_total_scenes = word_of_nat (lc_total_scenes n), ls_total_tracks = word_of_nat (lc_total_tracks n),
           ls_audio_clips = word_of_nat (lc_audio_clips n), ls_midi_clips = word_of_nat (lc_midi_clips n) \<rparr>)
   \<and> md_stats (studio_metadata (ou_studio_tracks u) (ou_playlist u)) =
     (let n = md_stats (su_metadata (summary_openstudio p u))
      in \<lparr> us_total_tracks = word_of_nat (uc_total_tracks n), us_total_clips = word_of_nat (uc_total_clips n),
           us_audio_clips = word_of_nat (uc_audio_clips n), us_midi_clips = word_of_nat (uc_midi_clips n) \<rparr>)"
proof -
  let ?cs = "live_clips (mt_grid (ol_matrix l))"
  have all: "length (List.map_filter id (concat (mt_grid (ol_matrix l)))) = length ?cs"
    by (metis live_clips_clips length_map)
  have split: "length ?cs = length (filter (\<lambda>c. fst (snd (snd c)) \<noteq> PadMidi) ?cs) + length (filter (\<lambda>c. fst (snd (snd c)) = PadMidi) ?cs)"
    using sum_length_filter_compl [of "\<lambda>c. fst (snd (snd c)) = PadMidi" ?cs] by (simp add: split_beta)
  have kind: "(fst (kind_json k) = ''audio'') = is_audio_kind k" for k
    by (cases k) (simp_all add: kind_json_def)
  show ?thesis
    by (simp add: live_metadata_def summary_openlive_def studio_metadata_def summary_openstudio_def Let_def vlen_def
        all midi_clips_count [symmetric] split filter_map comp_def case_prod_unfold kind)
qed

section \<open>Witnesses\<close>

text \<open>A codec whose files are \<open>new\<close>'s, and the file it writes.\<close>

definition demo_args :: "string \<Rightarrow> NewArgs" where
  "demo_args name = \<lparr> na_path = [''home'', name], na_template = DefaultTemplate, na_empty = False,
     na_title = Some ''Demo'', na_bpm = Num 128, na_force = False \<rparr>"

definition demo_new_codec :: "string \<Rightarrow> codec" where
  "demo_new_codec name = demo_codec (new_live ''Hikaru OpenLive 1'' DefaultTemplate (demo_args name))
     (new_studio ''Hikaru OpenStudio 1'' DefaultTemplate (demo_args name))"

lemma demo_formats: "file_format [''home'', ''set.oplf''] = Some OpenLiveFile" "file_format [''home'', ''song.opsf''] = Some OpenStudioFile"
  by code_simp+

lemma demo_read:
  "parse_with_probe (co_probe (demo_new_codec n)) (co_body_live (demo_new_codec n)) p [p \<mapsto> x]
     = Inr (new_live ''Hikaru OpenLive 1'' DefaultTemplate (demo_args n))"
  "parse_with_probe (co_probe (demo_new_codec n)) (co_body_studio (demo_new_codec n)) p [p \<mapsto> x]
     = Inr (new_studio ''Hikaru OpenStudio 1'' DefaultTemplate (demo_args n))"
  by (simp_all add: parse_with_probe_def demo_new_codec_def demo_codec_def FORMAT_VERSION_def)

lemma demo_passes:
  "fst (cli_validate (demo_new_codec ''set.oplf'') (\<lambda>_. False) [] [''home'', ''set.oplf''] [[''home'', ''set.oplf''] \<mapsto> ''l'']) = EXIT_SUCCESS"
  "fst (cli_validate (demo_new_codec ''song.opsf'') (\<lambda>_. False) [] [''home'', ''song.opsf''] [[''home'', ''song.opsf''] \<mapsto> ''u'']) = EXIT_SUCCESS"
  unfolding validate_passes file_sound_def demo_formats option.case Format.case demo_read sum.case Let_def
  by (rule new_documents_sound)+

text \<open>A session with two pads, as the interface writes it, whose files are all there.\<close>

definition demo_saved :: OpenLiveProject where
  "demo_saved = capture_live wav_host (saved_session LiveMode)"

lemma demo_saved_sel:
  "ol_format_version demo_saved = FORMAT_VERSION" "ol_matrix demo_saved = capture_matrix (as_matrix (saved_session LiveMode))"
  "lt_bpm (ol_transport demo_saved) = Num 120" "lt_time_signature (ol_transport demo_saved) = (4, 4)"
  "lt_launch_quantization (ol_transport demo_saved) = ''1/4''" "lt_loop_enabled (ol_transport demo_saved) = False"
  "list_ex ft_is_master (ol_live_tracks demo_saved)"
  by (simp_all add: demo_saved_def capture_live_def saved_session_def demo_app_def transport_new_def demo_channels_def
      capture_track_def track_new_def Let_def char_of_def bit_iff_odd)

lemma demo_saved_pads:
  "mt_grid (ol_matrix demo_saved) = [[Some (capture_clip (the (sl_clip demo_notes))), Some (capture_clip fresh_pad)]]"
  "length (mt_tracks (ol_matrix demo_saved)) = 1" "mt_scenes (ol_matrix demo_saved) = [''A'', ''B'']"
  by (simp_all add: demo_saved_sel capture_matrix_def saved_session_def demo_app_def session_default_def demo_notes_def)

lemma demo_saved_sound:
  assumes "\<And>p. there p"
  shows "session_sound there demo_saved"
proof -
  have "trim ''1/4'' \<noteq> []" using trim_between_digits [of "CHR ''1''" "CHR ''4''" "''/''"] by (simp add: is_digit_def)
  then show ?thesis
    using assms demo_saved_sel(7)
    by (simp add: session_sound_def demo_saved_sel(3-6) demo_saved_pads rectangular_def clip_sound_def usable_bpm_def Let_def list_all_iff)
qed

theorem checked_session_opens_whole_witness:
  "\<exists>s' cmds. load wav_host (demo_codec demo_saved undefined) [''home'', ''set.oplf''] [[''home'', ''set.oplf''] \<mapsto> ''l'']
       (demo_app StudioMode []) = Inr (s', cmds)
     \<and> map (map (map_option xc_id \<circ> sl_clip)) (sm_grid (as_matrix s')) = [[Some 1, Some 2]]
     \<and> length (as_live_tracks s') = 2"
proof -
  let ?p = "[''home'', ''set.oplf'']" and ?co = "demo_codec demo_saved undefined"
  have read: "parse_with_probe (co_probe ?co) (co_body_live ?co) ?p [?p \<mapsto> ''l''] = Inr demo_saved"
    by (simp add: parse_with_probe_def demo_codec_def FORMAT_VERSION_def)
  have there: "resource_exists (\<lambda>_. True) b p" for b p by (simp add: resource_exists_def)
  have passes: "fst (cli_validate ?co (\<lambda>_. True) [] ?p [?p \<mapsto> ''l'']) = EXIT_SUCCESS"
    unfolding validate_passes file_sound_def demo_formats option.case Format.case read sum.case Let_def
    by (rule demo_saved_sound [OF there])
  have size: "mt_scenes (ol_matrix demo_saved) \<noteq> []" "vec_ok (mt_tracks (ol_matrix demo_saved))" "vec_ok (mt_scenes (ol_matrix demo_saved))"
    by (simp_all add: demo_saved_pads vec_ok_def)
  have ids: "map (map (map_option fc_id)) (mt_grid (ol_matrix demo_saved)) = [[Some 1, Some 2]]"
    by (simp add: demo_saved_pads capture_clip_def demo_notes_def fresh_pad_def fresh_clip_def Let_def)
  from checked_session_opens_whole [OF demo_formats(1) passes read size, of wav_host "demo_app StudioMode []"]
  show ?thesis unfolding ids demo_saved_pads(2) by auto
qed

lemma checked_timeline_opens_whole_witness:
  "\<exists>s' cmds. load demo_host (demo_new_codec ''song.opsf'') [''home'', ''song.opsf''] [[''home'', ''song.opsf''] \<mapsto> ''u'']
       (demo_app StudioMode []) = Inr (s', cmds)
     \<and> list_ex tk_is_master (as_studio_tracks s')"
  using checked_timeline_opens_whole [OF demo_formats(2) demo_passes(2), of "demo_app StudioMode []" demo_host]
  by (auto simp: demo_app_def)

end
