(* ===== verification/GridLines.thy ===== *)
theory GridLines
  imports GuiPlaylist "HOL-Library.While_Combinator"
begin

text \<open>
  The loops that draw the lines of the timeline (gui/src/views/playlist.rs, \<open>render\<close>): the grid behind the
  tracks and the ruler above it.  A loop steps a \<open>u64\<close> with saturation, so it need not end: it is a
  \<open>while_option\<close>, and one that never returns is None.  A line is the tick it is drawn at.
\<close>

section \<open>The loops\<close>

definition total_ticks :: "u64 \<Rightarrow> u64 \<Rightarrow> u64" where
  "total_ticks bar playhead = max (bar * 128) (playhead + bar * 16)"

definition sweep :: "(u64 \<Rightarrow> bool) \<Rightarrow> u64 \<Rightarrow> u64 \<Rightarrow> u64 \<Rightarrow> u64 list option" where
  "sweep keep step limit first = map_option snd (while_option (\<lambda>(t, lines). t \<le> limit)
     (\<lambda>(t, lines). (sat_add t step, if keep t then lines @ [t] else lines)) (first, []))"

text \<open>
  From the first multiple of the step at or before the left edge of the window to the right edge or to the end
  of the canvas.
\<close>

definition sweep_window :: "(u64 \<Rightarrow> bool) \<Rightarrow> u64 \<Rightarrow> u64 \<Rightarrow> f32 \<Rightarrow> f32 \<Rightarrow> f32 \<Rightarrow> u64 list option" where
  "sweep_window keep step extent zoom_x vis_x0 vis_x1 =
     sweep keep step (min (px_to_ticks vis_x1 zoom_x) extent) ((px_to_ticks vis_x0 zoom_x div step) * step)"

definition bar_step :: "u64 \<Rightarrow> u64 \<Rightarrow> u64" where
  "bar_step bar stride = max (sat_mul bar stride) 1"

section \<open>The grid and the ruler\<close>

record Lines =
  ln_minor :: "u64 list"
  ln_beats :: "u64 list"
  ln_bars :: "u64 list"

text \<open>The edges of the window, from the scroll offset, its width and the width of the canvas.\<close>

definition visible_span :: "f32 \<Rightarrow> f32 \<Rightarrow> f32 \<Rightarrow> f32 \<times> f32" where
  "visible_span scroll_x vis_w w =
     (let vis_w = fmax vis_w (Num 1400); x0 = fmax (fsub F32 (fneg scroll_x) (Num 32)) (Num 0)
      in (x0, fmin (fadd F32 (fadd F32 x0 vis_w) (Num 64)) w))"

definition grid_lines :: "u64 \<Rightarrow> u32 \<Rightarrow> u32 \<Rightarrow> u64 \<Rightarrow> f32 \<Rightarrow> f32 \<times> f32 \<Rightarrow> Lines option" where
  "grid_lines ppqn grid_den beats_per_bar playhead zoom_x = (\<lambda>(vis_x0, vis_x1).
     let bar_val = ticks_per_bar ppqn beats_per_bar;
         extent = total_ticks bar_val playhead;
         snap = max (snap_step_ticks ppqn grid_den) 1;
         beat = max ppqn 1;
         bar = max bar_val 1;
         major = bar_step bar (if le (Num 6) (ticks_to_px bar zoom_x) then 1 else adaptive_bar_stride bar zoom_x)
     in Option.bind (if le (Num 7) (ticks_to_px snap zoom_x) \<and> snap < beat
            then sweep_window (\<lambda>t. t mod beat \<noteq> 0 \<and> t mod bar \<noteq> 0) snap extent zoom_x vis_x0 vis_x1 else Some []) (\<lambda>minor.
        Option.bind (if le (Num 7) (ticks_to_px beat zoom_x)
            then sweep_window (\<lambda>t. t mod bar \<noteq> 0) beat extent zoom_x vis_x0 vis_x1 else Some []) (\<lambda>beats.
        Option.bind (sweep_window (\<lambda>_. True) major extent zoom_x vis_x0 vis_x1) (\<lambda>bars.
        Some \<lparr> ln_minor = minor, ln_beats = beats, ln_bars = bars \<rparr>))))"

text \<open>
  The ruler starts at \<open>ox\<close> and is \<open>w\<close> wide; a line is left out where it would be drawn outside.  A bar has
  a number when that fits.
\<close>

record Ruler =
  ru_lines :: Lines
  ru_labels :: "(u64 \<times> u32) list"

definition ruler_lines :: "u64 \<Rightarrow> u32 \<Rightarrow> u32 \<Rightarrow> u64 \<Rightarrow> f32 \<Rightarrow> f32 \<Rightarrow> f32 \<Rightarrow> f32 \<Rightarrow> f32 \<Rightarrow> Ruler option" where
  "ruler_lines ppqn grid_den beats_per_bar playhead zoom_x ox w grid_w scroll_x =
     (let bar_val = ticks_per_bar ppqn beats_per_bar;
          extent = total_ticks bar_val playhead;
          snap = max (snap_step_ticks ppqn grid_den) 1;
          beat = max ppqn 1;
          bar = max bar_val 1;
          x0 = fmax (fsub F32 (fneg scroll_x) (Num 32)) (Num 0);
          x1 = fmin (fadd F32 (fadd F32 x0 w) (Num 64)) grid_w;
          sx = (\<lambda>t. fadd F32 (fadd F32 ox (ticks_to_px t zoom_x)) scroll_x);
          inside = (\<lambda>t. le ox (sx t) \<and> le (sx t) (fadd F32 ox w));
          major = bar_step bar (adaptive_bar_stride bar zoom_x)
      in Option.bind (if le (Num 9) (ticks_to_px snap zoom_x) \<and> snap < beat
             then sweep_window (\<lambda>t. t mod beat \<noteq> 0 \<and> t mod bar \<noteq> 0 \<and> inside t) snap extent zoom_x x0 x1 else Some []) (\<lambda>minor.
         Option.bind (if le (Num 7) (ticks_to_px beat zoom_x)
             then sweep_window (\<lambda>t. t mod bar \<noteq> 0 \<and> inside t) beat extent zoom_x x0 x1 else Some []) (\<lambda>beats.
         Option.bind (sweep_window (\<lambda>_. True) major extent zoom_x x0 x1) (\<lambda>bars.
         Some \<lparr> ru_lines = \<lparr> ln_minor = minor, ln_beats = beats,
                  ln_bars = filter (\<lambda>t. le (fsub F32 ox (Num 1)) (sx t) \<and> le (sx t) (fadd F32 (fadd F32 ox w) (Num 1))) bars \<rparr>,
                ru_labels = map (\<lambda>t. (t, bar_number_at_tick t bar))
                  (filter (\<lambda>t. le (fsub F32 ox (Num 20)) (fadd F32 (sx t) (Num 4))
                     \<and> le (fadd F32 (sx t) (Num 4)) (fsub F32 (fadd F32 ox w) (Num 4))) bars) \<rparr>))))"

section \<open>When a loop ends\<close>

text \<open>The ticks a loop visits.\<close>

definition tick :: "nat \<Rightarrow> u64" where
  "tick n = word_of_nat n"

lemma unat_tick:
  fixes limit :: u64
  assumes "n \<le> unat limit"
  shows "unat (tick n) = n"
proof -
  have "unat limit < 2 ^ 64" using unsigned_less [of limit] by simp
  then show ?thesis using assms by (simp add: tick_def unat_of_nat)
qed

lemma tick_unat [simp]: "tick (unat t) = t"
  by (simp add: tick_def)

definition stepped :: "u64 \<Rightarrow> u64 \<Rightarrow> u64 \<Rightarrow> u64 list" where
  "stepped step limit first = map (\<lambda>k. tick (unat first + k * unat step))
     [0..<(if first \<le> limit then (unat limit - unat first) div unat step + 1 else 0)]"

lemma stepped_beyond: "limit < first \<Longrightarrow> stepped step limit first = []"
  by (simp add: stepped_def)

lemma stepped_next:
  assumes "first \<le> limit" "0 < step" "limit < - 1"
  shows "stepped step limit first = first # stepped step limit (sat_add first step)"
proof -
  let ?f = "unat first" and ?s = "unat step" and ?l = "unat limit"
  have le: "?f \<le> ?l" and s: "0 < ?s" and l: "?l < 2 ^ 64 - 1"
    using assms by (simp_all add: word_le_nat_alt word_less_nat_alt unsigned_minus_1_eq_mask mask_eq_exp_minus_1)
  show ?thesis
  proof (cases "?f + ?s \<le> ?l")
    case True
    then have n: "unat (sat_add first step) = ?f + ?s" using l by (simp add: unat_sat_add)
    have "(?l - ?f) div ?s = Suc ((?l - (?f + ?s)) div ?s)"
      using True s by (subst div_if [of "?l - ?f"]) auto
    then show ?thesis using True le
      by (simp add: stepped_def word_le_nat_alt n map_Suc_upt [symmetric] upt_conv_Cons comp_def algebra_simps del: upt_Suc)
  next
    case False
    then have "limit < sat_add first step" using l by (auto simp: word_less_nat_alt unat_sat_add min_def)
    moreover have "(?l - ?f) div ?s = 0" using False le by simp
    ultimately show ?thesis using le by (simp add: stepped_beyond) (simp add: stepped_def word_le_nat_alt)
  qed
qed

lemma while_sweep:
  assumes "0 < step" "limit < - 1"
  shows "\<exists>t'. while_option (\<lambda>(t, lines). t \<le> limit)
     (\<lambda>(t, lines). (sat_add t step, if keep t then lines @ [t] else lines)) (t, lines)
     = Some (t', lines @ filter keep (stepped step limit t))"
proof (induction "unat limit + 1 - unat t" arbitrary: t lines rule: less_induct)
  case less
  show ?case
  proof (cases "t \<le> limit")
    case False
    then show ?thesis by (subst while_option_unfold) (simp add: stepped_beyond)
  next
    case True
    have "unat t \<le> unat limit" "unat limit < 2 ^ 64 - 1" "0 < unat step"
      using True assms by (simp_all add: word_le_nat_alt word_less_nat_alt unsigned_minus_1_eq_mask mask_eq_exp_minus_1)
    then have "unat limit + 1 - unat (sat_add t step) < unat limit + 1 - unat t" by (simp add: unat_sat_add)
    from less [OF this, of "if keep t then lines @ [t] else lines"] show ?thesis
      by (subst while_option_unfold) (cases "keep t"; simp add: True stepped_next [OF True assms])
  qed
qed

lemma sweep_ends:
  assumes "0 < step" "limit < - 1"
  shows "sweep keep step limit first = Some (filter keep (stepped step limit first))"
  using while_sweep [OF assms, of keep first "[]"] by (auto simp: sweep_def)

text \<open>Saturation keeps a loop that may reach the greatest tick there for ever.\<close>

lemma sweep_hangs: "sweep keep step (- 1) first = None"
proof -
  have "while_option (\<lambda>(t, lines). t \<le> - 1) c s \<noteq> Some s'" for c :: "u64 \<times> u64 list \<Rightarrow> u64 \<times> u64 list" and s s'
    using while_option_stop [of "\<lambda>(t, lines). t \<le> - 1" c s s'] by (auto simp: split_beta)
  then show ?thesis by (simp add: sweep_def) (meson not_Some_eq)
qed

section \<open>The lines of a window\<close>

lemma stepped_bound:
  assumes "first \<le> limit" "k < (unat limit - unat first) div unat step + 1"
  shows "unat first + k * unat step \<le> unat limit"
proof -
  have "k * unat step \<le> (unat limit - unat first) div unat step * unat step" using assms(2) by (intro mult_right_mono) auto
  also have "\<dots> \<le> unat limit - unat first" by simp
  finally show ?thesis using assms(1) by (simp add: word_le_nat_alt)
qed

text \<open>From a multiple of the step, a loop visits the multiples up to its limit, each once and in order.\<close>

lemma set_stepped:
  assumes "0 < step" "unat step dvd unat first"
  shows "set (stepped step limit first) = {t. first \<le> t \<and> t \<le> limit \<and> unat step dvd unat t}"
proof (cases "first \<le> limit")
  case le: True
  show ?thesis
  proof (intro set_eqI iffI)
    fix t assume "t \<in> set (stepped step limit first)"
    then obtain k where k: "k < (unat limit - unat first) div unat step + 1" "t = tick (unat first + k * unat step)"
      using le unfolding stepped_def by (auto simp del: upt_Suc)
    note b = stepped_bound [OF le k(1)]
    have "unat t = unat first + k * unat step" using unat_tick [OF b] k(2) by simp
    then show "t \<in> {t. first \<le> t \<and> t \<le> limit \<and> unat step dvd unat t}" using b assms(2) by (simp add: word_le_nat_alt)
  next
    fix t assume "t \<in> {t. first \<le> t \<and> t \<le> limit \<and> unat step dvd unat t}"
    then have t: "unat first \<le> unat t" "unat t \<le> unat limit" "unat step dvd unat t" by (simp_all add: word_le_nat_alt)
    then have "unat step dvd unat t - unat first" using assms(2) by simp
    then obtain k where k: "unat t - unat first = k * unat step" by (metis dvdE mult.commute)
    have s: "0 < unat step" using assms(1) by (simp add: word_less_nat_alt)
    have "k = (unat t - unat first) div unat step" using k s by simp
    also have "\<dots> \<le> (unat limit - unat first) div unat step" using t(2) by (intro div_le_mono) simp
    finally have "k < (unat limit - unat first) div unat step + 1" by simp
    moreover have "t = tick (unat first + k * unat step)" using t(1) k by (metis le_add_diff_inverse tick_unat)
    ultimately show "t \<in> set (stepped step limit first)" using le unfolding stepped_def by (auto simp del: upt_Suc)
  qed
qed (auto simp: stepped_beyond)

lemma sorted_stepped:
  assumes "0 < step"
  shows "sorted_wrt (<) (stepped step limit first)"
proof (cases "first \<le> limit")
  case True
  let ?n = "(unat limit - unat first) div unat step + 1"
  have s: "0 < unat step" using assms by (simp add: word_less_nat_alt)
  have "tick (unat first + i * unat step) < (tick (unat first + j * unat step))"
    if "i < j" "j < ?n" for i j
  proof -
    have "i < ?n" using that by simp
    note b = unat_tick [OF stepped_bound [OF True this]] unat_tick [OF stepped_bound [OF True that(2)]]
    show ?thesis unfolding word_less_nat_alt b using that(1) s by simp
  qed
  then show ?thesis using True by (simp add: stepped_def sorted_wrt_iff_nth_less del: upt_Suc)
qed (simp add: stepped_beyond)

lemma unat_floor_step: "unat ((x div step) * step) = unat x div unat step * unat step" for x step :: u64
proof -
  have "unat x div unat step * unat step \<le> unat x" by simp
  also have "unat x < 2 ^ 64" using unsigned_less [of x] by simp
  finally have "unat x div unat step * unat step < 2 ^ 64" .
  moreover have "unat ((x div step) * step) = unat (x div step) * unat step mod 2 ^ 64" by (simp add: unat_word_ariths)
  ultimately show ?thesis unfolding unat_div by simp
qed

text \<open>The ticks of a window that are multiples of a step.\<close>

definition window_ticks :: "u64 \<Rightarrow> u64 \<Rightarrow> f32 \<Rightarrow> f32 \<Rightarrow> f32 \<Rightarrow> u64 set" where
  "window_ticks step extent z x0 x1 =
     {t. px_to_ticks x0 z div step * step \<le> t \<and> t \<le> min (px_to_ticks x1 z) extent \<and> unat step dvd unat t}"

lemma sweep_window_ends:
  assumes "0 < step" "extent \<noteq> - 1"
  shows "\<exists>lines. sweep_window keep step extent z x0 x1 = Some lines \<and> sorted_wrt (<) lines
     \<and> set lines = {t \<in> window_ticks step extent z x0 x1. keep t}"
proof -
  let ?limit = "min (px_to_ticks x1 z) extent" and ?start = "px_to_ticks x0 z div step * step"
  have "extent < - 1" using assms(2) by (simp add: word_order.not_eq_extremum)
  moreover have "?limit \<le> extent" by simp
  ultimately have limit: "?limit < - 1" by (rule le_less_trans [rotated])
  have "unat step dvd unat ?start" unfolding unat_floor_step by simp
  then have "set (stepped step ?limit ?start) = window_ticks step extent z x0 x1"
    unfolding window_ticks_def by (rule set_stepped [OF assms(1)])
  moreover have "sweep_window keep step extent z x0 x1 = Some (filter keep (stepped step ?limit ?start))"
    using sweep_ends [OF assms(1) limit] by (simp add: sweep_window_def)
  ultimately show ?thesis using sorted_stepped [OF assms(1)] by (auto intro: sorted_wrt_filter)
qed

lemma total_ticks_ok: "playhead + bar * 16 \<noteq> - 1 \<Longrightarrow> total_ticks bar playhead \<noteq> - 1"
proof -
  have "bar * 128 \<noteq> - 1"
  proof
    assume "bar * 128 = - 1"
    then have "even (- 1 :: u64)" by (metis dvd_mult even_numeral)
    then show False by simp
  qed
  then show "playhead + bar * 16 \<noteq> - 1 \<Longrightarrow> total_ticks bar playhead \<noteq> - 1" by (simp add: total_ticks_def max_def)
qed

lemma dvd_unat_mod: "unat b dvd unat t \<longleftrightarrow> t mod b = 0" for b t :: u64
  by (simp add: dvd_eq_mod_eq_0 word_unat_eq_iff unat_mod)

lemma unat_max_u64: "unat (- 1 :: u64) = 2 ^ 64 - 1"
  by (simp add: unsigned_minus_1_eq_mask mask_eq_exp_minus_1)

lemma bar_step_positive: "0 < bar_step bar stride"
  by (simp add: bar_step_def less_max_iff_disj)

lemma bar_step_ticks:
  assumes "0 < bar" "0 < stride" "extent \<noteq> - 1" "t \<in> window_ticks (bar_step bar stride) extent z x0 x1"
  shows "t mod bar = 0"
proof (cases "unat bar * unat stride < 2 ^ 64")
  case True
  then have u: "unat (bar * stride) = unat bar * unat stride" by (simp add: unat_word_ariths)
  moreover have "0 < unat bar * unat stride" using assms(1,2) by (simp add: word_less_nat_alt)
  ultimately have "1 \<le> bar * stride" by (simp add: word_le_nat_alt)
  then have "bar_step bar stride = bar * stride" using True by (simp add: bar_step_def sat_mul_def max_absorb1)
  then have "unat bar dvd unat t" using assms(4) u by (auto simp: window_ticks_def elim: dvd_trans [rotated])
  then show ?thesis by (simp add: dvd_unat_mod)
next
  case False
  then have "bar_step bar stride = - 1" by (simp add: bar_step_def sat_mul_def max_absorb1)
  then have t: "2 ^ 64 - 1 dvd unat t" "t \<le> extent" using assms(4) by (auto simp: window_ticks_def unat_max_u64)
  have "t < - 1" using t(2) assms(3) by (metis le_less_trans word_order.not_eq_extremum)
  then have "unat t < 2 ^ 64 - 1" by (simp add: word_less_nat_alt unat_max_u64)
  then have "unat t = 0" using t(1) nat_dvd_not_less by blast
  then show ?thesis by (simp add: word_unat_eq_iff unat_mod del: unat_eq_0)
qed

lemma find_mem: "find P xs = Some x \<Longrightarrow> x \<in> set xs"
  by (auto simp: find_Some_iff)

definition bar_strides :: "u64 list" where
  "bar_strides = [1, 2, 4, 8, 16, 32, 64, 128]"

lemma bar_strides_positive: "stride \<in> set bar_strides \<Longrightarrow> 0 < stride"
  by (auto simp: bar_strides_def)

lemma stride_of_table: "adaptive_bar_stride bar z \<in> set bar_strides"
  unfolding bar_strides_def adaptive_bar_stride_def Let_def
  by (cases "find (\<lambda>stride. le (Num 36) (fmul F32 (ticks_to_px (max bar 1) z) (of_u64 F32 stride)))
       [1, 2, 4, 8, 16, 32, 64, 128 :: u64]") (simp_all only: option.case find_mem, simp)

text \<open>Lines that are drawn only when there is room for them.\<close>

lemma optional_sweep:
  assumes "0 < step" "extent \<noteq> - 1"
  shows "\<exists>lines. (if room then sweep_window keep step extent z x0 x1 else Some []) = Some lines \<and> sorted_wrt (<) lines
     \<and> (\<forall>t \<in> set lines. t \<in> window_ticks step extent z x0 x1 \<and> keep t)"
  using sweep_window_ends [OF assms, of keep z x0 x1] by (cases room) force+

text \<open>
  C40. The grid of the timeline is drawn: for every resolution, metre, zoom and window, the three loops of a frame
  end, unless the playhead and sixteen bars are, on 64 bits, exactly the greatest tick.  The bar lines are the
  multiples of the bar step inside the window, all lines come once and from left to right, and no two kinds
  share a tick.
\<close>

theorem grid_drawn:
  fixes ppqn playhead :: u64
  assumes "playhead + ticks_per_bar ppqn beats_per_bar * 16 \<noteq> - 1"
  shows "\<exists>l stride. grid_lines ppqn grid_den beats_per_bar playhead z (x0, x1) = Some l
     \<and> stride \<in> set bar_strides
     \<and> set (ln_bars l) = window_ticks (bar_step (max (ticks_per_bar ppqn beats_per_bar) 1) stride)
         (total_ticks (ticks_per_bar ppqn beats_per_bar) playhead) z x0 x1
     \<and> sorted_wrt (<) (ln_bars l) \<and> sorted_wrt (<) (ln_beats l) \<and> sorted_wrt (<) (ln_minor l)
     \<and> set (ln_minor l) \<inter> set (ln_beats l) = {} \<and> (set (ln_minor l) \<union> set (ln_beats l)) \<inter> set (ln_bars l) = {}"
proof -
  let ?bar = "max (ticks_per_bar ppqn beats_per_bar) 1" and ?beat = "max ppqn 1"
  let ?snap = "max (snap_step_ticks ppqn grid_den) 1"
  define extent where "extent = total_ticks (ticks_per_bar ppqn beats_per_bar) playhead"
  define stride where "stride = (if le (Num 6) (ticks_to_px ?bar z) then 1 else adaptive_bar_stride ?bar z)"
  have extent: "extent \<noteq> - 1" unfolding extent_def by (rule total_ticks_ok [OF assms])
  have pos: "0 < ?bar" "0 < ?beat" "0 < ?snap" by (simp_all add: less_max_iff_disj)
  have stride: "stride \<in> set bar_strides" unfolding stride_def using stride_of_table [of ?bar z] by (simp add: bar_strides_def)
  then have "0 < stride" by (rule bar_strides_positive)
  from optional_sweep [OF pos(3) extent, of "le (Num 7) (ticks_to_px ?snap z) \<and> ?snap < ?beat"
      "\<lambda>t. t mod ?beat \<noteq> 0 \<and> t mod ?bar \<noteq> 0" z x0 x1]
  obtain minor where minor: "(if le (Num 7) (ticks_to_px ?snap z) \<and> ?snap < ?beat
        then sweep_window (\<lambda>t. t mod ?beat \<noteq> 0 \<and> t mod ?bar \<noteq> 0) ?snap extent z x0 x1 else Some []) = Some minor"
    "sorted_wrt (<) minor" "\<forall>t \<in> set minor. t \<in> window_ticks ?snap extent z x0 x1 \<and> t mod ?beat \<noteq> 0 \<and> t mod ?bar \<noteq> 0"
    by (elim exE conjE) (rule that)
  from optional_sweep [OF pos(2) extent, of "le (Num 7) (ticks_to_px ?beat z)" "\<lambda>t. t mod ?bar \<noteq> 0" z x0 x1]
  obtain beats where beats: "(if le (Num 7) (ticks_to_px ?beat z)
        then sweep_window (\<lambda>t. t mod ?bar \<noteq> 0) ?beat extent z x0 x1 else Some []) = Some beats"
    "sorted_wrt (<) beats" "\<forall>t \<in> set beats. t \<in> window_ticks ?beat extent z x0 x1 \<and> t mod ?bar \<noteq> 0"
    by (elim exE conjE) (rule that)
  from sweep_window_ends [OF bar_step_positive extent, of "\<lambda>_. True" ?bar stride z x0 x1]
  obtain bars where bars: "sweep_window (\<lambda>_. True) (bar_step ?bar stride) extent z x0 x1 = Some bars"
    "sorted_wrt (<) bars" "set bars = window_ticks (bar_step ?bar stride) extent z x0 x1" by auto
  have "grid_lines ppqn grid_den beats_per_bar playhead z (x0, x1)
      = Some \<lparr> ln_minor = minor, ln_beats = beats, ln_bars = bars \<rparr>"
    unfolding grid_lines_def prod.case Let_def extent_def [symmetric] stride_def [symmetric] minor(1) beats(1) bars(1)
    by simp
  moreover have "t mod ?beat = 0" if "t \<in> set beats" for t
    using beats(3) that by (auto simp: window_ticks_def dvd_unat_mod)
  moreover have "t mod ?bar = 0" if "t \<in> set bars" for t
    using bar_step_ticks [OF pos(1) \<open>0 < stride\<close> extent] that bars(3) by blast
  ultimately show ?thesis using minor(2,3) beats(2,3) bars(2,3) stride
    unfolding extent_def
    by (intro exI [of _ "\<lparr> ln_minor = minor, ln_beats = beats, ln_bars = bars \<rparr>"] exI [of _ stride] conjI)
      (simp_all only: Lines.simps, fastforce+)
qed

theorem grid_drawn_witness:
  "\<exists>l stride. grid_lines 960 4 4 5000 (lit F32 (4 / 100)) (Num 0, Num 1400) = Some l \<and> 0 < stride
     \<and> set (ln_bars l) = window_ticks (bar_step 3840 stride) (128 * 3840) (lit F32 (4 / 100)) (Num 0) (Num 1400)"
proof -
  have bar: "ticks_per_bar 960 4 = 3840" "max (3840 :: u64) 1 = 3840" by code_simp+
  have total: "total_ticks 3840 5000 = 128 * 3840" by code_simp
  have "(5000 :: u64) + ticks_per_bar 960 4 * 16 \<noteq> - 1" unfolding bar by simp
  from grid_drawn [OF this, of 4 "lit F32 (4 / 100)" "Num 0" "Num 1400"] show ?thesis
    unfolding bar total using bar_strides_positive by blast
qed

end
