(* ===== verification/Spec2Isabelle.thy ===== *)
theory Spec2Isabelle
  imports ClipEdit SessionClip EngineFaults SpectralPhaser PlanarScratch PluginParams McpPort TapRace PlaylistEdit SessionLink RollEdit RackLink
    CheckLink GridLines
begin

text \<open>
  A model of Hikaru, a digital audio workstation written in Rust, with the properties that make its
  core correct and the places where it is not.

  \<^bold>\<open>The program.\<close>  One process runs three kinds of threads.  The interface (crates/hikaru_gui) keeps a
  mixer, a session grid of pads (\<open>OpenLive\<close>), a timeline (\<open>OpenStudio\<close>) and a piano roll, and sends
  commands through a channel.  A command thread (main.rs) applies them to the audio engine
  (crates/hikaru_audio_engine), which is behind a mutex; preview threads decode single samples.  The
  callback of the sound card tries the mutex and renders a block.  Plugins are loaded by
  crates/hikaru_plugin_host into effect chains; each publishes what it renders through a lock-free
  ring (a tap) to the meters of the interface.  crates/hikaru_sequencer and crates/hikaru_transport
  hold the pads' event timelines, the session matrix and the musical clock, crates/hikaru_dsp the
  built-in effects, crates/hikaru_mcp_port the ports through which agents may connect.

  \<^bold>\<open>Theories.\<close>
    \<^item> \<open>Machine\<close>, \<open>Ieee\<close>: the prelude.  Machine words with saturation, lists as vectors, and IEEE floats
      as rationals with zeros, infinities and NaN (\<open>fp\<close>): an operation computes exactly and rounds
      (\<open>mk\<close>), for binary32 and binary64.
    \<^item> \<open>Transport\<close>, \<open>ClipTimeline\<close>, \<open>ClipEdit\<close>, \<open>SessionClip\<close>: transport_state.rs, clip.rs, matrix.rs of
      transport and sequencer; cutting and pasting of events, loop phase, quantisation.
    \<^item> \<open>EngineClip\<close>, \<open>DmsVoices\<close>, \<open>Preview\<close>, \<open>PluginChain\<close>, \<open>Engine\<close>, \<open>EngineProcess\<close>: the audio engine, data and
      control operations first, then \<open>process\<close> with its unchecked reads as \<open>None\<close>.  \<open>EngineControl\<close> has the
      properties of launching, \<open>EngineSafety\<close> the memory safety of rendering, \<open>EngineFaults\<close> where it fails.
    \<^item> \<open>PluginTap\<close>, \<open>TapRegistry\<close>, \<open>TapRace\<close>: tap.rs as a sequential ring, the registry of rings, and the ring
      with its two threads interleaved step by step.
    \<^item> \<open>PluginScan\<close>, \<open>PluginParams\<close>, \<open>PlanarScratch\<close>: discovery of plugins on disk, parameter snapshots and
      timers, block processing.
    \<^item> \<open>DspEffects\<close>, \<open>SpectralPhaser\<close>: the effects of crates/hikaru_dsp.
    \<^item> \<open>McpPort\<close>: configuration, connections and telemetry of the agent ports.
    \<^item> \<open>GuiTracks\<close>, \<open>GuiPlaylist\<close>, \<open>PlaylistEdit\<close>, \<open>GuiMatrix\<close>, \<open>MatrixEdit\<close>, \<open>PianoRoll\<close>, \<open>RollEdit\<close>: the state and
      operations of the interface, per view: mixer.rs and audio_proxy.rs, playlist.rs, matrix.rs and
      clipboard.rs, piano_roll.rs, each followed by its properties.  The sent commands are a list.
    \<^item> \<open>CommandLoop\<close>, \<open>SampleLoading\<close>, \<open>SessionLink\<close>: main.rs.  The dispatcher of commands, resampling, the
      threads as a step relation; then the session grid and the engine together.
    \<^item> \<open>ProjectFile\<close>, \<open>ProjectState\<close>, \<open>ProjectText\<close>, \<open>ProjectLink\<close>, \<open>LiveLink\<close>, \<open>ProjectFaults\<close>: the three crates of file
      formats and project/*.rs of the interface.  The formats as records, names and paths, the state of the
      whole interface (\<open>AppState\<close>), its capture into a document, the restore with the commands it sends,
      and the file menu; then the round trips of both formats and what opening a project leaves behind.
      serde is a \<open>codec\<close>, the disk and the decoders are a \<open>host\<close>.  The hypothesis on the codec is what
      serde_json documents: a document without infinities and NaN is read back with its floats passed through
      two functions, of which nothing is assumed (\<open>serde_ok\<close>).
    \<^item> \<open>ProjectCheck\<close>, \<open>CheckLink\<close>: the project commands of the console (hikaru_cli/src/project.rs), what a report
      without errors means, and what the interface opens from a file that passes.
    \<^item> \<open>PluginWindows\<close>: extra_plugins.rs, the thread that scans for plugins and the threads of their windows, as
      a step relation (\<open>panel_step\<close>) with what the main thread keeps of them.
    \<^item> \<open>AppFrame\<close>, \<open>FrameLink\<close>, \<open>RackLink\<close>: app.rs, the transport bar and the device rack.  One frame of the
      interface (\<open>sync_frame\<close>), the boxes and buttons, moving devices between strips; then the loop of the
      interface, the timeline and the engine together (\<open>deck_step\<close>), and the racks and the chains of the engine.
    \<^item> \<open>GridLines\<close>: the loops of playlist.rs that draw the lines of the timeline, as \<open>while_option\<close>.

  \<^bold>\<open>Lemmas.\<close>  Each component has an invariant its operations keep (\<open>engine_safe\<close>, \<open>taps_agree\<close>, \<open>race_ok\<close>,
  \<open>ipc_ok\<close>, \<open>matrix_ok\<close>, \<open>session_ok\<close>, \<open>loop_ok\<close>, \<open>scan_ok\<close>, \<open>loop_synced\<close>, \<open>rack_mirrored\<close>), what its operations do on every branch, and where the
  code promises more than it keeps, a theorem that shows the failure.  \<open>pads_agree\<close> relates the grid
  to the engine: a click keeps it, a scene launch keeps it under a hypothesis that
  \<open>midi_scene_leaves_audio\<close> shows to be needed.

  \<^bold>\<open>Conventions.\<close>  Arithmetic on words wraps, as in a release build.  A panic, and undefined behaviour,
  is \<open>None\<close> or a constructor of the result.  A \<open>Vec\<close> that is indexed by \<open>usize\<close> has fewer than \<open>2 ^ 62\<close>
  elements (\<open>vec_ok\<close>).  Shared buffers are addresses into a heap.  The mathematical library, the plugin
  instances, the WAV reader, the file system, Unicode lower case and the clock are arguments of the
  definitions that use them.  Recursion is structural or on a counter the code bounds itself (the
  directory walk stops at depth four), or a \<open>while_option\<close> whose end is proved (\<open>GridLines\<close>); no fuel is used.

  \<^bold>\<open>Not modelled.\<close>  Drawing and layout of the interface, the copies of gpui and vst3-host kept in the
  repository, the GPU renderer of the wavetable view (hikaru_render), devices (cpal, MIDI), windows
  and embedding of plugin editors (X11), the parsing of the command line and the MCP server: they render,
  or wrap foreign code.  The remaining editors are listed in the manifest.
\<close>

end
